(* ===== verification/Prelude.thy ===== *)
theory Prelude
  imports Main "HOL-Library.AList" "HOL-Library.Product_Lexorder"
begin

text \<open>
  The base of the development: the exceptions the program raises, the state-and-exception
  programs every operation is written in, their weakest preconditions, keyed tables (lists of
  rows with an integer primary key), JSON values and the insertion-ordered dictionaries of Python.
\<close>

section \<open>Automation\<close>

named_theorems wp_simps \<open>weakest-precondition equations of the program combinators\<close>
named_theorems tx_defs \<open>definitions of database transactions, unfolded on demand\<close>

section \<open>Exceptions\<close>

text \<open>
  One constructor per exception class the modelled code raises or catches. \<open>Diverges\<close> is not a
  Python exception: it is the result of a polling loop whose fuel ran out, and no \<open>except\<close> or
  \<open>finally\<close> clause sees it. \<open>OtherException\<close> is any exception of a class the code does not name.
\<close>

datatype exn =
    Diverges
  | ValueError | RuntimeError | AssertionError | NoResultFound | IntegrityError | OtherException
  | LifecycleJobConflictError | ShutdownJobConflictError | InvalidForcedShutdownError
  | HostPowerJobConflictError | HostPowerRequestError | HostPowerControlError
  | BackupJobConflictError | BackupCancelledError | BackupConsistencyError | BackupValidationError
  | DriveJobRequestError | DriveJobConflictError | GoogleDriveError | GoogleDriveCancelled
  | UpdateJobConflictError | UpdateRequestError | UpdateCancelledError
  | UpdateExecutionError string string
  | RestoreJobConflictError | RestoreRequestError | RestoreError string string
  | PalworldServiceControlError | PalworldServiceQueryError | PalworldProcessQueryError
  | PalworldRestOperationError | SteamCmdError | PalworldLogError
  | WorkerAlreadyRunningError | WorkerServiceQueryError | HostControlRequestError
  | DiscordDeliveryError string
  | InvalidUsernameError | AdministratorAlreadyExistsError | AdministratorNotFoundError
  | UsernameAlreadyExistsError | UserNotFoundError | SelfManagementError
  | LastActiveAdministratorError | PasswordTooShortError | PasswordTooLongError
  | ManagerSettingsValidationError | ManagerSettingsConflictError | StoredManagerSettingsError
  | PlayerAdministrationValidationError | PalworldRestError string
  | IniParseError | SettingValueError
  | PalworldSettingsValidationError | PalworldSettingsStorageError string

section \<open>Programs with state and exceptions\<close>

type_synonym ('s, 'a) prog = "'s \<Rightarrow> (exn + 'a) \<times> 's"

definition ret :: "'a \<Rightarrow> ('s, 'a) prog" where
  "ret x = (\<lambda>s. (Inr x, s))"

definition raise :: "exn \<Rightarrow> ('s, 'a) prog" where
  "raise e = (\<lambda>s. (Inl e, s))"

definition bnd :: "('s, 'a) prog \<Rightarrow> ('a \<Rightarrow> ('s, 'b) prog) \<Rightarrow> ('s, 'b) prog" where
  "bnd m f = (\<lambda>s. case m s of (r, t) \<Rightarrow> (case r of Inl e \<Rightarrow> (Inl e, t) | Inr x \<Rightarrow> f x t))"

definition andthen :: "('s, 'a) prog \<Rightarrow> ('s, 'b) prog \<Rightarrow> ('s, 'b) prog" where
  "andthen m n = bnd m (\<lambda>_. n)"

definition reads :: "('s \<Rightarrow> 'a) \<Rightarrow> ('s, 'a) prog" where
  "reads f = (\<lambda>s. (Inr (f s), s))"

definition modify :: "('s \<Rightarrow> 's) \<Rightarrow> ('s, unit) prog" where
  "modify f = (\<lambda>s. (Inr (), f s))"

text \<open>\<open>require b e\<close> is the code's \<open>if not b: raise e\<close>.\<close>

definition require :: "bool \<Rightarrow> exn \<Rightarrow> ('s, unit) prog" where
  "require b e = (if b then ret () else raise e)"

text \<open>\<open>try: m except Exception as e: h e\<close>; the handler re-raises what it does not catch.\<close>

definition handle :: "('s, 'a) prog \<Rightarrow> (exn \<Rightarrow> ('s, 'a) prog) \<Rightarrow> ('s, 'a) prog" where
  "handle m h = (\<lambda>s. case m s of (r, t) \<Rightarrow>
     (case r of Inl e \<Rightarrow> if e = Diverges then (Inl e, t) else h e t | Inr x \<Rightarrow> (Inr x, t)))"

text \<open>\<open>try: m finally: fin\<close>.\<close>

definition always :: "('s, 'a) prog \<Rightarrow> ('s, 'b) prog \<Rightarrow> ('s, 'a) prog" where
  "always m fin = (\<lambda>s. case m s of (r, t) \<Rightarrow>
     (case r of
        Inl e \<Rightarrow> if e = Diverges then (Inl e, t) else bnd fin (\<lambda>_. raise e) t
      | Inr x \<Rightarrow> bnd fin (\<lambda>_. ret x) t))"

text \<open>A transaction that raised leaves no trace: \<open>rollback\<close> restores the state it started in.\<close>

definition rollback :: "('s, 'a) prog \<Rightarrow> ('s, 'a) prog" where
  "rollback m = (\<lambda>s. case m s of (r, t) \<Rightarrow> (case r of Inl e \<Rightarrow> (Inl e, s) | Inr x \<Rightarrow> (Inr x, t)))"

text \<open>\<open>for x in xs: f x\<close>.\<close>

fun for_each :: "'b list \<Rightarrow> ('b \<Rightarrow> ('s, unit) prog) \<Rightarrow> ('s, unit) prog" where
  "for_each [] f = ret ()"
| "for_each (x # xs) f = andthen (f x) (for_each xs f)"

subsection \<open>Weakest preconditions\<close>

definition wp :: "('s, 'a) prog \<Rightarrow> ('a \<Rightarrow> 's \<Rightarrow> bool) \<Rightarrow> (exn \<Rightarrow> 's \<Rightarrow> bool) \<Rightarrow> 's \<Rightarrow> bool" where
  "wp m Q E s = (case m s of (r, t) \<Rightarrow> (case r of Inl e \<Rightarrow> E e t | Inr x \<Rightarrow> Q x t))"

lemma wp_ret [wp_simps]: "wp (ret x) Q E s = Q x s"
  by (simp add: wp_def ret_def)

lemma wp_raise [wp_simps]: "wp (raise e) Q E s = E e s"
  by (simp add: wp_def raise_def)

lemma wp_bnd [wp_simps]: "wp (bnd m f) Q E s = wp m (\<lambda>x. wp (f x) Q E) E s"
  by (simp add: wp_def bnd_def split: prod.split sum.split)

lemma wp_andthen [wp_simps]: "wp (andthen m n) Q E s = wp m (\<lambda>_. wp n Q E) E s"
  by (simp add: andthen_def wp_bnd)

lemma wp_reads [wp_simps]: "wp (reads f) Q E s = Q (f s) s"
  by (simp add: wp_def reads_def)

lemma wp_modify [wp_simps]: "wp (modify f) Q E s = Q () (f s)"
  by (simp add: wp_def modify_def)

lemma wp_require [wp_simps]: "wp (require b e) Q E s = (if b then Q () s else E e s)"
  by (simp add: require_def wp_ret wp_raise)

lemma wp_if [wp_simps]: "wp (if b then m else n) Q E s = (if b then wp m Q E s else wp n Q E s)"
  by simp

lemma wp_handle [wp_simps]:
  "wp (handle m h) Q E s
     = wp m Q (\<lambda>e t. if e = Diverges then E e t else wp (h e) Q E t) s"
  by (simp add: wp_def handle_def split: prod.split sum.split)

lemma wp_always [wp_simps]:
  "wp (always m fin) Q E s
     = wp m (\<lambda>x. wp fin (\<lambda>_. Q x) E)
         (\<lambda>e t. if e = Diverges then E e t else wp fin (\<lambda>_. E e) E t) s"
  by (simp add: wp_def always_def bnd_def ret_def raise_def split: prod.split sum.split)

lemma wp_rollback [wp_simps]: "wp (rollback m) Q E s = wp m Q (\<lambda>e _. E e s) s"
  by (simp add: wp_def rollback_def split: prod.split sum.split)

lemma wp_case_option [wp_simps]:
  "wp (case x of None \<Rightarrow> m | Some y \<Rightarrow> f y) Q E s
     = (case x of None \<Rightarrow> wp m Q E s | Some y \<Rightarrow> wp (f y) Q E s)"
  by (simp split: option.split)

lemma wp_case_sum [wp_simps]:
  "wp (case x of Inl y \<Rightarrow> g y | Inr y \<Rightarrow> f y) Q E s
     = (case x of Inl y \<Rightarrow> wp (g y) Q E s | Inr y \<Rightarrow> wp (f y) Q E s)"
  by (simp split: sum.split)

lemma wp_case_prod [wp_simps]:
  "wp (case x of (y, z) \<Rightarrow> f y z) Q E s = (case x of (y, z) \<Rightarrow> wp (f y z) Q E s)"
  by (simp split: prod.split)

lemma wp_Let [wp_simps]: "wp (Let x f) Q E s = wp (f x) Q E s"
  by simp

lemma wp_mono:
  assumes "wp m Q E s"
    and "\<And>x t. Q x t \<Longrightarrow> Q' x t"
    and "\<And>e t. E e t \<Longrightarrow> E' e t"
  shows "wp m Q' E' s"
  using assms by (auto simp: wp_def split: prod.splits sum.splits)

lemma wp_conj:
  assumes "wp m Q E s" and "wp m Q' E' s"
  shows "wp m (\<lambda>x t. Q x t \<and> Q' x t) (\<lambda>e t. E e t \<and> E' e t) s"
  using assms by (auto simp: wp_def split: prod.splits sum.splits)

text \<open>Reading a result off a weakest precondition, and back.\<close>

lemma wp_InrD: "wp m Q E s \<Longrightarrow> m s = (Inr x, t) \<Longrightarrow> Q x t"
  by (simp add: wp_def)

lemma wp_InlD: "wp m Q E s \<Longrightarrow> m s = (Inl e, t) \<Longrightarrow> E e t"
  by (simp add: wp_def)

lemma wpI:
  assumes "\<And>x t. m s = (Inr x, t) \<Longrightarrow> Q x t" and "\<And>e t. m s = (Inl e, t) \<Longrightarrow> E e t"
  shows "wp m Q E s"
  using assms by (auto simp: wp_def split: prod.split sum.split)

text \<open>A predicate on states that every step of a loop keeps is kept by the loop.\<close>

lemma wp_for_each:
  assumes "\<And>x t. x \<in> set xs \<Longrightarrow> I t \<Longrightarrow> wp (f x) (\<lambda>_. I) E t" and "I s"
  shows "wp (for_each xs f) (\<lambda>_. I) E s"
  using assms
proof (induction xs arbitrary: s)
  case Nil
  then show ?case by (simp add: wp_simps)
next
  case (Cons x xs)
  from Cons.prems have "wp (f x) (\<lambda>_. I) E s" by simp
  then have "wp (f x) (\<lambda>_. wp (for_each xs f) (\<lambda>_. I) E) E s"
    by (rule wp_mono) (use Cons in auto)
  then show ?case by (simp add: wp_simps)
qed

section \<open>Evaluating programs\<close>

text \<open>Equations with the state as an argument: a program is run on a state, not under a binder.\<close>

lemma run_code:
  "ret x s = (Inr x, s)"
  "raise e s = (Inl e, s)"
  "bnd m f s = (case m s of (Inl e, t) \<Rightarrow> (Inl e, t) | (Inr x, t) \<Rightarrow> f x t)"
  "andthen m n s = (case m s of (Inl e, t) \<Rightarrow> (Inl e, t) | (Inr x, t) \<Rightarrow> n t)"
  "reads g s = (Inr (g s), s)"
  "modify h s = (Inr (), h s)"
  "require b e s = (if b then (Inr (), s) else (Inl e, s))"
  "handle m k s = (case m s of (Inl e, t) \<Rightarrow> if e = Diverges then (Inl e, t) else k e t | (Inr x, t) \<Rightarrow> (Inr x, t))"
  "always m fin s = (case m s of
     (Inl e, t) \<Rightarrow> if e = Diverges then (Inl e, t) else (case fin t of (Inl e', u) \<Rightarrow> (Inl e', u) | (Inr _, u) \<Rightarrow> (Inl e, u))
   | (Inr x, t) \<Rightarrow> (case fin t of (Inl e', u) \<Rightarrow> (Inl e', u) | (Inr _, u) \<Rightarrow> (Inr x, u)))"
  "rollback m s = (case m s of (Inl e, t) \<Rightarrow> (Inl e, s) | (Inr x, t) \<Rightarrow> (Inr x, t))"
  by (auto simp: ret_def raise_def bnd_def andthen_def reads_def modify_def require_def handle_def
      always_def rollback_def split: prod.split sum.split)

lemmas run_defs = ret_def raise_def bnd_def andthen_def reads_def modify_def require_def
  handle_def always_def rollback_def

section \<open>Tables of rows with an integer primary key\<close>

definition row_get :: "('r \<Rightarrow> int) \<Rightarrow> int \<Rightarrow> 'r list \<Rightarrow> 'r option" where
  "row_get key k rs = List.find (\<lambda>r. key r = k) rs"

definition row_put :: "('r \<Rightarrow> int) \<Rightarrow> 'r \<Rightarrow> 'r list \<Rightarrow> 'r list" where
  "row_put key r rs = map (\<lambda>x. if key x = key r then r else x) rs"

definition row_delete :: "('r \<Rightarrow> int) \<Rightarrow> int \<Rightarrow> 'r list \<Rightarrow> 'r list" where
  "row_delete key k rs = filter (\<lambda>x. key x \<noteq> k) rs"

text \<open>SQLite gives a new row of an INTEGER PRIMARY KEY column one more than the largest key.\<close>

definition fresh_key :: "('r \<Rightarrow> int) \<Rightarrow> 'r list \<Rightarrow> int" where
  "fresh_key key rs = 1 + foldr (\<lambda>r m. max (key r) m) rs 0"

lemma fresh_key_gt: "r \<in> set rs \<Longrightarrow> key r < fresh_key key rs"
  by (induction rs) (auto simp: fresh_key_def)

lemma fresh_key_pos: "0 < fresh_key key rs"
proof -
  have "0 \<le> foldr (\<lambda>r m. max (key r) m) rs 0" by (induction rs) auto
  then show ?thesis by (simp add: fresh_key_def)
qed

lemma fresh_key_notin: "fresh_key key rs \<notin> key ` set rs"
proof
  assume "fresh_key key rs \<in> key ` set rs"
  then obtain r where "r \<in> set rs" and "key r = fresh_key key rs" by force
  then show False using fresh_key_gt [of r rs key] by simp
qed

lemma row_get_Some: "row_get key k rs = Some r \<Longrightarrow> r \<in> set rs \<and> key r = k"
  by (auto simp: row_get_def find_Some_iff)

lemma row_get_None: "row_get key k rs = None \<longleftrightarrow> k \<notin> key ` set rs"
  by (auto simp: row_get_def find_None_iff)

lemma row_get_in:
  "distinct (map key rs) \<Longrightarrow> r \<in> set rs \<Longrightarrow> row_get key (key r) rs = Some r"
  by (induction rs) (auto simp: row_get_def)

lemma row_get_put_same [simp]:
  "row_get key (key r) rs \<noteq> None \<Longrightarrow> row_get key (key r) (row_put key r rs) = Some r"
  by (induction rs) (auto simp: row_get_def row_put_def)

lemma row_get_put_other [simp]:
  "key r \<noteq> k \<Longrightarrow> row_get key k (row_put key r rs) = row_get key k rs"
  by (induction rs) (auto simp: row_get_def row_put_def)

lemma map_key_row_put [simp]: "map key (row_put key r rs) = map key rs"
  by (auto simp: row_put_def)

lemma set_row_put:
  "x \<in> set (row_put key r rs) \<Longrightarrow> x = r \<or> (x \<in> set rs \<and> key x \<noteq> key r)"
  by (auto simp: row_put_def)

lemma in_row_put_other: "x \<in> set rs \<Longrightarrow> key x \<noteq> key r \<Longrightarrow> x \<in> set (row_put key r rs)"
  by (auto simp: row_put_def image_iff)

lemma row_get_append [simp]:
  "row_get key k (rs @ [r])
     = (case row_get key k rs of None \<Rightarrow> (if key r = k then Some r else None) | Some x \<Rightarrow> Some x)"
  by (induction rs) (auto simp: row_get_def)

section \<open>Queries\<close>

text \<open>\<open>ORDER BY\<close> is a stable sort on a key, descending by negated components; \<open>LIMIT 1\<close> with
  \<open>session.scalar\<close> is the first row or none.\<close>

definition order_by :: "('r \<Rightarrow> 'k::linorder) \<Rightarrow> 'r list \<Rightarrow> 'r list" where
  "order_by f rs = sort_key f rs"

definition limit1 :: "'r list \<Rightarrow> 'r option" where
  "limit1 rs = (case rs of [] \<Rightarrow> None | r # _ \<Rightarrow> Some r)"

lemma set_order_by [simp]: "set (order_by f rs) = set rs"
  by (simp add: order_by_def)

lemma length_order_by [simp]: "length (order_by f rs) = length rs"
  by (simp add: order_by_def)

lemma order_by_empty [simp]: "order_by f rs = [] \<longleftrightarrow> rs = []"
  by (metis length_0_conv length_order_by)

lemma distinct_order_by [simp]: "distinct (map key (order_by f rs)) = distinct (map key rs)"
  by (simp add: order_by_def distinct_map)

lemma limit1_None [simp]: "limit1 rs = None \<longleftrightarrow> rs = []"
  by (simp add: limit1_def split: list.split)

lemma limit1_in: "limit1 rs = Some r \<Longrightarrow> r \<in> set rs"
  by (auto simp: limit1_def split: list.splits)

lemma limit1_order_by_least:
  assumes "limit1 (order_by f rs) = Some r" and "x \<in> set rs"
  shows "f r \<le> f x"
proof -
  from assms(1) obtain rest where "sort_key f rs = r # rest"
    by (auto simp: limit1_def order_by_def split: list.splits)
  moreover have "sorted (map f (sort_key f rs))" by simp
  moreover have "x \<in> set (sort_key f rs)" using assms(2) by simp
  ultimately show ?thesis by auto
qed

section \<open>JSON values and dictionaries\<close>

datatype json =
    JNull
  | JBool bool
  | JInt int
  | JStr string
  | JArr "json list"
  | JObj "(string \<times> json) list"

type_synonym dict = "(string \<times> json) list"

text \<open>
  A dictionary keeps its insertion order; assigning to a present key keeps its place. That is
  \<open>AList.update\<close>. \<open>dict_merge a b\<close> is \<open>{**a, **b}\<close>, and \<open>dict_of\<close> is \<open>x or {}\<close>.
\<close>

definition dict_get :: "dict \<Rightarrow> string \<Rightarrow> json option" where
  "dict_get d k = map_of d k"

definition dict_merge :: "dict \<Rightarrow> dict \<Rightarrow> dict" where
  "dict_merge a b = fold (\<lambda>(k, v). AList.update k v) b a"

definition dict_of :: "dict option \<Rightarrow> dict" where
  "dict_of r = (case r of None \<Rightarrow> [] | Some d \<Rightarrow> d)"

lemma dict_get_merge: "dict_get (dict_merge a b) k = (map_of a ++ map_of (rev b)) k"
proof (induction b arbitrary: a)
  case Nil
  then show ?case by (simp add: dict_get_def dict_merge_def)
next
  case (Cons p b)
  obtain l v where p: "p = (l, v)" by force
  have "dict_get (dict_merge (AList.update l v a) b) k
          = (map_of (AList.update l v a) ++ map_of (rev b)) k"
    by (rule Cons.IH)
  then show ?case
    by (simp add: p dict_get_def dict_merge_def update_conv' map_add_def split: option.split)
qed

lemma dict_get_update [simp]:
  "dict_get (AList.update k v d) l = (if l = k then Some v else dict_get d l)"
  by (simp add: dict_get_def update_conv')

text \<open>\<open>isinstance(value, int) and not isinstance(value, bool)\<close>, \<open>isinstance(value, str)\<close>.\<close>

definition json_int :: "json option \<Rightarrow> int option" where
  "json_int v = (case v of Some (JInt n) \<Rightarrow> Some n | _ \<Rightarrow> None)"

definition json_str :: "json option \<Rightarrow> string option" where
  "json_str v = (case v of Some (JStr s) \<Rightarrow> Some s | _ \<Rightarrow> None)"

definition json_bool :: "json option \<Rightarrow> bool option" where
  "json_bool v = (case v of Some (JBool b) \<Rightarrow> Some b | _ \<Rightarrow> None)"

definition jopt_int :: "int option \<Rightarrow> json" where
  "jopt_int v = (case v of None \<Rightarrow> JNull | Some n \<Rightarrow> JInt n)"

definition jopt_str :: "string option \<Rightarrow> json" where
  "jopt_str v = (case v of None \<Rightarrow> JNull | Some s \<Rightarrow> JStr s)"

lemma json_int_Some_iff [simp]: "json_int v = Some n \<longleftrightarrow> v = Some (JInt n)"
  by (auto simp: json_int_def split: option.splits json.splits)

lemma json_str_Some_iff [simp]: "json_str v = Some s \<longleftrightarrow> v = Some (JStr s)"
  by (auto simp: json_str_def split: option.splits json.splits)

lemma json_bool_Some_iff [simp]: "json_bool v = Some b \<longleftrightarrow> v = Some (JBool b)"
  by (auto simp: json_bool_def split: option.splits json.splits)

end
