(* ===== verification/PyText.thy ===== *)
theory PyText
  imports Prelude "HOL-Library.Log_Nat"
begin

text \<open>
  The parts of Python's \<open>str\<close>, \<open>re\<close>, \<open>json.dumps\<close> and \<open>float\<close> the program uses. A \<open>string\<close>
  is a list of code points below 256 (Latin-1), which covers every literal of the program that the
  model keeps. The character classes are the ones Python gives those code points.
\<close>

section \<open>Characters\<close>

definition code :: "char \<Rightarrow> nat" where
  "code c = of_char c"

text \<open>\<open>str.isspace\<close>, the set \<open>str.strip\<close> removes and \<open>\\s\<close> matches.\<close>

definition is_space :: "char \<Rightarrow> bool" where
  "is_space c = (let n = code c in (9 \<le> n \<and> n \<le> 13) \<or> (28 \<le> n \<and> n \<le> 32) \<or> n = 133 \<or> n = 160)"

definition is_digit :: "char \<Rightarrow> bool" where
  "is_digit c = (let n = code c in 48 \<le> n \<and> n \<le> 57)"

definition is_upper :: "char \<Rightarrow> bool" where
  "is_upper c = (let n = code c in 65 \<le> n \<and> n \<le> 90)"

definition is_lower :: "char \<Rightarrow> bool" where
  "is_lower c = (let n = code c in 97 \<le> n \<and> n \<le> 122)"

text \<open>\<open>\\w\<close>: alphanumeric in the sense of \<open>str.isalnum\<close>, or an underscore.\<close>

definition is_word :: "char \<Rightarrow> bool" where
  "is_word c = (let n = code c in
     is_digit c \<or> is_upper c \<or> is_lower c \<or> n = 95
     \<or> n \<in> {170, 178, 179, 181, 185, 186, 188, 189, 190}
     \<or> (192 \<le> n \<and> n \<noteq> 215 \<and> n \<noteq> 247))"

definition to_lower :: "char \<Rightarrow> char" where
  "to_lower c = (if is_upper c then char_of (code c + 32) else c)"

section \<open>Strings\<close>

definition lstrip :: "string \<Rightarrow> string" where
  "lstrip s = dropWhile is_space s"

definition rstrip :: "string \<Rightarrow> string" where
  "rstrip s = rev (dropWhile is_space (rev s))"

definition strip :: "string \<Rightarrow> string" where
  "strip s = rstrip (lstrip s)"

fun starts_with :: "string \<Rightarrow> string \<Rightarrow> bool" where
  "starts_with s [] = True"
| "starts_with [] (p # ps) = False"
| "starts_with (c # cs) (p # ps) = (c = p \<and> starts_with cs ps)"

definition ends_with :: "string \<Rightarrow> string \<Rightarrow> bool" where
  "ends_with s t \<longleftrightarrow> starts_with (rev s) (rev t)"

text \<open>\<open>s.removeprefix(p)\<close>.\<close>

definition remove_prefix :: "string \<Rightarrow> string \<Rightarrow> string" where
  "remove_prefix s p = (if starts_with s p then drop (length p) s else s)"

lemma starts_with_append [simp]: "starts_with (p @ s) p"
  by (induction p) auto

lemma remove_prefix_append [simp]: "remove_prefix (p @ s) p = s"
  by (simp add: remove_prefix_def)

lemma lstrip_append_takeWhile: "takeWhile is_space s @ lstrip s = s"
  by (simp add: lstrip_def)

lemma length_lstrip_le: "length (lstrip s) \<le> length s"
  by (simp add: lstrip_def length_dropWhile_le)

lemma length_rstrip_le: "length (rstrip s) \<le> length s"
  by (metis length_dropWhile_le length_rev rstrip_def)

text \<open>
  Portuguese message texts: a tilde, acute, circumflex or cedilla is written before its letter
  (\<open>~a\<close>, \<open>/e\<close>, \<open>^o\<close>, \<open>_c\<close>) and \<open>msg_text\<close> gives the code point the source has.
\<close>

definition accent :: "char \<Rightarrow> char \<Rightarrow> char option" where
  "accent a c =
     (if a = CHR ''~'' \<and> c = CHR ''a'' then Some (CHR 0xE3)
      else if a = CHR ''~'' \<and> c = CHR ''o'' then Some (CHR 0xF5)
      else if a = CHR ''/'' \<and> c = CHR ''a'' then Some (CHR 0xE1)
      else if a = CHR ''/'' \<and> c = CHR ''e'' then Some (CHR 0xE9)
      else if a = CHR ''/'' \<and> c = CHR ''i'' then Some (CHR 0xED)
      else if a = CHR ''/'' \<and> c = CHR ''o'' then Some (CHR 0xF3)
      else if a = CHR ''/'' \<and> c = CHR ''u'' then Some (CHR 0xFA)
      else if a = CHR ''^'' \<and> c = CHR ''a'' then Some (CHR 0xE2)
      else if a = CHR ''^'' \<and> c = CHR ''e'' then Some (CHR 0xEA)
      else if a = CHR ''^'' \<and> c = CHR ''o'' then Some (CHR 0xF4)
      else if a = CHR ''_'' \<and> c = CHR ''c'' then Some (CHR 0xE7)
      else None)"

fun msg_text :: "string \<Rightarrow> string" where
  "msg_text [] = []"
| "msg_text [c] = [c]"
| "msg_text (a # c # cs) = (case accent a c of Some x \<Rightarrow> x # msg_text cs | None \<Rightarrow> a # msg_text (c # cs))"

section \<open>Decimal numerals\<close>

fun digits_of :: "nat \<Rightarrow> string" where
  "digits_of n = (if n < 10 then [char_of (48 + n)]
                  else digits_of (n div 10) @ [char_of (48 + n mod 10)])"

declare digits_of.simps [simp del]

definition str_int :: "int \<Rightarrow> string" where
  "str_int i = (if i < 0 then CHR ''-'' # digits_of (nat (- i)) else digits_of (nat i))"

text \<open>\<open>f"{n:06d}"\<close> for a non-negative number.\<close>

definition pad6 :: "int \<Rightarrow> string" where
  "pad6 i = (let s = str_int i in replicate (6 - length s) (CHR ''0'') @ s)"

section \<open>Lines, partitions and numerals\<close>

text \<open>\<open>str.splitlines\<close>: the line boundaries below 256, with a carriage return and line feed as one.\<close>

definition is_line_break :: "char \<Rightarrow> bool" where
  "is_line_break c = (let n = code c in (10 \<le> n \<and> n \<le> 13) \<or> (28 \<le> n \<and> n \<le> 30) \<or> n = 133)"

fun splitlines_from :: "string \<Rightarrow> string \<Rightarrow> string list" where
  "splitlines_from acc [] = (if acc = [] then [] else [rev acc])"
| "splitlines_from acc (c # cs) =
     (if is_line_break c then
        rev acc # (case cs of
            d # ds \<Rightarrow> (if code c = 13 \<and> code d = 10 then splitlines_from [] ds else splitlines_from [] cs)
          | [] \<Rightarrow> [])
      else splitlines_from (c # acc) cs)"

definition splitlines :: "string \<Rightarrow> string list" where
  "splitlines s = splitlines_from [] s"

text \<open>\<open>s.partition(c)\<close>: what precedes and what follows the first \<open>c\<close>, or nothing when there is none.\<close>

definition partition_at :: "char \<Rightarrow> string \<Rightarrow> (string \<times> string) option" where
  "partition_at c s = (if c \<in> set s then Some (takeWhile (\<lambda>x. x \<noteq> c) s, tl (dropWhile (\<lambda>x. x \<noteq> c) s))
                       else None)"

lemma partition_at_Some: "partition_at c s = Some (a, b) \<Longrightarrow> s = a @ c # b \<and> c \<notin> set a"
proof -
  assume h: "partition_at c s = Some (a, b)"
  then have c: "c \<in> set s" and ab: "a = takeWhile (\<lambda>x. x \<noteq> c) s" "b = tl (dropWhile (\<lambda>x. x \<noteq> c) s)"
    by (auto simp: partition_at_def split: if_splits)
  from c have "dropWhile (\<lambda>x. x \<noteq> c) s \<noteq> []" by (simp add: dropWhile_eq_Nil_conv)
  then have "dropWhile (\<lambda>x. x \<noteq> c) s = c # b"
    using hd_dropWhile [of "\<lambda>x. x \<noteq> c" s] ab by (cases "dropWhile (\<lambda>x. x \<noteq> c) s") auto
  then show ?thesis using ab by (metis (mono_tags, lifting) set_takeWhileD takeWhile_dropWhile_id)
qed

text \<open>\<open>str.isdigit\<close> accepts the superscripts, \<open>int\<close> does not; \<open>int\<close> takes at most 4300 digits.\<close>

definition isdigit :: "string \<Rightarrow> bool" where
  "isdigit s = (s \<noteq> [] \<and> list_all (\<lambda>c. is_digit c \<or> code c \<in> {178, 179, 185}) s)"

definition nat_of_digits :: "string \<Rightarrow> nat" where
  "nat_of_digits s = fold (\<lambda>c n. 10 * n + (code c - 48)) s 0"

definition parse_int :: "string \<Rightarrow> int option" where
  "parse_int s = (if s \<noteq> [] \<and> list_all is_digit s \<and> int (length s) \<le> 4300 then Some (int (nat_of_digits s)) else None)"

section \<open>The length of a JSON text\<close>

text \<open>
  The number of bytes of \<open>json.dumps(value, ensure_ascii=False, sort_keys=True)\<close> in UTF-8: the
  default separators are a comma or a colon followed by a space, control characters are escaped,
  and a code point from 128 on takes two bytes. Sorting the keys does not change the length.
\<close>

definition json_char_len :: "char \<Rightarrow> nat" where
  "json_char_len c = (let n = code c in
     if n = 34 \<or> n = 92 \<or> n \<in> {8, 9, 10, 12, 13} then 2
     else if n < 32 then 6 else if n < 128 then 1 else 2)"

definition json_str_len :: "string \<Rightarrow> nat" where
  "json_str_len s = 2 + sum_list (map json_char_len s)"

fun json_len :: "json \<Rightarrow> nat" where
  "json_len JNull = 4"
| "json_len (JBool b) = (if b then 4 else 5)"
| "json_len (JInt i) = length (str_int i)"
| "json_len (JStr s) = json_str_len s"
| "json_len (JArr xs) = 2 + sum_list (map json_len xs) + 2 * (length xs - 1)"
| "json_len (JObj m) =
     2 + sum_list (map (\<lambda>(k, v). json_str_len k + 2 + json_len v) m) + 2 * (length m - 1)"

section \<open>Durations in floating point\<close>

text \<open>
  \<open>int(duration.total_seconds() * 1_000)\<close> for a non-negative duration in microseconds.
  \<open>total_seconds\<close> divides by a million in double precision and the product is rounded again, so
  the result can be one below the exact quotient. \<open>nearest_double n d\<close> is the double nearest to
  \<open>n / d\<close>, as a mantissa and a binary exponent.
\<close>

definition round_half_even :: "int \<Rightarrow> int \<Rightarrow> int" where
  "round_half_even n d = (let q = n div d; r = n mod d in
     if 2 * r < d then q else if d < 2 * r then q + 1 else if even q then q else q + 1)"

definition scaled :: "int \<Rightarrow> int \<Rightarrow> int \<Rightarrow> int \<times> int" where
  "scaled n d e = (if 0 \<le> e then (n, d * 2 ^ nat e) else (n * 2 ^ nat (- e), d))"

definition nearest_double :: "int \<Rightarrow> int \<Rightarrow> int \<times> int" where
  "nearest_double n d =
     (if n = 0 then (0, 0)
      else (let e = bitlen n - bitlen d - 53;
                e' = (if 2 ^ 53 * snd (scaled n d e) \<le> fst (scaled n d e) then e + 1 else e)
            in (round_half_even (fst (scaled n d e')) (snd (scaled n d e')), e')))"

definition times_double :: "int \<Rightarrow> int \<times> int \<Rightarrow> int \<times> int" where
  "times_double k x = (case x of (m, e) \<Rightarrow>
     if 0 \<le> e then nearest_double (k * m * 2 ^ nat e) 1 else nearest_double (k * m) (2 ^ nat (- e)))"

definition trunc_double :: "int \<times> int \<Rightarrow> int" where
  "trunc_double x = (case x of (m, e) \<Rightarrow> if 0 \<le> e then m * 2 ^ nat e else m div 2 ^ nat (- e))"

definition duration_millis :: "int \<Rightarrow> int" where
  "duration_millis us = trunc_double (times_double 1000 (nearest_double us 1000000))"

lemma round_half_even_nonneg: "0 \<le> n \<Longrightarrow> 0 < d \<Longrightarrow> 0 \<le> round_half_even n d"
  by (auto simp: round_half_even_def Let_def intro: add_nonneg_nonneg pos_imp_zdiv_nonneg_iff [THEN iffD2])

lemma nearest_double_nonneg: "0 \<le> n \<Longrightarrow> 0 < d \<Longrightarrow> 0 \<le> fst (nearest_double n d)"
  by (auto simp: nearest_double_def Let_def scaled_def intro!: round_half_even_nonneg)

lemma duration_millis_nonneg:
  assumes "0 \<le> us"
  shows "0 \<le> duration_millis us"
proof -
  obtain m e where me: "nearest_double us 1000000 = (m, e)" by force
  then have "0 \<le> m" using nearest_double_nonneg [of us 1000000] assms by simp
  then have "0 \<le> fst (times_double 1000 (m, e))"
    by (auto simp: times_double_def intro!: nearest_double_nonneg)
  then show ?thesis
    by (auto simp: duration_millis_def me trunc_double_def pos_imp_zdiv_nonneg_iff
        split: prod.splits)
qed

text \<open>\<open>str.casefold()\<close> of Latin-1: lower case, and the sharp s as two letters.\<close>

definition casefold_char :: "char \<Rightarrow> string" where
  "casefold_char c = (let n = code c in
     if n = 223 then ''ss''
     else if 65 \<le> n \<and> n \<le> 90 \<or> 192 \<le> n \<and> n \<le> 222 \<and> n \<noteq> 215 then [char_of (n + 32)] else [c])"

definition casefold :: "string \<Rightarrow> string" where
  "casefold s = concat (List.map casefold_char s)"

end
