(* ===== verification/Store.thy ===== *)
theory Store
  imports PyText
begin

text \<open>
  The database of the Manager (\<open>app/db/models\<close>): one record per mapped class, a table as the list
  of its rows in insertion order, and the database as the record of the tables. Times are
  microseconds since the epoch in UTC; SQLite's CURRENT_TIMESTAMP default has whole seconds.
  A column that the code only ever fills from a fixed set of constants is a datatype whose
  constructors are those constants.
\<close>

section \<open>Column types\<close>

datatype job_status =
    JOB_STATUS_PENDING | JOB_STATUS_RUNNING | JOB_STATUS_SUCCEEDED | JOB_STATUS_FAILED
  | JOB_STATUS_CANCELLED | JOB_STATUS_INTERRUPTED

datatype notification_status =
    NOTIFICATION_STATUS_PENDING | NOTIFICATION_STATUS_SENDING | NOTIFICATION_STATUS_SENT
  | NOTIFICATION_STATUS_FAILED

datatype audit_result =
    AUDIT_RESULT_SUCCESS | AUDIT_RESULT_FAILURE | AUDIT_RESULT_CANCELLED
  | AUDIT_RESULT_INTERRUPTED

datatype audit_origin = AUDIT_ORIGIN_ADMINISTRATOR | AUDIT_ORIGIN_AUTOMATIC | AUDIT_ORIGIN_SYSTEM

datatype user_role = ADMIN | USER

datatype backup_location = LOCAL | DRIVE

section \<open>Rows\<close>

record job =
  j_id :: int
  j_kind :: string
  j_status :: job_status
  j_step :: string
  j_progress :: int
  j_is_cancellable :: bool
  j_cancel_requested :: bool
  j_execute_now_requested :: bool
  j_requires_maintenance_lock :: bool
  j_coordination_key :: "string option"
  j_requested_by_user_id :: "int option"
  j_claimed_by :: "string option"
  j_claimed_at :: "int option"
  j_started_at :: "int option"
  j_finished_at :: "int option"
  j_result :: "dict option"
  j_log_path :: "string option"
  j_created_at :: int

record maintenance_lock =
  l_key :: string
  l_job_id :: int
  l_worker_id :: string
  l_acquired_at :: int

record worker_heartbeat =
  h_worker_id :: string
  h_started_at :: int
  h_heartbeat_at :: int

record notification_event =
  n_id :: int
  n_event_type :: string
  n_channel :: string
  n_status :: notification_status
  n_created_at :: int
  n_updated_at :: int
  n_job_id :: "int option"
  n_attempts :: int
  n_next_attempt_at :: "int option"
  n_delivered_at :: "int option"
  n_last_error :: "string option"

record audit_event =
  a_id :: int
  a_occurred_at :: int
  a_action :: string
  a_result :: audit_result
  a_origin :: audit_origin
  a_user_id :: "int option"
  a_job_id :: "int option"
  a_target :: "string option"
  a_reason :: "string option"
  a_duration_ms :: "int option"
  a_details :: "dict option"

record backup_record =
  b_id :: int
  b_job_id :: "int option"
  b_filename :: string
  b_location :: backup_location
  b_status :: string
  b_sha256 :: "string option"
  b_size_bytes :: "int option"
  b_storage_path :: string
  b_created_at :: int

record app_setting =
  s_value :: json
  s_updated_at :: int
  s_updated_by_user_id :: "int option"

record user =
  u_id :: int
  u_username :: string
  u_username_key :: string
  u_password_hash :: string
  u_role :: user_role
  u_is_active :: bool
  u_password_change_required :: bool
  u_updated_at :: int

record session_record =
  r_id :: int
  r_user_id :: int
  r_token_hash :: string
  r_csrf_token_hash :: string
  r_expires_at :: int
  r_last_seen_at :: int
  r_revoked_at :: "int option"

record login_attempt =
  t_id :: int
  t_user_id :: "int option"
  t_username :: "string option"
  t_source_address :: "string option"
  t_successful :: bool
  t_attempted_at :: int
  t_blocked_until :: "int option"

section \<open>The database\<close>

record db =
  jobs :: "job list"
  locks :: "maintenance_lock list"
  heartbeats :: "(string \<times> worker_heartbeat) list"
  notifications :: "notification_event list"
  audit :: "audit_event list"
  backups :: "backup_record list"
  settings :: "(string \<times> app_setting) list"
  users :: "user list"
  sessions :: "session_record list"
  attempts :: "login_attempt list"

definition empty_db :: db where
  "empty_db = \<lparr>jobs = [], locks = [], heartbeats = [], notifications = [], audit = [],
     backups = [], settings = [], users = [], sessions = [], attempts = []\<rparr>"

text \<open>Seconds and microseconds.\<close>

definition seconds :: "int \<Rightarrow> int" where
  "seconds n = n * 1000000"

definition current_timestamp :: "int \<Rightarrow> int" where
  "current_timestamp now = now div 1000000 * 1000000"

section \<open>Tables as an interface\<close>

text \<open>
  What the operations rely on when they read and write the rows of one table: a write changes that
  table as said and a read of it sees the last write.
\<close>

locale table =
  fixes rows :: "'d \<Rightarrow> 'r list"
    and change :: "('r list \<Rightarrow> 'r list) \<Rightarrow> 'd \<Rightarrow> 'd"
    and key :: "'r \<Rightarrow> int"
  assumes rows_change: "rows (change f d) = f (rows d)"
begin

lemma get_put_same:
  "row_get key (key r) (rows d) \<noteq> None \<Longrightarrow>
   row_get key (key r) (rows (change (row_put key r) d)) = Some r"
  by (simp add: rows_change)

lemma get_put_other:
  "key r \<noteq> k \<Longrightarrow> row_get key k (rows (change (row_put key r) d)) = row_get key k (rows d)"
  by (simp add: rows_change)

lemma keys_put: "map key (rows (change (row_put key r) d)) = map key (rows d)"
  by (simp add: rows_change)

lemma keys_insert:
  "distinct (map key (rows d)) \<Longrightarrow> key r = fresh_key key (rows d) \<Longrightarrow>
   distinct (map key (rows (change (\<lambda>rs. rs @ [r]) d)))"
  using fresh_key_notin [of key "rows d"] by (simp add: rows_change image_iff)

lemma get_insert:
  "key r = fresh_key key (rows d) \<Longrightarrow>
   row_get key (key r) (rows (change (\<lambda>rs. rs @ [r]) d)) = Some r"
  using fresh_key_notin [of key "rows d"] row_get_None [of key "key r" "rows d"]
  by (simp add: rows_change)

lemma get_insert_other:
  "key r = fresh_key key (rows d) \<Longrightarrow> row_get key k (rows d) = Some x \<Longrightarrow>
   row_get key k (rows (change (\<lambda>rs. rs @ [r]) d)) = Some x"
  by (simp add: rows_change)

end

interpretation job_table: table jobs jobs_update j_id
  by unfold_locales simp

interpretation notification_table: table notifications notifications_update n_id
  by unfold_locales simp

interpretation audit_table: table audit audit_update a_id
  by unfold_locales simp

interpretation backup_table: table backups backups_update b_id
  by unfold_locales simp

interpretation user_table: table users users_update u_id
  by unfold_locales simp

interpretation session_table: table sessions sessions_update r_id
  by unfold_locales simp

interpretation attempt_table: table attempts attempts_update t_id
  by unfold_locales simp

section \<open>Reading and writing one row\<close>

definition find_job :: "int \<Rightarrow> db \<Rightarrow> job option" where
  "find_job k d = row_get j_id k (jobs d)"

text \<open>\<open>session.get_one(Job, k)\<close> raises when there is no such row.\<close>

definition get_one_job :: "int \<Rightarrow> (db, job) prog" where
  "get_one_job k = (\<lambda>d. case find_job k d of None \<Rightarrow> (Inl NoResultFound, d) | Some j \<Rightarrow> (Inr j, d))"

definition put_job :: "job \<Rightarrow> (db, unit) prog" where
  "put_job j = modify (\<lambda>d. d\<lparr>jobs := row_put j_id j (jobs d)\<rparr>)"

lemma wp_get_one_job [wp_simps]:
  "wp (get_one_job k) Q E d
     = (case find_job k d of None \<Rightarrow> E NoResultFound d | Some j \<Rightarrow> Q j d)"
  by (simp add: wp_def get_one_job_def split: option.split)

lemma wp_put_job [wp_simps]:
  "wp (put_job j) Q E d = Q () (d\<lparr>jobs := row_put j_id j (jobs d)\<rparr>)"
  by (simp add: put_job_def wp_simps)

lemma find_job_put_same [simp]:
  "find_job k d = Some x \<Longrightarrow> j_id j = k \<Longrightarrow>
   find_job k (d\<lparr>jobs := row_put j_id j (jobs d)\<rparr>) = Some j"
  using row_get_put_same [of j_id j "jobs d"] by (auto simp: find_job_def)

lemma find_job_put_other [simp]:
  "j_id j \<noteq> k \<Longrightarrow> find_job k (d\<lparr>jobs := row_put j_id j (jobs d)\<rparr>) = find_job k d"
  by (simp add: find_job_def)

lemma find_job_id: "find_job k d = Some j \<Longrightarrow> j_id j = k"
  using row_get_Some [of j_id k "jobs d" j] by (simp add: find_job_def)

lemma find_job_mem: "find_job k d = Some j \<Longrightarrow> j \<in> set (jobs d)"
  using row_get_Some [of j_id k "jobs d" j] by (simp add: find_job_def)

lemma find_job_other_tables [simp]:
  "find_job k (d\<lparr>locks := x1\<rparr>) = find_job k d"
  "find_job k (d\<lparr>heartbeats := x2\<rparr>) = find_job k d"
  "find_job k (d\<lparr>notifications := x3\<rparr>) = find_job k d"
  "find_job k (d\<lparr>audit := x4\<rparr>) = find_job k d"
  "find_job k (d\<lparr>backups := x5\<rparr>) = find_job k d"
  "find_job k (d\<lparr>settings := x6\<rparr>) = find_job k d"
  "find_job k (d\<lparr>users := x7\<rparr>) = find_job k d"
  "find_job k (d\<lparr>sessions := x8\<rparr>) = find_job k d"
  "find_job k (d\<lparr>attempts := x9\<rparr>) = find_job k d"
  by (simp_all add: find_job_def)

definition find_setting :: "string \<Rightarrow> db \<Rightarrow> app_setting option" where
  "find_setting k d = map_of (settings d) k"

definition find_backup :: "int \<Rightarrow> db \<Rightarrow> backup_record option" where
  "find_backup k d = row_get b_id k (backups d)"

definition find_user :: "int \<Rightarrow> db \<Rightarrow> user option" where
  "find_user k d = row_get u_id k (users d)"

section \<open>Active jobs and the coordination index\<close>

definition active_status :: "job_status \<Rightarrow> bool" where
  "active_status s = (s = JOB_STATUS_PENDING \<or> s = JOB_STATUS_RUNNING)"

definition terminal_status :: "job_status \<Rightarrow> bool" where
  "terminal_status s = (s = JOB_STATUS_SUCCEEDED \<or> s = JOB_STATUS_FAILED
     \<or> s = JOB_STATUS_CANCELLED \<or> s = JOB_STATUS_INTERRUPTED)"

lemma terminal_not_active: "terminal_status s \<longleftrightarrow> \<not> active_status s"
  by (cases s) (auto simp: terminal_status_def active_status_def)

text \<open>The query of every \<open>enqueue\<close>: is there an active job with this coordination key?\<close>

definition active_with_key :: "string \<Rightarrow> db \<Rightarrow> bool" where
  "active_with_key k d
     = list_ex (\<lambda>j. j_coordination_key j = Some k \<and> active_status (j_status j)) (jobs d)"

text \<open>
  \<open>session.add(Job(...))\<close> and \<open>flush\<close>: the row gets a fresh key and the defaults of the columns the
  code leaves out; the partial unique index \<open>uq_jobs_active_coordination_key\<close> rejects a second
  active row with the same coordination key.
\<close>

definition new_job ::
  "string \<Rightarrow> bool \<Rightarrow> bool \<Rightarrow> string \<Rightarrow> int option \<Rightarrow> dict \<Rightarrow> int \<Rightarrow> int \<Rightarrow> job" where
  "new_job kind cancellable needs_lock coordination user result now k =
     \<lparr>j_id = k, j_kind = kind, j_status = JOB_STATUS_PENDING, j_step = ''WAITING'', j_progress = 0,
      j_is_cancellable = cancellable, j_cancel_requested = False,
      j_execute_now_requested = False, j_requires_maintenance_lock = needs_lock,
      j_coordination_key = Some coordination, j_requested_by_user_id = user,
      j_claimed_by = None, j_claimed_at = None, j_started_at = None, j_finished_at = None,
      j_result = Some result, j_log_path = None, j_created_at = current_timestamp now\<rparr>"

definition insert_job :: "(int \<Rightarrow> job) \<Rightarrow> (db, job) prog" where
  "insert_job mk = (\<lambda>d. let j = mk (fresh_key j_id (jobs d)) in
     if (case j_coordination_key j of None \<Rightarrow> False
         | Some k \<Rightarrow> active_status (j_status j) \<and> active_with_key k d)
     then (Inl IntegrityError, d) else (Inr j, d\<lparr>jobs := jobs d @ [j]\<rparr>))"

end
