(* ===== verification/AuditTrail.thy ===== *)
theory AuditTrail
  imports Store
begin

text \<open>
  The audit trail (\<open>app/audit/service.py\<close>): the redaction of secrets in texts and details, the
  limits on stored details, the 90-day retention and \<open>record_audit_event\<close> itself.
\<close>

section \<open>Redacting a text\<close>

definition PROTECTED_VALUE :: string where
  "PROTECTED_VALUE = ''[SEGREDO PROTEGIDO]''"

definition OMITTED_DETAILS :: string where
  "OMITTED_DETAILS = ''DETALHES_OMITIDOS_POR_LIMITE''"

definition sensitive_words :: "string list" where
  "sensitive_words = [''password'', ''passwd'', ''secret'', ''token'', ''webhook'',
     ''authorization'', ''cookie'', ''credential'']"

text \<open>\<open>eat_ci w s\<close>: what follows \<open>w\<close> at the start of \<open>s\<close>, letters compared without case.\<close>

fun eat_ci :: "string \<Rightarrow> string \<Rightarrow> string option" where
  "eat_ci [] s = Some s"
| "eat_ci (w # ws) [] = None"
| "eat_ci (w # ws) (c # cs) = (if to_lower c = w then eat_ci ws cs else None)"

text \<open>The alternation of the two patterns; its last alternative is \<open>api[_-]?key\<close>.\<close>

definition eat_api_key :: "string \<Rightarrow> string option" where
  "eat_api_key s = (case eat_ci ''api'' s of
       None \<Rightarrow> None
     | Some r \<Rightarrow> (case r of
           [] \<Rightarrow> None
         | c # cs \<Rightarrow> eat_ci ''key'' (if c = CHR ''_'' \<or> c = CHR ''-'' then cs else r)))"

definition eat_keyword :: "string \<Rightarrow> string option" where
  "eat_keyword s =
     (case filter (\<lambda>x. x \<noteq> None) (map (\<lambda>w. eat_ci w s) sensitive_words) of
        r # _ \<Rightarrow> r
      | [] \<Rightarrow> eat_api_key s)"

text \<open>\<open>SENSITIVE_DETAIL_KEY_PATTERN.search(key)\<close>: a keyword anywhere in the key.\<close>

fun sensitive_key :: "string \<Rightarrow> bool" where
  "sensitive_key [] = False"
| "sensitive_key (c # cs) = (eat_keyword (c # cs) \<noteq> None \<or> sensitive_key cs)"

definition is_value_char :: "char \<Rightarrow> bool" where
  "is_value_char c = (\<not> is_space c \<and> c \<noteq> CHR '','' \<and> c \<noteq> CHR '';'')"

text \<open>
  One match of \<open>\\b(keyword)\\b(\\s*[:=]\\s*)([^\\s,;]+)\<close> at the start of \<open>s\<close>, where \<open>prev\<close> tells
  whether the character before it is a word character: the text before the value, the last
  character of the value and the rest.
\<close>

definition match_assignment :: "bool \<Rightarrow> string \<Rightarrow> (string \<times> char \<times> string) option" where
  "match_assignment prev s =
     (if prev then None
      else case eat_keyword s of
        None \<Rightarrow> None
      | Some r \<Rightarrow>
          (case lstrip r of
             [] \<Rightarrow> None
           | c # r' \<Rightarrow>
               (if (c = CHR '':'' \<or> c = CHR ''='') \<and> (r = [] \<or> \<not> is_word (hd r)) then
                  (let v = lstrip r'; val = takeWhile is_value_char v in
                   if val = [] then None
                   else Some (take (length s - length v) s, last val, dropWhile is_value_char v))
                else None)))"

lemma eat_ci_length: "eat_ci w s = Some r \<Longrightarrow> length s = length w + length r"
  by (induction w s rule: eat_ci.induct) (auto split: if_splits)

lemma eat_api_key_length: "eat_api_key s = Some r \<Longrightarrow> length r < length s"
  by (auto simp: eat_api_key_def dest!: eat_ci_length split: option.splits list.splits if_splits)

lemma eat_keyword_length: "eat_keyword s = Some r \<Longrightarrow> length r < length s"
  unfolding eat_keyword_def
  by (auto simp: sensitive_words_def dest: eat_ci_length eat_api_key_length
      split: list.splits if_splits)

lemma match_assignment_length:
  assumes "match_assignment prev s = Some (pre, c, rest)"
  shows "length rest < length s"
proof -
  from assms obtain r d r' where r: "eat_keyword s = Some r" and l: "lstrip r = d # r'"
    and rest: "rest = dropWhile is_value_char (lstrip r')"
    by (auto simp: match_assignment_def Let_def split: if_splits option.splits list.splits)
  have "length rest \<le> length r'"
    unfolding rest using length_dropWhile_le length_lstrip_le order_trans by blast
  also have "length r' < length (lstrip r)" by (simp add: l)
  also have "length (lstrip r) \<le> length r" by (rule length_lstrip_le)
  also have "length r < length s" using r by (rule eat_keyword_length)
  finally show ?thesis .
qed

function redact_scan :: "bool \<Rightarrow> string \<Rightarrow> string" where
  "redact_scan prev s =
     (case match_assignment prev s of
        Some (pre, c, rest) \<Rightarrow> pre @ PROTECTED_VALUE @ redact_scan (is_word c) rest
      | None \<Rightarrow> (case s of [] \<Rightarrow> [] | c # cs \<Rightarrow> c # redact_scan (is_word c) cs))"
  by pat_completeness auto
termination
  by (relation "measure (\<lambda>(_, s). length s)") (auto dest: match_assignment_length)

declare redact_scan.simps [simp del]

text \<open>\<open>redact_audit_text\<close> with the empty \<open>sensitive_values\<close> every caller in \<open>service.py\<close> uses.\<close>

definition redact_audit_text :: "string \<Rightarrow> string" where
  "redact_audit_text value = redact_scan False value"

section \<open>Redacting details\<close>

text \<open>
  \<open>_redact_mapping\<close> and \<open>_redact_value\<close> recurse on the nesting depth, from 0 up to
  MAX_AUDIT_DETAIL_DEPTH; the model counts the remaining levels down. The mapping keeps its first
  100 items; a later item whose redacted key is already present takes that key's place.
\<close>

definition MAX_AUDIT_DETAIL_DEPTH :: nat where
  "MAX_AUDIT_DETAIL_DEPTH = 6"

definition MAX_AUDIT_DETAIL_ITEMS :: nat where
  "MAX_AUDIT_DETAIL_ITEMS = 100"

definition MAX_AUDIT_DETAIL_TEXT :: nat where
  "MAX_AUDIT_DETAIL_TEXT = 4000"

definition MAX_AUDIT_DETAILS_BYTES :: nat where
  "MAX_AUDIT_DETAILS_BYTES = 16384"

definition redact_item :: "(json \<Rightarrow> json) \<Rightarrow> string \<times> json \<Rightarrow> dict \<Rightarrow> dict" where
  "redact_item f item d = (case item of (raw_key, nested) \<Rightarrow>
     let k = take 100 (redact_audit_text raw_key)
     in AList.update k (if sensitive_key k then JStr PROTECTED_VALUE else f nested) d)"

definition redact_items :: "(json \<Rightarrow> json) \<Rightarrow> dict \<Rightarrow> dict" where
  "redact_items f m =
     (let r = fold (redact_item f) (take MAX_AUDIT_DETAIL_ITEMS m) []
      in if MAX_AUDIT_DETAIL_ITEMS < length m
         then AList.update ''status'' (JStr OMITTED_DETAILS) r else r)"

definition redact_leaf :: "json \<Rightarrow> json" where
  "redact_leaf v = (case v of
       JStr s \<Rightarrow> JStr (take MAX_AUDIT_DETAIL_TEXT (redact_audit_text s))
     | _ \<Rightarrow> v)"

primrec redact_value :: "nat \<Rightarrow> json \<Rightarrow> json" where
  "redact_value 0 v = (case v of
       JObj m \<Rightarrow> JObj [(''status'', JStr OMITTED_DETAILS)]
     | JArr xs \<Rightarrow> JStr OMITTED_DETAILS
     | _ \<Rightarrow> redact_leaf v)"
| "redact_value (Suc n) v = (case v of
       JObj m \<Rightarrow> JObj (redact_items (redact_value n) m)
     | JArr xs \<Rightarrow> JArr (map (redact_value n) (take MAX_AUDIT_DETAIL_ITEMS xs))
     | _ \<Rightarrow> redact_leaf v)"

definition redact_audit_details :: "dict option \<Rightarrow> dict option" where
  "redact_audit_details details = (case details of
       None \<Rightarrow> None
     | Some m \<Rightarrow>
         (let redacted = redact_items (redact_value (MAX_AUDIT_DETAIL_DEPTH - 1)) m
          in if MAX_AUDIT_DETAILS_BYTES < json_len (JObj redacted)
             then Some [(''status'', JStr OMITTED_DETAILS)] else Some redacted))"

section \<open>Recording an event\<close>

definition AUDIT_RETENTION_DAYS :: int where
  "AUDIT_RETENTION_DAYS = 90"

definition days :: "int \<Rightarrow> int" where
  "days n = n * 86400 * 1000000"

text \<open>\<open>^[A-Z][A-Z0-9_]{0,99}$\<close> with \<open>fullmatch\<close>.\<close>

definition valid_audit_action :: "string \<Rightarrow> bool" where
  "valid_audit_action s = (case s of
       [] \<Rightarrow> False
     | c # cs \<Rightarrow> is_upper c \<and> length cs \<le> 99
         \<and> list_all (\<lambda>x. is_upper x \<or> is_digit x \<or> x = CHR ''_'') cs)"

definition prune_expired_audit_events :: "int \<Rightarrow> db \<Rightarrow> db" where
  "prune_expired_audit_events now d =
     d\<lparr>audit := filter (\<lambda>e. \<not> a_occurred_at e < now - days AUDIT_RETENTION_DAYS) (audit d)\<rparr>"

definition job_duration_ms :: "db \<Rightarrow> int \<Rightarrow> int option" where
  "job_duration_ms d k = (case find_job k d of
       None \<Rightarrow> None
     | Some j \<Rightarrow>
         (case (j_started_at j, j_finished_at j) of
            (Some s, Some f) \<Rightarrow> if f - s < 0 then None else Some (duration_millis (f - s))
          | _ \<Rightarrow> None))"

record audit_fields =
  f_action :: string
  f_result :: audit_result
  f_origin :: audit_origin
  f_user_id :: "int option"
  f_job_id :: "int option"
  f_target :: "string option"
  f_reason :: "string option"
  f_details :: "dict option"

definition audit_row :: "db \<Rightarrow> int \<Rightarrow> audit_fields \<Rightarrow> audit_event" where
  "audit_row d occurred_at f =
     \<lparr>a_id = fresh_key a_id (audit d), a_occurred_at = occurred_at,
      a_action = f_action f, a_result = f_result f, a_origin = f_origin f,
      a_user_id = f_user_id f, a_job_id = f_job_id f,
      a_target = map_option redact_audit_text (f_target f),
      a_reason = map_option redact_audit_text (f_reason f),
      a_duration_ms = (case f_job_id f of None \<Rightarrow> None | Some k \<Rightarrow> job_duration_ms d k),
      a_details = redact_audit_details (f_details f)\<rparr>"

text \<open>
  The result and the origin are of the right set by their types, the timestamp carries its zone,
  and the computed duration is not negative, so the action is the one check that can fail.
\<close>

definition record_audit_event :: "int \<Rightarrow> audit_fields \<Rightarrow> (db, unit) prog" where
  "record_audit_event occurred_at f =
     andthen (require (valid_audit_action (f_action f)) ValueError)
       (modify (\<lambda>d. let p = prune_expired_audit_events occurred_at d
                     in p\<lparr>audit := audit p @ [audit_row p occurred_at f]\<rparr>))"

section \<open>Lemmas\<close>

lemma job_duration_ms_nonneg: "job_duration_ms d k = Some n \<Longrightarrow> 0 \<le> n"
  by (auto simp: job_duration_ms_def duration_millis_nonneg split: option.splits if_splits)

lemma wp_record_audit_event [wp_simps]:
  "wp (record_audit_event t f) Q E d =
     (if valid_audit_action (f_action f)
      then Q () (let p = prune_expired_audit_events t d
                 in p\<lparr>audit := audit p @ [audit_row p t f]\<rparr>)
      else E ValueError d)"
  by (simp add: record_audit_event_def wp_simps)

text \<open>What recording an event leaves alone.\<close>

definition audited :: "int \<Rightarrow> audit_fields \<Rightarrow> db \<Rightarrow> db" where
  "audited t f d = (let p = prune_expired_audit_events t d
                    in p\<lparr>audit := audit p @ [audit_row p t f]\<rparr>)"

lemma wp_record_audit_event' :
  "wp (record_audit_event t f) Q E d =
     (if valid_audit_action (f_action f) then Q () (audited t f d) else E ValueError d)"
  by (simp add: wp_record_audit_event audited_def)

lemma audited_frame [simp]:
  "jobs (audited t f d) = jobs d" "locks (audited t f d) = locks d"
  "heartbeats (audited t f d) = heartbeats d" "notifications (audited t f d) = notifications d"
  "backups (audited t f d) = backups d" "settings (audited t f d) = settings d"
  "users (audited t f d) = users d" "sessions (audited t f d) = sessions d"
  "attempts (audited t f d) = attempts d"
  "find_job k (audited t f d) = find_job k d"
  by (simp_all add: audited_def prune_expired_audit_events_def Let_def find_job_def)

lemma audit_audited:
  "audit (audited t f d)
     = filter (\<lambda>e. \<not> a_occurred_at e < t - days AUDIT_RETENTION_DAYS) (audit d)
       @ [audit_row (prune_expired_audit_events t d) t f]"
  by (simp add: audited_def prune_expired_audit_events_def Let_def)

declare wp_record_audit_event [wp_simps del]
declare wp_record_audit_event' [wp_simps]

section \<open>What redaction guarantees\<close>

text \<open>Every value under a sensitive key is the placeholder, at every depth of the value.\<close>

function protected :: "json \<Rightarrow> bool" where
  "protected (JObj m) = (\<forall>(k, v)\<in>set m. (sensitive_key k \<longrightarrow> v = JStr PROTECTED_VALUE) \<and> protected v)"
| "protected (JArr xs) = (\<forall>v\<in>set xs. protected v)"
| "protected JNull = True"
| "protected (JBool b) = True"
| "protected (JInt i) = True"
| "protected (JStr s) = True"
  by pat_completeness auto
termination
  by (relation "measure size") (auto simp: size_list_estimation' less_Suc_eq_le
      intro: order_trans [OF _ size_list_estimation'])

declare sensitive_key.simps(2) [simp del]

lemma not_sensitive_status [simp]: "\<not> sensitive_key ''status''"
  by code_simp

lemma set_alist_update: "p \<in> set (AList.update k v m) \<Longrightarrow> p = (k, v) \<or> p \<in> set m"
  by (induction m) (auto split: if_splits)

lemma protected_redact_item:
  assumes "\<And>v. protected (f v)" and "protected (JObj d)"
  shows "protected (JObj (redact_item f item d))"
proof (cases item)
  case (Pair raw v)
  let ?k = "take 100 (redact_audit_text raw)"
  let ?v = "if sensitive_key ?k then JStr PROTECTED_VALUE else f v"
  have "(sensitive_key k \<longrightarrow> u = JStr PROTECTED_VALUE) \<and> protected u"
    if "(k, u) \<in> set (AList.update ?k ?v d)" for k u
    using set_alist_update [OF that] assms by (cases "sensitive_key ?k") auto
  then show ?thesis by (auto simp: Pair redact_item_def Let_def)
qed

lemma protected_redact_items:
  assumes "\<And>v. protected (f v)"
  shows "protected (JObj (redact_items f m))"
proof -
  have fold: "protected (JObj (fold (redact_item f) xs d))" if "protected (JObj d)" for xs d
    using that
  proof (induction xs arbitrary: d)
    case (Cons x xs)
    have "protected (JObj (fold (redact_item f) xs (redact_item f x d)))"
      by (rule Cons.IH [OF protected_redact_item [OF assms Cons.prems]])
    then show ?case by (simp del: protected.simps)
  qed (simp del: protected.simps)
  have status: "protected (JObj (AList.update ''status'' (JStr OMITTED_DETAILS) d))" if "protected (JObj d)" for d
    using that by (auto dest!: set_alist_update)
  have start: "protected (JObj [])" by simp
  note kept = fold [OF start, of "take MAX_AUDIT_DETAIL_ITEMS m"]
  show ?thesis
    unfolding redact_items_def Let_def
    by (cases "MAX_AUDIT_DETAIL_ITEMS < length m") (simp_all only: if_True if_False kept status)
qed

lemma protected_redact_leaf: "\<not> (\<exists>m. v = JObj m) \<Longrightarrow> \<not> (\<exists>xs. v = JArr xs) \<Longrightarrow> protected (redact_leaf v)"
  by (cases v) (simp_all add: redact_leaf_def)

lemma protected_redact_value: "protected (redact_value n v)"
proof (induction n arbitrary: v)
  case 0
  show ?case by (cases v) (simp_all add: redact_leaf_def)
next
  case (Suc n)
  show ?case
  proof (cases v)
    case (JObj m)
    then show ?thesis using protected_redact_items [of "redact_value n" m, OF Suc.IH] by simp
  qed (auto simp: redact_leaf_def Suc.IH)
qed

lemma set_redact_details:
  "redact_audit_details d = Some m \<Longrightarrow> protected (JObj m) \<and> json_len (JObj m) \<le> MAX_AUDIT_DETAILS_BYTES"
proof -
  assume h: "redact_audit_details d = Some m"
  have small: "json_len (JObj [(''status'', JStr OMITTED_DETAILS)]) \<le> MAX_AUDIT_DETAILS_BYTES" by code_simp
  have status: "protected (JObj [(''status'', JStr OMITTED_DETAILS)])" by simp
  note items = protected_redact_items [of "redact_value (MAX_AUDIT_DETAIL_DEPTH - 1)", OF protected_redact_value]
  from h obtain x where d: "d = Some x" by (cases d) (simp_all add: redact_audit_details_def)
  let ?r = "redact_items (redact_value (MAX_AUDIT_DETAIL_DEPTH - 1)) x"
  show ?thesis
  proof (cases "MAX_AUDIT_DETAILS_BYTES < json_len (JObj ?r)")
    case True
    then have "m = [(''status'', JStr OMITTED_DETAILS)]"
      using h by (simp add: d redact_audit_details_def Let_def del: json_len.simps)
    then show ?thesis using small status by (simp del: json_len.simps protected.simps)
  next
    case False
    then have "m = ?r" using h by (simp add: d redact_audit_details_def Let_def del: json_len.simps)
    then show ?thesis using items [of x] False by (simp del: json_len.simps protected.simps)
  qed
qed

section \<open>Properties of the trail\<close>

text \<open>
  C6: recording an event stores details in which every value under a sensitive key, at every depth,
  is the placeholder, and whose JSON text has at most 16 KiB; the events it keeps are exactly the
  ones not older than 90 days, and the new event is the last; nothing else of the database changes.
\<close>

theorem recorded_event_protected:
  assumes "record_audit_event t f d = (Inr (), d')"
  shows "(\<exists>e. audit d' = filter (\<lambda>x. t - days 90 \<le> a_occurred_at x) (audit d) @ [e]
       \<and> a_action e = f_action f \<and> a_occurred_at e = t \<and> valid_audit_action (f_action f)
       \<and> (\<forall>m. a_details e = Some m \<longrightarrow> protected (JObj m) \<and> json_len (JObj m) \<le> 16384))
     \<and> jobs d' = jobs d \<and> locks d' = locks d \<and> users d' = users d \<and> settings d' = settings d"
proof -
  from assms have v: "valid_audit_action (f_action f)" and d': "d' = audited t f d"
    by (auto simp: record_audit_event_def audited_def run_defs Let_def split: if_splits)
  have "filter (\<lambda>e. \<not> a_occurred_at e < t - days AUDIT_RETENTION_DAYS) (audit d)
      = filter (\<lambda>x. t - days 90 \<le> a_occurred_at x) (audit d)"
    by (rule filter_cong) (auto simp: AUDIT_RETENTION_DAYS_def)
  then show ?thesis
    using v set_redact_details [of "f_details f"]
    by (auto simp: d' audit_audited audit_row_def MAX_AUDIT_DETAILS_BYTES_def
        simp del: protected.simps json_len.simps)
qed

theorem recorded_event_protected_witness:
  "\<exists>e. audit (snd (record_audit_event 0 \<lparr>f_action = ''LOGIN'', f_result = AUDIT_RESULT_SUCCESS,
      f_origin = AUDIT_ORIGIN_SYSTEM, f_user_id = None, f_job_id = None, f_target = None,
      f_reason = None, f_details = Some [(''password'', JStr ''abc'')]\<rparr> empty_db)) = [e]"
proof -
  let ?f = "\<lparr>f_action = ''LOGIN'', f_result = AUDIT_RESULT_SUCCESS,
      f_origin = AUDIT_ORIGIN_SYSTEM, f_user_id = None, f_job_id = None, f_target = None,
      f_reason = None, f_details = Some [(''password'', JStr ''abc'')]\<rparr>"
  have "valid_audit_action ''LOGIN''" by code_simp
  then have "fst (record_audit_event 0 ?f empty_db) = Inr ()"
    by (simp add: record_audit_event_def run_defs)
  then have "record_audit_event 0 ?f empty_db = (Inr (), snd (record_audit_event 0 ?f empty_db))"
    by (metis prod.collapse)
  from recorded_event_protected [OF this] show ?thesis by (auto simp: empty_db_def)
qed

section \<open>Assignments in a text\<close>

text \<open>
  What \<open>redact_audit_text\<close> looks for, stated without its scanning: a sensitive word in any mixture of cases, a
  separator with blanks around it, and a value.
\<close>

definition sensitive_spellings :: "string list" where
  "sensitive_spellings = sensitive_words @ [''apikey'', ''api_key'', ''api-key'']"

definition assignment :: "string \<Rightarrow> string \<Rightarrow> string \<Rightarrow> bool" where
  "assignment k g v \<longleftrightarrow> map to_lower k \<in> set sensitive_spellings
     \<and> (\<exists>a c b. g = a @ c # b \<and> list_all is_space a \<and> list_all is_space b \<and> (c = CHR '':'' \<or> c = CHR ''=''))
     \<and> v \<noteq> [] \<and> list_all is_value_char v"

text \<open>
  The reading of a text from the left; the flag tells whether the last character read is a word character. An
  assignment at a word boundary has its whole value replaced, and the reading goes on behind it; any other character is kept.
\<close>

inductive redacted :: "bool \<Rightarrow> string \<Rightarrow> string \<Rightarrow> bool" where
  over: "redacted prev [] []"
| assigned: "\<not> prev \<Longrightarrow> assignment k g v \<Longrightarrow> q = [] \<or> \<not> is_value_char (hd q) \<Longrightarrow> redacted (is_word (last v)) q t
    \<Longrightarrow> redacted prev (k @ g @ v @ q) (k @ g @ PROTECTED_VALUE @ t)"
| kept: "\<not> prev \<longrightarrow> (\<forall>k g v q. assignment k g v \<longrightarrow> c # s \<noteq> k @ g @ v @ q) \<Longrightarrow> redacted (is_word c) s t
    \<Longrightarrow> redacted prev (c # s) (c # t)"

lemma eat_ci_iff: "eat_ci w s = Some r \<longleftrightarrow> (\<exists>k. s = k @ r \<and> map to_lower k = w)"
proof (induction w s rule: eat_ci.induct)
  case (3 w ws c cs)
  then show ?case by (auto simp: Cons_eq_append_conv map_eq_Cons_conv)
qed auto

lemma to_lower_sign: "c = CHR ''_'' \<or> c = CHR ''-'' \<Longrightarrow> to_lower d = c \<longleftrightarrow> d = c"
  by (auto simp: to_lower_def is_upper_def code_def Let_def split: if_splits dest: arg_cong [of _ _ "of_char :: char \<Rightarrow> nat"])

lemma eat_ci_append: "eat_ci (u @ w) s = Option.bind (eat_ci u s) (eat_ci w)"
  by (induction u s rule: eat_ci.induct) auto

lemma eat_api_key_iff: "eat_api_key s = Some r \<longleftrightarrow> (\<exists>w\<in>{''apikey'', ''api_key'', ''api-key''}. eat_ci w s = Some r)"
proof -
  have parts: "eat_ci ''apikey'' s = Option.bind (eat_ci ''api'' s) (eat_ci ''key'')"
    "eat_ci ''api_key'' s = Option.bind (eat_ci ''api'' s) (eat_ci ''_key'')"
    "eat_ci ''api-key'' s = Option.bind (eat_ci ''api'' s) (eat_ci ''-key'')"
    using eat_ci_append [of "''api''" "''key''" s] eat_ci_append [of "''api''" "''_key''" s] eat_ci_append [of "''api''" "''-key''" s]
    unfolding append_Cons append_Nil by this+
  have k: "to_lower (CHR ''_'') \<noteq> CHR ''k''" "to_lower (CHR ''-'') \<noteq> CHR ''k''" by code_simp+
  show ?thesis
  proof (cases "eat_ci ''api'' s")
    case None
    then show ?thesis by (simp add: eat_api_key_def parts del: eat_ci.simps)
  next
    case (Some u)
    show ?thesis
    proof (cases u)
      case Nil
      then show ?thesis using Some by (simp add: eat_api_key_def parts del: eat_ci.simps(3))
    next
      case (Cons c cs)
      have "eat_ci (d # ''key'') u = (if c = d then eat_ci ''key'' cs else None)" if "d = CHR ''_'' \<or> d = CHR ''-''" for d
        unfolding Cons using to_lower_sign [OF that] by (simp del: eat_ci.simps add: eat_ci.simps(3) [of d])
      moreover have "eat_ci ''key'' u = None" if "c = CHR ''_'' \<or> c = CHR ''-''"
        unfolding Cons using that k by auto
      ultimately show ?thesis
        using Some Cons by (auto simp: eat_api_key_def parts simp del: eat_ci.simps)
    qed
  qed
qed

lemma spellings_apart:
  "w \<in> set sensitive_spellings \<Longrightarrow> w' \<in> set sensitive_spellings \<Longrightarrow> w @ u = w' @ u' \<Longrightarrow> w = w'"
proof -
  have "\<forall>w\<in>set sensitive_spellings. \<forall>w'\<in>set sensitive_spellings. take (length w) w' = w \<longrightarrow> w = w'"
    by (simp add: sensitive_spellings_def sensitive_words_def)
  moreover assume "w \<in> set sensitive_spellings" "w' \<in> set sensitive_spellings" "w @ u = w' @ u'"
  moreover from this(3) have "take (length w) w' = w \<or> take (length w') w = w'"
    by (auto simp: append_eq_append_conv2)
  ultimately show ?thesis by metis
qed

lemma eat_keyword_iff: "eat_keyword s = Some r \<longleftrightarrow> (\<exists>k. s = k @ r \<and> map to_lower k \<in> set sensitive_spellings)"
proof (cases "filter (\<lambda>x. x \<noteq> None) (map (\<lambda>w. eat_ci w s) sensitive_words)")
  case Nil
  then have none: "eat_ci w s \<noteq> Some r" if "w \<in> set sensitive_words" for w
    using that by (auto simp: filter_empty_conv)
  have "(\<exists>k. s = k @ r \<and> map to_lower k \<in> set sensitive_spellings) \<longleftrightarrow> (\<exists>w\<in>set sensitive_spellings. eat_ci w s = Some r)"
    unfolding eat_ci_iff by blast
  also have "\<dots> \<longleftrightarrow> (\<exists>w\<in>{''apikey'', ''api_key'', ''api-key''}. eat_ci w s = Some r)"
    using none unfolding sensitive_spellings_def set_append by auto
  finally show ?thesis using Nil by (simp add: eat_keyword_def eat_api_key_iff del: eat_ci.simps)
next
  case (Cons x xs)
  then have "x \<in> set (filter (\<lambda>x. x \<noteq> None) (map (\<lambda>w. eat_ci w s) sensitive_words))" by simp
  then obtain w r' where w: "w \<in> set sensitive_words" "eat_ci w s = Some r'" "x = Some r'" by auto
  then obtain k' where k': "s = k' @ r'" "map to_lower k' = w" by (auto simp: eat_ci_iff)
  have spell: "w \<in> set sensitive_spellings" using w(1) by (simp add: sensitive_spellings_def)
  have eaten: "eat_keyword s = Some r'" using Cons w(3) by (simp add: eat_keyword_def)
  have same: "r = r'" if "s = k @ r" "map to_lower k \<in> set sensitive_spellings" for k
  proof -
    have "map to_lower k @ map to_lower r = w @ map to_lower r'" using that(1) k' by (metis map_append)
    from spellings_apart [OF that(2) spell this] have "length k = length k'" using k'(2) by (metis length_map)
    with that(1) k'(1) show "r = r'" by simp
  qed
  show ?thesis
  proof
    assume "eat_keyword s = Some r"
    with eaten have "s = k' @ r \<and> map to_lower k' \<in> set sensitive_spellings" using k' spell by simp
    then show "\<exists>k. s = k @ r \<and> map to_lower k \<in> set sensitive_spellings" by blast
  next
    assume "\<exists>k. s = k @ r \<and> map to_lower k \<in> set sensitive_spellings"
    then have "r = r'" using same by blast
    with eaten show "eat_keyword s = Some r" by simp
  qed
qed

lemma space_no_word: "is_space c \<Longrightarrow> \<not> is_word c"
  by (auto simp: is_space_def is_word_def is_digit_def is_upper_def is_lower_def Let_def)

lemma sign_facts: "c = CHR '':'' \<or> c = CHR ''='' \<Longrightarrow> \<not> is_space c \<and> \<not> is_word c"
  by (auto simp: is_space_def is_word_def is_digit_def is_upper_def is_lower_def Let_def code_def)

lemma lstrip_spaces: "list_all is_space a \<Longrightarrow> t = [] \<or> \<not> is_space (hd t) \<Longrightarrow> lstrip (a @ t) = t"
  unfolding lstrip_def by (induction a) (cases t; auto)+

lemma lstrip_shape: "\<exists>a. s = a @ lstrip s \<and> list_all is_space a \<and> (lstrip s = [] \<or> \<not> is_space (hd (lstrip s)))"
proof (intro exI conjI)
  show "s = takeWhile is_space s @ lstrip s" by (simp add: lstrip_def)
  show "list_all is_space (takeWhile is_space s)" by (auto simp: list_all_iff dest: set_takeWhileD)
  show "lstrip s = [] \<or> \<not> is_space (hd (lstrip s))" unfolding lstrip_def using hd_dropWhile by blast
qed

lemma match_assigned:
  assumes "assignment k g v" "q = [] \<or> \<not> is_value_char (hd q)"
  shows "match_assignment False (k @ g @ v @ q) = Some (k @ g, last v, q)"
proof -
  from assms(1) obtain a c b where g: "g = a @ c # b" "list_all is_space a" "list_all is_space b" "c = CHR '':'' \<or> c = CHR ''=''"
    and v: "v \<noteq> []" "list_all is_value_char v" and k: "map to_lower k \<in> set sensitive_spellings"
    by (auto simp: assignment_def)
  have eat: "eat_keyword (k @ g @ v @ q) = Some (g @ v @ q)" using k by (auto simp: eat_keyword_iff)
  have l: "lstrip (g @ v @ q) = c # b @ v @ q"
    using lstrip_spaces [OF g(2), of "c # b @ v @ q"] sign_facts [OF g(4)] by (simp add: g(1))
  have hd: "\<not> is_word (hd (g @ v @ q))"
    using g sign_facts [OF g(4)] space_no_word by (cases a) auto
  have "\<not> is_space (hd v)" using v by (cases v) (auto simp: is_value_char_def)
  then have l': "lstrip (b @ v @ q) = v @ q" using lstrip_spaces [OF g(3), of "v @ q"] v(1) by simp
  have tw: "takeWhile is_value_char (v @ q) = v" "dropWhile is_value_char (v @ q) = q"
    using v(2) assms(2) by (auto simp: list_all_iff takeWhile_append dropWhile_append; cases q; auto)+
  have pre: "take (length (k @ g @ v @ q) - length (v @ q)) (k @ g @ v @ q) = k @ g" by simp
  show ?thesis
    unfolding match_assignment_def eat option.case l list.case Let_def l' tw pre using g(4) v(1) hd by simp
qed

lemma match_assignment_Some:
  assumes "match_assignment prev s = Some (pre, x, q)"
  shows "\<exists>k g v. \<not> prev \<and> assignment k g v \<and> s = k @ g @ v @ q \<and> pre = k @ g \<and> x = last v \<and> (q = [] \<or> \<not> is_value_char (hd q))"
proof -
  from assms obtain r c r' where m: "\<not> prev" "eat_keyword s = Some r" "lstrip r = c # r'" "c = CHR '':'' \<or> c = CHR ''=''"
    "takeWhile is_value_char (lstrip r') \<noteq> []" "pre = take (length s - length (lstrip r')) s"
    "x = last (takeWhile is_value_char (lstrip r'))" "q = dropWhile is_value_char (lstrip r')"
    by (auto simp: match_assignment_def Let_def split: if_splits option.splits list.splits)
  from m(2) obtain k where k: "s = k @ r" "map to_lower k \<in> set sensitive_spellings" by (auto simp: eat_keyword_iff)
  obtain a where a: "r = a @ c # r'" "list_all is_space a" using lstrip_shape [of r] m(3) by auto
  obtain b where b: "r' = b @ lstrip r'" "list_all is_space b" using lstrip_shape [of r'] by auto
  let ?v = "takeWhile is_value_char (lstrip r')"
  have v: "lstrip r' = ?v @ q" "list_all is_value_char ?v" using m(8) by (auto simp: list_all_iff dest: set_takeWhileD)
  have s: "s = k @ (a @ c # b) @ ?v @ q" using k(1) a(1) b(1) v(1) by simp
  moreover have "pre = k @ (a @ c # b)" unfolding m(6) by (subst (2) s) (subst s, simp add: v(1) [symmetric])
  moreover have "assignment k (a @ c # b) ?v" unfolding assignment_def using k(2) a(2) b(2) m(4,5) v(2) by blast
  moreover have "q = [] \<or> \<not> is_value_char (hd q)" using m(8) hd_dropWhile by blast
  ultimately show ?thesis using m(1,7) by blast
qed

lemma redacted_scan: "redacted prev s t \<Longrightarrow> redact_scan prev s = t"
proof (induction rule: redacted.induct)
  case (over prev)
  have "match_assignment prev [] = None"
    using match_assignment_length [of prev "[]"] by (cases "match_assignment prev []") auto
  then show ?case by (simp add: redact_scan.simps)
next
  case (assigned prev k g v q t)
  from assigned(1) have "\<not> prev" .
  with match_assigned [OF assigned(2,3)] assigned.IH show ?case by (subst redact_scan.simps) simp
next
  case (kept prev c s t)
  have "match_assignment prev (c # s) = None"
  proof (rule ccontr)
    assume "match_assignment prev (c # s) \<noteq> None"
    then obtain pre x q where "match_assignment prev (c # s) = Some (pre, x, q)" by auto
    from match_assignment_Some [OF this] kept.hyps(1) show False by blast
  qed
  with kept.IH show ?case by (subst redact_scan.simps) simp
qed

lemma scan_redacted: "redacted prev s (redact_scan prev s)"
proof (induction prev s rule: redact_scan.induct)
  case step: (1 prev s)
  show ?case
  proof (cases "match_assignment prev s")
    case (Some m)
    obtain pre x q where m: "m = (pre, x, q)" by (cases m)
    from match_assignment_Some [OF Some [unfolded m]] obtain k g v where s: "\<not> prev" "assignment k g v" "s = k @ g @ v @ q"
      "pre = k @ g" "x = last v" "q = [] \<or> \<not> is_value_char (hd q)" by blast
    have "redacted (is_word (last v)) q (redact_scan (is_word (last v)) q)" using step(2) [OF Some, of pre "(x, q)" x q] m s(5) by simp
    from redacted.assigned [OF s(1,2,6) this] show ?thesis using Some m s by (subst redact_scan.simps) simp
  next
    case None
    show ?thesis
    proof (cases s)
      case Nil
      then show ?thesis using None by (subst redact_scan.simps) (simp add: over)
    next
      case (Cons c cs)
      have "\<not> prev \<longrightarrow> (\<forall>k g v q. assignment k g v \<longrightarrow> c # cs \<noteq> k @ g @ v @ q)"
      proof (intro impI allI notI)
        fix k g v q
        assume p: "\<not> prev" and a: "assignment k g v" and eq: "c # cs = k @ g @ v @ q"
        let ?w = "takeWhile is_value_char q" and ?q = "dropWhile is_value_char q"
        have "assignment k g (v @ ?w)" using a by (auto simp: assignment_def list_all_iff dest: set_takeWhileD)
        moreover have "?q = [] \<or> \<not> is_value_char (hd ?q)" using hd_dropWhile by blast
        ultimately have "match_assignment False (k @ g @ (v @ ?w) @ ?q) \<noteq> None" using match_assigned by blast
        with None Cons p eq show False by simp
      qed
      from redacted.kept [OF this step(1) [OF None Cons]] show ?thesis using None Cons by (subst redact_scan.simps) simp
    qed
  qed
qed

text \<open>
  C7: a recorded target or reason is exactly the reading of its text in which every assignment to a sensitive word has
  its whole value replaced: at a word boundary, the word in any mixture of cases or api-key with or without its sign,
  a colon or an equals sign with any blanks around it, and a value up to the next blank, comma or semicolon. It is read from
  the left, and a word inside of a value that was replaced begins no assignment of its own; everything else is
  kept as it is.
\<close>

theorem redact_assignment:
  "redact_audit_text s = t \<longleftrightarrow> redacted False s t"
  using redacted_scan scan_redacted unfolding redact_audit_text_def by blast

text \<open>What is beyond the value's first blank is kept: a scheme before a credential is taken for the value.\<close>

lemma authorization_scheme_only:
  "redact_audit_text ''Authorization: Bearer abc123'' = ''Authorization: '' @ PROTECTED_VALUE @ '' abc123''"
  by code_simp

end
