(* ===== verification/Jobs.thy ===== *)
theory Jobs
  imports AuditTrail
begin

text \<open>
  The persistent job queue (\<open>app/jobs/service.py\<close>): claiming the next job under the global
  maintenance lock, releasing the lock, and interrupting the jobs a dead worker left running. The
  queue invariant says what the worker relies on; every operation here keeps it.
\<close>

section \<open>Locks\<close>

definition GLOBAL_MAINTENANCE_LOCK :: string where
  "GLOBAL_MAINTENANCE_LOCK = ''GLOBAL''"

definition lock_is_free :: "db \<Rightarrow> bool" where
  "lock_is_free d = (\<not> list_ex (\<lambda>l. l_key l = GLOBAL_MAINTENANCE_LOCK) (locks d))"

definition release_terminal_locks :: "db \<Rightarrow> db" where
  "release_terminal_locks d = d\<lparr>locks := filter
     (\<lambda>l. \<not> list_ex (\<lambda>j. terminal_status (j_status j) \<and> j_id j = l_job_id l) (jobs d)) (locks d)\<rparr>"

definition release_maintenance_lock :: "int \<Rightarrow> (db, unit) prog" where
  "release_maintenance_lock k = modify (\<lambda>d. d\<lparr>locks := filter (\<lambda>l. l_job_id l \<noteq> k) (locks d)\<rparr>)"

text \<open>\<open>INSERT OR IGNORE\<close>: nothing happens when the key or the job of the row is taken.\<close>

definition acquire_lock :: "int \<Rightarrow> string \<Rightarrow> int \<Rightarrow> (db, bool) prog" where
  "acquire_lock k worker_id now = (\<lambda>d.
     if list_ex (\<lambda>l. l_key l = GLOBAL_MAINTENANCE_LOCK \<or> l_job_id l = k) (locks d)
     then (Inr False, d)
     else (Inr True, d\<lparr>locks := locks d @
            [\<lparr>l_key = GLOBAL_MAINTENANCE_LOCK, l_job_id = k, l_worker_id = worker_id,
              l_acquired_at = now\<rparr>]\<rparr>))"

section \<open>Claiming\<close>

definition claimable :: "string list \<Rightarrow> db \<Rightarrow> job \<Rightarrow> bool" where
  "claimable supported_kinds d j \<longleftrightarrow>
     j_kind j \<in> set supported_kinds \<and> j_status j = JOB_STATUS_PENDING
     \<and> (\<not> j_requires_maintenance_lock j \<or> lock_is_free d)"

definition pending_supported_job :: "string list \<Rightarrow> db \<Rightarrow> job option" where
  "pending_supported_job supported_kinds d =
     limit1 (order_by (\<lambda>j. (j_created_at j, j_id j)) (filter (claimable supported_kinds d) (jobs d)))"

definition claimed :: "string \<Rightarrow> int \<Rightarrow> job \<Rightarrow> job" where
  "claimed worker_id now j = j\<lparr>j_status := JOB_STATUS_RUNNING, j_step := ''EXECUTING'',
     j_claimed_by := Some worker_id, j_claimed_at := Some now, j_started_at := Some now,
     j_progress := 5\<rparr>"

definition unclaimed :: "job \<Rightarrow> job" where
  "unclaimed j = j\<lparr>j_status := JOB_STATUS_PENDING, j_step := ''WAITING'', j_claimed_by := None,
     j_claimed_at := None, j_started_at := None, j_progress := 0\<rparr>"

definition claim_next_job :: "string \<Rightarrow> string list \<Rightarrow> int \<Rightarrow> (db, job option) prog" where
  "claim_next_job worker_id supported_kinds now =
     andthen (require (worker_id \<noteq> []) ValueError)
       (if supported_kinds = [] then ret None
        else andthen (modify release_terminal_locks)
          (bnd (reads (pending_supported_job supported_kinds)) (\<lambda>sel. case sel of
             None \<Rightarrow> ret None
           | Some j \<Rightarrow>
               (let job = claimed worker_id now j in
                andthen (put_job job)
                  (if \<not> j_requires_maintenance_lock job then ret (Some job)
                   else bnd (acquire_lock (j_id job) worker_id now) (\<lambda>acquired.
                     if acquired then ret (Some job)
                     else andthen (put_job (unclaimed job)) (ret None)))))))"

section \<open>Recovery after a restart of the worker\<close>

record interrupted_job =
  i_id :: int
  i_kind :: string
  i_log_path :: "string option"

definition interrupted :: "int \<Rightarrow> job \<Rightarrow> job" where
  "interrupted now j = j\<lparr>j_status := JOB_STATUS_INTERRUPTED, j_step := ''INTERRUPTED'',
     j_is_cancellable := False, j_finished_at := Some now,
     j_result := Some (dict_merge (dict_of (j_result j))
       [(''interrupted'', JBool True), (''requires_manual_review'', JBool True)])\<rparr>"

definition interrupt_job :: "int \<Rightarrow> job \<Rightarrow> (db, unit) prog" where
  "interrupt_job now j =
     andthen (put_job (interrupted now j))
       (record_audit_event now
          \<lparr>f_action = ''JOB_INTERRUPTED'', f_result = AUDIT_RESULT_INTERRUPTED,
           f_origin = AUDIT_ORIGIN_SYSTEM, f_user_id = None, f_job_id = Some (j_id j),
           f_target = Some (j_kind j), f_reason = None,
           f_details = Some [(''requires_manual_review'', JBool True)]\<rparr>)"

definition running_jobs :: "db \<Rightarrow> job list" where
  "running_jobs d = order_by j_id (filter (\<lambda>j. j_status j = JOB_STATUS_RUNNING) (jobs d))"

text \<open>
  The session does not flush by itself, so the last statement sees the statuses before the loop;
  the locks of the interrupted jobs are deleted by their identifiers.
\<close>

definition recover_interrupted_jobs :: "int \<Rightarrow> (db, interrupted_job list) prog" where
  "recover_interrupted_jobs now =
     bnd (reads id) (\<lambda>d0. let running = running_jobs d0 in
       andthen (for_each running (interrupt_job now))
       (andthen (modify (\<lambda>d. d\<lparr>locks := filter (\<lambda>l. l_job_id l \<notin> j_id ` set running) (locks d)\<rparr>))
       (andthen (modify (\<lambda>d. d\<lparr>locks := locks (release_terminal_locks (d\<lparr>jobs := jobs d0\<rparr>))\<rparr>))
          (ret (map (\<lambda>j. \<lparr>i_id = j_id j, i_kind = j_kind j, i_log_path = j_log_path j\<rparr>) running)))))"

section \<open>The queue invariant\<close>

text \<open>Every row of the queue is identified by its key, and an active coordination key is unique.\<close>

definition jobs_wf :: "db \<Rightarrow> bool" where
  "jobs_wf d \<longleftrightarrow> distinct (map j_id (jobs d))
     \<and> (\<forall>i\<in>set (jobs d). \<forall>j\<in>set (jobs d). active_status (j_status i) \<longrightarrow> active_status (j_status j)
          \<longrightarrow> j_coordination_key i = j_coordination_key j \<longrightarrow> j_coordination_key i \<noteq> None
          \<longrightarrow> j_id i = j_id j)"

text \<open>There is one lock, and a running job that needs it holds it.\<close>

definition locks_wf :: "db \<Rightarrow> bool" where
  "locks_wf d \<longleftrightarrow> length (locks d) \<le> 1 \<and> (\<forall>l\<in>set (locks d). l_key l = GLOBAL_MAINTENANCE_LOCK)
     \<and> (\<forall>j\<in>set (jobs d). j_status j = JOB_STATUS_RUNNING \<longrightarrow> j_requires_maintenance_lock j
          \<longrightarrow> (\<exists>l\<in>set (locks d). l_job_id l = j_id j))"

definition queue_inv :: "db \<Rightarrow> bool" where
  "queue_inv d \<longleftrightarrow> jobs_wf d \<and> locks_wf d"

text \<open>The jobs that hold the maintenance section right now.\<close>

definition in_maintenance :: "db \<Rightarrow> int set" where
  "in_maintenance d = {j_id j |j. j \<in> set (jobs d) \<and> j_status j = JOB_STATUS_RUNNING
                                 \<and> j_requires_maintenance_lock j}"

lemma jobs_wfI:
  assumes "distinct (map j_id (jobs d))"
    and "\<And>i j. i \<in> set (jobs d) \<Longrightarrow> j \<in> set (jobs d) \<Longrightarrow> active_status (j_status i) \<Longrightarrow>
      active_status (j_status j) \<Longrightarrow> j_coordination_key i = j_coordination_key j \<Longrightarrow>
      j_coordination_key i \<noteq> None \<Longrightarrow> j_id i = j_id j"
  shows "jobs_wf d"
  unfolding jobs_wf_def using assms by blast

lemma jobs_wf_key:
  "jobs_wf d \<Longrightarrow> i \<in> set (jobs d) \<Longrightarrow> j \<in> set (jobs d) \<Longrightarrow> active_status (j_status i) \<Longrightarrow>
   active_status (j_status j) \<Longrightarrow> j_coordination_key i = j_coordination_key j \<Longrightarrow>
   j_coordination_key i \<noteq> None \<Longrightarrow> j_id i = j_id j"
  unfolding jobs_wf_def by blast

lemma jobs_wf_distinct: "jobs_wf d \<Longrightarrow> distinct (map j_id (jobs d))"
  unfolding jobs_wf_def by blast

lemma jobs_wf_inj:
  "jobs_wf d \<Longrightarrow> i \<in> set (jobs d) \<Longrightarrow> j \<in> set (jobs d) \<Longrightarrow> j_id i = j_id j \<Longrightarrow> i = j"
  using jobs_wf_distinct by (meson distinct_map inj_onD)

lemma locks_wf_running:
  "locks_wf d \<Longrightarrow> j \<in> set (jobs d) \<Longrightarrow> j_status j = JOB_STATUS_RUNNING \<Longrightarrow>
   j_requires_maintenance_lock j \<Longrightarrow> \<exists>l\<in>set (locks d). l_job_id l = j_id j"
  unfolding locks_wf_def by blast

lemma in_maintenance_unique:
  assumes "queue_inv d" and "i \<in> in_maintenance d" and "k \<in> in_maintenance d"
  shows "i = k"
proof -
  from assms obtain l m where "l \<in> set (locks d)" "l_job_id l = i" "m \<in> set (locks d)" "l_job_id m = k"
    unfolding queue_inv_def locks_wf_def in_maintenance_def by blast
  moreover from assms(1) have "length (locks d) \<le> 1" by (simp add: queue_inv_def locks_wf_def)
  ultimately show ?thesis
    by (cases "locks d") auto
qed

lemma release_terminal_locks_frame [simp]:
  "jobs (release_terminal_locks d) = jobs d" "audit (release_terminal_locks d) = audit d"
  "notifications (release_terminal_locks d) = notifications d"
  "backups (release_terminal_locks d) = backups d" "settings (release_terminal_locks d) = settings d"
  by (simp_all add: release_terminal_locks_def)

lemma jobs_wf_cong: "jobs d = jobs d' \<Longrightarrow> jobs_wf d = jobs_wf d'"
  by (simp add: jobs_wf_def)

text \<open>Writing a job back keeps the index as long as it does not become active.\<close>

lemma jobs_wf_put:
  assumes wf: "jobs_wf d" and j: "find_job (j_id j) d = Some j0"
    and key: "j_coordination_key j = j_coordination_key j0"
    and act: "active_status (j_status j) \<Longrightarrow> active_status (j_status j0)"
  shows "jobs_wf (d\<lparr>jobs := row_put j_id j (jobs d)\<rparr>)"
proof -
  have j0: "j0 \<in> set (jobs d)" "j_id j0 = j_id j"
    using j find_job_mem find_job_id by blast+
  have old: "\<exists>y\<in>set (jobs d). j_id y = j_id x \<and> j_coordination_key y = j_coordination_key x
        \<and> (active_status (j_status x) \<longrightarrow> active_status (j_status y))"
    if x: "x \<in> set (row_put j_id j (jobs d))" for x
    using set_row_put [OF x] j0 key act by metis
  have "j_id a = j_id b"
    if a: "a \<in> set (row_put j_id j (jobs d))" and b: "b \<in> set (row_put j_id j (jobs d))"
      and act_a: "active_status (j_status a)" and act_b: "active_status (j_status b)"
      and same: "j_coordination_key a = j_coordination_key b" "j_coordination_key a \<noteq> None" for a b
  proof -
    from old [OF a] obtain a' where a': "a' \<in> set (jobs d)" "j_id a' = j_id a"
      "j_coordination_key a' = j_coordination_key a" "active_status (j_status a')"
      using act_a by blast
    from old [OF b] obtain b' where b': "b' \<in> set (jobs d)" "j_id b' = j_id b"
      "j_coordination_key b' = j_coordination_key b" "active_status (j_status b')"
      using act_b by blast
    have "j_id a' = j_id b'"
      by (rule jobs_wf_key [OF wf a'(1) b'(1) a'(4) b'(4)]) (use a' b' same in simp_all)
    with a' b' show ?thesis by simp
  qed
  note index = this
  show ?thesis
  proof (rule jobs_wfI)
    show "distinct (map j_id (jobs (d\<lparr>jobs := row_put j_id j (jobs d)\<rparr>)))"
      using jobs_wf_distinct [OF wf] by simp
  next
    fix a b
    assume "a \<in> set (jobs (d\<lparr>jobs := row_put j_id j (jobs d)\<rparr>))"
      and "b \<in> set (jobs (d\<lparr>jobs := row_put j_id j (jobs d)\<rparr>))"
      and act: "active_status (j_status a)" "active_status (j_status b)"
      and same: "j_coordination_key a = j_coordination_key b" "j_coordination_key a \<noteq> None"
    then have "a \<in> set (row_put j_id j (jobs d))" "b \<in> set (row_put j_id j (jobs d))"
      by simp_all
    then show "j_id a = j_id b" by (rule index [OF _ _ act same])
  qed
qed

lemma locks_wf_put:
  assumes "locks_wf d"
    and "j_status j = JOB_STATUS_RUNNING \<Longrightarrow> j_requires_maintenance_lock j
           \<Longrightarrow> \<exists>l\<in>set (locks d). l_job_id l = j_id j"
  shows "locks_wf (d\<lparr>jobs := row_put j_id j (jobs d)\<rparr>)"
proof -
  have "\<exists>l\<in>set (locks d). l_job_id l = j_id x"
    if "x \<in> set (row_put j_id j (jobs d))" "j_status x = JOB_STATUS_RUNNING"
      "j_requires_maintenance_lock x" for x
  proof (cases "x = j")
    case True
    then show ?thesis using assms(2) that(2,3) by simp
  next
    case False
    then have "x \<in> set (jobs d)" using set_row_put [OF that(1)] by simp
    then show ?thesis using locks_wf_running [OF assms(1)] that(2,3) by simp
  qed
  then show ?thesis using assms(1) by (simp add: locks_wf_def)
qed

lemma jobs_wf_find: "jobs_wf d \<Longrightarrow> j \<in> set (jobs d) \<Longrightarrow> find_job (j_id j) d = Some j"
  using row_get_in [of j_id "jobs d" j] by (simp add: jobs_wf_distinct find_job_def)

lemma locks_wfI:
  assumes "length (locks d) \<le> 1" and "\<And>l. l \<in> set (locks d) \<Longrightarrow> l_key l = GLOBAL_MAINTENANCE_LOCK"
    and "\<And>j. j \<in> set (jobs d) \<Longrightarrow> j_status j = JOB_STATUS_RUNNING \<Longrightarrow>
           j_requires_maintenance_lock j \<Longrightarrow> \<exists>l\<in>set (locks d). l_job_id l = j_id j"
  shows "locks_wf d"
  unfolding locks_wf_def using assms by blast

lemma locks_wf_length: "locks_wf d \<Longrightarrow> length (locks d) \<le> 1"
  unfolding locks_wf_def by blast

lemma locks_wf_global: "locks_wf d \<Longrightarrow> l \<in> set (locks d) \<Longrightarrow> l_key l = GLOBAL_MAINTENANCE_LOCK"
  unfolding locks_wf_def by blast

text \<open>Dropping locks is safe as long as no lock of a running job goes.\<close>

lemma locks_wf_filter:
  assumes wf: "locks_wf d"
    and keep: "\<And>j l. j \<in> set (jobs d) \<Longrightarrow> j_status j = JOB_STATUS_RUNNING \<Longrightarrow>
      j_requires_maintenance_lock j \<Longrightarrow> l_job_id l = j_id j \<Longrightarrow> P l"
  shows "locks_wf (d\<lparr>locks := filter P (locks d)\<rparr>)"
proof (rule locks_wfI)
  show "length (locks (d\<lparr>locks := filter P (locks d)\<rparr>)) \<le> 1"
    using order_trans [OF length_filter_le locks_wf_length [OF wf]] by simp
next
  fix l
  assume "l \<in> set (locks (d\<lparr>locks := filter P (locks d)\<rparr>))"
  then show "l_key l = GLOBAL_MAINTENANCE_LOCK" using locks_wf_global [OF wf] by simp
next
  fix j
  assume "j \<in> set (jobs (d\<lparr>locks := filter P (locks d)\<rparr>))"
    and r: "j_status j = JOB_STATUS_RUNNING" "j_requires_maintenance_lock j"
  then have j: "j \<in> set (jobs d)" by simp
  obtain l where "l \<in> set (locks d)" "l_job_id l = j_id j"
    using locks_wf_running [OF wf j r] by blast
  with keep [OF j r] show "\<exists>l\<in>set (locks (d\<lparr>locks := filter P (locks d)\<rparr>)). l_job_id l = j_id j"
    by auto
qed

lemma release_terminal_locks_inv: "queue_inv d \<Longrightarrow> queue_inv (release_terminal_locks d)"
proof -
  assume "queue_inv d"
  then have jwf: "jobs_wf d" and lwf: "locks_wf d" by (simp_all add: queue_inv_def)
  have "locks_wf (release_terminal_locks d)"
    unfolding release_terminal_locks_def
  proof (rule locks_wf_filter [OF lwf])
    fix j l
    assume j: "j \<in> set (jobs d)" "j_status j = JOB_STATUS_RUNNING" and l: "l_job_id l = j_id j"
    have "\<not> terminal_status (j_status i)" if i: "i \<in> set (jobs d)" "j_id i = j_id j" for i
      using jobs_wf_inj [OF jwf i(1) j(1) i(2)] j(2) by (simp add: terminal_status_def)
    then show "\<not> list_ex (\<lambda>j. terminal_status (j_status j) \<and> j_id j = l_job_id l) (jobs d)"
      using l by (auto simp: list_ex_iff)
  qed
  moreover have "jobs_wf (release_terminal_locks d)"
    using jwf jobs_wf_cong [OF release_terminal_locks_frame(1)] by blast
  ultimately show ?thesis by (simp add: queue_inv_def)
qed

section \<open>Claiming keeps the invariant\<close>

lemma lock_free_no_locks: "locks_wf d \<Longrightarrow> lock_is_free d \<Longrightarrow> locks d = []"
  using locks_wf_global [of d] by (cases "locks d") (auto simp: lock_is_free_def)

lemma pending_supported_job_SomeD:
  "pending_supported_job kinds d = Some j \<Longrightarrow> j \<in> set (jobs d) \<and> claimable kinds d j"
  unfolding pending_supported_job_def by (auto dest: limit1_in)

lemma claimed_fields [simp]:
  "j_id (claimed w now j) = j_id j" "j_status (claimed w now j) = JOB_STATUS_RUNNING"
  "j_kind (claimed w now j) = j_kind j"
  "j_coordination_key (claimed w now j) = j_coordination_key j"
  "j_requires_maintenance_lock (claimed w now j) = j_requires_maintenance_lock j"
  "j_result (claimed w now j) = j_result j" "j_progress (claimed w now j) = 5"
  by (simp_all add: claimed_def)

text \<open>The state after the chosen job was claimed, and its lock taken if it needs one.\<close>

definition claim_state :: "string \<Rightarrow> int \<Rightarrow> job \<Rightarrow> db \<Rightarrow> db" where
  "claim_state w now j d =
     (let d' = d\<lparr>jobs := row_put j_id (claimed w now j) (jobs d)\<rparr> in
      if j_requires_maintenance_lock j
      then d'\<lparr>locks := locks d @ [\<lparr>l_key = GLOBAL_MAINTENANCE_LOCK, l_job_id = j_id j,
              l_worker_id = w, l_acquired_at = now\<rparr>]\<rparr>
      else d')"

lemma claim_state_inv:
  assumes inv: "queue_inv d" and sel: "pending_supported_job kinds d = Some j"
  shows "queue_inv (claim_state w now j d)"
proof -
  from inv have jwf: "jobs_wf d" and lwf: "locks_wf d" by (simp_all add: queue_inv_def)
  from pending_supported_job_SomeD [OF sel] have j: "j \<in> set (jobs d)" "claimable kinds d j"
    by simp_all
  then have pend: "j_status j = JOB_STATUS_PENDING" by (simp add: claimable_def)
  let ?d = "d\<lparr>jobs := row_put j_id (claimed w now j) (jobs d)\<rparr>"
  have jwf': "jobs_wf ?d"
    by (rule jobs_wf_put [OF jwf, of _ j])
      (simp_all add: jobs_wf_find [OF jwf j(1)] active_status_def pend)
  show ?thesis
  proof (cases "j_requires_maintenance_lock j")
    case False
    then have "locks_wf ?d" by (intro locks_wf_put [OF lwf]) simp
    with jwf' False show ?thesis by (simp add: claim_state_def queue_inv_def)
  next
    case True
    with j(2) have none: "locks d = []"
      by (auto simp: claimable_def intro: lock_free_no_locks [OF lwf])
    have "locks_wf (claim_state w now j d)"
    proof (rule locks_wfI)
      fix x
      assume "x \<in> set (jobs (claim_state w now j d))"
        and r: "j_status x = JOB_STATUS_RUNNING" "j_requires_maintenance_lock x"
      then have "x = claimed w now j \<or> x \<in> set (jobs d)"
        using True by (auto simp: claim_state_def Let_def dest: set_row_put)
      moreover have "x \<notin> set (jobs d)"
        using locks_wf_running [OF lwf _ r] none by auto
      ultimately show "\<exists>l\<in>set (locks (claim_state w now j d)). l_job_id l = j_id x"
        using True by (auto simp: claim_state_def Let_def)
    qed (use True none in \<open>auto simp: claim_state_def Let_def\<close>)
    moreover have "jobs_wf (claim_state w now j d) = jobs_wf ?d"
      by (rule jobs_wf_cong) (simp add: claim_state_def Let_def)
    ultimately show ?thesis using jwf' by (simp add: queue_inv_def)
  qed
qed

text \<open>
  What claiming does under the invariant: nothing, or the oldest claimable job starts running. The
  branch that gives a job back after a lost race for the lock is not taken.
\<close>

lemma claim_next_job_eq:
  assumes inv: "queue_inv d" and w: "w \<noteq> []" and kinds: "kinds \<noteq> []"
  shows "claim_next_job w kinds now d
    = (let d1 = release_terminal_locks d in
       case pending_supported_job kinds d1 of
         None \<Rightarrow> (Inr None, d1)
       | Some j \<Rightarrow> (Inr (Some (claimed w now j)), claim_state w now j d1))"
proof -
  let ?d1 = "release_terminal_locks d"
  have "queue_inv ?d1" using inv by (rule release_terminal_locks_inv)
  then have lwf: "locks_wf ?d1" by (simp add: queue_inv_def)
  have "locks ?d1 = []" if "pending_supported_job kinds ?d1 = Some j" "j_requires_maintenance_lock j"
    for j
    using pending_supported_job_SomeD [OF that(1)] that(2) lock_free_no_locks [OF lwf]
    by (auto simp: claimable_def)
  then show ?thesis
    using w kinds
    by (auto simp: claim_next_job_def run_defs put_job_def acquire_lock_def claim_state_def Let_def
        split: option.split)
qed

text \<open>Releasing the lock of a job that no longer runs keeps the invariant.\<close>

lemma release_maintenance_lock_inv:
  assumes inv: "queue_inv d"
    and idle: "\<And>j. find_job k d = Some j \<Longrightarrow> j_status j \<noteq> JOB_STATUS_RUNNING"
  shows "wp (release_maintenance_lock k) (\<lambda>_. queue_inv) (\<lambda>_ _. False) d"
proof -
  from inv have jwf: "jobs_wf d" and lwf: "locks_wf d" by (simp_all add: queue_inv_def)
  have "locks_wf (d\<lparr>locks := filter (\<lambda>l. l_job_id l \<noteq> k) (locks d)\<rparr>)"
    by (rule locks_wf_filter [OF lwf]) (use idle jobs_wf_find [OF jwf] in force)
  moreover have "jobs_wf (d\<lparr>locks := filter (\<lambda>l. l_job_id l \<noteq> k) (locks d)\<rparr>) = jobs_wf d"
    by (rule jobs_wf_cong) simp
  ultimately show ?thesis using jwf by (simp add: release_maintenance_lock_def wp_simps queue_inv_def)
qed

section \<open>What recovery establishes\<close>

lemma valid_JOB_INTERRUPTED [simp]: "valid_audit_action ''JOB_INTERRUPTED''"
  by code_simp

definition mark_interrupted :: "int \<Rightarrow> int set \<Rightarrow> job list \<Rightarrow> job list" where
  "mark_interrupted now S js = map (\<lambda>j. if j_id j \<in> S then interrupted now j else j) js"

lemma interrupted_fields [simp]:
  "j_id (interrupted now j) = j_id j" "j_status (interrupted now j) = JOB_STATUS_INTERRUPTED"
  "j_coordination_key (interrupted now j) = j_coordination_key j"
  "j_kind (interrupted now j) = j_kind j" "j_is_cancellable (interrupted now j) = False"
  "j_finished_at (interrupted now j) = Some now"
  by (simp_all add: interrupted_def)

lemma mark_interrupted_put:
  assumes "distinct (map j_id js)" and "r \<in> set js"
  shows "row_put j_id (interrupted now r) (mark_interrupted now S js)
           = mark_interrupted now (insert (j_id r) S) js"
proof -
  have "x = r" if "x \<in> set js" "j_id x = j_id r" for x
    using assms that by (meson distinct_map inj_onD)
  then show ?thesis by (auto simp: row_put_def mark_interrupted_def)
qed

lemma wp_interrupt_all:
  assumes "distinct (map j_id js)" and "set rs \<subseteq> set js" and "jobs d = mark_interrupted now S js"
  shows "wp (for_each rs (interrupt_job now))
    (\<lambda>_ t. jobs t = mark_interrupted now (S \<union> j_id ` set rs) js \<and> locks t = locks d)
    (\<lambda>_ _. False) d"
  using assms
proof (induction rs arbitrary: d S)
  case Nil
  then show ?case by (simp add: wp_simps)
next
  case (Cons r rs)
  let ?d = "audited now
      \<lparr>f_action = ''JOB_INTERRUPTED'', f_result = AUDIT_RESULT_INTERRUPTED,
       f_origin = AUDIT_ORIGIN_SYSTEM, f_user_id = None, f_job_id = Some (j_id r),
       f_target = Some (j_kind r), f_reason = None,
       f_details = Some [(''requires_manual_review'', JBool True)]\<rparr>
      (d\<lparr>jobs := row_put j_id (interrupted now r) (jobs d)\<rparr>)"
  have "wp (for_each rs (interrupt_job now))
    (\<lambda>_ t. jobs t = mark_interrupted now (insert (j_id r) S \<union> j_id ` set rs) js
            \<and> locks t = locks ?d) (\<lambda>_ _. False) ?d"
    by (rule Cons.IH) (use Cons.prems mark_interrupted_put [of js r] in simp_all)
  then show ?case by (simp add: wp_simps interrupt_job_def [of now r])
qed

lemma set_running_jobs:
  "j \<in> set (running_jobs d) \<longleftrightarrow> j \<in> set (jobs d) \<and> j_status j = JOB_STATUS_RUNNING"
  by (auto simp: running_jobs_def)

lemma mark_interrupted_find:
  "row_get j_id k (mark_interrupted now S js)
     = map_option (\<lambda>j. if k \<in> S then interrupted now j else j) (row_get j_id k js)"
  by (induction js) (auto simp: row_get_def mark_interrupted_def)

lemma running_id_iff:
  assumes "jobs_wf d" and "find_job k d = Some j"
  shows "k \<in> j_id ` set (running_jobs d) \<longleftrightarrow> j_status j = JOB_STATUS_RUNNING"
proof -
  have j: "j \<in> set (jobs d)" "j_id j = k"
    using assms(2) find_job_mem find_job_id by blast+
  have "j_status j = JOB_STATUS_RUNNING" if "x \<in> set (running_jobs d)" "k = j_id x" for x
    using jobs_wf_inj [OF assms(1) _ j(1), of x] that j(2) set_running_jobs by metis
  then show ?thesis
    using j set_running_jobs by blast
qed

lemma recover_interrupted_jobs_spec:
  assumes wf: "jobs_wf d" and one: "length (locks d) \<le> 1"
    and global: "\<And>l. l \<in> set (locks d) \<Longrightarrow> l_key l = GLOBAL_MAINTENANCE_LOCK"
  shows "wp (recover_interrupted_jobs now)
    (\<lambda>r d'. queue_inv d' \<and> map i_id r = map j_id (running_jobs d)
       \<and> jobs d' = mark_interrupted now (j_id ` set (running_jobs d)) (jobs d)
       \<and> (\<forall>k. find_job k d' = map_option
              (\<lambda>j. if j_status j = JOB_STATUS_RUNNING then interrupted now j else j) (find_job k d)))
    (\<lambda>_ _. False) d"
proof -
  let ?S = "j_id ` set (running_jobs d)"
  have start: "jobs d = mark_interrupted now {} (jobs d)"
    by (simp add: mark_interrupted_def)
  have loop: "wp (for_each (running_jobs d) (interrupt_job now))
    (\<lambda>_ t. jobs t = mark_interrupted now ({} \<union> ?S) (jobs d) \<and> locks t = locks d) (\<lambda>_ _. False) d"
    by (rule wp_interrupt_all [OF jobs_wf_distinct [OF wf] _ start]) (auto simp: set_running_jobs)
  have find: "find_job k t = map_option
      (\<lambda>j. if j_status j = JOB_STATUS_RUNNING then interrupted now j else j) (find_job k d)"
    if "jobs t = mark_interrupted now ?S (jobs d)" for k t
    using running_id_iff [OF wf, of k] that
    by (cases "find_job k d") (auto simp: find_job_def mark_interrupted_find)
  have idle: "j_status j \<noteq> JOB_STATUS_RUNNING" if "j \<in> set (mark_interrupted now ?S (jobs d))" for j
  proof -
    from that obtain x where x: "x \<in> set (jobs d)"
      "j = (if j_id x \<in> ?S then interrupted now x else x)"
      unfolding mark_interrupted_def by auto
    then show ?thesis by (cases "j_id x \<in> ?S") (auto simp: set_running_jobs)
  qed
  have inv: "queue_inv t"
    if t: "jobs t = mark_interrupted now ?S (jobs d)" "length (locks t) \<le> 1"
      "\<And>l. l \<in> set (locks t) \<Longrightarrow> l_key l = GLOBAL_MAINTENANCE_LOCK" for t
    unfolding queue_inv_def
  proof
    have old: "\<exists>y\<in>set (jobs d). j_id y = j_id x \<and> j_coordination_key y = j_coordination_key x
        \<and> (active_status (j_status x) \<longrightarrow> active_status (j_status y))"
      if "x \<in> set (jobs t)" for x
      using that by (auto simp: t(1) mark_interrupted_def active_status_def)
    show "jobs_wf t"
    proof (rule jobs_wfI)
      have "map j_id (jobs t) = map j_id (jobs d)" by (simp add: t(1) mark_interrupted_def)
      then show "distinct (map j_id (jobs t))" using jobs_wf_distinct [OF wf] by simp
    next
      fix a b
      assume a: "a \<in> set (jobs t)" and b: "b \<in> set (jobs t)"
        and act: "active_status (j_status a)" "active_status (j_status b)"
        and same: "j_coordination_key a = j_coordination_key b" "j_coordination_key a \<noteq> None"
      from old [OF a] act(1) obtain a' where a': "a' \<in> set (jobs d)" "j_id a' = j_id a"
        "j_coordination_key a' = j_coordination_key a" "active_status (j_status a')" by blast
      from old [OF b] act(2) obtain b' where b': "b' \<in> set (jobs d)" "j_id b' = j_id b"
        "j_coordination_key b' = j_coordination_key b" "active_status (j_status b')" by blast
      have "j_id a' = j_id b'"
        by (rule jobs_wf_key [OF wf a'(1) b'(1) a'(4) b'(4)]) (use a' b' same in simp_all)
      with a' b' show "j_id a = j_id b" by simp
    qed
    show "locks_wf t"
      by (rule locks_wfI) (use t idle in auto)
  qed
  have len: "length (filter P (locks d)) \<le> Suc 0" for P
    using order_trans [OF length_filter_le one] by simp
  show ?thesis
    unfolding recover_interrupted_jobs_def Let_def wp_bnd wp_andthen wp_reads wp_modify wp_ret id_apply
    by (rule wp_mono [OF loop])
      (auto simp: release_terminal_locks_def find intro!: inv len dest: global)
qed

section \<open>Properties of the queue\<close>

text \<open>
  C1: claiming keeps the queue consistent (one maintenance lock at most, held by every running job
  that needs it), so two jobs never run under the maintenance lock together. It takes the oldest
  claimable job of a supported kind, by creation time and then by identifier, marks it RUNNING for
  the worker, and takes none only when no job is claimable.
\<close>

theorem claim_next_job_exclusive:
  assumes inv: "queue_inv d" and claim: "claim_next_job w kinds now d = (Inr r, d')"
  shows "queue_inv d' \<and> (\<forall>i\<in>in_maintenance d'. \<forall>k\<in>in_maintenance d'. i = k)
    \<and> (case r of
         None \<Rightarrow> jobs d' = jobs d \<and> (\<forall>j\<in>set (jobs d). \<not> claimable kinds (release_terminal_locks d) j)
       | Some j \<Rightarrow> \<exists>j0\<in>set (jobs d). claimable kinds (release_terminal_locks d) j0
           \<and> j = claimed w now j0 \<and> jobs d' = row_put j_id j (jobs d)
           \<and> (\<forall>i\<in>set (jobs d). claimable kinds (release_terminal_locks d) i \<longrightarrow>
                (j_created_at j0, j_id j0) \<le> (j_created_at i, j_id i)))"
proof (cases "kinds = []")
  case True
  from claim True have "r = None" "d' = d"
    by (auto simp: claim_next_job_def run_defs split: if_splits)
  then show ?thesis
    using inv in_maintenance_unique [OF inv] True by (auto simp: claimable_def)
next
  case kinds: False
  let ?d = "release_terminal_locks d"
  from claim have w: "w \<noteq> []" by (auto simp: claim_next_job_def run_defs)
  have inv1: "queue_inv ?d" using inv by (rule release_terminal_locks_inv)
  show ?thesis
  proof (cases "pending_supported_job kinds ?d")
    case None
    then have "\<forall>j\<in>set (jobs d). \<not> claimable kinds ?d j"
      by (simp add: pending_supported_job_def filter_empty_conv)
    moreover have "r = None" "d' = ?d"
      using claim None by (simp_all add: claim_next_job_eq [OF inv w kinds] Let_def)
    ultimately show ?thesis using inv1 in_maintenance_unique [OF inv1] by auto
  next
    case (Some j0)
    then have r: "r = Some (claimed w now j0)" and d': "d' = claim_state w now j0 ?d"
      using claim by (simp_all add: claim_next_job_eq [OF inv w kinds] Let_def)
    have inv': "queue_inv d'" unfolding d' by (rule claim_state_inv [OF inv1 Some])
    have least: "(j_created_at j0, j_id j0) \<le> (j_created_at i, j_id i)"
      if "i \<in> set (jobs d)" "claimable kinds ?d i" for i
      using limit1_order_by_least [OF Some [unfolded pending_supported_job_def], of i] that by simp
    have "j0 \<in> set (jobs d)" "claimable kinds ?d j0"
      using pending_supported_job_SomeD [OF Some] by simp_all
    moreover have "jobs d' = row_put j_id (claimed w now j0) (jobs d)"
      by (simp add: d' claim_state_def Let_def)
    ultimately show ?thesis using inv' in_maintenance_unique [OF inv'] least r by auto
  qed
qed

theorem claim_next_job_exclusive_witness:
  "queue_inv (snd (claim_next_job ''w'' [''A''] 7 (empty_db\<lparr>jobs :=
     [new_job ''A'' False True ''K'' None [] 0 1]\<rparr>)))"
proof -
  let ?d = "empty_db\<lparr>jobs := [new_job ''A'' False True ''K'' None [] 0 1]\<rparr>"
  have inv: "queue_inv ?d"
    by (simp add: queue_inv_def jobs_wf_def locks_wf_def empty_db_def new_job_def)
  have "(case fst (claim_next_job ''w'' [''A''] 7 ?d) of Inr r \<Rightarrow> True | Inl e \<Rightarrow> False)" by code_simp
  then obtain r where "claim_next_job ''w'' [''A''] 7 ?d = (Inr r, snd (claim_next_job ''w'' [''A''] 7 ?d))"
    by (cases "claim_next_job ''w'' [''A''] 7 ?d") (auto split: sum.splits)
  from claim_next_job_exclusive [OF inv this] show ?thesis by simp
qed

text \<open>
  After a restart the recovery leaves no job RUNNING: exactly the jobs that were running become
  INTERRUPTED, marked for a manual review, every other job is as it was, every job reported was
  running, and the queue is consistent again, whatever the dead worker left of its locks.
\<close>

theorem recovery_interrupts_running:
  assumes "jobs_wf d" and "length (locks d) \<le> 1"
    and "\<And>l. l \<in> set (locks d) \<Longrightarrow> l_key l = GLOBAL_MAINTENANCE_LOCK"
  shows "\<exists>r d'. recover_interrupted_jobs now d = (Inr r, d') \<and> queue_inv d'
    \<and> map i_id r = map j_id (running_jobs d)
    \<and> (\<forall>j\<in>set (jobs d'). j_status j \<noteq> JOB_STATUS_RUNNING)
    \<and> (\<forall>k. find_job k d' = map_option
          (\<lambda>j. if j_status j = JOB_STATUS_RUNNING then interrupted now j else j) (find_job k d))"
proof -
  obtain x d' where run: "recover_interrupted_jobs now d = (x, d')" by force
  with recover_interrupted_jobs_spec [OF assms, of now] obtain r where x: "x = Inr r"
    by (cases x) (auto simp: wp_def)
  from recover_interrupted_jobs_spec [OF assms, of now]
  have spec: "queue_inv d'" "map i_id r = map j_id (running_jobs d)"
    "\<And>k. find_job k d' = map_option
          (\<lambda>j. if j_status j = JOB_STATUS_RUNNING then interrupted now j else j) (find_job k d)"
    by (simp_all add: wp_def run x)
  have "j_status j \<noteq> JOB_STATUS_RUNNING" if "j \<in> set (jobs d')" for j
  proof -
    have "find_job (j_id j) d' = Some j"
      using jobs_wf_find that spec(1) by (simp add: queue_inv_def)
    then obtain i where "j = (if j_status i = JOB_STATUS_RUNNING then interrupted now i else i)"
      using spec(3) [of "j_id j"] by auto
    then show ?thesis by (cases "j_status i = JOB_STATUS_RUNNING") simp_all
  qed
  then show ?thesis using run x spec by blast
qed

theorem recovery_interrupts_running_witness:
  "\<exists>r d'. recover_interrupted_jobs 9 (empty_db\<lparr>jobs := [claimed ''w'' 3
      (new_job ''A'' False True ''K'' None [] 0 1)]\<rparr>) = (Inr r, d') \<and> map i_id r = [1] \<and> queue_inv d'"
proof -
  let ?d = "empty_db\<lparr>jobs := [claimed ''w'' 3 (new_job ''A'' False True ''K'' None [] 0 1)]\<rparr>"
  have "jobs_wf ?d" by (simp add: jobs_wf_def)
  moreover have "map j_id (running_jobs ?d) = [1]" by code_simp
  moreover have "locks ?d = []" by (simp add: empty_db_def)
  ultimately obtain r d' where "recover_interrupted_jobs 9 ?d = (Inr r, d')" "queue_inv d'" "map i_id r = [1]"
    using recovery_interrupts_running [of ?d 9] by auto
  then show ?thesis by (intro exI conjI)
qed

end
