(* ===== verification/World.thy ===== *)
theory World
  imports Jobs
begin

text \<open>
  What surrounds an executor of the worker: the database behind \<open>session_scope\<close>, the clocks, and the
  services outside the process. Each call of a service is answered by a function of the number of
  calls made so far, so a theorem for every environment covers every behaviour of the services, of
  the clock and of the web process that shares the database. The calls are recorded in a trace,
  the newest first.
\<close>

section \<open>Answers and events\<close>

datatype health_state = ONLINE | STARTING | DEGRADED | OFFLINE | FAILURE

datatype lifecycle_action = START | STOP | RESTART

datatype palworld_signal = SIG_TERM | SIG_KILL

datatype host_power_action = REBOOT | SHUTDOWN

record steam_build =
  installed_build_id :: string
  available_build_id :: string
  available_at :: "string option"

record log_entry =
  le_occurred_at :: int
  le_critical :: bool

record drive_quota =
  q_total :: int
  q_used :: int
  q_free :: int
  q_trashed :: int

record drive_file =
  df_filename :: string
  df_size_bytes :: int
  df_sha256 :: string

datatype event =
    EvHealth "exn + health_state"
  | EvControl lifecycle_action "exn + unit"
  | EvPort bool
  | EvPlayers "exn + int"
  | EvAnnounce string "exn + unit"
  | EvSignal palworld_signal "exn + unit"
  | EvHostPower host_power_action "exn + unit"
  | EvDiskFree "exn + int"
  | EvSteamCheck "exn + steam_build"
  | EvSteamApply "exn + unit"
  | EvJournal "exn + log_entry list"
  | EvFileStep string "exn + unit"
  | EvDirectory "exn + bool \<times> bool \<times> bool"
  | EvArchive "exn + string \<times> string \<times> int"
  | EvPublished string
  | EvArtifactRemoved string
  | EvRestorePrepare "exn + unit"
  | EvRestoreApply "exn + unit"
  | EvRestoreCleanup
  | EvDriveQuota "exn + drive_quota"
  | EvDriveList "exn + int"
  | EvDriveUpload string "exn + drive_file"
  | EvDriveDelete string "exn + unit"
  | EvDriveDownload string "exn + unit"
  | EvWebhook int "exn + unit"
  | EvLog string string

section \<open>The environment and the world\<close>

record env =
  e_wall :: "nat \<Rightarrow> int"
  e_delay :: "nat \<Rightarrow> nat"
  e_interfere :: "nat \<Rightarrow> db \<Rightarrow> db"
  e_fuel :: nat
  e_health :: "nat \<Rightarrow> exn + health_state"
  e_control :: "nat \<Rightarrow> exn + unit"
  e_port_open :: "nat \<Rightarrow> bool"
  e_players :: "nat \<Rightarrow> exn + int"
  e_announce :: "nat \<Rightarrow> exn + unit"
  e_signal :: "nat \<Rightarrow> exn + unit"
  e_host_power :: "nat \<Rightarrow> exn + unit"
  e_disk_free :: "nat \<Rightarrow> exn + int"
  e_steam_check :: "nat \<Rightarrow> exn + steam_build"
  e_steam_apply :: "nat \<Rightarrow> exn + unit"
  e_journal :: "nat \<Rightarrow> exn + log_entry list"
  e_file_step :: "nat \<Rightarrow> exn + unit"
  e_directory :: "nat \<Rightarrow> exn + bool \<times> bool \<times> bool"
  e_archive :: "nat \<Rightarrow> exn + string \<times> string \<times> int"
  e_identifier :: "nat \<Rightarrow> string"
  e_symlink :: "string \<Rightarrow> bool"
  e_restore_prepare :: "nat \<Rightarrow> exn + unit"
  e_restore_apply :: "nat \<Rightarrow> exn + unit"
  e_quota :: "nat \<Rightarrow> exn + drive_quota"
  e_remote_count :: "nat \<Rightarrow> exn + int"
  e_upload :: "nat \<Rightarrow> exn + drive_file"
  e_remote_delete :: "nat \<Rightarrow> exn + unit"
  e_download :: "nat \<Rightarrow> exn + unit"
  e_webhook :: "nat \<Rightarrow> exn + unit"

text \<open>
  \<open>w_irreversible\<close> and \<open>w_preventive\<close> are two local variables of the running executor that its handlers
  read: whether it is past the point of no return, and the storage path of its preventive backup with
  the identifier of the record once that is assigned. An exception does not undo them.
\<close>

record world =
  w_db :: db
  w_tick :: nat
  w_clock :: int
  w_trace :: "event list"
  w_artifacts :: "string list"
  w_irreversible :: bool
  w_preventive :: "(string \<times> int option) option"

text \<open>
  \<open>Diverges\<close> is not an exception a service can raise, and \<open>UpdateCancelledError\<close> is raised only inside
  \<open>app/updates/jobs.py\<close>, which defines it.
\<close>

definition answer :: "exn + 'a \<Rightarrow> exn + 'a" where
  "answer r = (case r of Inl e \<Rightarrow> Inl (if e = Diverges \<or> e = UpdateCancelledError then OtherException else e) | Inr x \<Rightarrow> Inr x)"

lemma answer_Inl [simp]: "answer r \<noteq> Inl Diverges" "answer r \<noteq> Inl UpdateCancelledError"
  by (cases r; auto simp: answer_def)+

definition after_call :: "env \<Rightarrow> event \<Rightarrow> world \<Rightarrow> world" where
  "after_call env ev w = w\<lparr>w_tick := Suc (w_tick w),
     w_clock := w_clock w + int (e_delay env (w_tick w)), w_trace := ev # w_trace w\<rparr>"

definition call :: "env \<Rightarrow> (nat \<Rightarrow> exn + 'a) \<Rightarrow> (exn + 'a \<Rightarrow> event) \<Rightarrow> (world, 'a) prog" where
  "call env f ev = (\<lambda>w. (answer (f (w_tick w)), after_call env (ev (answer (f (w_tick w)))) w))"

definition monotonic :: "(world, int) prog" where
  "monotonic = reads w_clock"

definition sleep :: "env \<Rightarrow> int \<Rightarrow> (world, unit) prog" where
  "sleep env d = modify (\<lambda>w. w\<lparr>w_tick := Suc (w_tick w),
     w_clock := w_clock w + d + int (e_delay env (w_tick w))\<rparr>)"

definition wall_now :: "env \<Rightarrow> (world, int) prog" where
  "wall_now env = reads (\<lambda>w. e_wall env (w_tick w))"

text \<open>
  \<open>session_scope\<close> (\<open>app/db/engine.py\<close>): the block runs as one transaction, committed when it ends
  and rolled back when it raises. What the other process committed in between is \<open>e_interfere\<close>.
\<close>

definition after_scope :: "world \<Rightarrow> db \<Rightarrow> world" where
  "after_scope w d = w\<lparr>w_db := d, w_tick := Suc (w_tick w)\<rparr>"

definition session_scope :: "env \<Rightarrow> (db, 'a) prog \<Rightarrow> (world, 'a) prog" where
  "session_scope env tx = (\<lambda>w.
     let d = e_interfere env (w_tick w) (w_db w)
     in case rollback tx d of (r, d') \<Rightarrow> (r, after_scope w d'))"

text \<open>
  A transaction whose block also calls services and changes files: an exception rolls the database
  back, and nothing else.
\<close>

definition on_db :: "(db, 'a) prog \<Rightarrow> (world, 'a) prog" where
  "on_db tx = (\<lambda>w. case tx (w_db w) of (r, d) \<Rightarrow> (r, w\<lparr>w_db := d\<rparr>))"

definition session_block :: "env \<Rightarrow> (world, 'a) prog \<Rightarrow> (world, 'a) prog" where
  "session_block env m = (\<lambda>w.
     let d = e_interfere env (w_tick w) (w_db w)
     in case m (after_scope w d) of (r, w') \<Rightarrow>
          (case r of Inl e \<Rightarrow> (Inl e, w'\<lparr>w_db := d\<rparr>) | Inr x \<Rightarrow> (Inr x, w')))"

text \<open>Equations that run a program on a concrete world.\<close>

lemma call_run: "call env f ev w = (answer (f (w_tick w)), after_call env (ev (answer (f (w_tick w)))) w)"
  by (simp add: call_def)

lemma scope_run: "session_scope env tx w = (case tx (e_interfere env (w_tick w) (w_db w)) of
    (Inl e, d') \<Rightarrow> (Inl e, after_scope w (e_interfere env (w_tick w) (w_db w)))
  | (Inr x, d') \<Rightarrow> (Inr x, after_scope w d'))"
  by (simp add: session_scope_def rollback_def Let_def split: prod.split sum.split)

lemma block_run: "session_block env m w = (case m (after_scope w (e_interfere env (w_tick w) (w_db w))) of
    (Inl e, w') \<Rightarrow> (Inl e, w'\<lparr>w_db := e_interfere env (w_tick w) (w_db w)\<rparr>)
  | (Inr x, w') \<Rightarrow> (Inr x, w'))"
  by (simp add: session_block_def Let_def split: prod.split sum.split)

lemma on_db_run: "on_db tx w = (case tx (w_db w) of (r, d) \<Rightarrow> (r, w\<lparr>w_db := d\<rparr>))"
  by (simp add: on_db_def)

lemma wall_now_run: "wall_now env w = (Inr (e_wall env (w_tick w)), w)"
  by (simp add: wall_now_def reads_def)

lemmas run_simps = run_code call_run scope_run block_run on_db_run wall_now_run answer_def

section \<open>Weakest preconditions of the calls\<close>

lemma wp_call [wp_simps]:
  "wp (call env f ev) Q E w =
     (let r = answer (f (w_tick w)); w' = after_call env (ev r) w
      in case r of Inl e \<Rightarrow> E e w' | Inr x \<Rightarrow> Q x w')"
  by (simp add: wp_def call_def Let_def)

lemma wp_monotonic [wp_simps]: "wp monotonic Q E w = Q (w_clock w) w"
  by (simp add: monotonic_def wp_simps)

lemma wp_sleep [wp_simps]:
  "wp (sleep env d) Q E w = Q () (w\<lparr>w_tick := Suc (w_tick w),
     w_clock := w_clock w + d + int (e_delay env (w_tick w))\<rparr>)"
  by (simp add: sleep_def wp_simps)

lemma wp_wall_now [wp_simps]: "wp (wall_now env) Q E w = Q (e_wall env (w_tick w)) w"
  by (simp add: wall_now_def wp_simps)

lemma wp_session_scope [wp_simps]:
  "wp (session_scope env tx) Q E w =
     (let d = e_interfere env (w_tick w) (w_db w)
      in wp tx (\<lambda>x d'. Q x (after_scope w d')) (\<lambda>e _. E e (after_scope w d)) d)"
  by (simp add: wp_def session_scope_def rollback_def Let_def split: prod.split sum.split)

lemma wp_on_db [wp_simps]:
  "wp (on_db tx) Q E w = wp tx (\<lambda>x d. Q x (w\<lparr>w_db := d\<rparr>)) (\<lambda>e d. E e (w\<lparr>w_db := d\<rparr>)) (w_db w)"
  by (simp add: wp_def on_db_def split: prod.split sum.split)

lemma wp_session_block [wp_simps]:
  "wp (session_block env m) Q E w =
     (let d = e_interfere env (w_tick w) (w_db w)
      in wp m Q (\<lambda>e w'. E e (w'\<lparr>w_db := d\<rparr>)) (after_scope w d))"
  by (simp add: wp_def session_block_def Let_def split: prod.split sum.split)

lemma after_call_fields [simp]:
  "w_db (after_call env ev w) = w_db w" "w_trace (after_call env ev w) = ev # w_trace w"
  "w_tick (after_call env ev w) = Suc (w_tick w)"
  "w_artifacts (after_call env ev w) = w_artifacts w"
  "w_irreversible (after_call env ev w) = w_irreversible w" "w_preventive (after_call env ev w) = w_preventive w"
  "w_clock (after_call env ev w) = w_clock w + int (e_delay env (w_tick w))"
  by (simp_all add: after_call_def)

lemma after_scope_fields [simp]:
  "w_db (after_scope w d) = d" "w_trace (after_scope w d) = w_trace w"
  "w_tick (after_scope w d) = Suc (w_tick w)" "w_artifacts (after_scope w d) = w_artifacts w"
  "w_irreversible (after_scope w d) = w_irreversible w" "w_preventive (after_scope w d) = w_preventive w"
  "w_clock (after_scope w d) = w_clock w"
  by (simp_all add: after_scope_def)

section \<open>Triples\<close>

text \<open>
  \<open>triple P m Q E\<close>: from a world with \<open>P\<close>, \<open>m\<close> ends with \<open>Q\<close> or raises with \<open>E\<close>. The rules below
  take an executor apart statement by statement.
\<close>

definition triple ::
  "('s \<Rightarrow> bool) \<Rightarrow> ('s, 'a) prog \<Rightarrow> ('a \<Rightarrow> 's \<Rightarrow> bool) \<Rightarrow> (exn \<Rightarrow> 's \<Rightarrow> bool) \<Rightarrow> bool" where
  "triple P m Q E \<longleftrightarrow> (\<forall>s. P s \<longrightarrow> wp m Q E s)"

lemma tripleI: "(\<And>s. P s \<Longrightarrow> wp m Q E s) \<Longrightarrow> triple P m Q E"
  by (simp add: triple_def)

lemma tripleD: "triple P m Q E \<Longrightarrow> P s \<Longrightarrow> wp m Q E s"
  by (simp add: triple_def)

lemma triple_conseq:
  assumes "triple P m Q E" and "\<And>s. P' s \<Longrightarrow> P s" and "\<And>x s. Q x s \<Longrightarrow> Q' x s"
    and "\<And>e s. E e s \<Longrightarrow> E' e s"
  shows "triple P' m Q' E'"
  unfolding triple_def
  by (intro allI impI) (rule wp_mono [OF tripleD [OF assms(1) assms(2)]], assumption+, erule assms(3), erule assms(4))

lemma triple_bnd:
  assumes "triple P m R E" and "\<And>x. triple (R x) (f x) Q E"
  shows "triple P (bnd m f) Q E"
  using assms by (auto simp: triple_def wp_bnd intro: wp_mono)

lemma triple_andthen:
  assumes "triple P m (\<lambda>_. R) E" and "triple R n Q E"
  shows "triple P (andthen m n) Q E"
  using assms by (auto simp: triple_def wp_andthen intro: wp_mono)

lemma triple_ret: "(\<And>s. P s \<Longrightarrow> Q x s) \<Longrightarrow> triple P (ret x) Q E"
  by (simp add: triple_def wp_simps)

lemma triple_raise: "(\<And>s. P s \<Longrightarrow> E e s) \<Longrightarrow> triple P (raise e) Q E"
  by (simp add: triple_def wp_simps)

lemma triple_if:
  assumes "b \<Longrightarrow> triple P m Q E" and "\<not> b \<Longrightarrow> triple P n Q E"
  shows "triple P (if b then m else n) Q E"
  using assms by simp

lemma triple_require:
  assumes "\<And>s. b \<Longrightarrow> P s \<Longrightarrow> Q () s" and "\<And>s. \<not> b \<Longrightarrow> P s \<Longrightarrow> E e s"
  shows "triple P (require b e) Q E"
  using assms by (simp add: triple_def wp_simps)

lemma triple_handle:
  assumes "triple P m Q R" and "\<And>e. e \<noteq> Diverges \<Longrightarrow> triple (R e) (h e) Q E"
    and "\<And>s. R Diverges s \<Longrightarrow> E Diverges s"
  shows "triple P (handle m h) Q E"
  using assms by (auto simp: triple_def wp_handle intro: wp_mono)

lemma triple_always:
  assumes "triple P m R F" and "\<And>x. triple (R x) fin (\<lambda>_. Q x) E"
    and "\<And>e. e \<noteq> Diverges \<Longrightarrow> triple (F e) fin (\<lambda>_. E e) E"
    and "\<And>s. F Diverges s \<Longrightarrow> E Diverges s"
  shows "triple P (always m fin) Q E"
  using assms by (auto simp: triple_def wp_always intro: wp_mono)

lemma triple_call:
  assumes "\<And>w x. P w \<Longrightarrow> Q x (after_call env (ev (Inr x)) w)"
    and "\<And>w e. P w \<Longrightarrow> e \<noteq> Diverges \<and> e \<noteq> UpdateCancelledError \<Longrightarrow> E e (after_call env (ev (Inl e)) w)"
  shows "triple P (call env f ev) Q E"
  unfolding triple_def wp_call Let_def
proof (intro allI impI)
  fix w
  assume P: "P w"
  show "case answer (f (w_tick w)) of
        Inl e \<Rightarrow> E e (after_call env (ev (answer (f (w_tick w)))) w)
      | Inr x \<Rightarrow> Q x (after_call env (ev (answer (f (w_tick w)))) w)"
  proof (cases "answer (f (w_tick w))")
    case (Inl e)
    then have "e \<noteq> Diverges \<and> e \<noteq> UpdateCancelledError" using answer_Inl [of "f (w_tick w)"] by auto
    then show ?thesis using assms(2) [OF P] Inl by simp
  next
    case (Inr x)
    then show ?thesis using assms(1) [OF P] by simp
  qed
qed

lemma triple_case_option:
  assumes "x = None \<Longrightarrow> triple P m Q E" and "\<And>y. x = Some y \<Longrightarrow> triple P (f y) Q E"
  shows "triple P (case x of None \<Rightarrow> m | Some y \<Rightarrow> f y) Q E"
  using assms by (simp split: option.split)

lemma triple_wall_now: "(\<And>t w. P w \<Longrightarrow> Q t w) \<Longrightarrow> triple P (wall_now env) Q E"
  by (simp add: triple_def wp_simps)

lemma triple_scope:
  assumes "\<And>w. P w \<Longrightarrow> wp tx (\<lambda>x d'. Q x (after_scope w d'))
      (\<lambda>e _. E e (after_scope w (e_interfere env (w_tick w) (w_db w))))
      (e_interfere env (w_tick w) (w_db w))"
  shows "triple P (session_scope env tx) Q E"
  using assms by (simp add: triple_def wp_session_scope Let_def)

lemma wp_trivial: "wp m (\<lambda>_ _. True) (\<lambda>_ _. True) s"
  by (simp add: wp_def split: prod.split sum.split)

text \<open>A transaction changes nothing but the database, so it keeps what does not look at it.\<close>

lemma triple_scope_frame:
  assumes "\<And>w d. P w \<Longrightarrow> P (after_scope w d)"
  shows "triple P (session_scope env tx) (\<lambda>_. P) (\<lambda>_. P)"
proof (rule triple_scope)
  fix w
  assume P: "P w"
  show "wp tx (\<lambda>x d'. P (after_scope w d'))
      (\<lambda>e _. P (after_scope w (e_interfere env (w_tick w) (w_db w))))
      (e_interfere env (w_tick w) (w_db w))"
    by (rule wp_mono [OF wp_trivial]) (use assms [OF P] in auto)
qed

lemmas triple_intros = triple_bnd triple_andthen triple_if triple_call triple_case_option
  triple_wall_now

end
