(* ===== verification/Systemd.thy ===== *)
theory Systemd
  imports World
begin

text \<open>
  What the Manager asks of systemd and of the host (\<open>app/system\<close>) and the health of the Palworld
  server it derives from the answers (\<open>app/health/palworld.py\<close>). A command is answered by its return
  code and output, or by \<open>None\<close> when it could not be run or timed out.
\<close>

section \<open>Commands\<close>

record completed_process =
  returncode :: int
  stdout :: string

text \<open>\<open>^[a-z][a-z-]{0,63}$\<close> and \<open>SERVICE_NAME_PATTERN\<close>, with \<open>fullmatch\<close>.\<close>

definition SYSTEMD_STATE_PATTERN :: "string \<Rightarrow> bool" where
  "SYSTEMD_STATE_PATTERN s = (case s of
       [] \<Rightarrow> False
     | c # cs \<Rightarrow> is_lower c \<and> length cs \<le> 63 \<and> list_all (\<lambda>x. is_lower x \<or> x = CHR ''-'') cs)"

definition is_alnum :: "char \<Rightarrow> bool" where
  "is_alnum c = (is_lower c \<or> is_upper c \<or> is_digit c)"

definition SERVICE_NAME_PATTERN :: "string \<Rightarrow> bool" where
  "SERVICE_NAME_PATTERN s =
     (let body = take (length s - 8) s in
      8 \<le> length s \<and> drop (length s - 8) s = ''.service'' \<and>
      (case body of
         [] \<Rightarrow> False
       | c # cs \<Rightarrow> (is_alnum c \<or> c = CHR ''_'')
           \<and> list_all (\<lambda>x. is_alnum x \<or> x \<in> {CHR ''_'', CHR ''.'', CHR ''@'', CHR ''-''}) cs))"

definition SAFE_ENVIRONMENT_NAMES :: "string list" where
  "SAFE_ENVIRONMENT_NAMES = [''HOME'', ''LANG'', ''LC_ALL'', ''PATH'', ''SSL_CERT_DIR'',
     ''SSL_CERT_FILE'', ''TMPDIR'', ''TZ'']"

definition sanitized_subprocess_environment :: "(string \<rightharpoonup> string) \<Rightarrow> (string \<times> string) list" where
  "sanitized_subprocess_environment environment =
     List.map_filter (\<lambda>name. case environment name of
         None \<Rightarrow> None
       | Some v \<Rightarrow> if CHR 0x00 \<in> set v then None else Some (name, v)) SAFE_ENVIRONMENT_NAMES"

definition rclone_subprocess_environment ::
  "string \<Rightarrow> (string \<rightharpoonup> string) \<Rightarrow> exn + (string \<times> string) list" where
  "rclone_subprocess_environment config_path environment =
     (if \<not> starts_with config_path ''/'' \<or> CHR 0x00 \<in> set config_path then Inl ValueError
      else Inr (AList.update ''RCLONE_CONFIG'' config_path
                  (sanitized_subprocess_environment environment)))"

section \<open>The request directory of the privileged helper\<close>

datatype privileged_host_action =
    PALWORLD_START | PALWORLD_STOP | PALWORLD_RESTART | PALWORLD_SIGTERM | PALWORLD_SIGKILL
  | HOST_REBOOT | HOST_POWEROFF

primrec action_value :: "privileged_host_action \<Rightarrow> string" where
  "action_value PALWORLD_START = ''palworld-start''"
| "action_value PALWORLD_STOP = ''palworld-stop''"
| "action_value PALWORLD_RESTART = ''palworld-restart''"
| "action_value PALWORLD_SIGTERM = ''palworld-sigterm''"
| "action_value PALWORLD_SIGKILL = ''palworld-sigkill''"
| "action_value HOST_REBOOT = ''host-reboot''"
| "action_value HOST_POWEROFF = ''host-poweroff''"

definition host_control_request_name :: "privileged_host_action \<Rightarrow> string" where
  "host_control_request_name action = action_value action @ ''.request''"

record directory_metadata =
  st_isdir :: bool
  st_uid :: int
  st_gid :: int
  st_mode :: int

definition HOST_CONTROL_REQUEST_DIRECTORY_MODE :: int where
  "HOST_CONTROL_REQUEST_DIRECTORY_MODE = 7 * 64 + 7 * 8"

text \<open>
  The directory is what opening and \<open>fstat\<close> say, \<open>None\<close> when opening fails; its files are the state.
  \<open>O_CREAT | O_EXCL\<close> fails when the request is already there, and \<open>writable\<close> tells whether the
  operating system lets the file be created at all.
\<close>

definition request_host_control ::
  "directory_metadata option \<Rightarrow> int \<Rightarrow> int \<Rightarrow> bool \<Rightarrow> privileged_host_action \<Rightarrow> (string list, unit) prog"
where
  "request_host_control directory owner_uid group_gid writable action =
     (case directory of
        None \<Rightarrow> raise HostControlRequestError
      | Some m \<Rightarrow>
          andthen (require (\<not> (\<not> st_isdir m \<or> st_uid m \<noteq> owner_uid \<or> st_gid m \<noteq> group_gid
                               \<or> st_mode m \<noteq> HOST_CONTROL_REQUEST_DIRECTORY_MODE))
                     HostControlRequestError)
            (bnd (reads (\<lambda>files. host_control_request_name action \<in> set files)) (\<lambda>present.
               andthen (require (\<not> present \<and> writable) HostControlRequestError)
                 (modify (\<lambda>files. files @ [host_control_request_name action])))))"

section \<open>The Palworld service\<close>

definition MANAGED_PALWORLD_SERVICE :: string where
  "MANAGED_PALWORLD_SERVICE = ''palworld.service''"

text \<open>The checks of the constructor; the timeout is in microseconds.\<close>

definition init_palworld_service :: "string \<Rightarrow> int \<Rightarrow> exn + unit" where
  "init_palworld_service service_name timeout =
     (if \<not> SERVICE_NAME_PATTERN service_name then Inl ValueError
      else if service_name \<noteq> MANAGED_PALWORLD_SERVICE then Inl ValueError
      else if timeout \<le> 0 then Inl ValueError else Inr ())"

record service_status =
  active :: bool
  source_state :: string

definition palworld_get_status :: "completed_process option \<Rightarrow> exn + service_status" where
  "palworld_get_status run = (case run of
       None \<Rightarrow> Inl PalworldServiceQueryError
     | Some result \<Rightarrow>
         if returncode result \<noteq> 0 then Inl PalworldServiceQueryError
         else let s = strip (stdout result) in
           if \<not> SYSTEMD_STATE_PATTERN s then Inl PalworldServiceQueryError
           else Inr \<lparr>active = (s = ''active''), source_state = s\<rparr>)"

primrec control_action :: "lifecycle_action \<Rightarrow> privileged_host_action" where
  "control_action START = PALWORLD_START"
| "control_action STOP = PALWORLD_STOP"
| "control_action RESTART = PALWORLD_RESTART"

primrec signal_action :: "palworld_signal \<Rightarrow> privileged_host_action" where
  "signal_action SIG_TERM = PALWORLD_SIGTERM"
| "signal_action SIG_KILL = PALWORLD_SIGKILL"

primrec power_action :: "host_power_action \<Rightarrow> privileged_host_action" where
  "power_action REBOOT = HOST_REBOOT"
| "power_action SHUTDOWN = HOST_POWEROFF"

text \<open>\<open>request\<close> is the requester: the operations translate its error.\<close>

definition translate :: "exn \<Rightarrow> ('s, unit) prog \<Rightarrow> ('s, unit) prog" where
  "translate e m = handle m (\<lambda>x. raise (if x = HostControlRequestError then e else x))"

definition palworld_control ::
  "(privileged_host_action \<Rightarrow> ('s, unit) prog) \<Rightarrow> lifecycle_action \<Rightarrow> ('s, unit) prog" where
  "palworld_control request action = translate PalworldServiceControlError (request (control_action action))"

definition palworld_send_signal ::
  "(privileged_host_action \<Rightarrow> ('s, unit) prog) \<Rightarrow> palworld_signal \<Rightarrow> ('s, unit) prog" where
  "palworld_send_signal request sig = translate PalworldServiceControlError (request (signal_action sig))"

definition host_power_request ::
  "(privileged_host_action \<Rightarrow> ('s, unit) prog) \<Rightarrow> host_power_action \<Rightarrow> ('s, unit) prog" where
  "host_power_request request action = translate HostPowerControlError (request (power_action action))"

section \<open>The Palworld process\<close>

definition init_process_probe :: "string \<Rightarrow> int \<Rightarrow> exn + unit" where
  "init_process_probe service_name timeout =
     (if \<not> SERVICE_NAME_PATTERN service_name then Inl ValueError
      else if timeout \<le> 0 then Inl ValueError else Inr ())"

text \<open>\<open>inspector\<close> answers for a process identifier, \<open>None\<close> for an error of \<open>psutil\<close>.\<close>

definition palworld_is_running ::
  "completed_process option \<Rightarrow> (int \<Rightarrow> bool option) \<Rightarrow> exn + bool" where
  "palworld_is_running run inspector = (case run of
       None \<Rightarrow> Inl PalworldProcessQueryError
     | Some result \<Rightarrow>
         if returncode result \<noteq> 0 then Inl PalworldProcessQueryError
         else let raw_pid = strip (stdout result) in
           if raw_pid = [] \<or> \<not> list_all is_digit raw_pid then Inl PalworldProcessQueryError
           else case parse_int raw_pid of
               None \<Rightarrow> Inl ValueError
             | Some pid \<Rightarrow>
                 if pid = 0 then Inr False
                 else case inspector pid of
                     None \<Rightarrow> Inl PalworldProcessQueryError
                   | Some b \<Rightarrow> Inr b)"

section \<open>Health\<close>

datatype rest_api_state = AVAILABLE | UNAUTHORIZED | UNAVAILABLE | INVALID_RESPONSE | REST_FAILURE

record health_snapshot =
  hs_state :: health_state
  hs_service_state :: "string option"
  hs_process_running :: "bool option"
  hs_rest_api_state :: rest_api_state

definition evaluate_palworld_health ::
  "service_status \<Rightarrow> bool \<Rightarrow> rest_api_state \<Rightarrow> health_snapshot" where
  "evaluate_palworld_health service process_running rest_api =
     (let rest_available = (rest_api = AVAILABLE);
          state =
            (if source_state service = ''failed'' then FAILURE
             else if source_state service = ''activating'' then STARTING
             else if source_state service = ''inactive'' then
               (if \<not> process_running \<and> \<not> rest_available then OFFLINE else FAILURE)
             else if source_state service = ''deactivating'' then
               (if process_running \<or> rest_available then DEGRADED else OFFLINE)
             else if active service then
               (if \<not> process_running then FAILURE
                else if rest_available then ONLINE else DEGRADED)
             else if process_running \<and> rest_available then DEGRADED
             else FAILURE)
      in \<lparr>hs_state = state, hs_service_state = Some (source_state service),
          hs_process_running = Some process_running, hs_rest_api_state = rest_api\<rparr>)"

text \<open>An exception of another class than the one caught leaves \<open>check\<close>.\<close>

definition palworld_health_check ::
  "(exn + service_status) \<Rightarrow> (exn + bool) \<Rightarrow> rest_api_state \<Rightarrow> exn + health_snapshot" where
  "palworld_health_check get_status is_running probe = (case get_status of
       Inl e \<Rightarrow>
         if e = PalworldServiceQueryError then
           Inr \<lparr>hs_state = FAILURE, hs_service_state = None, hs_process_running = None,
                hs_rest_api_state = REST_FAILURE\<rparr>
         else Inl e
     | Inr service \<Rightarrow>
         (case is_running of
            Inl e \<Rightarrow>
              if e = PalworldProcessQueryError then
                Inr \<lparr>hs_state = FAILURE, hs_service_state = Some (source_state service),
                     hs_process_running = None, hs_rest_api_state = REST_FAILURE\<rparr>
              else Inl e
          | Inr process_running \<Rightarrow> Inr (evaluate_palworld_health service process_running probe)))"

text \<open>The whole check of one moment, from the answers of \<open>systemctl\<close>.\<close>

definition observe_health ::
  "completed_process option \<Rightarrow> completed_process option \<Rightarrow> (int \<Rightarrow> bool option) \<Rightarrow> rest_api_state
     \<Rightarrow> exn + health_snapshot" where
  "observe_health status_run pid_run inspector probe =
     palworld_health_check (palworld_get_status status_run) (palworld_is_running pid_run inspector) probe"

section \<open>What the health check promises\<close>

lemma palworld_get_status_active:
  "palworld_get_status run = Inr s \<Longrightarrow> active s = (source_state s = ''active'')"
  by (auto simp: palworld_get_status_def Let_def split: option.splits if_splits)

lemma palworld_get_status_error:
  "palworld_get_status run = Inl e \<Longrightarrow> e = PalworldServiceQueryError"
  by (auto simp: palworld_get_status_def Let_def split: option.splits if_splits)

lemma palworld_is_running_True:
  assumes "palworld_is_running run inspector = Inr True"
  shows "\<exists>result pid. run = Some result \<and> returncode result = 0
      \<and> parse_int (strip (stdout result)) = Some pid \<and> pid \<noteq> 0 \<and> inspector pid = Some True"
  using assms
  by (auto simp: palworld_is_running_def Let_def split: option.splits if_splits)

text \<open>
  C0: the server is reported ONLINE only when systemd answered \<open>active\<close>, a process with a non-zero
  main PID is running and the REST API answered; and it is reported OFFLINE only when systemd
  answered \<open>inactive\<close> or \<open>deactivating\<close>, no process runs and the REST API did not answer. No answer
  of systemd that cannot be read is ever taken for either.
\<close>

theorem observe_health_sound:
  "(\<exists>s. observe_health status_run pid_run inspector probe = Inr s \<and> hs_state s = ONLINE)
     = (\<exists>st. palworld_get_status status_run = Inr st \<and> source_state st = ''active''
          \<and> palworld_is_running pid_run inspector = Inr True \<and> probe = AVAILABLE)
   \<and> (\<exists>s. observe_health status_run pid_run inspector probe = Inr s \<and> hs_state s = OFFLINE)
     = (\<exists>st. palworld_get_status status_run = Inr st
          \<and> (source_state st = ''inactive'' \<or> source_state st = ''deactivating'')
          \<and> palworld_is_running pid_run inspector = Inr False \<and> probe \<noteq> AVAILABLE)"
  using palworld_get_status_active [of status_run]
  by (cases "palworld_get_status status_run"; cases "palworld_is_running pid_run inspector")
    (auto simp: observe_health_def palworld_health_check_def evaluate_palworld_health_def Let_def)

text \<open>Requests to the privileged helper: a request is filed at most once, and only where it is safe.\<close>

lemma host_control_request_name_inj:
  "host_control_request_name a = host_control_request_name b \<longleftrightarrow> a = b"
  by (cases a; cases b) (simp_all add: host_control_request_name_def)

definition safe_directory :: "directory_metadata option \<Rightarrow> int \<Rightarrow> int \<Rightarrow> bool \<Rightarrow> bool" where
  "safe_directory dir uid gid writable \<longleftrightarrow> writable \<and>
     (\<exists>m. dir = Some m \<and> st_isdir m \<and> st_uid m = uid \<and> st_gid m = gid \<and> st_mode m = 504)"

text \<open>
  A request for a privileged action, made through the service or the host power controller, is
  filed exactly when the request directory is owned, grouped and protected as expected, no request
  for the same action is waiting and the file could be created; a request that is refused raises the
  error of its controller and leaves the directory as it was, and no file is ever filed twice.
\<close>

theorem privileged_requests_safe:
  "palworld_control (request_host_control dir uid gid writable) action files
      = (if safe_directory dir uid gid writable
            \<and> host_control_request_name (control_action action) \<notin> set files
         then (Inr (), files @ [host_control_request_name (control_action action)])
         else (Inl PalworldServiceControlError, files))
   \<and> palworld_send_signal (request_host_control dir uid gid writable) sig files
      = (if safe_directory dir uid gid writable
            \<and> host_control_request_name (signal_action sig) \<notin> set files
         then (Inr (), files @ [host_control_request_name (signal_action sig)])
         else (Inl PalworldServiceControlError, files))
   \<and> host_power_request (request_host_control dir uid gid writable) host_action files
      = (if safe_directory dir uid gid writable
            \<and> host_control_request_name (power_action host_action) \<notin> set files
         then (Inr (), files @ [host_control_request_name (power_action host_action)])
         else (Inl HostPowerControlError, files))"
  by (cases dir)
    (simp_all add: palworld_control_def palworld_send_signal_def host_power_request_def translate_def
      request_host_control_def safe_directory_def run_defs HOST_CONTROL_REQUEST_DIRECTORY_MODE_def)

end
