(* ===== verification/Heartbeat.thy ===== *)
theory Heartbeat
  imports Systemd
begin

text \<open>
  The lease of the worker (\<open>app/jobs/heartbeat.py\<close>) and the health the dashboard derives from it
  (\<open>app/jobs/health.py\<close>): one row under the key PRIMARY, taken over only when it is stale.
\<close>

section \<open>The lease\<close>

definition WORKER_HEARTBEAT_KEY :: string where
  "WORKER_HEARTBEAT_KEY = ''PRIMARY''"

definition HEARTBEAT_INTERVAL :: int where
  "HEARTBEAT_INTERVAL = seconds 10"

definition WORKER_LEASE_TIMEOUT :: int where
  "WORKER_LEASE_TIMEOUT = seconds 30"

definition current_lease :: "db \<Rightarrow> worker_heartbeat option" where
  "current_lease d = map_of (heartbeats d) WORKER_HEARTBEAT_KEY"

definition write_lease :: "worker_heartbeat \<Rightarrow> (db, unit) prog" where
  "write_lease h = modify (\<lambda>d. d\<lparr>heartbeats := AList.update WORKER_HEARTBEAT_KEY h (heartbeats d)\<rparr>)"

text \<open>\<open>INSERT ... ON CONFLICT DO UPDATE ... WHERE ... RETURNING\<close>: no row returned means no claim.\<close>

definition record_worker_start :: "string \<Rightarrow> int \<Rightarrow> (db, unit) prog" where
  "record_worker_start worker_id now =
     andthen (require (worker_id \<noteq> []) ValueError)
       (bnd (reads current_lease) (\<lambda>h.
          if (case h of None \<Rightarrow> True
              | Some h \<Rightarrow> h_worker_id h = worker_id \<or> h_heartbeat_at h \<le> now - WORKER_LEASE_TIMEOUT)
          then write_lease \<lparr>h_worker_id = worker_id, h_started_at = now, h_heartbeat_at = now\<rparr>
          else raise WorkerAlreadyRunningError))"

definition record_worker_heartbeat :: "string \<Rightarrow> int \<Rightarrow> (db, bool) prog" where
  "record_worker_heartbeat worker_id now =
     bnd (reads current_lease) (\<lambda>h. case h of
         None \<Rightarrow> ret False
       | Some h \<Rightarrow>
           if h_worker_id h \<noteq> worker_id then ret False
           else andthen (write_lease (h\<lparr>h_heartbeat_at := now\<rparr>)) (ret True))"

definition release_worker_lease :: "string \<Rightarrow> (db, unit) prog" where
  "release_worker_lease worker_id = modify (\<lambda>d. d\<lparr>heartbeats := filter
     (\<lambda>(k, h). \<not> (k = WORKER_HEARTBEAT_KEY \<and> h_worker_id h = worker_id)) (heartbeats d)\<rparr>)"

section \<open>The publisher\<close>

text \<open>
  \<open>WorkerHeartbeatPublisher\<close>: whether its thread was started and still loops, and whether a stop was
  requested. The thread's loop waits, beats once per interval, and ends on a stop request or when
  the row belongs to another worker; a failing transaction is logged and the loop goes on.
\<close>

record publisher =
  p_worker_id :: string
  p_started :: bool
  p_looping :: bool
  p_stop_requested :: bool

definition publisher_init :: "string \<Rightarrow> int \<Rightarrow> exn + publisher" where
  "publisher_init worker_id interval =
     (if interval \<le> 0 then Inl ValueError
      else Inr \<lparr>p_worker_id = worker_id, p_started = False, p_looping = False,
                p_stop_requested = False\<rparr>)"

definition publisher_start :: "int \<Rightarrow> publisher \<Rightarrow> (db, publisher) prog" where
  "publisher_start now p =
     andthen (require (\<not> p_started p) RuntimeError)
       (andthen (rollback (record_worker_start (p_worker_id p) now))
          (ret (p\<lparr>p_started := True, p_looping := True\<rparr>)))"

definition publisher_stop :: "publisher \<Rightarrow> (db, publisher) prog" where
  "publisher_stop p =
     andthen (rollback (release_worker_lease (p_worker_id p)))
       (ret (p\<lparr>p_stop_requested := True, p_started := False\<rparr>))"

text \<open>One turn of \<open>_run\<close>; \<open>failing\<close> tells whether the transaction fails.\<close>

definition publisher_turn :: "bool \<Rightarrow> int \<Rightarrow> publisher \<Rightarrow> (db, publisher) prog" where
  "publisher_turn failing now p =
     (if \<not> p_looping p then ret p
      else if p_stop_requested p then ret (p\<lparr>p_looping := False\<rparr>)
      else handle
        (bnd (rollback (andthen (require (\<not> failing) OtherException)
                          (record_worker_heartbeat (p_worker_id p) now))) (\<lambda>updated.
           ret (if updated then p else p\<lparr>p_looping := False\<rparr>)))
        (\<lambda>_. ret p))"

section \<open>Health of the worker\<close>

datatype worker_health_state = W_STARTING | W_HEALTHY | W_UNRESPONSIVE | W_OFFLINE

record worker_service_status =
  ws_active :: bool
  ws_source_state :: string
  ws_active_for :: int

record worker_health_snapshot =
  wh_state :: worker_health_state
  wh_service_state :: string
  wh_heartbeat_age :: "int option"
  wh_worker_id :: "string option"

definition parse_systemd_properties :: "string \<Rightarrow> (string \<times> string) list" where
  "parse_systemd_properties output = fold (\<lambda>line props.
       (case partition_at (CHR ''='') line of
          None \<Rightarrow> props
        | Some (k, v) \<Rightarrow>
            if k = ''ActiveState'' \<or> k = ''ActiveEnterTimestampMonotonic''
            then AList.update k (strip v) props else props)) (splitlines output) []"

text \<open>
  The uptime is the boot clock less the activation time, in microseconds, not rounded to a double.
\<close>

definition worker_get_status :: "completed_process option \<Rightarrow> int \<Rightarrow> exn + worker_service_status" where
  "worker_get_status run boot_time = (case run of
       None \<Rightarrow> Inl WorkerServiceQueryError
     | Some result \<Rightarrow>
         if returncode result \<noteq> 0 then Inl WorkerServiceQueryError
         else let props = parse_systemd_properties (stdout result);
                  state = (case map_of props ''ActiveState'' of None \<Rightarrow> [] | Some v \<Rightarrow> v);
                  raw = (case map_of props ''ActiveEnterTimestampMonotonic'' of None \<Rightarrow> [] | Some v \<Rightarrow> v)
           in if \<not> SYSTEMD_STATE_PATTERN state \<or> \<not> isdigit raw then Inl WorkerServiceQueryError
              else case parse_int raw of
                  None \<Rightarrow> Inl ValueError
                | Some activated \<Rightarrow>
                    Inr \<lparr>ws_active = (state = ''active''), ws_source_state = state,
                         ws_active_for = max (boot_time - activated) 0\<rparr>)"

definition WORKER_HEALTH_THRESHOLD :: int where
  "WORKER_HEALTH_THRESHOLD = WORKER_LEASE_TIMEOUT"

definition without_heartbeat :: "worker_service_status \<Rightarrow> worker_health_snapshot" where
  "without_heartbeat service =
     \<lparr>wh_state = (if ws_active_for service < WORKER_HEALTH_THRESHOLD then W_STARTING
                  else W_UNRESPONSIVE),
      wh_service_state = ws_source_state service, wh_heartbeat_age = None, wh_worker_id = None\<rparr>"

definition worker_health_check ::
  "(exn + worker_service_status) \<Rightarrow> int \<Rightarrow> (db, worker_health_snapshot) prog" where
  "worker_health_check get_status now = (case get_status of
       Inl e \<Rightarrow>
         if e = WorkerServiceQueryError
         then ret \<lparr>wh_state = W_UNRESPONSIVE, wh_service_state = ''unavailable'',
                   wh_heartbeat_age = None, wh_worker_id = None\<rparr>
         else raise e
     | Inr service \<Rightarrow>
         if \<not> ws_active service
         then ret \<lparr>wh_state = W_OFFLINE, wh_service_state = ws_source_state service,
                   wh_heartbeat_age = None, wh_worker_id = None\<rparr>
         else bnd (reads current_lease) (\<lambda>h. case h of
             None \<Rightarrow> ret (without_heartbeat service)
           | Some h \<Rightarrow>
               let age = max (now - h_heartbeat_at h) 0 in
               if ws_active_for service + seconds 1 < age then ret (without_heartbeat service)
               else ret \<lparr>wh_state = (if age < WORKER_HEALTH_THRESHOLD then W_HEALTHY
                                     else W_UNRESPONSIVE),
                         wh_service_state = ws_source_state service, wh_heartbeat_age = Some age,
                         wh_worker_id = Some (h_worker_id h)\<rparr>))"

section \<open>Exclusivity of the lease\<close>

lemma current_lease_write [simp]:
  "current_lease (d\<lparr>heartbeats := AList.update WORKER_HEARTBEAT_KEY h (heartbeats d)\<rparr>) = Some h"
  by (simp add: current_lease_def update_conv')

lemma map_of_filter_lease:
  "map_of hs WORKER_HEARTBEAT_KEY = Some h \<Longrightarrow> h_worker_id h \<noteq> w \<Longrightarrow>
   map_of (filter (\<lambda>(k, h). \<not> (k = WORKER_HEARTBEAT_KEY \<and> h_worker_id h = w)) hs)
     WORKER_HEARTBEAT_KEY = Some h"
  by (induction hs) (auto split: if_splits)

lemma current_lease_release:
  "h_worker_id h \<noteq> w \<Longrightarrow> current_lease d = Some h \<Longrightarrow>
   current_lease (snd (release_worker_lease w d)) = Some h"
  using map_of_filter_lease [of "heartbeats d" h w]
  by (simp add: current_lease_def release_worker_lease_def modify_def)

text \<open>What the workers of a host do with the lease, each operation in a transaction of its own.\<close>

datatype lease_op = Start string int | Beat string int | Release string

primrec op_worker :: "lease_op \<Rightarrow> string" where
  "op_worker (Start w t) = w"
| "op_worker (Beat w t) = w"
| "op_worker (Release w) = w"

primrec lease_step :: "lease_op \<Rightarrow> (db, bool) prog" where
  "lease_step (Start w t) = rollback (andthen (record_worker_start w t) (ret True))"
| "lease_step (Beat w t) = rollback (record_worker_heartbeat w t)"
| "lease_step (Release w) = rollback (andthen (release_worker_lease w) (ret True))"

text \<open>
  \<open>on_time w prev ops\<close>: in \<open>ops\<close> the worker \<open>w\<close> neither starts again nor releases its lease, and
  every attempt of another worker to start comes less than 30 seconds after the last heartbeat.
\<close>

fun on_time :: "string \<Rightarrow> int \<Rightarrow> lease_op list \<Rightarrow> bool" where
  "on_time w prev [] = True"
| "on_time w prev (Start v t # ops) = (v \<noteq> w \<and> t < prev + WORKER_LEASE_TIMEOUT \<and> on_time w prev ops)"
| "on_time w prev (Beat v t # ops) = on_time w (if v = w then t else prev) ops"
| "on_time w prev (Release v # ops) = (v \<noteq> w \<and> on_time w prev ops)"

primrec run_lease :: "lease_op list \<Rightarrow> db \<Rightarrow> (lease_op \<times> (exn + bool)) list \<times> db" where
  "run_lease [] d = ([], d)"
| "run_lease (x # xs) d = (case lease_step x d of (r, d') \<Rightarrow>
     (case run_lease xs d' of (rs, d'') \<Rightarrow> ((x, r) # rs, d'')))"

definition refused :: "lease_op \<Rightarrow> exn + bool \<Rightarrow> bool" where
  "refused x r = (case x of
       Start v t \<Rightarrow> r = Inl (if v = [] then ValueError else WorkerAlreadyRunningError)
     | Beat v t \<Rightarrow> r = Inr False
     | Release v \<Rightarrow> True)"

lemma lease_step_other:
  assumes "current_lease d = Some h" and "op_worker x \<noteq> h_worker_id h"
    and "\<And>v t. x = Start v t \<Longrightarrow> t < h_heartbeat_at h + WORKER_LEASE_TIMEOUT"
  shows "refused x (fst (lease_step x d)) \<and> current_lease (snd (lease_step x d)) = Some h"
proof (cases x)
  case (Start v t)
  with assms show ?thesis
    by (auto simp: refused_def run_defs record_worker_start_def)
next
  case (Beat v t)
  with assms show ?thesis
    by (auto simp: refused_def run_defs record_worker_heartbeat_def)
next
  case (Release v)
  then have "current_lease (snd (release_worker_lease v d)) = Some h"
    using assms by (intro current_lease_release) auto
  with Release show ?thesis
    by (simp add: refused_def run_defs release_worker_lease_def)
qed

lemma lease_step_beat:
  assumes "current_lease d = Some h"
  shows "fst (lease_step (Beat (h_worker_id h) t) d) = Inr True
    \<and> current_lease (snd (lease_step (Beat (h_worker_id h) t) d)) = Some (h\<lparr>h_heartbeat_at := t\<rparr>)"
  using assms by (simp add: run_defs record_worker_heartbeat_def write_lease_def)

lemma run_lease_exclusive:
  assumes "current_lease d = Some h" and "h_worker_id h = w" and "on_time w (h_heartbeat_at h) ops"
  shows "(\<exists>h'. current_lease (snd (run_lease ops d)) = Some h' \<and> h_worker_id h' = w)
    \<and> (\<forall>(x, r)\<in>set (fst (run_lease ops d)). if op_worker x = w then r = Inr True else refused x r)"
  using assms
proof (induction ops arbitrary: d h)
  case Nil
  then show ?case by simp
next
  case (Cons x ops)
  obtain r d' where step: "lease_step x d = (r, d')" by force
  show ?case
  proof (cases "op_worker x = w")
    case True
    with Cons.prems(3) obtain t where x: "x = Beat w t" by (cases x) auto
    then have r: "r = Inr True" and d': "current_lease d' = Some (h\<lparr>h_heartbeat_at := t\<rparr>)"
      using lease_step_beat [OF Cons.prems(1), of t] step Cons.prems(2) by auto
    have "on_time w (h_heartbeat_at (h\<lparr>h_heartbeat_at := t\<rparr>)) ops" using Cons.prems(3) x by simp
    from Cons.IH [OF d' _ this] Cons.prems(2) r True show ?thesis
      by (auto simp: step split: prod.splits)
  next
    case False
    then have "refused x (fst (lease_step x d)) \<and> current_lease (snd (lease_step x d)) = Some h"
      using Cons.prems by (intro lease_step_other) auto
    then have r: "refused x r" and d': "current_lease d' = Some h" by (simp_all add: step)
    have "on_time w (h_heartbeat_at h) ops" using Cons.prems(3) False by (cases x) auto
    from Cons.IH [OF d' Cons.prems(2) this] r False show ?thesis
      by (auto simp: step split: prod.splits)
  qed
qed

text \<open>
  C0: as long as a worker that took the lease at time \<open>t\<close> keeps beating so that no other worker tries
  to start 30 seconds or more after its last beat, it keeps the lease through any interleaving of
  the operations of any number of workers: every other worker's start is refused, its beats are
  rejected and its releases do nothing.
\<close>

theorem worker_lease_exclusive:
  assumes "record_worker_start w t d = (Inr (), d1)" and "on_time w t ops"
  shows "(\<exists>h. current_lease (snd (run_lease ops d1)) = Some h \<and> h_worker_id h = w)
    \<and> (\<forall>(x, r)\<in>set (fst (run_lease ops d1)). if op_worker x = w then r = Inr True else refused x r)"
proof (rule run_lease_exclusive)
  show "current_lease d1 = Some \<lparr>h_worker_id = w, h_started_at = t, h_heartbeat_at = t\<rparr>"
    using assms(1)
    by (auto simp: record_worker_start_def run_defs write_lease_def split: if_splits option.splits)
qed (use assms(2) in simp_all)

theorem worker_lease_exclusive_witness:
  "on_time ''w1'' 0 [Beat ''w1'' (seconds 10), Start ''w2'' (seconds 39), Beat ''w2'' (seconds 40),
      Release ''w2''] \<and>
   fst (run_lease [Beat ''w1'' (seconds 10), Start ''w2'' (seconds 39), Beat ''w2'' (seconds 40),
      Release ''w2''] (snd (record_worker_start ''w1'' 0 empty_db)))
     = [(Beat ''w1'' (seconds 10), Inr True),
        (Start ''w2'' (seconds 39), Inl WorkerAlreadyRunningError),
        (Beat ''w2'' (seconds 40), Inr False), (Release ''w2'', Inr True)]"
proof -
  let ?ops = "[Beat ''w1'' (seconds 10), Start ''w2'' (seconds 39), Beat ''w2'' (seconds 40),
      Release ''w2'']"
  have start: "record_worker_start ''w1'' 0 empty_db
      = (Inr (), snd (record_worker_start ''w1'' 0 empty_db))"
    by (simp add: record_worker_start_def run_defs current_lease_def write_lease_def empty_db_def)
  have on: "on_time ''w1'' 0 ?ops" by (simp add: seconds_def WORKER_LEASE_TIMEOUT_def)
  have rel: "lease_step (Release w) d = (Inr True, d')" if "d' = snd (release_worker_lease w d)" for w d d'
    using that by (simp add: run_defs release_worker_lease_def)
  show ?thesis
    using worker_lease_exclusive [OF start on] on
    by (auto simp: refused_def rel simp del: lease_step.simps split: prod.splits)
qed

text \<open>
  C17: a worker that the health check calls HEALTHY at some time holds the lease, and a second worker
  that tries to start at that time is refused: the threshold of the dashboard is the lease timeout.
\<close>

theorem healthy_worker_excludes_second:
  assumes "worker_health_check status now d = (Inr s, d')" and "wh_state s = W_HEALTHY"
    and "v \<noteq> []" and "wh_worker_id s \<noteq> Some v"
  shows "d' = d \<and> record_worker_start v now d = (Inl WorkerAlreadyRunningError, d)"
  using assms
  by (auto simp: worker_health_check_def without_heartbeat_def run_defs record_worker_start_def
      WORKER_HEALTH_THRESHOLD_def Let_def split: sum.splits if_splits option.splits)

theorem healthy_worker_excludes_second_witness:
  "record_worker_start ''w2'' (seconds 40) (snd (record_worker_start ''w1'' (seconds 30) empty_db))
     = (Inl WorkerAlreadyRunningError, snd (record_worker_start ''w1'' (seconds 30) empty_db))"
proof -
  let ?d = "snd (record_worker_start ''w1'' (seconds 30) empty_db)"
  let ?service = "\<lparr>ws_active = True, ws_source_state = ''active'', ws_active_for = seconds 60\<rparr>"
  have "worker_health_check (Inr ?service) (seconds 40) ?d
      = (Inr \<lparr>wh_state = W_HEALTHY, wh_service_state = ''active'', wh_heartbeat_age = Some (seconds 10),
              wh_worker_id = Some ''w1''\<rparr>, ?d)"
    by (simp add: worker_health_check_def record_worker_start_def write_lease_def run_defs empty_db_def
        current_lease_def WORKER_HEALTH_THRESHOLD_def WORKER_LEASE_TIMEOUT_def seconds_def Let_def)
  from healthy_worker_excludes_second [OF this, of "''w2''"] show ?thesis by simp
qed

text \<open>
  The heartbeat thread of a worker that lost its lease never writes again: with the row gone or
  another worker's, a turn leaves the database as it was and, unless its transaction failed, ends the
  loop; after a stop request a turn ends the loop without a write.
\<close>

theorem publisher_never_steals:
  assumes "p_looping p"
    and "p_stop_requested p \<or> (case current_lease d of None \<Rightarrow> True | Some h \<Rightarrow> h_worker_id h \<noteq> p_worker_id p)"
  shows "publisher_turn failing now p d
     = (Inr (if failing \<and> \<not> p_stop_requested p then p else p\<lparr>p_looping := False\<rparr>), d)"
  using assms
  by (auto simp: publisher_turn_def record_worker_heartbeat_def run_defs split: option.splits)

theorem publisher_never_steals_witness:
  "publisher_turn False 5
      \<lparr>p_worker_id = ''w1'', p_started = True, p_looping = True, p_stop_requested = False\<rparr> empty_db
    = (Inr \<lparr>p_worker_id = ''w1'', p_started = True, p_looping = False, p_stop_requested = False\<rparr>, empty_db)"
  using publisher_never_steals [of "\<lparr>p_worker_id = ''w1'', p_started = True, p_looping = True,
      p_stop_requested = False\<rparr>" empty_db False 5]
  by (simp add: current_lease_def empty_db_def)

end
