(* ===== verification/Producer.thy ===== *)
theory Producer
  imports World
begin

text \<open>
  What every \<open>enqueue_...\<close> function of the program shares: adding a pending row to the queue under a
  coordination key, and the audit events that go with it. The contract is a locale; each
  component's \<open>enqueue\<close> interprets it.
\<close>

section \<open>Audit events of the jobs\<close>

definition system_event ::
  "string \<Rightarrow> audit_result \<Rightarrow> int \<Rightarrow> string option \<Rightarrow> dict option \<Rightarrow> audit_fields" where
  "system_event action result job_id target details =
     \<lparr>f_action = action, f_result = result, f_origin = AUDIT_ORIGIN_SYSTEM, f_user_id = None,
      f_job_id = Some job_id, f_target = target, f_reason = None, f_details = details\<rparr>"

definition admin_event ::
  "string \<Rightarrow> audit_result \<Rightarrow> int option \<Rightarrow> int option \<Rightarrow> string option \<Rightarrow> dict option \<Rightarrow> audit_fields"
where
  "admin_event action result user_id job_id target details =
     \<lparr>f_action = action, f_result = result, f_origin = AUDIT_ORIGIN_ADMINISTRATOR,
      f_user_id = user_id, f_job_id = job_id, f_target = target, f_reason = None,
      f_details = details\<rparr>"

definition automatic_event ::
  "string \<Rightarrow> audit_result \<Rightarrow> int option \<Rightarrow> string option \<Rightarrow> dict option \<Rightarrow> audit_fields" where
  "automatic_event action result job_id target details =
     \<lparr>f_action = action, f_result = result, f_origin = AUDIT_ORIGIN_AUTOMATIC, f_user_id = None,
      f_job_id = job_id, f_target = target, f_reason = None, f_details = details\<rparr>"

lemma event_action [simp]:
  "f_action (system_event a r k t x) = a" "f_action (admin_event a r u k' t x) = a"
  "f_action (automatic_event a r k' t x) = a"
  by (simp_all add: system_event_def admin_event_def automatic_event_def)

section \<open>Adding a job\<close>

text \<open>\<open>session.add(job)\<close>, \<open>flush\<close>, and \<open>IntegrityError\<close> turned into the conflict error of the caller.\<close>

definition add_job :: "exn \<Rightarrow> (int \<Rightarrow> job) \<Rightarrow> (db, job) prog" where
  "add_job conflict mk = handle (insert_job mk)
     (\<lambda>e. raise (if e = IntegrityError then conflict else e))"

lemma wp_insert_job [wp_simps]:
  "wp (insert_job mk) Q E d =
     (let j = mk (fresh_key j_id (jobs d)) in
      if (case j_coordination_key j of None \<Rightarrow> False
          | Some k \<Rightarrow> active_status (j_status j) \<and> active_with_key k d)
      then E IntegrityError d else Q j (d\<lparr>jobs := jobs d @ [j]\<rparr>))"
  by (simp add: wp_def insert_job_def Let_def)

lemma wp_add_job [wp_simps]:
  "wp (add_job conflict mk) Q E d =
     (let j = mk (fresh_key j_id (jobs d)) in
      if (case j_coordination_key j of None \<Rightarrow> False
          | Some k \<Rightarrow> active_status (j_status j) \<and> active_with_key k d)
      then E conflict d else Q j (d\<lparr>jobs := jobs d @ [j]\<rparr>))"
  by (simp add: add_job_def wp_simps Let_def)

lemma new_job_fields [simp]:
  "j_id (new_job kind c l key u r now k) = k"
  "j_status (new_job kind c l key u r now k) = JOB_STATUS_PENDING"
  "j_coordination_key (new_job kind c l key u r now k) = Some key"
  "j_kind (new_job kind c l key u r now k) = kind"
  "j_result (new_job kind c l key u r now k) = Some r"
  "j_requires_maintenance_lock (new_job kind c l key u r now k) = l"
  "j_is_cancellable (new_job kind c l key u r now k) = c"
  "j_requested_by_user_id (new_job kind c l key u r now k) = u"
  "j_cancel_requested (new_job kind c l key u r now k) = False"
  "j_created_at (new_job kind c l key u r now k) = current_timestamp now"
  by (simp_all add: new_job_def)

lemma active_pending [simp]: "active_status JOB_STATUS_PENDING" "active_status JOB_STATUS_RUNNING"
  "\<not> active_status JOB_STATUS_SUCCEEDED" "\<not> active_status JOB_STATUS_FAILED"
  "\<not> active_status JOB_STATUS_CANCELLED" "\<not> active_status JOB_STATUS_INTERRUPTED"
  by (simp_all add: active_status_def)

section \<open>The contract of a producer\<close>

text \<open>The queue after one job was added: nothing else of it changed, and the key was not active.\<close>

definition appended :: "string \<Rightarrow> job \<Rightarrow> db \<Rightarrow> db \<Rightarrow> bool" where
  "appended key j d d' \<longleftrightarrow> jobs d' = jobs d @ [j] \<and> locks d' = locks d
     \<and> j_id j = fresh_key j_id (jobs d) \<and> j_status j = JOB_STATUS_PENDING
     \<and> j_coordination_key j = Some key \<and> \<not> active_with_key key d"

lemma active_with_keyI:
  "j \<in> set (jobs d) \<Longrightarrow> j_coordination_key j = Some k \<Longrightarrow> active_status (j_status j) \<Longrightarrow>
   active_with_key k d"
  by (auto simp: active_with_key_def list_ex_iff)

lemma appended_queue_inv:
  assumes inv: "queue_inv d" and app: "appended key j d d'"
  shows "queue_inv d'"
proof -
  from inv have jwf: "jobs_wf d" and lwf: "locks_wf d" by (simp_all add: queue_inv_def)
  from app have js: "jobs d' = jobs d @ [j]" and ls: "locks d' = locks d"
    and new: "j_id j = fresh_key j_id (jobs d)" "j_status j = JOB_STATUS_PENDING"
      "j_coordination_key j = Some key" and free: "\<not> active_with_key key d"
    by (simp_all add: appended_def)
  have "jobs_wf d'"
  proof (rule jobs_wfI)
    show "distinct (map j_id (jobs d'))"
      using jobs_wf_distinct [OF jwf] fresh_key_notin [of j_id "jobs d"] by (simp add: js new(1))
  next
    fix a b
    assume ab: "a \<in> set (jobs d')" "b \<in> set (jobs d')"
      and act: "active_status (j_status a)" "active_status (j_status b)"
      and key: "j_coordination_key a = j_coordination_key b" "j_coordination_key a \<noteq> None"
    have other: False if "x \<in> set (jobs d)" "j_coordination_key x = Some key" "active_status (j_status x)" for x
      using free active_with_keyI [OF that] by simp
    show "j_id a = j_id b"
    proof (cases "a = j \<or> b = j")
      case True
      moreover have "a = j \<or> a \<in> set (jobs d)" "b = j \<or> b \<in> set (jobs d)" using ab by (auto simp: js)
      ultimately have "a = j \<and> b = j" using act key(1) other new(3) by metis
      then show ?thesis by simp
    next
      case False
      then have "a \<in> set (jobs d)" "b \<in> set (jobs d)" using ab by (auto simp: js)
      then show ?thesis by (rule jobs_wf_key [OF jwf _ _ act key])
    qed
  qed
  moreover have "locks_wf d'"
    by (rule locks_wfI)
      (use lwf locks_wf_running [OF lwf] new(2) in
        \<open>auto simp: js ls dest: locks_wf_length locks_wf_global\<close>)
  ultimately show ?thesis by (simp add: queue_inv_def)
qed

lemma appended_active: "appended key j d d' \<Longrightarrow> active_with_key key d'"
  by (auto simp: appended_def active_with_key_def)

lemma appended_find: "appended key j d d' \<Longrightarrow> find_job (j_id j) d' = Some j"
  using fresh_key_notin [of j_id "jobs d"] row_get_None [of j_id "j_id j" "jobs d"]
  by (simp add: appended_def find_job_def)

lemma appended_audited [simp]: "appended key j d (audited t f d') = appended key j d d'"
  by (simp add: appended_def)

locale job_producer =
  fixes enqueue :: "'a \<Rightarrow> (db, job) prog" and key :: string
  assumes enqueue_appends: "wp (enqueue a) (\<lambda>j d'. appended key j d d') (\<lambda>_ _. True) d"
begin

lemma enqueue_spec: "enqueue a d = (Inr j, d') \<Longrightarrow> appended key j d d'"
  using enqueue_appends [of a d] by (simp add: wp_def)

lemma enqueue_inv: "queue_inv d \<Longrightarrow> enqueue a d = (Inr j, d') \<Longrightarrow> queue_inv d'"
  using enqueue_spec appended_queue_inv by blast

lemma enqueue_found: "enqueue a d = (Inr j, d') \<Longrightarrow> find_job (j_id j) d' = Some j"
  using enqueue_spec appended_find by blast

text \<open>While a job of the key is active no second one is accepted.\<close>

lemma enqueue_exclusive: "active_with_key key d \<Longrightarrow> \<exists>e d'. enqueue a d = (Inl e, d')"
  using enqueue_spec [of a d] by (cases "enqueue a d"; cases "fst (enqueue a d)")
    (auto simp: appended_def)

lemma enqueue_twice: "enqueue a d = (Inr j, d') \<Longrightarrow> \<exists>e d''. enqueue b d' = (Inl e, d'')"
  using enqueue_spec appended_active enqueue_exclusive by blast

end

lemma job_producerI: "(\<And>a d. wp (enqueue a) (\<lambda>j d'. appended key j d d') (\<lambda>_ _. True) d) \<Longrightarrow>
  job_producer enqueue key"
  by (rule job_producer.intro)

lemma appended_new [simp]:
  "appended key (new_job kind c l key u r now (fresh_key j_id (jobs d))) d
     (d\<lparr>jobs := jobs d @ [new_job kind c l key u r now (fresh_key j_id (jobs d))]\<rparr>)
   = (\<not> active_with_key key d)"
  by (simp add: appended_def)

section \<open>Finishing a job\<close>

text \<open>\<open>job = session.get_one(Job, k)\<close> and assignments to its columns.\<close>

definition update_job :: "int \<Rightarrow> (job \<Rightarrow> job) \<Rightarrow> (db, unit) prog" where
  "update_job k f = bnd (get_one_job k) (\<lambda>j. put_job (f j))"

lemma wp_update_job [wp_simps]:
  "wp (update_job k f) Q E d = (case find_job k d of None \<Rightarrow> E NoResultFound d
     | Some j \<Rightarrow> Q () (d\<lparr>jobs := row_put j_id (f j) (jobs d)\<rparr>))"
  by (simp add: update_job_def wp_simps split: option.split)

lemma find_job_put_upd [simp]:
  "find_job k d = Some x \<Longrightarrow> j_id j = j_id x \<Longrightarrow>
   find_job k (d\<lparr>jobs := row_put j_id j (jobs d)\<rparr>) = Some j"
  by (rule find_job_put_same) (auto dest: find_job_id)

text \<open>The fields a component writes when its job ends, in the order the code assigns them.\<close>

definition finished :: "job_status \<Rightarrow> string \<Rightarrow> int \<Rightarrow> dict \<Rightarrow> job \<Rightarrow> job" where
  "finished status step now result j = j\<lparr>j_status := status, j_step := step, j_progress := 100,
     j_is_cancellable := False, j_finished_at := Some now, j_result := Some result\<rparr>"

lemma finished_fields [simp]:
  "j_id (finished s p now r j) = j_id j" "j_status (finished s p now r j) = s"
  "j_coordination_key (finished s p now r j) = j_coordination_key j"
  "j_kind (finished s p now r j) = j_kind j" "j_result (finished s p now r j) = Some r"
  "j_progress (finished s p now r j) = 100" "j_is_cancellable (finished s p now r j) = False"
  "j_finished_at (finished s p now r j) = Some now" "j_step (finished s p now r j) = p"
  by (simp_all add: finished_def)

lemma row_get_put:
  "row_get key k (row_put key r rs)
     = (if key r = k then map_option (\<lambda>_. r) (row_get key k rs) else row_get key k rs)"
  by (induction rs) (auto simp: row_get_def row_put_def)

lemma find_jobD: "find_job k d = Some j \<Longrightarrow> row_get j_id k (jobs d) = Some j \<and> j_id j = k"
  using find_job_id by (simp add: find_job_def)

text \<open>Ending a job, or changing a running one without ending it, keeps the queue invariant.\<close>

lemma queue_inv_put:
  assumes inv: "queue_inv d" and j0: "find_job (j_id j) d = Some j0"
    and key: "j_coordination_key j = j_coordination_key j0"
    and act: "active_status (j_status j) \<Longrightarrow> j_status j = j_status j0"
    and lock: "j_requires_maintenance_lock j = j_requires_maintenance_lock j0"
  shows "queue_inv (d\<lparr>jobs := row_put j_id j (jobs d)\<rparr>)"
proof -
  from inv have jwf: "jobs_wf d" and lwf: "locks_wf d" by (simp_all add: queue_inv_def)
  have "jobs_wf (d\<lparr>jobs := row_put j_id j (jobs d)\<rparr>)"
    by (rule jobs_wf_put [OF jwf j0 key]) (use act in force)
  moreover have "locks_wf (d\<lparr>jobs := row_put j_id j (jobs d)\<rparr>)"
  proof (rule locks_wf_put [OF lwf])
    assume "j_status j = JOB_STATUS_RUNNING" "j_requires_maintenance_lock j"
    then have "j_status j0 = JOB_STATUS_RUNNING" "j_requires_maintenance_lock j0"
      using act lock by simp_all
    with locks_wf_running [OF lwf find_job_mem [OF j0]] find_job_id [OF j0]
    show "\<exists>l\<in>set (locks d). l_job_id l = j_id j" by simp
  qed
  ultimately show ?thesis by (simp add: queue_inv_def)
qed

lemma queue_inv_cong: "jobs d = jobs d' \<Longrightarrow> locks d = locks d' \<Longrightarrow> queue_inv d = queue_inv d'"
  by (simp add: queue_inv_def jobs_wf_def locks_wf_def)

section \<open>Programs that keep a predicate\<close>

definition keeps :: "('s \<Rightarrow> bool) \<Rightarrow> ('s, 'a) prog \<Rightarrow> bool" where
  "keeps P m \<longleftrightarrow> triple P m (\<lambda>_. P) (\<lambda>_. P)"

lemma keepsD: "keeps P m \<Longrightarrow> triple P m (\<lambda>_. P) (\<lambda>_. P)"
  by (simp add: keeps_def)

lemma keeps_weaken:
  "keeps P m \<Longrightarrow> (\<And>s. P s \<Longrightarrow> R s) \<Longrightarrow> triple P m (\<lambda>_. P) (\<lambda>_. R)"
  unfolding keeps_def by (erule triple_conseq)

lemma keeps_weaken_both:
  "keeps P m \<Longrightarrow> (\<And>s. P s \<Longrightarrow> R s) \<Longrightarrow> triple P m (\<lambda>_. R) (\<lambda>_. R)"
  unfolding keeps_def by (erule triple_conseq)

lemma keeps_ret [intro]: "keeps P (ret x)"
  by (simp add: keeps_def triple_ret)

lemma keeps_raise [intro]: "keeps P (raise e)"
  by (simp add: keeps_def triple_raise)

lemma keeps_require [intro]: "keeps P (require b e)"
  by (simp add: keeps_def triple_require)

lemma keeps_reads [intro]: "keeps P (reads f)"
  by (simp add: keeps_def triple_def wp_simps)

lemma keeps_bnd [intro]: "keeps P m \<Longrightarrow> (\<And>x. keeps P (f x)) \<Longrightarrow> keeps P (bnd m f)"
  unfolding keeps_def by (rule triple_bnd)

lemma keeps_andthen [intro]: "keeps P m \<Longrightarrow> keeps P n \<Longrightarrow> keeps P (andthen m n)"
  unfolding keeps_def by (rule triple_andthen)

lemma keeps_if [intro]: "(b \<Longrightarrow> keeps P m) \<Longrightarrow> (\<not> b \<Longrightarrow> keeps P n) \<Longrightarrow> keeps P (if b then m else n)"
  by simp

lemma keeps_handle [intro]: "keeps P m \<Longrightarrow> (\<And>e. keeps P (h e)) \<Longrightarrow> keeps P (handle m h)"
  unfolding keeps_def by (rule triple_handle)

lemma keeps_always [intro]: "keeps P m \<Longrightarrow> keeps P fin \<Longrightarrow> keeps P (always m fin)"
  unfolding keeps_def by (rule triple_always)

lemma keeps_option [intro]:
  "(x = None \<Longrightarrow> keeps P m) \<Longrightarrow> (\<And>y. x = Some y \<Longrightarrow> keeps P (f y)) \<Longrightarrow>
   keeps P (case x of None \<Rightarrow> m | Some y \<Rightarrow> f y)"
  by (simp split: option.split)

lemma keeps_modify [intro]: "(\<And>s. P s \<Longrightarrow> P (g s)) \<Longrightarrow> keeps P (modify g)"
  by (simp add: keeps_def triple_def wp_simps)

lemma keeps_for_each [intro]: "(\<And>x. x \<in> set xs \<Longrightarrow> keeps P (f x)) \<Longrightarrow> keeps P (for_each xs f)"
  by (induction xs) (auto intro!: keeps_andthen keeps_ret)

lemma keeps_call: "(\<And>w r. P w \<Longrightarrow> P (after_call env (ev r) w)) \<Longrightarrow> keeps P (call env f ev)"
  by (simp add: keeps_def triple_call)

lemma keeps_scope: "(\<And>w d. P w \<Longrightarrow> P (after_scope w d)) \<Longrightarrow> keeps P (session_scope env tx)"
  unfolding keeps_def by (rule triple_scope_frame)

lemma keeps_wall_now [intro]: "keeps P (wall_now env)"
  by (simp add: keeps_def triple_wall_now)

lemma keeps_monotonic [intro]: "keeps P monotonic"
  by (simp add: keeps_def triple_def wp_simps)

lemma keeps_case_prod: "(\<And>a b. keeps P (f a b)) \<Longrightarrow> keeps P (case x of (a, b) \<Rightarrow> f a b)"
  by (simp split: prod.split)

lemma keeps_on_db: "(\<And>w d. P w \<Longrightarrow> P (w\<lparr>w_db := d\<rparr>)) \<Longrightarrow> keeps P (on_db tx)"
  unfolding keeps_def triple_def wp_on_db by (auto intro: wp_mono [OF wp_trivial])

lemma keeps_block:
  assumes "keeps P m" and "\<And>w d. P w \<Longrightarrow> P (w\<lparr>w_db := d\<rparr>)" and "\<And>w d. P w \<Longrightarrow> P (after_scope w d)"
  shows "keeps P (session_block env m)"
  unfolding keeps_def triple_def wp_session_block Let_def
  by (intro allI impI, rule wp_mono, rule tripleD [OF keepsD [OF assms(1)] assms(3)]) (auto intro: assms(2))

lemmas keeps_rules = keeps_ret keeps_raise keeps_require keeps_reads keeps_bnd keeps_andthen keeps_if
  keeps_handle keeps_always keeps_option keeps_for_each keeps_wall_now keeps_monotonic keeps_case_prod

section \<open>Phases of a trace\<close>

text \<open>Where the job stands, in the events \<open>es\<close> since its start.\<close>

definition at_phase :: "event list \<Rightarrow> (event list \<Rightarrow> bool) \<Rightarrow> world \<Rightarrow> bool" where
  "at_phase tr P w \<longleftrightarrow> (\<exists>es. w_trace w = es @ tr \<and> P es)"

lemma keeps_at_phase_scope: "keeps (at_phase tr P) (session_scope env tx)"
  by (rule keeps_scope) (simp add: at_phase_def)

lemma at_phase_mono: "at_phase tr P w \<Longrightarrow> (\<And>es. P es \<Longrightarrow> Q es) \<Longrightarrow> at_phase tr Q w"
  by (auto simp: at_phase_def)

lemma at_phase_call:
  "at_phase tr P w \<Longrightarrow> (\<And>es. P es \<Longrightarrow> Q (ev # es)) \<Longrightarrow> at_phase tr Q (after_call env ev w)"
  by (auto simp: at_phase_def intro: exI [of _ "ev # _"])

section \<open>A concrete environment\<close>

text \<open>
  An environment in which nothing fails and nobody interferes, and the world at the start of the
  worker: what the concrete runs of the properties are computed in, with the answers they vary.
\<close>

definition calm_env :: env where
  "calm_env = \<lparr>e_wall = (\<lambda>n. seconds (int n)), e_delay = (\<lambda>_. 0), e_interfere = (\<lambda>_ d. d), e_fuel = 2,
     e_health = (\<lambda>_. Inr ONLINE), e_control = (\<lambda>_. Inr ()), e_port_open = (\<lambda>_. False),
     e_players = (\<lambda>_. Inr 0), e_announce = (\<lambda>_. Inr ()), e_signal = (\<lambda>_. Inr ()),
     e_host_power = (\<lambda>_. Inr ()), e_disk_free = (\<lambda>_. Inr 100),
     e_steam_check = (\<lambda>_. Inr \<lparr>installed_build_id = ''1'', available_build_id = ''2'', available_at = None\<rparr>),
     e_steam_apply = (\<lambda>_. Inr ()), e_journal = (\<lambda>_. Inr []), e_file_step = (\<lambda>_. Inr ()),
     e_directory = (\<lambda>_. Inr (True, False, True)),
     e_archive = (\<lambda>_. Inr (replicate 32 CHR ''0'', replicate 64 CHR ''0'', 1)),
     e_identifier = (\<lambda>_. replicate 32 CHR ''0''), e_symlink = (\<lambda>_. False), e_restore_prepare = (\<lambda>_. Inr ()),
     e_restore_apply = (\<lambda>_. Inr ()),
     e_quota = (\<lambda>_. Inr \<lparr>q_total = 10, q_used = 0, q_free = 10, q_trashed = 0\<rparr>),
     e_remote_count = (\<lambda>_. Inr 0),
     e_upload = (\<lambda>_. Inr \<lparr>df_filename = ''b.zip'', df_size_bytes = 1, df_sha256 = ''00''\<rparr>),
     e_remote_delete = (\<lambda>_. Inr ()), e_download = (\<lambda>_. Inr ()), e_webhook = (\<lambda>_. Inr ())\<rparr>"

lemma calm_env_simps:
  "e_wall calm_env = (\<lambda>n. seconds (int n))"
  "e_delay calm_env = (\<lambda>_. 0)"
  "e_interfere calm_env = (\<lambda>_ d. d)"
  "e_fuel calm_env = 2"
  "e_health calm_env = (\<lambda>_. Inr ONLINE)"
  "e_control calm_env = (\<lambda>_. Inr ())"
  "e_port_open calm_env = (\<lambda>_. False)"
  "e_players calm_env = (\<lambda>_. Inr 0)"
  "e_announce calm_env = (\<lambda>_. Inr ())"
  "e_signal calm_env = (\<lambda>_. Inr ())"
  "e_host_power calm_env = (\<lambda>_. Inr ())"
  "e_disk_free calm_env = (\<lambda>_. Inr 100)"
  "e_steam_check calm_env = (\<lambda>_. Inr \<lparr>installed_build_id = ''1'', available_build_id = ''2'', available_at = None\<rparr>)"
  "e_steam_apply calm_env = (\<lambda>_. Inr ())"
  "e_journal calm_env = (\<lambda>_. Inr [])"
  "e_file_step calm_env = (\<lambda>_. Inr ())"
  "e_directory calm_env = (\<lambda>_. Inr (True, False, True))"
  "e_archive calm_env = (\<lambda>_. Inr (replicate 32 CHR ''0'', replicate 64 CHR ''0'', 1))"
  "e_identifier calm_env = (\<lambda>_. replicate 32 CHR ''0'')"
  "e_symlink calm_env = (\<lambda>_. False)"
  "e_restore_prepare calm_env = (\<lambda>_. Inr ())"
  "e_restore_apply calm_env = (\<lambda>_. Inr ())"
  "e_quota calm_env = (\<lambda>_. Inr \<lparr>q_total = 10, q_used = 0, q_free = 10, q_trashed = 0\<rparr>)"
  "e_remote_count calm_env = (\<lambda>_. Inr 0)"
  "e_upload calm_env = (\<lambda>_. Inr \<lparr>df_filename = ''b.zip'', df_size_bytes = 1, df_sha256 = ''00''\<rparr>)"
  "e_remote_delete calm_env = (\<lambda>_. Inr ())"
  "e_download calm_env = (\<lambda>_. Inr ())"
  "e_webhook calm_env = (\<lambda>_. Inr ())"
  by (simp_all add: calm_env_def)

definition start_world :: "db \<Rightarrow> world" where
  "start_world d = \<lparr>w_db = d, w_tick = 0, w_clock = 0, w_trace = [], w_artifacts = [],
     w_irreversible = False, w_preventive = None\<rparr>"

end
