(* ===== verification/Lifecycle.thy ===== *)
theory Lifecycle
  imports Producer
begin

text \<open>
  Starting, stopping and restarting the Palworld server: the polling executor
  (\<open>app/lifecycle/service.py\<close>) and its jobs (\<open>app/lifecycle/jobs.py\<close>). The executor is an interface
  the other components rely on: a successful STOP was confirmed by the last observations.
\<close>

section \<open>The executor\<close>

datatype lifecycle_outcome = LIFECYCLE_SUCCEEDED | LIFECYCLE_FAILED

record lifecycle_result =
  lr_outcome :: lifecycle_outcome
  lr_final_state :: health_state
  lr_timed_out :: bool

type_synonym lifecycle_executor = "lifecycle_action \<Rightarrow> int \<Rightarrow> (world, lifecycle_result) prog"

definition POLL_INTERVAL :: int where
  "POLL_INTERVAL = seconds 1"

definition health_check :: "env \<Rightarrow> (world, health_state) prog" where
  "health_check env = call env (e_health env) EvHealth"

definition control :: "env \<Rightarrow> lifecycle_action \<Rightarrow> (world, unit) prog" where
  "control env action = call env (e_control env) (EvControl action)"

definition port_open :: "env \<Rightarrow> (world, bool) prog" where
  "port_open env = (\<lambda>w. (Inr (e_port_open env (w_tick w)),
                        after_call env (EvPort (e_port_open env (w_tick w))) w))"

definition reached_target :: "env \<Rightarrow> lifecycle_action \<Rightarrow> health_state \<Rightarrow> (world, bool) prog" where
  "reached_target env action state =
     (if action \<noteq> STOP then ret (state = ONLINE)
      else if state \<noteq> OFFLINE then ret False
      else bnd (port_open env) (\<lambda>b. ret (\<not> b)))"

text \<open>The loop of \<open>execute\<close>; \<open>observed\<close> is \<open>restart_transition_observed\<close>.\<close>

primrec lifecycle_poll ::
  "env \<Rightarrow> nat \<Rightarrow> lifecycle_action \<Rightarrow> int \<Rightarrow> bool \<Rightarrow> (world, lifecycle_result) prog" where
  "lifecycle_poll env 0 action deadline observed = raise Diverges"
| "lifecycle_poll env (Suc fuel) action deadline observed =
     bnd (health_check env) (\<lambda>state.
       let observed' = (observed \<or> (action = RESTART \<and> state \<noteq> ONLINE)) in
       bnd (if observed' then reached_target env action state else ret False) (\<lambda>reached.
         if reached
         then ret \<lparr>lr_outcome = LIFECYCLE_SUCCEEDED, lr_final_state = state, lr_timed_out = False\<rparr>
         else bnd monotonic (\<lambda>t.
           if deadline \<le> t
           then ret \<lparr>lr_outcome = LIFECYCLE_FAILED, lr_final_state = state, lr_timed_out = True\<rparr>
           else bnd monotonic (\<lambda>t'.
             andthen (sleep env (min POLL_INTERVAL (max 0 (deadline - t'))))
               (lifecycle_poll env fuel action deadline observed')))))"

definition lifecycle_execute :: "env \<Rightarrow> lifecycle_executor" where
  "lifecycle_execute env action timeout_seconds =
     andthen (require (0 < timeout_seconds) ValueError)
       (bnd (if action = RESTART then bnd (health_check env) (\<lambda>s. ret (s \<noteq> ONLINE)) else ret True)
          (\<lambda>observed.
            bnd (handle (andthen (control env action) (ret True))
                   (\<lambda>e. if e = PalworldServiceControlError then ret False else raise e)) (\<lambda>accepted.
              if \<not> accepted
              then ret \<lparr>lr_outcome = LIFECYCLE_FAILED, lr_final_state = FAILURE, lr_timed_out = False\<rparr>
              else bnd monotonic (\<lambda>t.
                lifecycle_poll env (e_fuel env) action (t + seconds timeout_seconds) observed))))"

section \<open>The jobs\<close>

definition LIFECYCLE_JOB_PREFIX :: string where
  "LIFECYCLE_JOB_PREFIX = ''PALWORLD_''"

definition LIFECYCLE_COORDINATION_KEY :: string where
  "LIFECYCLE_COORDINATION_KEY = ''PALWORLD_LIFECYCLE''"

primrec lifecycle_action_value :: "lifecycle_action \<Rightarrow> string" where
  "lifecycle_action_value START = ''START''"
| "lifecycle_action_value STOP = ''STOP''"
| "lifecycle_action_value RESTART = ''RESTART''"

primrec TIMEOUT_KEYS :: "lifecycle_action \<Rightarrow> string" where
  "TIMEOUT_KEYS START = ''start_timeout_seconds''"
| "TIMEOUT_KEYS RESTART = ''restart_timeout_seconds''"
| "TIMEOUT_KEYS STOP = ''stop_timeout_seconds''"

primrec DEFAULT_TIMEOUTS :: "lifecycle_action \<Rightarrow> int" where
  "DEFAULT_TIMEOUTS START = 120"
| "DEFAULT_TIMEOUTS RESTART = 120"
| "DEFAULT_TIMEOUTS STOP = 60"

definition maximum_timeout :: "lifecycle_action \<Rightarrow> int" where
  "maximum_timeout action = (if action = STOP then 300 else 600)"

primrec health_value :: "health_state \<Rightarrow> string" where
  "health_value ONLINE = ''ONLINE''"
| "health_value STARTING = ''INICIANDO''"
| "health_value DEGRADED = ''DEGRADADO''"
| "health_value OFFLINE = ''OFFLINE''"
| "health_value FAILURE = ''FALHA''"

definition lifecycle_job_kind :: "lifecycle_action \<Rightarrow> string" where
  "lifecycle_job_kind action = LIFECYCLE_JOB_PREFIX @ lifecycle_action_value action"

definition parse_lifecycle_job_kind :: "string \<Rightarrow> lifecycle_action option" where
  "parse_lifecycle_job_kind kind =
     (if \<not> starts_with kind LIFECYCLE_JOB_PREFIX then None
      else let v = remove_prefix kind LIFECYCLE_JOB_PREFIX in
        if v = ''START'' then Some START else if v = ''STOP'' then Some STOP
        else if v = ''RESTART'' then Some RESTART else None)"

text \<open>The latest job of the key, when it is active, or was interrupted and nothing came after.\<close>

definition active_palworld_job :: "db \<Rightarrow> job option" where
  "active_palworld_job d =
     (let mine = order_by (\<lambda>j. - j_id j)
                   (filter (\<lambda>j. j_coordination_key j = Some LIFECYCLE_COORDINATION_KEY) (jobs d))
      in case limit1 (filter (\<lambda>j. active_status (j_status j)) mine) of
           Some j \<Rightarrow> Some j
         | None \<Rightarrow> (case limit1 mine of
               Some j \<Rightarrow> if j_status j = JOB_STATUS_INTERRUPTED then Some j else None
             | None \<Rightarrow> None))"

definition int_within :: "json option \<Rightarrow> int \<Rightarrow> int \<Rightarrow> int option" where
  "int_within v lo hi = (case json_int v of
       None \<Rightarrow> None
     | Some n \<Rightarrow> if lo \<le> n \<and> n \<le> hi then Some n else None)"

lemma int_within_Some [simp]: "int_within v lo hi = Some n \<longleftrightarrow> v = Some (JInt n) \<and> lo \<le> n \<and> n \<le> hi"
  by (auto simp: int_within_def json_int_def split: option.splits json.splits)

definition lifecycle_timeout :: "lifecycle_action \<Rightarrow> (db, int) prog" where
  "lifecycle_timeout action = bnd (reads (find_setting (TIMEOUT_KEYS action))) (\<lambda>setting.
     case setting of
       None \<Rightarrow> ret (DEFAULT_TIMEOUTS action)
     | Some s \<Rightarrow> (case int_within (Some (s_value s)) 1 (maximum_timeout action) of
         None \<Rightarrow> raise ValueError
       | Some n \<Rightarrow> ret n))"

text \<open>
  \<open>Job.kind LIKE 'PALWORLD_%'\<close>: SQLite compares ASCII letters without case and the underscore matches
  any one character, so every kind of more than eight characters that starts with PALWORLD matches.
\<close>

definition like_palworld :: "string \<Rightarrow> bool" where
  "like_palworld kind = (9 \<le> length kind \<and> map to_lower (take 8 kind) = ''palworld'')"

definition enqueue_lifecycle_job ::
  "lifecycle_action \<Rightarrow> int option \<Rightarrow> int \<Rightarrow> (db, job) prog" where
  "enqueue_lifecycle_job action user_id now =
     bnd (reads (\<lambda>d. list_ex (\<lambda>j. like_palworld (j_kind j) \<and> active_status (j_status j)) (jobs d)))
       (\<lambda>active. andthen (require (\<not> active) LifecycleJobConflictError)
         (bnd (lifecycle_timeout action) (\<lambda>timeout_seconds.
           bnd (add_job LifecycleJobConflictError
                  (new_job (lifecycle_job_kind action) False True LIFECYCLE_COORDINATION_KEY user_id
                     [(''timeout_seconds'', JInt timeout_seconds)] now)) (\<lambda>job.
             andthen (record_audit_event now
                 (admin_event (lifecycle_action_value action @ ''_SERVER_REQUESTED'')
                    AUDIT_RESULT_SUCCESS user_id (Some (j_id job)) (Some ''Palworld'')
                    (Some [(''timeout_seconds'', JInt timeout_seconds)])))
               (ret job)))))"

definition claim_next_lifecycle_job :: "string \<Rightarrow> int \<Rightarrow> (db, job option) prog" where
  "claim_next_lifecycle_job worker_id now =
     claim_next_job worker_id (map lifecycle_job_kind [START, STOP, RESTART]) now"

definition job_timeout :: "job \<Rightarrow> lifecycle_action \<Rightarrow> int option" where
  "job_timeout j action =
     int_within (dict_get (dict_of (j_result j)) ''timeout_seconds'') 1 (maximum_timeout action)"

text \<open>What \<open>execute_lifecycle_job\<close> writes once the executor answered.\<close>

definition complete_lifecycle_job ::
  "int \<Rightarrow> lifecycle_action \<Rightarrow> int \<Rightarrow> lifecycle_result \<Rightarrow> int \<Rightarrow> (db, unit) prog" where
  "complete_lifecycle_job k action timeout_seconds r now =
     bnd (get_one_job k) (\<lambda>j.
       let ok = (lr_outcome r = LIFECYCLE_SUCCEEDED) in
       andthen (put_job (j\<lparr>j_status := (if ok then JOB_STATUS_SUCCEEDED else JOB_STATUS_FAILED),
            j_step := (if ok then ''COMPLETED'' else ''FAILED''), j_progress := 100,
            j_finished_at := Some now,
            j_result := Some [(''timeout_seconds'', JInt timeout_seconds),
              (''timed_out'', JBool (lr_timed_out r)),
              (''final_state'', JStr (health_value (lr_final_state r)))]\<rparr>))
         (record_audit_event now
            (system_event (lifecycle_action_value action @ ''_SERVER'')
               (if ok then AUDIT_RESULT_SUCCESS else AUDIT_RESULT_FAILURE) k (Some ''Palworld'')
               (Some [(''timed_out'', JBool (lr_timed_out r)),
                      (''final_state'', JStr (health_value (lr_final_state r)))]))))"

text \<open>
  The caller holds one session around \<open>execute_lifecycle_job\<close>; it reads the job at the start and
  writes its row when it commits, and no statement runs in between.
\<close>

definition execute_lifecycle_job :: "env \<Rightarrow> int \<Rightarrow> lifecycle_executor \<Rightarrow> (world, unit) prog" where
  "execute_lifecycle_job env k executor =
     bnd (session_scope env (get_one_job k)) (\<lambda>j.
       andthen (require (j_status j = JOB_STATUS_RUNNING) ValueError)
         (case parse_lifecycle_job_kind (j_kind j) of
            None \<Rightarrow> raise ValueError
          | Some action \<Rightarrow>
              (case job_timeout j action of
                 None \<Rightarrow> raise ValueError
               | Some timeout_seconds \<Rightarrow>
                   bnd (executor action timeout_seconds) (\<lambda>r.
                     bnd (wall_now env) (\<lambda>now.
                       session_scope env
                         (complete_lifecycle_job k action timeout_seconds r now))))))"

definition fail_lifecycle_job :: "int \<Rightarrow> int \<Rightarrow> (db, unit) prog" where
  "fail_lifecycle_job k now =
     bnd (get_one_job k) (\<lambda>j. case parse_lifecycle_job_kind (j_kind j) of
         None \<Rightarrow> raise ValueError
       | Some action \<Rightarrow>
           andthen (put_job (j\<lparr>j_status := JOB_STATUS_FAILED, j_step := ''FAILED'', j_progress := 100,
                j_finished_at := Some now,
                j_result := Some [(''unexpected_failure'', JBool True)]\<rparr>))
             (record_audit_event now
                (system_event (lifecycle_action_value action @ ''_SERVER'') AUDIT_RESULT_FAILURE k
                   (Some ''Palworld'') (Some [(''unexpected_failure'', JBool True)]))))"

record lifecycle_job_view =
  lv_id :: int
  lv_action :: lifecycle_action
  lv_status :: job_status
  lv_progress :: int
  lv_step :: string
  lv_timed_out :: "bool option"
  lv_final_state :: "string option"

definition lifecycle_job_view :: "job \<Rightarrow> lifecycle_job_view option" where
  "lifecycle_job_view j = (case parse_lifecycle_job_kind (j_kind j) of
       None \<Rightarrow> None
     | Some action \<Rightarrow> Some
         \<lparr>lv_id = j_id j, lv_action = action, lv_status = j_status j, lv_progress = j_progress j,
          lv_step = j_step j,
          lv_timed_out = json_bool (dict_get (dict_of (j_result j)) ''timed_out''),
          lv_final_state = json_str (dict_get (dict_of (j_result j)) ''final_state'')\<rparr>)"

section \<open>The contract of an executor\<close>

definition lifecycle_event :: "event \<Rightarrow> bool" where
  "lifecycle_event ev = (case ev of EvHealth _ \<Rightarrow> True | EvControl _ _ \<Rightarrow> True | EvPort _ \<Rightarrow> True
                                 | _ \<Rightarrow> False)"

definition lifecycle_frame :: "world \<Rightarrow> world \<Rightarrow> event list \<Rightarrow> bool" where
  "lifecycle_frame w w' es \<longleftrightarrow> w_db w' = w_db w \<and> w_artifacts w' = w_artifacts w
     \<and> w_irreversible w' = w_irreversible w \<and> w_preventive w' = w_preventive w \<and> w_trace w' = es @ w_trace w
     \<and> list_all lifecycle_event es"

text \<open>What a success means for the events since the call, the newest first.\<close>

primrec confirmed :: "lifecycle_action \<Rightarrow> event list \<Rightarrow> bool" where
  "confirmed STOP es = (\<exists>rest. es = EvPort False # EvHealth (Inr OFFLINE) # rest
     \<and> EvControl STOP (Inr ()) \<in> set rest)"
| "confirmed START es = (\<exists>rest. es = EvHealth (Inr ONLINE) # rest
     \<and> EvControl START (Inr ()) \<in> set rest)"
| "confirmed RESTART es = (\<exists>rest. es = EvHealth (Inr ONLINE) # rest
     \<and> EvControl RESTART (Inr ()) \<in> set rest
     \<and> (\<exists>s. s \<noteq> ONLINE \<and> EvHealth (Inr s) \<in> set rest))"

definition lifecycle_done :: "lifecycle_action \<Rightarrow> lifecycle_result \<Rightarrow> world \<Rightarrow> world \<Rightarrow> bool" where
  "lifecycle_done action r w w' \<longleftrightarrow> (\<exists>es. lifecycle_frame w w' es
     \<and> (lr_outcome r = LIFECYCLE_SUCCEEDED \<longrightarrow> confirmed action es))"

locale lifecycle_contract =
  fixes exec :: lifecycle_executor
  assumes exec_done: "wp (exec action timeout_seconds) (\<lambda>r w'. lifecycle_done action r w w')
    (\<lambda>e w'. \<exists>es. lifecycle_frame w w' es) w"
begin

text \<open>The executor leaves the database alone and keeps what its events cannot break.\<close>

lemma exec_keeps:
  assumes "\<And>w w' es. P w \<Longrightarrow> lifecycle_frame w w' es \<Longrightarrow> P w'"
  shows "triple P (exec action timeout_seconds)
    (\<lambda>r w. P w \<and> (lr_outcome r = LIFECYCLE_SUCCEEDED \<longrightarrow>
       (\<exists>es rest. w_trace w = es @ rest \<and> confirmed action es))) (\<lambda>_. P)"
proof (rule tripleI)
  fix w
  assume "P w"
  then show "wp (exec action timeout_seconds)
    (\<lambda>r w. P w \<and> (lr_outcome r = LIFECYCLE_SUCCEEDED \<longrightarrow>
       (\<exists>es rest. w_trace w = es @ rest \<and> confirmed action es))) (\<lambda>_. P) w"
    by (intro wp_mono [OF exec_done])
      (auto simp: lifecycle_done_def lifecycle_frame_def dest: assms intro: assms)
qed

lemma exec_keeps_only:
  assumes "\<And>w w' es. P w \<Longrightarrow> lifecycle_frame w w' es \<Longrightarrow> P w'"
  shows "keeps P (exec action timeout_seconds)"
  unfolding keeps_def by (rule triple_conseq [OF exec_keeps [of P, OF assms]]) auto

text \<open>After a successful STOP the newest events are an offline health state and a closed port.\<close>

lemma stop_confirmed:
  assumes "exec STOP timeout_seconds w = (Inr r, w')" and "lr_outcome r = LIFECYCLE_SUCCEEDED"
  shows "\<exists>rest. w_trace w' = EvPort False # EvHealth (Inr OFFLINE) # rest"
  using wp_InrD [OF exec_done assms(1)] assms(2)
  by (auto simp: lifecycle_done_def lifecycle_frame_def)

end

section \<open>The polling executor keeps the contract\<close>

lemma wp_port_open [wp_simps]:
  "wp (port_open env) Q E w = Q (e_port_open env (w_tick w))
     (after_call env (EvPort (e_port_open env (w_tick w))) w)"
  by (simp add: wp_def port_open_def)

lemma wp_health_check [wp_simps]:
  "wp (health_check env) Q E w =
     (case answer (e_health env (w_tick w)) of
        Inl e \<Rightarrow> E e (after_call env (EvHealth (Inl e)) w)
      | Inr s \<Rightarrow> Q s (after_call env (EvHealth (Inr s)) w))"
  by (simp add: health_check_def wp_call Let_def split: sum.split)

lemma wp_control [wp_simps]:
  "wp (control env action) Q E w =
     (case answer (e_control env (w_tick w)) of
        Inl e \<Rightarrow> E e (after_call env (EvControl action (Inl e)) w)
      | Inr s \<Rightarrow> Q () (after_call env (EvControl action (Inr ())) w))"
  by (simp add: control_def wp_call Let_def split: sum.split)

definition polled :: "lifecycle_action \<Rightarrow> bool \<Rightarrow> event list \<Rightarrow> bool" where
  "polled action observed es =
     (if action = STOP then \<exists>rest. es = EvPort False # EvHealth (Inr OFFLINE) # rest
      else (\<exists>rest. es = EvHealth (Inr ONLINE) # rest
         \<and> (observed \<or> (\<exists>s. s \<noteq> ONLINE \<and> EvHealth (Inr s) \<in> set rest))))"

lemma lifecycle_frame_refl: "lifecycle_frame w w []"
  by (simp add: lifecycle_frame_def)

lemma lifecycle_frame_trans:
  "lifecycle_frame w w1 es \<Longrightarrow> lifecycle_frame w1 w2 fs \<Longrightarrow> lifecycle_frame w w2 (fs @ es)"
  by (auto simp: lifecycle_frame_def)

lemma lifecycle_frame_call:
  "lifecycle_event ev \<Longrightarrow> lifecycle_frame w (after_call env ev w) [ev]"
  by (simp add: lifecycle_frame_def)

lemma lifecycle_frame_clock:
  "lifecycle_frame w w' es \<Longrightarrow> lifecycle_frame w (w'\<lparr>w_tick := n, w_clock := c\<rparr>) es"
  by (simp add: lifecycle_frame_def)

lemma polled_append: "polled action observed es \<Longrightarrow> polled action observed (es @ fs)"
  by (auto simp: polled_def split: if_splits)

lemma lifecycle_event_simps [simp]:
  "lifecycle_event (EvHealth r)" "lifecycle_event (EvControl a u)" "lifecycle_event (EvPort b)"
  by (simp_all add: lifecycle_event_def)

lemma polled_observed:
  "polled action True es \<Longrightarrow> state \<noteq> ONLINE \<Longrightarrow> action = RESTART \<Longrightarrow>
   polled action observed (es @ EvHealth (Inr state) # fs)"
  by (auto simp: polled_def)

lemma wp_lifecycle_poll:
  "wp (lifecycle_poll env fuel action deadline observed)
     (\<lambda>r w'. \<exists>es. lifecycle_frame w w' es
        \<and> (lr_outcome r = LIFECYCLE_SUCCEEDED \<longrightarrow> polled action observed es))
     (\<lambda>e w'. \<exists>es. lifecycle_frame w w' es) w"
  (is "wp _ (?Q observed w) (?E w) w")
proof (induction fuel arbitrary: observed w)
  case 0
  show ?case using lifecycle_frame_refl by (auto simp: wp_simps)
next
  case (Suc fuel)
  have step: "wp (lifecycle_poll env fuel action deadline obs) (?Q observed w) (?E w) v"
    if fr: "lifecycle_frame w v fs"
      and obs: "\<And>es. polled action obs es \<Longrightarrow> polled action observed (es @ fs)" for v fs obs
    by (rule wp_mono [OF Suc.IH]) (use fr obs lifecycle_frame_trans in blast)+
  show ?case
  proof (cases "answer (e_health env (w_tick w))")
    case (Inl e)
    then show ?thesis
      using lifecycle_frame_call [of "EvHealth (Inl e)" w] by (auto simp: wp_simps)
  next
    case (Inr state)
    let ?w1 = "after_call env (EvHealth (Inr state)) w"
    let ?obs = "observed \<or> (action = RESTART \<and> state \<noteq> ONLINE)"
    have w1: "lifecycle_frame w ?w1 [EvHealth (Inr state)]"
      by (rule lifecycle_frame_call) simp
    have again: "wp (if deadline \<le> w_clock v
         then ret \<lparr>lr_outcome = LIFECYCLE_FAILED, lr_final_state = state, lr_timed_out = True\<rparr>
         else andthen (sleep env (min POLL_INTERVAL (max 0 (deadline - w_clock v))))
                (lifecycle_poll env fuel action deadline ?obs)) (?Q observed w) (?E w) v"
      if fr: "lifecycle_frame w v fs" and fs: "fs = gs @ [EvHealth (Inr state)]" for v fs gs
    proof -
      have obs: "polled action observed (es @ fs)" if "polled action ?obs es" for es
        using that polled_append [of action observed es fs]
          polled_observed [of action "es @ gs" state observed "[]"] polled_append [of action True es gs]
        by (cases "action = RESTART \<and> state \<noteq> ONLINE") (simp_all add: fs)
      show ?thesis
        using fr step [OF lifecycle_frame_clock [OF fr] obs]
        by (auto simp: wp_simps)
    qed
    show ?thesis
    proof (cases "?obs \<and> action = STOP \<and> state = OFFLINE")
      case True
      let ?b = "e_port_open env (w_tick ?w1)"
      let ?w2 = "after_call env (EvPort ?b) ?w1"
      have w2: "lifecycle_frame w ?w2 [EvPort ?b, EvHealth (Inr state)]"
        using lifecycle_frame_trans [OF w1 lifecycle_frame_call [of "EvPort ?b"]] by simp
      show ?thesis
        using True again [OF w2, of "[EvPort ?b]"] w2
        by (auto simp: wp_simps Inr reached_target_def polled_def Let_def)
    next
      case False
      then show ?thesis
        using again [OF w1, of "[]"] w1
        by (auto simp: wp_simps Inr reached_target_def polled_def Let_def)
    qed
  qed
qed

lemma wp_lifecycle_execute:
  "wp (lifecycle_execute env action timeout_seconds)
     (\<lambda>r w'. lifecycle_done action r w w') (\<lambda>e w'. \<exists>es. lifecycle_frame w w' es) w"
proof -
  let ?E = "\<lambda>e w'. \<exists>es. lifecycle_frame w w' es"
  have rest: "wp (bnd (handle (andthen (control env action) (ret True))
                   (\<lambda>e. if e = PalworldServiceControlError then ret False else raise e)) (\<lambda>accepted.
              if \<not> accepted
              then ret \<lparr>lr_outcome = LIFECYCLE_FAILED, lr_final_state = FAILURE, lr_timed_out = False\<rparr>
              else bnd monotonic (\<lambda>t.
                lifecycle_poll env (e_fuel env) action (t + seconds timeout_seconds) observed)))
      (\<lambda>r w'. lifecycle_done action r w w') ?E v"
    if fr: "lifecycle_frame w v fs"
      and obs: "action = RESTART \<Longrightarrow> observed \<Longrightarrow> \<exists>s. s \<noteq> ONLINE \<and> EvHealth (Inr s) \<in> set fs"
    for v fs observed
  proof (cases "answer (e_control env (w_tick v))")
    case (Inl e)
    let ?v1 = "after_call env (EvControl action (Inl e)) v"
    have "lifecycle_frame w ?v1 ([EvControl action (Inl e)] @ fs)"
      by (rule lifecycle_frame_trans [OF fr lifecycle_frame_call]) simp
    then show ?thesis
      by (auto simp: wp_simps Inl lifecycle_done_def intro: exI)
  next
    case (Inr u)
    let ?v1 = "after_call env (EvControl action (Inr ())) v"
    have v1: "lifecycle_frame w ?v1 ([EvControl action (Inr ())] @ fs)"
      by (rule lifecycle_frame_trans [OF fr lifecycle_frame_call]) simp
    have conf: "confirmed action (es @ [EvControl action (Inr ())] @ fs)"
      if "polled action observed es" for es
      using that obs by (cases action) (auto simp: polled_def)
    have "wp (lifecycle_poll env (e_fuel env) action (w_clock ?v1 + seconds timeout_seconds) observed)
        (\<lambda>r w'. lifecycle_done action r w w') ?E ?v1"
    proof (rule wp_mono [OF wp_lifecycle_poll])
      fix r :: lifecycle_result and w'
      assume "\<exists>es. lifecycle_frame ?v1 w' es
        \<and> (lr_outcome r = LIFECYCLE_SUCCEEDED \<longrightarrow> polled action observed es)"
      then obtain es where "lifecycle_frame ?v1 w' es"
        "lr_outcome r = LIFECYCLE_SUCCEEDED \<longrightarrow> polled action observed es" by blast
      then show "lifecycle_done action r w w'"
        using lifecycle_frame_trans [OF v1] conf unfolding lifecycle_done_def by blast
    next
      fix e w'
      assume "\<exists>es. lifecycle_frame ?v1 w' es"
      then show "?E e w'" using lifecycle_frame_trans [OF v1] by blast
    qed
    then show ?thesis by (simp add: wp_simps Inr)
  qed
  show ?thesis
  proof (cases "0 < timeout_seconds")
    case False
    then show ?thesis using lifecycle_frame_refl by (auto simp: lifecycle_execute_def wp_simps)
  next
    case pos: True
    show ?thesis
    proof (cases "action = RESTART")
      case False
      then show ?thesis
        using pos rest [OF lifecycle_frame_refl, of True]
        unfolding lifecycle_execute_def by (simp add: wp_andthen wp_require wp_bnd [of "ret True"] wp_ret)
    next
      case True
      show ?thesis
      proof (cases "answer (e_health env (w_tick w))")
        case (Inl e)
        then show ?thesis
          using True pos lifecycle_frame_call [of "EvHealth (Inl e)" w]
          by (auto simp: lifecycle_execute_def wp_simps)
      next
        case (Inr s)
        have fr: "lifecycle_frame w (after_call env (EvHealth (Inr s)) w) [EvHealth (Inr s)]"
          by (rule lifecycle_frame_call) simp
        show ?thesis
          using True pos rest [OF fr, of "s \<noteq> ONLINE"] Inr
          unfolding lifecycle_execute_def
          by (simp add: wp_andthen wp_require wp_bnd [of "bnd _ _"] wp_bnd [of "health_check env"]
              wp_health_check wp_ret)
      qed
    qed
  qed
qed

interpretation palworld_lifecycle: lifecycle_contract "lifecycle_execute env"
  by unfold_locales (rule wp_lifecycle_execute)

text \<open>
  C9: a lifecycle operation that reports success was confirmed: systemd accepted the control request,
  and the newest observation is an ONLINE health for a start or a restart (a restart also saw the
  server not ONLINE at some time), and an OFFLINE health with the REST port closed for a stop. It
  never touches the database.
\<close>

theorem lifecycle_success_confirmed:
  assumes "lifecycle_execute env action timeout_seconds w = (Inr r, w')"
    and "lr_outcome r = LIFECYCLE_SUCCEEDED"
  shows "w_db w' = w_db w \<and> (\<exists>es. w_trace w' = es @ w_trace w \<and> confirmed action es)"
  using wp_InrD [OF palworld_lifecycle.exec_done assms(1)] assms(2)
  by (auto simp: lifecycle_done_def lifecycle_frame_def)

theorem lifecycle_success_confirmed_witness:
  "confirmed STOP (w_trace (snd (lifecycle_execute (calm_env\<lparr>e_health := \<lambda>_. Inr OFFLINE\<rparr>) STOP 60
      (start_world empty_db))))"
proof -
  let ?env = "calm_env\<lparr>e_health := \<lambda>_. Inr OFFLINE\<rparr>"
  let ?run = "lifecycle_execute ?env STOP 60 (start_world empty_db)"
  have "fst ?run = Inr \<lparr>lr_outcome = LIFECYCLE_SUCCEEDED, lr_final_state = OFFLINE, lr_timed_out = False\<rparr>"
    by code_simp
  then have "?run = (Inr \<lparr>lr_outcome = LIFECYCLE_SUCCEEDED, lr_final_state = OFFLINE,
      lr_timed_out = False\<rparr>, snd ?run)" by (metis prod.collapse)
  from lifecycle_success_confirmed [OF this] show ?thesis
    by (simp add: start_world_def del: confirmed.simps)
qed

section \<open>The polling loop ends\<close>

lemma wp_lifecycle_poll_ends:
  "deadline \<le> w_clock w + int n * POLL_INTERVAL \<Longrightarrow> n < fuel \<Longrightarrow>
   wp (lifecycle_poll env fuel action deadline observed)
     (\<lambda>r w'. lr_timed_out r \<longrightarrow> deadline \<le> w_clock w') (\<lambda>e _. e \<noteq> Diverges) w"
proof (induction fuel arbitrary: n observed w)
  case 0
  then show ?case by simp
next
  case (Suc fuel)
  let ?Q = "\<lambda>r w'. lr_timed_out r \<longrightarrow> deadline \<le> w_clock w'" and ?E = "\<lambda>e _. e \<noteq> Diverges"
  have again: "wp (if deadline \<le> w_clock v
       then ret \<lparr>lr_outcome = LIFECYCLE_FAILED, lr_final_state = state, lr_timed_out = True\<rparr>
       else andthen (sleep env (min POLL_INTERVAL (max 0 (deadline - w_clock v))))
              (lifecycle_poll env fuel action deadline obs)) ?Q ?E v"
    if later: "w_clock w \<le> w_clock v" for v obs state
  proof (cases "deadline \<le> w_clock v")
    case True
    then show ?thesis by (simp add: wp_simps)
  next
    case False
    then have n: "0 < n" using Suc.prems(1) later by (cases n) simp_all
    let ?v = "v\<lparr>w_tick := Suc (w_tick v), w_clock := w_clock v
        + min POLL_INTERVAL (max 0 (deadline - w_clock v)) + int (e_delay env (w_tick v))\<rparr>"
    have "int n * POLL_INTERVAL = int (n - 1) * POLL_INTERVAL + POLL_INTERVAL"
      using n by (simp add: of_nat_diff algebra_simps)
    moreover have "0 \<le> int (n - 1) * POLL_INTERVAL" by (simp add: POLL_INTERVAL_def seconds_def)
    ultimately have "deadline \<le> w_clock ?v + int (n - 1) * POLL_INTERVAL"
      using Suc.prems(1) later False by (simp add: min_def max_def)
    from Suc.IH [OF this] show ?thesis using n Suc.prems(2) False by (simp add: wp_simps)
  qed
  show ?case
  proof (cases "answer (e_health env (w_tick w))")
    case (Inl e)
    then have "e \<noteq> Diverges" using answer_Inl [of "e_health env (w_tick w)"] by auto
    then show ?thesis by (simp add: wp_simps Inl)
  next
    case (Inr state)
    let ?w1 = "after_call env (EvHealth (Inr state)) w"
    let ?obs = "observed \<or> (action = RESTART \<and> state \<noteq> ONLINE)"
    show ?thesis
    proof (cases "?obs \<and> action = STOP \<and> state = OFFLINE")
      case True
      let ?b = "e_port_open env (w_tick ?w1)"
      have "w_clock w \<le> w_clock (after_call env (EvPort ?b) ?w1)" by simp
      from again [OF this, of state ?obs] show ?thesis
        using True by (auto simp: wp_simps Inr reached_target_def Let_def)
    next
      case False
      have "w_clock w \<le> w_clock ?w1" by simp
      from again [OF this, of state ?obs] show ?thesis
        using False by (auto simp: wp_simps Inr reached_target_def Let_def)
    qed
  qed
qed

lemma wp_lifecycle_execute_ends:
  assumes "nat timeout_seconds < e_fuel env"
  shows "wp (lifecycle_execute env action timeout_seconds)
    (\<lambda>r w'. lr_timed_out r \<longrightarrow> w_clock w + seconds timeout_seconds \<le> w_clock w')
    (\<lambda>e _. e \<noteq> Diverges) w"
proof -
  have poll: "wp (lifecycle_poll env (e_fuel env) action (t + seconds timeout_seconds) obs)
    (\<lambda>r w'. lr_timed_out r \<longrightarrow> w_clock w + seconds timeout_seconds \<le> w_clock w')
    (\<lambda>e _. e \<noteq> Diverges) v" if "w_clock v = t" "w_clock w \<le> t" "0 < timeout_seconds" for v t obs
  proof (rule wp_mono [OF wp_lifecycle_poll_ends [OF _ assms]])
    show "t + seconds timeout_seconds
        \<le> w_clock v + int (nat timeout_seconds) * POLL_INTERVAL"
      using that by (simp add: POLL_INTERVAL_def seconds_def)
  qed (use that in auto)
  have "e \<noteq> Diverges" if "answer (f n) = Inl e" for f :: "nat \<Rightarrow> exn + 'b" and n e
    using that answer_Inl [of "f n"] by auto
  note this [simp]
  show ?thesis
    using poll by (auto simp: lifecycle_execute_def wp_simps split: sum.split)
qed

text \<open>
  How long it takes: when no call and no sleep is held up for more than \<open>b\<close>, a round of the loop begins at the
  latest \<open>b\<close> after the deadline and makes two calls at most.
\<close>

lemma wp_lifecycle_poll_time:
  assumes "\<forall>i. e_delay env i \<le> b"
  shows "w_clock w \<le> deadline + int b \<Longrightarrow>
   wp (lifecycle_poll env fuel action deadline observed)
     (\<lambda>_ w'. w_clock w' \<le> deadline + 3 * int b) (\<lambda>_ w'. w_clock w' \<le> deadline + 3 * int b) w"
proof (induction fuel arbitrary: observed w)
  case 0
  then show ?case by (simp add: wp_raise)
next
  case (Suc fuel)
  let ?Q = "\<lambda>_ w'. w_clock w' \<le> deadline + 3 * int b"
  have d: "int (e_delay env i) \<le> int b" for i using assms by simp
  have again: "wp (if deadline \<le> w_clock v
       then ret \<lparr>lr_outcome = LIFECYCLE_FAILED, lr_final_state = state, lr_timed_out = True\<rparr>
       else andthen (sleep env (min POLL_INTERVAL (max 0 (deadline - w_clock v))))
              (lifecycle_poll env fuel action deadline obs)) ?Q ?Q v"
    if "?Q () v" for v obs state
  proof (cases "deadline \<le> w_clock v")
    case False
    let ?v = "v\<lparr>w_tick := Suc (w_tick v), w_clock := w_clock v
        + min POLL_INTERVAL (max 0 (deadline - w_clock v)) + int (e_delay env (w_tick v))\<rparr>"
    have "w_clock ?v \<le> deadline + int b" using False d [of "w_tick v"] by simp
    from Suc.IH [OF this] show ?thesis using False by (simp add: wp_simps)
  qed (use that in \<open>simp add: wp_simps\<close>)
  let ?a = "answer (e_health env (w_tick w))"
  let ?w1 = "after_call env (EvHealth ?a) w"
  have w1: "w_clock ?w1 \<le> deadline + 2 * int b" using Suc.prems d [of "w_tick w"] by (simp add: after_call_def)
  show ?case
  proof (cases ?a)
    case (Inl e)
    then show ?thesis using w1 by (simp add: wp_simps)
  next
    case (Inr state)
    let ?obs = "observed \<or> (action = RESTART \<and> state \<noteq> ONLINE)"
    show ?thesis
    proof (cases "?obs \<and> action = STOP \<and> state = OFFLINE")
      case True
      let ?b = "e_port_open env (w_tick ?w1)"
      have "?Q () (after_call env (EvPort ?b) ?w1)" using w1 d [of "w_tick ?w1"] by (simp add: after_call_def)
      from again [OF this, of state ?obs] this show ?thesis
        using True Inr by (auto simp: wp_simps reached_target_def Let_def)
    next
      case False
      have "?Q () ?w1" using w1 by simp
      from again [OF this, of state ?obs] this show ?thesis
        using False Inr by (auto simp: wp_simps reached_target_def Let_def)
    qed
  qed
qed

lemma wp_lifecycle_execute_time:
  assumes "\<forall>i. e_delay env i \<le> b"
  shows "wp (lifecycle_execute env action timeout_seconds)
    (\<lambda>_ w'. w_clock w' \<le> w_clock w + seconds (max 0 timeout_seconds) + 5 * int b)
    (\<lambda>_ w'. w_clock w' \<le> w_clock w + seconds (max 0 timeout_seconds) + 5 * int b) w"
proof -
  let ?Q = "\<lambda>_ w'. w_clock w' \<le> w_clock w + seconds (max 0 timeout_seconds) + 5 * int b"
  have d: "int (e_delay env i) \<le> int b" for i using assms by simp
  have s: "0 \<le> seconds (max 0 timeout_seconds)" by (simp add: seconds_def)
  have poll: "wp (lifecycle_poll env (e_fuel env) action (w_clock v + seconds timeout_seconds) obs) ?Q ?Q v"
    if "w_clock v \<le> w_clock w + 2 * int b" "0 < timeout_seconds" for v obs
    by (rule wp_mono [OF wp_lifecycle_poll_time [OF assms]]) (use that in \<open>simp_all add: seconds_def\<close>)
  have rest: "wp (bnd (handle (andthen (control env action) (ret True))
        (\<lambda>e. if e = PalworldServiceControlError then ret False else raise e)) (\<lambda>accepted.
          if \<not> accepted then ret \<lparr>lr_outcome = LIFECYCLE_FAILED, lr_final_state = FAILURE, lr_timed_out = False\<rparr>
          else bnd monotonic (\<lambda>t. lifecycle_poll env (e_fuel env) action (t + seconds timeout_seconds) obs))) ?Q ?Q v"
    if v: "w_clock v \<le> w_clock w + int b" and t: "0 < timeout_seconds" for v obs
  proof -
    have c: "w_clock (after_call env ev v) \<le> w_clock w + 2 * int b" for ev
      using v d [of "w_tick v"] by (simp add: after_call_def)
    have q: "?Q () (after_call env ev v)" for ev using c [of ev] s by simp
    show ?thesis
      using q poll [OF c t] unfolding wp_bnd wp_handle wp_andthen wp_control
      by (auto simp: wp_ret wp_raise wp_bnd wp_monotonic split: sum.split simp del: after_call_fields(6))
  qed
  have h: "w_clock (after_call env ev w) \<le> w_clock w + int b" for ev
    using d [of "w_tick w"] by (simp add: after_call_def)
  have h': "?Q () (after_call env ev w)" for ev using h [of ev] s by simp
  show ?thesis
    unfolding lifecycle_execute_def wp_andthen wp_require wp_bnd [of "if _ then _ else _"]
    using rest [OF h] rest [of w] h' s
    by (auto simp: wp_ret wp_raise wp_bnd [of "health_check _"] wp_health_check split: sum.split simp del: after_call_fields(6))
qed

text \<open>
  C10: the polling loop always ends: a fuel above the timeout in seconds is enough for every behaviour of the services
  and of the clock, so it never runs out. It ends within its timeout and five times the longest delay of a single
  call, whether it returns or raises: nothing is waited for beyond the deadline but calls already begun. And a result
  that says it timed out comes at least the timeout after the call.
\<close>

theorem lifecycle_execute_returns:
  assumes "nat timeout_seconds < e_fuel env"
  shows "fst (lifecycle_execute env action timeout_seconds w) \<noteq> Inl Diverges
    \<and> (\<forall>b. (\<forall>i. e_delay env i \<le> b) \<longrightarrow>
         w_clock (snd (lifecycle_execute env action timeout_seconds w))
           \<le> w_clock w + seconds (max 0 timeout_seconds) + 5 * int b)
    \<and> (\<forall>r w'. lifecycle_execute env action timeout_seconds w = (Inr r, w') \<longrightarrow> lr_timed_out r \<longrightarrow>
         w_clock w + seconds timeout_seconds \<le> w_clock w')"
proof -
  have "w_clock (snd (lifecycle_execute env action timeout_seconds w))
      \<le> w_clock w + seconds (max 0 timeout_seconds) + 5 * int b" if "\<forall>i. e_delay env i \<le> b" for b
    using wp_lifecycle_execute_time [OF that, of action timeout_seconds w]
    by (auto simp: wp_def split: prod.split_asm sum.split_asm)
  then show ?thesis
    using wp_lifecycle_execute_ends [OF assms, of action w]
    by (cases "lifecycle_execute env action timeout_seconds w";
        cases "fst (lifecycle_execute env action timeout_seconds w)") (auto simp: wp_def)
qed

theorem lifecycle_execute_returns_witness:
  "fst (lifecycle_execute calm_env STOP 1 (start_world empty_db)) \<noteq> Inl Diverges
    \<and> w_clock (snd (lifecycle_execute calm_env STOP 1 (start_world empty_db))) \<le> seconds 1"
proof -
  have "nat 1 < e_fuel calm_env" "\<forall>i. e_delay calm_env i \<le> 0" "w_clock (start_world empty_db) = 0"
    by (simp_all add: calm_env_def start_world_def)
  with lifecycle_execute_returns [of 1 calm_env STOP "start_world empty_db"] show ?thesis
    by (auto dest: spec [of _ 0])
qed

section \<open>Jobs of the lifecycle\<close>

lemma valid_SERVER_REQUESTED [simp]:
  "valid_audit_action (lifecycle_action_value action @ ''_SERVER_REQUESTED'')"
  by (cases action) (simp_all only: lifecycle_action_value.simps, code_simp+)

lemma valid_SERVER [simp]: "valid_audit_action (lifecycle_action_value action @ ''_SERVER'')"
  by (cases action) (simp_all only: lifecycle_action_value.simps, code_simp+)

lemma parse_lifecycle_job_kind_kind [simp]:
  "parse_lifecycle_job_kind (lifecycle_job_kind action) = Some action"
  by (cases action)
    (simp_all add: parse_lifecycle_job_kind_def lifecycle_job_kind_def LIFECYCLE_JOB_PREFIX_def
      remove_prefix_def Let_def)

lemma lifecycle_timeout_bounds:
  "wp (lifecycle_timeout action) (\<lambda>n d'. d' = d \<and> 1 \<le> n \<and> n \<le> maximum_timeout action)
     (\<lambda>e d'. e = ValueError \<and> d' = d) d"
  by (cases action)
    (auto simp: lifecycle_timeout_def wp_simps maximum_timeout_def split: option.split)

lemma int_within_None [simp]:
  "int_within v lo hi = None \<longleftrightarrow> (\<forall>n. v = Some (JInt n) \<longrightarrow> \<not> (lo \<le> n \<and> n \<le> hi))"
  by (auto simp: int_within_def json_int_def split: option.splits json.splits)

lemma wp_enqueue_lifecycle_job:
  "wp (enqueue_lifecycle_job action user_id now)
     (\<lambda>j d'. appended LIFECYCLE_COORDINATION_KEY j d d' \<and> j_kind j = lifecycle_job_kind action
        \<and> j_requires_maintenance_lock j \<and> (\<exists>n. job_timeout j action = Some n))
     (\<lambda>_ _. True) d"
proof -
  have add: "wp (bnd (add_job LifecycleJobConflictError
        (new_job (lifecycle_job_kind action) False True LIFECYCLE_COORDINATION_KEY user_id
           [(''timeout_seconds'', JInt n)] now)) (\<lambda>job.
        andthen (record_audit_event now
           (admin_event (lifecycle_action_value action @ ''_SERVER_REQUESTED'')
              AUDIT_RESULT_SUCCESS user_id (Some (j_id job)) (Some ''Palworld'')
              (Some [(''timeout_seconds'', JInt n)])))
          (ret job)))
     (\<lambda>j d'. appended LIFECYCLE_COORDINATION_KEY j d d' \<and> j_kind j = lifecycle_job_kind action
        \<and> j_requires_maintenance_lock j \<and> (\<exists>n. job_timeout j action = Some n))
     (\<lambda>_ _. True) d" if "1 \<le> n" "n \<le> maximum_timeout action" for n
    using that
    by (auto simp: wp_simps Let_def job_timeout_def dict_get_def dict_of_def)
  show ?thesis
    unfolding enqueue_lifecycle_job_def wp_bnd [of "reads _"] wp_bnd [of "lifecycle_timeout _"]
      wp_reads wp_andthen wp_require
    by (auto intro!: wp_mono [OF lifecycle_timeout_bounds] add)
qed

interpretation lifecycle_producer: job_producer
  "\<lambda>(action, user_id, now). enqueue_lifecycle_job action user_id now" LIFECYCLE_COORDINATION_KEY
  by unfold_locales
    (auto split: prod.split intro!: wp_mono [OF wp_enqueue_lifecycle_job])

text \<open>What a finished lifecycle job looks like after its transaction.\<close>

lemma wp_complete_lifecycle_job:
  "wp (complete_lifecycle_job k action t r now)
     (\<lambda>_ d'. \<exists>j. find_job k d' = Some j \<and> j_progress j = 100 \<and> j_finished_at j = Some now
        \<and> j_status j = (if lr_outcome r = LIFECYCLE_SUCCEEDED then JOB_STATUS_SUCCEEDED
                         else JOB_STATUS_FAILED)
        \<and> dict_get (dict_of (j_result j)) ''final_state'' = Some (JStr (health_value (lr_final_state r))))
     (\<lambda>e d'. e = NoResultFound) d"
  by (auto simp: complete_lifecycle_job_def wp_simps Let_def dict_get_def dict_of_def
      dest: find_job_id split: option.split)

definition lifecycle_job_done :: "env \<Rightarrow> int \<Rightarrow> world \<Rightarrow> world \<Rightarrow> bool" where
  "lifecycle_job_done env k w w' \<longleftrightarrow> (\<exists>j es. find_job k (w_db w') = Some j
     \<and> j_progress j = 100 \<and> j_finished_at j \<noteq> None \<and> w_trace w' = es @ w_trace w
     \<and> (j_status j = JOB_STATUS_SUCCEEDED \<and> (\<exists>action. confirmed action es) \<or> j_status j = JOB_STATUS_FAILED))"

lemma wp_execute_lifecycle_job:
  "wp (execute_lifecycle_job env k (lifecycle_execute env)) (\<lambda>_. lifecycle_job_done env k w)
     (\<lambda>e w'. \<exists>es. w_trace w' = es @ w_trace w) w"
proof -
  have exec: "wp (bnd (lifecycle_execute env action t) (\<lambda>r. bnd (wall_now env) (\<lambda>now.
        session_scope env (complete_lifecycle_job k action t r now))))
      (\<lambda>_. lifecycle_job_done env k w) (\<lambda>e w'. \<exists>es. w_trace w' = es @ w_trace w) v"
    if v: "w_trace v = w_trace w" for v action t
    unfolding wp_bnd
  proof (rule wp_mono [OF palworld_lifecycle.exec_done])
    fix r :: lifecycle_result and u
    assume "lifecycle_done action r v u"
    then obtain es where tr: "w_trace u = es @ w_trace w"
      and conf: "lr_outcome r = LIFECYCLE_SUCCEEDED \<longrightarrow> confirmed action es"
      by (auto simp: lifecycle_done_def lifecycle_frame_def v)
    show "wp (wall_now env) (\<lambda>now. wp (session_scope env (complete_lifecycle_job k action t r now))
        (\<lambda>_. lifecycle_job_done env k w) (\<lambda>e w'. \<exists>es. w_trace w' = es @ w_trace w))
        (\<lambda>e w'. \<exists>es. w_trace w' = es @ w_trace w) u"
      unfolding wp_wall_now wp_session_scope Let_def
      by (rule wp_mono [OF wp_complete_lifecycle_job])
        (use tr conf in \<open>auto simp: lifecycle_job_done_def split: if_splits\<close>)
  qed (auto simp: lifecycle_frame_def v)
  show ?thesis
    unfolding execute_lifecycle_job_def wp_bnd [of "session_scope _ _"] wp_session_scope Let_def wp_get_one_job
    by (auto simp: wp_andthen wp_require wp_raise split: option.split intro!: exec)
qed

text \<open>
  When the worker's execution of a lifecycle job returns, the job is finished with progress 100,
  and it is SUCCEEDED only when the observations since the start of the execution confirm the
  operation (an OFFLINE server with a closed port for a stop, an ONLINE one for a start or restart).
\<close>

theorem lifecycle_job_finishes:
  assumes "execute_lifecycle_job env k (lifecycle_execute env) w = (Inr (), w')"
  shows "lifecycle_job_done env k w w'"
  using wp_InrD [OF wp_execute_lifecycle_job assms] by simp

definition stopping_job :: job where
  "stopping_job = (new_job ''PALWORLD_STOP'' False True LIFECYCLE_COORDINATION_KEY (Some 1)
     [(''timeout_seconds'', JInt 60)] 0 1)\<lparr>j_status := JOB_STATUS_RUNNING\<rparr>"

theorem lifecycle_job_finishes_witness:
  "lifecycle_job_done (calm_env\<lparr>e_health := \<lambda>_. Inr OFFLINE\<rparr>) 1
     (start_world (empty_db\<lparr>jobs := [stopping_job]\<rparr>))
     (snd (execute_lifecycle_job (calm_env\<lparr>e_health := \<lambda>_. Inr OFFLINE\<rparr>) 1
        (lifecycle_execute (calm_env\<lparr>e_health := \<lambda>_. Inr OFFLINE\<rparr>))
        (start_world (empty_db\<lparr>jobs := [stopping_job]\<rparr>))))"
proof (rule lifecycle_job_finishes)
  let ?env = "calm_env\<lparr>e_health := \<lambda>_. Inr OFFLINE\<rparr>"
  let ?run = "execute_lifecycle_job ?env 1 (lifecycle_execute ?env)
    (start_world (empty_db\<lparr>jobs := [stopping_job]\<rparr>))"
  have "fst ?run = Inr ()" by code_simp
  then show "?run = (Inr (), snd ?run)" by (metis prod.collapse)
qed

end
