(* ===== verification/Notifications.thy ===== *)
theory Notifications
  imports Producer
begin

text \<open>
  The Discord notifications (\<open>app/notifications/service.py\<close>) and the webhook client
  (\<open>app/integrations/discord.py\<close>): a queue of events with at most three delivery attempts each. The
  text of a message is not modelled; its delivery is.
\<close>

section \<open>The webhook\<close>

definition MAX_DISCORD_RESPONSE_BYTES :: int where
  "MAX_DISCORD_RESPONSE_BYTES = 64 * 1024"

definition TRANSIENT_DISCORD_ERRORS :: "string list" where
  "TRANSIENT_DISCORD_ERRORS = [''RATE_LIMITED'', ''TIMEOUT'', ''UNAVAILABLE'']"

definition http_error_kind :: "int \<Rightarrow> string" where
  "http_error_kind status_code =
     (if status_code = 429 then ''RATE_LIMITED''
      else if status_code = 408 \<or> 500 \<le> status_code then ''UNAVAILABLE''
      else if status_code \<in> {401, 403, 404} then ''REJECTED''
      else ''INVALID_RESPONSE'')"

text \<open>How the transport answers a POST: a response, or one of the exceptions \<open>send\<close> tells apart.\<close>

datatype transport_answer =
    HttpResponse int int
  | HTTPError int
  | TimeoutError
  | URLError bool
  | OSError
  | TransportDelivery string
  | TransportOther

definition official_webhook_send :: "int \<Rightarrow> transport_answer \<Rightarrow> exn + unit" where
  "official_webhook_send content_length response =
     (if content_length = 0 \<or> 2000 < content_length then Inl ValueError
      else case response of
          HTTPError c \<Rightarrow> Inl (DiscordDeliveryError (http_error_kind c))
        | TimeoutError \<Rightarrow> Inl (DiscordDeliveryError ''TIMEOUT'')
        | URLError timeout \<Rightarrow>
            Inl (DiscordDeliveryError (if timeout then ''TIMEOUT'' else ''UNAVAILABLE''))
        | OSError \<Rightarrow> Inl (DiscordDeliveryError ''UNAVAILABLE'')
        | TransportDelivery kind \<Rightarrow> Inl (DiscordDeliveryError kind)
        | TransportOther \<Rightarrow> Inl (DiscordDeliveryError ''UNAVAILABLE'')
        | HttpResponse status_code body_length \<Rightarrow>
            if MAX_DISCORD_RESPONSE_BYTES < body_length
            then Inl (DiscordDeliveryError ''INVALID_RESPONSE'')
            else if status_code \<noteq> 200 \<and> status_code \<noteq> 204
            then Inl (DiscordDeliveryError (http_error_kind status_code))
            else Inr ())"

section \<open>The queue\<close>

definition MAX_NOTIFICATION_ATTEMPTS :: int where
  "MAX_NOTIFICATION_ATTEMPTS = 3"

definition NOTIFICATION_RETRY_DELAYS :: "int list" where
  "NOTIFICATION_RETRY_DELAYS = [seconds 5, seconds 30]"

definition NOTIFICATION_CHANNEL_DISCORD :: string where
  "NOTIFICATION_CHANNEL_DISCORD = ''DISCORD''"

definition SUPPORTED_DISCORD_EVENT_TYPES :: "string list" where
  "SUPPORTED_DISCORD_EVENT_TYPES = [''DISCORD_TEST'', ''BACKUP_FAILED'', ''DISK_CRITICAL'',
     ''DRIVE_FAILED'', ''FORCED_SHUTDOWN'', ''LOGIN_BLOCKED'', ''OPERATION_INTERRUPTED'',
     ''RESTORE_COMPLETED'', ''RESTORE_FAILED'', ''SERVER_CRASH'', ''SERVER_RECOVERED'',
     ''UPDATE_COMPLETED'', ''UPDATE_FAILED'']"

definition enqueue_discord_notification ::
  "string \<Rightarrow> int option \<Rightarrow> int \<Rightarrow> (db, unit) prog" where
  "enqueue_discord_notification event_type job_id now =
     andthen (require (event_type \<in> set SUPPORTED_DISCORD_EVENT_TYPES) ValueError)
       (modify (\<lambda>d. d\<lparr>notifications := notifications d @
          [\<lparr>n_id = fresh_key n_id (notifications d), n_event_type = event_type,
            n_channel = NOTIFICATION_CHANNEL_DISCORD, n_status = NOTIFICATION_STATUS_PENDING,
            n_created_at = now, n_updated_at = current_timestamp now, n_job_id = job_id,
            n_attempts = 0, n_next_attempt_at = None, n_delivered_at = None,
            n_last_error = None\<rparr>]\<rparr>))"

definition eligible_notification :: "int \<Rightarrow> notification_event \<Rightarrow> bool" where
  "eligible_notification now n \<longleftrightarrow> n_channel n = NOTIFICATION_CHANNEL_DISCORD
     \<and> n_status n = NOTIFICATION_STATUS_PENDING \<and> n_attempts n < MAX_NOTIFICATION_ATTEMPTS
     \<and> (case n_next_attempt_at n of None \<Rightarrow> True | Some t \<Rightarrow> t \<le> now)"

definition put_notification :: "notification_event \<Rightarrow> (db, unit) prog" where
  "put_notification n = modify (\<lambda>d. d\<lparr>notifications := row_put n_id n (notifications d)\<rparr>)"

definition find_notification :: "int \<Rightarrow> db \<Rightarrow> notification_event option" where
  "find_notification k d = row_get n_id k (notifications d)"

text \<open>\<open>UPDATE ... WHERE id = (SELECT ... LIMIT 1) ... RETURNING\<close>.\<close>

definition claim_next_notification :: "int \<Rightarrow> (db, notification_event option) prog" where
  "claim_next_notification now =
     bnd (reads (\<lambda>d. limit1 (order_by (\<lambda>n. (n_created_at n, n_id n))
                      (filter (eligible_notification now) (notifications d))))) (\<lambda>sel. case sel of
         None \<Rightarrow> ret None
       | Some n \<Rightarrow>
           (let n' = n\<lparr>n_status := NOTIFICATION_STATUS_SENDING, n_attempts := n_attempts n + 1,
                       n_updated_at := now, n_next_attempt_at := None, n_delivered_at := None,
                       n_last_error := None\<rparr>
            in andthen (put_notification n') (ret (Some n'))))"

definition reconciled :: "int \<Rightarrow> notification_event \<Rightarrow> notification_event" where
  "reconciled now n =
     (let n' = n\<lparr>n_updated_at := now\<rparr> in
      if n_attempts n < MAX_NOTIFICATION_ATTEMPTS
      then n'\<lparr>n_status := NOTIFICATION_STATUS_PENDING, n_next_attempt_at := Some now,
              n_last_error := Some ''INTERRUPTED''\<rparr>
      else n'\<lparr>n_status := NOTIFICATION_STATUS_FAILED, n_next_attempt_at := None,
              n_last_error := Some ''INTERRUPTED''\<rparr>)"

definition sending_discord :: "notification_event \<Rightarrow> bool" where
  "sending_discord n \<longleftrightarrow> n_channel n = NOTIFICATION_CHANNEL_DISCORD
     \<and> n_status n = NOTIFICATION_STATUS_SENDING"

definition reconcile_sending_notifications :: "int \<Rightarrow> (db, nat \<times> nat) prog" where
  "reconcile_sending_notifications now =
     bnd (reads (\<lambda>d. order_by n_id (filter sending_discord (notifications d)))) (\<lambda>events.
       andthen (for_each events (\<lambda>n. put_notification (reconciled now n)))
         (ret (length (filter (\<lambda>n. n_attempts n < MAX_NOTIFICATION_ATTEMPTS) events),
               length (filter (\<lambda>n. \<not> n_attempts n < MAX_NOTIFICATION_ATTEMPTS) events))))"

section \<open>The dispatcher\<close>

definition get_one_notification :: "int \<Rightarrow> (db, notification_event) prog" where
  "get_one_notification k = (\<lambda>d. case find_notification k d of
       None \<Rightarrow> (Inl NoResultFound, d) | Some n \<Rightarrow> (Inr n, d))"

definition finish_success :: "int \<Rightarrow> int \<Rightarrow> (db, unit) prog" where
  "finish_success k now =
     bnd (get_one_notification k) (\<lambda>n.
       if n_status n \<noteq> NOTIFICATION_STATUS_SENDING then ret ()
       else put_notification (n\<lparr>n_status := NOTIFICATION_STATUS_SENT, n_updated_at := now,
              n_delivered_at := Some now, n_next_attempt_at := None, n_last_error := None\<rparr>))"

text \<open>\<open>xs[i]\<close>: a negative index counts from the end, and an index out of range raises.\<close>

definition py_index :: "'a list \<Rightarrow> int \<Rightarrow> 'a option" where
  "py_index xs i = (let n = int (length xs) in
     if 0 \<le> i \<and> i < n then Some (xs ! nat i)
     else if - n \<le> i \<and> i < 0 then Some (xs ! nat (n + i)) else None)"

definition failed_delivery :: "int \<Rightarrow> string \<Rightarrow> notification_event \<Rightarrow> notification_event option" where
  "failed_delivery now kind n =
     (let n' = n\<lparr>n_updated_at := now, n_delivered_at := None, n_last_error := Some kind\<rparr> in
      if kind \<in> set TRANSIENT_DISCORD_ERRORS \<and> n_attempts n < MAX_NOTIFICATION_ATTEMPTS
      then (case py_index NOTIFICATION_RETRY_DELAYS (n_attempts n - 1) of
          None \<Rightarrow> None
        | Some delay \<Rightarrow> Some (n'\<lparr>n_status := NOTIFICATION_STATUS_PENDING,
                              n_next_attempt_at := Some (now + delay)\<rparr>))
      else Some (n'\<lparr>n_status := NOTIFICATION_STATUS_FAILED, n_next_attempt_at := None\<rparr>))"

definition finish_failure :: "int \<Rightarrow> string \<Rightarrow> int \<Rightarrow> (db, unit) prog" where
  "finish_failure k kind now =
     bnd (get_one_notification k) (\<lambda>n.
       if n_status n \<noteq> NOTIFICATION_STATUS_SENDING then ret ()
       else case failed_delivery now kind n of
           None \<Rightarrow> raise OtherException
         | Some n' \<Rightarrow> put_notification n')"

definition webhook_send :: "env \<Rightarrow> int \<Rightarrow> (world, unit) prog" where
  "webhook_send env k = call env (e_webhook env) (EvWebhook k)"

text \<open>
  \<open>process_next\<close> up to the end of the delivery: the claimed event with the kind of its failure, if
  any. Then the outcome is recorded.
\<close>

definition claim_and_send ::
  "env \<Rightarrow> int \<Rightarrow> (world, (notification_event \<times> string option) option) prog" where
  "claim_and_send env now =
     bnd (session_scope env (claim_next_notification now)) (\<lambda>event. case event of
         None \<Rightarrow> ret None
       | Some n \<Rightarrow>
           bnd (handle (andthen (webhook_send env (n_id n)) (ret None))
                  (\<lambda>e. ret (Some (case e of DiscordDeliveryError kind \<Rightarrow> kind | _ \<Rightarrow> ''UNAVAILABLE''))))
             (\<lambda>failure. ret (Some (n, failure))))"

definition process_next_notification :: "env \<Rightarrow> int \<Rightarrow> (world, bool) prog" where
  "process_next_notification env now =
     bnd (claim_and_send env now) (\<lambda>sent. case sent of
         None \<Rightarrow> ret False
       | Some (n, failure) \<Rightarrow>
           andthen (session_scope env (case failure of
                        None \<Rightarrow> finish_success (n_id n) now
                      | Some kind \<Rightarrow> finish_failure (n_id n) kind now))
             (ret True))"

section \<open>The invariant of the queue\<close>

definition notification_ok :: "notification_event \<Rightarrow> bool" where
  "notification_ok n \<longleftrightarrow> 0 \<le> n_attempts n \<and> n_attempts n \<le> MAX_NOTIFICATION_ATTEMPTS
     \<and> (n_status n = NOTIFICATION_STATUS_PENDING \<longrightarrow> n_attempts n < MAX_NOTIFICATION_ATTEMPTS)
     \<and> (n_status n = NOTIFICATION_STATUS_SENDING \<longrightarrow> 0 < n_attempts n)
     \<and> (n_status n = NOTIFICATION_STATUS_SENT \<longleftrightarrow> n_delivered_at n \<noteq> None)"

definition attempts_of :: "int \<Rightarrow> db \<Rightarrow> int" where
  "attempts_of k d = (case find_notification k d of None \<Rightarrow> 0 | Some n \<Rightarrow> n_attempts n)"

definition notif_inv :: "db \<Rightarrow> bool" where
  "notif_inv d \<longleftrightarrow> distinct (map n_id (notifications d)) \<and> (\<forall>n\<in>set (notifications d). notification_ok n)"

text \<open>How often the webhook was called for an event.\<close>

definition sends :: "int \<Rightarrow> event list \<Rightarrow> nat" where
  "sends k tr = length (filter (\<lambda>ev. case ev of EvWebhook i _ \<Rightarrow> i = k | _ \<Rightarrow> False) tr)"

definition delivery_inv :: "world \<Rightarrow> bool" where
  "delivery_inv w \<longleftrightarrow> notif_inv (w_db w) \<and> (\<forall>k. int (sends k (w_trace w)) \<le> attempts_of k (w_db w))"

text \<open>
  The life of the queue: the dispatcher, a restart that reconciles what was being sent, new events,
  a dispatcher that dies after the claim, before the delivery, or after the delivery, before its outcome is recorded,
  and whatever else happens that neither touches the queue nor calls the webhook.
\<close>

inductive delivery_reach :: "env \<Rightarrow> world \<Rightarrow> bool" for env where
  start: "notifications (w_db w) = [] \<Longrightarrow> w_trace w = [] \<Longrightarrow> delivery_reach env w"
| dispatch: "delivery_reach env w \<Longrightarrow> delivery_reach env (snd (process_next_notification env now w))"
| claimed_only: "delivery_reach env w \<Longrightarrow>
    delivery_reach env (snd (session_scope env (claim_next_notification now) w))"
| killed: "delivery_reach env w \<Longrightarrow> delivery_reach env (snd (claim_and_send env now w))"
| restart: "delivery_reach env w \<Longrightarrow>
    delivery_reach env (snd (session_scope env (reconcile_sending_notifications now) w))"
| notify: "delivery_reach env w \<Longrightarrow>
    delivery_reach env (snd (session_scope env (enqueue_discord_notification ty job_id now) w))"
| elsewhere: "delivery_reach env w \<Longrightarrow> notifications (w_db w') = notifications (w_db w) \<Longrightarrow>
    \<forall>k. sends k (w_trace w') = sends k (w_trace w) \<Longrightarrow> delivery_reach env w'"

lemma wp_snd: "wp m (\<lambda>_. P) (\<lambda>_. P) s = P (snd (m s))"
  by (simp add: wp_def split: prod.split sum.split)

lemma wp_put_notification [wp_simps]:
  "wp (put_notification n) Q E d = Q () (d\<lparr>notifications := row_put n_id n (notifications d)\<rparr>)"
  by (simp add: put_notification_def wp_simps)

lemma wp_get_one_notification [wp_simps]:
  "wp (get_one_notification k) Q E d
     = (case find_notification k d of None \<Rightarrow> E NoResultFound d | Some n \<Rightarrow> Q n d)"
  by (simp add: wp_def get_one_notification_def split: option.split)

lemma notif_inv_put:
  "notif_inv d \<Longrightarrow> notification_ok n \<Longrightarrow> notif_inv (d\<lparr>notifications := row_put n_id n (notifications d)\<rparr>)"
  by (auto simp: notif_inv_def dest: set_row_put)

lemma find_notification_mem: "find_notification k d = Some n \<Longrightarrow> n \<in> set (notifications d) \<and> n_id n = k"
  unfolding find_notification_def by (rule row_get_Some)

lemma find_notification_in:
  "notif_inv d \<Longrightarrow> n \<in> set (notifications d) \<Longrightarrow> find_notification (n_id n) d = Some n"
  unfolding find_notification_def notif_inv_def by (blast intro: row_get_in)

lemma attempts_of_put:
  assumes "find_notification (n_id n) d = Some n0"
  shows "attempts_of k (d\<lparr>notifications := row_put n_id n (notifications d)\<rparr>)
    = (if k = n_id n then n_attempts n else attempts_of k d)"
  using assms row_get_put_same [of n_id n "notifications d"] row_get_put_other [of n_id n k "notifications d"]
  by (auto simp: attempts_of_def find_notification_def)

lemma notification_okD:
  "notif_inv d \<Longrightarrow> find_notification k d = Some n \<Longrightarrow> notification_ok n"
  using find_notification_mem by (auto simp: notif_inv_def)

text \<open>Transactions that keep the invariant and never lower a number of attempts.\<close>

definition grows :: "(db, 'a) prog \<Rightarrow> bool" where
  "grows tx \<longleftrightarrow> (\<forall>d. notif_inv d \<longrightarrow>
     wp tx (\<lambda>_ d'. notif_inv d' \<and> (\<forall>k. attempts_of k d \<le> attempts_of k d')) (\<lambda>_ _. True) d)"

lemma put_grows:
  assumes "notif_inv d" and "find_notification k d = Some n0" and "n_id n = n_id n0"
    and "notification_ok n" and "n_attempts n0 \<le> n_attempts n"
  shows "notif_inv (d\<lparr>notifications := row_put n_id n (notifications d)\<rparr>)
    \<and> (\<forall>k. attempts_of k d \<le> attempts_of k (d\<lparr>notifications := row_put n_id n (notifications d)\<rparr>))"
proof -
  have n0: "find_notification (n_id n) d = Some n0"
    using assms(2,3) find_notification_mem by metis
  then have "attempts_of (n_id n) d = n_attempts n0" by (simp add: attempts_of_def)
  then show ?thesis
    using assms n0 by (simp add: notif_inv_put attempts_of_put)
qed

lemma grows_finish_success: "grows (finish_success k now)"
proof -
  have ok: "notification_ok (n\<lparr>n_status := NOTIFICATION_STATUS_SENT, n_updated_at := now,
      n_delivered_at := Some now, n_next_attempt_at := None, n_last_error := None\<rparr>)"
    if "notification_ok n" for n using that by (simp add: notification_ok_def)
  have "wp (finish_success k now)
      (\<lambda>_ d'. notif_inv d' \<and> (\<forall>k. attempts_of k d \<le> attempts_of k d')) (\<lambda>_ _. True) d"
    if inv: "notif_inv d" for d
    using inv put_grows [OF inv _ _ ok] notification_okD [OF inv]
    by (auto simp: finish_success_def wp_simps split: option.split)
  then show ?thesis by (simp add: grows_def)
qed

lemma failed_delivery_ok:
  assumes "notification_ok n" and "n_status n = NOTIFICATION_STATUS_SENDING"
  shows "\<exists>n'. failed_delivery now kind n = Some n' \<and> notification_ok n' \<and> n_id n' = n_id n
    \<and> n_attempts n' = n_attempts n
    \<and> (n_status n' = NOTIFICATION_STATUS_PENDING \<longleftrightarrow>
         kind \<in> set TRANSIENT_DISCORD_ERRORS \<and> n_attempts n < MAX_NOTIFICATION_ATTEMPTS)"
  using assms
  by (auto simp: failed_delivery_def Let_def notification_ok_def py_index_def
      NOTIFICATION_RETRY_DELAYS_def MAX_NOTIFICATION_ATTEMPTS_def)

lemma grows_finish_failure: "grows (finish_failure k kind now)"
proof -
  have "wp (finish_failure k kind now)
      (\<lambda>_ d'. notif_inv d' \<and> (\<forall>k. attempts_of k d \<le> attempts_of k d')) (\<lambda>_ _. True) d"
    if inv: "notif_inv d" for d
  proof (cases "find_notification k d")
    case None
    then show ?thesis by (simp add: finish_failure_def wp_simps)
  next
    case (Some n)
    show ?thesis
    proof (cases "n_status n = NOTIFICATION_STATUS_SENDING")
      case False
      then show ?thesis using inv Some by (simp add: finish_failure_def wp_simps)
    next
      case True
      from failed_delivery_ok [OF notification_okD [OF inv Some] True] obtain n' where
        n': "failed_delivery now kind n = Some n'" "notification_ok n'" "n_id n' = n_id n"
          "n_attempts n' = n_attempts n" by blast
      from put_grows [OF inv Some n'(3,2)] n'(1,4) Some True show ?thesis
        by (simp add: finish_failure_def wp_simps)
    qed
  qed
  then show ?thesis by (simp add: grows_def)
qed

lemma grows_notify: "grows (enqueue_discord_notification ty job_id now)"
proof -
  have "notif_inv (d\<lparr>notifications := notifications d @ [n]\<rparr>)
      \<and> (\<forall>k. attempts_of k d \<le> attempts_of k (d\<lparr>notifications := notifications d @ [n]\<rparr>))"
    if "notif_inv d" "n_id n = fresh_key n_id (notifications d)" "notification_ok n" for d n
    using that fresh_key_notin [of n_id "notifications d"]
    by (auto simp: notif_inv_def attempts_of_def find_notification_def notification_ok_def image_iff
        split: option.split)
  then show ?thesis
    by (auto simp: grows_def enqueue_discord_notification_def wp_simps notification_ok_def
        MAX_NOTIFICATION_ATTEMPTS_def)
qed

lemma reconciled_ok:
  "notification_ok n \<Longrightarrow> n_status n = NOTIFICATION_STATUS_SENDING \<Longrightarrow> notification_ok (reconciled now n)"
  by (auto simp: reconciled_def Let_def notification_ok_def)

lemma reconciled_fields [simp]:
  "n_id (reconciled now n) = n_id n" "n_attempts (reconciled now n) = n_attempts n"
  by (simp_all add: reconciled_def Let_def)

lemma wp_reconcile_each:
  assumes "notif_inv d" and "\<forall>n\<in>set ns. notification_ok n \<and> n_status n = NOTIFICATION_STATUS_SENDING
      \<and> (\<exists>m. find_notification (n_id n) d = Some m \<and> n_attempts m = n_attempts n)"
  shows "wp (for_each ns (\<lambda>n. put_notification (reconciled now n)))
    (\<lambda>_ d'. notif_inv d' \<and> (\<forall>k. attempts_of k d \<le> attempts_of k d')) (\<lambda>_ _. True) d"
  using assms
proof (induction ns arbitrary: d)
  case Nil
  then show ?case by (simp add: wp_simps)
next
  case (Cons n ns)
  let ?d = "d\<lparr>notifications := row_put n_id (reconciled now n) (notifications d)\<rparr>"
  from Cons.prems(2) obtain m where m: "find_notification (n_id n) d = Some m" "n_attempts m = n_attempts n"
    and ok: "notification_ok (reconciled now n)" by (auto intro: reconciled_ok)
  have "n_id m = n_id n" using find_notification_mem [OF m(1)] by simp
  then have step: "notif_inv ?d \<and> (\<forall>k. attempts_of k d \<le> attempts_of k ?d)"
    using put_grows [OF Cons.prems(1) m(1) _ ok] m(2) by simp
  have find: "\<exists>m'. find_notification k ?d = Some m' \<and> n_attempts m' = n_attempts m0"
    if "find_notification k d = Some m0" for k m0
  proof (cases "k = n_id n")
    case True
    then show ?thesis
      using that m row_get_put_same [of n_id "reconciled now n" "notifications d"]
      by (simp add: find_notification_def)
  next
    case False
    then show ?thesis
      using that row_get_put_other [of n_id "reconciled now n" k "notifications d"]
      by (simp add: find_notification_def)
  qed
  have "\<forall>x\<in>set ns. notification_ok x \<and> n_status x = NOTIFICATION_STATUS_SENDING
      \<and> (\<exists>m. find_notification (n_id x) ?d = Some m \<and> n_attempts m = n_attempts x)"
    using Cons.prems(2) find by (metis list.set_intros(2))
  from Cons.IH [OF _ this] step
  have "wp (for_each ns (\<lambda>n. put_notification (reconciled now n)))
    (\<lambda>_ d'. notif_inv d' \<and> (\<forall>k. attempts_of k d \<le> attempts_of k d')) (\<lambda>_ _. True) ?d"
    by (auto intro: wp_mono order_trans)
  then show ?case by (simp add: wp_simps)
qed

lemma grows_reconcile: "grows (reconcile_sending_notifications now)"
  unfolding grows_def
proof (intro allI impI)
  fix d
  assume inv: "notif_inv d"
  have "\<forall>n\<in>set (order_by n_id (filter sending_discord (notifications d))).
      notification_ok n \<and> n_status n = NOTIFICATION_STATUS_SENDING
      \<and> (\<exists>m. find_notification (n_id n) d = Some m \<and> n_attempts m = n_attempts n)"
    using inv find_notification_in [OF inv] by (auto simp: sending_discord_def notif_inv_def)
  then show "wp (reconcile_sending_notifications now)
      (\<lambda>_ d'. notif_inv d' \<and> (\<forall>k. attempts_of k d \<le> attempts_of k d')) (\<lambda>_ _. True) d"
    unfolding reconcile_sending_notifications_def wp_bnd wp_reads wp_andthen wp_ret
    by (rule wp_reconcile_each [OF inv])
qed

text \<open>The claim counts the attempt before the delivery.\<close>

lemma wp_claim_next_notification:
  assumes inv: "notif_inv d"
  shows "wp (claim_next_notification now)
    (\<lambda>r d'. notif_inv d' \<and> (case r of
        None \<Rightarrow> d' = d
      | Some n \<Rightarrow> \<forall>k. attempts_of k d' = attempts_of k d + (if k = n_id n then 1 else 0)))
    (\<lambda>_ _. False) d"
proof -
  let ?sel = "limit1 (order_by (\<lambda>n. (n_created_at n, n_id n))
      (filter (eligible_notification now) (notifications d)))"
  show ?thesis
  proof (cases ?sel)
    case None
    then show ?thesis using inv unfolding claim_next_notification_def wp_bnd wp_reads
      by (simp add: wp_ret limit1_def order_by_def)
  next
    case (Some n)
    then have "n \<in> set (order_by (\<lambda>n. (n_created_at n, n_id n))
      (filter (eligible_notification now) (notifications d)))" by (rule limit1_in)
    then have n: "n \<in> set (notifications d)" "eligible_notification now n" by simp_all
    let ?n = "n\<lparr>n_status := NOTIFICATION_STATUS_SENDING, n_attempts := n_attempts n + 1,
      n_updated_at := now, n_next_attempt_at := None, n_delivered_at := None, n_last_error := None\<rparr>"
    have ok: "notification_ok ?n"
      using n inv by (auto simp: notif_inv_def notification_ok_def eligible_notification_def)
    have find: "find_notification (n_id n) d = Some n" by (rule find_notification_in [OF inv n(1)])
    then have "attempts_of (n_id n) d = n_attempts n" by (simp add: attempts_of_def)
    then show ?thesis
      using Some find notif_inv_put [OF inv ok] attempts_of_put [of ?n d n]
      unfolding claim_next_notification_def wp_bnd wp_reads
      by (simp add: wp_simps Let_def)
  qed
qed

section \<open>No event is delivered more than three times\<close>

text \<open>
  The web process shares the database: it enqueues events of its own, a blocked login and the test of the webhook,
  any number of them between two transactions, and leaves the events that exist alone.
\<close>

definition enqueue_each :: "(string \<times> int option \<times> int) list \<Rightarrow> (db, unit) prog" where
  "enqueue_each requests = for_each requests (\<lambda>(ty, job_id, now). enqueue_discord_notification ty job_id now)"

definition only_enqueues :: "env \<Rightarrow> bool" where
  "only_enqueues env \<longleftrightarrow> (\<forall>n d. \<exists>requests d'. enqueue_each requests d = (Inr (), d')
     \<and> notifications (e_interfere env n d) = notifications d')"

lemma notif_inv_cong: "notifications d = notifications d' \<Longrightarrow> notif_inv d = notif_inv d'"
  by (simp add: notif_inv_def)

lemma attempts_of_cong: "notifications d = notifications d' \<Longrightarrow> attempts_of k d = attempts_of k d'"
  by (simp add: attempts_of_def find_notification_def)

lemma grows_later:
  assumes "grows tx" "notif_inv t" "\<forall>k. attempts_of k d \<le> attempts_of k t"
  shows "wp tx (\<lambda>_ d'. notif_inv d' \<and> (\<forall>k. attempts_of k d \<le> attempts_of k d')) (\<lambda>_ _. True) t"
  by (rule wp_mono [OF assms(1) [unfolded grows_def, rule_format, OF assms(2)]])
    (use assms(3) order_trans in blast)+

lemma grows_each: "grows (enqueue_each requests)"
proof (induction requests)
  case Nil
  then show ?case by (simp add: grows_def enqueue_each_def wp_ret)
next
  case (Cons q qs)
  obtain ty job_id now where q: "q = (ty, job_id, now)" by (cases q)
  show ?case
    unfolding grows_def enqueue_each_def q for_each.simps prod.case wp_andthen
  proof (intro allI impI)
    fix d
    assume inv: "notif_inv d"
    show "wp (enqueue_discord_notification ty job_id now)
        (\<lambda>_. wp (for_each qs (\<lambda>(ty, job_id, now). enqueue_discord_notification ty job_id now))
          (\<lambda>_ d'. notif_inv d' \<and> (\<forall>k. attempts_of k d \<le> attempts_of k d')) (\<lambda>_ _. True)) (\<lambda>_ _. True) d"
      by (rule wp_mono [OF grows_notify [unfolded grows_def, rule_format, OF inv]])
        (use grows_later [OF Cons.IH, unfolded enqueue_each_def] in auto)
  qed
qed

lemma only_enqueues_inv:
  assumes "only_enqueues env" "notif_inv d"
  shows "notif_inv (e_interfere env n d) \<and> (\<forall>k. attempts_of k d \<le> attempts_of k (e_interfere env n d))"
proof -
  from assms(1) obtain requests d' where run: "enqueue_each requests d = (Inr (), d')"
    and same: "notifications (e_interfere env n d) = notifications d'" unfolding only_enqueues_def by blast
  from wp_InrD [OF grows_each [unfolded grows_def, rule_format, OF assms(2)] run]
  show ?thesis by (simp add: notif_inv_cong [OF same] attempts_of_cong [OF same])
qed

lemma delivery_inv_scope:
  assumes "only_enqueues env" and "grows tx" and "delivery_inv w"
  shows "wp (session_scope env tx) (\<lambda>_. delivery_inv) (\<lambda>_. delivery_inv) w"
proof -
  let ?d = "e_interfere env (w_tick w) (w_db w)"
  have d: "notif_inv ?d" "\<And>k. attempts_of k (w_db w) \<le> attempts_of k ?d"
    using assms(1,3) only_enqueues_inv by (simp_all add: delivery_inv_def)
  have tx: "wp tx (\<lambda>_ d'. notif_inv d' \<and> (\<forall>k. attempts_of k ?d \<le> attempts_of k d')) (\<lambda>_ _. True) ?d"
    using assms(2) d(1) by (simp add: grows_def)
  have sent: "int (sends k (w_trace w)) \<le> attempts_of k ?d" for k
    using assms(3) order_trans [OF _ d(2)] by (simp add: delivery_inv_def)
  have old: "delivery_inv (after_scope w ?d)" using d(1) sent by (simp add: delivery_inv_def)
  have new: "delivery_inv (after_scope w d')" if "notif_inv d' \<and> (\<forall>k. attempts_of k ?d \<le> attempts_of k d')" for d'
    using that order_trans [OF sent] by (simp add: delivery_inv_def)
  show ?thesis
    unfolding wp_session_scope Let_def
    by (rule wp_mono [OF tx]) (simp_all add: old new)
qed

lemma sends_call: "sends k (EvWebhook i r # tr) = sends k tr + (if i = k then 1 else 0)"
  by (simp add: sends_def)

lemma delivery_inv_claim_and_send:
  assumes env: "only_enqueues env" and inv: "delivery_inv w"
  shows "wp (claim_and_send env now) (\<lambda>_. delivery_inv) (\<lambda>_. delivery_inv) w"
proof -
  let ?d = "e_interfere env (w_tick w) (w_db w)"
  have d: "notif_inv ?d" "\<And>k. attempts_of k (w_db w) \<le> attempts_of k ?d"
    using env inv only_enqueues_inv by (simp_all add: delivery_inv_def)
  have bound: "int (sends k (w_trace w)) \<le> attempts_of k (w_db w)" for k
    using inv by (simp add: delivery_inv_def)
  have deliver: "delivery_inv (after_call env (EvWebhook (n_id n) r) (after_scope w d'))"
    if "notif_inv d'" "\<forall>k. attempts_of k d' = attempts_of k ?d + (if k = n_id n then 1 else 0)" for n d' r
    using that(1) order_trans [OF bound d(2)] that(2) by (auto simp: delivery_inv_def sends_call)
  have same: "delivery_inv (after_scope w ?d)"
    using d(1) order_trans [OF bound d(2)] by (simp add: delivery_inv_def)
  show ?thesis
    unfolding claim_and_send_def wp_bnd [of "session_scope _ _"] wp_session_scope Let_def
    by (rule wp_mono [OF wp_claim_next_notification [OF d(1)]])
      (use same deliver in
        \<open>auto simp: wp_simps webhook_send_def Let_def split: option.splits sum.split\<close>)
qed

lemma grows_claim: "grows (claim_next_notification now)"
  unfolding grows_def
proof (intro allI impI)
  fix d
  assume "notif_inv d"
  from wp_claim_next_notification [OF this]
  show "wp (claim_next_notification now) (\<lambda>_ d'. notif_inv d' \<and> (\<forall>k. attempts_of k d \<le> attempts_of k d')) (\<lambda>_ _. True) d"
    by (rule wp_mono) (auto split: option.split_asm)
qed

lemma delivery_inv_step:
  assumes env: "only_enqueues env" and inv: "delivery_inv w"
  shows "delivery_inv (snd (process_next_notification env now w))"
proof -
  have finish: "wp (case s of None \<Rightarrow> ret False
       | Some (n, failure) \<Rightarrow> andthen (session_scope env (case failure of
             None \<Rightarrow> finish_success (n_id n) now
           | Some kind \<Rightarrow> finish_failure (n_id n) kind now)) (ret True))
      (\<lambda>_. delivery_inv) (\<lambda>_. delivery_inv) v" if v: "delivery_inv v" for s v
    using v delivery_inv_scope [OF env grows_finish_success v]
      delivery_inv_scope [OF env grows_finish_failure v]
    by (cases s) (auto simp: wp_simps Let_def split: option.split)
  have "wp (process_next_notification env now) (\<lambda>_. delivery_inv) (\<lambda>_. delivery_inv) w"
    unfolding process_next_notification_def wp_bnd
    by (rule wp_mono [OF delivery_inv_claim_and_send [OF env inv]]) (auto intro: finish)
  then show ?thesis by (simp add: wp_snd)
qed

text \<open>
  C16: a notification is delivered at most three times, and never more often than its row counts
  attempts: through any sequence of dispatches, restarts, new events and crashes of the dispatcher, after the claim or
  after the delivery, while the web process enqueues what it likes between any two transactions. No
  pending event has used up its attempts, and an event has a delivery time exactly when it was sent.
\<close>

theorem notification_at_most_three:
  assumes "delivery_reach env w" and "only_enqueues env"
  shows "sends k (w_trace w) \<le> 3 \<and> (\<forall>n. find_notification k (w_db w) = Some n \<longrightarrow>
           notification_ok n \<and> int (sends k (w_trace w)) \<le> n_attempts n)"
proof -
  have inv: "delivery_inv w"
    using assms(1)
  proof (induction rule: delivery_reach.induct)
    case (start w)
    then show ?case
      by (simp add: delivery_inv_def notif_inv_def sends_def attempts_of_def find_notification_def row_get_def)
  next
    case (dispatch w now)
    then show ?case by (intro delivery_inv_step [OF assms(2)])
  next
    case (claimed_only w now)
    then show ?case using delivery_inv_scope [OF assms(2) grows_claim] by (simp add: wp_snd)
  next
    case (killed w now)
    then show ?case using delivery_inv_claim_and_send [OF assms(2)] by (simp add: wp_snd)
  next
    case (restart w now)
    then show ?case using delivery_inv_scope [OF assms(2) grows_reconcile] by (simp add: wp_snd)
  next
    case (notify w ty job_id now)
    then show ?case using delivery_inv_scope [OF assms(2) grows_notify] by (simp add: wp_snd)
  next
    case (elsewhere w w')
    then show ?case by (simp add: delivery_inv_def notif_inv_cong [of "w_db w'"] attempts_of_cong [of "w_db w'"])
  qed
  then have bound: "int (sends k (w_trace w)) \<le> attempts_of k (w_db w)" "notif_inv (w_db w)"
    by (simp_all add: delivery_inv_def)
  have ok: "notification_ok n" if "find_notification k (w_db w) = Some n" for n
    by (rule notification_okD [OF bound(2) that])
  then have "attempts_of k (w_db w) \<le> 3"
    by (auto simp: attempts_of_def notification_ok_def MAX_NOTIFICATION_ATTEMPTS_def split: option.split)
  with bound(1) ok show ?thesis by (auto simp: attempts_of_def)
qed

text \<open>The witness: a test event, a blocked login in between, a dispatcher that dies after its claim, a restart and a dispatch.\<close>

definition busy_env :: env where
  "busy_env = calm_env\<lparr>e_interfere := \<lambda>n d. snd (enqueue_discord_notification ''LOGIN_BLOCKED'' None (int n) d)\<rparr>"

definition retried_world :: world where
  "retried_world = snd (process_next_notification busy_env 9 (snd (session_scope busy_env (reconcile_sending_notifications 8)
     (snd (session_scope busy_env (claim_next_notification 7)
       (snd (session_scope busy_env (enqueue_discord_notification ''DISCORD_TEST'' None 0) (start_world empty_db))))))))"

theorem notification_at_most_three_witness: "sends 1 (w_trace retried_world) \<le> 3"
proof -
  have "delivery_reach busy_env (start_world empty_db)"
    by (rule delivery_reach.start) (simp_all add: start_world_def empty_db_def)
  then have reach: "delivery_reach busy_env retried_world"
    unfolding retried_world_def
    by (intro delivery_reach.dispatch delivery_reach.restart delivery_reach.claimed_only delivery_reach.notify)
  have "only_enqueues busy_env"
    unfolding only_enqueues_def
  proof (intro allI)
    fix n d
    have "enqueue_each [(''LOGIN_BLOCKED'', None, int n)] d = (Inr (), e_interfere busy_env n d)"
      by (simp add: enqueue_each_def busy_env_def enqueue_discord_notification_def SUPPORTED_DISCORD_EVENT_TYPES_def
          andthen_def bnd_def require_def ret_def modify_def)
    then show "\<exists>requests d'. enqueue_each requests d = (Inr (), d') \<and> notifications (e_interfere busy_env n d) = notifications d'"
      by blast
  qed
  with reach notification_at_most_three [of busy_env retried_world 1] show ?thesis by blast
qed

text \<open>
  C0: a failed delivery is retried exactly when its error is transient (rate limit, timeout or
  unavailable service) and an attempt is left, 5 seconds after the first attempt and 30 seconds
  after the second; every other failure ends the event as FAILED. The client of the webhook only
  ever fails with a delivery error, or with \<open>ValueError\<close> for a message of an invalid length.
\<close>

theorem failed_delivery_retries:
  assumes "notification_ok n" and "n_status n = NOTIFICATION_STATUS_SENDING"
  shows "\<exists>n'. failed_delivery now kind n = Some n'
     \<and> (if kind \<in> {''RATE_LIMITED'', ''TIMEOUT'', ''UNAVAILABLE''} \<and> n_attempts n < 3
        then n_status n' = NOTIFICATION_STATUS_PENDING
          \<and> n_next_attempt_at n' = Some (now + (if n_attempts n = 1 then seconds 5 else seconds 30))
        else n_status n' = NOTIFICATION_STATUS_FAILED \<and> n_next_attempt_at n' = None)
     \<and> n_last_error n' = Some kind \<and> n_attempts n' = n_attempts n
     \<and> (\<forall>l a e. official_webhook_send l a = Inl e \<longrightarrow>
          (\<exists>kind. e = DiscordDeliveryError kind) \<or> (e = ValueError \<and> (l = 0 \<or> 2000 < l)))"
proof -
  have "n_attempts n = 1 \<or> n_attempts n = 2 \<or> n_attempts n = 3"
    using assms by (auto simp: notification_ok_def MAX_NOTIFICATION_ATTEMPTS_def)
  then show ?thesis
    by (auto simp: failed_delivery_def Let_def py_index_def NOTIFICATION_RETRY_DELAYS_def
        MAX_NOTIFICATION_ATTEMPTS_def TRANSIENT_DISCORD_ERRORS_def official_webhook_send_def
        split: transport_answer.splits if_splits)
qed

definition sent_once :: notification_event where
  "sent_once = \<lparr>n_id = 1, n_event_type = ''DISCORD_TEST'', n_channel = ''DISCORD'',
     n_status = NOTIFICATION_STATUS_SENDING, n_created_at = 0, n_updated_at = 0, n_job_id = None,
     n_attempts = 1, n_next_attempt_at = None, n_delivered_at = None, n_last_error = None\<rparr>"

theorem failed_delivery_retries_witness:
  "\<exists>n'. failed_delivery 0 ''TIMEOUT'' sent_once = Some n' \<and> n_next_attempt_at n' = Some (seconds 5)"
proof -
  have "notification_ok sent_once" "n_status sent_once = NOTIFICATION_STATUS_SENDING"
    "n_attempts sent_once = 1"
    by (simp_all add: sent_once_def notification_ok_def MAX_NOTIFICATION_ATTEMPTS_def)
  then show ?thesis using failed_delivery_retries [of sent_once 0 "''TIMEOUT''"] by auto
qed

end
