(* ===== verification/Shutdown.thy ===== *)
theory Shutdown
  imports Lifecycle Notifications
begin

text \<open>
  Shutting the server down with its players in mind: the assisted and the forced executor
  (\<open>app/shutdown/service.py\<close>) and their jobs (\<open>app/shutdown/jobs.py\<close>). The assisted executor is a
  client of the lifecycle executor and of a countdown control, both interfaces.
\<close>

section \<open>The executors\<close>

datatype directive = CONTINUE | CANCEL | EXECUTE_NOW

datatype shutdown_outcome = SHUTDOWN_SUCCEEDED | SHUTDOWN_FAILED | SHUTDOWN_CANCELLED

record shutdown_result =
  sr_outcome :: shutdown_outcome
  sr_online_players :: "int option"
  sr_timed_out :: bool
  sr_final_state :: "health_state option"
  sr_failure :: "string option"

record countdown_control =
  c_update :: "int \<Rightarrow> int \<Rightarrow> (world, directive) prog"
  c_mark_irreversible :: "(world, directive) prog"

text \<open>\<open>except PalworldRestOperationError\<close>, the base class of the REST client's errors.\<close>

definition is_rest_error :: "exn \<Rightarrow> bool" where
  "is_rest_error e = (case e of PalworldRestOperationError \<Rightarrow> True | PalworldRestError _ \<Rightarrow> True | _ \<Rightarrow> False)"

definition online_player_count :: "env \<Rightarrow> (world, int) prog" where
  "online_player_count env = call env (e_players env) EvPlayers"

definition announce :: "env \<Rightarrow> string \<Rightarrow> (world, unit) prog" where
  "announce env message = call env (e_announce env) (EvAnnounce message)"

definition try_rest :: "(world, 'a) prog \<Rightarrow> (world, 'a option) prog" where
  "try_rest m = handle (bnd m (\<lambda>x. ret (Some x)))
     (\<lambda>e. if is_rest_error e then ret None else raise e)"

text \<open>The countdown: \<open>True\<close> when it was cancelled.\<close>

primrec countdown ::
  "env \<Rightarrow> countdown_control \<Rightarrow> int \<Rightarrow> int \<Rightarrow> nat \<Rightarrow> (world, bool) prog" where
  "countdown env ctl players whole 0 = ret False"
| "countdown env ctl players whole (Suc remaining) =
     bnd (c_update ctl (int (Suc remaining)) whole) (\<lambda>directive.
       if directive = CANCEL then
         andthen (if players \<noteq> 0
                  then try_rest (announce env (msg_text ''O desligamento do servidor foi cancelado.''))
                  else ret None)
           (ret True)
       else if directive = EXECUTE_NOW then ret False
       else andthen (sleep env (seconds 1)) (countdown env ctl players whole remaining))"

definition announcement :: "int \<Rightarrow> string" where
  "announcement countdown_minutes =
     msg_text (''O servidor ser/a desligado em '' @ str_int countdown_minutes @ '' ''
       @ (if countdown_minutes = 1 then ''minuto'' else ''minutos'') @ ''.'')"

definition cancelled_result :: "int \<Rightarrow> shutdown_result" where
  "cancelled_result players = \<lparr>sr_outcome = SHUTDOWN_CANCELLED, sr_online_players = Some players,
     sr_timed_out = False, sr_final_state = None, sr_failure = None\<rparr>"

definition communication_failed :: "int option \<Rightarrow> shutdown_result" where
  "communication_failed players = \<lparr>sr_outcome = SHUTDOWN_FAILED, sr_online_players = players,
     sr_timed_out = False, sr_final_state = None, sr_failure = Some ''communication_failed''\<rparr>"

definition assisted_shutdown ::
  "env \<Rightarrow> lifecycle_executor \<Rightarrow> int \<Rightarrow> int \<Rightarrow> countdown_control \<Rightarrow> (world, shutdown_result) prog" where
  "assisted_shutdown env lifecycle countdown_minutes stop_timeout ctl =
     andthen (require (countdown_minutes \<in> {0, 1, 5, 10}) ValueError)
       (bnd (try_rest (bnd (online_player_count env) (\<lambda>players.
               andthen (if players \<noteq> 0 \<and> countdown_minutes \<noteq> 0
                        then announce env (announcement countdown_minutes) else ret ())
                 (ret players)))) (\<lambda>contacted. case contacted of
          None \<Rightarrow> ret (communication_failed None)
        | Some players \<Rightarrow>
            bnd (countdown env ctl players (countdown_minutes * 60) (nat (countdown_minutes * 60)))
              (\<lambda>cancelled. if cancelled then ret (cancelled_result players)
               else bnd (c_mark_irreversible ctl) (\<lambda>directive.
                 if directive = CANCEL then ret (cancelled_result players)
                 else bnd (if players \<noteq> 0
                           then try_rest (announce env (msg_text ''O servidor ser/a desligado agora.''))
                           else ret (Some ())) (\<lambda>announced. case announced of
                     None \<Rightarrow> ret (communication_failed (Some players))
                   | Some _ \<Rightarrow> bnd (lifecycle STOP stop_timeout) (\<lambda>r.
                       ret \<lparr>sr_outcome = (if lr_outcome r = LIFECYCLE_SUCCEEDED then SHUTDOWN_SUCCEEDED
                                          else SHUTDOWN_FAILED),
                            sr_online_players = Some players, sr_timed_out = lr_timed_out r,
                            sr_final_state = Some (lr_final_state r),
                            sr_failure = (if lr_outcome r = LIFECYCLE_SUCCEEDED then None
                                          else Some ''stop_failed'')\<rparr>))))))"

definition send_signal :: "env \<Rightarrow> palworld_signal \<Rightarrow> (world, unit) prog" where
  "send_signal env sig = call env (e_signal env) (EvSignal sig)"

primrec forced_poll :: "env \<Rightarrow> nat \<Rightarrow> int \<Rightarrow> (world, shutdown_result) prog" where
  "forced_poll env 0 deadline = raise Diverges"
| "forced_poll env (Suc fuel) deadline =
     bnd (health_check env) (\<lambda>state.
       bnd (if state = OFFLINE then bnd (port_open env) (\<lambda>b. ret (\<not> b)) else ret False) (\<lambda>stopped.
         if stopped
         then ret \<lparr>sr_outcome = SHUTDOWN_SUCCEEDED, sr_online_players = None, sr_timed_out = False,
                   sr_final_state = Some state, sr_failure = None\<rparr>
         else bnd monotonic (\<lambda>t.
           if deadline \<le> t
           then ret \<lparr>sr_outcome = SHUTDOWN_FAILED, sr_online_players = None, sr_timed_out = True,
                     sr_final_state = Some state, sr_failure = Some ''signal_timeout''\<rparr>
           else bnd monotonic (\<lambda>t'.
             andthen (sleep env (min (seconds 1) (max 0 (deadline - t')))) (forced_poll env fuel deadline)))))"

definition forced_shutdown :: "env \<Rightarrow> palworld_signal \<Rightarrow> int \<Rightarrow> (world, shutdown_result) prog" where
  "forced_shutdown env sig timeout_seconds =
     bnd (handle (andthen (send_signal env sig) (ret True))
            (\<lambda>e. if e = PalworldServiceControlError then ret False else raise e)) (\<lambda>sent.
       if \<not> sent
       then ret \<lparr>sr_outcome = SHUTDOWN_FAILED, sr_online_players = None, sr_timed_out = False,
                 sr_final_state = Some FAILURE, sr_failure = Some ''signal_failed''\<rparr>
       else bnd monotonic (\<lambda>t. forced_poll env (e_fuel env) (t + seconds timeout_seconds)))"

section \<open>Queueing\<close>

datatype shutdown_job_kind = ASSISTED | FORCE_TERM | FORCE_KILL

primrec shutdown_kind_value :: "shutdown_job_kind \<Rightarrow> string" where
  "shutdown_kind_value ASSISTED = ''PALWORLD_ASSISTED_SHUTDOWN''"
| "shutdown_kind_value FORCE_TERM = ''PALWORLD_FORCE_SIGTERM''"
| "shutdown_kind_value FORCE_KILL = ''PALWORLD_FORCE_SIGKILL''"

definition parse_shutdown_kind :: "string \<Rightarrow> shutdown_job_kind option" where
  "parse_shutdown_kind s = List.find (\<lambda>k. shutdown_kind_value k = s) [ASSISTED, FORCE_TERM, FORCE_KILL]"

primrec signal_value :: "palworld_signal \<Rightarrow> string" where
  "signal_value SIG_TERM = ''SIGTERM''"
| "signal_value SIG_KILL = ''SIGKILL''"

definition ALLOWED_COUNTDOWN_MINUTES :: "int list" where
  "ALLOWED_COUNTDOWN_MINUTES = [0, 1, 5, 10]"

definition assisted_shutdown_default :: "(db, int) prog" where
  "assisted_shutdown_default = bnd (reads (find_setting ''assisted_shutdown_default_minutes'')) (\<lambda>setting.
     case setting of
       None \<Rightarrow> ret 5
     | Some s \<Rightarrow> (case json_int (Some (s_value s)) of
         None \<Rightarrow> raise ValueError
       | Some n \<Rightarrow> if n \<in> set ALLOWED_COUNTDOWN_MINUTES then ret n else raise ValueError))"

definition ensure_no_active_palworld_job :: "(db, unit) prog" where
  "ensure_no_active_palworld_job = bnd (reads (active_with_key LIFECYCLE_COORDINATION_KEY)) (\<lambda>active.
     require (\<not> active) ShutdownJobConflictError)"

definition enqueue_assisted_shutdown :: "int \<Rightarrow> int \<Rightarrow> int \<Rightarrow> (db, job) prog" where
  "enqueue_assisted_shutdown countdown_minutes user_id now =
     andthen (require (countdown_minutes \<in> set ALLOWED_COUNTDOWN_MINUTES) ValueError)
       (andthen ensure_no_active_palworld_job
         (bnd (lifecycle_timeout STOP) (\<lambda>timeout_seconds.
           bnd (add_job ShutdownJobConflictError
                  (new_job (shutdown_kind_value ASSISTED) (0 < countdown_minutes) True
                     LIFECYCLE_COORDINATION_KEY (Some user_id)
                     [(''countdown_minutes'', JInt countdown_minutes),
                      (''remaining_seconds'', JInt (countdown_minutes * 60)),
                      (''stop_timeout_seconds'', JInt timeout_seconds)] now)) (\<lambda>job.
             andthen (record_audit_event now
                 (admin_event ''ASSISTED_SHUTDOWN_REQUESTED'' AUDIT_RESULT_SUCCESS (Some user_id)
                    (Some (j_id job)) (Some ''Palworld'')
                    (Some [(''countdown_minutes'', JInt countdown_minutes)])))
               (ret job)))))"

text \<open>The escalation: a signal needs a failed job of the step before it.\<close>

definition valid_forced_source :: "palworld_signal \<Rightarrow> job option \<Rightarrow> bool" where
  "valid_forced_source sig source = (case source of
       None \<Rightarrow> False
     | Some j \<Rightarrow>
         (let assisted_stop_failed = (j_kind j = shutdown_kind_value ASSISTED
                \<and> dict_get (dict_of (j_result j)) ''failure'' = Some (JStr ''stop_failed''));
              allowed = (if sig = SIG_TERM then [''PALWORLD_STOP'', shutdown_kind_value ASSISTED]
                         else [shutdown_kind_value FORCE_TERM]);
              valid_term = (sig = SIG_TERM \<and> (j_kind j = ''PALWORLD_STOP'' \<or> assisted_stop_failed));
              valid_kill = (sig = SIG_KILL \<and> j_kind j = shutdown_kind_value FORCE_TERM)
          in j_status j = JOB_STATUS_FAILED \<and> j_kind j \<in> set allowed \<and> (valid_term \<or> valid_kill)))"

definition forced_kind :: "palworld_signal \<Rightarrow> shutdown_job_kind" where
  "forced_kind sig = (if sig = SIG_TERM then FORCE_TERM else FORCE_KILL)"

definition enqueue_forced_shutdown :: "int \<Rightarrow> palworld_signal \<Rightarrow> int \<Rightarrow> int \<Rightarrow> (db, job) prog" where
  "enqueue_forced_shutdown source_job_id sig user_id now =
     bnd (reads (find_job source_job_id)) (\<lambda>source.
       andthen (require (valid_forced_source sig source) InvalidForcedShutdownError)
         (andthen ensure_no_active_palworld_job
           (bnd (lifecycle_timeout STOP) (\<lambda>timeout_seconds.
             bnd (add_job ShutdownJobConflictError
                    (new_job (shutdown_kind_value (forced_kind sig)) False True
                       LIFECYCLE_COORDINATION_KEY (Some user_id)
                       [(''source_job_id'', JInt source_job_id),
                        (''timeout_seconds'', JInt timeout_seconds)] now)) (\<lambda>job.
               andthen (record_audit_event now
                   (admin_event (''FORCED_SHUTDOWN_'' @ signal_value sig @ ''_REQUESTED'')
                      AUDIT_RESULT_SUCCESS (Some user_id) (Some (j_id job)) (Some ''Palworld'')
                      (Some [(''source_job_id'', JInt source_job_id),
                             (''signal'', JStr (signal_value sig))])))
                 (ret job))))))"

section \<open>Requests during the countdown\<close>

definition owned_by :: "int option \<Rightarrow> job \<Rightarrow> bool" where
  "owned_by owner j = (case owner of None \<Rightarrow> True | Some u \<Rightarrow> j_requested_by_user_id j = Some u)"

definition cancellable_shutdown :: "int option \<Rightarrow> job \<Rightarrow> bool" where
  "cancellable_shutdown owner j \<longleftrightarrow> j_kind j = shutdown_kind_value ASSISTED
     \<and> active_status (j_status j) \<and> j_is_cancellable j \<and> \<not> j_cancel_requested j \<and> owned_by owner j"

definition request_shutdown_cancel :: "int \<Rightarrow> int \<Rightarrow> int option \<Rightarrow> int \<Rightarrow> (db, bool) prog" where
  "request_shutdown_cancel k user_id owner now =
     bnd (reads (find_job k)) (\<lambda>found. case found of
         None \<Rightarrow> ret False
       | Some j0 \<Rightarrow>
           if \<not> cancellable_shutdown owner j0 then ret False
           else (let j = j0\<lparr>j_cancel_requested := True\<rparr> in
             andthen (put_job j)
             (andthen (record_audit_event now
                 (admin_event ''ASSISTED_SHUTDOWN_CANCEL_REQUESTED'' AUDIT_RESULT_SUCCESS (Some user_id)
                    (Some k) (Some ''Palworld'') None))
             (andthen
               (if j_status j0 = JOB_STATUS_PENDING then
                  andthen (put_job (finished JOB_STATUS_CANCELLED ''CANCELLED'' now
                      (AList.update ''cancelled'' (JBool True) (dict_of (j_result j))) j))
                    (record_audit_event now
                       (system_event ''ASSISTED_SHUTDOWN'' AUDIT_RESULT_CANCELLED k (Some ''Palworld'') None))
                else ret ())
               (ret True)))))"

definition request_shutdown_now :: "int \<Rightarrow> int \<Rightarrow> int option \<Rightarrow> int \<Rightarrow> (db, bool) prog" where
  "request_shutdown_now k user_id owner now =
     bnd (reads (find_job k)) (\<lambda>found. case found of
         None \<Rightarrow> ret False
       | Some j \<Rightarrow>
           if \<not> (cancellable_shutdown owner j \<and> \<not> j_execute_now_requested j) then ret False
           else andthen (put_job (j\<lparr>j_execute_now_requested := True\<rparr>))
             (andthen (record_audit_event now
                 (admin_event ''ASSISTED_SHUTDOWN_EXECUTE_NOW_REQUESTED'' AUDIT_RESULT_SUCCESS
                    (Some user_id) (Some k) (Some ''Palworld'') None))
               (ret True)))"

definition claim_next_shutdown_job :: "string \<Rightarrow> int \<Rightarrow> (db, job option) prog" where
  "claim_next_shutdown_job worker_id now =
     claim_next_job worker_id (map shutdown_kind_value [ASSISTED, FORCE_TERM, FORCE_KILL]) now"

section \<open>The countdown control of the database\<close>

text \<open>
  The progress of \<open>update\<close> is a quotient of small integers, for which truncating the double and the
  integer division agree; the executor calls it with \<open>0 < remaining \<le> total\<close>.
\<close>

definition countdown_update_tx :: "int \<Rightarrow> int \<Rightarrow> int \<Rightarrow> (db, directive) prog" where
  "countdown_update_tx k remaining_seconds total_seconds =
     bnd (get_one_job k) (\<lambda>j.
       andthen (put_job (j\<lparr>j_step := ''COUNTDOWN'',
            j_result := Some (AList.update ''remaining_seconds'' (JInt remaining_seconds)
                                (dict_of (j_result j))),
            j_progress := 5 + 75 * (total_seconds - remaining_seconds) div total_seconds\<rparr>))
         (ret (if j_cancel_requested j then CANCEL
               else if j_execute_now_requested j then EXECUTE_NOW else CONTINUE)))"

definition mark_irreversible_tx :: "int \<Rightarrow> (db, directive) prog" where
  "mark_irreversible_tx k =
     bnd (reads (find_job k)) (\<lambda>found.
       let changed = (case found of None \<Rightarrow> False
                      | Some j \<Rightarrow> j_is_cancellable j \<and> \<not> j_cancel_requested j) in
       bnd (get_one_job k) (\<lambda>j.
         if \<not> changed \<and> j_cancel_requested j then ret CANCEL
         else andthen (put_job (j\<lparr>j_is_cancellable := False, j_step := ''IRREVERSIBLE'',
                  j_progress := 80,
                  j_result := Some (AList.update ''remaining_seconds'' (JInt 0)
                                      (dict_of (j_result j)))\<rparr>))
              (ret CONTINUE)))"

definition database_countdown_control :: "env \<Rightarrow> int \<Rightarrow> countdown_control" where
  "database_countdown_control env k =
     \<lparr>c_update = (\<lambda>remaining whole. session_scope env (countdown_update_tx k remaining whole)),
      c_mark_irreversible = session_scope env (mark_irreversible_tx k)\<rparr>"

section \<open>Executing the jobs\<close>

definition required_int :: "dict option \<Rightarrow> string \<Rightarrow> int \<Rightarrow> int \<Rightarrow> ('s, int) prog" where
  "required_int data key lo hi = (case int_within (dict_get (dict_of data) key) lo hi of
       None \<Rightarrow> raise ValueError | Some n \<Rightarrow> ret n)"

primrec outcome_status :: "shutdown_outcome \<Rightarrow> job_status" where
  "outcome_status SHUTDOWN_SUCCEEDED = JOB_STATUS_SUCCEEDED"
| "outcome_status SHUTDOWN_FAILED = JOB_STATUS_FAILED"
| "outcome_status SHUTDOWN_CANCELLED = JOB_STATUS_CANCELLED"

primrec outcome_step :: "shutdown_outcome \<Rightarrow> string" where
  "outcome_step SHUTDOWN_SUCCEEDED = ''COMPLETED''"
| "outcome_step SHUTDOWN_FAILED = ''FAILED''"
| "outcome_step SHUTDOWN_CANCELLED = ''CANCELLED''"

primrec outcome_audit :: "shutdown_outcome \<Rightarrow> audit_result" where
  "outcome_audit SHUTDOWN_SUCCEEDED = AUDIT_RESULT_SUCCESS"
| "outcome_audit SHUTDOWN_FAILED = AUDIT_RESULT_FAILURE"
| "outcome_audit SHUTDOWN_CANCELLED = AUDIT_RESULT_CANCELLED"

definition state_json :: "health_state option \<Rightarrow> json" where
  "state_json s = jopt_str (map_option health_value s)"

definition complete_shutdown_tx ::
  "int \<Rightarrow> shutdown_result \<Rightarrow> string \<Rightarrow> bool \<Rightarrow> int \<Rightarrow> (db, unit) prog" where
  "complete_shutdown_tx k r audit_action notify_forced now =
     bnd (get_one_job k) (\<lambda>j.
       andthen (put_job (finished (outcome_status (sr_outcome r)) (outcome_step (sr_outcome r)) now
            (dict_merge (dict_of (j_result j))
               [(''online_players'', jopt_int (sr_online_players r)),
                (''timed_out'', JBool (sr_timed_out r)),
                (''final_state'', state_json (sr_final_state r)),
                (''failure'', jopt_str (sr_failure r))]) j))
       (andthen (record_audit_event now
            (system_event audit_action (outcome_audit (sr_outcome r)) k (Some ''Palworld'')
               (Some [(''timed_out'', JBool (sr_timed_out r)),
                      (''final_state'', state_json (sr_final_state r)),
                      (''failure'', jopt_str (sr_failure r))])))
         (if notify_forced then enqueue_discord_notification ''FORCED_SHUTDOWN'' (Some k) now
          else ret ())))"

definition complete_shutdown_job ::
  "env \<Rightarrow> int \<Rightarrow> shutdown_result \<Rightarrow> string \<Rightarrow> bool \<Rightarrow> (world, unit) prog" where
  "complete_shutdown_job env k r audit_action notify_forced =
     bnd (wall_now env) (\<lambda>now.
       session_scope env (complete_shutdown_tx k r audit_action notify_forced now))"

definition execute_assisted_shutdown_job :: "env \<Rightarrow> int \<Rightarrow> lifecycle_executor \<Rightarrow> (world, unit) prog" where
  "execute_assisted_shutdown_job env k lifecycle =
     bnd (session_scope env (bnd (get_one_job k) (\<lambda>j.
            bnd (required_int (j_result j) ''countdown_minutes'' 0 10) (\<lambda>minutes.
              bnd (required_int (j_result j) ''stop_timeout_seconds'' 1 300) (\<lambda>timeout.
                ret (minutes, timeout)))))) (\<lambda>(minutes, timeout).
       bnd (assisted_shutdown env lifecycle minutes timeout (database_countdown_control env k)) (\<lambda>r.
         complete_shutdown_job env k r ''ASSISTED_SHUTDOWN'' False))"

definition execute_forced_shutdown_job :: "env \<Rightarrow> int \<Rightarrow> (world, unit) prog" where
  "execute_forced_shutdown_job env k =
     bnd (session_scope env (bnd (get_one_job k) (\<lambda>j.
            case parse_shutdown_kind (j_kind j) of
              None \<Rightarrow> raise ValueError
            | Some kind \<Rightarrow> bnd (required_int (j_result j) ''timeout_seconds'' 1 300) (\<lambda>timeout.
                ret (kind, timeout))))) (\<lambda>(kind, timeout).
       let sig = (if kind = FORCE_TERM then SIG_TERM else SIG_KILL) in
       bnd (forced_shutdown env sig timeout) (\<lambda>r.
         complete_shutdown_job env k r (''FORCED_SHUTDOWN_'' @ signal_value sig) True))"

definition fail_shutdown_job :: "env \<Rightarrow> int \<Rightarrow> (world, unit) prog" where
  "fail_shutdown_job env k =
     complete_shutdown_job env k
       \<lparr>sr_outcome = SHUTDOWN_FAILED, sr_online_players = None, sr_timed_out = False,
        sr_final_state = Some FAILURE, sr_failure = Some ''unexpected_failure''\<rparr> ''SHUTDOWN'' False"

record shutdown_job_view =
  sv_id :: int
  sv_requested_by_user_id :: "int option"
  sv_kind :: shutdown_job_kind
  sv_status :: job_status
  sv_progress :: int
  sv_step :: string
  sv_is_cancellable :: bool
  sv_remaining_seconds :: "int option"
  sv_timed_out :: "bool option"
  sv_final_state :: "string option"
  sv_failure :: "string option"

text \<open>\<open>isinstance(remaining, int)\<close> also accepts a bool, which is then shown as it is.\<close>

definition json_int_or_bool :: "json option \<Rightarrow> int option" where
  "json_int_or_bool v = (case v of Some (JInt n) \<Rightarrow> Some n | Some (JBool b) \<Rightarrow> Some (if b then 1 else 0)
                                 | _ \<Rightarrow> None)"

definition shutdown_job_view :: "job \<Rightarrow> shutdown_job_view option" where
  "shutdown_job_view j = (case parse_shutdown_kind (j_kind j) of
       None \<Rightarrow> None
     | Some kind \<Rightarrow>
         (let field = dict_get (dict_of (j_result j)) in Some
           \<lparr>sv_id = j_id j, sv_requested_by_user_id = j_requested_by_user_id j, sv_kind = kind,
            sv_status = j_status j, sv_progress = j_progress j, sv_step = j_step j,
            sv_is_cancellable = (j_is_cancellable j \<and> active_status (j_status j)),
            sv_remaining_seconds = json_int_or_bool (field ''remaining_seconds''),
            sv_timed_out = json_bool (field ''timed_out''),
            sv_final_state = json_str (field ''final_state''),
            sv_failure = json_str (field ''failure'')\<rparr>))"

section \<open>The assisted shutdown as a client of its interfaces\<close>

text \<open>What a countdown control may do: anything to the database, nothing to the services.\<close>

definition quiet :: "world \<Rightarrow> world \<Rightarrow> bool" where
  "quiet w w' \<longleftrightarrow> w_trace w' = w_trace w \<and> w_artifacts w' = w_artifacts w
     \<and> w_preventive w' = w_preventive w"

definition chat_event :: "event \<Rightarrow> bool" where
  "chat_event ev = (case ev of EvPlayers _ \<Rightarrow> True | EvAnnounce _ _ \<Rightarrow> True | _ \<Rightarrow> False)"

definition chatted :: "world \<Rightarrow> world \<Rightarrow> bool" where
  "chatted w v \<longleftrightarrow> (\<exists>fs. w_trace v = fs @ w_trace w \<and> list_all chat_event fs)
     \<and> w_artifacts v = w_artifacts w \<and> w_preventive v = w_preventive w"

text \<open>After the whole operation: talk with the players first, then the lifecycle operation.\<close>

definition shut :: "world \<Rightarrow> (event list \<Rightarrow> bool) \<Rightarrow> world \<Rightarrow> bool" where
  "shut w ok v \<longleftrightarrow> (\<exists>es fs. w_trace v = es @ fs @ w_trace w \<and> list_all lifecycle_event es
     \<and> list_all chat_event fs \<and> ok es)
     \<and> w_artifacts v = w_artifacts w \<and> w_preventive v = w_preventive w"

definition shutdown_ok :: "shutdown_result \<Rightarrow> event list \<Rightarrow> bool" where
  "shutdown_ok r es \<longleftrightarrow> (sr_outcome r = SHUTDOWN_SUCCEEDED \<longrightarrow> confirmed STOP es)
     \<and> (sr_outcome r = SHUTDOWN_CANCELLED \<longrightarrow> es = [])"

lemma chatted_refl: "chatted w w"
  by (simp add: chatted_def)

lemma chatted_quiet: "chatted w v \<Longrightarrow> quiet v u \<Longrightarrow> chatted w u"
  by (auto simp: chatted_def quiet_def)

lemma chatted_call: "chatted w v \<Longrightarrow> chat_event ev \<Longrightarrow> chatted w (after_call env ev v)"
  unfolding chatted_def by (auto intro: exI [of _ "ev # _"])

lemma chatted_shut: "chatted w v \<Longrightarrow> ok [] \<Longrightarrow> shut w ok v"
  unfolding chatted_def shut_def by (metis append_Nil list.pred_inject(1))

lemma keeps_try_rest: "keeps P m \<Longrightarrow> keeps P (try_rest m)"
  unfolding try_rest_def by (auto intro!: keeps_handle keeps_bnd keeps_ret keeps_if keeps_raise)

lemma keeps_online_player_count: "keeps (chatted w) (online_player_count env)"
  unfolding online_player_count_def by (rule keeps_call) (auto simp: chat_event_def intro: chatted_call)

lemma keeps_announce: "keeps (chatted w) (announce env m)"
  unfolding announce_def by (rule keeps_call) (auto simp: chat_event_def intro: chatted_call)

lemma keeps_sleep: "(\<And>v n c. P v \<Longrightarrow> P (v\<lparr>w_tick := n, w_clock := c\<rparr>)) \<Longrightarrow> keeps P (sleep env t)"
  by (simp add: keeps_def triple_def wp_simps)

locale countdown_contract =
  fixes ctl :: countdown_control
  assumes update_quiet: "wp (c_update ctl r t) (\<lambda>_. quiet w) (\<lambda>_. quiet w) w"
    and mark_quiet: "wp (c_mark_irreversible ctl) (\<lambda>_. quiet w) (\<lambda>_. quiet w) w"
begin

lemma keeps_update: "keeps (chatted w) (c_update ctl r t)"
  unfolding keeps_def
  by (rule tripleI) (rule wp_mono [OF update_quiet], auto intro: chatted_quiet)

lemma keeps_mark: "keeps (chatted w) (c_mark_irreversible ctl)"
  unfolding keeps_def
  by (rule tripleI) (rule wp_mono [OF mark_quiet], auto intro: chatted_quiet)

lemma keeps_countdown: "keeps (chatted w) (countdown env ctl players whole n)"
proof (induction n)
  case 0
  show ?case by (auto intro!: keeps_ret)
next
  case (Suc n)
  have "keeps (chatted w) (sleep env (seconds 1))"
    by (rule keeps_sleep) (simp add: chatted_def)
  with Suc show ?case
    by (auto intro!: keeps_bnd keeps_if keeps_andthen keeps_ret keeps_try_rest keeps_announce
        keeps_update)
qed

end

locale assisted_client = lifecycle_contract exec + countdown_contract ctl
  for exec :: lifecycle_executor and ctl :: countdown_control
begin

lemma stop_shut:
  "triple (chatted w) (exec STOP t)
     (\<lambda>r. shut w (\<lambda>es. lr_outcome r = LIFECYCLE_SUCCEEDED \<longrightarrow> confirmed STOP es))
     (\<lambda>_. shut w (\<lambda>_. True))"
proof (rule tripleI)
  fix v
  assume "chatted w v"
  then obtain fs where fs: "w_trace v = fs @ w_trace w" "list_all chat_event fs"
    "w_artifacts v = w_artifacts w" "w_preventive v = w_preventive w"
    by (auto simp: chatted_def)
  show "wp (exec STOP t) (\<lambda>r. shut w (\<lambda>es. lr_outcome r = LIFECYCLE_SUCCEEDED \<longrightarrow> confirmed STOP es))
      (\<lambda>_. shut w (\<lambda>_. True)) v"
    by (rule wp_mono [OF exec_done])
      (use fs in \<open>auto simp: lifecycle_done_def lifecycle_frame_def shut_def simp del: confirmed.simps\<close>)
qed

lemma assisted_shut:
  "wp (assisted_shutdown env exec minutes t ctl) (\<lambda>r. shut w (shutdown_ok r)) (\<lambda>_. shut w (\<lambda>_. True)) w"
proof -
  have keep: "triple (chatted w) m (\<lambda>_. chatted w) (\<lambda>_. shut w (\<lambda>_. True))"
    if "keeps (chatted w) m" for m :: "(world, 'b) prog"
    by (rule triple_conseq [OF keepsD [OF that]]) (auto intro: chatted_shut)
  have fin: "triple (chatted w) (ret r) (\<lambda>r. shut w (shutdown_ok r)) (\<lambda>_. shut w (\<lambda>_. True))"
    if "sr_outcome r \<noteq> SHUTDOWN_SUCCEEDED" for r
    by (rule triple_ret) (rule chatted_shut, use that in \<open>auto simp: shutdown_ok_def\<close>)
  have stop: "triple (chatted w) (bnd (exec STOP t) (\<lambda>r. ret
        \<lparr>sr_outcome = (if lr_outcome r = LIFECYCLE_SUCCEEDED then SHUTDOWN_SUCCEEDED else SHUTDOWN_FAILED),
         sr_online_players = Some players, sr_timed_out = lr_timed_out r,
         sr_final_state = Some (lr_final_state r),
         sr_failure = (if lr_outcome r = LIFECYCLE_SUCCEEDED then None else Some ''stop_failed'')\<rparr>))
      (\<lambda>r. shut w (shutdown_ok r)) (\<lambda>_. shut w (\<lambda>_. True))" for players
    by (rule triple_bnd [OF stop_shut], rule triple_ret)
      (auto simp: shut_def shutdown_ok_def simp del: confirmed.simps)
  have cancelled: "triple (chatted w) (ret (cancelled_result p)) (\<lambda>r. shut w (shutdown_ok r))
      (\<lambda>_. shut w (\<lambda>_. True))" for p by (rule fin) (simp add: cancelled_result_def)
  have failed: "triple (chatted w) (ret (communication_failed p)) (\<lambda>r. shut w (shutdown_ok r))
      (\<lambda>_. shut w (\<lambda>_. True))" for p by (rule fin) (simp add: communication_failed_def)
  have "triple (chatted w) (assisted_shutdown env exec minutes t ctl)
      (\<lambda>r. shut w (shutdown_ok r)) (\<lambda>_. shut w (\<lambda>_. True))"
    unfolding assisted_shutdown_def
    apply (rule triple_andthen [OF keep], rule keeps_require)
    apply (rule triple_bnd [OF keep])
     apply (intro keeps_try_rest keeps_bnd keeps_online_player_count keeps_andthen keeps_if
        keeps_announce keeps_ret)
    apply (rule triple_case_option, rule failed)
    apply (rule triple_bnd [OF keep], rule keeps_countdown)
    apply (rule triple_if, rule cancelled)
    apply (rule triple_bnd [OF keep], rule keeps_mark)
    apply (rule triple_if, rule cancelled)
    apply (rule triple_bnd [OF keep])
     apply (intro keeps_try_rest keeps_if keeps_announce keeps_ret)
    apply (rule triple_case_option, rule failed, rule stop)
    done
  then show ?thesis by (rule tripleD) (rule chatted_refl)
qed

end

lemma wp_scope_quiet: "wp (session_scope env tx) (\<lambda>_. quiet w) (\<lambda>_. quiet w) w"
  unfolding wp_session_scope Let_def
  by (rule wp_mono [OF wp_trivial]) (simp_all add: quiet_def)

interpretation database_countdown: countdown_contract "database_countdown_control env k"
  by unfold_locales (simp_all add: database_countdown_control_def wp_scope_quiet)

interpretation database_assisted: assisted_client "lifecycle_execute env" "database_countdown_control env' k"
  by unfold_locales

section \<open>The jobs\<close>

lemma valid_shutdown_actions [simp]:
  "valid_audit_action ''ASSISTED_SHUTDOWN''" "valid_audit_action ''SHUTDOWN''"
  "valid_audit_action ''ASSISTED_SHUTDOWN_REQUESTED''"
  "valid_audit_action ''ASSISTED_SHUTDOWN_CANCEL_REQUESTED''"
  "valid_audit_action ''ASSISTED_SHUTDOWN_EXECUTE_NOW_REQUESTED''"
  by code_simp+

lemma valid_FORCED_REQUESTED [simp]:
  "valid_audit_action (''FORCED_SHUTDOWN_'' @ signal_value sig @ ''_REQUESTED'')"
  by (cases sig) (simp_all only: signal_value.simps, code_simp+)

lemma valid_FORCED [simp]: "valid_audit_action (''FORCED_SHUTDOWN_'' @ signal_value sig)"
  by (cases sig) (simp_all only: signal_value.simps, code_simp+)

lemma wp_enqueue_discord [wp_simps]:
  "ty \<in> set SUPPORTED_DISCORD_EVENT_TYPES \<Longrightarrow> wp (enqueue_discord_notification ty k now) Q E d
     = Q () (d\<lparr>notifications := notifications d @
          [\<lparr>n_id = fresh_key n_id (notifications d), n_event_type = ty,
            n_channel = NOTIFICATION_CHANNEL_DISCORD, n_status = NOTIFICATION_STATUS_PENDING,
            n_created_at = now, n_updated_at = current_timestamp now, n_job_id = k,
            n_attempts = 0, n_next_attempt_at = None, n_delivered_at = None,
            n_last_error = None\<rparr>]\<rparr>)"
  by (simp add: enqueue_discord_notification_def wp_simps)

lemma wp_complete_shutdown_tx:
  "wp (complete_shutdown_tx k r action notify now)
     (\<lambda>_ d'. \<exists>j. find_job k d' = Some j \<and> j_status j = outcome_status (sr_outcome r)
        \<and> j_progress j = 100 \<and> j_finished_at j = Some now)
     (\<lambda>_ _. True) d"
proof (cases "find_job k d")
  case None
  then show ?thesis by (simp add: complete_shutdown_tx_def wp_simps)
next
  case (Some j)
  have "''FORCED_SHUTDOWN'' \<in> set SUPPORTED_DISCORD_EVENT_TYPES"
    by (simp add: SUPPORTED_DISCORD_EVENT_TYPES_def)
  then show ?thesis by (simp add: complete_shutdown_tx_def wp_simps Some)
qed

definition shutdown_job_done :: "int \<Rightarrow> world \<Rightarrow> world \<Rightarrow> bool" where
  "shutdown_job_done k w w' \<longleftrightarrow> (\<exists>j es fs. find_job k (w_db w') = Some j \<and> j_progress j = 100
     \<and> j_finished_at j \<noteq> None \<and> w_trace w' = es @ fs @ w_trace w \<and> list_all chat_event fs
     \<and> (j_status j = JOB_STATUS_SUCCEEDED \<and> confirmed STOP es
        \<or> j_status j = JOB_STATUS_CANCELLED \<and> es = [] \<or> j_status j = JOB_STATUS_FAILED))"

lemma shut_quiet: "shut v ok u \<Longrightarrow> quiet w v \<Longrightarrow> shut w ok u"
  by (simp add: shut_def quiet_def)

lemma shut_complete:
  assumes "shut w (shutdown_ok r) u"
  shows "wp (complete_shutdown_job env k r action notify) (\<lambda>_. shutdown_job_done k w) (\<lambda>_ _. True) u"
proof -
  from assms obtain es fs where "w_trace u = es @ fs @ w_trace w" "list_all chat_event fs" "shutdown_ok r es"
    by (auto simp: shut_def)
  note tr = this
  show ?thesis
    unfolding complete_shutdown_job_def wp_bnd wp_wall_now wp_session_scope Let_def
  proof (rule wp_mono [OF wp_complete_shutdown_tx])
    fix x :: unit and d'
    let ?now = "e_wall env (w_tick u)"
    assume "\<exists>j. find_job k d' = Some j \<and> j_status j = outcome_status (sr_outcome r)
        \<and> j_progress j = 100 \<and> j_finished_at j = Some ?now"
    then obtain j where "find_job k d' = Some j" "j_status j = outcome_status (sr_outcome r)"
      "j_progress j = 100" "j_finished_at j = Some ?now" by blast
    with tr show "shutdown_job_done k w (after_scope u d')"
      unfolding shutdown_job_done_def
      by (intro exI [of _ j] exI [of _ es] exI [of _ fs])
        (cases "sr_outcome r"; simp add: shutdown_ok_def del: confirmed.simps)
  qed simp
qed

lemma wp_execute_assisted_shutdown_job:
  "wp (execute_assisted_shutdown_job env k (lifecycle_execute env)) (\<lambda>_. shutdown_job_done k w) (\<lambda>_ _. True) w"
proof -
  have run: "wp (bnd (assisted_shutdown env (lifecycle_execute env) m t (database_countdown_control env k))
        (\<lambda>r. complete_shutdown_job env k r ''ASSISTED_SHUTDOWN'' False))
      (\<lambda>_. shutdown_job_done k w) (\<lambda>_ _. True) v" if "quiet w v" for v m t
    unfolding wp_bnd
    by (rule wp_mono [OF database_assisted.assisted_shut])
      (auto intro!: shut_complete shut_quiet [OF _ that])
  show ?thesis
    unfolding execute_assisted_shutdown_job_def wp_bnd [of "session_scope _ _"] wp_session_scope Let_def
    by (rule wp_mono [OF wp_trivial]) (auto intro!: run simp: quiet_def)
qed

text \<open>
  C11: when the execution of an assisted shutdown returns, its job is finished, and it is SUCCEEDED only
  with a confirmed stop (systemd accepted it, the server is OFFLINE and the port closed) that came
  after the players were told, and CANCELLED only when nothing was done to the server at all.
\<close>

theorem assisted_shutdown_job_safe:
  assumes "execute_assisted_shutdown_job env k (lifecycle_execute env) w = (Inr (), w')"
  shows "shutdown_job_done k w w'"
  using wp_InrD [OF wp_execute_assisted_shutdown_job assms] by simp

text \<open>
  C12: a request to cancel the shutdown and the point of no return exclude each other: once a request
  was accepted and its flag stands, marking the job irreversible answers CANCEL and changes nothing,
  and once the job was marked irreversible, no later request to cancel or to hurry is accepted.
\<close>

theorem cancel_or_irreversible:
  assumes "mark_irreversible_tx k d = (Inr r, d')"
  shows "(r = CANCEL \<longleftrightarrow> (\<exists>j. find_job k d = Some j \<and> j_cancel_requested j))
    \<and> (r = CANCEL \<longrightarrow> d' = d)
    \<and> (r \<noteq> CANCEL \<longrightarrow> request_shutdown_cancel k u owner t d' = (Inr False, d')
         \<and> request_shutdown_now k u owner t d' = (Inr False, d'))
    \<and> (\<forall>d0 d1. request_shutdown_cancel k u owner t d0 = (Inr True, d1) \<longrightarrow>
         (\<exists>j. find_job k d1 = Some j \<and> j_cancel_requested j))"
proof -
  have flag: "\<exists>j. find_job k d1 = Some j \<and> j_cancel_requested j"
    if "request_shutdown_cancel k u owner t d0 = (Inr True, d1)" for d0 d1
  proof (cases "find_job k d0")
    case None
    with that show ?thesis by (simp add: request_shutdown_cancel_def run_defs)
  next
    case (Some j0)
    have "wp (request_shutdown_cancel k u owner t)
        (\<lambda>b d1. b \<longrightarrow> (\<exists>j. find_job k d1 = Some j \<and> j_cancel_requested j)) (\<lambda>_ _. True) d0"
      using find_jobD [OF Some]
      by (simp add: request_shutdown_cancel_def wp_simps Let_def finished_def find_job_def row_get_put)
    from wp_InrD [OF this that] show ?thesis by simp
  qed
  show ?thesis
  proof (cases "find_job k d")
    case None
    with assms show ?thesis by (simp add: mark_irreversible_tx_def run_defs get_one_job_def)
  next
    case (Some j)
    with assms flag show ?thesis
      by (auto simp: mark_irreversible_tx_def run_defs get_one_job_def put_job_def Let_def
          request_shutdown_cancel_def request_shutdown_now_def cancellable_shutdown_def split: if_splits)
  qed
qed

section \<open>The forced shutdown\<close>

definition forced_result :: "lifecycle_result \<Rightarrow> shutdown_result" where
  "forced_result r = \<lparr>sr_outcome = (if lr_outcome r = LIFECYCLE_SUCCEEDED then SHUTDOWN_SUCCEEDED
       else SHUTDOWN_FAILED), sr_online_players = None, sr_timed_out = lr_timed_out r,
     sr_final_state = Some (lr_final_state r),
     sr_failure = (if lr_outcome r = LIFECYCLE_SUCCEEDED then None else Some ''signal_timeout'')\<rparr>"

lemma forced_poll_eq:
  "forced_poll env fuel deadline w
     = bnd (lifecycle_poll env fuel STOP deadline True) (\<lambda>r. ret (forced_result r)) w"
proof (induction fuel arbitrary: w)
  case 0
  show ?case by (simp add: run_defs)
next
  case (Suc fuel)
  have IH: "forced_poll env fuel deadline
      = bnd (lifecycle_poll env fuel STOP deadline True) (\<lambda>r. ret (forced_result r))"
    by (rule ext) (rule Suc.IH)
  show ?case
    by (simp add: IH run_defs reached_target_def forced_result_def POLL_INTERVAL_def Let_def
        split: prod.split sum.split)
qed

text \<open>
  C13: waiting for a signalled server is the waiting loop of a lifecycle STOP: with a fuel above the
  timeout the forced shutdown always returns, its SUCCEEDED means the signal was accepted and the
  server was last seen OFFLINE with its port closed, and its timeout comes after the given time.
\<close>

theorem forced_shutdown_confirmed:
  assumes "nat timeout_seconds < e_fuel env" and "0 \<le> timeout_seconds"
  shows "fst (forced_shutdown env sig timeout_seconds w) \<noteq> Inl Diverges
    \<and> (\<forall>r w'. forced_shutdown env sig timeout_seconds w = (Inr r, w') \<longrightarrow>
        (sr_outcome r = SHUTDOWN_SUCCEEDED \<longrightarrow> (\<exists>es. w_trace w'
           = EvPort False # EvHealth (Inr OFFLINE) # es @ EvSignal sig (Inr ()) # w_trace w))
        \<and> (sr_timed_out r \<longrightarrow> w_clock w + seconds timeout_seconds \<le> w_clock w'))"
proof -
  let ?Q = "\<lambda>r w'. (sr_outcome r = SHUTDOWN_SUCCEEDED \<longrightarrow> (\<exists>es. w_trace w'
           = EvPort False # EvHealth (Inr OFFLINE) # es @ EvSignal sig (Inr ()) # w_trace w))
        \<and> (sr_timed_out r \<longrightarrow> w_clock w + seconds timeout_seconds \<le> w_clock w')"
  have poll: "wp (forced_poll env (e_fuel env) (t + seconds timeout_seconds)) ?Q (\<lambda>e _. e \<noteq> Diverges) v"
    if v: "w_trace v = EvSignal sig (Inr ()) # w_trace w" "w_clock v = t" "w_clock w \<le> t" for v t
  proof -
    have eq: "forced_poll env (e_fuel env) (t + seconds timeout_seconds)
        = bnd (lifecycle_poll env (e_fuel env) STOP (t + seconds timeout_seconds) True)
            (\<lambda>r. ret (forced_result r))"
      by (rule ext) (rule forced_poll_eq)
    have "t + seconds timeout_seconds \<le> w_clock v + int (nat timeout_seconds) * POLL_INTERVAL"
      using v(2) assms(2) by (simp add: POLL_INTERVAL_def seconds_def)
    from wp_conj [OF wp_lifecycle_poll [of env "e_fuel env" STOP "t + seconds timeout_seconds" True v]
        wp_lifecycle_poll_ends [OF this assms(1), of env STOP True]]
    show ?thesis
      unfolding eq wp_bnd
      by (rule wp_mono)
        (use v in \<open>auto simp: wp_simps forced_result_def polled_def lifecycle_frame_def split: if_splits\<close>)
  qed
  have "wp (forced_shutdown env sig timeout_seconds) ?Q (\<lambda>e _. e \<noteq> Diverges) w"
  proof (cases "answer (e_signal env (w_tick w))")
    case (Inl e)
    then have "e \<noteq> Diverges" using answer_Inl [of "e_signal env (w_tick w)"] by auto
    then show ?thesis by (simp add: forced_shutdown_def send_signal_def wp_simps Inl)
  next
    case (Inr u)
    then show ?thesis
      by (simp add: forced_shutdown_def send_signal_def wp_simps Let_def) (rule poll, simp_all)
  qed
  then show ?thesis
    by (cases "forced_shutdown env sig timeout_seconds w";
        cases "fst (forced_shutdown env sig timeout_seconds w)") (auto simp: wp_def)
qed

section \<open>The producers\<close>

lemma wp_ensure_no_active [wp_simps]:
  "wp ensure_no_active_palworld_job Q E d =
     (if active_with_key LIFECYCLE_COORDINATION_KEY d then E ShutdownJobConflictError d else Q () d)"
  by (simp add: ensure_no_active_palworld_job_def wp_simps)

lemma wp_enqueue_assisted_shutdown:
  "wp (enqueue_assisted_shutdown m u now)
     (\<lambda>j d'. appended LIFECYCLE_COORDINATION_KEY j d d' \<and> j_kind j = shutdown_kind_value ASSISTED
        \<and> j_is_cancellable j = (0 < m)) (\<lambda>_ _. True) d"
  unfolding enqueue_assisted_shutdown_def wp_andthen wp_require wp_ensure_no_active wp_bnd
  by (auto simp: wp_simps Let_def intro!: wp_mono [OF lifecycle_timeout_bounds])

lemma wp_enqueue_forced_shutdown:
  "wp (enqueue_forced_shutdown source sig u now)
     (\<lambda>j d'. appended LIFECYCLE_COORDINATION_KEY j d d' \<and> j_kind j = shutdown_kind_value (forced_kind sig)
        \<and> valid_forced_source sig (find_job source d)) (\<lambda>_ _. True) d"
  unfolding enqueue_forced_shutdown_def wp_andthen wp_require wp_ensure_no_active wp_bnd wp_reads
  by (auto simp: wp_simps Let_def intro!: wp_mono [OF lifecycle_timeout_bounds])

interpretation assisted_producer: job_producer
  "\<lambda>(m, u, now). enqueue_assisted_shutdown m u now" LIFECYCLE_COORDINATION_KEY
  by unfold_locales (auto split: prod.split intro!: wp_mono [OF wp_enqueue_assisted_shutdown])

interpretation forced_producer: job_producer
  "\<lambda>(source, sig, u, now). enqueue_forced_shutdown source sig u now" LIFECYCLE_COORDINATION_KEY
  by unfold_locales (auto split: prod.split intro!: wp_mono [OF wp_enqueue_forced_shutdown])

text \<open>
  C14: a signal is only ever sent as an escalation: a SIGKILL job is accepted only for a failed SIGTERM
  job, and a SIGTERM job only for a failed stop, or an assisted shutdown that failed in its stop, and
  in both cases only while no other action of the server is active.
\<close>

theorem forced_shutdown_escalates:
  assumes "enqueue_forced_shutdown source sig u now d = (Inr j, d')"
  shows "\<not> active_with_key LIFECYCLE_COORDINATION_KEY d \<and> find_job (j_id j) d' = Some j
    \<and> (\<exists>s. find_job source d = Some s \<and> j_status s = JOB_STATUS_FAILED
         \<and> (if sig = SIG_KILL then j_kind s = ''PALWORLD_FORCE_SIGTERM'' \<and> j_kind j = ''PALWORLD_FORCE_SIGKILL''
            else j_kind j = ''PALWORLD_FORCE_SIGTERM'' \<and> (j_kind s = ''PALWORLD_STOP''
              \<or> j_kind s = ''PALWORLD_ASSISTED_SHUTDOWN''
                \<and> dict_get (dict_of (j_result s)) ''failure'' = Some (JStr ''stop_failed''))))"
proof -
  have "appended LIFECYCLE_COORDINATION_KEY j d d'" "j_kind j = shutdown_kind_value (forced_kind sig)"
    "valid_forced_source sig (find_job source d)"
    using wp_InrD [OF wp_enqueue_forced_shutdown assms] by simp_all
  then show ?thesis
    using appended_find [of LIFECYCLE_COORDINATION_KEY j d d']
    by (cases sig) (auto simp: valid_forced_source_def Let_def forced_kind_def appended_def
        split: option.splits if_splits)
qed

section \<open>Concrete runs\<close>

definition assisted_job :: job where
  "assisted_job = (new_job ''PALWORLD_ASSISTED_SHUTDOWN'' True True LIFECYCLE_COORDINATION_KEY (Some 1)
     [(''countdown_minutes'', JInt 0), (''stop_timeout_seconds'', JInt 60)] 0 1)
     \<lparr>j_status := JOB_STATUS_RUNNING\<rparr>"

theorem assisted_shutdown_job_safe_witness:
  "shutdown_job_done 1 (start_world (empty_db\<lparr>jobs := [assisted_job]\<rparr>))
     (snd (execute_assisted_shutdown_job (calm_env\<lparr>e_health := \<lambda>_. Inr OFFLINE\<rparr>) 1
        (lifecycle_execute (calm_env\<lparr>e_health := \<lambda>_. Inr OFFLINE\<rparr>))
        (start_world (empty_db\<lparr>jobs := [assisted_job]\<rparr>))))"
proof (rule assisted_shutdown_job_safe)
  let ?env = "calm_env\<lparr>e_health := \<lambda>_. Inr OFFLINE\<rparr>"
  let ?run = "execute_assisted_shutdown_job ?env 1 (lifecycle_execute ?env)
    (start_world (empty_db\<lparr>jobs := [assisted_job]\<rparr>))"
  have "fst ?run = Inr ()" by code_simp
  then show "?run = (Inr (), snd ?run)" by (metis prod.collapse)
qed

theorem cancel_or_irreversible_witness:
  "fst (request_shutdown_cancel 1 1 None 5
      (snd (mark_irreversible_tx 1 (empty_db\<lparr>jobs := [assisted_job]\<rparr>)))) = Inr False"
proof -
  let ?run = "mark_irreversible_tx 1 (empty_db\<lparr>jobs := [assisted_job]\<rparr>)"
  have "fst ?run = Inr CONTINUE" by code_simp
  then have "?run = (Inr CONTINUE, snd ?run)" by (metis prod.collapse)
  from cancel_or_irreversible [OF this, of 1 None 5] show ?thesis by simp
qed

theorem forced_shutdown_confirmed_witness:
  "fst (forced_shutdown calm_env SIG_TERM 1 (start_world empty_db)) \<noteq> Inl Diverges"
  using forced_shutdown_confirmed [of 1 calm_env SIG_TERM "start_world empty_db"]
  by (simp add: calm_env_def)

definition failed_term_job :: job where
  "failed_term_job = (new_job ''PALWORLD_FORCE_SIGTERM'' False True LIFECYCLE_COORDINATION_KEY (Some 1)
     [] 0 1)\<lparr>j_status := JOB_STATUS_FAILED\<rparr>"

theorem forced_shutdown_escalates_witness:
  "\<exists>s. find_job 1 (empty_db\<lparr>jobs := [failed_term_job]\<rparr>) = Some s \<and> j_status s = JOB_STATUS_FAILED"
proof -
  let ?run = "enqueue_forced_shutdown 1 SIG_KILL 1 0 (empty_db\<lparr>jobs := [failed_term_job]\<rparr>)"
  have "(case fst ?run of Inr j \<Rightarrow> j_id j = 2 | Inl e \<Rightarrow> False)" by code_simp
  then obtain j where "?run = (Inr j, snd ?run)"
    by (cases ?run) (auto split: sum.splits)
  from forced_shutdown_escalates [OF this] show ?thesis by blast
qed

end
