(* ===== verification/HostPower.thy ===== *)
theory HostPower
  imports Shutdown
begin

text \<open>
  Rebooting and powering off the host (\<open>app/host_power/jobs.py\<close>): the job checks the Palworld server,
  stops it through the assisted shutdown when it is not OFFLINE, and only then asks for the action.
\<close>

section \<open>Queueing\<close>

definition HOST_POWER_COORDINATION_KEY :: string where
  "HOST_POWER_COORDINATION_KEY = ''HOST_POWER''"

primrec power_value :: "host_power_action \<Rightarrow> string" where
  "power_value REBOOT = ''REBOOT''"
| "power_value SHUTDOWN = ''SHUTDOWN''"

primrec HOST_POWER_CONFIRMATIONS :: "host_power_action \<Rightarrow> string" where
  "HOST_POWER_CONFIRMATIONS REBOOT = ''REINICIAR UBUNTU''"
| "HOST_POWER_CONFIRMATIONS SHUTDOWN = ''DESLIGAR UBUNTU''"

definition host_power_job_kind :: "host_power_action \<Rightarrow> string" where
  "host_power_job_kind action = ''HOST_'' @ power_value action"

definition HOST_POWER_JOB_KINDS :: "string list" where
  "HOST_POWER_JOB_KINDS = map host_power_job_kind [REBOOT, SHUTDOWN]"

definition parse_host_power_job_kind :: "string \<Rightarrow> host_power_action option" where
  "parse_host_power_job_kind kind = List.find (\<lambda>a. host_power_job_kind a = kind) [REBOOT, SHUTDOWN]"

definition enqueue_host_power_job :: "host_power_action \<Rightarrow> string \<Rightarrow> int \<Rightarrow> int \<Rightarrow> (db, job) prog" where
  "enqueue_host_power_job action confirmation user_id now =
     andthen (require (confirmation = HOST_POWER_CONFIRMATIONS action) HostPowerRequestError)
       (bnd (reads (active_with_key HOST_POWER_COORDINATION_KEY)) (\<lambda>active.
         andthen (require (\<not> active) HostPowerJobConflictError)
           (bnd (lifecycle_timeout STOP) (\<lambda>timeout_seconds.
             bnd (add_job HostPowerJobConflictError
                    (new_job (host_power_job_kind action) False True HOST_POWER_COORDINATION_KEY None
                       [(''stop_timeout_seconds'', JInt timeout_seconds)] now)) (\<lambda>job.
               andthen (record_audit_event now
                   (admin_event (''HOST_'' @ power_value action @ ''_REQUESTED'') AUDIT_RESULT_SUCCESS
                      (Some user_id) (Some (j_id job)) (Some ''Ubuntu'') None))
                 (ret job))))))"

definition latest_host_power_job :: "db \<Rightarrow> job option" where
  "latest_host_power_job d = limit1 (order_by (\<lambda>j. (- j_created_at j, - j_id j))
     (filter (\<lambda>j. j_kind j \<in> set HOST_POWER_JOB_KINDS) (jobs d)))"

section \<open>Executing the job\<close>

definition immediate_shutdown_control :: countdown_control where
  "immediate_shutdown_control = \<lparr>c_update = (\<lambda>_ _. ret CONTINUE), c_mark_irreversible = ret CONTINUE\<rparr>"

definition host_power_stop_timeout :: "job \<Rightarrow> int option" where
  "host_power_stop_timeout j = int_within (dict_get (dict_of (j_result j)) ''stop_timeout_seconds'') 1 300"

definition host_power_details ::
  "health_state option \<Rightarrow> string \<Rightarrow> bool \<Rightarrow> string option \<Rightarrow> dict" where
  "host_power_details initial_state handling requested failure =
     [(''palworld_initial_state'', state_json initial_state), (''palworld_handling'', JStr handling),
      (''host_command_requested'', JBool requested), (''failure'', jopt_str failure)]"

definition complete_host_power_tx ::
  "int \<Rightarrow> host_power_action \<Rightarrow> bool \<Rightarrow> dict \<Rightarrow> int \<Rightarrow> (db, unit) prog" where
  "complete_host_power_tx k action succeeded details now =
     andthen (update_job k (\<lambda>j. finished
          (if succeeded then JOB_STATUS_SUCCEEDED else JOB_STATUS_FAILED)
          (if succeeded then ''COMPLETED'' else ''FAILED'') now
          (dict_merge (dict_of (j_result j)) details) j))
       (record_audit_event now
          (system_event (''HOST_'' @ power_value action)
             (if succeeded then AUDIT_RESULT_SUCCESS else AUDIT_RESULT_FAILURE) k (Some ''Ubuntu'')
             (Some details)))"

definition complete_host_power ::
  "env \<Rightarrow> int \<Rightarrow> host_power_action \<Rightarrow> bool \<Rightarrow> dict \<Rightarrow> (world, unit) prog" where
  "complete_host_power env k action succeeded details =
     bnd (wall_now env) (\<lambda>now. session_scope env (complete_host_power_tx k action succeeded details now))"

definition start_host_power_tx :: "int \<Rightarrow> (db, host_power_action \<times> int) prog" where
  "start_host_power_tx k =
     bnd (get_one_job k) (\<lambda>j.
       andthen (require (j_status j = JOB_STATUS_RUNNING) ValueError)
         (case parse_host_power_job_kind (j_kind j) of
            None \<Rightarrow> raise ValueError
          | Some action \<Rightarrow>
              (case host_power_stop_timeout j of
                 None \<Rightarrow> raise ValueError
               | Some timeout_seconds \<Rightarrow>
                   andthen (put_job (j\<lparr>j_step := ''CHECKING_PALWORLD'', j_progress := 10\<rparr>))
                     (ret (action, timeout_seconds)))))"

definition request_host_power :: "env \<Rightarrow> host_power_action \<Rightarrow> (world, unit) prog" where
  "request_host_power env action = call env (e_host_power env) (EvHostPower action)"

text \<open>The end of \<open>execute\<close>, once the server is known to be down.\<close>

definition finish_host_power ::
  "env \<Rightarrow> int \<Rightarrow> host_power_action \<Rightarrow> health_state \<Rightarrow> string \<Rightarrow> (world, unit) prog" where
  "finish_host_power env k action initial_state handling =
     andthen (session_scope env (update_job k (\<lambda>j. j\<lparr>j_step := ''REQUESTING_HOST_POWER'',
                j_progress := 90, j_is_cancellable := False\<rparr>)))
       (bnd (handle (andthen (request_host_power env action) (ret True))
               (\<lambda>e. if e = HostPowerControlError then ret False else raise e)) (\<lambda>requested.
         if \<not> requested
         then complete_host_power env k action False
                (host_power_details (Some initial_state) handling False (Some ''host_power_request_failed''))
         else complete_host_power env k action True
                (host_power_details (Some initial_state) handling True None)))"

definition execute_host_power_job :: "env \<Rightarrow> int \<Rightarrow> lifecycle_executor \<Rightarrow> (world, unit) prog" where
  "execute_host_power_job env k lifecycle =
     bnd (session_scope env (start_host_power_tx k)) (\<lambda>(action, timeout_seconds).
       bnd (health_check env) (\<lambda>initial_state.
         if initial_state = OFFLINE then finish_host_power env k action initial_state ''already_offline''
         else andthen (session_scope env (update_job k (\<lambda>j. j\<lparr>j_step := ''STOPPING_PALWORLD'',
                          j_progress := 30\<rparr>)))
           (bnd (assisted_shutdown env lifecycle 0 timeout_seconds immediate_shutdown_control) (\<lambda>r.
             if sr_outcome r \<noteq> SHUTDOWN_SUCCEEDED
             then complete_host_power env k action False
                    (host_power_details (Some initial_state) ''failed'' False
                       (Some ''palworld_shutdown_failed''))
             else finish_host_power env k action initial_state ''stopped''))))"

definition parse_health_value :: "string \<Rightarrow> health_state option" where
  "parse_health_value s =
     List.find (\<lambda>h. health_value h = s) [ONLINE, STARTING, DEGRADED, OFFLINE, FAILURE]"

definition fail_unexpected_host_power :: "env \<Rightarrow> int \<Rightarrow> (world, unit) prog" where
  "fail_unexpected_host_power env k =
     bnd (session_scope env (bnd (get_one_job k) (\<lambda>j.
            case parse_host_power_job_kind (j_kind j) of
              None \<Rightarrow> raise ValueError
            | Some action \<Rightarrow> ret (action,
                (case json_str (dict_get (dict_of (j_result j)) ''palworld_initial_state'') of
                   None \<Rightarrow> None | Some s \<Rightarrow> parse_health_value s))))) (\<lambda>(action, initial_state).
       complete_host_power env k action False
         (host_power_details initial_state ''unknown'' False (Some ''unexpected_failure'')))"

record host_power_job_view =
  hv_id :: int
  hv_action :: host_power_action
  hv_status :: job_status
  hv_progress :: int
  hv_step :: string
  hv_failure :: "string option"
  hv_palworld_initial_state :: "string option"
  hv_host_command_requested :: bool

definition host_power_job_view :: "job \<Rightarrow> host_power_job_view option" where
  "host_power_job_view j = (case parse_host_power_job_kind (j_kind j) of
       None \<Rightarrow> None
     | Some action \<Rightarrow> (let field = dict_get (dict_of (j_result j)) in Some
         \<lparr>hv_id = j_id j, hv_action = action, hv_status = j_status j, hv_progress = j_progress j,
          hv_step = j_step j, hv_failure = json_str (field ''failure''),
          hv_palworld_initial_state = json_str (field ''palworld_initial_state''),
          hv_host_command_requested = (json_bool (field ''host_command_requested'') = Some True)\<rparr>))"

section \<open>The host only goes down after the server\<close>

interpretation immediate_countdown: countdown_contract immediate_shutdown_control
  by unfold_locales (simp_all add: immediate_shutdown_control_def wp_ret quiet_def)

interpretation immediate_assisted: assisted_client "lifecycle_execute env" immediate_shutdown_control
  by unfold_locales

definition no_power :: "event \<Rightarrow> bool" where
  "no_power ev = (case ev of EvHostPower _ _ \<Rightarrow> False | _ \<Rightarrow> True)"

definition server_off :: "event list \<Rightarrow> bool" where
  "server_off es \<longleftrightarrow> (\<exists>rest. es = EvHealth (Inr OFFLINE) # rest
     \<or> es = EvPort False # EvHealth (Inr OFFLINE) # rest)"

definition not_requested :: "event list \<Rightarrow> bool" where
  "not_requested es = list_all no_power es"

definition may_request :: "event list \<Rightarrow> bool" where
  "may_request es \<longleftrightarrow> list_all no_power es \<and> server_off es"

definition requested_safely :: "event list \<Rightarrow> bool" where
  "requested_safely es \<longleftrightarrow> list_all no_power es
     \<or> (\<exists>a r rest. es = EvHostPower a r # rest \<and> may_request rest)"

lemma keeps_complete_host_power: "keeps (at_phase tr P) (complete_host_power env k action ok details)"
  unfolding complete_host_power_def by (intro keeps_bnd keeps_wall_now keeps_at_phase_scope)

lemma finish_host_power_safe:
  "triple (at_phase tr may_request) (finish_host_power env k action s h)
     (\<lambda>_. at_phase tr requested_safely) (\<lambda>_. at_phase tr requested_safely)"
proof -
  let ?S = "\<lambda>_. at_phase tr requested_safely"
  have stay: "may_request es \<Longrightarrow> requested_safely es" for es
    by (simp add: may_request_def requested_safely_def)
  have req: "triple (at_phase tr may_request)
      (handle (andthen (request_host_power env action) (ret True))
        (\<lambda>e. if e = HostPowerControlError then ret False else raise e)) (\<lambda>_. at_phase tr requested_safely) ?S"
  proof (rule triple_handle [where R = ?S])
    show "triple (at_phase tr may_request) (andthen (request_host_power env action) (ret True))
        (\<lambda>_. at_phase tr requested_safely) ?S"
      unfolding request_host_power_def
      by (rule triple_andthen [where R = "at_phase tr requested_safely"], rule triple_call)
        (auto intro!: triple_ret at_phase_call [of tr may_request] simp: requested_safely_def)
  qed (auto intro!: triple_if triple_ret triple_raise)
  show ?thesis
    unfolding finish_host_power_def
    by (rule triple_andthen [OF keeps_weaken [OF keeps_at_phase_scope] triple_bnd [OF req]])
      (auto intro: at_phase_mono stay triple_if keepsD [OF keeps_complete_host_power])
qed

lemma shut_phase:
  assumes "shut v ok u" and "at_phase tr not_requested v"
  shows "at_phase tr not_requested u"
    and "(\<And>es. ok es \<Longrightarrow> confirmed STOP es) \<Longrightarrow> at_phase tr may_request u"
proof -
  from assms(1) obtain es fs where u: "w_trace u = es @ fs @ w_trace v" and ev: "list_all lifecycle_event es"
    "list_all chat_event fs" and ok: "ok es" by (auto simp: shut_def)
  have "list_all no_power es" "list_all no_power fs"
    using ev by (auto simp: list_all_iff no_power_def lifecycle_event_def chat_event_def split: event.splits)
  then show now: "at_phase tr not_requested u"
    using u assms(2) by (auto simp: at_phase_def not_requested_def)
  assume "\<And>es. ok es \<Longrightarrow> confirmed STOP es"
  then obtain rest where "es = EvPort False # EvHealth (Inr OFFLINE) # rest" using ok by auto
  then show "at_phase tr may_request u"
    using now u assms(2) by (auto simp: at_phase_def not_requested_def may_request_def server_off_def)
qed

lemma execute_host_power_safe:
  "triple (at_phase tr not_requested) (execute_host_power_job env k (lifecycle_execute env))
     (\<lambda>_. at_phase tr requested_safely) (\<lambda>_. at_phase tr requested_safely)"
proof -
  let ?S = "\<lambda>_. at_phase tr requested_safely"
  have stay: "at_phase tr not_requested w \<Longrightarrow> at_phase tr requested_safely w" for w
    by (erule at_phase_mono) (simp add: not_requested_def requested_safely_def)
  have keep: "triple (at_phase tr not_requested) (session_scope env tx) (\<lambda>_. at_phase tr not_requested) ?S"
    for tx :: "(db, 'b) prog"
    by (rule keeps_weaken [OF keeps_at_phase_scope]) (rule stay)
  have end_failed: "triple (at_phase tr not_requested) (complete_host_power env k a ok d) ?S ?S" for a ok d
    by (rule keeps_weaken_both [OF keeps_complete_host_power]) (rule stay)
  have stop: "triple (at_phase tr not_requested)
      (assisted_shutdown env (lifecycle_execute env) 0 t immediate_shutdown_control)
      (\<lambda>r w. at_phase tr not_requested w
         \<and> (sr_outcome r = SHUTDOWN_SUCCEEDED \<longrightarrow> at_phase tr may_request w)) ?S" for t
    by (rule tripleI, rule wp_mono [OF immediate_assisted.assisted_shut])
      (auto intro: stay shut_phase simp: shutdown_ok_def)
  have check: "triple (at_phase tr not_requested) (health_check env)
      (\<lambda>s w. at_phase tr not_requested w \<and> (s = OFFLINE \<longrightarrow> at_phase tr may_request w)) ?S"
    unfolding health_check_def
    by (rule triple_call)
      (auto intro!: at_phase_call [of tr not_requested] stay
        simp: not_requested_def may_request_def server_off_def no_power_def)
  have fin: "triple (\<lambda>w. at_phase tr not_requested w \<and> (b \<longrightarrow> at_phase tr may_request w))
      (finish_host_power env k a s h) ?S ?S" if b for b a s h
    by (rule triple_conseq [OF finish_host_power_safe]) (use that in auto)
  have rest: "triple (at_phase tr not_requested)
      (bnd (assisted_shutdown env (lifecycle_execute env) 0 t immediate_shutdown_control) (\<lambda>r.
         if sr_outcome r \<noteq> SHUTDOWN_SUCCEEDED
         then complete_host_power env k a False (host_power_details (Some s) ''failed'' False
                (Some ''palworld_shutdown_failed''))
         else finish_host_power env k a s ''stopped'')) ?S ?S" for t a s
    by (rule triple_bnd [OF stop], rule triple_if, rule triple_conseq [OF end_failed], erule conjunct1,
        assumption, assumption, rule fin, simp)
  have main: "triple (at_phase tr not_requested) (case x of (action, timeout_seconds) \<Rightarrow>
       bnd (health_check env) (\<lambda>initial_state.
         if initial_state = OFFLINE then finish_host_power env k action initial_state ''already_offline''
         else andthen (session_scope env (update_job k (\<lambda>j. j\<lparr>j_step := ''STOPPING_PALWORLD'',
                          j_progress := 30\<rparr>)))
           (bnd (assisted_shutdown env (lifecycle_execute env) 0 timeout_seconds immediate_shutdown_control) (\<lambda>r.
             if sr_outcome r \<noteq> SHUTDOWN_SUCCEEDED
             then complete_host_power env k action False
                    (host_power_details (Some initial_state) ''failed'' False
                       (Some ''palworld_shutdown_failed''))
             else finish_host_power env k action initial_state ''stopped'')))) ?S ?S" for x
    apply (cases x, simp only: prod.case)
    apply (rule triple_bnd [OF check], rule triple_if, erule fin)
    apply (rule triple_conseq [where P = "at_phase tr not_requested", OF triple_andthen [OF keep rest]])
      apply auto
    done
  show ?thesis
    unfolding execute_host_power_job_def by (rule triple_bnd [OF keep main])
qed

text \<open>
  C15: the host is asked to reboot or to power off at most once per job, as the job's last action on a
  service, and only right after the Palworld server was seen OFFLINE, or was stopped with the stop
  confirmed (OFFLINE, port closed). This holds however the execution ends, errors included.
\<close>

theorem host_power_after_server:
  "\<exists>es. w_trace (snd (execute_host_power_job env k (lifecycle_execute env) w)) = es @ w_trace w
     \<and> (list_all no_power es \<or> (\<exists>a r rest. es = EvHostPower a r # rest \<and> list_all no_power rest
          \<and> server_off rest))"
proof -
  have "at_phase (w_trace w) not_requested w" by (simp add: at_phase_def not_requested_def)
  from tripleD [OF execute_host_power_safe this]
  have "at_phase (w_trace w) requested_safely (snd (execute_host_power_job env k (lifecycle_execute env) w))"
    by (simp add: wp_snd)
  then show ?thesis by (auto simp: at_phase_def requested_safely_def may_request_def)
qed

section \<open>The producer\<close>

lemma valid_HOST_REQUESTED [simp]: "valid_audit_action (''HOST_'' @ power_value a @ ''_REQUESTED'')"
  by (cases a) (simp_all only: power_value.simps, code_simp+)

lemma valid_HOST [simp]: "valid_audit_action (''HOST_'' @ power_value a)"
  by (cases a) (simp_all only: power_value.simps, code_simp+)

lemma wp_enqueue_host_power_job:
  "wp (enqueue_host_power_job action confirmation u now)
     (\<lambda>j d'. appended HOST_POWER_COORDINATION_KEY j d d' \<and> j_kind j = host_power_job_kind action
        \<and> j_requires_maintenance_lock j \<and> (\<exists>n. host_power_stop_timeout j = Some n)
        \<and> confirmation = HOST_POWER_CONFIRMATIONS action) (\<lambda>_ _. True) d"
  unfolding enqueue_host_power_job_def wp_andthen wp_require wp_bnd wp_reads
  by (auto simp: wp_simps Let_def host_power_stop_timeout_def dict_get_def dict_of_def maximum_timeout_def
      intro!: wp_mono [OF lifecycle_timeout_bounds])

interpretation host_power_producer: job_producer
  "\<lambda>(action, confirmation, u, now). enqueue_host_power_job action confirmation u now"
  HOST_POWER_COORDINATION_KEY
  by unfold_locales (auto split: prod.split intro!: wp_mono [OF wp_enqueue_host_power_job])

end
