(* ===== verification/Calendar.thy ===== *)
theory Calendar
  imports Store
begin

text \<open>
  The parts of Python's \<open>datetime\<close> the backups use: the civil date and time of a point in time, a
  number of microseconds since 1970-01-01, their texts, and \<open>time.fromisoformat\<close>.
\<close>

section \<open>The civil date\<close>

definition civil_from_days :: "int \<Rightarrow> int \<times> int \<times> int" where
  "civil_from_days z =
     (let z = z + 719468; era = z div 146097; doe = z mod 146097;
          yoe = (doe - doe div 1460 + doe div 36524 - doe div 146096) div 365;
          doy = doe - (365 * yoe + yoe div 4 - yoe div 100);
          mp = (5 * doy + 2) div 153; day = doy - (153 * mp + 2) div 5 + 1;
          month = (if mp < 10 then mp + 3 else mp - 9)
      in (yoe + era * 400 + (if month \<le> 2 then 1 else 0), month, day))"

definition microseconds_per_day :: int where
  "microseconds_per_day = 86400000000"

definition day_number :: "int \<Rightarrow> int" where
  "day_number t = t div microseconds_per_day"

definition time_of_day :: "int \<Rightarrow> int" where
  "time_of_day t = t mod microseconds_per_day"

lemma civil_examples:
  "civil_from_days 0 = (1970, 1, 1)" "civil_from_days 11016 = (2000, 2, 29)"
  "civil_from_days 11017 = (2000, 3, 1)" "civil_from_days 20453 = (2025, 12, 31)"
  by code_simp+

section \<open>Texts of dates and times\<close>

text \<open>A non-negative number in a fixed width, its last digit first in the recursion.\<close>

primrec padded :: "nat \<Rightarrow> int \<Rightarrow> string" where
  "padded 0 n = []"
| "padded (Suc w) n = padded w (n div 10) @ [char_of (48 + nat (n mod 10))]"

lemma length_padded [simp]: "length (padded w n) = w"
  by (induction w arbitrary: n) auto

lemma code_char_of [simp]: "n < 256 \<Longrightarrow> code (char_of n) = n"
  by (simp add: code_def)

lemma padded_digits: "list_all is_digit (padded w n)"
proof (induction w arbitrary: n)
  case (Suc w)
  have "nat (n mod 10) < 10" by (simp add: nat_less_iff)
  then show ?case using Suc.IH [of "n div 10"] by (simp add: is_digit_def)
qed simp

text \<open>\<open>date.isoformat()\<close> and \<open>strftime('%Y%m%dT%H%M%S%fZ')\<close>.\<close>

definition date_isoformat :: "int \<Rightarrow> string" where
  "date_isoformat t = (case civil_from_days (day_number t) of (y, m, d) \<Rightarrow>
     padded 4 y @ ''-'' @ padded 2 m @ ''-'' @ padded 2 d)"

definition compact_stamp :: "int \<Rightarrow> string" where
  "compact_stamp t = (case civil_from_days (day_number t) of (y, m, d) \<Rightarrow>
     (let s = time_of_day t div 1000000
      in padded 4 y @ padded 2 m @ padded 2 d @ ''T'' @ padded 2 (s div 3600) @ padded 2 (s div 60 mod 60)
         @ padded 2 (s mod 60) @ padded 6 (time_of_day t mod 1000000) @ ''Z''))"

text \<open>
  \<open>time.fromisoformat\<close>, as hours, minutes, seconds and microseconds: an optional T, the extended or the
  basic format, and a fraction of which six digits count. A text with an offset is None here: the
  caller refuses it with the same error as a malformed one.
\<close>

definition time_parts :: "string \<Rightarrow> string list option" where
  "time_parts s = (case s of
       [a, b] \<Rightarrow> Some [[a, b]]
     | [a, b, c, d] \<Rightarrow> Some [[a, b], [c, d]]
     | [a, b, x, c, d] \<Rightarrow> if x = CHR '':'' then Some [[a, b], [c, d]] else None
     | [a, b, c, d, e, f] \<Rightarrow> Some [[a, b], [c, d], [e, f]]
     | [a, b, x, c, d, y, e, f] \<Rightarrow>
         if x = CHR '':'' \<and> y = CHR '':'' then Some [[a, b], [c, d], [e, f]] else None
     | _ \<Rightarrow> None)"

definition is_fraction_mark :: "char \<Rightarrow> bool" where
  "is_fraction_mark c = (c = CHR ''.'' \<or> c = CHR '','')"

definition fraction_micros :: "string \<Rightarrow> int option" where
  "fraction_micros f = (if f \<noteq> [] \<and> list_all is_digit f
     then parse_int (take 6 (f @ replicate 6 CHR ''0'')) else None)"

definition time_fields :: "string \<Rightarrow> (int \<times> int \<times> int) option" where
  "time_fields s = (case time_parts s of
       None \<Rightarrow> None
     | Some ps \<Rightarrow> (case map parse_int ps of
           [Some h] \<Rightarrow> if h \<le> 23 then Some (h, 0, 0) else None
         | [Some h, Some m] \<Rightarrow> if h \<le> 23 \<and> m \<le> 59 then Some (h, m, 0) else None
         | [Some h, Some m, Some sec] \<Rightarrow>
             if h \<le> 23 \<and> m \<le> 59 \<and> sec \<le> 59 then Some (h, m, sec) else None
         | _ \<Rightarrow> None))"

definition time_fromisoformat :: "string \<Rightarrow> (int \<times> int \<times> int \<times> int) option" where
  "time_fromisoformat text =
     (let s = remove_prefix text ''T'';
          clock = takeWhile (\<lambda>c. \<not> is_fraction_mark c) s;
          rest = dropWhile (\<lambda>c. \<not> is_fraction_mark c) s
      in case time_fields clock of
           None \<Rightarrow> None
         | Some (h, m, sec) \<Rightarrow>
             (if rest = [] then Some (h, m, sec, 0)
              else if length clock < 6 then None
              else (case fraction_micros (tl rest) of None \<Rightarrow> None | Some us \<Rightarrow> Some (h, m, sec, us))))"

lemma time_fromisoformat_examples:
  "time_fromisoformat ''04:00'' = Some (4, 0, 0, 0)" "time_fromisoformat ''T2330'' = Some (23, 30, 0, 0)"
  "time_fromisoformat ''24:00'' = None" "time_fromisoformat ''4:00'' = None"
  by code_simp+

end
