(* ===== verification/Artifacts.thy ===== *)
theory Artifacts
  imports HostPower Calendar
begin

text \<open>
  The local backup files (\<open>app/backups/service.py\<close>): how an archive is made, published and removed.
  \<open>w_artifacts\<close> holds the regular files under the data directory, by their path relative to it. What
  the file system, the payload source and the archive code answer is in the environment.
\<close>

section \<open>Names\<close>

definition BACKUP_DIRECTORY_NAME :: string where
  "BACKUP_DIRECTORY_NAME = ''backups''"

definition eat_exact :: "string \<Rightarrow> string \<Rightarrow> string option" where
  "eat_exact p s = (if starts_with s p then Some (drop (length p) s) else None)"

definition eat_count :: "(char \<Rightarrow> bool) \<Rightarrow> nat \<Rightarrow> string \<Rightarrow> string option" where
  "eat_count P n s = (if n \<le> length s \<and> list_all P (take n s) then Some (drop n s) else None)"

definition is_lower_hex :: "char \<Rightarrow> bool" where
  "is_lower_hex c = (is_digit c \<or> (97 \<le> code c \<and> code c \<le> 102))"

text \<open>The \<open>fullmatch\<close> of the pattern, one piece of it after the other.\<close>

definition BACKUP_FILENAME_PATTERN :: "string \<Rightarrow> bool" where
  "BACKUP_FILENAME_PATTERN name =
     (Option.bind (eat_exact ''palworld-manager-backup-'' name) (\<lambda>s.
      Option.bind (eat_count is_digit 8 s) (\<lambda>s.
      Option.bind (eat_exact ''T'' s) (\<lambda>s.
      Option.bind (eat_count is_digit 12 s) (\<lambda>s.
      Option.bind (eat_exact ''Z-j'' s) (\<lambda>s.
      Option.bind (eat_count is_digit 6 s) (\<lambda>s.
      Option.bind (eat_exact ''-'' (dropWhile is_digit s)) (eat_count is_lower_hex 32))))))) = Some ''.tar.gz'')"

definition backup_filename :: "int \<Rightarrow> int \<Rightarrow> string \<Rightarrow> string" where
  "backup_filename created_at job_id backup_id =
     ''palworld-manager-backup-'' @ compact_stamp created_at @ ''-j'' @ pad6 job_id @ ''-'' @ backup_id @ ''.tar.gz''"

text \<open>\<open>Path(s).is_absolute()\<close> and \<open>Path(s).parts\<close> of a relative path.\<close>

fun split_on :: "char \<Rightarrow> string \<Rightarrow> string list" where
  "split_on c [] = [[]]"
| "split_on c (x # xs) = (if x = c then [] # split_on c xs
     else (case split_on c xs of [] \<Rightarrow> [[x]] | p # ps \<Rightarrow> (x # p) # ps))"

definition path_parts :: "string \<Rightarrow> string list" where
  "path_parts s = filter (\<lambda>p. p \<noteq> [] \<and> p \<noteq> ''.'') (split_on (CHR ''/'') s)"

definition managed_path :: "string \<Rightarrow> string option" where
  "managed_path storage_path =
     (if starts_with storage_path ''/'' then None
      else case path_parts storage_path of
          [directory, filename] \<Rightarrow>
            (if directory \<noteq> BACKUP_DIRECTORY_NAME \<or> \<not> BACKUP_FILENAME_PATTERN filename then None
             else Some (BACKUP_DIRECTORY_NAME @ ''/'' @ filename))
        | _ \<Rightarrow> None)"

section \<open>File operations\<close>

definition file_step :: "env \<Rightarrow> string \<Rightarrow> (world, unit) prog" where
  "file_step env name = call env (e_file_step env) (EvFileStep name)"

text \<open>
  A directory as the file system shows it: a directory that is no link, a link among its parts below
  the data directory, and whether it resolves to a place inside the data directory.
\<close>

definition validate_controlled_directory :: "env \<Rightarrow> (world, unit) prog" where
  "validate_controlled_directory env =
     bnd (call env (e_directory env) EvDirectory) (\<lambda>(plain, linked, inside).
       andthen (require plain BackupValidationError)
         (andthen (require (\<not> linked) BackupValidationError)
           (require inside BackupValidationError)))"

definition resolve_managed_artifact :: "env \<Rightarrow> string \<Rightarrow> (world, string option) prog" where
  "resolve_managed_artifact env storage_path = (case managed_path storage_path of
       None \<Rightarrow> ret None
     | Some target \<Rightarrow>
         bnd (handle (andthen (validate_controlled_directory env) (ret True))
                (\<lambda>e. if e = BackupValidationError then ret False else raise e)) (\<lambda>valid.
           if \<not> valid then ret None
           else if e_symlink env target then ret None
           else ret (Some target)))"

definition add_artifact :: "string \<Rightarrow> world \<Rightarrow> world" where
  "add_artifact p w = w\<lparr>w_artifacts := p # removeAll p (w_artifacts w), w_trace := EvPublished p # w_trace w\<rparr>"

definition drop_artifact :: "string \<Rightarrow> world \<Rightarrow> world" where
  "drop_artifact p w = w\<lparr>w_artifacts := removeAll p (w_artifacts w), w_trace := EvArtifactRemoved p # w_trace w\<rparr>"

definition remove_managed_artifact :: "env \<Rightarrow> string \<Rightarrow> (world, bool) prog" where
  "remove_managed_artifact env storage_path =
     bnd (resolve_managed_artifact env storage_path) (\<lambda>target. case target of
       None \<Rightarrow> ret False
     | Some p \<Rightarrow> bnd (reads (\<lambda>w. p \<in> set (w_artifacts w))) (\<lambda>present.
         if \<not> present then ret False
         else andthen (file_step env ''unlink'') (andthen (modify (drop_artifact p)) (ret True))))"

text \<open>\<open>os.replace\<close> onto a path of the backup directory.\<close>

definition publish_artifact :: "env \<Rightarrow> string \<Rightarrow> (world, unit) prog" where
  "publish_artifact env p = andthen (file_step env ''replace'') (modify (add_artifact p))"

section \<open>Making a backup\<close>

record backup_artifact =
  ba_backup_id :: string
  ba_filename :: string
  ba_storage_path :: string
  ba_sha256 :: string
  ba_size_bytes :: int
  ba_created_at :: int

type_synonym progress_callback = "string \<Rightarrow> int \<Rightarrow> bool \<Rightarrow> (world, unit) prog"

text \<open>
  \<open>validate_archive\<close>, \<open>sha256_file\<close> and \<open>stat\<close> of one archive: the identifier in its manifest, its
  digest and its size.
\<close>

definition inspect_archive :: "env \<Rightarrow> (world, string \<times> string \<times> int) prog" where
  "inspect_archive env = call env (e_archive env) EvArchive"

text \<open>\<open>final_archive.exists() or final_archive.is_symlink()\<close>.\<close>

definition path_taken :: "env \<Rightarrow> string \<Rightarrow> world \<Rightarrow> bool" where
  "path_taken env p w = (p \<in> set (w_artifacts w) \<or> e_symlink env p)"

definition snapshot_server :: "env \<Rightarrow> progress_callback \<Rightarrow> (world, unit) prog" where
  "snapshot_server env progress =
     andthen (progress ''CHECKING_SERVER'' 5 True)
       (bnd (health_check env) (\<lambda>health.
         if health = ONLINE then andthen (progress ''SAFE_SAVE'' 10 True) (file_step env ''request_safe_save'')
         else if health = OFFLINE then progress ''OFFLINE_SNAPSHOT'' 10 True
         else raise BackupConsistencyError))"

definition build_archive :: "env \<Rightarrow> string \<Rightarrow> progress_callback \<Rightarrow> (world, string \<times> int) prog" where
  "build_archive env backup_id progress =
     andthen (snapshot_server env progress)
       (andthen (progress ''COPYING_WORLD'' 25 True)
       (andthen (file_step env ''stage_palworld_payload'')
       (andthen (progress ''COPYING_DATABASE'' 45 True)
       (andthen (file_step env ''stage_manager_payload'')
       (andthen (progress ''BUILDING_MANIFEST'' 60 True)
       (andthen (file_step env ''build_manifest'')
       (andthen (progress ''COMPRESSING'' 70 True)
       (andthen (file_step env ''write_archive'')
       (andthen (progress ''VALIDATING'' 85 True)
       (bnd (inspect_archive env) (\<lambda>(manifest_id, digest, size_bytes).
         andthen (require (manifest_id = backup_id) BackupValidationError) (ret (digest, size_bytes)))))))))))))"

text \<open>
  The end of both ways to publish: the archive moves to its place, and once its permissions are set it
  is inspected again; from then on a failure removes it.
\<close>

definition publish_and_verify :: "env \<Rightarrow> string \<Rightarrow> string \<Rightarrow> exn \<Rightarrow> 'a \<Rightarrow> (world, 'a) prog" where
  "publish_and_verify env path digest mismatch result =
     andthen (publish_artifact env path)
       (andthen (file_step env ''chmod'')
         (handle
           (bnd (inspect_archive env) (\<lambda>(_, final_digest, _).
             andthen (require (final_digest = digest) mismatch) (ret result)))
           (\<lambda>e. andthen (remove_managed_artifact env path) (raise e))))"

definition publish_archive ::
  "env \<Rightarrow> string \<Rightarrow> string \<Rightarrow> int \<Rightarrow> string \<times> int \<Rightarrow> progress_callback \<Rightarrow> (world, backup_artifact) prog" where
  "publish_archive env backup_id filename created_at archive progress = (case archive of (digest, size_bytes) \<Rightarrow>
     (let path = BACKUP_DIRECTORY_NAME @ ''/'' @ filename in
      andthen (progress ''PUBLISHING'' 95 False)
        (bnd (reads (path_taken env path)) (\<lambda>taken.
          andthen (require (\<not> taken) BackupValidationError)
            (publish_and_verify env path digest BackupValidationError
               \<lparr>ba_backup_id = backup_id, ba_filename = filename, ba_storage_path = path,
                ba_sha256 = digest, ba_size_bytes = size_bytes, ba_created_at = created_at\<rparr>)))))"

text \<open>\<open>shutil.rmtree(..., ignore_errors=True)\<close> raises nothing; it only touches the working directory.\<close>

definition remove_tree :: "(world, unit) prog" where
  "remove_tree = modify (\<lambda>w. w\<lparr>w_trace := EvLog ''rmtree'' [] # w_trace w\<rparr>)"

text \<open>\<open>create\<close> once the time, the identifier and the name are chosen.\<close>

definition run_backup ::
  "env \<Rightarrow> string \<Rightarrow> string \<Rightarrow> int \<Rightarrow> progress_callback \<Rightarrow> (world, backup_artifact) prog" where
  "run_backup env backup_id filename created_at progress =
     andthen (require (BACKUP_FILENAME_PATTERN filename) AssertionError)
       (andthen (file_step env ''mkdir'')
       (andthen (file_step env ''mkdir'')
       (andthen (validate_controlled_directory env)
       (andthen (validate_controlled_directory env)
       (andthen (file_step env ''mkdtemp'')
       (andthen (file_step env ''mkdir'')
         (always
           (bnd (build_archive env backup_id progress) (\<lambda>archive.
              publish_archive env backup_id filename created_at archive progress))
           remove_tree)))))))"

definition create_backup :: "env \<Rightarrow> int \<Rightarrow> progress_callback \<Rightarrow> (world, backup_artifact) prog" where
  "create_backup env job_id progress =
     andthen (require (0 < job_id) ValueError)
       (bnd (wall_now env) (\<lambda>created_at.
        bnd (reads (\<lambda>w. e_identifier env (w_tick w))) (\<lambda>backup_id.
          run_backup env backup_id (backup_filename created_at job_id backup_id) created_at progress)))"

lemma create_backup_run:
  assumes "0 < k" and "backup_filename (e_wall env (w_tick w)) k (e_identifier env (w_tick w)) = f"
  shows "create_backup env k progress w
    = run_backup env (e_identifier env (w_tick w)) f (e_wall env (w_tick w)) progress w"
  using assms by (simp add: create_backup_def run_defs wall_now_def)

section \<open>Cleaning up after an interrupted worker\<close>

text \<open>The glob \<open>palworld-manager-backup-*-j{job_id:06d}-*.tar.gz\<close> on the names of the directory.\<close>

definition interrupted_pattern :: "int \<Rightarrow> string \<Rightarrow> bool" where
  "interrupted_pattern job_id name =
     (let p = ''palworld-manager-backup-''; mid = ''-j'' @ pad6 job_id @ ''-''; r = drop (length p) name
      in starts_with name p \<and> list_ex (\<lambda>i. starts_with (drop i r) mid
           \<and> ends_with (drop (i + length mid) r) ''.tar.gz'') [0..<Suc (length r)])"

definition backup_names :: "world \<Rightarrow> string list" where
  "backup_names w = List.map_filter (\<lambda>p. eat_exact (BACKUP_DIRECTORY_NAME @ ''/'') p) (w_artifacts w)"

fun remove_each :: "env \<Rightarrow> string list \<Rightarrow> nat \<Rightarrow> (world, nat) prog" where
  "remove_each env [] removed = ret removed"
| "remove_each env (name # names) removed =
     bnd (remove_managed_artifact env (BACKUP_DIRECTORY_NAME @ ''/'' @ name)) (\<lambda>done.
       remove_each env names (if done then Suc removed else removed))"

fun remove_interrupted :: "env \<Rightarrow> int list \<Rightarrow> nat \<Rightarrow> (world, nat) prog" where
  "remove_interrupted env [] removed = ret removed"
| "remove_interrupted env (job_id # ks) removed =
     (if job_id \<le> 0 then remove_interrupted env ks removed
      else bnd (reads (\<lambda>w. filter (interrupted_pattern job_id) (backup_names w))) (\<lambda>names.
        bnd (remove_each env names removed) (remove_interrupted env ks)))"

definition cleanup_interrupted_artifacts :: "env \<Rightarrow> bool \<Rightarrow> int list \<Rightarrow> (world, nat) prog" where
  "cleanup_interrupted_artifacts env directory_exists job_ids =
     (if \<not> directory_exists then ret 0
      else andthen (validate_controlled_directory env) (remove_interrupted env job_ids 0))"

section \<open>What making a backup leaves behind\<close>

text \<open>A callback that only updates the database, as the checkpoint of the executor does.\<close>

definition db_only :: "progress_callback \<Rightarrow> bool" where
  "db_only progress \<longleftrightarrow> (\<forall>s p c A tr. keeps (\<lambda>w. w_artifacts w = A \<and> (\<exists>es. w_trace w = es @ tr)) (progress s p c))"

text \<open>The files are \<open>A\<close>, and the trace has grown since \<open>tr\<close>.\<close>

definition files_are :: "string list \<Rightarrow> event list \<Rightarrow> world \<Rightarrow> bool" where
  "files_are A tr w \<longleftrightarrow> w_artifacts w = A \<and> (\<exists>es. w_trace w = es @ tr)"

text \<open>An answer of the file system that keeps the code from removing what it published.\<close>

definition publish_trouble :: "event list \<Rightarrow> bool" where
  "publish_trouble es \<longleftrightarrow> (\<exists>e. EvFileStep ''chmod'' (Inl e) \<in> set es \<or> EvFileStep ''unlink'' (Inl e) \<in> set es
     \<or> EvDirectory (Inl e) \<in> set es) \<or> (\<exists>a b c. EvDirectory (Inr (a, b, c)) \<in> set es \<and> \<not> (a \<and> \<not> b \<and> c))"

definition not_left :: "string list \<Rightarrow> event list \<Rightarrow> world \<Rightarrow> bool" where
  "not_left A tr w \<longleftrightarrow> (\<exists>es. w_trace w = es @ tr \<and> (w_artifacts w = A \<or> publish_trouble es))"

lemma files_not_left: "files_are A tr w \<Longrightarrow> not_left A tr w"
  by (auto simp: files_are_def not_left_def)

lemma files_are_call: "files_are A tr w \<Longrightarrow> files_are A tr (after_call env ev w)"
  by (auto simp: files_are_def)

lemma files_are_scope [simp]: "files_are A tr (after_scope w d) = files_are A tr w"
  by (simp add: files_are_def)

lemma keeps_files_call: "keeps (files_are A tr) (call env f ev)"
  by (rule keeps_call) (rule files_are_call)

lemma keeps_files_step: "keeps (files_are A tr) (file_step env s)"
  unfolding file_step_def by (rule keeps_files_call)

lemma keeps_files_inspect: "keeps (files_are A tr) (inspect_archive env)"
  unfolding inspect_archive_def by (rule keeps_files_call)

lemma keeps_files_health: "keeps (files_are A tr) (health_check env)"
  unfolding health_check_def by (rule keeps_files_call)

lemma keeps_files_validate: "keeps (files_are A tr) (validate_controlled_directory env)"
  unfolding validate_controlled_directory_def by (intro keeps_rules keeps_files_call)

lemma keeps_files_progress: "db_only progress \<Longrightarrow> keeps (files_are A tr) (progress s p c)"
  by (simp add: db_only_def files_are_def [abs_def])

lemmas keeps_files = keeps_files_step keeps_files_inspect keeps_files_health keeps_files_validate
  keeps_files_progress

lemma keeps_files_snapshot: "db_only progress \<Longrightarrow> keeps (files_are A tr) (snapshot_server env progress)"
  unfolding snapshot_server_def by (intro keeps_rules keeps_files)

lemma keeps_files_build: "db_only progress \<Longrightarrow> keeps (files_are A tr) (build_archive env i progress)"
  unfolding build_archive_def by (intro keeps_rules keeps_files keeps_files_snapshot)

text \<open>Removing a published file leaves it only when the file system misbehaves.\<close>

lemma remove_undoes:
  assumes p: "managed_path p = Some p" and new: "p \<notin> set A" and plain: "\<not> e_symlink env p"
  shows "triple (files_are (p # A) tr) (remove_managed_artifact env p) (\<lambda>_. not_left A tr) (\<lambda>_. not_left A tr)"
proof (rule tripleI)
  fix w
  assume w: "files_are (p # A) tr w"
  then obtain es where es: "w_trace w = es @ tr" and arts: "w_artifacts w = p # A" by (auto simp: files_are_def)
  have rm: "removeAll p A = A" using new by (simp add: removeAll_id)
  show "wp (remove_managed_artifact env p) (\<lambda>_. not_left A tr) (\<lambda>_. not_left A tr) w"
    unfolding remove_managed_artifact_def resolve_managed_artifact_def p
    using es arts rm plain
    by (auto simp: wp_simps validate_controlled_directory_def file_step_def Let_def not_left_def
        publish_trouble_def drop_artifact_def split: sum.split prod.split)
qed

subsection \<open>The names made by the code are managed\<close>

lemma starts_with_iff: "starts_with s p \<longleftrightarrow> (\<exists>r. s = p @ r)"
  by (induction s p rule: starts_with.induct) auto

lemma eat_exact_Some [simp]: "eat_exact p s = Some r \<longleftrightarrow> s = p @ r"
  by (auto simp: eat_exact_def starts_with_iff)

lemma eat_count_Some: "eat_count P n s = Some r \<Longrightarrow> \<exists>a. s = a @ r \<and> length a = n \<and> list_all P a"
  by (rule exI [of _ "take n s"]) (auto simp: eat_count_def split: if_splits)

lemma not_slash: "is_digit c \<Longrightarrow> c \<noteq> CHR ''/''" "is_lower_hex c \<Longrightarrow> c \<noteq> CHR ''/''"
  by (auto simp: is_digit_def is_lower_hex_def code_def)

lemma pattern_no_slash:
  assumes "BACKUP_FILENAME_PATTERN name"
  shows "CHR ''/'' \<notin> set name" and "name \<noteq> []" and "name \<noteq> ''.''"
proof -
  have no: "CHR ''/'' \<notin> set a" if "list_all P a" "\<And>c. P c \<Longrightarrow> c \<noteq> CHR ''/''" for P a
    using that by (auto simp: list_all_iff)
  from assms obtain s0 s1 s2 s3 s4 s5 s6 where
    n: "name = ''palworld-manager-backup-'' @ s0" and c1: "eat_count is_digit 8 s0 = Some s1"
    and s1: "s1 = ''T'' @ s2" and c2: "eat_count is_digit 12 s2 = Some s3" and s3: "s3 = ''Z-j'' @ s4"
    and c3: "eat_count is_digit 6 s4 = Some s5" and s5: "dropWhile is_digit s5 = ''-'' @ s6"
    and c4: "eat_count is_lower_hex 32 s6 = Some ''.tar.gz''"
    by (auto simp only: BACKUP_FILENAME_PATTERN_def bind_eq_Some_conv eat_exact_Some)
  obtain a1 where a1: "s0 = a1 @ s1" "list_all is_digit a1" using eat_count_Some [OF c1] by blast
  obtain a2 where a2: "s2 = a2 @ s3" "list_all is_digit a2" using eat_count_Some [OF c2] by blast
  obtain a3 where a3: "s4 = a3 @ s5" "list_all is_digit a3" using eat_count_Some [OF c3] by blast
  obtain a4 where a4: "s6 = a4 @ ''.tar.gz''" "list_all is_lower_hex a4" using eat_count_Some [OF c4] by blast
  have s5': "s5 = takeWhile is_digit s5 @ ''-'' @ s6" using s5 by (metis takeWhile_dropWhile_id)
  have "CHR ''/'' \<notin> set (takeWhile is_digit s5)" using not_slash(1) by (auto dest: set_takeWhileD)
  moreover have "CHR ''/'' \<notin> set s6" using no [OF a4(2) not_slash(2)] by (simp add: a4(1))
  ultimately have "CHR ''/'' \<notin> set s5" by (subst s5') simp
  then show "CHR ''/'' \<notin> set name"
    using no [OF a1(2) not_slash(1)] no [OF a2(2) not_slash(1)] no [OF a3(2) not_slash(1)]
    by (simp add: n a1(1) s1 a2(1) s3 a3(1))
  show "name \<noteq> []" "name \<noteq> ''.''" by (simp_all add: n)
qed

lemma split_on_single: "c \<notin> set s \<Longrightarrow> split_on c s = [s]"
  by (induction s) auto

lemma managed_path_made:
  assumes "BACKUP_FILENAME_PATTERN name"
  shows "managed_path (BACKUP_DIRECTORY_NAME @ ''/'' @ name) = Some (BACKUP_DIRECTORY_NAME @ ''/'' @ name)"
proof -
  have "split_on (CHR ''/'') (BACKUP_DIRECTORY_NAME @ ''/'' @ name) = [BACKUP_DIRECTORY_NAME, name]"
    using split_on_single [OF pattern_no_slash(1) [OF assms]] by (simp add: BACKUP_DIRECTORY_NAME_def)
  then have "path_parts (BACKUP_DIRECTORY_NAME @ ''/'' @ name) = [BACKUP_DIRECTORY_NAME, name]"
    using pattern_no_slash(2,3) [OF assms] by (simp add: path_parts_def BACKUP_DIRECTORY_NAME_def)
  moreover have "\<not> starts_with (BACKUP_DIRECTORY_NAME @ ''/'' @ name) ''/''"
    by (simp add: BACKUP_DIRECTORY_NAME_def)
  ultimately show ?thesis using assms by (simp add: managed_path_def)
qed

lemma managed_path_idem: "managed_path s = Some p \<Longrightarrow> managed_path p = Some p"
proof -
  assume h: "managed_path s = Some p"
  then obtain f where "BACKUP_FILENAME_PATTERN f" "p = BACKUP_DIRECTORY_NAME @ ''/'' @ f"
    by (auto simp: managed_path_def split: if_splits list.splits)
  then show ?thesis using managed_path_made by blast
qed

subsection \<open>Publishing\<close>

definition built :: "string list \<Rightarrow> event list \<Rightarrow> string \<Rightarrow> string \<times> int \<Rightarrow> world \<Rightarrow> bool" where
  "built A tr i x w \<longleftrightarrow> w_artifacts w = A
     \<and> (\<exists>es. w_trace w = es @ tr \<and> EvArchive (Inr (i, fst x, snd x)) \<in> set es)"

lemma keeps_built: "db_only progress \<Longrightarrow> keeps (built A tr i x) (progress s p c)"
proof -
  assume p: "db_only progress"
  have "wp (progress s p c) (\<lambda>_. built A tr i x) (\<lambda>_. built A tr i x) w" if b: "built A tr i x w" for w
  proof -
    have "files_are A (w_trace w) w" using b by (simp add: files_are_def built_def)
    from tripleD [OF keepsD [OF keeps_files_progress [OF p]] this]
    show ?thesis by (rule wp_mono) (use b in \<open>auto simp: files_are_def built_def\<close>)
  qed
  then show ?thesis by (simp add: keeps_def triple_def)
qed

lemma files_step:
  "keeps (files_are A tr) m \<Longrightarrow> triple (files_are A tr) m (\<lambda>_. files_are A tr) (\<lambda>_. not_left A tr)"
  by (rule keeps_weaken) (auto intro: files_not_left)

lemma build_archive_built:
  assumes "db_only progress"
  shows "triple (files_are A tr) (build_archive env i progress) (built A tr i) (\<lambda>_. not_left A tr)"
proof -
  note k = files_step [OF keeps_files_progress [OF assms]] files_step [OF keeps_files_step]
    files_step [OF keeps_files_snapshot [OF assms]]
  have inspect: "triple (files_are A tr) (inspect_archive env)
      (\<lambda>x. built A tr (fst x) (snd x)) (\<lambda>_. not_left A tr)"
    unfolding inspect_archive_def
    by (rule triple_call) (auto simp: files_are_def built_def not_left_def)
  show ?thesis
    unfolding build_archive_def
    apply (rule triple_andthen, rule k, (rule triple_andthen, rule k)+)
    apply (rule triple_bnd, rule inspect)
    subgoal for x by (cases x) (auto simp: triple_def wp_simps built_def not_left_def)
    done
qed

text \<open>The end of a successful run: the archive was inspected, published, and inspected again.\<close>

definition published :: "string list \<Rightarrow> event list \<Rightarrow> backup_artifact \<Rightarrow> world \<Rightarrow> bool" where
  "published A tr a w \<longleftrightarrow>
     w_artifacts w = ba_storage_path a # A \<and> ba_storage_path a \<notin> set A
     \<and> BACKUP_FILENAME_PATTERN (ba_filename a)
     \<and> ba_storage_path a = BACKUP_DIRECTORY_NAME @ ''/'' @ ba_filename a
     \<and> (\<exists>i n es. w_trace w = EvArchive (Inr (i, ba_sha256 a, n)) # EvFileStep ''chmod'' (Inr ())
            # EvPublished (ba_storage_path a) # es @ tr
          \<and> EvArchive (Inr (ba_backup_id a, ba_sha256 a, ba_size_bytes a)) \<in> set es)"

lemma built_not_left: "built A tr i x w \<Longrightarrow> not_left A tr w"
  by (auto simp: built_def not_left_def)

lemma built_step:
  "keeps (built A tr i x) m \<Longrightarrow> triple (built A tr i x) m (\<lambda>_. built A tr i x) (\<lambda>_. not_left A tr)"
  by (rule keeps_weaken) (auto intro: built_not_left)

lemma publish_and_verify_wp:
  assumes p: "managed_path p = Some p" and plain: "\<not> e_symlink env p" and new: "p \<notin> set A"
    and w: "files_are A tr w" and mis: "mismatch \<noteq> Diverges"
  shows "wp (publish_and_verify env p digest mismatch a)
    (\<lambda>a' w'. a' = a \<and> w_artifacts w' = p # A \<and> w_db w' = w_db w
       \<and> (\<exists>i n. w_trace w' = EvArchive (Inr (i, digest, n)) # EvFileStep ''chmod'' (Inr ())
             # EvPublished p # EvFileStep ''replace'' (Inr ()) # w_trace w))
    (\<lambda>_. not_left A tr) w"
proof -
  have undo: "wp (remove_managed_artifact env p) (\<lambda>_. wp (raise e) Q (\<lambda>_. not_left B tr)) (\<lambda>_. not_left B tr) w"
    if "files_are (p # B) tr w" "p \<notin> set B" for Q :: "'a \<Rightarrow> world \<Rightarrow> bool" and e w B
    unfolding wp_raise by (rule tripleD [OF remove_undoes [OF p that(2) plain] that(1)])
  from w obtain es where es: "w_trace w = es @ tr" and arts: "w_artifacts w = A" by (auto simp: files_are_def)
  show ?thesis
    unfolding publish_and_verify_def
    using new es arts mis
    by (auto simp: wp_bnd wp_andthen wp_require wp_handle wp_ret wp_case_prod publish_artifact_def
        file_step_def inspect_archive_def wp_call wp_modify Let_def add_artifact_def
        not_left_def publish_trouble_def removeAll_id files_are_def intro!: undo split: sum.split prod.split)
qed

lemma publish_archive_published:
  assumes prog: "db_only progress" and name: "BACKUP_FILENAME_PATTERN f"
  shows "triple (built A tr i x) (publish_archive env i f c x progress) (published A tr) (\<lambda>_. not_left A tr)"
proof -
  define p where "p = BACKUP_DIRECTORY_NAME @ ''/'' @ f"
  have p: "managed_path p = Some p" unfolding p_def by (rule managed_path_made [OF name])
  define a where "a = \<lparr>ba_backup_id = i, ba_filename = f, ba_storage_path = p,
    ba_sha256 = fst x, ba_size_bytes = snd x, ba_created_at = c\<rparr>"
  have main: "wp (bnd (reads (path_taken env p)) (\<lambda>taken. andthen (require (\<not> taken) BackupValidationError)
       (publish_and_verify env p (fst x) BackupValidationError a))) (published A tr) (\<lambda>_. not_left A tr) w"
    if w: "built A tr i x w" for w
  proof (cases "p \<in> set A \<or> e_symlink env p")
    case True
    then show ?thesis using w built_not_left [OF w] by (simp add: wp_simps path_taken_def built_def)
  next
    case False
    then have new: "p \<notin> set A" and plain: "\<not> e_symlink env p" by simp_all
    obtain es where es: "w_trace w = es @ tr" "EvArchive (Inr (i, fst x, snd x)) \<in> set es"
      and arts: "w_artifacts w = A" using w by (auto simp: built_def)
    have "files_are A tr w" using es arts by (simp add: files_are_def)
    from publish_and_verify_wp [OF p plain new this, of BackupValidationError]
    have "wp (publish_and_verify env p (fst x) BackupValidationError a) (published A tr) (\<lambda>_. not_left A tr) w"
      by (rule wp_mono) (use new name es in \<open>auto simp: published_def a_def p_def\<close>)
    then show ?thesis using False arts by (simp add: wp_bnd wp_reads wp_andthen wp_require path_taken_def)
  qed
  show ?thesis
    unfolding publish_archive_def
    apply (cases x, simp only: prod.case Let_def p_def [symmetric])
    apply (rule triple_andthen, rule built_step [OF keeps_built [OF prog]])
    apply (rule tripleI)
    subgoal using main by (simp add: a_def)
    done
qed

text \<open>The same once the working directory was removed.\<close>

definition made :: "string list \<Rightarrow> event list \<Rightarrow> backup_artifact \<Rightarrow> world \<Rightarrow> bool" where
  "made A tr a w \<longleftrightarrow> (\<exists>w0. published A tr a w0 \<and> w_artifacts w = w_artifacts w0
     \<and> w_trace w = EvLog ''rmtree'' [] # w_trace w0)"

lemma publish_trouble_Cons: "publish_trouble es \<Longrightarrow> publish_trouble (ev # es)"
  unfolding publish_trouble_def by (meson list.set_intros(2))

lemma remove_tree_made: "triple (published A tr a) remove_tree (\<lambda>_. made A tr a) E"
  unfolding triple_def remove_tree_def wp_modify made_def by (intro allI impI exI conjI) simp_all

lemma remove_tree_not_left: "triple (not_left A tr) remove_tree (\<lambda>_. not_left A tr) (\<lambda>_. not_left A tr)"
proof (rule tripleI)
  fix w
  assume "not_left A tr w"
  then obtain es where es: "w_trace w = es @ tr" "w_artifacts w = A \<or> publish_trouble es"
    by (auto simp: not_left_def)
  then have "w_trace (w\<lparr>w_trace := EvLog ''rmtree'' [] # w_trace w\<rparr>) = (EvLog ''rmtree'' [] # es) @ tr"
    "w_artifacts (w\<lparr>w_trace := EvLog ''rmtree'' [] # w_trace w\<rparr>) = A \<or> publish_trouble (EvLog ''rmtree'' [] # es)"
    using publish_trouble_Cons by auto
  then show "wp remove_tree (\<lambda>_. not_left A tr) (\<lambda>_. not_left A tr) w"
    unfolding remove_tree_def wp_modify not_left_def by blast
qed

lemma create_backup_made:
  assumes prog: "db_only progress"
  shows "triple (files_are A tr) (create_backup env k progress) (made A tr) (\<lambda>_. not_left A tr)"
proof -
  have body: "triple (files_are A tr) (always (bnd (build_archive env i progress) (\<lambda>x.
        publish_archive env i f c x progress)) remove_tree) (made A tr) (\<lambda>_. not_left A tr)"
    if f: "BACKUP_FILENAME_PATTERN f" for i f c
    by (rule triple_always [OF triple_bnd [OF build_archive_built [OF prog] publish_archive_published [OF prog f]]
          remove_tree_made remove_tree_not_left])
  have req: "triple (files_are A tr) (require b e) (\<lambda>_ w. files_are A tr w \<and> b) (\<lambda>_. not_left A tr)" for b e
    by (rule triple_require) (auto intro: files_not_left)
  show ?thesis
    unfolding create_backup_def run_backup_def
    apply (rule triple_andthen [OF files_step [OF keeps_require]])
    apply (rule triple_bnd [OF files_step [OF keeps_wall_now]])
    apply (rule triple_bnd [OF files_step [OF keeps_reads]])
    apply (rule triple_andthen [OF req])
    apply (rule tripleI, elim conjE)
    subgoal for i c w
      by (rule tripleD [where P = "files_are A tr"])
        (intro triple_andthen [OF files_step [OF keeps_files_step]]
          triple_andthen [OF files_step [OF keeps_files_validate]] body, simp_all)
    done
qed

text \<open>
  C19: making a local backup is all or nothing. When it succeeds, exactly one new file is there, under
  the managed name, and it was inspected before and after it was published, with the same digest.
  When it fails, the files are what they were, unless the file system refused one of the steps the
  code needs to remove the archive again. The progress callback may raise at any point.
\<close>

theorem create_backup_atomic:
  assumes "db_only progress" and "create_backup env k progress w = (r, w')"
  shows "(\<forall>a. r = Inr a \<longrightarrow> w_artifacts w' = ba_storage_path a # w_artifacts w
        \<and> ba_storage_path a \<notin> set (w_artifacts w) \<and> BACKUP_FILENAME_PATTERN (ba_filename a)
        \<and> ba_storage_path a = BACKUP_DIRECTORY_NAME @ ''/'' @ ba_filename a
        \<and> (\<exists>i n es. w_trace w' = EvLog ''rmtree'' [] # EvArchive (Inr (i, ba_sha256 a, n))
               # EvFileStep ''chmod'' (Inr ()) # EvPublished (ba_storage_path a) # es @ w_trace w
             \<and> EvArchive (Inr (ba_backup_id a, ba_sha256 a, ba_size_bytes a)) \<in> set es))
    \<and> (\<forall>e. r = Inl e \<longrightarrow> (\<exists>es. w_trace w' = es @ w_trace w
        \<and> (w_artifacts w' = w_artifacts w \<or> publish_trouble es)))"
proof -
  have "files_are (w_artifacts w) (w_trace w) w" by (simp add: files_are_def)
  from tripleD [OF create_backup_made [OF assms(1)] this]
  have run: "wp (create_backup env k progress) (made (w_artifacts w) (w_trace w))
      (\<lambda>_. not_left (w_artifacts w) (w_trace w)) w" .
  have "made (w_artifacts w) (w_trace w) a w'" if "r = Inr a" for a
    using wp_InrD [OF run] assms(2) that by simp
  moreover have "not_left (w_artifacts w) (w_trace w) w'" if "r = Inl e" for e
    using wp_InlD [OF run] assms(2) that by simp
  ultimately show ?thesis by (fastforce simp: made_def published_def not_left_def)
qed

definition sample_name :: string where
  "sample_name = ''palworld-manager-backup-19700101T000000000000Z-j000001-'' @ replicate 32 CHR ''0'' @ ''.tar.gz''"

definition sample_backup :: "env \<Rightarrow> (exn + backup_artifact) \<times> world" where
  "sample_backup env = run_backup env (replicate 32 CHR ''0'') sample_name 0 (\<lambda>_ _ _. ret ()) (start_world empty_db)"

lemma sample_backup_eq:
  assumes "e_wall env 0 = 0" and "e_identifier env 0 = replicate 32 CHR ''0''"
  shows "create_backup env 1 (\<lambda>_ _ _. ret ()) (start_world empty_db) = sample_backup env"
proof -
  have "backup_filename 0 1 (replicate 32 CHR ''0'') = sample_name" by code_simp
  then show ?thesis
    using create_backup_run [of 1 env "start_world empty_db" sample_name "\<lambda>_ _ _. ret ()"] assms
    by (simp add: sample_backup_def start_world_def)
qed

lemma calm_env_start: "e_wall calm_env 0 = 0" "e_identifier calm_env 0 = replicate 32 CHR ''0''"
  by (simp_all add: calm_env_def seconds_def)

lemma db_only_ret: "db_only (\<lambda>_ _ _. ret ())"
  by (simp add: db_only_def keeps_ret)

definition sample_artifact :: backup_artifact where
  "sample_artifact = \<lparr>ba_backup_id = replicate 32 CHR ''0'', ba_filename = sample_name,
     ba_storage_path = BACKUP_DIRECTORY_NAME @ ''/'' @ sample_name, ba_sha256 = replicate 64 CHR ''0'',
     ba_size_bytes = 1, ba_created_at = 0\<rparr>"

lemma sample_name_ok: "BACKUP_FILENAME_PATTERN sample_name"
  by code_simp

text \<open>The definitions a run of a backup unfolds.\<close>

lemmas backup_run_defs = run_simps calm_env_simps run_backup_def build_archive_def snapshot_server_def
  publish_archive_def publish_and_verify_def publish_artifact_def inspect_archive_def file_step_def health_check_def
  validate_controlled_directory_def remove_managed_artifact_def resolve_managed_artifact_def
  remove_tree_def path_taken_def add_artifact_def drop_artifact_def

lemma sample_backup_calm:
  "fst (sample_backup calm_env) = Inr sample_artifact"
  by (simp add: sample_backup_def backup_run_defs sample_name_ok sample_artifact_def start_world_def Let_def)

theorem create_backup_atomic_witness:
  "w_artifacts (snd (sample_backup calm_env)) = [BACKUP_DIRECTORY_NAME @ ''/'' @ sample_name]"
proof -
  have run: "create_backup calm_env 1 (\<lambda>_ _ _. ret ()) (start_world empty_db)
      = (fst (sample_backup calm_env), snd (sample_backup calm_env))"
    by (simp add: sample_backup_eq [OF calm_env_start])
  have "w_artifacts (snd (sample_backup calm_env)) = ba_storage_path sample_artifact # w_artifacts (start_world empty_db)"
    using create_backup_atomic [OF db_only_ret run] sample_backup_calm by blast
  then show ?thesis by (simp add: sample_artifact_def start_world_def)
qed

text \<open>
  The flag that makes the handler remove the archive is set after the permissions were changed: when
  changing them fails, the published archive stays.
\<close>

definition chmod_fails :: env where
  "chmod_fails = calm_env\<lparr>e_file_step := (\<lambda>n. if n = 14 then Inl OtherException else Inr ())\<rparr>"

lemma chmod_failure_leaves_archive:
  "create_backup chmod_fails 1 (\<lambda>_ _ _. ret ()) (start_world empty_db) = sample_backup chmod_fails"
  "fst (sample_backup chmod_fails) = Inl OtherException"
  "w_artifacts (snd (sample_backup chmod_fails)) = [BACKUP_DIRECTORY_NAME @ ''/'' @ sample_name]"
  by (rule sample_backup_eq; simp add: chmod_fails_def calm_env_start)
    (simp_all add: chmod_fails_def sample_backup_def backup_run_defs sample_name_ok start_world_def Let_def)

end
