(* ===== verification/ManagerSettings.thy ===== *)
theory ManagerSettings
  imports Notifications
begin

text \<open>
  The operational settings of the Manager (\<open>app/manager_settings/service.py\<close>): their validation, what
  is loaded from the overrides in the database, and the optimistic update. \<open>ZoneInfo\<close> is the parameter
  \<open>zone_ok\<close>, and the SHA-256 of the canonical JSON is the parameter \<open>version\<close>.
\<close>

section \<open>The values\<close>

record manager_settings =
  ms_timezone :: string
  ms_backup_enabled :: bool
  ms_backup_time :: string
  ms_local_backup_retention :: int
  ms_drive_backup_retention :: int
  ms_metrics_interval_seconds :: int
  ms_assisted_shutdown_default_minutes :: int
  ms_start_timeout_seconds :: int
  ms_restart_timeout_seconds :: int
  ms_stop_timeout_seconds :: int
  ms_disk_warning_gb :: int
  ms_disk_critical_gb :: int

definition DEFAULT_MANAGER_SETTINGS :: dict where
  "DEFAULT_MANAGER_SETTINGS =
     [(''timezone'', JStr ''America/Sao_Paulo''), (''backup_enabled'', JBool True),
      (''backup_time'', JStr ''04:00''), (''local_backup_retention'', JInt 3),
      (''drive_backup_retention'', JInt 10), (''metrics_interval_seconds'', JInt 5),
      (''assisted_shutdown_default_minutes'', JInt 5), (''start_timeout_seconds'', JInt 120),
      (''restart_timeout_seconds'', JInt 120), (''stop_timeout_seconds'', JInt 60),
      (''disk_warning_gb'', JInt 20), (''disk_critical_gb'', JInt 10)]"

definition OPERATIONAL_SETTING_KEYS :: "string list" where
  "OPERATIONAL_SETTING_KEYS = map fst DEFAULT_MANAGER_SETTINGS"

text \<open>\<open>^(?:[01][0-9]|2[0-3]):[0-5][0-9]$\<close> with \<open>fullmatch\<close>.\<close>

definition BACKUP_TIME_PATTERN :: "string \<Rightarrow> bool" where
  "BACKUP_TIME_PATTERN s = (case s of
       [a, b, c, d, e] \<Rightarrow>
         ((a = CHR ''0'' \<or> a = CHR ''1'') \<and> is_digit b \<or> a = CHR ''2'' \<and> b \<in> {CHR ''0'', CHR ''1'', CHR ''2'', CHR ''3''})
         \<and> c = CHR '':'' \<and> is_digit d \<and> code d < 54 \<and> is_digit e
     | _ \<Rightarrow> False)"

text \<open>The fields and validators of \<open>ManagerSettingsValues\<close>, in strict mode.\<close>

definition settings_ok :: "(string \<Rightarrow> bool) \<Rightarrow> manager_settings \<Rightarrow> bool" where
  "settings_ok zone_ok v \<longleftrightarrow> zone_ok (ms_timezone v) \<and> BACKUP_TIME_PATTERN (ms_backup_time v)
     \<and> 1 \<le> ms_local_backup_retention v \<and> ms_local_backup_retention v \<le> 30
     \<and> 1 \<le> ms_drive_backup_retention v \<and> ms_drive_backup_retention v \<le> 100
     \<and> 1 \<le> ms_metrics_interval_seconds v \<and> ms_metrics_interval_seconds v \<le> 60
     \<and> ms_assisted_shutdown_default_minutes v \<in> {0, 1, 5, 10}
     \<and> 1 \<le> ms_start_timeout_seconds v \<and> ms_start_timeout_seconds v \<le> 600
     \<and> 1 \<le> ms_restart_timeout_seconds v \<and> ms_restart_timeout_seconds v \<le> 600
     \<and> 1 \<le> ms_stop_timeout_seconds v \<and> ms_stop_timeout_seconds v \<le> 300
     \<and> 1 \<le> ms_disk_warning_gb v \<and> ms_disk_warning_gb v \<le> 1024
     \<and> 1 \<le> ms_disk_critical_gb v \<and> ms_disk_critical_gb v \<le> 1024
     \<and> ms_disk_critical_gb v < ms_disk_warning_gb v"

definition model_validate :: "(string \<Rightarrow> bool) \<Rightarrow> dict \<Rightarrow> manager_settings option" where
  "model_validate zone_ok d =
     (if set (map fst d) \<noteq> set OPERATIONAL_SETTING_KEYS then None
      else case (json_str (dict_get d ''timezone''), json_bool (dict_get d ''backup_enabled''),
                 json_str (dict_get d ''backup_time''),
                 map (\<lambda>k. json_int (dict_get d k)) (drop 3 OPERATIONAL_SETTING_KEYS)) of
          (Some tz, Some enabled, Some time,
             [Some lr, Some dr, Some mi, Some am, Some st, Some rt, Some sp, Some dw, Some dc]) \<Rightarrow>
            (let v = \<lparr>ms_timezone = strip tz, ms_backup_enabled = enabled, ms_backup_time = time,
                      ms_local_backup_retention = lr, ms_drive_backup_retention = dr,
                      ms_metrics_interval_seconds = mi, ms_assisted_shutdown_default_minutes = am,
                      ms_start_timeout_seconds = st, ms_restart_timeout_seconds = rt,
                      ms_stop_timeout_seconds = sp, ms_disk_warning_gb = dw, ms_disk_critical_gb = dc\<rparr>
             in if 1 \<le> length tz \<and> length tz \<le> 100 \<and> settings_ok zone_ok v then Some v else None)
        | _ \<Rightarrow> None)"

definition validate_manager_settings :: "(string \<Rightarrow> bool) \<Rightarrow> dict \<Rightarrow> exn + manager_settings" where
  "validate_manager_settings zone_ok values = (case model_validate zone_ok values of
       None \<Rightarrow> Inl ManagerSettingsValidationError | Some v \<Rightarrow> Inr v)"

section \<open>Loading and updating\<close>

definition setting_values :: "manager_settings \<Rightarrow> dict" where
  "setting_values v =
     [(''timezone'', JStr (ms_timezone v)), (''backup_enabled'', JBool (ms_backup_enabled v)),
      (''backup_time'', JStr (ms_backup_time v)),
      (''local_backup_retention'', JInt (ms_local_backup_retention v)),
      (''drive_backup_retention'', JInt (ms_drive_backup_retention v)),
      (''metrics_interval_seconds'', JInt (ms_metrics_interval_seconds v)),
      (''assisted_shutdown_default_minutes'', JInt (ms_assisted_shutdown_default_minutes v)),
      (''start_timeout_seconds'', JInt (ms_start_timeout_seconds v)),
      (''restart_timeout_seconds'', JInt (ms_restart_timeout_seconds v)),
      (''stop_timeout_seconds'', JInt (ms_stop_timeout_seconds v)),
      (''disk_warning_gb'', JInt (ms_disk_warning_gb v)),
      (''disk_critical_gb'', JInt (ms_disk_critical_gb v))]"

definition setting_overrides :: "db \<Rightarrow> dict" where
  "setting_overrides d = List.map_filter (\<lambda>k. map_option (\<lambda>s. (k, s_value s)) (find_setting k d))
     OPERATIONAL_SETTING_KEYS"

definition load_manager_settings :: "(string \<Rightarrow> bool) \<Rightarrow> (db, manager_settings) prog" where
  "load_manager_settings zone_ok = bnd (reads setting_overrides) (\<lambda>overrides.
     case model_validate zone_ok (dict_merge DEFAULT_MANAGER_SETTINGS overrides) of
       None \<Rightarrow> raise StoredManagerSettingsError
     | Some v \<Rightarrow> ret v)"

definition hex64 :: "string \<Rightarrow> bool" where
  "hex64 s = (length s = 64 \<and> list_all (\<lambda>c. is_digit c \<or> (97 \<le> code c \<and> code c \<le> 102)) s)"

definition write_setting :: "int \<Rightarrow> int \<Rightarrow> string \<times> json \<Rightarrow> (db, unit) prog" where
  "write_setting user_id now kv = modify (\<lambda>d. case find_setting (fst kv) d of
       None \<Rightarrow> d\<lparr>settings := settings d @ [(fst kv, \<lparr>s_value = snd kv, s_updated_at = now,
                 s_updated_by_user_id = Some user_id\<rparr>)]\<rparr>
     | Some s \<Rightarrow> if s_value s = snd kv then d
                 else d\<lparr>settings := AList.update (fst kv) \<lparr>s_value = snd kv, s_updated_at = now,
                   s_updated_by_user_id = Some user_id\<rparr> (settings d)\<rparr>)"

text \<open>The keys in alphabetical order, as the audit event lists the changed ones.\<close>

definition sorted_setting_keys :: "string list" where
  "sorted_setting_keys = [''assisted_shutdown_default_minutes'', ''backup_enabled'', ''backup_time'',
     ''disk_critical_gb'', ''disk_warning_gb'', ''drive_backup_retention'', ''local_backup_retention'',
     ''metrics_interval_seconds'', ''restart_timeout_seconds'', ''start_timeout_seconds'',
     ''stop_timeout_seconds'', ''timezone'']"

definition update_manager_settings ::
  "(string \<Rightarrow> bool) \<Rightarrow> (manager_settings \<Rightarrow> string) \<Rightarrow> manager_settings \<Rightarrow> string \<Rightarrow> int \<Rightarrow> int
     \<Rightarrow> (db, manager_settings \<times> string) prog" where
  "update_manager_settings zone_ok version values expected_version user_id now =
     bnd (load_manager_settings zone_ok) (\<lambda>current.
       andthen (require (\<not> (\<not> hex64 expected_version \<or> version current \<noteq> expected_version))
                  ManagerSettingsConflictError)
         (andthen (for_each (setting_values values) (write_setting user_id now))
           (andthen (record_audit_event now
               (admin_event ''MANAGER_SETTINGS_UPDATE'' AUDIT_RESULT_SUCCESS (Some user_id) None
                  (Some (msg_text ''Configura_c~oes do Painel''))
                  (Some [(''changed_keys'', JArr (map JStr (filter (\<lambda>k.
                     dict_get (setting_values current) k \<noteq> dict_get (setting_values values) k)
                     sorted_setting_keys)))])))
             (ret (values, version values)))))"

definition audit_manager_settings_failure :: "int \<Rightarrow> string \<Rightarrow> int \<Rightarrow> (db, unit) prog" where
  "audit_manager_settings_failure user_id reason now = record_audit_event now
     ((admin_event ''MANAGER_SETTINGS_UPDATE'' AUDIT_RESULT_FAILURE (Some user_id) None
        (Some (msg_text ''Configura_c~oes do Painel'')) (Some [(''error'', JStr reason)]))
        \<lparr>f_reason := Some reason\<rparr>)"

definition latest_of :: "(notification_event \<Rightarrow> bool) \<Rightarrow> db \<Rightarrow> notification_event option" where
  "latest_of p d = limit1 (order_by (\<lambda>n. - n_id n) (filter (\<lambda>n. n_event_type n = ''DISCORD_TEST''
     \<and> n_channel n = NOTIFICATION_CHANNEL_DISCORD \<and> p n) (notifications d)))"

definition enqueue_discord_test :: "int \<Rightarrow> int \<Rightarrow> (db, notification_event option) prog" where
  "enqueue_discord_test user_id now =
     bnd (reads (latest_of (\<lambda>n. n_status n = NOTIFICATION_STATUS_PENDING
                                \<or> n_status n = NOTIFICATION_STATUS_SENDING))) (\<lambda>active.
       if active \<noteq> None then ret active
       else bnd (reads (\<lambda>d. fresh_key n_id (notifications d))) (\<lambda>k.
         andthen (enqueue_discord_notification ''DISCORD_TEST'' None now)
           (andthen (record_audit_event now
               (admin_event ''DISCORD_TEST_REQUESTED'' AUDIT_RESULT_SUCCESS (Some user_id) None
                  (Some ''Discord'') (Some [(''notification_event_id'', JInt k)])))
             (reads (find_notification k)))))"

definition latest_discord_test :: "db \<Rightarrow> notification_event option" where
  "latest_discord_test d = latest_of (\<lambda>_. True) d"

definition configured_local_retention :: "(string \<Rightarrow> bool) \<Rightarrow> (db, int) prog" where
  "configured_local_retention zone_ok =
     bnd (load_manager_settings zone_ok) (\<lambda>v. ret (ms_local_backup_retention v))"

definition configured_drive_retention :: "(string \<Rightarrow> bool) \<Rightarrow> (db, int) prog" where
  "configured_drive_retention zone_ok =
     bnd (load_manager_settings zone_ok) (\<lambda>v. ret (ms_drive_backup_retention v))"

definition configured_metrics_interval :: "(string \<Rightarrow> bool) \<Rightarrow> (db, int) prog" where
  "configured_metrics_interval zone_ok =
     bnd (load_manager_settings zone_ok) (\<lambda>v. ret (ms_metrics_interval_seconds v))"

definition configured_disk_thresholds :: "(string \<Rightarrow> bool) \<Rightarrow> (db, int \<times> int) prog" where
  "configured_disk_thresholds zone_ok =
     bnd (load_manager_settings zone_ok) (\<lambda>v. ret (ms_disk_warning_gb v, ms_disk_critical_gb v))"

section \<open>What is stored is what is loaded\<close>

lemma find_setting_write:
  "find_setting k (snd (write_setting u now (l, x) d))
     = (if k = l then Some (case find_setting l d of
            None \<Rightarrow> \<lparr>s_value = x, s_updated_at = now, s_updated_by_user_id = Some u\<rparr>
          | Some s \<Rightarrow> if s_value s = x then s
              else \<lparr>s_value = x, s_updated_at = now, s_updated_by_user_id = Some u\<rparr>)
        else find_setting k d)"
  by (auto simp: write_setting_def modify_def find_setting_def update_conv' map_add_def split: option.split)

lemma wp_Inr: "m s = (Inr x, t) \<Longrightarrow> wp m Q E s = Q x t"
  by (simp add: wp_def)

lemma wp_write_settings:
  assumes "distinct (map fst kvs)"
  shows "wp (for_each kvs (write_setting u now))
    (\<lambda>_ d'. (\<forall>k v. map_of kvs k = Some v \<longrightarrow> map_option s_value (find_setting k d') = Some v)
       \<and> (\<forall>k. map_of kvs k = None \<longrightarrow> find_setting k d' = find_setting k d)) (\<lambda>_ _. False) d"
  using assms
proof (induction kvs arbitrary: d)
  case Nil
  then show ?case by (simp add: wp_simps)
next
  case (Cons kv kvs)
  obtain k v where kv: "kv = (k, v)" by force
  let ?d = "snd (write_setting u now (k, v) d)"
  have run: "write_setting u now (k, v) d = (Inr (), ?d)" by (simp add: write_setting_def modify_def)
  have here: "map_option s_value (find_setting k ?d) = Some v"
    by (simp add: find_setting_write split: option.split)
  have fresh: "map_of kvs k = None" using Cons.prems by (simp add: kv map_of_eq_None_iff)
  have "wp (for_each kvs (write_setting u now))
    (\<lambda>_ d'. (\<forall>l w. map_of kvs l = Some w \<longrightarrow> map_option s_value (find_setting l d') = Some w)
       \<and> (\<forall>l. map_of kvs l = None \<longrightarrow> find_setting l d' = find_setting l ?d)) (\<lambda>_ _. False) ?d"
    using Cons.prems by (intro Cons.IH) simp
  then have "wp (for_each kvs (write_setting u now))
    (\<lambda>_ d'. (\<forall>l w. map_of (kv # kvs) l = Some w \<longrightarrow> map_option s_value (find_setting l d') = Some w)
       \<and> (\<forall>l. map_of (kv # kvs) l = None \<longrightarrow> find_setting l d' = find_setting l d)) (\<lambda>_ _. False) ?d"
  proof (rule wp_mono)
    fix x :: unit and d'
    assume h: "(\<forall>l w. map_of kvs l = Some w \<longrightarrow> map_option s_value (find_setting l d') = Some w)
       \<and> (\<forall>l. map_of kvs l = None \<longrightarrow> find_setting l d' = find_setting l ?d)"
    then have "map_option s_value (find_setting k d') = Some v" using fresh here by simp
    moreover have "find_setting l ?d = find_setting l d" if "l \<noteq> k" for l
      using that by (simp add: find_setting_write)
    ultimately show "(\<forall>l w. map_of (kv # kvs) l = Some w \<longrightarrow> map_option s_value (find_setting l d') = Some w)
       \<and> (\<forall>l. map_of (kv # kvs) l = None \<longrightarrow> find_setting l d' = find_setting l d)"
      using h by (simp add: kv)
  qed
  then show ?case
    unfolding kv for_each.simps wp_andthen wp_Inr [where m = "write_setting u now (k, v)" and s = d, OF run] .
qed

lemma map_of_map_filter_keys:
  "map_of (List.map_filter (\<lambda>k. map_option (\<lambda>s. (k, f s)) (g k)) ks) k
     = (if k \<in> set ks then map_option f (g k) else None)"
  by (induction ks) (auto simp: List.map_filter_simps split: option.split)

lemma distinct_setting_keys: "distinct OPERATIONAL_SETTING_KEYS"
  by code_simp

lemma keys_setting_values: "map fst (setting_values v) = OPERATIONAL_SETTING_KEYS"
  by (simp add: setting_values_def OPERATIONAL_SETTING_KEYS_def DEFAULT_MANAGER_SETTINGS_def)

lemma dom_overrides: "fst ` set (setting_overrides d) \<subseteq> set OPERATIONAL_SETTING_KEYS"
  by (auto simp: setting_overrides_def List.map_filter_def)

lemma keys_dict_merge: "set (map fst (dict_merge a b)) = set (map fst a) \<union> set (map fst b)"
proof (rule set_eqI)
  fix k
  have dom: "k \<in> set (map fst m) \<longleftrightarrow> map_of m k \<noteq> None" for m :: dict
    by (simp add: map_of_eq_None_iff)
  have "map_of (dict_merge a b) k = (map_of a ++ map_of (rev b)) k"
    using dict_get_merge [of a b k] by (simp only: dict_get_def)
  moreover have "map_of (rev b) k \<noteq> None \<longleftrightarrow> k \<in> set (map fst b)"
    by (simp add: map_of_eq_None_iff)
  ultimately show "k \<in> set (map fst (dict_merge a b)) \<longleftrightarrow> k \<in> set (map fst a) \<union> set (map fst b)"
    unfolding dom [of "dict_merge a b"] Un_iff dom [of a]
    by (cases "map_of (rev b) k") (simp_all add: map_add_def)
qed

text \<open>When every override is present, the loaded dictionary is the stored one.\<close>

lemma model_validate_cong:
  assumes "set (map fst a) = set (map fst b)" and "\<And>k. k \<in> set OPERATIONAL_SETTING_KEYS \<Longrightarrow> dict_get a k = dict_get b k"
  shows "model_validate z a = model_validate z b"
proof -
  have keys: "''timezone'' \<in> set OPERATIONAL_SETTING_KEYS" "''backup_enabled'' \<in> set OPERATIONAL_SETTING_KEYS"
    "''backup_time'' \<in> set OPERATIONAL_SETTING_KEYS"
    by (simp_all add: OPERATIONAL_SETTING_KEYS_def DEFAULT_MANAGER_SETTINGS_def)
  have "map (\<lambda>k. json_int (dict_get a k)) (drop 3 OPERATIONAL_SETTING_KEYS)
      = map (\<lambda>k. json_int (dict_get b k)) (drop 3 OPERATIONAL_SETTING_KEYS)"
    using assms(2) by (auto dest: in_set_dropD)
  then show ?thesis
    by (simp only: model_validate_def assms(1) assms(2) [OF keys(1)] assms(2) [OF keys(2)] assms(2) [OF keys(3)])
qed

lemma json_some_simps [simp]:
  "json_str (Some (JStr s)) = Some s" "json_bool (Some (JBool b)) = Some b" "json_int (Some (JInt n)) = Some n"
  by (simp_all add: json_str_def json_bool_def json_int_def)

lemma model_validate_values:
  assumes "settings_ok z v" and "strip (ms_timezone v) = ms_timezone v"
    and "1 \<le> length (ms_timezone v)" and "length (ms_timezone v) \<le> 100"
  shows "model_validate z (setting_values v) = Some v"
proof -
  have "set (map fst (setting_values v)) = set OPERATIONAL_SETTING_KEYS" by (simp only: keys_setting_values)
  moreover have "dict_get (setting_values v) ''timezone'' = Some (JStr (ms_timezone v))"
    "dict_get (setting_values v) ''backup_enabled'' = Some (JBool (ms_backup_enabled v))"
    "dict_get (setting_values v) ''backup_time'' = Some (JStr (ms_backup_time v))"
    by (simp_all add: dict_get_def setting_values_def)
  moreover have "map (\<lambda>k. json_int (dict_get (setting_values v) k)) (drop 3 OPERATIONAL_SETTING_KEYS)
      = [Some (ms_local_backup_retention v), Some (ms_drive_backup_retention v),
         Some (ms_metrics_interval_seconds v), Some (ms_assisted_shutdown_default_minutes v),
         Some (ms_start_timeout_seconds v), Some (ms_restart_timeout_seconds v),
         Some (ms_stop_timeout_seconds v), Some (ms_disk_warning_gb v), Some (ms_disk_critical_gb v)]"
    by (simp add: OPERATIONAL_SETTING_KEYS_def DEFAULT_MANAGER_SETTINGS_def dict_get_def setting_values_def)
  ultimately show ?thesis
    using assms unfolding model_validate_def by (cases v) (simp add: Let_def)
qed

text \<open>When every value is stored, loading gives what is stored.\<close>

lemma load_of_stored:
  assumes ok: "settings_ok z v" "strip (ms_timezone v) = ms_timezone v"
      "1 \<le> length (ms_timezone v)" "length (ms_timezone v) \<le> 100"
    and stored: "\<And>k x. map_of (setting_values v) k = Some x \<Longrightarrow>
      map_option s_value (find_setting k d) = Some x"
  shows "load_manager_settings z d = (Inr v, d)"
proof -
  let ?m = "dict_merge DEFAULT_MANAGER_SETTINGS (setting_overrides d)"
  have all: "map_option s_value (find_setting k d) = dict_get (setting_values v) k"
    if k: "k \<in> set OPERATIONAL_SETTING_KEYS" for k
  proof -
    from k have "map_of (setting_values v) k \<noteq> None"
      by (simp only: map_of_eq_None_iff set_map [symmetric] keys_setting_values) simp
    then obtain x where "map_of (setting_values v) k = Some x" by blast
    with stored [OF this] show ?thesis by (simp add: dict_get_def)
  qed
  have over: "map_of (setting_overrides d) k = map_option s_value (find_setting k d)"
    if "k \<in> set OPERATIONAL_SETTING_KEYS" for k
    using that unfolding setting_overrides_def by (simp add: map_of_map_filter_keys)
  have dist: "distinct (map fst (setting_overrides d))"
  proof -
    have "map fst (List.map_filter (\<lambda>k. map_option (\<lambda>s. (k, s_value s)) (find_setting k d)) ks)
        = filter (\<lambda>k. find_setting k d \<noteq> None) ks" for ks
      by (induction ks) (auto simp: List.map_filter_simps split: option.split)
    then have "map fst (setting_overrides d)
        = filter (\<lambda>k. find_setting k d \<noteq> None) OPERATIONAL_SETTING_KEYS"
      unfolding setting_overrides_def .
    then show ?thesis using distinct_setting_keys by simp
  qed
  have "dict_get ?m k = dict_get (setting_values v) k" if k: "k \<in> set OPERATIONAL_SETTING_KEYS" for k
  proof -
    have "map_of (rev (setting_overrides d)) k = map_of (setting_overrides d) k"
      using dist map_of_inject_set [of "rev (setting_overrides d)" "setting_overrides d"]
      by (simp add: rev_map [symmetric])
    moreover have "map_of (setting_overrides d) k = dict_get (setting_values v) k"
      using over [OF k] all [OF k] by simp
    moreover have "map_of (setting_overrides d) k \<noteq> None"
      using k over [OF k] all [OF k] keys_setting_values [of v]
      by (simp add: dict_get_def map_of_eq_None_iff) (metis list.set_map)
    ultimately show ?thesis
      using dict_get_merge [of DEFAULT_MANAGER_SETTINGS "setting_overrides d" k]
      by (auto simp: map_add_def)
  qed
  moreover have "set (map fst ?m) = set (map fst (setting_values v))"
    unfolding keys_dict_merge keys_setting_values
    using dom_overrides [of d] by (auto simp: OPERATIONAL_SETTING_KEYS_def)
  ultimately have "model_validate z ?m = model_validate z (setting_values v)"
    by (intro model_validate_cong) auto
  then show ?thesis
    using model_validate_values [OF ok] by (simp add: load_manager_settings_def run_defs)
qed

lemma load_manager_settings_state: "snd (load_manager_settings z d) = d"
  by (simp add: load_manager_settings_def run_defs split: option.split)

lemma valid_MANAGER_SETTINGS_UPDATE [simp]: "valid_audit_action ''MANAGER_SETTINGS_UPDATE''"
  by code_simp

text \<open>An update based on the current version succeeds, and what is then loaded is what was submitted.\<close>

lemma wp_update_settings:
  assumes ok: "settings_ok z v" "strip (ms_timezone v) = ms_timezone v"
      "1 \<le> length (ms_timezone v)" "length (ms_timezone v) \<le> 100"
    and cur: "load_manager_settings z d = (Inr c, d)" "hex64 expected" "expected = version c"
  shows "wp (update_manager_settings z version v expected u now)
    (\<lambda>r d1. r = (v, version v) \<and> load_manager_settings z d1 = (Inr v, d1)) (\<lambda>_ _. False) d"
proof -
  let ?Q = "\<lambda>r d1. r = (v, version v) \<and> load_manager_settings z d1 = (Inr v, d1)"
  have stores: "wp (for_each (setting_values v) (write_setting u now))
      (\<lambda>_ d1. load_manager_settings z (audited now f d1) = (Inr v, audited now f d1)) (\<lambda>_ _. False) d" for f
  proof (rule wp_mono [OF wp_write_settings])
    show "distinct (map fst (setting_values v))"
      unfolding keys_setting_values by (rule distinct_setting_keys)
    fix x :: unit and d1
    assume "(\<forall>k w. map_of (setting_values v) k = Some w \<longrightarrow> map_option s_value (find_setting k d1) = Some w)
       \<and> (\<forall>k. map_of (setting_values v) k = None \<longrightarrow> find_setting k d1 = find_setting k d)"
    then show "load_manager_settings z (audited now f d1) = (Inr v, audited now f d1)"
      by (intro load_of_stored [OF ok]) (simp add: find_setting_def)
  qed simp
  have "wp (andthen (for_each (setting_values v) (write_setting u now))
      (andthen (record_audit_event now f) (ret (v, version v)))) ?Q (\<lambda>_ _. False) d"
    if "f_action f = ''MANAGER_SETTINGS_UPDATE''" for f
    unfolding wp_andthen
    by (rule wp_mono [OF stores [of f]]) (use that in \<open>auto simp: wp_record_audit_event' wp_ret\<close>)
  then show ?thesis
    unfolding update_manager_settings_def wp_bnd wp_Inr [where m = "load_manager_settings z" and s = d, OF cur(1)]
    by (subst wp_andthen) (simp add: wp_require cur(2) cur(3) [symmetric])
qed

text \<open>
  C18: an accepted update of the settings was based on the current version, and what is loaded
  afterwards is exactly what was submitted. An update that still names the old version is then
  refused and changes nothing, as long as the two versions differ.
\<close>

theorem settings_update_roundtrip:
  assumes "settings_ok z v" and "strip (ms_timezone v) = ms_timezone v"
    and "1 \<le> length (ms_timezone v)" and "length (ms_timezone v) \<le> 100"
    and "update_manager_settings z version v expected u now d = (Inr r, d')"
  shows "(\<exists>current. load_manager_settings z d = (Inr current, d) \<and> version current = expected)
     \<and> r = (v, version v) \<and> load_manager_settings z d' = (Inr v, d')
     \<and> (version v \<noteq> expected \<longrightarrow> update_manager_settings z version v2 expected u2 t d'
           = (Inl ManagerSettingsConflictError, d'))"
proof -
  obtain c where c: "load_manager_settings z d = (Inr c, d)"
    using assms(5) load_manager_settings_state [of z d]
    by (cases "load_manager_settings z d"; cases "fst (load_manager_settings z d)")
      (auto simp: update_manager_settings_def bnd_def)
  have ver: "hex64 expected \<and> version c = expected"
    using assms(5) by (auto simp: update_manager_settings_def bnd_def c andthen_def require_def raise_def
        split: if_splits)
  from ver have ver1: "hex64 expected" and ver2: "expected = version c" by simp_all
  have res: "r = (v, version v) \<and> load_manager_settings z d' = (Inr v, d')"
    by (rule wp_InrD [OF wp_update_settings [where version = version, OF assms(1-4) c ver1 ver2] assms(5)])
  have "update_manager_settings z version v2 expected u2 t d' = (Inl ManagerSettingsConflictError, d')"
    if "version v \<noteq> expected"
    using that res by (simp add: update_manager_settings_def bnd_def andthen_def require_def raise_def)
  with c ver res show ?thesis by blast
qed

definition sample_settings :: manager_settings where
  "sample_settings = \<lparr>ms_timezone = ''America/Sao_Paulo'', ms_backup_enabled = False,
     ms_backup_time = ''23:30'', ms_local_backup_retention = 3, ms_drive_backup_retention = 10,
     ms_metrics_interval_seconds = 5, ms_assisted_shutdown_default_minutes = 10,
     ms_start_timeout_seconds = 120, ms_restart_timeout_seconds = 120, ms_stop_timeout_seconds = 60,
     ms_disk_warning_gb = 20, ms_disk_critical_gb = 10\<rparr>"

definition sample_version :: "manager_settings \<Rightarrow> string" where
  "sample_version v = replicate 64 (if ms_backup_enabled v then CHR ''a'' else CHR ''b'')"

definition sample_update :: "(exn + manager_settings \<times> string) \<times> db" where
  "sample_update = update_manager_settings (\<lambda>_. True) sample_version sample_settings
     (replicate 64 CHR ''a'') 1 0 empty_db"

lemma load_empty:
  "load_manager_settings (\<lambda>_. True) empty_db
     = (Inr (sample_settings\<lparr>ms_backup_enabled := True, ms_backup_time := ''04:00'',
          ms_assisted_shutdown_default_minutes := 5\<rparr>), empty_db)"
  by code_simp

theorem settings_update_roundtrip_witness:
  "load_manager_settings (\<lambda>_. True) (snd sample_update) = (Inr sample_settings, snd sample_update)"
proof -
  have ok: "settings_ok (\<lambda>_. True) sample_settings" by code_simp
  have tz: "strip (ms_timezone sample_settings) = ms_timezone sample_settings"
    "1 \<le> length (ms_timezone sample_settings)" "length (ms_timezone sample_settings) \<le> 100"
    by code_simp+
  have hex: "hex64 (replicate 64 CHR ''a'')" by code_simp
  have "fst sample_update = Inr (sample_settings, sample_version sample_settings)"
    using wp_update_settings [where version = sample_version and u = 1 and now = 0, OF ok tz load_empty hex]
    by (force simp: sample_update_def wp_def sample_version_def sample_settings_def split: prod.splits sum.splits)
  then have run: "update_manager_settings (\<lambda>_. True) sample_version sample_settings
     (replicate 64 CHR ''a'') 1 0 empty_db
     = (Inr (sample_settings, sample_version sample_settings), snd sample_update)"
    unfolding sample_update_def [symmetric] by (metis prod.collapse)
  show ?thesis
    by (rule conjunct1 [OF conjunct2 [OF conjunct2 [OF settings_update_roundtrip [OF ok tz run]]]])
qed

end
