(* ===== verification/BackupQueue.thy ===== *)
theory BackupQueue
  imports Artifacts ManagerSettings "HOL-Library.Sublist"
begin

text \<open>
  Queueing local backups, their registration and the local retention (\<open>app/backups/jobs.py\<close>), and the
  daily scheduler (\<open>app/backups/scheduler.py\<close>).
\<close>

section \<open>Queueing and cancelling\<close>

definition LOCAL_BACKUP_JOB_KIND :: string where
  "LOCAL_BACKUP_JOB_KIND = ''LOCAL_BACKUP''"

definition LOCAL_BACKUP_COORDINATION_KEY :: string where
  "LOCAL_BACKUP_COORDINATION_KEY = ''LOCAL_BACKUP''"

text \<open>The origin of a request: a user, the scheduler, or the system.\<close>

definition request_origin :: "int option \<Rightarrow> bool \<Rightarrow> audit_origin" where
  "request_origin user_id automatic =
     (if user_id \<noteq> None then AUDIT_ORIGIN_ADMINISTRATOR
      else if automatic then AUDIT_ORIGIN_AUTOMATIC else AUDIT_ORIGIN_SYSTEM)"

definition request_event ::
  "string \<Rightarrow> int option \<Rightarrow> bool \<Rightarrow> int \<Rightarrow> string \<Rightarrow> dict \<Rightarrow> audit_fields" where
  "request_event action user_id automatic job_id target details =
     \<lparr>f_action = action, f_result = AUDIT_RESULT_SUCCESS, f_origin = request_origin user_id automatic,
      f_user_id = user_id, f_job_id = Some job_id, f_target = Some target, f_reason = None,
      f_details = Some details\<rparr>"

definition valid_trigger :: "string \<Rightarrow> bool" where
  "valid_trigger t = (t = ''MANUAL'' \<or> t = ''AUTOMATIC'')"

definition enqueue_local_backup :: "int option \<Rightarrow> string \<Rightarrow> int \<Rightarrow> (db, job) prog" where
  "enqueue_local_backup user_id trigger now =
     andthen (require (valid_trigger trigger) ValueError)
       (bnd (reads (active_with_key LOCAL_BACKUP_COORDINATION_KEY)) (\<lambda>active.
         andthen (require (\<not> active) BackupJobConflictError)
           (bnd (add_job BackupJobConflictError
                  (new_job LOCAL_BACKUP_JOB_KIND True True LOCAL_BACKUP_COORDINATION_KEY None
                     [(''trigger'', JStr trigger)] now)) (\<lambda>job.
             andthen (record_audit_event now
                 (request_event ''BACKUP_REQUESTED'' user_id (trigger = ''AUTOMATIC'') (j_id job) ''Backup local''
                    [(''trigger'', JStr trigger)]))
               (ret job)))))"

text \<open>The conditional update of both cancellations: an active, cancellable job of the kinds, once.\<close>

definition cancellable_job :: "string list \<Rightarrow> job \<Rightarrow> bool" where
  "cancellable_job kinds j \<longleftrightarrow> j_kind j \<in> set kinds \<and> active_status (j_status j) \<and> j_is_cancellable j
     \<and> \<not> j_cancel_requested j"

definition request_cancel :: "string list \<Rightarrow> string \<Rightarrow> string \<Rightarrow> int \<Rightarrow> int \<Rightarrow> int \<Rightarrow> (db, bool) prog" where
  "request_cancel kinds action target k user_id now =
     bnd (reads (find_job k)) (\<lambda>found. case found of
         None \<Rightarrow> ret False
       | Some j \<Rightarrow>
           if \<not> cancellable_job kinds j then ret False
           else andthen (put_job (j\<lparr>j_cancel_requested := True\<rparr>))
             (andthen (record_audit_event now
                 (admin_event action AUDIT_RESULT_SUCCESS (Some user_id) (Some k) (Some target) None))
               (ret True)))"

definition request_backup_cancel :: "int \<Rightarrow> int \<Rightarrow> int \<Rightarrow> (db, bool) prog" where
  "request_backup_cancel = request_cancel [LOCAL_BACKUP_JOB_KIND] ''BACKUP_CANCEL_REQUESTED'' ''Backup local''"

record backup_job_view =
  bv_id :: int
  bv_status :: job_status
  bv_step :: string
  bv_progress :: int
  bv_is_cancellable :: bool
  bv_trigger :: string
  bv_error :: "string option"

definition backup_job_view :: "job \<Rightarrow> exn + backup_job_view" where
  "backup_job_view j =
     (if j_kind j \<noteq> LOCAL_BACKUP_JOB_KIND then Inl ValueError
      else Inr \<lparr>bv_id = j_id j, bv_status = j_status j, bv_step = j_step j, bv_progress = j_progress j,
        bv_is_cancellable = j_is_cancellable j,
        bv_trigger = (case json_str (dict_get (dict_of (j_result j)) ''trigger'') of
            None \<Rightarrow> ''MANUAL'' | Some t \<Rightarrow> t),
        bv_error = json_str (dict_get (dict_of (j_result j)) ''error'')\<rparr>)"

definition latest_backup_job :: "db \<Rightarrow> job option" where
  "latest_backup_job d =
     limit1 (order_by (\<lambda>j. - j_id j) (filter (\<lambda>j. j_kind j = LOCAL_BACKUP_JOB_KIND) (jobs d)))"

section \<open>Records of the artifacts\<close>

text \<open>\<open>session.add(BackupRecord(...))\<close> and \<open>flush\<close>: location and filename are unique together.\<close>

definition insert_backup :: "(int \<Rightarrow> backup_record) \<Rightarrow> (db, backup_record) prog" where
  "insert_backup mk = (\<lambda>d. let r = mk (fresh_key b_id (backups d)) in
     if list_ex (\<lambda>x. b_location x = b_location r \<and> b_filename x = b_filename r) (backups d)
     then (Inl IntegrityError, d) else (Inr r, d\<lparr>backups := backups d @ [r]\<rparr>))"

definition register_backup_artifact :: "backup_artifact \<Rightarrow> int \<Rightarrow> (db, backup_record) prog" where
  "register_backup_artifact a job_id = insert_backup (\<lambda>k.
     \<lparr>b_id = k, b_job_id = Some job_id, b_filename = ba_filename a, b_location = LOCAL, b_status = ''VALID'',
      b_sha256 = Some (ba_sha256 a), b_size_bytes = Some (ba_size_bytes a),
      b_storage_path = ba_storage_path a, b_created_at = ba_created_at a\<rparr>)"

definition delete_backup :: "int \<Rightarrow> (db, unit) prog" where
  "delete_backup k = modify (\<lambda>d. d\<lparr>backups := row_delete b_id k (backups d)\<rparr>)"

section \<open>Retention\<close>

definition valid_records :: "backup_location \<Rightarrow> db \<Rightarrow> backup_record list" where
  "valid_records loc d = order_by (\<lambda>r. (- b_created_at r, - b_id r))
     (filter (\<lambda>r. b_location r = loc \<and> b_status r = ''VALID'') (backups d))"

fun managed_records :: "env \<Rightarrow> backup_record list \<Rightarrow> (world, backup_record list) prog" where
  "managed_records env [] = ret []"
| "managed_records env (r # rs) =
     bnd (resolve_managed_artifact env (b_storage_path r)) (\<lambda>target.
       bnd (managed_records env rs) (\<lambda>ms. ret (if target \<noteq> None then r # ms else ms)))"

fun keep_newest :: "int \<Rightarrow> backup_record list \<Rightarrow> backup_record list \<Rightarrow> backup_record list" where
  "keep_newest retention kept [] = kept"
| "keep_newest retention kept (r # rs) =
     (if retention \<le> int (length kept) then kept
      else if r \<in> set kept then keep_newest retention kept rs
      else keep_newest retention (kept @ [r]) rs)"

definition retained :: "int \<Rightarrow> int list \<Rightarrow> backup_record list \<Rightarrow> backup_record list" where
  "retained retention preserve_record_ids managed =
     keep_newest retention (filter (\<lambda>r. b_id r \<in> set preserve_record_ids) managed) managed"

definition surplus :: "int \<Rightarrow> int list \<Rightarrow> backup_record list \<Rightarrow> backup_record list" where
  "surplus retention preserve_record_ids managed =
     filter (\<lambda>r. b_id r \<notin> b_id ` set (retained retention preserve_record_ids managed)) managed"

definition apply_local_retention :: "env \<Rightarrow> int \<Rightarrow> int list \<Rightarrow> (world, unit) prog" where
  "apply_local_retention env retention preserve_record_ids =
     bnd (on_db (reads (valid_records LOCAL))) (\<lambda>records.
       bnd (managed_records env records) (\<lambda>managed.
         for_each (surplus retention preserve_record_ids managed) (\<lambda>r.
           andthen (remove_managed_artifact env (b_storage_path r)) (on_db (delete_backup (b_id r))))))"

section \<open>The daily schedule\<close>

definition LAST_SCHEDULED_DATE_KEY :: string where
  "LAST_SCHEDULED_DATE_KEY = ''backup_last_scheduled_local_date''"

definition boolean_setting :: "string \<Rightarrow> bool \<Rightarrow> db \<Rightarrow> exn + bool" where
  "boolean_setting k dflt d = (case find_setting k d of
       None \<Rightarrow> Inr dflt
     | Some s \<Rightarrow> (case json_bool (Some (s_value s)) of None \<Rightarrow> Inl ValueError | Some b \<Rightarrow> Inr b))"

text \<open>\<open>ZoneInfo\<close> is the parameter: the offset of a zone at a time, None for an unknown zone.\<close>

definition timezone_setting :: "(string \<Rightarrow> (int \<Rightarrow> int) option) \<Rightarrow> db \<Rightarrow> exn + (int \<Rightarrow> int)" where
  "timezone_setting zone d =
     (case (case find_setting ''timezone'' d of
              None \<Rightarrow> Some ''America/Sao_Paulo'' | Some s \<Rightarrow> json_str (Some (s_value s))) of
        None \<Rightarrow> Inl ValueError
      | Some name \<Rightarrow> (case zone name of None \<Rightarrow> Inl ValueError | Some offset \<Rightarrow> Inr offset))"

definition time_setting :: "db \<Rightarrow> exn + int" where
  "time_setting d =
     (case (case find_setting ''backup_time'' d of
              None \<Rightarrow> Some ''04:00'' | Some s \<Rightarrow> json_str (Some (s_value s))) of
        None \<Rightarrow> Inl ValueError
      | Some text \<Rightarrow> (case time_fromisoformat text of
            None \<Rightarrow> Inl ValueError
          | Some (h, m, sec, us) \<Rightarrow>
              if sec \<noteq> 0 \<or> us \<noteq> 0 then Inl ValueError else Inr (seconds (3600 * h + 60 * m))))"

definition lift :: "('s \<Rightarrow> exn + 'a) \<Rightarrow> ('s, 'a) prog" where
  "lift f = (\<lambda>s. (f s, s))"

definition put_marker :: "string \<Rightarrow> int \<Rightarrow> (db, unit) prog" where
  "put_marker local_date now = modify (\<lambda>d. case find_setting LAST_SCHEDULED_DATE_KEY d of
       None \<Rightarrow> d\<lparr>settings := settings d @ [(LAST_SCHEDULED_DATE_KEY,
         \<lparr>s_value = JStr local_date, s_updated_at = current_timestamp now, s_updated_by_user_id = None\<rparr>)]\<rparr>
     | Some s \<Rightarrow> d\<lparr>settings := AList.update LAST_SCHEDULED_DATE_KEY (s\<lparr>s_value := JStr local_date\<rparr>) (settings d)\<rparr>)"

definition schedule_daily_backup :: "(string \<Rightarrow> (int \<Rightarrow> int) option) \<Rightarrow> int \<Rightarrow> (db, bool) prog" where
  "schedule_daily_backup zone now =
     bnd (lift (boolean_setting ''backup_enabled'' True)) (\<lambda>enabled.
       if \<not> enabled then ret False
       else bnd (lift (timezone_setting zone)) (\<lambda>offset.
         bnd (lift time_setting) (\<lambda>scheduled_time.
           if time_of_day (now + offset now) < scheduled_time then ret False
           else bnd (reads (find_setting LAST_SCHEDULED_DATE_KEY)) (\<lambda>marker.
             if map_option s_value marker = Some (JStr (date_isoformat (now + offset now))) then ret False
             else bnd (handle (andthen (enqueue_local_backup None ''AUTOMATIC'' now) (ret True))
                         (\<lambda>e. if e = BackupJobConflictError then ret False else raise e)) (\<lambda>queued.
               if \<not> queued then ret False
               else andthen (put_marker (date_isoformat (now + offset now)) now) (ret True))))))"

section \<open>The producer\<close>

lemma wp_lift [wp_simps]: "wp (lift f) Q E s = (case f s of Inl e \<Rightarrow> E e s | Inr x \<Rightarrow> Q x s)"
  by (simp add: wp_def lift_def split: sum.split)

lemma lift_run: "lift f s = (f s, s)"
  by (simp add: lift_def)

lemma request_event_action [simp]: "f_action (request_event a u b k t x) = a"
  by (simp add: request_event_def)

lemma valid_BACKUP [simp]: "valid_audit_action ''BACKUP_REQUESTED''" "valid_audit_action ''BACKUP_CANCEL_REQUESTED''"
  "valid_audit_action ''BACKUP''"
  by code_simp+

lemma wp_enqueue_local_backup:
  "wp (enqueue_local_backup u trigger now)
     (\<lambda>j d'. appended LOCAL_BACKUP_COORDINATION_KEY j d d' \<and> j_kind j = LOCAL_BACKUP_JOB_KIND
        \<and> j_requires_maintenance_lock j \<and> j_is_cancellable j
        \<and> dict_get (dict_of (j_result j)) ''trigger'' = Some (JStr trigger) \<and> valid_trigger trigger
        \<and> settings d' = settings d)
     (\<lambda>e d'. d' = d \<and> (e = ValueError \<or> e = BackupJobConflictError)) d"
  by (simp add: enqueue_local_backup_def wp_simps Let_def dict_get_def dict_of_def)

interpretation local_backup_producer: job_producer
  "\<lambda>(u, trigger, now). enqueue_local_backup u trigger now" LOCAL_BACKUP_COORDINATION_KEY
  by unfold_locales (auto split: prod.split intro!: wp_mono [OF wp_enqueue_local_backup])

section \<open>What the retention keeps\<close>

lemma keep_newest_prefix:
  "\<exists>p s. rs = p @ s \<and> set (keep_newest n kept rs) = set kept \<union> set p
     \<and> (s \<noteq> [] \<longrightarrow> n \<le> int (length (keep_newest n kept rs)))"
proof (induction n kept rs rule: keep_newest.induct)
  case (1 n kept)
  then show ?case by simp
next
  case (2 n kept r rs)
  show ?case
  proof (cases "n \<le> int (length kept)")
    case True
    then show ?thesis by (intro exI [of _ "[]"] exI [of _ "r # rs"]) simp
  next
    case False
    let ?k = "if r \<in> set kept then kept else kept @ [r]"
    have step: "keep_newest n kept (r # rs) = keep_newest n ?k rs" using False by simp
    from 2 False obtain p s where "rs = p @ s" "set (keep_newest n ?k rs) = set ?k \<union> set p"
      "s \<noteq> [] \<longrightarrow> n \<le> int (length (keep_newest n ?k rs))" by (cases "r \<in> set kept") (simp_all, blast+)
    then show ?thesis unfolding step by (intro exI [of _ "r # p"] exI [of _ s]) auto
  qed
qed

lemma keep_newest_length: "int (length (keep_newest n kept rs)) \<le> max n (int (length kept))"
  by (induction n kept rs rule: keep_newest.induct) auto

lemma retained_subset: "set (retained n pres ms) \<subseteq> set ms"
proof -
  obtain p s where "ms = p @ s"
    "set (retained n pres ms) = set (filter (\<lambda>r. b_id r \<in> set pres) ms) \<union> set p"
    using keep_newest_prefix [of ms n "filter (\<lambda>r. b_id r \<in> set pres) ms"] unfolding retained_def by blast
  then show ?thesis by auto
qed

text \<open>The managed records are found without changing the database or the files.\<close>

lemma resolve_frame:
  "wp (resolve_managed_artifact env p) (\<lambda>t w'. w_db w' = w_db w \<and> w_artifacts w' = w_artifacts w
      \<and> (\<forall>q. t = Some q \<longrightarrow> managed_path p = Some q))
     (\<lambda>_ w'. w_db w' = w_db w \<and> w_artifacts w' = w_artifacts w) w"
  by (simp add: resolve_managed_artifact_def validate_controlled_directory_def wp_simps Let_def
      split: option.split sum.split prod.split)

lemma managed_records_frame:
  "wp (managed_records env rs) (\<lambda>ms w'. subseq ms rs \<and> w_db w' = w_db w \<and> w_artifacts w' = w_artifacts w)
     (\<lambda>_ w'. w_db w' = w_db w \<and> w_artifacts w' = w_artifacts w) w"
proof (induction rs arbitrary: w)
  case Nil
  then show ?case by (simp add: wp_simps)
next
  case (Cons r rs)
  show ?case
    unfolding managed_records.simps wp_bnd
  proof (rule wp_mono [OF resolve_frame])
    fix t and w1 :: world
    assume h: "w_db w1 = w_db w \<and> w_artifacts w1 = w_artifacts w
      \<and> (\<forall>q. t = Some q \<longrightarrow> managed_path (b_storage_path r) = Some q)"
    show "wp (managed_records env rs)
        (\<lambda>x. wp (ret (if t \<noteq> None then r # x else x))
              (\<lambda>ms w'. subseq ms (r # rs) \<and> w_db w' = w_db w \<and> w_artifacts w' = w_artifacts w)
              (\<lambda>_ w'. w_db w' = w_db w \<and> w_artifacts w' = w_artifacts w))
        (\<lambda>_ w'. w_db w' = w_db w \<and> w_artifacts w' = w_artifacts w) w1"
      by (rule wp_mono [OF Cons.IH]) (use h in \<open>auto simp: wp_ret\<close>)
  qed
qed

text \<open>Every removal takes away at most the file of its record.\<close>

definition only_files_of :: "backup_record list \<Rightarrow> world \<Rightarrow> world \<Rightarrow> bool" where
  "only_files_of rs w w' \<longleftrightarrow> set (w_artifacts w') \<subseteq> set (w_artifacts w)
     \<and> (\<forall>p \<in> set (w_artifacts w) - set (w_artifacts w'). \<exists>r \<in> set rs. managed_path (b_storage_path r) = Some p)"

lemma only_files_of_trans:
  "only_files_of rs w w1 \<Longrightarrow> only_files_of ss w1 w2 \<Longrightarrow> only_files_of (rs @ ss) w w2"
  by (auto simp: only_files_of_def) blast+

lemma remove_frame:
  "wp (remove_managed_artifact env (b_storage_path r)) (\<lambda>_ w'. w_db w' = w_db w \<and> only_files_of [r] w w')
     (\<lambda>_ w'. w_db w' = w_db w \<and> only_files_of [r] w w') w"
  unfolding remove_managed_artifact_def wp_bnd
proof (rule wp_mono [OF resolve_frame])
  fix t and w1 :: world
  assume h: "w_db w1 = w_db w \<and> w_artifacts w1 = w_artifacts w
      \<and> (\<forall>q. t = Some q \<longrightarrow> managed_path (b_storage_path r) = Some q)"
  show "wp (case t of None \<Rightarrow> ret False
     | Some p \<Rightarrow> bnd (reads (\<lambda>w. p \<in> set (w_artifacts w))) (\<lambda>present.
         if \<not> present then ret False
         else andthen (file_step env ''unlink'') (andthen (modify (drop_artifact p)) (ret True))))
      (\<lambda>_ w'. w_db w' = w_db w \<and> only_files_of [r] w w') (\<lambda>_ w'. w_db w' = w_db w \<and> only_files_of [r] w w') w1"
  proof (cases t)
    case None
    then show ?thesis using h by (simp add: wp_ret only_files_of_def)
  next
    case (Some p)
    then have "managed_path (b_storage_path r) = Some p" using h by simp
    then show ?thesis
      using h unfolding Some option.case
      by (auto simp: wp_simps file_step_def drop_artifact_def only_files_of_def Let_def split: sum.split)
  qed
qed (simp add: only_files_of_def)

lemma delete_each:
  "wp (for_each rs (\<lambda>r. andthen (remove_managed_artifact env (b_storage_path r)) (on_db (delete_backup (b_id r)))))
     (\<lambda>_ w'. w_db w' = (w_db w)\<lparr>backups := filter (\<lambda>x. b_id x \<notin> b_id ` set rs) (backups (w_db w))\<rparr>
        \<and> only_files_of rs w w')
     (\<lambda>_ w'. only_files_of rs w w') w"
proof (induction rs arbitrary: w)
  case Nil
  then show ?case by (simp add: wp_ret only_files_of_def)
next
  case (Cons r rs)
  let ?body = "\<lambda>r. andthen (remove_managed_artifact env (b_storage_path r)) (on_db (delete_backup (b_id r)))"
  have mono: "only_files_of rs' w w' \<Longrightarrow> only_files_of (rs' @ ss) w w'" for rs' ss w w'
    by (auto simp: only_files_of_def)
  show ?case
    unfolding for_each.simps wp_andthen
  proof (rule wp_mono [OF remove_frame])
    fix b and w1 :: world
    assume h: "w_db w1 = w_db w \<and> only_files_of [r] w w1"
    let ?w2 = "w1\<lparr>w_db := (w_db w1)\<lparr>backups := row_delete b_id (b_id r) (backups (w_db w1))\<rparr>\<rparr>"
    have o: "only_files_of [r] w ?w2" using h by (simp add: only_files_of_def)
    have "wp (for_each rs ?body)
        (\<lambda>_ w'. w_db w' = (w_db w)\<lparr>backups := filter (\<lambda>x. b_id x \<notin> b_id ` set (r # rs)) (backups (w_db w))\<rparr>
          \<and> only_files_of (r # rs) w w')
        (\<lambda>_ w'. only_files_of (r # rs) w w') ?w2"
      by (rule wp_mono [OF Cons.IH])
        (use h only_files_of_trans [OF o] in \<open>auto simp: row_delete_def intro!: filter_cong\<close>)
    then show "wp (on_db (delete_backup (b_id r)))
        (\<lambda>_. wp (for_each rs ?body)
          (\<lambda>_ w'. w_db w' = (w_db w)\<lparr>backups := filter (\<lambda>x. b_id x \<notin> b_id ` set (r # rs)) (backups (w_db w))\<rparr>
            \<and> only_files_of (r # rs) w w')
          (\<lambda>_ w'. only_files_of (r # rs) w w'))
        (\<lambda>_ w'. only_files_of (r # rs) w w') w1"
      by (simp add: wp_on_db delete_backup_def wp_modify)
  next
    fix e and w1 :: world
    assume "w_db w1 = w_db w \<and> only_files_of [r] w w1"
    then show "only_files_of (r # rs) w w1" using mono [of "[r]" w w1 rs] by simp
  qed
qed

lemma subseq_set: "subseq xs ys \<Longrightarrow> set xs \<subseteq> set ys"
  by (auto elim: list_emb_set)

lemma subseq_distinct: "subseq xs ys \<Longrightarrow> distinct ys \<Longrightarrow> distinct xs"
  by (auto simp: subseq_conv_nths)

lemma surplus_subset: "set (surplus n pres ms) \<subseteq> set ms"
  by (auto simp: surplus_def)

lemma wp_value: "wp m Q E s \<Longrightarrow> wp m (\<lambda>x s'. m s = (Inr x, s') \<and> Q x s') E s"
  by (auto simp: wp_def split: prod.split sum.split)

text \<open>While the backup directory is in order, the managed records are those whose path names an artifact that is no link.\<close>

definition managed_record :: "env \<Rightarrow> backup_record \<Rightarrow> bool" where
  "managed_record env r = (case managed_path (b_storage_path r) of None \<Rightarrow> False | Some p \<Rightarrow> \<not> e_symlink env p)"

lemma managed_records_value:
  assumes "\<forall>i. e_directory env i = Inr (True, False, True)"
  shows "fst (managed_records env rs w) = Inr (filter (managed_record env) rs)"
proof (induction rs arbitrary: w)
  case (Cons r rs)
  have "\<exists>w'. resolve_managed_artifact env (b_storage_path r) w
      = (Inr (if managed_record env r then managed_path (b_storage_path r) else None), w')"
    using assms by (simp add: resolve_managed_artifact_def validate_controlled_directory_def managed_record_def call_def
        answer_def require_def bnd_def andthen_def handle_def ret_def raise_def split: option.split)
  then obtain w' where *: "resolve_managed_artifact env (b_storage_path r) w
      = (Inr (if managed_record env r then managed_path (b_storage_path r) else None), w')" ..
  have "managed_record env r \<Longrightarrow> managed_path (b_storage_path r) \<noteq> None" by (cases "managed_path (b_storage_path r)") (auto simp: managed_record_def)
  then show ?case
    using Cons.IH [of w'] * by (auto simp: bnd_def ret_def split: prod.split)
qed (simp add: ret_def)

lemma apply_local_retention_wp:
  "wp (apply_local_retention env n pres)
     (\<lambda>_ w'. \<exists>ms. subseq ms (valid_records LOCAL (w_db w)) \<and> fst (managed_records env (valid_records LOCAL (w_db w)) w) = Inr ms
        \<and> w_db w' = (w_db w)\<lparr>backups := filter (\<lambda>x. b_id x \<notin> b_id ` set (surplus n pres ms)) (backups (w_db w))\<rparr>
        \<and> only_files_of (surplus n pres ms) w w')
     (\<lambda>_ w'. only_files_of (valid_records LOCAL (w_db w)) w w') w"
proof -
  let ?rs = "valid_records LOCAL (w_db w)"
  have more: "only_files_of ss w w' \<Longrightarrow> set ss \<subseteq> set ?rs \<Longrightarrow> only_files_of ?rs w w'" for ss and w' :: world
    by (auto simp: only_files_of_def) blast
  show ?thesis
    unfolding apply_local_retention_def wp_bnd wp_on_db wp_reads
  proof (rule wp_mono [OF wp_value [OF managed_records_frame]])
    fix ms and w1 :: world
    assume h: "managed_records env ?rs (w\<lparr>w_db := w_db w\<rparr>) = (Inr ms, w1) \<and> subseq ms ?rs \<and> w_db w1 = w_db (w\<lparr>w_db := w_db w\<rparr>)
      \<and> w_artifacts w1 = w_artifacts (w\<lparr>w_db := w_db w\<rparr>)"
    have sub: "set (surplus n pres ms) \<subseteq> set ?rs"
      using h surplus_subset subseq_set by blast
    have shift: "only_files_of ss w1 w' = only_files_of ss w w'" for ss and w' :: world
      using h by (simp add: only_files_of_def)
    show "wp (for_each (surplus n pres ms) (\<lambda>r. andthen (remove_managed_artifact env (b_storage_path r))
            (on_db (delete_backup (b_id r)))))
        (\<lambda>_ w'. \<exists>ms. subseq ms ?rs \<and> fst (managed_records env ?rs w) = Inr ms
          \<and> w_db w' = (w_db w)\<lparr>backups := filter (\<lambda>x. b_id x \<notin> b_id ` set (surplus n pres ms)) (backups (w_db w))\<rparr>
          \<and> only_files_of (surplus n pres ms) w w')
        (\<lambda>_ w'. only_files_of ?rs w w') w1"
      by (rule wp_mono [OF delete_each]) (use h sub more in \<open>auto simp: shift\<close>)
  qed (simp add: only_files_of_def)
qed

text \<open>The managed records, newest first, in two parts: what the retention keeps, and what it deletes.\<close>

abbreviation kept_of :: "int list \<Rightarrow> backup_record list \<Rightarrow> backup_record list \<Rightarrow> backup_record set" where
  "kept_of pres newer older \<equiv> {r \<in> set (newer @ older). b_id r \<in> set pres} \<union> set newer"

lemma keep_newest_distinct: "distinct kept \<Longrightarrow> distinct (keep_newest n kept rs)"
  by (induction n kept rs rule: keep_newest.induct) auto

lemma retention_split:
  assumes dist: "distinct ms" and inj: "\<And>x y. x \<in> B \<Longrightarrow> y \<in> B \<Longrightarrow> b_id x = b_id y \<Longrightarrow> x = y" and sub: "set ms \<subseteq> B"
  obtains newer older where "ms = newer @ older" "surplus n pres ms = filter (\<lambda>r. r \<notin> kept_of pres newer older) (newer @ older)"
    "\<And>x. x \<in> B \<Longrightarrow> b_id x \<in> b_id ` set (surplus n pres ms) \<longleftrightarrow> x \<in> set (surplus n pres ms)"
    "older \<noteq> [] \<longrightarrow> n \<le> int (card (kept_of pres newer older))"
    "int (card (kept_of pres newer older)) \<le> max n (int (card {r \<in> set (newer @ older). b_id r \<in> set pres}))"
proof -
  let ?prot = "filter (\<lambda>r. b_id r \<in> set pres) ms"
  let ?kept = "retained n pres ms"
  obtain p s where ps: "ms = p @ s" and set_kept: "set ?kept = set ?prot \<union> set p"
    and full: "s \<noteq> [] \<longrightarrow> n \<le> int (length ?kept)"
    using keep_newest_prefix [of ms n ?prot] unfolding retained_def by blast
  have card: "int (card (set ?kept)) = int (length ?kept)"
    using keep_newest_distinct [of ?prot n ms] dist by (simp add: retained_def distinct_card)
  have prot: "{r \<in> set ms. b_id r \<in> set pres} = set ?prot" by auto
  have cp: "card (set ?prot) = length ?prot" by (rule distinct_card) (rule distinct_filter [OF dist])
  let ?k = "kept_of pres p s"
  have k: "?k = set ?kept" using set_kept ps by auto
  show thesis
  proof (rule that [OF ps])
    show "surplus n pres ms = filter (\<lambda>r. r \<notin> ?k) (p @ s)"
      unfolding surplus_def k using retained_subset [of n pres ms] sub inj
      by (auto simp: ps [symmetric] intro!: filter_cong) (metis subsetD)
    show "b_id x \<in> b_id ` set (surplus n pres ms) \<longleftrightarrow> x \<in> set (surplus n pres ms)" if "x \<in> B" for x
      using surplus_subset [of n pres ms] sub inj [OF that] by blast
    show "s \<noteq> [] \<longrightarrow> n \<le> int (card ?k)" unfolding k card by (rule full)
    show "int (card ?k) \<le> max n (int (card {r \<in> set (p @ s). b_id r \<in> set pres}))"
      using keep_newest_length [of n ?prot ms] card k prot cp by (simp only: ps [symmetric] retained_def)
  qed
qed


definition other_name :: string where
  "other_name = ''palworld-manager-backup-19700102T000000000000Z-j000002-'' @ replicate 32 CHR ''1'' @ ''.tar.gz''"

definition sample_record :: "int \<Rightarrow> string \<Rightarrow> int \<Rightarrow> backup_record" where
  "sample_record k name created_at = \<lparr>b_id = k, b_job_id = None, b_filename = name, b_location = LOCAL,
     b_status = ''VALID'', b_sha256 = Some ''00'', b_size_bytes = Some 1,
     b_storage_path = BACKUP_DIRECTORY_NAME @ ''/'' @ name, b_created_at = created_at\<rparr>"

definition two_backups :: world where
  "two_backups = (start_world (empty_db\<lparr>backups := [sample_record 1 other_name 5, sample_record 2 sample_name 9]\<rparr>))
     \<lparr>w_artifacts := map (\<lambda>n. BACKUP_DIRECTORY_NAME @ ''/'' @ n) [sample_name, other_name]\<rparr>"

lemma other_name_ok: "BACKUP_FILENAME_PATTERN other_name"
  by code_simp

lemmas sample_paths = managed_path_made [OF sample_name_ok, simplified]
  managed_path_made [OF other_name_ok, simplified]

lemma names_differ: "sample_name \<noteq> other_name"
  by (simp add: sample_name_def other_name_def)

lemma two_backups_valid: "valid_records LOCAL (w_db two_backups) = [sample_record 2 sample_name 9, sample_record 1 other_name 5]"
  by (simp add: valid_records_def two_backups_def start_world_def sample_record_def order_by_def)

lemma surplus_older:
  "surplus 1 [] [sample_record 2 n 9, sample_record 1 m 5] = [sample_record 1 m 5]"
  by (simp add: surplus_def retained_def sample_record_def)

lemma sample_record_fields [simp]:
  "b_storage_path (sample_record k name c) = BACKUP_DIRECTORY_NAME @ ''/'' @ name"
  "b_id (sample_record k name c) = k" "b_filename (sample_record k name c) = name"
  by (simp_all add: sample_record_def)

lemma two_backups_fields [simp]:
  "w_artifacts two_backups = map (\<lambda>n. BACKUP_DIRECTORY_NAME @ ''/'' @ n) [sample_name, other_name]"
  "w_tick two_backups = 0"
  "backups (w_db two_backups) = [sample_record 1 other_name 5, sample_record 2 sample_name 9]"
  by (simp_all add: two_backups_def start_world_def)

lemma retention_run:
  "fst (apply_local_retention calm_env 1 [] two_backups) = Inr ()"
  "map b_id (backups (w_db (snd (apply_local_retention calm_env 1 [] two_backups)))) = [2]"
  by (simp_all add: apply_local_retention_def run_simps two_backups_valid surplus_older backup_run_defs
      sample_paths delete_backup_def row_delete_def)


section \<open>At most one backup a day\<close>

lemma find_marker [simp]:
  "map_option s_value (find_setting LAST_SCHEDULED_DATE_KEY (snd (put_marker date now d))) = Some (JStr date)"
  by (simp add: put_marker_def modify_def find_setting_def update_conv' map_add_def split: option.split)

lemma put_marker_frame [simp]:
  "jobs (snd (put_marker date now d)) = jobs d"
  "k \<noteq> LAST_SCHEDULED_DATE_KEY \<Longrightarrow> find_setting k (snd (put_marker date now d)) = find_setting k d"
  by (simp_all add: put_marker_def modify_def find_setting_def update_conv' map_add_def split: option.split)

lemma wp_put_marker [wp_simps]: "wp (put_marker date now) Q E d = Q () (snd (put_marker date now d))"
  unfolding put_marker_def wp_modify by (simp add: modify_def)

lemma schedule_settings_cong:
  assumes "\<And>k. k \<noteq> LAST_SCHEDULED_DATE_KEY \<Longrightarrow> find_setting k e = find_setting k d"
  shows "boolean_setting ''backup_enabled'' b e = boolean_setting ''backup_enabled'' b d"
    "timezone_setting zone e = timezone_setting zone d" "time_setting e = time_setting d"
  using assms [of "''backup_enabled''"] assms [of "''timezone''"] assms [of "''backup_time''"]
  by (simp_all add: boolean_setting_def timezone_setting_def time_setting_def LAST_SCHEDULED_DATE_KEY_def)

text \<open>A call on the date of the marker.\<close>

lemma schedule_again:
  assumes "timezone_setting zone d = Inr offset"
    and "map_option s_value (find_setting LAST_SCHEDULED_DATE_KEY d) = Some (JStr (date_isoformat (t + offset t)))"
  shows "fst (schedule_daily_backup zone t d) \<noteq> Inr True \<and> snd (schedule_daily_backup zone t d) = d"
  using assms by (simp add: schedule_daily_backup_def run_code lift_run split: sum.split)

definition queued_for :: "(string \<Rightarrow> (int \<Rightarrow> int) option) \<Rightarrow> int \<Rightarrow> db \<Rightarrow> db \<Rightarrow> bool" where
  "queued_for zone now d d' \<longleftrightarrow> boolean_setting ''backup_enabled'' True d = Inr True
     \<and> (\<exists>offset scheduled j d0. timezone_setting zone d = Inr offset \<and> time_setting d = Inr scheduled
         \<and> scheduled \<le> time_of_day (now + offset now)
         \<and> appended LOCAL_BACKUP_COORDINATION_KEY j d d0 \<and> settings d0 = settings d
         \<and> dict_get (dict_of (j_result j)) ''trigger'' = Some (JStr ''AUTOMATIC'')
         \<and> d' = snd (put_marker (date_isoformat (now + offset now)) now d0))"

lemma schedule_queued: "wp (schedule_daily_backup zone now) (\<lambda>r d'. r \<longrightarrow> queued_for zone now d d') (\<lambda>_ _. True) d"
proof -
  have enq: "wp (handle (andthen (enqueue_local_backup None ''AUTOMATIC'' now) (ret True))
      (\<lambda>e. if e = BackupJobConflictError then ret False else raise e))
      (\<lambda>queued d0. queued \<longrightarrow> (\<exists>j. appended LOCAL_BACKUP_COORDINATION_KEY j d d0 \<and> settings d0 = settings d
         \<and> dict_get (dict_of (j_result j)) ''trigger'' = Some (JStr ''AUTOMATIC''))) (\<lambda>_ _. True) d"
    unfolding wp_handle wp_andthen
    by (rule wp_mono [OF wp_enqueue_local_backup]) (auto simp: wp_ret wp_raise)
  have tail: "wp (bnd (handle (andthen (enqueue_local_backup None ''AUTOMATIC'' now) (ret True))
      (\<lambda>e. if e = BackupJobConflictError then ret False else raise e)) (\<lambda>queued.
        if \<not> queued then ret False else andthen (put_marker (date_isoformat (now + offset now)) now) (ret True)))
      (\<lambda>r d'. r \<longrightarrow> queued_for zone now d d') (\<lambda>_ _. True) d"
    if "boolean_setting ''backup_enabled'' True d = Inr True" "timezone_setting zone d = Inr offset"
      "time_setting d = Inr scheduled" "scheduled \<le> time_of_day (now + offset now)" for offset scheduled
    unfolding wp_bnd
    by (rule wp_mono [OF enq]) (use that in \<open>auto simp: wp_simps queued_for_def\<close>)
  show ?thesis
    unfolding schedule_daily_backup_def
    using tail by (auto simp: wp_bnd wp_lift wp_reads wp_ret split: sum.split)
qed

text \<open>
  C21: the scheduler queues a backup only when the schedule is on and its local time has come, and then
  remembers the local date. As long as that date is still the one remembered and the time zone has not been changed, every
  later call on the same local date queues nothing and leaves the database alone, whatever became of the queued job
  and whatever else is in the database, the other settings of the schedule included. Only the last date is
  remembered: after a change of the time zone, or when the clock goes back behind a date that was scheduled since,
  a second backup for one date is possible.
\<close>

theorem daily_backup_once:
  assumes "schedule_daily_backup zone now d = (Inr True, d')"
  shows "boolean_setting ''backup_enabled'' True d = Inr True
    \<and> (\<exists>offset scheduled j d0. timezone_setting zone d = Inr offset \<and> time_setting d = Inr scheduled
         \<and> scheduled \<le> time_of_day (now + offset now)
         \<and> appended LOCAL_BACKUP_COORDINATION_KEY j d d0 \<and> jobs d' = jobs d0
         \<and> dict_get (dict_of (j_result j)) ''trigger'' = Some (JStr ''AUTOMATIC'')
         \<and> timezone_setting zone d' = Inr offset
         \<and> (\<forall>later t. find_setting LAST_SCHEDULED_DATE_KEY later = find_setting LAST_SCHEDULED_DATE_KEY d' \<longrightarrow>
              timezone_setting zone later = timezone_setting zone d' \<longrightarrow>
              date_isoformat (t + offset t) = date_isoformat (now + offset now) \<longrightarrow>
              fst (schedule_daily_backup zone t later) \<noteq> Inr True \<and> snd (schedule_daily_backup zone t later) = later))"
proof -
  from wp_InrD [OF schedule_queued assms] obtain offset scheduled j d0 where
    on: "boolean_setting ''backup_enabled'' True d = Inr True" and zone: "timezone_setting zone d = Inr offset"
    and time: "time_setting d = Inr scheduled" and due: "scheduled \<le> time_of_day (now + offset now)"
    and job: "appended LOCAL_BACKUP_COORDINATION_KEY j d d0"
      "dict_get (dict_of (j_result j)) ''trigger'' = Some (JStr ''AUTOMATIC'')"
    and same: "settings d0 = settings d" and d': "d' = snd (put_marker (date_isoformat (now + offset now)) now d0)"
    by (auto simp: queued_for_def)
  have "find_setting k d' = find_setting k d" if "k \<noteq> LAST_SCHEDULED_DATE_KEY" for k
    using that same by (simp add: d' find_setting_def [of _ d0] find_setting_def [of _ d])
  from schedule_settings_cong(2) [OF this] have zone': "timezone_setting zone d' = Inr offset" by (simp add: zone)
  have "fst (schedule_daily_backup zone t later) \<noteq> Inr True \<and> snd (schedule_daily_backup zone t later) = later"
    if "find_setting LAST_SCHEDULED_DATE_KEY later = find_setting LAST_SCHEDULED_DATE_KEY d'"
      "timezone_setting zone later = timezone_setting zone d'"
      "date_isoformat (t + offset t) = date_isoformat (now + offset now)" for later t
    by (rule schedule_again [where offset = offset], simp only: that(2) zone', simp only: that(1,3) d' find_marker)
  with on zone zone' time due job show ?thesis by (auto simp: d' intro!: exI)
qed

definition sample_schedule :: "int \<Rightarrow> (db, bool) prog" where
  "sample_schedule t = schedule_daily_backup (\<lambda>_. Some (\<lambda>_. 0)) (seconds t)"

lemma sample_schedule_due: "fst (sample_schedule 50400 empty_db) = Inr True"
proof -
  have "time_fromisoformat ''04:00'' = Some (4, 0, 0, 0)" by code_simp
  then show ?thesis
    by (simp add: sample_schedule_def schedule_daily_backup_def run_code lift_run boolean_setting_def
        timezone_setting_def time_setting_def empty_db_def find_setting_def seconds_def time_of_day_def
        microseconds_per_day_def enqueue_local_backup_def valid_trigger_def active_with_key_def add_job_def
        insert_job_def record_audit_event_def put_marker_def Let_def)
qed

theorem daily_backup_once_witness:
  "fst (sample_schedule 54000 ((snd (sample_schedule 50400 empty_db))\<lparr>jobs := []\<rparr>)) \<noteq> Inr True"
proof -
  let ?d = "snd (sample_schedule 50400 empty_db)"
  have run: "schedule_daily_backup (\<lambda>_. Some (\<lambda>_. 0)) (seconds 50400) empty_db = (Inr True, ?d)"
    by (metis prod.collapse sample_schedule_def sample_schedule_due)
  have fixed: "offset = (\<lambda>_. 0)" if "timezone_setting (\<lambda>_. Some (\<lambda>_. 0)) empty_db = Inr offset" for offset
    using that by (simp add: timezone_setting_def find_setting_def empty_db_def)
  have day: "date_isoformat (seconds 54000) = date_isoformat (seconds 50400)"
    by (simp add: date_isoformat_def day_number_def seconds_def microseconds_per_day_def)
  have find: "find_setting k (?d\<lparr>jobs := []\<rparr>) = find_setting k ?d" for k by (simp add: find_setting_def)
  have zone: "timezone_setting z (?d\<lparr>jobs := []\<rparr>) = timezone_setting z ?d" for z
    by (simp add: timezone_setting_def find)
  obtain offset where o: "timezone_setting (\<lambda>_. Some (\<lambda>_. 0)) empty_db = Inr offset"
    and again: "\<And>later t. find_setting LAST_SCHEDULED_DATE_KEY later = find_setting LAST_SCHEDULED_DATE_KEY ?d \<Longrightarrow>
      timezone_setting (\<lambda>_. Some (\<lambda>_. 0)) later = timezone_setting (\<lambda>_. Some (\<lambda>_. 0)) ?d \<Longrightarrow>
      date_isoformat (t + offset t) = date_isoformat (seconds 50400 + offset (seconds 50400)) \<Longrightarrow>
      fst (schedule_daily_backup (\<lambda>_. Some (\<lambda>_. 0)) t later) \<noteq> Inr True"
    using daily_backup_once [OF run] by (elim conjE exE) blast
  show ?thesis
    unfolding sample_schedule_def [of 54000]
    by (rule again [OF find zone]) (simp add: fixed [OF o] day)
qed

end
