(* ===== verification/DriveQueue.thy ===== *)
theory DriveQueue
  imports BackupQueue
begin

text \<open>
  Queueing the operations on Google Drive (\<open>app/backups/drive_jobs.py\<close>): the guards of the four kinds of
  job, the records they accept, cancellation and the view of a job.
\<close>

section \<open>Kinds and records\<close>

definition DRIVE_CHECK_JOB_KIND :: string where "DRIVE_CHECK_JOB_KIND = ''DRIVE_CHECK''"
definition DRIVE_UPLOAD_JOB_KIND :: string where "DRIVE_UPLOAD_JOB_KIND = ''DRIVE_UPLOAD''"
definition DRIVE_DOWNLOAD_JOB_KIND :: string where "DRIVE_DOWNLOAD_JOB_KIND = ''DRIVE_DOWNLOAD''"
definition DRIVE_DELETE_JOB_KIND :: string where "DRIVE_DELETE_JOB_KIND = ''DRIVE_DELETE''"

definition DRIVE_JOB_KINDS :: "string list" where
  "DRIVE_JOB_KINDS = [DRIVE_CHECK_JOB_KIND, DRIVE_UPLOAD_JOB_KIND, DRIVE_DOWNLOAD_JOB_KIND, DRIVE_DELETE_JOB_KIND]"

lemmas drive_kind_defs = DRIVE_CHECK_JOB_KIND_def DRIVE_UPLOAD_JOB_KIND_def DRIVE_DOWNLOAD_JOB_KIND_def
  DRIVE_DELETE_JOB_KIND_def DRIVE_JOB_KINDS_def

text \<open>The records the operations accept: complete, valid, and stored where their name says.\<close>

definition valid_record :: "backup_record option \<Rightarrow> backup_location \<Rightarrow> bool" where
  "valid_record record location = (case record of
       None \<Rightarrow> False
     | Some r \<Rightarrow> b_location r = location \<and> b_status r = ''VALID'' \<and> b_sha256 r \<noteq> None \<and> b_size_bytes r \<noteq> None
         \<and> BACKUP_FILENAME_PATTERN (b_filename r)
         \<and> (if location = DRIVE then b_storage_path r = b_filename r
            else b_storage_path r = ''backups/'' @ b_filename r))"

definition managed_remote_records :: "db \<Rightarrow> backup_record list" where
  "managed_remote_records d = filter (\<lambda>r. b_storage_path r = b_filename r \<and> BACKUP_FILENAME_PATTERN (b_filename r))
     (valid_records DRIVE d)"

definition safe_audit_details :: "dict \<Rightarrow> dict" where
  "safe_audit_details result = filter (\<lambda>(k, v). k \<in> {''operation'', ''backup_record_id'',
     ''remote_backup_record_id'', ''local_backup_record_id'', ''filename'', ''trigger'', ''size_bytes'',
     ''integrity'', ''remote_count''}) result"

section \<open>Queueing\<close>

definition drive_enqueue ::
  "string \<Rightarrow> string \<Rightarrow> int option \<Rightarrow> dict \<Rightarrow> bool \<Rightarrow> string \<Rightarrow> int \<Rightarrow> (db, job) prog" where
  "drive_enqueue kind coordination_key user_id result cancellable audit_action now =
     bnd (reads (active_with_key coordination_key)) (\<lambda>active.
       andthen (require (\<not> active) DriveJobConflictError)
         (bnd (add_job DriveJobConflictError
                (new_job kind cancellable (kind \<noteq> DRIVE_CHECK_JOB_KIND) coordination_key None result now)) (\<lambda>job.
           andthen (record_audit_event now
               (request_event audit_action user_id (dict_get result ''trigger'' = Some (JStr ''AUTOMATIC''))
                  (j_id job) ''Google Drive'' (safe_audit_details result)))
             (ret job))))"

definition enqueue_drive_check :: "int \<Rightarrow> int \<Rightarrow> (db, job) prog" where
  "enqueue_drive_check user_id now = drive_enqueue DRIVE_CHECK_JOB_KIND ''DRIVE_CHECK'' (Some user_id)
     [(''operation'', JStr ''CHECK'')] False ''DRIVE_CHECK_REQUESTED'' now"

text \<open>Is there a valid record of this name at the other end?\<close>

definition has_copy :: "backup_location \<Rightarrow> string \<Rightarrow> db \<Rightarrow> bool" where
  "has_copy location filename d = list_ex (\<lambda>r. b_location r = location \<and> b_filename r = filename
     \<and> b_status r = ''VALID'') (backups d)"

definition drive_local_key :: "int \<Rightarrow> string" where
  "drive_local_key k = ''DRIVE_LOCAL_'' @ str_int k"

definition drive_remote_key :: "int \<Rightarrow> string" where
  "drive_remote_key k = ''DRIVE_REMOTE_'' @ str_int k"

definition enqueue_drive_upload :: "int \<Rightarrow> int option \<Rightarrow> string \<Rightarrow> int \<Rightarrow> (db, job) prog" where
  "enqueue_drive_upload backup_record_id user_id trigger now =
     andthen (require (valid_trigger trigger) ValueError)
       (bnd (reads (find_backup backup_record_id)) (\<lambda>record. case record of
            None \<Rightarrow> raise DriveJobRequestError
          | Some r \<Rightarrow>
              andthen (require (valid_record (Some r) LOCAL) DriveJobRequestError)
                (bnd (reads (has_copy DRIVE (b_filename r))) (\<lambda>copied.
                  andthen (require (\<not> copied) DriveJobRequestError)
                    (drive_enqueue DRIVE_UPLOAD_JOB_KIND (drive_local_key (b_id r)) user_id
                       [(''operation'', JStr ''UPLOAD''), (''backup_record_id'', JInt (b_id r)),
                        (''filename'', JStr (b_filename r)), (''trigger'', JStr trigger)]
                       True ''DRIVE_UPLOAD_REQUESTED'' now)))))"

definition enqueue_drive_download :: "int \<Rightarrow> int \<Rightarrow> int \<Rightarrow> (db, job) prog" where
  "enqueue_drive_download backup_record_id user_id now =
     bnd (reads (find_backup backup_record_id)) (\<lambda>record. case record of
         None \<Rightarrow> raise DriveJobRequestError
       | Some r \<Rightarrow>
           andthen (require (valid_record (Some r) DRIVE) DriveJobRequestError)
             (bnd (reads (has_copy LOCAL (b_filename r))) (\<lambda>copied.
               andthen (require (\<not> copied) DriveJobRequestError)
                 (drive_enqueue DRIVE_DOWNLOAD_JOB_KIND (drive_remote_key (b_id r)) (Some user_id)
                    [(''operation'', JStr ''DOWNLOAD''), (''backup_record_id'', JInt (b_id r)),
                     (''filename'', JStr (b_filename r))] True ''DRIVE_DOWNLOAD_REQUESTED'' now))))"

definition enqueue_drive_delete :: "int \<Rightarrow> int \<Rightarrow> int \<Rightarrow> (db, job) prog" where
  "enqueue_drive_delete backup_record_id user_id now =
     bnd (reads (find_backup backup_record_id)) (\<lambda>record. case record of
         None \<Rightarrow> raise DriveJobRequestError
       | Some r \<Rightarrow>
           andthen (require (valid_record (Some r) DRIVE) DriveJobRequestError)
             (drive_enqueue DRIVE_DELETE_JOB_KIND (drive_remote_key (b_id r)) (Some user_id)
                [(''operation'', JStr ''DELETE''), (''backup_record_id'', JInt (b_id r)),
                 (''filename'', JStr (b_filename r))] False ''DRIVE_DELETE_REQUESTED'' now))"

definition request_drive_cancel :: "int \<Rightarrow> int \<Rightarrow> int \<Rightarrow> (db, bool) prog" where
  "request_drive_cancel = request_cancel DRIVE_JOB_KINDS ''DRIVE_CANCEL_REQUESTED'' ''Google Drive''"

section \<open>The view of a job\<close>

definition optional_int :: "json option \<Rightarrow> int option" where
  "optional_int v = (case json_int v of Some n \<Rightarrow> if 0 \<le> n then Some n else None | None \<Rightarrow> None)"

text \<open>
  \<open>float(parsed)\<close> as the integer it is, then as many divisions by 1024 as the value needs, up to TiB;
  they are exact, and the format rounds half to even.
\<close>

definition byte_units :: "string list" where
  "byte_units = [''B'', ''KiB'', ''MiB'', ''GiB'', ''TiB'']"

definition byte_scale :: "int \<Rightarrow> nat" where
  "byte_scale n = (if n < 1024 then 0 else if n < 1024 ^ 2 then 1 else if n < 1024 ^ 3 then 2
     else if n < 1024 ^ 4 then 3 else 4)"

definition one_decimal :: "int \<Rightarrow> int \<Rightarrow> string" where
  "one_decimal n d = (let tenths = round_half_even (10 * n) d
     in str_int (tenths div 10) @ ''.'' @ str_int (tenths mod 10))"

definition optional_bytes :: "json option \<Rightarrow> string option" where
  "optional_bytes v = (case optional_int v of
       None \<Rightarrow> None
     | Some parsed \<Rightarrow> (let n = trunc_double (nearest_double parsed 1); k = byte_scale n in
         Some ((if k = 0 then str_int n else one_decimal n (1024 ^ k)) @ '' '' @ byte_units ! k)))"

record drive_job_view =
  dv_id :: int
  dv_status :: job_status
  dv_step :: string
  dv_progress :: int
  dv_is_cancellable :: bool
  dv_operation :: string
  dv_filename :: "string option"
  dv_error :: "string option"
  dv_quota_total :: "string option"
  dv_quota_used :: "string option"
  dv_quota_free :: "string option"
  dv_remote_count :: "int option"

text \<open>The jobs of the Drive hold a text under \<open>operation\<close>; \<open>str\<close> of it is the text itself.\<close>

definition operation_of :: "string \<Rightarrow> dict \<Rightarrow> string" where
  "operation_of dflt result = (case json_str (dict_get result ''operation'') of None \<Rightarrow> dflt | Some s \<Rightarrow> s)"

definition drive_job_view :: "job \<Rightarrow> exn + drive_job_view" where
  "drive_job_view j =
     (if j_kind j \<notin> set DRIVE_JOB_KINDS then Inl ValueError
      else (let result = dict_of (j_result j) in
        Inr \<lparr>dv_id = j_id j, dv_status = j_status j, dv_step = j_step j, dv_progress = j_progress j,
             dv_is_cancellable = j_is_cancellable j, dv_operation = operation_of ''CHECK'' result,
             dv_filename = json_str (dict_get result ''filename''),
             dv_error = json_str (dict_get result ''error''),
             dv_quota_total = optional_bytes (dict_get result ''quota_total''),
             dv_quota_used = optional_bytes (dict_get result ''quota_used''),
             dv_quota_free = optional_bytes (dict_get result ''quota_free''),
             dv_remote_count = optional_int (dict_get result ''remote_count'')\<rparr>))"

definition latest_drive_job :: "db \<Rightarrow> job option" where
  "latest_drive_job d = limit1 (order_by (\<lambda>j. - j_id j) (filter (\<lambda>j. j_kind j \<in> set DRIVE_JOB_KINDS) (jobs d)))"

section \<open>The producers\<close>

lemma valid_DRIVE [simp]: "valid_audit_action ''DRIVE_CHECK_REQUESTED''" "valid_audit_action ''DRIVE_UPLOAD_REQUESTED''"
  "valid_audit_action ''DRIVE_DOWNLOAD_REQUESTED''" "valid_audit_action ''DRIVE_DELETE_REQUESTED''"
  "valid_audit_action ''DRIVE_CANCEL_REQUESTED''" "valid_audit_action ''DRIVE_CHECK''"
  "valid_audit_action ''DRIVE_UPLOAD''" "valid_audit_action ''DRIVE_DOWNLOAD''"
  "valid_audit_action ''DRIVE_DELETE''" "valid_audit_action ''DRIVE_RETENTION''" "valid_audit_action ''DRIVE_OPERATION''"
  by code_simp+

lemma wp_drive_enqueue:
  assumes "valid_audit_action action"
  shows "wp (drive_enqueue kind key u result c action now)
     (\<lambda>j d'. appended key j d d' \<and> j_kind j = kind \<and> j_is_cancellable j = c \<and> j_result j = Some result
        \<and> j_requires_maintenance_lock j = (kind \<noteq> DRIVE_CHECK_JOB_KIND))
     (\<lambda>e d'. d' = d \<and> e = DriveJobConflictError \<and> active_with_key key d) d"
  using assms by (simp add: drive_enqueue_def wp_simps Let_def)

interpretation drive_check_producer: job_producer "\<lambda>(u, now). enqueue_drive_check u now" "''DRIVE_CHECK''"
  by unfold_locales
    (auto simp: enqueue_drive_check_def split: prod.split intro!: wp_mono [OF wp_drive_enqueue])

lemma find_backup_id: "find_backup k d = Some r \<Longrightarrow> b_id r = k"
  by (auto simp: find_backup_def dest: row_get_Some)

lemma wp_enqueue_drive_upload:
  "wp (enqueue_drive_upload k u t now)
     (\<lambda>j d'. appended (drive_local_key k) j d d' \<and> j_kind j = DRIVE_UPLOAD_JOB_KIND
        \<and> j_requires_maintenance_lock j) (\<lambda>_ _. True) d"
  unfolding enqueue_drive_upload_def
  by (auto simp: wp_andthen wp_bnd wp_reads wp_require wp_raise drive_kind_defs
      dest: find_backup_id split: option.split intro!: wp_mono [OF wp_drive_enqueue])

lemma wp_enqueue_drive_download:
  "wp (enqueue_drive_download k u now)
     (\<lambda>j d'. appended (drive_remote_key k) j d d' \<and> j_kind j = DRIVE_DOWNLOAD_JOB_KIND
        \<and> j_requires_maintenance_lock j) (\<lambda>_ _. True) d"
  unfolding enqueue_drive_download_def
  by (auto simp: wp_andthen wp_bnd wp_reads wp_require wp_raise drive_kind_defs
      dest: find_backup_id split: option.split intro!: wp_mono [OF wp_drive_enqueue])

lemma wp_enqueue_drive_delete:
  "wp (enqueue_drive_delete k u now)
     (\<lambda>j d'. appended (drive_remote_key k) j d d' \<and> j_kind j = DRIVE_DELETE_JOB_KIND
        \<and> j_requires_maintenance_lock j) (\<lambda>_ _. True) d"
  unfolding enqueue_drive_delete_def
  by (auto simp: wp_andthen wp_bnd wp_reads wp_require wp_raise drive_kind_defs
      dest: find_backup_id split: option.split intro!: wp_mono [OF wp_drive_enqueue])

interpretation drive_upload_producer: job_producer
  "\<lambda>(u, t, now). enqueue_drive_upload k u t now" "drive_local_key k" for k
  by unfold_locales (auto split: prod.split intro!: wp_mono [OF wp_enqueue_drive_upload])

text \<open>Downloading and deleting one remote backup share their key, so they exclude each other.\<close>

interpretation drive_remote_producer: job_producer
  "\<lambda>x. case x of Inl (u, now) \<Rightarrow> enqueue_drive_download k u now | Inr (u, now) \<Rightarrow> enqueue_drive_delete k u now"
  "drive_remote_key k" for k
  by unfold_locales
    (auto split: sum.split prod.split
      intro!: wp_mono [OF wp_enqueue_drive_download] wp_mono [OF wp_enqueue_drive_delete])

end
