(* ===== verification/JobRun.thy ===== *)
theory JobRun
  imports Producer
begin

text \<open>
  What the executors of jobs share: they run while their job is RUNNING, the other process changes no
  more of the job than its flags, no step of them diverges, and a last transaction ends the job.
\<close>

section \<open>Programs that keep a predicate and avoid some exceptions\<close>

definition avoids :: "exn set \<Rightarrow> ('s \<Rightarrow> bool) \<Rightarrow> ('s, 'a) prog \<Rightarrow> bool" where
  "avoids F P m \<longleftrightarrow> triple P m (\<lambda>_. P) (\<lambda>e s. P s \<and> e \<notin> F)"

lemma avoidsI: "(\<And>s. P s \<Longrightarrow> wp m (\<lambda>_. P) (\<lambda>e s. P s \<and> e \<notin> F) s) \<Longrightarrow> avoids F P m"
  by (simp add: avoids_def triple_def)

lemma avoids_wp: "avoids F P m \<Longrightarrow> P s \<Longrightarrow> wp m (\<lambda>_. P) (\<lambda>e s. P s \<and> e \<notin> F) s"
  by (simp add: avoids_def triple_def)

lemma avoids_keeps: "avoids F P m \<Longrightarrow> keeps P m"
  unfolding avoids_def keeps_def by (erule triple_conseq) auto

lemma avoids_ret: "avoids F P (ret x)"
  by (simp add: avoids_def triple_def wp_simps)

lemma avoids_raise: "e \<notin> F \<Longrightarrow> avoids F P (raise e)"
  by (simp add: avoids_def triple_def wp_simps)

lemma avoids_require: "e \<notin> F \<Longrightarrow> avoids F P (require b e)"
  by (simp add: avoids_def triple_def wp_simps)

lemma avoids_reads: "avoids F P (reads f)"
  by (simp add: avoids_def triple_def wp_simps)

lemma avoids_bnd: "avoids F P m \<Longrightarrow> (\<And>x. avoids F P (f x)) \<Longrightarrow> avoids F P (bnd m f)"
  unfolding avoids_def by (rule triple_bnd)

lemma avoids_andthen: "avoids F P m \<Longrightarrow> avoids F P n \<Longrightarrow> avoids F P (andthen m n)"
  unfolding avoids_def by (rule triple_andthen)

lemma avoids_if: "(b \<Longrightarrow> avoids F P m) \<Longrightarrow> (\<not> b \<Longrightarrow> avoids F P n) \<Longrightarrow> avoids F P (if b then m else n)"
  by simp

lemma avoids_handle:
  assumes "avoids F P m" and "\<And>e. e \<notin> F \<Longrightarrow> avoids F P (h e)"
  shows "avoids F P (handle m h)"
proof (rule avoidsI)
  fix s
  assume "P s"
  from avoids_wp [OF assms(1) this]
  show "wp (handle m h) (\<lambda>_. P) (\<lambda>e s. P s \<and> e \<notin> F) s"
    unfolding wp_handle by (rule wp_mono) (auto intro: avoids_wp [OF assms(2)])
qed

lemma avoids_always:
  assumes "avoids F P m" and "avoids F P fin"
  shows "avoids F P (always m fin)"
proof (rule avoidsI)
  fix s
  assume "P s"
  from avoids_wp [OF assms(1) this]
  show "wp (always m fin) (\<lambda>_. P) (\<lambda>e s. P s \<and> e \<notin> F) s"
    unfolding wp_always by (rule wp_mono) (auto intro: wp_mono [OF avoids_wp [OF assms(2)]])
qed

lemma avoids_option:
  "(x = None \<Longrightarrow> avoids F P m) \<Longrightarrow> (\<And>y. x = Some y \<Longrightarrow> avoids F P (f y)) \<Longrightarrow>
   avoids F P (case x of None \<Rightarrow> m | Some y \<Rightarrow> f y)"
  by (simp split: option.split)

lemma avoids_case_prod: "(\<And>a b. avoids F P (f a b)) \<Longrightarrow> avoids F P (case x of (a, b) \<Rightarrow> f a b)"
  by (simp split: prod.split)

lemma avoids_modify: "(\<And>s. P s \<Longrightarrow> P (g s)) \<Longrightarrow> avoids F P (modify g)"
  by (simp add: avoids_def triple_def wp_simps)

lemma avoids_for_each: "(\<And>x. avoids F P (f x)) \<Longrightarrow> avoids F P (for_each xs f)"
  by (induction xs) (auto intro: avoids_ret avoids_andthen)

lemma avoids_wall_now: "avoids F P (wall_now env)"
  by (simp add: avoids_def triple_def wp_simps)

lemma avoids_monotonic: "avoids F P monotonic"
  by (simp add: avoids_def triple_def wp_simps)

text \<open>A service raises neither \<open>Diverges\<close> nor the cancellation of an update.\<close>

lemma avoids_call:
  assumes "F \<subseteq> {Diverges, UpdateCancelledError}" and "\<And>w r. P w \<Longrightarrow> P (after_call env (ev r) w)"
  shows "avoids F P (call env f ev)"
  unfolding avoids_def by (rule triple_call) (use assms in auto)

lemma avoids_both:
  assumes "avoids F (\<lambda>_. True) m" and "triple P m Q E"
  shows "triple P m Q (\<lambda>e s. E e s \<and> e \<notin> F)"
  using assms wp_conj unfolding triple_def avoids_def by (fastforce intro: wp_mono)

lemmas avoids_rules = avoids_ret avoids_raise avoids_require avoids_reads avoids_bnd avoids_andthen avoids_if
  avoids_handle avoids_always avoids_option avoids_case_prod avoids_for_each avoids_wall_now avoids_monotonic

text \<open>The case in which the exception to avoid is \<open>Diverges\<close>.\<close>

definition safely :: "('s \<Rightarrow> bool) \<Rightarrow> ('s, 'a) prog \<Rightarrow> bool" where
  "safely P m \<longleftrightarrow> triple P m (\<lambda>_. P) (\<lambda>e s. P s \<and> e \<noteq> Diverges)"

lemma safelyD: "safely P m \<Longrightarrow> triple P m (\<lambda>_. P) (\<lambda>e s. P s \<and> e \<noteq> Diverges)"
  by (simp add: safely_def)

lemma safely_avoids: "safely P m = avoids {Diverges} P m"
  by (simp add: safely_def avoids_def)

lemma safely_keeps: "safely P m \<Longrightarrow> keeps P m"
  unfolding safely_avoids by (rule avoids_keeps)

lemmas safely_rules = avoids_rules [where F = "{Diverges}", simplified, folded safely_avoids]

lemmas safely_modify = avoids_modify [where F = "{Diverges}", folded safely_avoids]

lemma safely_call: "(\<And>w r. P w \<Longrightarrow> P (after_call env (ev r) w)) \<Longrightarrow> safely P (call env f ev)"
  unfolding safely_avoids by (rule avoids_call) auto

text \<open>A program that never diverges, whatever the state.\<close>

definition converges :: "('s, 'a) prog \<Rightarrow> bool" where
  "converges m \<longleftrightarrow> safely (\<lambda>_. True) m"

lemma totalD: "converges m \<Longrightarrow> wp m (\<lambda>_ _. True) (\<lambda>e _. e \<noteq> Diverges) s"
  by (simp add: converges_def safely_def triple_def)

lemma totalI: "(\<And>s. wp m (\<lambda>_ _. True) (\<lambda>e _. e \<noteq> Diverges) s) \<Longrightarrow> converges m"
  by (simp add: converges_def safely_def triple_def)

lemma safely_total: "safely (\<lambda>_. True) m \<Longrightarrow> converges m"
  by (simp add: converges_def)

lemma total_call: "converges (call env f ev)"
  unfolding converges_def by (rule safely_call) simp

lemma total_on_db: "converges tx \<Longrightarrow> converges (on_db tx)"
  by (rule totalI) (simp add: wp_on_db totalD)

lemma total_scope: "converges tx \<Longrightarrow> converges (session_scope env tx)"
  by (rule totalI) (simp add: wp_session_scope Let_def totalD)

lemma total_block: "converges m \<Longrightarrow> converges (session_block env m)"
  by (rule totalI) (simp add: wp_session_block Let_def totalD)

lemma total_get_one: "converges (get_one_job k)"
  by (rule totalI) (simp add: wp_get_one_job split: option.split)

lemma total_put: "converges (put_job j)"
  by (rule totalI) (simp add: wp_put_job)

lemma total_update: "converges (update_job k f)"
  by (rule totalI) (simp add: wp_update_job split: option.split)

lemma total_audit: "converges (record_audit_event t f)"
  by (rule totalI) (simp add: wp_record_audit_event')

lemma total_add_job: "c \<noteq> Diverges \<Longrightarrow> converges (add_job c mk)"
  by (rule totalI) (simp add: wp_add_job Let_def)

lemma total_modify: "converges (modify f)"
  by (rule totalI) (simp add: wp_modify)

lemmas total_rules = safely_rules [where P = "\<lambda>_. True", folded converges_def] total_call total_on_db total_scope
  total_block total_get_one total_put total_update total_audit total_add_job total_modify

section \<open>Predicates of the database the other process keeps\<close>

definition stable :: "env \<Rightarrow> (db \<Rightarrow> bool) \<Rightarrow> bool" where
  "stable env I \<longleftrightarrow> (\<forall>n d. I d \<longrightarrow> I (e_interfere env n d))"

definition in_db :: "(db \<Rightarrow> bool) \<Rightarrow> world \<Rightarrow> bool" where
  "in_db I w = I (w_db w)"

lemma in_db_after [simp]:
  "in_db I (after_call env ev w) = in_db I w" "in_db I (after_scope w d) = I d" "in_db I (w\<lparr>w_db := d\<rparr>) = I d"
  "in_db I (w\<lparr>w_trace := t\<rparr>) = in_db I w" "in_db I (w\<lparr>w_artifacts := a\<rparr>) = in_db I w"
  "in_db I (w\<lparr>w_irreversible := b\<rparr>) = in_db I w" "in_db I (w\<lparr>w_preventive := p\<rparr>) = in_db I w"
  by (simp_all add: in_db_def)

text \<open>
  What a transaction does from such a state: it ends with its postcondition, or it raises and the
  state is kept. \<open>last\<close> rules ask nothing of the state the transaction starts in.
\<close>

lemma scope_gen:
  assumes "stable env I" and "\<And>d. I d \<Longrightarrow> wp tx Q F d" and "\<And>e d. F e d \<Longrightarrow> G e"
  shows "triple (in_db I) (session_scope env tx) (\<lambda>x w. Q x (w_db w)) (\<lambda>e w. in_db I w \<and> G e)"
proof (rule tripleI)
  fix w
  assume "in_db I w"
  then have d: "I (e_interfere env (w_tick w) (w_db w))" using assms(1) by (simp add: stable_def in_db_def)
  show "wp (session_scope env tx) (\<lambda>x w. Q x (w_db w)) (\<lambda>e w. in_db I w \<and> G e) w"
    unfolding wp_session_scope Let_def by (rule wp_mono [OF assms(2) [OF d]]) (use d assms(3) in auto)
qed

lemma block_gen:
  assumes "stable env I" and "\<And>w. in_db I w \<Longrightarrow> wp m Q F w" and "\<And>e w. F e w \<Longrightarrow> G e"
  shows "triple (in_db I) (session_block env m) Q (\<lambda>e w. in_db I w \<and> G e)"
proof (rule tripleI)
  fix w
  assume "in_db I w"
  then have d: "I (e_interfere env (w_tick w) (w_db w))" using assms(1) by (simp add: stable_def in_db_def)
  then have "in_db I (after_scope w (e_interfere env (w_tick w) (w_db w)))" by simp
  from assms(2) [OF this]
  show "wp (session_block env m) Q (\<lambda>e w. in_db I w \<and> G e) w"
    unfolding wp_session_block Let_def by (rule wp_mono) (use d assms(3) in auto)
qed

lemma scope_to:
  assumes "stable env I" and "\<And>d. I d \<Longrightarrow> wp tx Q (\<lambda>e _. e \<noteq> Diverges) d"
  shows "triple (in_db I) (session_scope env tx) (\<lambda>x w. Q x (w_db w)) (\<lambda>e w. in_db I w \<and> e \<noteq> Diverges)"
  by (rule scope_gen [OF assms])

lemma scope_sure:
  assumes "stable env I" and "\<And>d. I d \<Longrightarrow> wp tx Q (\<lambda>_ _. False) d"
  shows "triple (in_db I) (session_scope env tx) (\<lambda>x w. Q x (w_db w)) (\<lambda>_ _. False)"
  by (rule triple_conseq [OF scope_gen [OF assms, of "\<lambda>_. False"]]) auto

lemma scope_last:
  assumes "stable env I" and "\<And>d. wp tx Q (\<lambda>_ _. True) d"
  shows "triple (in_db I) (session_scope env tx) (\<lambda>x w. Q x (w_db w)) (\<lambda>_. in_db I)"
  by (rule triple_conseq [OF scope_gen [OF assms, of "\<lambda>_. True"]]) auto

lemma scope_keeps:
  assumes "stable env I" and "\<And>d. I d \<Longrightarrow> wp tx (\<lambda>_. I) (\<lambda>_ _. True) d"
  shows "keeps (in_db I) (session_scope env tx)"
  unfolding keeps_def
  by (rule triple_conseq [OF scope_gen [OF assms, of "\<lambda>_. True"]]) (auto simp: in_db_def)

lemma block_to:
  assumes "stable env I" and "\<And>w. in_db I w \<Longrightarrow> wp m Q (\<lambda>e _. e \<noteq> Diverges) w"
  shows "triple (in_db I) (session_block env m) Q (\<lambda>e w. in_db I w \<and> e \<noteq> Diverges)"
  by (rule block_gen [OF assms])

lemma block_last:
  assumes "stable env I" and "\<And>w. wp m Q (\<lambda>_ _. True) w"
  shows "triple (in_db I) (session_block env m) Q (\<lambda>_. in_db I)"
  by (rule triple_conseq [OF block_gen [OF assms, of "\<lambda>_. True"]]) auto

lemma block_keeps:
  assumes "stable env I" and "keeps (in_db I) m"
  shows "keeps (in_db I) (session_block env m)"
  unfolding keeps_def
  by (rule triple_conseq [OF block_gen [OF assms(1) tripleD [OF keepsD [OF assms(2)]], of "\<lambda>_. True"]]) auto

section \<open>A running job\<close>

definition running_db :: "int \<Rightarrow> string \<Rightarrow> dict option \<Rightarrow> db \<Rightarrow> bool" where
  "running_db k kind r d \<longleftrightarrow> (\<exists>j. find_job k d = Some j \<and> j_status j = JOB_STATUS_RUNNING \<and> j_kind j = kind
     \<and> j_result j = r)"

definition running :: "int \<Rightarrow> string \<Rightarrow> dict option \<Rightarrow> world \<Rightarrow> bool" where
  "running k kind r w \<longleftrightarrow> running_db k kind r (w_db w)"

text \<open>The web process leaves the kind, the status and the result of a running job alone.\<close>

definition leaves_job :: "int \<Rightarrow> env \<Rightarrow> bool" where
  "leaves_job k env \<longleftrightarrow> (\<forall>n d j. find_job k d = Some j \<longrightarrow> j_status j = JOB_STATUS_RUNNING \<longrightarrow>
     (\<exists>j'. find_job k (e_interfere env n d) = Some j' \<and> j_status j' = j_status j \<and> j_kind j' = j_kind j
        \<and> j_result j' = j_result j))"

lemma leaves_job_db: "leaves_job k env \<Longrightarrow> running_db k kind r d \<Longrightarrow> running_db k kind r (e_interfere env n d)"
  unfolding leaves_job_def running_db_def by metis

lemma leaves_job_calm [simp]: "leaves_job k calm_env"
  by (simp add: leaves_job_def calm_env_simps)

lemma running_after [simp]:
  "running k kind r (after_call env ev w) = running k kind r w"
  "running k kind r (after_scope w d) = running_db k kind r d"
  "running k kind r (w\<lparr>w_db := d\<rparr>) = running_db k kind r d"
  "running k kind r (w\<lparr>w_trace := t\<rparr>) = running k kind r w"
  "running k kind r (w\<lparr>w_artifacts := a\<rparr>) = running k kind r w"
  by (simp_all add: running_def)

lemma running_call: "safely (running k kind r) (call env f ev)"
  by (rule safely_call) simp

lemma running_in_db: "running k kind r = in_db (running_db k kind r)"
  by (simp add: running_def in_db_def fun_eq_iff)

lemma running_stable: "leaves_job k env \<Longrightarrow> stable env (running_db k kind r)"
  unfolding stable_def by (intro allI impI) (rule leaves_job_db)

text \<open>The rules of the transactions for a running job.\<close>

lemma running_scope_to:
  assumes "leaves_job k env" and "\<And>d. running_db k kind r d \<Longrightarrow> wp tx Q (\<lambda>e _. e \<noteq> Diverges) d"
  shows "triple (running k kind r) (session_scope env tx) (\<lambda>x w. Q x (w_db w))
    (\<lambda>e w. running k kind r w \<and> e \<noteq> Diverges)"
  unfolding running_in_db by (rule scope_to [OF running_stable [OF assms(1)] assms(2)])

lemma running_scope:
  assumes "leaves_job k env" and "\<And>d. running_db k kind r d \<Longrightarrow> wp tx (\<lambda>_. running_db k kind r) (\<lambda>e _. e \<noteq> Diverges) d"
  shows "safely (running k kind r) (session_scope env tx)"
  using running_scope_to [OF assms] unfolding safely_def running_def [symmetric] .

lemma running_scope_sure:
  assumes "leaves_job k env" and "\<And>d. running_db k kind r d \<Longrightarrow> wp tx Q (\<lambda>_ _. False) d"
  shows "triple (running k kind r) (session_scope env tx) (\<lambda>x w. Q x (w_db w)) (\<lambda>_ _. False)"
  unfolding running_in_db by (rule scope_sure [OF running_stable [OF assms(1)] assms(2)])

lemma running_block_to:
  assumes "leaves_job k env" and "\<And>w. running k kind r w \<Longrightarrow> wp m Q (\<lambda>e _. e \<noteq> Diverges) w"
  shows "triple (running k kind r) (session_block env m) Q (\<lambda>e w. running k kind r w \<and> e \<noteq> Diverges)"
  using assms(2) unfolding running_in_db by (rule block_to [OF running_stable [OF assms(1)]])

lemma running_on_db:
  assumes "\<And>d. running_db k kind r d \<Longrightarrow> wp tx (\<lambda>_. running_db k kind r) (\<lambda>_. running_db k kind r) d"
  shows "keeps (running k kind r) (on_db tx)"
  using assms by (simp add: keeps_def triple_def wp_on_db running_def)

lemma running_scope_keeps:
  assumes "leaves_job k env" and "\<And>d. running_db k kind r d \<Longrightarrow> wp tx (\<lambda>_. running_db k kind r) (\<lambda>_ _. True) d"
  shows "keeps (running k kind r) (session_scope env tx)"
  unfolding running_in_db by (rule scope_keeps [OF running_stable [OF assms(1)] assms(2)])

lemma running_block:
  assumes "leaves_job k env" and "keeps (running k kind r) m"
  shows "keeps (running k kind r) (session_block env m)"
  using assms(2) unfolding running_in_db by (rule block_keeps [OF running_stable [OF assms(1)]])

lemma running_block_last:
  assumes "leaves_job k env" and "\<And>w. wp m Q (\<lambda>_ _. True) w"
  shows "triple (running k kind r) (session_block env m) Q (\<lambda>_. running k kind r)"
  unfolding running_in_db by (rule block_last [OF running_stable [OF assms(1)] assms(2)])

lemma running_scope_last:
  assumes "leaves_job k env" and "\<And>d. wp tx Q (\<lambda>_ _. True) d"
  shows "triple (running k kind r) (session_scope env tx) (\<lambda>x w. Q x (w_db w)) (\<lambda>_. running k kind r)"
  unfolding running_in_db by (rule scope_last [OF running_stable [OF assms(1)] assms(2)])

lemma wp_any_bnd: "(\<And>x s. wp (f x) Q (\<lambda>_ _. True) s) \<Longrightarrow> wp (bnd m f) Q (\<lambda>_ _. True) s"
  unfolding wp_bnd by (rule wp_mono [OF wp_trivial])

lemma wp_any_andthen: "(\<And>s. wp n Q (\<lambda>_ _. True) s) \<Longrightarrow> wp (andthen m n) Q (\<lambda>_ _. True) s"
  unfolding wp_andthen by (rule wp_mono [OF wp_trivial])

section \<open>Ending the job\<close>

definition job_is :: "int \<Rightarrow> job_status \<Rightarrow> db \<Rightarrow> bool" where
  "job_is k st d \<longleftrightarrow> (\<exists>j. find_job k d = Some j \<and> j_status j = st \<and> j_progress j = 100 \<and> \<not> j_is_cancellable j)"

lemma job_is_audited [simp]: "job_is k st (audited t f d) = job_is k st d"
  by (simp add: job_is_def)

lemma job_is_notifications [simp]: "job_is k st (d\<lparr>notifications := ns\<rparr>) = job_is k st d"
  by (simp add: job_is_def)

lemma wp_update_finished:
  "wp (update_job k (\<lambda>j. finished st step now (f j) j)) (\<lambda>_. job_is k st) (\<lambda>e _. e \<noteq> Diverges) d"
  by (auto simp: wp_update_job job_is_def dest: find_job_id split: option.split)

lemma wp_update_finished_run:
  assumes "running_db k kind r d"
  shows "wp (update_job k (\<lambda>j. finished st step now (f j) j)) (\<lambda>_. job_is k st) (\<lambda>_ _. False) d"
  using assms by (auto simp: wp_update_job job_is_def running_db_def dest: find_job_id split: option.split)

end
