(* ===== verification/BackupRun.thy ===== *)
theory BackupRun
  imports DriveQueue JobRun
begin

text \<open>
  Executing a local backup (\<open>LocalBackupJobExecutor\<close> in \<open>app/backups/jobs.py\<close>): the checkpoints, the
  transaction that registers the artifact and applies the retention, and the two ways it fails.
\<close>

section \<open>The executor\<close>

definition job_trigger :: "job \<Rightarrow> exn + string" where
  "job_trigger j =
     (if j_kind j \<noteq> LOCAL_BACKUP_JOB_KIND \<or> j_status j \<noteq> JOB_STATUS_RUNNING then Inl ValueError
      else case json_str (dict_get (dict_of (j_result j)) ''trigger'') of
          Some t \<Rightarrow> if valid_trigger t then Inr t else Inl ValueError
        | None \<Rightarrow> Inl ValueError)"

text \<open>
  The checkpoint of the backup and Drive executors: the job must still be running; a cancellation is
  seen while the previous step was cancellable.
\<close>

definition checkpoint_tx :: "exn \<Rightarrow> int \<Rightarrow> string \<Rightarrow> int \<Rightarrow> bool \<Rightarrow> (db, unit) prog" where
  "checkpoint_tx cancelled k step progress cancellable =
     bnd (get_one_job k) (\<lambda>j.
       andthen (require (j_status j = JOB_STATUS_RUNNING) RuntimeError)
         (andthen (require (\<not> (j_cancel_requested j \<and> j_is_cancellable j)) cancelled)
           (put_job (j\<lparr>j_step := step, j_progress := progress, j_is_cancellable := cancellable\<rparr>))))"

definition checkpoint :: "env \<Rightarrow> exn \<Rightarrow> int \<Rightarrow> progress_callback" where
  "checkpoint env cancelled k step progress cancellable =
     session_scope env (checkpoint_tx cancelled k step progress cancellable)"

definition trigger_value :: "job \<Rightarrow> json" where
  "trigger_value j = (case dict_get (dict_of (j_result j)) ''trigger'' of None \<Rightarrow> JStr ''MANUAL'' | Some v \<Rightarrow> v)"

definition finish_failed_job :: "int \<Rightarrow> job_status \<Rightarrow> string \<Rightarrow> string \<Rightarrow> int \<Rightarrow> (db, unit) prog" where
  "finish_failed_job k status step error now =
     update_job k (\<lambda>j. finished status step now [(''trigger'', trigger_value j), (''error'', JStr error)] j)"

definition cancelled_backup_tx :: "int \<Rightarrow> string \<Rightarrow> int \<Rightarrow> (db, unit) prog" where
  "cancelled_backup_tx k trigger now =
     andthen (finish_failed_job k JOB_STATUS_CANCELLED ''CANCELLED'' ''CANCELLED'' now)
       (record_audit_event now (system_event ''BACKUP'' AUDIT_RESULT_CANCELLED k (Some ''Backup local'')
          (Some [(''trigger'', JStr trigger)])))"

definition failed_backup_tx :: "int \<Rightarrow> string \<Rightarrow> int \<Rightarrow> (db, unit) prog" where
  "failed_backup_tx k trigger now =
     andthen (finish_failed_job k JOB_STATUS_FAILED ''FAILED'' ''BACKUP_FAILED'' now)
       (andthen (record_audit_event now (system_event ''BACKUP'' AUDIT_RESULT_FAILURE k (Some ''Backup local'')
            (Some [(''error'', JStr ''BACKUP_FAILED''), (''trigger'', JStr trigger)])))
         (if trigger = ''AUTOMATIC'' then enqueue_discord_notification ''BACKUP_FAILED'' (Some k) now
          else ret ()))"

definition queue_automatic_upload :: "bool \<Rightarrow> string \<Rightarrow> int \<Rightarrow> int \<Rightarrow> (db, int option) prog" where
  "queue_automatic_upload automatic_drive_uploads trigger record_id now =
     (if trigger = ''AUTOMATIC'' \<and> automatic_drive_uploads
      then bnd (enqueue_drive_upload record_id None ''AUTOMATIC'' now) (\<lambda>j. ret (Some (j_id j)))
      else ret None)"

definition backup_result :: "string \<Rightarrow> int \<Rightarrow> backup_artifact \<Rightarrow> int option \<Rightarrow> dict" where
  "backup_result trigger record_id a drive_upload_job_id =
     [(''trigger'', JStr trigger), (''backup_record_id'', JInt record_id), (''filename'', JStr (ba_filename a)),
      (''size_bytes'', JInt (ba_size_bytes a)), (''sha256'', JStr (ba_sha256 a)),
      (''integrity'', JStr ''VALID''), (''drive_upload_job_id'', jopt_int drive_upload_job_id)]"

definition backup_audit :: "string \<Rightarrow> int \<Rightarrow> backup_artifact \<Rightarrow> dict" where
  "backup_audit trigger record_id a =
     [(''backup_record_id'', JInt record_id), (''filename'', JStr (ba_filename a)),
      (''size_bytes'', JInt (ba_size_bytes a)), (''integrity'', JStr ''VALID''), (''trigger'', JStr trigger)]"

text \<open>The transaction after the artifact was made; the retention changes files inside it.\<close>

definition register_backup ::
  "env \<Rightarrow> (string \<Rightarrow> bool) \<Rightarrow> bool \<Rightarrow> int \<Rightarrow> string \<Rightarrow> backup_artifact \<Rightarrow> (world, unit) prog" where
  "register_backup env zone_ok automatic_drive_uploads k trigger a =
     session_block env
       (bnd (on_db (get_one_job k)) (\<lambda>job.
        bnd (on_db (register_backup_artifact a (j_id job))) (\<lambda>record.
        bnd (on_db (configured_local_retention zone_ok)) (\<lambda>retention.
        andthen (apply_local_retention env retention [])
        (bnd (wall_now env) (\<lambda>requested_at.
        bnd (on_db (queue_automatic_upload automatic_drive_uploads trigger (b_id record) requested_at)) (\<lambda>upload.
        bnd (wall_now env) (\<lambda>completed_at.
          on_db (andthen (update_job k (finished JOB_STATUS_SUCCEEDED ''COMPLETED'' completed_at
                     (backup_result trigger (b_id record) a upload)))
            (record_audit_event completed_at (system_event ''BACKUP'' AUDIT_RESULT_SUCCESS k
               (Some ''Backup local'') (Some (backup_audit trigger (b_id record) a)))))))))))))"

text \<open>
  The two handlers. \<open>artifact\<close> is what the try block had made when it raised; a removal that raises
  leaves the handler before the job is marked.
\<close>

definition backup_handler ::
  "env \<Rightarrow> int \<Rightarrow> string \<Rightarrow> backup_artifact option \<Rightarrow> exn \<Rightarrow> (world, backup_artifact option) prog" where
  "backup_handler env k trigger artifact e =
     (if e = BackupCancelledError
      then bnd (wall_now env) (\<lambda>now. andthen (session_scope env (cancelled_backup_tx k trigger now)) (ret None))
      else andthen (case artifact of None \<Rightarrow> ret False | Some a \<Rightarrow> remove_managed_artifact env (ba_storage_path a))
        (bnd (wall_now env) (\<lambda>now. andthen (session_scope env (failed_backup_tx k trigger now)) (raise e))))"

definition execute_local_backup ::
  "env \<Rightarrow> (string \<Rightarrow> bool) \<Rightarrow> bool \<Rightarrow> int \<Rightarrow> (world, backup_artifact option) prog" where
  "execute_local_backup env zone_ok automatic_drive_uploads k =
     bnd (session_scope env (bnd (get_one_job k) (\<lambda>j. lift (\<lambda>_. job_trigger j)))) (\<lambda>trigger.
       bnd (handle (bnd (create_backup env k (checkpoint env BackupCancelledError k)) (\<lambda>a. ret (Some a)))
              (backup_handler env k trigger None)) (\<lambda>made. case made of
           None \<Rightarrow> ret None
         | Some a \<Rightarrow> handle (andthen (register_backup env zone_ok automatic_drive_uploads k trigger a) (ret (Some a)))
             (backup_handler env k trigger (Some a))))"

section \<open>A backup job always ends\<close>

abbreviation backup_running :: "int \<Rightarrow> dict option \<Rightarrow> world \<Rightarrow> bool" where
  "backup_running k r \<equiv> running k LOCAL_BACKUP_JOB_KIND r"

lemma checkpoint_tx_keeps:
  assumes "running_db k kind r d" and "cancelled \<noteq> Diverges"
  shows "wp (checkpoint_tx cancelled k step p c) (\<lambda>_. running_db k kind r) (\<lambda>e _. e \<noteq> Diverges) d"
proof -
  from assms(1) obtain j where j: "find_job k d = Some j" "j_status j = JOB_STATUS_RUNNING" "j_kind j = kind"
    "j_result j = r" by (auto simp: running_db_def)
  then show ?thesis
    using assms(2) find_job_id [OF j(1)]
    by (simp add: checkpoint_tx_def wp_bnd wp_andthen wp_get_one_job wp_require wp_put_job running_db_def)
qed

lemma safely_checkpoint:
  assumes "leaves_job k env" and "cancelled \<noteq> Diverges"
  shows "safely (running k kind r) (checkpoint env cancelled k step p c)"
  unfolding checkpoint_def by (rule running_scope [OF assms(1)]) (rule checkpoint_tx_keeps [OF _ assms(2)])

text \<open>The file operations keep the database.\<close>

lemma safely_file_step: "safely (running k kind r) (file_step env s)"
  unfolding file_step_def by (rule running_call)

lemma safely_inspect: "safely (running k kind r) (inspect_archive env)"
  unfolding inspect_archive_def by (rule running_call)

lemma safely_health: "safely (running k kind r) (health_check env)"
  unfolding health_check_def by (rule running_call)

lemma safely_validate: "safely (running k kind r) (validate_controlled_directory env)"
  unfolding validate_controlled_directory_def by (intro safely_rules running_call) simp_all

lemma safely_resolve: "safely (running k kind r) (resolve_managed_artifact env p)"
  unfolding resolve_managed_artifact_def by (intro safely_rules safely_validate)

lemma safely_remove: "safely (running k kind r) (remove_managed_artifact env p)"
  unfolding remove_managed_artifact_def drop_artifact_def
  by (intro safely_rules safely_resolve safely_file_step safely_modify) (simp add: running_def)

lemma safely_publish: "safely (running k kind r) (publish_artifact env p)"
  unfolding publish_artifact_def add_artifact_def
  by (intro safely_rules safely_file_step safely_modify) (simp add: running_def)

lemma safely_remove_tree: "safely (running k kind r) remove_tree"
  unfolding remove_tree_def by (intro safely_modify) (simp add: running_def)

lemmas safely_files = safely_file_step safely_inspect safely_health safely_validate safely_resolve safely_remove
  safely_publish safely_remove_tree

lemma safely_publish_and_verify:
  "mismatch \<noteq> Diverges \<Longrightarrow> safely (running k kind r) (publish_and_verify env p digest mismatch a)"
  unfolding publish_and_verify_def by (intro safely_rules safely_files) simp_all

lemma safely_create_backup:
  assumes "leaves_job k env"
  shows "safely (running k kind r) (create_backup env n (checkpoint env BackupCancelledError k))"
  unfolding create_backup_def run_backup_def build_archive_def snapshot_server_def publish_archive_def Let_def
  by (intro safely_rules safely_files safely_publish_and_verify safely_checkpoint [OF assms]) simp_all

lemma total_file_step: "converges (file_step env s)"
  unfolding file_step_def by (rule total_call)

lemma total_validate: "converges (validate_controlled_directory env)"
  unfolding validate_controlled_directory_def by (intro total_rules) simp_all

lemma total_resolve: "converges (resolve_managed_artifact env p)"
  unfolding resolve_managed_artifact_def by (intro total_rules total_validate)

lemma total_remove: "converges (remove_managed_artifact env p)"
  unfolding remove_managed_artifact_def by (intro total_rules total_resolve total_file_step)

lemma total_insert_backup: "converges (insert_backup mk)"
  by (rule totalI) (simp add: wp_def insert_backup_def Let_def)

lemma total_load_settings: "converges (load_manager_settings z)"
  unfolding load_manager_settings_def by (intro total_rules) simp_all

lemma total_settings: "converges (configured_local_retention z)" "converges (configured_drive_retention z)"
  unfolding configured_local_retention_def configured_drive_retention_def
  by (intro total_rules total_load_settings)+

lemma total_managed: "converges (managed_records env rs)"
  by (induction rs) (auto intro!: total_rules total_resolve)

lemma total_retention: "converges (apply_local_retention env n pres)"
  unfolding apply_local_retention_def delete_backup_def
  by (intro total_rules total_managed total_remove)

lemma total_drive_enqueue: "converges (drive_enqueue kind key u result c action now)"
  unfolding drive_enqueue_def by (intro total_rules) simp_all

lemma total_upload: "converges (enqueue_drive_upload k u t now)"
  unfolding enqueue_drive_upload_def by (intro total_rules total_drive_enqueue) simp_all

lemma wp_total_bnd:
  "converges m \<Longrightarrow> (\<And>x s. wp (f x) Q (\<lambda>e _. e \<noteq> Diverges) s) \<Longrightarrow> wp (bnd m f) Q (\<lambda>e _. e \<noteq> Diverges) s"
  unfolding wp_bnd by (rule wp_mono [OF totalD])

lemma wp_total_andthen:
  "converges m \<Longrightarrow> (\<And>s. wp n Q (\<lambda>e _. e \<noteq> Diverges) s) \<Longrightarrow> wp (andthen m n) Q (\<lambda>e _. e \<noteq> Diverges) s"
  unfolding wp_andthen by (rule wp_mono [OF totalD])

lemma wp_finish_and_audit:
  "wp (andthen (update_job k (\<lambda>j. finished st step now (f j) j)) (record_audit_event t ev))
     (\<lambda>_. job_is k st) (\<lambda>e _. e \<noteq> Diverges) d"
  unfolding wp_andthen by (rule wp_mono [OF wp_update_finished]) (simp_all add: wp_record_audit_event')

lemma register_backup_ends:
  assumes "leaves_job k env"
  shows "triple (backup_running k r) (register_backup env z auto k t a)
    (\<lambda>_ w. job_is k JOB_STATUS_SUCCEEDED (w_db w)) (\<lambda>e w. backup_running k r w \<and> e \<noteq> Diverges)"
  unfolding register_backup_def
  apply (rule running_block_to [OF assms])
  apply (intro wp_total_bnd wp_total_andthen)
        apply (simp_all add: register_backup_artifact_def total_rules total_insert_backup total_settings
         total_retention)
  subgoal unfolding queue_automatic_upload_def by (intro total_rules total_upload)
  subgoal unfolding wp_on_db by (rule wp_mono [OF wp_finish_and_audit]) simp_all
  done

text \<open>Marking the job after a failure or a cancellation cannot fail while the job runs.\<close>

lemma wp_mark_backup:
  assumes "running_db k kind r d"
  shows "wp (failed_backup_tx k t now) (\<lambda>_. job_is k JOB_STATUS_FAILED) (\<lambda>_ _. False) d"
    and "wp (cancelled_backup_tx k t now) (\<lambda>_. job_is k JOB_STATUS_CANCELLED) (\<lambda>_ _. False) d"
proof -
  have ok: "''BACKUP_FAILED'' \<in> set SUPPORTED_DISCORD_EVENT_TYPES" by code_simp
  have fin: "wp (finish_failed_job k st step e now) (\<lambda>_. job_is k st) (\<lambda>_ _. False) d" for st step e
    unfolding finish_failed_job_def by (rule wp_update_finished_run [OF assms])
  show "wp (failed_backup_tx k t now) (\<lambda>_. job_is k JOB_STATUS_FAILED) (\<lambda>_ _. False) d"
    unfolding failed_backup_tx_def wp_andthen
    by (rule wp_mono [OF fin]) (simp_all add: wp_record_audit_event' enqueue_discord_notification_def wp_simps ok)
  show "wp (cancelled_backup_tx k t now) (\<lambda>_. job_is k JOB_STATUS_CANCELLED) (\<lambda>_ _. False) d"
    unfolding cancelled_backup_tx_def wp_andthen
    by (rule wp_mono [OF fin]) (simp_all add: wp_record_audit_event')
qed

text \<open>A removal that raises is the last thing the executor does.\<close>

definition removal_refused :: "exn \<Rightarrow> world \<Rightarrow> bool" where
  "removal_refused e w \<longleftrightarrow> (\<exists>tr. w_trace w = EvFileStep ''unlink'' (Inl e) # tr \<or> w_trace w = EvDirectory (Inl e) # tr)"

lemma remove_refused:
  "wp (remove_managed_artifact env p) (\<lambda>_ w'. w_db w' = w_db w) (\<lambda>e w'. removal_refused e w') w"
  unfolding remove_managed_artifact_def resolve_managed_artifact_def
  by (auto simp: wp_simps validate_controlled_directory_def file_step_def drop_artifact_def Let_def
      removal_refused_def split: option.split sum.split prod.split)

definition backup_ended :: "int \<Rightarrow> exn + backup_artifact option \<Rightarrow> world \<Rightarrow> bool" where
  "backup_ended k res w \<longleftrightarrow> (case res of
       Inr (Some a) \<Rightarrow> job_is k JOB_STATUS_SUCCEEDED (w_db w)
     | Inr None \<Rightarrow> job_is k JOB_STATUS_CANCELLED (w_db w)
     | Inl e \<Rightarrow> job_is k JOB_STATUS_FAILED (w_db w) \<or> removal_refused e w)"

lemma handler_ends:
  assumes "leaves_job k env" and "e \<noteq> Diverges"
  shows "triple (backup_running k r) (backup_handler env k t artifact e)
    (\<lambda>x w. x = None \<and> backup_ended k (Inr None) w) (\<lambda>e. backup_ended k (Inl e))"
proof -
  let ?Q = "\<lambda>x w. x = None \<and> backup_ended k (Inr None) w"
  have mark: "triple (backup_running k r) (session_scope env (failed_backup_tx k t now))
      (\<lambda>_ w. job_is k JOB_STATUS_FAILED (w_db w)) (\<lambda>_ _. False)"
    "triple (backup_running k r) (session_scope env (cancelled_backup_tx k t now))
      (\<lambda>_ w. job_is k JOB_STATUS_CANCELLED (w_db w)) (\<lambda>_ _. False)" for now
    by (rule running_scope_sure [OF assms(1)], erule wp_mark_backup)+
  have rm: "triple (backup_running k r)
      (case artifact of None \<Rightarrow> ret False | Some a \<Rightarrow> remove_managed_artifact env (ba_storage_path a))
      (\<lambda>_. backup_running k r) (\<lambda>e. backup_ended k (Inl e))"
  proof (cases artifact)
    case None
    then show ?thesis by (simp add: triple_ret)
  next
    case (Some a)
    have "wp (remove_managed_artifact env (ba_storage_path a)) (\<lambda>_. backup_running k r)
        (\<lambda>e. backup_ended k (Inl e)) w" if "backup_running k r w" for w
      by (rule wp_mono [OF remove_refused]) (use that in \<open>auto simp: running_def backup_ended_def\<close>)
    then show ?thesis by (simp add: Some triple_def)
  qed
  have fail: "triple (backup_running k r)
      (bnd (wall_now env) (\<lambda>now. andthen (session_scope env (failed_backup_tx k t now)) (raise e)))
      ?Q (\<lambda>e. backup_ended k (Inl e))"
    by (rule tripleI, unfold wp_bnd wp_wall_now wp_andthen wp_raise, rule wp_mono [OF tripleD [OF mark(1)]])
      (simp_all add: backup_ended_def)
  have cancel: "triple (backup_running k r)
      (bnd (wall_now env) (\<lambda>now. andthen (session_scope env (cancelled_backup_tx k t now)) (ret None)))
      ?Q (\<lambda>e. backup_ended k (Inl e))"
    by (rule tripleI, unfold wp_bnd wp_wall_now wp_andthen wp_ret, rule wp_mono [OF tripleD [OF mark(2)]])
      (simp_all add: backup_ended_def)
  show ?thesis
    unfolding backup_handler_def by (rule triple_if [OF cancel triple_andthen [OF rm fail]])
qed

lemma execute_local_backup_ends:
  assumes env: "leaves_job k env"
    and job: "running_db k LOCAL_BACKUP_JOB_KIND r (w_db w)"
      "dict_get (dict_of r) ''trigger'' = Some (JStr t)" "valid_trigger t"
  shows "wp (execute_local_backup env z auto k) (\<lambda>x. backup_ended k (Inr x)) (\<lambda>e. backup_ended k (Inl e)) w"
proof -
  let ?E = "\<lambda>e. backup_ended k (Inl e)"
  have start: "triple (backup_running k r) (session_scope env (bnd (get_one_job k) (\<lambda>j. lift (\<lambda>_. job_trigger j))))
      (\<lambda>_ w. backup_running k r w) (\<lambda>_ _. False)"
  proof -
    have "wp (bnd (get_one_job k) (\<lambda>j. lift (\<lambda>_. job_trigger j))) (\<lambda>_. running_db k LOCAL_BACKUP_JOB_KIND r)
        (\<lambda>_ _. False) d" if "running_db k LOCAL_BACKUP_JOB_KIND r d" for d
      using that job(2,3) by (auto simp: wp_bnd wp_get_one_job wp_lift running_db_def job_trigger_def)
    from running_scope_sure [OF env this] show ?thesis unfolding running_def .
  qed
  have create: "triple (backup_running k r)
      (handle (bnd (create_backup env k (checkpoint env BackupCancelledError k)) (\<lambda>a. ret (Some a)))
         (backup_handler env k u None))
      (\<lambda>x w. if x = None then backup_ended k (Inr None) w else backup_running k r w) ?E" for u
  proof (rule triple_handle)
    show "triple (backup_running k r) (bnd (create_backup env k (checkpoint env BackupCancelledError k)) (\<lambda>a. ret (Some a)))
        (\<lambda>x w. if x = None then backup_ended k (Inr None) w else backup_running k r w)
        (\<lambda>e w. backup_running k r w \<and> e \<noteq> Diverges)"
      by (rule triple_bnd [OF safelyD [OF safely_create_backup [OF env]]]) (simp add: triple_ret)
    show "triple (\<lambda>w. backup_running k r w \<and> e \<noteq> Diverges) (backup_handler env k u None e)
        (\<lambda>x w. if x = None then backup_ended k (Inr None) w else backup_running k r w) ?E"
      if "e \<noteq> Diverges" for e
      by (rule triple_conseq [OF handler_ends [OF env that]]) auto
  qed simp
  have reg: "triple (backup_running k r)
      (handle (andthen (register_backup env z auto k u a) (ret (Some a))) (backup_handler env k u (Some a)))
      (\<lambda>x. backup_ended k (Inr x)) ?E" for u a
  proof (rule triple_handle)
    show "triple (backup_running k r) (andthen (register_backup env z auto k u a) (ret (Some a)))
        (\<lambda>x. backup_ended k (Inr x)) (\<lambda>e w. backup_running k r w \<and> e \<noteq> Diverges)"
      by (rule triple_andthen [OF register_backup_ends [OF env]]) (simp add: triple_ret backup_ended_def)
    show "triple (\<lambda>w. backup_running k r w \<and> e \<noteq> Diverges) (backup_handler env k u (Some a) e)
        (\<lambda>x. backup_ended k (Inr x)) ?E" if "e \<noteq> Diverges" for e
      by (rule triple_conseq [OF handler_ends [OF env that]]) auto
  qed simp
  have start_ok: "triple (backup_running k r) (session_scope env (bnd (get_one_job k) (\<lambda>j. lift (\<lambda>_. job_trigger j))))
      (\<lambda>_. backup_running k r) ?E"
    by (rule triple_conseq [OF start]) auto
  have main: "triple (backup_running k r) (execute_local_backup env z auto k) (\<lambda>x. backup_ended k (Inr x)) ?E"
    unfolding execute_local_backup_def
  proof (rule triple_bnd [OF start_ok])
    fix u :: string
    show "triple (backup_running k r)
        (bnd (handle (bnd (create_backup env k (checkpoint env BackupCancelledError k)) (\<lambda>a. ret (Some a)))
                (backup_handler env k u None)) (\<lambda>made. case made of
           None \<Rightarrow> ret None
         | Some a \<Rightarrow> handle (andthen (register_backup env z auto k u a) (ret (Some a)))
             (backup_handler env k u (Some a)))) (\<lambda>x. backup_ended k (Inr x)) ?E"
    proof (rule triple_bnd [OF create])
      fix made :: "backup_artifact option"
      show "triple (\<lambda>w. if made = None then backup_ended k (Inr None) w else backup_running k r w)
          (case made of None \<Rightarrow> ret None
           | Some a \<Rightarrow> handle (andthen (register_backup env z auto k u a) (ret (Some a)))
               (backup_handler env k u (Some a))) (\<lambda>x. backup_ended k (Inr x)) ?E"
        using reg by (cases made) (simp_all add: triple_ret)
    qed
  qed
  from tripleD [OF main] show ?thesis using job(1) by (simp add: running_def)
qed

text \<open>
  C22: a claimed backup job always ends. Whatever the services, the file system and the web process do,
  as long as the web process leaves the job's row in place: when the execution returns an artifact the
  job is SUCCEEDED, when it returns none the job is CANCELLED, and when it raises the job is FAILED,
  unless the last thing that happened is that the removal of the unregistered archive itself raised;
  then nothing marks the job.
\<close>

theorem local_backup_job_ends:
  assumes "leaves_job k env" and "running_db k LOCAL_BACKUP_JOB_KIND r (w_db w)"
    and "dict_get (dict_of r) ''trigger'' = Some (JStr t)" and "valid_trigger t"
    and "execute_local_backup env zone_ok auto k w = (res, w')"
  shows "case res of
      Inr (Some a) \<Rightarrow> job_is k JOB_STATUS_SUCCEEDED (w_db w')
    | Inr None \<Rightarrow> job_is k JOB_STATUS_CANCELLED (w_db w')
    | Inl e \<Rightarrow> job_is k JOB_STATUS_FAILED (w_db w') \<or> removal_refused e w'"
proof -
  note run = execute_local_backup_ends [OF assms(1-4)]
  have "backup_ended k res w'"
    using wp_InrD [OF run] wp_InlD [OF run] assms(5) by (cases res) auto
  then show ?thesis by (simp add: backup_ended_def)
qed

definition running_backup :: job where
  "running_backup = (new_job LOCAL_BACKUP_JOB_KIND True True LOCAL_BACKUP_COORDINATION_KEY None
     [(''trigger'', JStr ''MANUAL'')] 0 1)\<lparr>j_status := JOB_STATUS_RUNNING\<rparr>"

definition backup_world :: world where
  "backup_world = start_world (empty_db\<lparr>jobs := [running_backup]\<rparr>)"

lemma backup_world_running:
  "running_db 1 LOCAL_BACKUP_JOB_KIND (Some [(''trigger'', JStr ''MANUAL'')]) (w_db backup_world)"
  by (simp add: running_db_def backup_world_def start_world_def running_backup_def find_job_def row_get_def new_job_def)

theorem local_backup_job_ends_witness:
  "case fst (execute_local_backup calm_env (\<lambda>_. True) False 1 backup_world) of
      Inr (Some a) \<Rightarrow> job_is 1 JOB_STATUS_SUCCEEDED (w_db (snd (execute_local_backup calm_env (\<lambda>_. True) False 1 backup_world)))
    | Inr None \<Rightarrow> job_is 1 JOB_STATUS_CANCELLED (w_db (snd (execute_local_backup calm_env (\<lambda>_. True) False 1 backup_world)))
    | Inl e \<Rightarrow> job_is 1 JOB_STATUS_FAILED (w_db (snd (execute_local_backup calm_env (\<lambda>_. True) False 1 backup_world)))
        \<or> removal_refused e (snd (execute_local_backup calm_env (\<lambda>_. True) False 1 backup_world))"
  by (rule local_backup_job_ends [OF leaves_job_calm backup_world_running, where t = "''MANUAL''"])
    (simp_all add: dict_of_def dict_get_def valid_trigger_def)

text \<open>
  The new record is not protected from the retention that follows its registration: when another
  record of the same retention count is dated later, it is the new one that goes.
\<close>

lemma retention_drops_new_backup:
  "b_created_at new < b_created_at other \<Longrightarrow> b_id other \<noteq> b_id new \<Longrightarrow> surplus 1 [] [other, new] = [new]"
  by (auto simp: surplus_def retained_def)

end
