(* ===== verification/DriveRun.thy ===== *)
theory DriveRun
  imports BackupRun
begin

text \<open>
  Executing the operations on Google Drive: the transfers (\<open>app/backups/drive_service.py\<close>) and the
  executor (\<open>DriveJobExecutor\<close> in \<open>app/backups/drive_jobs.py\<close>). What the remote storage answers is in
  the environment.
\<close>

section \<open>Transfers\<close>

definition drive_quota_call :: "env \<Rightarrow> (world, drive_quota) prog" where
  "drive_quota_call env = call env (e_quota env) EvDriveQuota"

definition drive_status :: "env \<Rightarrow> (world, drive_quota \<times> int) prog" where
  "drive_status env = bnd (drive_quota_call env) (\<lambda>quota.
     bnd (call env (e_remote_count env) EvDriveList) (\<lambda>n. ret (quota, n)))"

definition valid_remote_record :: "backup_record \<Rightarrow> bool" where
  "valid_remote_record r \<longleftrightarrow> b_location r = DRIVE \<and> b_status r = ''VALID'' \<and> b_sha256 r \<noteq> None
     \<and> (case b_size_bytes r of None \<Rightarrow> False | Some n \<Rightarrow> 0 < n)
     \<and> b_storage_path r = b_filename r \<and> BACKUP_FILENAME_PATTERN (b_filename r)"

definition drive_delete :: "env \<Rightarrow> backup_record \<Rightarrow> (world, unit) prog" where
  "drive_delete env r = andthen (require (valid_remote_record r) GoogleDriveError)
     (call env (e_remote_delete env) (EvDriveDelete (b_filename r)))"

definition remove_uploaded_artifact :: "env \<Rightarrow> string \<Rightarrow> (world, unit) prog" where
  "remove_uploaded_artifact env filename = andthen (require (BACKUP_FILENAME_PATTERN filename) GoogleDriveError)
     (call env (e_remote_delete env) (EvDriveDelete filename))"

definition drive_upload :: "env \<Rightarrow> backup_record \<Rightarrow> (world, drive_file) prog" where
  "drive_upload env r =
     bnd (resolve_managed_artifact env (b_storage_path r)) (\<lambda>source.
       bnd (reads (\<lambda>w. case source of None \<Rightarrow> False | Some p \<Rightarrow> p \<in> set (w_artifacts w))) (\<lambda>is_file.
         andthen (require (b_location r = LOCAL \<and> b_status r = ''VALID'' \<and> b_sha256 r \<noteq> None
                     \<and> b_size_bytes r \<noteq> None \<and> is_file) GoogleDriveError)
           (bnd (inspect_archive env) (\<lambda>(_, digest, size_bytes).
             andthen (require (b_size_bytes r = Some size_bytes \<and> b_sha256 r = Some digest) GoogleDriveError)
               (call env (e_upload env) (EvDriveUpload (b_filename r)))))))"

text \<open>A download into a fresh working directory, checked against the record; gives the backup's identifier.\<close>

definition download_temporary :: "env \<Rightarrow> backup_record \<Rightarrow> (world, string) prog" where
  "download_temporary env r =
     andthen (require (valid_remote_record r) GoogleDriveError)
       (andthen (file_step env ''mkdir'')
       (andthen (validate_controlled_directory env)
       (andthen (file_step env ''mkdtemp'')
         (handle
           (andthen (call env (e_download env) (EvDriveDownload (b_filename r)))
             (bnd (inspect_archive env) (\<lambda>(backup_id, digest, size_bytes).
               andthen (require (b_size_bytes r = Some size_bytes \<and> b_sha256 r = Some digest) GoogleDriveError)
                 (ret backup_id))))
           (\<lambda>e. andthen remove_tree (raise e))))))"

definition drive_download :: "env \<Rightarrow> backup_record \<Rightarrow> (world, bool) prog \<Rightarrow> (world, backup_artifact) prog" where
  "drive_download env r cancel_requested =
     (let path = BACKUP_DIRECTORY_NAME @ ''/'' @ b_filename r; sha = the (b_sha256 r); size_bytes = the (b_size_bytes r) in
      andthen (require (valid_remote_record r) GoogleDriveError)
        (andthen (file_step env ''mkdir'')
        (andthen (validate_controlled_directory env)
        (bnd (reads (path_taken env path)) (\<lambda>taken.
          andthen (require (\<not> taken) GoogleDriveError)
            (bnd (download_temporary env r) (\<lambda>backup_id.
              always
                (bnd (reads (path_taken env path)) (\<lambda>taken.
                  andthen (require (\<not> taken) GoogleDriveError)
                    (bnd cancel_requested (\<lambda>cancelled.
                      andthen (require (\<not> cancelled) GoogleDriveCancelled)
                        (publish_and_verify env path sha GoogleDriveError
                           \<lparr>ba_backup_id = backup_id, ba_filename = b_filename r, ba_storage_path = path,
                            ba_sha256 = sha, ba_size_bytes = size_bytes, ba_created_at = b_created_at r\<rparr>)))))
                remove_tree)))))))"

section \<open>The steps of the executor\<close>

definition drive_cancel_requested :: "env \<Rightarrow> int \<Rightarrow> (world, bool) prog" where
  "drive_cancel_requested env k = session_scope env (bnd (get_one_job k) (\<lambda>j.
     ret (j_cancel_requested j \<and> j_is_cancellable j)))"

definition drive_checkpoint :: "env \<Rightarrow> int \<Rightarrow> progress_callback" where
  "drive_checkpoint env = checkpoint env GoogleDriveCancelled"

definition get_backup :: "int \<Rightarrow> (db, backup_record) prog" where
  "get_backup k = (\<lambda>d. case find_backup k d of None \<Rightarrow> (Inl NoResultFound, d) | Some r \<Rightarrow> (Inr r, d))"

definition result_record_id :: "dict \<Rightarrow> exn + int" where
  "result_record_id result = (case json_int (dict_get result ''backup_record_id'') of
       Some n \<Rightarrow> if 0 < n then Inr n else Inl GoogleDriveError
     | None \<Rightarrow> Inl GoogleDriveError)"

text \<open>The end of a job, with its audit event; every finish of the executor is an instance.\<close>

definition finish_drive_tx :: "int \<Rightarrow> job_status \<Rightarrow> string \<Rightarrow> dict \<Rightarrow> audit_fields \<Rightarrow> int \<Rightarrow> (db, unit) prog" where
  "finish_drive_tx k status step result ev now =
     andthen (update_job k (\<lambda>j. finished status step now result j)) (record_audit_event now ev)"

definition succeed_drive_tx :: "int \<Rightarrow> dict \<Rightarrow> string \<Rightarrow> int \<Rightarrow> (db, unit) prog" where
  "succeed_drive_tx k result audit_action now =
     finish_drive_tx k JOB_STATUS_SUCCEEDED ''COMPLETED'' result
       (system_event audit_action AUDIT_RESULT_SUCCESS k (Some ''Google Drive'') (Some (safe_audit_details result))) now"

definition finish_drive_success :: "env \<Rightarrow> int \<Rightarrow> dict \<Rightarrow> string \<Rightarrow> (world, unit) prog" where
  "finish_drive_success env k result audit_action =
     bnd (wall_now env) (\<lambda>now. session_scope env (succeed_drive_tx k result audit_action now))"

definition finish_drive_cancelled :: "env \<Rightarrow> int \<Rightarrow> dict \<Rightarrow> (world, unit) prog" where
  "finish_drive_cancelled env k result =
     bnd (wall_now env) (\<lambda>now. session_scope env
       (finish_drive_tx k JOB_STATUS_CANCELLED ''CANCELLED'' (dict_merge result [(''error'', JStr ''CANCELLED'')])
          (system_event (''DRIVE_'' @ operation_of ''OPERATION'' result) AUDIT_RESULT_CANCELLED k
             (Some ''Google Drive'') (Some (safe_audit_details result))) now))"

definition finish_drive_failed :: "env \<Rightarrow> int \<Rightarrow> dict \<Rightarrow> (world, unit) prog" where
  "finish_drive_failed env k result =
     bnd (wall_now env) (\<lambda>now. session_scope env
       (andthen (finish_drive_tx k JOB_STATUS_FAILED ''FAILED'' (dict_merge result [(''error'', JStr ''DRIVE_FAILED'')])
          (system_event (''DRIVE_'' @ operation_of ''OPERATION'' result) AUDIT_RESULT_FAILURE k
             (Some ''Google Drive'')
             (Some (dict_merge (safe_audit_details result) [(''error'', JStr ''DRIVE_FAILED'')]))) now)
         (enqueue_discord_notification ''DRIVE_FAILED'' (Some k) now)))"

definition managed_remote_count :: "env \<Rightarrow> (world, int) prog" where
  "managed_remote_count env = session_scope env (reads (\<lambda>d. int (length (managed_remote_records d))))"

definition remove_oldest_managed_remote :: "env \<Rightarrow> int \<Rightarrow> (world, int) prog" where
  "remove_oldest_managed_remote env k = session_block env
     (bnd (on_db (reads managed_remote_records)) (\<lambda>records.
       if records = [] then ret 0
       else (let oldest = last records in
         andthen (drive_delete env oldest)
           (bnd (wall_now env) (\<lambda>now.
             andthen (on_db (record_audit_event now (system_event ''DRIVE_RETENTION'' AUDIT_RESULT_SUCCESS k
                  (Some ''Google Drive'') (Some [(''backup_record_id'', JInt (b_id oldest)),
                     (''filename'', JStr (b_filename oldest)), (''reason'', JStr ''RETENTION_OR_QUOTA'')]))))
               (andthen (on_db (delete_backup (b_id oldest)))
                 (ret (case b_size_bytes oldest of None \<Rightarrow> 0 | Some n \<Rightarrow> n))))))))"

text \<open>The two \<open>while\<close> loops of \<open>_prepare_capacity\<close>, each bounded by fuel.\<close>

fun trim_remote :: "env \<Rightarrow> int \<Rightarrow> int \<Rightarrow> nat \<Rightarrow> (world, unit) prog" where
  "trim_remote env k retention 0 = raise Diverges"
| "trim_remote env k retention (Suc fuel) =
     bnd (managed_remote_count env) (\<lambda>n.
       if retention \<le> n
       then bnd (remove_oldest_managed_remote env k) (\<lambda>_. trim_remote env k retention fuel)
       else ret ())"

fun free_remote :: "env \<Rightarrow> int \<Rightarrow> int \<Rightarrow> int \<Rightarrow> nat \<Rightarrow> (world, int) prog" where
  "free_remote env k required_bytes available_bytes 0 = raise Diverges"
| "free_remote env k required_bytes available_bytes (Suc fuel) =
     (if required_bytes \<le> available_bytes then ret available_bytes
      else bnd (managed_remote_count env) (\<lambda>n.
        if n \<le> 0 then ret available_bytes
        else bnd (drive_cancel_requested env k) (\<lambda>cancelled.
          andthen (require (\<not> cancelled) GoogleDriveCancelled)
            (bnd (remove_oldest_managed_remote env k) (\<lambda>removed_bytes.
              bnd (drive_quota_call env) (\<lambda>quota.
                free_remote env k required_bytes (max (available_bytes + removed_bytes) (q_free quota)) fuel))))))"

definition prepare_capacity :: "env \<Rightarrow> (string \<Rightarrow> bool) \<Rightarrow> int \<Rightarrow> int \<Rightarrow> (world, unit) prog" where
  "prepare_capacity env zone_ok k required_bytes =
     bnd (session_scope env (configured_drive_retention zone_ok)) (\<lambda>retention.
       andthen (trim_remote env k retention (e_fuel env))
         (bnd (drive_quota_call env) (\<lambda>quota.
           bnd (free_remote env k required_bytes (q_free quota) (e_fuel env)) (\<lambda>available_bytes.
             require (required_bytes \<le> available_bytes) GoogleDriveError))))"

section \<open>The four operations\<close>

definition execute_drive_check :: "env \<Rightarrow> int \<Rightarrow> (world, unit) prog" where
  "execute_drive_check env k =
     andthen (drive_checkpoint env k ''CHECKING_CONNECTION'' 30 False)
       (bnd (drive_status env) (\<lambda>(quota, remote_count).
         finish_drive_success env k
           [(''operation'', JStr ''CHECK''), (''quota_total'', JInt (q_total quota)),
            (''quota_used'', JInt (q_used quota)), (''quota_free'', JInt (q_free quota)),
            (''quota_trashed'', JInt (q_trashed quota)), (''remote_count'', JInt remote_count)] ''DRIVE_CHECK''))"

definition register_remote_tx :: "int \<Rightarrow> dict \<Rightarrow> drive_file \<Rightarrow> int \<Rightarrow> int \<Rightarrow> (db, unit) prog" where
  "register_remote_tx k result remote created_at now =
     bnd (reads (\<lambda>d. list_ex (\<lambda>r. b_location r = DRIVE \<and> b_filename r = df_filename remote) (backups d)))
       (\<lambda>duplicate. andthen (require (\<not> duplicate) GoogleDriveError)
         (bnd (insert_backup (\<lambda>i. \<lparr>b_id = i, b_job_id = Some k, b_filename = df_filename remote, b_location = DRIVE,
                  b_status = ''VALID'', b_sha256 = Some (df_sha256 remote), b_size_bytes = Some (df_size_bytes remote),
                  b_storage_path = df_filename remote, b_created_at = created_at\<rparr>)) (\<lambda>record.
           succeed_drive_tx k (dict_merge result [(''remote_backup_record_id'', JInt (b_id record)),
                (''sha256'', JStr (df_sha256 remote)), (''size_bytes'', JInt (df_size_bytes remote)),
                (''integrity'', JStr ''VALID'')]) ''DRIVE_UPLOAD'' now)))"

definition execute_drive_upload :: "env \<Rightarrow> (string \<Rightarrow> bool) \<Rightarrow> int \<Rightarrow> dict \<Rightarrow> (world, unit) prog" where
  "execute_drive_upload env zone_ok k result =
     bnd (lift (\<lambda>_. result_record_id result)) (\<lambda>record_id.
      andthen (drive_checkpoint env k ''VALIDATING_LOCAL'' 10 True)
       (bnd (session_scope env (bnd (reads (find_backup record_id)) (\<lambda>record.
           andthen (require (valid_record record LOCAL) GoogleDriveError)
             (ret (the (b_size_bytes (the record))))))) (\<lambda>required_bytes.
        andthen (drive_checkpoint env k ''CHECKING_QUOTA'' 20 True)
       (andthen (prepare_capacity env zone_ok k required_bytes)
       (andthen (drive_checkpoint env k ''UPLOADING'' 35 True)
       (bnd (session_block env (bnd (on_db (get_backup record_id)) (\<lambda>record.
           bnd (drive_upload env record) (\<lambda>remote. ret (remote, b_created_at record))))) (\<lambda>(remote, created_at).
        andthen (drive_checkpoint env k ''VERIFYING_REMOTE'' 90 False)
          (handle
            (bnd (wall_now env) (\<lambda>now. session_scope env (register_remote_tx k result remote created_at now)))
            (\<lambda>e. andthen (remove_uploaded_artifact env (df_filename remote)) (raise e))))))))))"

definition register_download :: "env \<Rightarrow> (string \<Rightarrow> bool) \<Rightarrow> int \<Rightarrow> dict \<Rightarrow> backup_artifact \<Rightarrow> (world, unit) prog" where
  "register_download env zone_ok k result a =
     session_block env
       (bnd (on_db (register_backup_artifact a k)) (\<lambda>record.
        bnd (on_db (configured_local_retention zone_ok)) (\<lambda>retention.
        andthen (apply_local_retention env retention [b_id record])
        (bnd (wall_now env) (\<lambda>now.
          on_db (succeed_drive_tx k (dict_merge result [(''local_backup_record_id'', JInt (b_id record)),
             (''integrity'', JStr ''VALID'')]) ''DRIVE_DOWNLOAD'' now))))))"

definition execute_drive_download :: "env \<Rightarrow> (string \<Rightarrow> bool) \<Rightarrow> int \<Rightarrow> dict \<Rightarrow> (world, unit) prog" where
  "execute_drive_download env zone_ok k result =
     bnd (lift (\<lambda>_. result_record_id result)) (\<lambda>record_id.
      andthen (drive_checkpoint env k ''DOWNLOADING'' 20 True)
       (bnd (session_block env (bnd (on_db (get_backup record_id)) (\<lambda>record.
           drive_download env record (drive_cancel_requested env k)))) (\<lambda>a.
        andthen (drive_checkpoint env k ''VALIDATING_DOWNLOAD'' 85 False)
          (handle (register_download env zone_ok k result a)
            (\<lambda>e. andthen (remove_managed_artifact env (ba_storage_path a)) (raise e))))))"

definition execute_drive_delete :: "env \<Rightarrow> int \<Rightarrow> dict \<Rightarrow> (world, unit) prog" where
  "execute_drive_delete env k result =
     bnd (lift (\<lambda>_. result_record_id result)) (\<lambda>record_id.
      andthen (drive_checkpoint env k ''DELETING_REMOTE'' 50 False)
       (andthen (session_block env (bnd (on_db (get_backup record_id)) (\<lambda>record.
           andthen (drive_delete env record) (on_db (delete_backup (b_id record))))))
         (finish_drive_success env k result ''DRIVE_DELETE'')))"

definition run_drive_operation :: "env \<Rightarrow> (string \<Rightarrow> bool) \<Rightarrow> int \<Rightarrow> string \<Rightarrow> dict \<Rightarrow> (world, unit) prog" where
  "run_drive_operation env zone_ok k kind result =
     (if kind = DRIVE_CHECK_JOB_KIND then execute_drive_check env k
      else if kind = DRIVE_UPLOAD_JOB_KIND then execute_drive_upload env zone_ok k result
      else if kind = DRIVE_DOWNLOAD_JOB_KIND then execute_drive_download env zone_ok k result
      else if kind = DRIVE_DELETE_JOB_KIND then execute_drive_delete env k result
      else raise AssertionError)"

definition execute_drive_job :: "env \<Rightarrow> (string \<Rightarrow> bool) \<Rightarrow> int \<Rightarrow> (world, unit) prog" where
  "execute_drive_job env zone_ok k =
     bnd (session_scope env (bnd (get_one_job k) (\<lambda>j.
            andthen (require (j_kind j \<in> set DRIVE_JOB_KINDS \<and> j_status j = JOB_STATUS_RUNNING) ValueError)
              (ret (j_kind j, dict_of (j_result j)))))) (\<lambda>(kind, initial_result).
       handle (run_drive_operation env zone_ok k kind initial_result)
         (\<lambda>e. if e = GoogleDriveCancelled then finish_drive_cancelled env k initial_result
              else andthen (finish_drive_failed env k initial_result) (raise e)))"

section \<open>A Drive job always ends\<close>

lemma running_backups [simp]:
  "running_db k kind r (d\<lparr>backups := b\<rparr>) = running_db k kind r d"
  "running_db k kind r (audited t f d) = running_db k kind r d"
  by (simp_all add: running_db_def)

lemma keeps_drive_calls:
  "keeps (running k kind r) (drive_quota_call env)" "keeps (running k kind r) (drive_delete env x)"
  "keeps (running k kind r) (remove_uploaded_artifact env f)" "keeps (running k kind r) (drive_status env)"
  "keeps (running k kind r) (drive_upload env x)" "keeps (running k kind r) (download_temporary env x)"
  unfolding drive_quota_call_def drive_delete_def remove_uploaded_artifact_def drive_status_def drive_upload_def
    download_temporary_def
  by (intro keeps_rules safely_keeps [OF running_call] safely_files [THEN safely_keeps])+

lemma keeps_drive_tx:
  assumes "leaves_job k env"
  shows "keeps (running k kind r) (drive_checkpoint env k s p c)"
    and "keeps (running k kind r) (drive_cancel_requested env k)"
    and "keeps (running k kind r) (managed_remote_count env)"
    and "keeps (running k kind r) (session_scope env (configured_drive_retention z))"
proof -
  show "keeps (running k kind r) (drive_checkpoint env k s p c)"
    unfolding drive_checkpoint_def by (rule safely_keeps [OF safely_checkpoint [OF assms]]) simp
  show "keeps (running k kind r) (drive_cancel_requested env k)"
    unfolding drive_cancel_requested_def
    by (rule running_scope_keeps [OF assms]) (simp add: wp_simps split: option.split)
  show "keeps (running k kind r) (managed_remote_count env)"
    unfolding managed_remote_count_def by (rule running_scope_keeps [OF assms]) (simp add: wp_simps)
  show "keeps (running k kind r) (session_scope env (configured_drive_retention z))"
    unfolding configured_drive_retention_def load_manager_settings_def
    by (rule running_scope_keeps [OF assms]) (simp add: wp_simps split: option.split)
qed

lemma keeps_delete_backup: "keeps (running k kind r) (on_db (delete_backup i))"
  unfolding delete_backup_def by (rule running_on_db) (simp add: wp_simps)

lemma keeps_audit: "keeps (running k kind r) (on_db (record_audit_event t f))"
  by (rule running_on_db) (simp add: wp_record_audit_event')

lemma keeps_on_db_reads: "keeps (running k kind r) (on_db (reads f))"
  by (rule running_on_db) (simp add: wp_simps)

lemma keeps_get_backup: "keeps (running k kind r) (on_db (get_backup i))"
  by (rule running_on_db) (simp add: get_backup_def wp_def split: option.split)

lemma keeps_remove_oldest:
  "leaves_job k env \<Longrightarrow> keeps (running k kind r) (remove_oldest_managed_remote env k)"
  unfolding remove_oldest_managed_remote_def Let_def
  by (intro running_block keeps_rules keeps_on_db_reads keeps_drive_calls keeps_audit keeps_delete_backup)

lemma keeps_trim:
  assumes "leaves_job k env"
  shows "keeps (running k kind r) (trim_remote env k n fuel)"
  by (induction fuel)
    (simp_all add: keeps_raise keeps_bnd keeps_drive_tx [OF assms] keeps_remove_oldest [OF assms] keeps_ret)

lemma keeps_free:
  assumes "leaves_job k env"
  shows "keeps (running k kind r) (free_remote env k n a fuel)"
proof (induction fuel arbitrary: a)
  case 0
  then show ?case by (simp add: keeps_raise)
next
  case (Suc fuel)
  show ?case unfolding free_remote.simps
    by (intro keeps_rules keeps_drive_tx [OF assms] keeps_remove_oldest [OF assms] keeps_drive_calls Suc.IH)
qed

lemma keeps_prepare: "leaves_job k env \<Longrightarrow> keeps (running k kind r) (prepare_capacity env z k n)"
  unfolding prepare_capacity_def
  by (intro keeps_rules keeps_drive_tx keeps_trim keeps_free keeps_drive_calls)

lemma keeps_lift: "keeps (running k kind r) (lift (\<lambda>_. x))"
  by (simp add: keeps_def triple_def wp_lift split: sum.split)

lemma keeps_drive_download:
  "leaves_job k env \<Longrightarrow> keeps (running k kind r) (drive_download env x (drive_cancel_requested env k))"
  unfolding drive_download_def Let_def
  by (intro keeps_rules keeps_drive_tx keeps_drive_calls safely_files [THEN safely_keeps]
      safely_publish_and_verify [THEN safely_keeps]) simp_all

abbreviation succeeded :: "int \<Rightarrow> 'a \<Rightarrow> world \<Rightarrow> bool" where
  "succeeded k \<equiv> (\<lambda>_ w. job_is k JOB_STATUS_SUCCEEDED (w_db w))"

lemma keeps_start: "keeps P m \<Longrightarrow> triple P n Q (\<lambda>_. P) \<Longrightarrow> triple P (andthen m n) Q (\<lambda>_. P)"
  unfolding keeps_def by (rule triple_andthen)

lemma keeps_start_bnd: "keeps P m \<Longrightarrow> (\<And>x. triple P (f x) Q (\<lambda>_. P)) \<Longrightarrow> triple P (bnd m f) Q (\<lambda>_. P)"
  unfolding keeps_def by (rule triple_bnd)

lemma keeps_then_raise: "keeps P m \<Longrightarrow> triple P (andthen m (raise e)) Q (\<lambda>_. P)"
  by (rule keeps_start) (simp_all add: triple_raise)

lemma triple_case_prod: "(\<And>a b. triple P (f a b) Q E) \<Longrightarrow> triple P (case x of (a, b) \<Rightarrow> f a b) Q E"
  by (simp split: prod.split)

lemma triple_handle_keeps:
  "triple P m Q (\<lambda>_. P) \<Longrightarrow> (\<And>e. triple P (h e) Q (\<lambda>_. P)) \<Longrightarrow> triple P (handle m h) Q (\<lambda>_. P)"
  by (rule triple_handle)

lemma wp_finish_drive:
  "wp (finish_drive_tx k st step result ev now) (\<lambda>_. job_is k st) (\<lambda>_ _. True) d"
  unfolding finish_drive_tx_def by (rule wp_mono [OF wp_finish_and_audit]) simp_all

lemma wp_succeed_drive: "wp (succeed_drive_tx k result action now) (\<lambda>_. job_is k JOB_STATUS_SUCCEEDED) (\<lambda>_ _. True) d"
  unfolding succeed_drive_tx_def by (rule wp_finish_drive)

lemma finish_success_ends:
  "leaves_job k env \<Longrightarrow> triple (running k kind r) (finish_drive_success env k result action) (succeeded k) (\<lambda>_. running k kind r)"
  unfolding finish_drive_success_def
  by (rule keeps_start_bnd [OF keeps_wall_now running_scope_last [OF _ wp_succeed_drive]])

lemma check_ends:
  "leaves_job k env \<Longrightarrow> triple (running k kind r) (execute_drive_check env k) (succeeded k) (\<lambda>_. running k kind r)"
  unfolding execute_drive_check_def
  by (intro keeps_start keeps_start_bnd keeps_drive_tx keeps_drive_calls triple_case_prod finish_success_ends)

lemma delete_ends:
  "leaves_job k env \<Longrightarrow> triple (running k kind r) (execute_drive_delete env k result) (succeeded k) (\<lambda>_. running k kind r)"
  unfolding execute_drive_delete_def
  by (intro keeps_start keeps_start_bnd keeps_lift keeps_drive_tx running_block keeps_rules keeps_get_backup
      keeps_drive_calls keeps_delete_backup finish_success_ends)

lemma wp_register_remote:
  "wp (register_remote_tx k result remote c now) (\<lambda>_. job_is k JOB_STATUS_SUCCEEDED) (\<lambda>_ _. True) d"
  unfolding register_remote_tx_def by (intro wp_any_bnd wp_any_andthen wp_succeed_drive)

lemma upload_ends:
  assumes "leaves_job k env"
  shows "triple (running k kind r) (execute_drive_upload env z k result) (succeeded k) (\<lambda>_. running k kind r)"
  unfolding execute_drive_upload_def
  apply (intro keeps_start keeps_start_bnd keeps_lift keeps_drive_tx [OF assms] keeps_prepare [OF assms]
      triple_case_prod triple_handle_keeps keeps_then_raise keeps_drive_calls keeps_wall_now
      running_scope_last [OF assms wp_register_remote] running_block [OF assms] keeps_rules keeps_get_backup)
   apply (rule running_scope_keeps [OF assms], simp add: wp_simps)
  apply (rule triple_raise, assumption)
  done

lemma wp_register_download:
  "wp (bnd (on_db (register_backup_artifact a k)) (\<lambda>record.
        bnd (on_db (configured_local_retention z)) (\<lambda>retention.
        andthen (apply_local_retention env retention [b_id record])
        (bnd (wall_now env) (\<lambda>now.
          on_db (succeed_drive_tx k (dict_merge result [(''local_backup_record_id'', JInt (b_id record)),
             (''integrity'', JStr ''VALID'')]) ''DRIVE_DOWNLOAD'' now)))))) (succeeded k) (\<lambda>_ _. True) w"
  by (intro wp_any_bnd wp_any_andthen) (simp add: wp_on_db wp_mono [OF wp_succeed_drive])

lemma download_ends:
  assumes "leaves_job k env"
  shows "triple (running k kind r) (execute_drive_download env z k result) (succeeded k) (\<lambda>_. running k kind r)"
  unfolding execute_drive_download_def register_download_def
  by (intro keeps_start keeps_start_bnd keeps_lift keeps_drive_tx [OF assms] running_block [OF assms] keeps_rules
      keeps_get_backup keeps_drive_download [OF assms] triple_handle_keeps keeps_then_raise
      safely_remove [THEN safely_keeps] running_block_last [OF assms wp_register_download])

lemma operation_ends:
  "leaves_job k env \<Longrightarrow> triple (running k kind r) (run_drive_operation env z k kd result) (succeeded k) (\<lambda>_. running k kind r)"
  unfolding run_drive_operation_def
  by (intro triple_if check_ends upload_ends download_ends delete_ends triple_raise)

definition known_operation :: "dict \<Rightarrow> bool" where
  "known_operation result \<longleftrightarrow> operation_of ''OPERATION'' result \<in> {''CHECK'', ''UPLOAD'', ''DOWNLOAD'', ''DELETE'', ''OPERATION''}"

lemma known_operation_valid: "known_operation result \<Longrightarrow> valid_audit_action (''DRIVE_'' @ operation_of ''OPERATION'' result)"
  unfolding known_operation_def by (elim insertE emptyE) (simp_all only: append.simps valid_DRIVE)

lemma wp_finish_drive_run:
  assumes "running_db k kind r d" and "valid_audit_action (f_action ev)"
  shows "wp (finish_drive_tx k st step result ev now) (\<lambda>_. job_is k st) (\<lambda>_ _. False) d"
  unfolding finish_drive_tx_def wp_andthen
  by (rule wp_mono [OF wp_update_finished_run [OF assms(1)]]) (simp_all add: wp_record_audit_event' assms(2))

lemma marks_ends:
  assumes env: "leaves_job k env" and op: "known_operation result"
  shows "triple (running k kind r) (finish_drive_cancelled env k result)
      (\<lambda>_ w. job_is k JOB_STATUS_CANCELLED (w_db w)) (\<lambda>_ _. False)"
    and "triple (running k kind r) (finish_drive_failed env k result)
      (\<lambda>_ w. job_is k JOB_STATUS_FAILED (w_db w)) (\<lambda>_ _. False)"
proof -
  have ok: "''DRIVE_FAILED'' \<in> set SUPPORTED_DISCORD_EVENT_TYPES" by code_simp
  note v = known_operation_valid [OF op, simplified]
  show "triple (running k kind r) (finish_drive_cancelled env k result)
      (\<lambda>_ w. job_is k JOB_STATUS_CANCELLED (w_db w)) (\<lambda>_ _. False)"
    unfolding finish_drive_cancelled_def
    by (rule triple_bnd [OF triple_wall_now [where Q = "\<lambda>_. running k kind r"]], assumption,
        rule running_scope_sure [OF env], rule wp_finish_drive_run) (simp_all add: v)
  show "triple (running k kind r) (finish_drive_failed env k result)
      (\<lambda>_ w. job_is k JOB_STATUS_FAILED (w_db w)) (\<lambda>_ _. False)"
    unfolding finish_drive_failed_def
    by (rule triple_bnd [OF triple_wall_now [where Q = "\<lambda>_. running k kind r"]], assumption,
        rule running_scope_sure [OF env], unfold wp_andthen, rule wp_mono [OF wp_finish_drive_run])
      (simp_all add: v enqueue_discord_notification_def wp_simps ok)
qed

text \<open>The whole execution of a Drive job.\<close>

abbreviation drive_ended :: "int \<Rightarrow> exn \<Rightarrow> world \<Rightarrow> bool" where
  "drive_ended k e w \<equiv> e \<noteq> Diverges \<longrightarrow> job_is k JOB_STATUS_FAILED (w_db w)"

abbreviation drive_completed :: "int \<Rightarrow> unit \<Rightarrow> world \<Rightarrow> bool" where
  "drive_completed k \<equiv> \<lambda>_ w. job_is k JOB_STATUS_SUCCEEDED (w_db w) \<or> job_is k JOB_STATUS_CANCELLED (w_db w)"

lemma drive_start_sure:
  assumes "leaves_job k env" and "kind \<in> set DRIVE_JOB_KINDS"
  shows "triple (running k kind r) (session_scope env (bnd (get_one_job k) (\<lambda>j.
            andthen (require (j_kind j \<in> set DRIVE_JOB_KINDS \<and> j_status j = JOB_STATUS_RUNNING) ValueError)
              (ret (j_kind j, dict_of (j_result j)))))) (\<lambda>x w. running k kind r w \<and> x = (kind, dict_of r)) (drive_ended k)"
proof -
  have "wp (bnd (get_one_job k) (\<lambda>j.
          andthen (require (j_kind j \<in> set DRIVE_JOB_KINDS \<and> j_status j = JOB_STATUS_RUNNING) ValueError)
            (ret (j_kind j, dict_of (j_result j)))))
      (\<lambda>x d'. running_db k kind r d' \<and> x = (kind, dict_of r)) (\<lambda>_ _. False) d" if "running_db k kind r d" for d
    using that assms(2) by (auto simp: wp_simps running_db_def)
  from running_scope_sure [OF assms(1) this] show ?thesis by (rule triple_conseq) (auto simp: running_def)
qed

lemma drive_body_ends:
  assumes "leaves_job k env" and "known_operation (dict_of r)"
  shows "triple (running k kind r) (handle (run_drive_operation env zone_ok k kind (dict_of r))
      (\<lambda>e. if e = GoogleDriveCancelled then finish_drive_cancelled env k (dict_of r)
            else andthen (finish_drive_failed env k (dict_of r)) (raise e))) (drive_completed k) (drive_ended k)"
proof (rule triple_handle [where R = "\<lambda>_. running k kind r"])
  show "triple (running k kind r) (run_drive_operation env zone_ok k kind (dict_of r)) (drive_completed k) (\<lambda>_. running k kind r)"
    by (rule triple_conseq [OF operation_ends [OF assms(1)]]) auto
  fix e :: exn
  assume "e \<noteq> Diverges"
  show "triple (running k kind r) (if e = GoogleDriveCancelled then finish_drive_cancelled env k (dict_of r)
          else andthen (finish_drive_failed env k (dict_of r)) (raise e)) (drive_completed k) (drive_ended k)"
  proof (rule triple_if)
    show "triple (running k kind r) (finish_drive_cancelled env k (dict_of r)) (drive_completed k) (drive_ended k)"
      by (rule triple_conseq [OF marks_ends(1) [OF assms]]) auto
    show "triple (running k kind r) (andthen (finish_drive_failed env k (dict_of r)) (raise e)) (drive_completed k) (drive_ended k)"
      by (rule tripleI, unfold wp_andthen wp_raise, rule wp_mono [OF tripleD [OF marks_ends(2) [OF assms]]]) auto
  qed
qed auto

lemma execute_drive_job_ends:
  assumes "leaves_job k env" and "kind \<in> set DRIVE_JOB_KINDS" and "known_operation (dict_of r)"
  shows "triple (running k kind r) (execute_drive_job env zone_ok k) (drive_completed k) (drive_ended k)"
  unfolding execute_drive_job_def
proof (rule triple_bnd [OF drive_start_sure [OF assms(1,2)]])
  show "triple (\<lambda>w. running k kind r w \<and> x = (kind, dict_of r)) (case x of (kind, initial_result) \<Rightarrow>
     handle (run_drive_operation env zone_ok k kind initial_result)
       (\<lambda>e. if e = GoogleDriveCancelled then finish_drive_cancelled env k initial_result
            else andthen (finish_drive_failed env k initial_result) (raise e))) (drive_completed k) (drive_ended k)" for x
    using drive_body_ends [OF assms(1,3), of kind zone_ok] by (cases "x = (kind, dict_of r)") (simp_all add: triple_def)
qed

text \<open>
  C23: a claimed Drive job always ends. When the execution returns, the job is SUCCEEDED or CANCELLED;
  when it raises, the job is FAILED. The only exception is a clean-up of the remote storage that
  never comes to an end.
\<close>

theorem drive_job_ends:
  assumes "leaves_job k env" and "running_db k kind r (w_db w)" and "kind \<in> set DRIVE_JOB_KINDS"
    and "known_operation (dict_of r)" and "execute_drive_job env zone_ok k w = (res, w')"
  shows "case res of
      Inr _ \<Rightarrow> job_is k JOB_STATUS_SUCCEEDED (w_db w') \<or> job_is k JOB_STATUS_CANCELLED (w_db w')
    | Inl e \<Rightarrow> e \<noteq> Diverges \<longrightarrow> job_is k JOB_STATUS_FAILED (w_db w')"
proof -
  from tripleD [OF execute_drive_job_ends [OF assms(1,3,4)]] assms(2)
  have run: "wp (execute_drive_job env zone_ok k) (drive_completed k) (drive_ended k) w" by (simp add: running_def)
  show ?thesis using wp_InrD [OF run] wp_InlD [OF run] assms(5) by (cases res) auto
qed

definition drive_result :: dict where
  "drive_result = [(''operation'', JStr ''CHECK'')]"

definition drive_world :: world where
  "drive_world = start_world (empty_db\<lparr>jobs := [(new_job DRIVE_CHECK_JOB_KIND False False ''DRIVE_CHECK'' None
     drive_result 0 1)\<lparr>j_status := JOB_STATUS_RUNNING\<rparr>]\<rparr>)"

theorem drive_job_ends_witness:
  "case fst (execute_drive_job calm_env (\<lambda>_. True) 1 drive_world) of
      Inr _ \<Rightarrow> job_is 1 JOB_STATUS_SUCCEEDED (w_db (snd (execute_drive_job calm_env (\<lambda>_. True) 1 drive_world)))
        \<or> job_is 1 JOB_STATUS_CANCELLED (w_db (snd (execute_drive_job calm_env (\<lambda>_. True) 1 drive_world)))
    | Inl e \<Rightarrow> e \<noteq> Diverges \<longrightarrow> job_is 1 JOB_STATUS_FAILED (w_db (snd (execute_drive_job calm_env (\<lambda>_. True) 1 drive_world)))"
proof (rule drive_job_ends [OF leaves_job_calm])
  show "running_db 1 DRIVE_CHECK_JOB_KIND (Some drive_result) (w_db drive_world)"
    by (simp add: running_db_def drive_world_def start_world_def find_job_def row_get_def new_job_def)
  show "DRIVE_CHECK_JOB_KIND \<in> set DRIVE_JOB_KINDS" by (simp add: DRIVE_JOB_KINDS_def)
  show "known_operation (dict_of (Some drive_result))"
    by (simp add: known_operation_def dict_of_def drive_result_def operation_of_def dict_get_def)
qed simp

section \<open>Making room ends\<close>

text \<open>The other process leaves the records of the backups alone while a Drive job runs.\<close>

definition leaves_backups :: "env \<Rightarrow> bool" where
  "leaves_backups env \<longleftrightarrow> (\<forall>n d. backups (e_interfere env n d) = backups d)"

definition remote_count :: "world \<Rightarrow> nat" where
  "remote_count w = length (managed_remote_records (w_db w))"

lemma managed_remote_cong: "backups d = backups e \<Longrightarrow> managed_remote_records d = managed_remote_records e"
  by (simp add: managed_remote_records_def valid_records_def)

lemma remote_count_after [simp]:
  "remote_count (after_call env ev w) = remote_count w"
  "remote_count (w\<lparr>w_db := d\<rparr>) = length (managed_remote_records d)"
  "leaves_backups env \<Longrightarrow> remote_count (after_scope w (e_interfere env n (w_db w))) = remote_count w"
  by (simp_all add: remote_count_def leaves_backups_def managed_remote_cong [of "e_interfere env n (w_db w)" "w_db w"])

lemma wp_remote_count:
  assumes "leaves_backups env"
  shows "wp (managed_remote_count env) (\<lambda>n w'. n = int (remote_count w) \<and> remote_count w' = remote_count w)
    (\<lambda>_ _. False) w"
  using assms by (simp add: managed_remote_count_def wp_simps Let_def remote_count_def leaves_backups_def
      managed_remote_cong [of "e_interfere env (w_tick w) (w_db w)" "w_db w"])

text \<open>Deleting the oldest record takes one away.\<close>

lemma managed_remote_delete:
  assumes "x \<in> set (managed_remote_records d)"
  shows "length (managed_remote_records (d\<lparr>backups := row_delete b_id (b_id x) (backups d)\<rparr>))
    < length (managed_remote_records d)"
proof -
  let ?p = "\<lambda>r. b_location r = DRIVE \<and> b_status r = ''VALID'' \<and> b_storage_path r = b_filename r
    \<and> BACKUP_FILENAME_PATTERN (b_filename r)"
  have len: "length (managed_remote_records d) = length (filter ?p (backups d))" for d
  proof -
    have "filter (\<lambda>r. b_storage_path r = b_filename r \<and> BACKUP_FILENAME_PATTERN (b_filename r))
        (filter (\<lambda>r. b_location r = DRIVE \<and> b_status r = ''VALID'') (backups d)) = filter ?p (backups d)"
      by (simp add: filter_filter)
    then show ?thesis
      by (simp add: managed_remote_records_def valid_records_def order_by_def filter_sort)
  qed
  have "x \<in> set (backups d)" "?p x" using assms by (auto simp: managed_remote_records_def valid_records_def)
  then have "length (filter ?p (filter (\<lambda>r. b_id r \<noteq> b_id x) (backups d))) < length (filter ?p (backups d))"
    using length_filter_less [of x "filter ?p (backups d)" "\<lambda>r. b_id r \<noteq> b_id x"] by (simp add: conj_commute)
  then show ?thesis by (simp add: len row_delete_def)
qed

lemma wp_remove_oldest:
  assumes "leaves_backups env" and "0 < remote_count w"
  shows "wp (remove_oldest_managed_remote env k) (\<lambda>_ w'. remote_count w' < remote_count w) (\<lambda>e _. e \<noteq> Diverges) w"
proof -
  let ?d = "e_interfere env (w_tick w) (w_db w)"
  have same: "managed_remote_records ?d = managed_remote_records (w_db w)"
    by (rule managed_remote_cong) (use assms(1) in \<open>simp add: leaves_backups_def\<close>)
  from assms(2) have ne: "managed_remote_records (w_db w) \<noteq> []" by (simp add: remote_count_def)
  have "converges (drive_delete env x)" for x
    unfolding drive_delete_def by (intro total_rules) simp
  from totalD [OF this]
  have del: "wp (drive_delete env x) (\<lambda>_ _. True) (\<lambda>e _. e \<noteq> Diverges) s" for x s .
  have keep: "wp (drive_delete env x) (\<lambda>_ w'. w_db w' = w_db s) (\<lambda>_ _. True) s" for x s
    by (auto simp: drive_delete_def wp_simps Let_def split: sum.split)
  have less: "wp (delete_backup (b_id (last (managed_remote_records (w_db w)))))
      (\<lambda>_ d. length (managed_remote_records d) < remote_count w) (\<lambda>e _. e \<noteq> Diverges) d"
    if "backups d = backups (w_db w)" for d
  proof -
    note cong = managed_remote_cong [OF that]
    have "last (managed_remote_records (w_db w)) \<in> set (managed_remote_records d)" unfolding cong by (rule last_in_set [OF ne])
    from managed_remote_delete [OF this] show ?thesis by (simp add: delete_backup_def wp_modify cong remote_count_def)
  qed
  have rows: "backups (e_interfere env n d) = backups d" for n d
    using assms(1) by (simp add: leaves_backups_def)
  show ?thesis
    unfolding remove_oldest_managed_remote_def wp_session_block Let_def wp_bnd wp_on_db wp_reads wp_if same
      after_scope_fields wp_andthen if_not_P [OF ne]
  proof (rule wp_mono [OF wp_conj [OF del keep]], goal_cases)
    case (1 x t)
    then show ?case by (simp add: wp_simps wp_record_audit_event' less rows)
  qed simp
qed

lemma configured_drive_retention_pos: "wp (configured_drive_retention z) (\<lambda>n _. 1 \<le> n) (\<lambda>e _. e \<noteq> Diverges) d"
proof -
  have "1 \<le> ms_drive_backup_retention v" if "model_validate z m = Some v" for m v
    using that by (auto simp: model_validate_def Let_def settings_ok_def
        split: if_splits option.splits list.splits prod.splits)
  then show ?thesis
    by (simp add: configured_drive_retention_def load_manager_settings_def wp_simps split: option.split)
qed

lemma wp_configured_drive_same: "wp (configured_drive_retention z) (\<lambda>_ d'. d' = d) (\<lambda>_ _. True) d"
  by (simp add: configured_drive_retention_def load_manager_settings_def wp_simps split: option.split)

text \<open>One deletion per round, so more fuel than managed records is enough for both loops.\<close>

lemma wp_trim_remote:
  assumes "leaves_backups env" and "1 \<le> retention" and "remote_count w < fuel"
  shows "wp (trim_remote env k retention fuel) (\<lambda>_ w'. remote_count w' \<le> remote_count w) (\<lambda>e _. e \<noteq> Diverges) w"
  using assms(3)
proof (induction fuel arbitrary: w)
  case (Suc fuel)
  show ?case
    unfolding trim_remote.simps wp_bnd
  proof (rule wp_mono [OF wp_remote_count [OF assms(1)]], goal_cases)
    case (1 n t)
    show ?case
    proof (cases "retention \<le> n")
      case True
      then have "0 < remote_count t" using 1 assms(2) by simp
      from wp_remove_oldest [OF assms(1) this]
      have "wp (bnd (remove_oldest_managed_remote env k) (\<lambda>_. trim_remote env k retention fuel))
          (\<lambda>_ w'. remote_count w' \<le> remote_count w) (\<lambda>e _. e \<noteq> Diverges) t"
        unfolding wp_bnd
      proof (rule wp_mono, goal_cases)
        case (1 x u)
        then have "remote_count u < fuel" "remote_count u \<le> remote_count w" using Suc.prems \<open>n = _ \<and> _\<close> by simp_all
        then show ?case by (intro wp_mono [OF Suc.IH]) simp_all
      qed
      then show ?thesis using True by simp
    qed (use 1 in \<open>simp add: wp_simps\<close>)
  qed simp
qed simp

lemma wp_quota_count:
  "wp (drive_quota_call env) (\<lambda>_ t. remote_count t = remote_count w) (\<lambda>e _. e \<noteq> Diverges) w"
  unfolding drive_quota_call_def
  by (rule tripleD [OF triple_call [where P = "\<lambda>u. remote_count u = remote_count w"]]) auto

lemma wp_free_remote:
  assumes "leaves_backups env" and "remote_count w < fuel"
  shows "wp (free_remote env k required available fuel) (\<lambda>_ _. True) (\<lambda>e _. e \<noteq> Diverges) w"
  using assms(2)
proof (induction fuel arbitrary: w available)
  case (Suc fuel)
  have cancelled: "wp (drive_cancel_requested env k) (\<lambda>_ t. remote_count t = remote_count w) (\<lambda>e _. e \<noteq> Diverges) w" for w
    unfolding drive_cancel_requested_def using assms(1)
    by (simp add: wp_simps Let_def split: option.split)
  have round: "wp (bnd (drive_cancel_requested env k) (\<lambda>cancelled.
          andthen (require (\<not> cancelled) GoogleDriveCancelled)
            (bnd (remove_oldest_managed_remote env k) (\<lambda>removed_bytes.
              bnd (drive_quota_call env) (\<lambda>quota.
                free_remote env k required (max (available + removed_bytes) (q_free quota)) fuel)))))
        (\<lambda>_ _. True) (\<lambda>e _. e \<noteq> Diverges) t"
    if t: "0 < remote_count t" "remote_count t = remote_count w" for t
    unfolding wp_bnd
  proof (rule wp_mono [OF cancelled], goal_cases)
    case (1 c u)
    have "wp (remove_oldest_managed_remote env k) (\<lambda>removed_bytes. wp (bnd (drive_quota_call env)
        (\<lambda>quota. free_remote env k required (max (available + removed_bytes) (q_free quota)) fuel))
           (\<lambda>_ _. True) (\<lambda>e _. e \<noteq> Diverges)) (\<lambda>e _. e \<noteq> Diverges) u"
    proof (rule wp_mono [OF wp_remove_oldest [OF assms(1)]], goal_cases)
      case (2 b v)
      show ?case
        unfolding wp_bnd by (rule wp_mono [OF wp_quota_count]) (use 1 2 t Suc.prems in \<open>auto intro!: Suc.IH\<close>)
    qed (use 1 t in auto)
    then show ?case by (simp add: wp_bnd wp_andthen wp_require)
  qed simp
  show ?case
    unfolding free_remote.simps
    by (auto simp: wp_ret wp_bnd [of "managed_remote_count env"] wp_if
        intro!: wp_mono [OF wp_remote_count [OF assms(1)]] round)
qed simp

text \<open>
  C0: making room on the remote storage always comes to an end. While no one else changes the backup
  records, neither \<open>while\<close> loop of \<open>_prepare_capacity\<close> runs forever, whatever quota the storage reports:
  a fuel above the number of managed remote backups is never used up.
\<close>

theorem prepare_capacity_ends:
  assumes "leaves_backups env" and "remote_count w < e_fuel env"
    and "prepare_capacity env zone_ok k required_bytes w = (res, w')"
  shows "res \<noteq> Inl Diverges"
proof -
  let ?E = "\<lambda>e _. e \<noteq> Diverges"
  have scope: "wp (session_scope env (configured_drive_retention zone_ok))
      (\<lambda>n t. 1 \<le> n \<and> remote_count t = remote_count w) ?E w"
    unfolding wp_session_scope Let_def
  proof (rule wp_mono [OF wp_conj [OF configured_drive_retention_pos wp_configured_drive_same]], goal_cases)
    case (1 n d)
    then show ?case using assms(1) by simp
  qed simp
  have "wp (prepare_capacity env zone_ok k required_bytes) (\<lambda>_ _. True) ?E w"
    unfolding prepare_capacity_def wp_bnd [of "session_scope env _"]
  proof (rule wp_mono [OF scope], goal_cases)
    case (1 retention t)
    have rest: "wp (bnd (drive_quota_call env) (\<lambda>quota.
        bnd (free_remote env k required_bytes (q_free quota) (e_fuel env)) (\<lambda>available_bytes.
          require (required_bytes \<le> available_bytes) GoogleDriveError))) (\<lambda>_ _. True) ?E u"
      if "remote_count u < e_fuel env" for u
      unfolding wp_bnd wp_require
      by (rule wp_mono [OF wp_quota_count], rule wp_mono [OF wp_free_remote [OF assms(1)]]) (use that in simp_all)
    show ?case
      unfolding wp_andthen
      by (rule wp_mono [OF wp_trim_remote [OF assms(1)]]) (use 1 assms(2) in \<open>auto intro: rest\<close>)
  qed simp
  from wp_InlD [OF this] assms(3) show ?thesis by (cases res) auto
qed

definition full_drive :: world where
  "full_drive = start_world (empty_db\<lparr>backups := [\<lparr>b_id = 1, b_job_id = None, b_filename = sample_name, b_location = DRIVE,
     b_status = ''VALID'', b_sha256 = Some ''00'', b_size_bytes = Some 5, b_storage_path = sample_name,
     b_created_at = 0\<rparr>]\<rparr>)"

theorem prepare_capacity_ends_witness: "fst (prepare_capacity calm_env (\<lambda>_. True) 1 20 full_drive) \<noteq> Inl Diverges"
proof -
  have "leaves_backups calm_env" by (simp add: leaves_backups_def calm_env_simps)
  moreover have "length (managed_remote_records (w_db full_drive)) \<le> 1"
    unfolding managed_remote_records_def valid_records_def full_drive_def start_world_def
    by (simp add: order_by_def)
  then have "remote_count full_drive < e_fuel calm_env"
    by (simp add: remote_count_def calm_env_simps)
  ultimately show ?thesis
    by (rule prepare_capacity_ends) (rule prod.collapse [symmetric])
qed

end
