(* ===== verification/SteamText.thy ===== *)
theory SteamText
  imports PyText
begin

text \<open>
  What the Update reads from Steam (\<open>app/updates/service.py\<close>): the KeyValues tokenizer and parser, the
  public build in SteamCMD's answer, the installed build in the local manifest, and the decision
  whether an update was confirmed. Decoding UTF-8 is a parameter.
\<close>

section \<open>Tokens\<close>

text \<open>The characters of a quoted string up to its closing quote, and what follows it.\<close>

fun eat_quoted :: "string \<Rightarrow> (string \<times> string) option" where
  "eat_quoted [] = None"
| "eat_quoted (c # s) =
     (if c = CHR 0x22 then Some ([], s)
      else if c = CHR 0x5C \<and> s \<noteq> [] then map_option (\<lambda>(v, r). (hd s # v, r)) (eat_quoted (tl s))
      else map_option (\<lambda>(v, r). (c # v, r)) (eat_quoted s))"

lemma eat_quoted_shorter: "eat_quoted s = Some (v, r) \<Longrightarrow> length r < length s"
  by (induction s arbitrary: v r rule: eat_quoted.induct) (fastforce split: if_splits)+

definition bare_end :: "char \<Rightarrow> bool" where
  "bare_end c \<longleftrightarrow> c \<in> {CHR 0x0A, CHR 0x0D, CHR ''{'', CHR ''}'', CHR 0x22}"

definition with_tokens :: "(string list \<Rightarrow> string list) \<Rightarrow> exn + string list \<Rightarrow> exn + string list" where
  "with_tokens f r = (case r of Inl e \<Rightarrow> Inl e | Inr ts \<Rightarrow> Inr (f ts))"

function keyvalue_tokens :: "string \<Rightarrow> exn + string list" where
  "keyvalue_tokens [] = Inr []"
| "keyvalue_tokens (c # s) =
     (if is_space c then keyvalue_tokens s
      else if c = CHR ''{'' \<or> c = CHR ''}'' then with_tokens ((#) [c]) (keyvalue_tokens s)
      else if c \<noteq> CHR 0x22 then keyvalue_tokens (dropWhile (\<lambda>x. \<not> bare_end x) s)
      else case eat_quoted s of
          None \<Rightarrow> Inl SteamCmdError
        | Some (v, r) \<Rightarrow> with_tokens ((#) v) (keyvalue_tokens r))"
  by pat_completeness auto
termination
  by (relation "measure length")
    (auto simp: le_imp_less_Suc length_dropWhile_le dest: eat_quoted_shorter)

section \<open>The parser\<close>

text \<open>A dictionary keeps the place of a key that is assigned again, as \<open>AList.update\<close> does.\<close>

datatype kv = KvStr string | KvObj "(string \<times> kv) list"

text \<open>
  \<open>_parse_keyvalue_value\<close> on the tokens from its index on: \<open>Inl ts\<close> is the call, \<open>Inr (acc, ts)\<close> the
  \<open>while\<close> loop with the dictionary read so far. Both give the value and the tokens after it; the
  callers check that there is a first token.
\<close>

function parse_keyvalue :: "string list + (string \<times> kv) list \<times> string list \<Rightarrow> exn + kv \<times> string list" where
  "parse_keyvalue (Inl []) = Inl OtherException"
| "parse_keyvalue (Inl (t # ts)) =
     (if t \<noteq> ''{'' then Inr (KvStr t, ts) else parse_keyvalue (Inr ([], ts)))"
| "parse_keyvalue (Inr (acc, [])) = Inl SteamCmdError"
| "parse_keyvalue (Inr (acc, t # ts)) =
     (if t = ''}'' then Inr (KvObj acc, ts)
      else if t = ''{'' then Inl SteamCmdError
      else if ts = [] then Inl SteamCmdError
      else case parse_keyvalue (Inl ts) of
          Inl e \<Rightarrow> Inl e
        | Inr (v, rest) \<Rightarrow> parse_keyvalue (Inr (AList.update t v acc, rest)))"
  by pat_completeness auto

definition tokens_left :: "string list + 'a \<times> string list \<Rightarrow> nat" where
  "tokens_left x = (case x of Inl ts \<Rightarrow> length ts | Inr (_, ts) \<Rightarrow> length ts)"

lemma parse_keyvalue_shorter:
  "parse_keyvalue_dom x \<Longrightarrow> parse_keyvalue x = Inr (v, rest) \<Longrightarrow> length rest < tokens_left x"
proof (induction arbitrary: v rest rule: parse_keyvalue.pinduct)
  case (2 t ts)
  then show ?case by (auto simp: parse_keyvalue.psimps tokens_left_def split: if_splits)
next
  case (4 acc t ts)
  then show ?case
    by (fastforce simp: parse_keyvalue.psimps tokens_left_def split: if_splits sum.splits prod.splits)
qed (auto simp: parse_keyvalue.psimps)

lemma parse_keyvalue_total: "parse_keyvalue_dom x"
proof -
  have "All parse_keyvalue_dom"
    by (relation "measure tokens_left") (auto simp: tokens_left_def dest!: parse_keyvalue_shorter)
  then show ?thesis ..
qed

termination parse_keyvalue
  by (rule allI) (rule parse_keyvalue_total)

text \<open>The loop of \<open>parse_keyvalues\<close>.\<close>

function parse_root :: "(string \<times> kv) list \<Rightarrow> string list \<Rightarrow> exn + (string \<times> kv) list" where
  "parse_root acc [] = Inr acc"
| "parse_root acc (t # ts) =
     (if t = ''{'' \<or> t = ''}'' \<or> ts = [] then parse_root acc ts
      else case parse_keyvalue (Inl ts) of
          Inl e \<Rightarrow> Inl e
        | Inr (v, rest) \<Rightarrow> parse_root (AList.update t v acc) rest)"
  by pat_completeness auto
termination
proof (relation "measure (\<lambda>(_, ts). length ts)", goal_cases)
  case (3 acc t ts p v rest)
  then have "parse_keyvalue (Inl ts) = Inr (v, rest)" by simp
  from parse_keyvalue_shorter [OF parse_keyvalue_total this] show ?case by (simp add: tokens_left_def)
qed auto

definition parse_keyvalues :: "string \<Rightarrow> exn + (string \<times> kv) list" where
  "parse_keyvalues content = (case keyvalue_tokens content of Inl e \<Rightarrow> Inl e | Inr ts \<Rightarrow> parse_root [] ts)"

section \<open>Builds\<close>

definition PALWORLD_APP_ID :: string where
  "PALWORLD_APP_ID = ''2394010''"

definition MAX_MANIFEST_BYTES :: nat where
  "MAX_MANIFEST_BYTES = 1024 * 1024"

definition isdecimal :: "string \<Rightarrow> bool" where
  "isdecimal s \<longleftrightarrow> s \<noteq> [] \<and> list_all is_digit s"

definition valid_build_id :: "kv option \<Rightarrow> string option" where
  "valid_build_id value = (case value of
       Some (KvStr s) \<Rightarrow> if isdecimal s \<and> 1 \<le> length s \<and> length s \<le> 20 then Some s else None
     | _ \<Rightarrow> None)"

text \<open>\<open>x.get(key) if isinstance(x, dict) else None\<close>.\<close>

definition kv_get :: "string \<Rightarrow> kv option \<Rightarrow> kv option" where
  "kv_get key x = (case x of Some (KvObj d) \<Rightarrow> map_of d key | _ \<Rightarrow> None)"

definition is_obj :: "kv option \<Rightarrow> bool" where
  "is_obj x = (case x of Some (KvObj _) \<Rightarrow> True | _ \<Rightarrow> False)"

text \<open>
  \<open>datetime.fromtimestamp\<close> in UTC reaches the end of the year 9999; the code drops what it rejects. An
  \<open>int\<close> of more than 4300 digits is rejected as well, and is beyond that year anyway.
\<close>

definition MAX_TIMESTAMP :: nat where
  "MAX_TIMESTAMP = 253402300799"

definition build_timestamp :: "kv option \<Rightarrow> nat option" where
  "build_timestamp raw = (case raw of
       Some (KvStr s) \<Rightarrow> if isdecimal s \<and> nat_of_digits s \<le> MAX_TIMESTAMP then Some (nat_of_digits s) else None
     | _ \<Rightarrow> None)"

definition parse_public_build :: "string \<Rightarrow> exn + string \<times> nat option" where
  "parse_public_build content = (case parse_keyvalues content of
       Inl e \<Rightarrow> Inl e
     | Inr parsed \<Rightarrow>
         (let application = map_of parsed PALWORLD_APP_ID;
              branches = kv_get ''branches'' (kv_get ''depots'' application);
              public = kv_get ''public'' branches
          in if \<not> is_obj application then Inl SteamCmdError
             else if \<not> is_obj public then Inl SteamCmdError
             else case valid_build_id (kv_get ''buildid'' public) of
                 None \<Rightarrow> Inl SteamCmdError
               | Some build_id \<Rightarrow> Inr (build_id, build_timestamp (kv_get ''timeupdated'' public))))"

section \<open>The gateway\<close>

text \<open>
  The result of a command: its exit code and its output, cut at the limit. \<open>decode\<close> is
  \<open>bytes.decode("utf-8")\<close>, undefined on an invalid encoding.
\<close>

record command_result =
  cr_returncode :: int
  cr_output :: string
  cr_output_truncated :: bool

definition decode_output :: "(string \<Rightarrow> string option) \<Rightarrow> string \<Rightarrow> exn + string" where
  "decode_output decode payload = (case decode payload of None \<Rightarrow> Inl SteamCmdError | Some s \<Rightarrow> Inr s)"

definition valid_command_output :: "(string \<Rightarrow> string option) \<Rightarrow> command_result \<Rightarrow> exn + string" where
  "valid_command_output decode r =
     (if cr_output_truncated r then Inl SteamCmdError
      else if cr_returncode r \<noteq> 0 then Inl SteamCmdError
      else decode_output decode (cr_output r))"

text \<open>\<open>manifest\<close> is what reading the manifest file gives, or the exception of opening it.\<close>

definition read_installed_build_id :: "(string \<Rightarrow> string option) \<Rightarrow> exn + string \<Rightarrow> exn + string" where
  "read_installed_build_id decode manifest = (case manifest of
       Inl e \<Rightarrow> Inl SteamCmdError
     | Inr payload \<Rightarrow>
         if MAX_MANIFEST_BYTES < length payload then Inl SteamCmdError
         else case decode_output decode payload of
             Inl e \<Rightarrow> Inl e
           | Inr content \<Rightarrow> (case parse_keyvalues content of
               Inl e \<Rightarrow> Inl e
             | Inr parsed \<Rightarrow>
                 (let app_state = map_of parsed ''AppState'' in
                  if \<not> is_obj app_state then Inl SteamCmdError
                  else if kv_get ''appid'' app_state \<noteq> Some (KvStr PALWORLD_APP_ID) then Inl SteamCmdError
                  else case valid_build_id (kv_get ''buildid'' app_state) of
                      None \<Rightarrow> Inl SteamCmdError
                    | Some build_id \<Rightarrow> Inr build_id)))"

record steam_build_info =
  sb_installed_build_id :: string
  sb_available_build_id :: string
  sb_available_at :: "nat option"

definition steam_check ::
  "(string \<Rightarrow> string option) \<Rightarrow> exn + string \<Rightarrow> exn + command_result \<Rightarrow> exn + steam_build_info" where
  "steam_check decode manifest run = (case read_installed_build_id decode manifest of
       Inl e \<Rightarrow> Inl e
     | Inr installed \<Rightarrow> (case run of
         Inl e \<Rightarrow> Inl e
       | Inr r \<Rightarrow> (case valid_command_output decode r of
           Inl e \<Rightarrow> Inl e
         | Inr output \<Rightarrow> (case parse_public_build output of
             Inl e \<Rightarrow> Inl e
           | Inr (available, available_at) \<Rightarrow>
               Inr \<lparr>sb_installed_build_id = installed, sb_available_build_id = available,
                    sb_available_at = available_at\<rparr>))))"

text \<open>\<open>needle in s\<close>.\<close>

fun contains :: "string \<Rightarrow> string \<Rightarrow> bool" where
  "contains [] needle = (needle = [])"
| "contains (c # s) needle = (starts_with (c # s) needle \<or> contains s needle)"

definition steam_apply_update :: "(string \<Rightarrow> string option) \<Rightarrow> exn + command_result \<Rightarrow> exn + unit" where
  "steam_apply_update decode run = (case run of
       Inl e \<Rightarrow> Inl e
     | Inr r \<Rightarrow> (case valid_command_output decode r of
         Inl e \<Rightarrow> Inl e
       | Inr output \<Rightarrow>
           if \<not> contains output (''Success! App '' @ [CHR 0x27] @ PALWORLD_APP_ID @ [CHR 0x27] @ '' fully installed.'')
           then Inl SteamCmdError else Inr ()))"

section \<open>The text of a tree parses back\<close>

definition escaped :: "string \<Rightarrow> string" where
  "escaped s = concat (map (\<lambda>c. if c = CHR 0x22 \<or> c = CHR 0x5C then [CHR 0x5C, c] else [c]) s)"

definition quoted :: "string \<Rightarrow> string" where
  "quoted s = CHR 0x22 # escaped s @ [CHR 0x22]"

fun kv_text :: "kv \<Rightarrow> string" where
  "kv_text (KvStr s) = quoted s"
| "kv_text (KvObj d) = CHR ''{'' # CHR 0x0A # concat (map (\<lambda>(k, v). quoted k @ '' '' @ kv_text v @ [CHR 0x0A]) d) @ ''}''"

definition kv_document :: "(string \<times> kv) list \<Rightarrow> string" where
  "kv_document d = concat (map (\<lambda>(k, v). quoted k @ '' '' @ kv_text v @ [CHR 0x0A]) d)"

text \<open>A word that is a brace cannot be told from the structure once it has lost its quotes.\<close>

fun kv_plain :: "kv \<Rightarrow> bool" where
  "kv_plain (KvStr s) = (s \<noteq> ''{'')"
| "kv_plain (KvObj d) = (distinct (map fst d)
     \<and> list_all (\<lambda>(k, v). k \<noteq> ''{'' \<and> k \<noteq> ''}'' \<and> kv_plain v) d)"

fun kv_words :: "kv \<Rightarrow> string list" where
  "kv_words (KvStr s) = [s]"
| "kv_words (KvObj d) = ''{'' # concat (map (\<lambda>(k, v). k # kv_words v) d) @ [''}'']"

lemma eat_quoted_escaped: "eat_quoted (escaped s @ CHR 0x22 # r) = Some (s, r)"
  by (induction s) (auto simp: escaped_def)

lemma tokens_quoted:
  "keyvalue_tokens (quoted s @ r) = with_tokens ((#) s) (keyvalue_tokens r)"
  by (simp add: quoted_def eat_quoted_escaped is_space_def code_def)

lemma tokens_blank [simp]:
  "keyvalue_tokens (CHR '' '' # r) = keyvalue_tokens r" "keyvalue_tokens (CHR 0x0A # r) = keyvalue_tokens r"
  "keyvalue_tokens (CHR ''{'' # r) = with_tokens ((#) ''{'') (keyvalue_tokens r)"
  "keyvalue_tokens (CHR ''}'' # r) = with_tokens ((#) ''}'') (keyvalue_tokens r)"
  by (simp_all add: is_space_def code_def)

declare keyvalue_tokens.simps [simp del]

lemma with_tokens_comp: "with_tokens f (with_tokens g x) = with_tokens (\<lambda>ts. f (g ts)) x"
  by (cases x) (simp_all add: with_tokens_def)

definition pair_words :: "(string \<times> kv) list \<Rightarrow> string list" where
  "pair_words d = concat (map (\<lambda>(k, v). k # kv_words v) d)"

lemma tokens_pairs:
  assumes "\<And>k v r. (k, v) \<in> set d \<Longrightarrow> keyvalue_tokens (kv_text v @ r) = with_tokens ((@) (kv_words v)) (keyvalue_tokens r)"
  shows "keyvalue_tokens (kv_document d @ r) = with_tokens ((@) (pair_words d)) (keyvalue_tokens r)"
  using assms
proof (induction d)
  case Nil
  show ?case by (cases "keyvalue_tokens r") (simp_all add: kv_document_def pair_words_def with_tokens_def)
next
  case (Cons p d)
  obtain k v where p: "p = (k, v)" by force
  have "keyvalue_tokens (kv_document (p # d) @ r)
      = with_tokens ((#) k) (with_tokens ((@) (kv_words v)) (keyvalue_tokens (kv_document d @ r)))"
    using Cons.prems [of k v] by (simp add: p kv_document_def tokens_quoted)
  moreover have "keyvalue_tokens (kv_document d @ r) = with_tokens ((@) (pair_words d)) (keyvalue_tokens r)"
    using Cons.prems by (intro Cons.IH) auto
  ultimately show ?case
    by (simp add: p pair_words_def with_tokens_comp)
qed

lemma tokens_text: "keyvalue_tokens (kv_text v @ r) = with_tokens ((@) (kv_words v)) (keyvalue_tokens r)"
proof (induction v arbitrary: r)
  case (KvStr s)
  show ?case by (simp add: tokens_quoted with_tokens_def)
next
  case (KvObj d)
  have "keyvalue_tokens (kv_document d @ CHR ''}'' # r)
      = with_tokens ((@) (pair_words d)) (with_tokens ((#) ''}'') (keyvalue_tokens r))"
    using KvObj by (subst tokens_pairs) (auto simp: snds.simps)
  then show ?case by (simp add: kv_document_def pair_words_def with_tokens_comp)
qed

lemma update_fresh: "k \<notin> set (map fst al) \<Longrightarrow> AList.update k v al = al @ [(k, v)]"
  by (induction al) auto

lemma kv_words_nonempty: "kv_words v \<noteq> []"
  by (cases v) simp_all

lemma parse_pairs:
  assumes "\<And>k v r. (k, v) \<in> set d \<Longrightarrow> parse_keyvalue (Inl (kv_words v @ r)) = Inr (v, r)"
    and "distinct (map fst (acc @ d))" and "list_all (\<lambda>(k, v). k \<noteq> ''{'' \<and> k \<noteq> ''}'') d"
  shows "parse_keyvalue (Inr (acc, pair_words d @ ''}'' # r)) = Inr (KvObj (acc @ d), r)"
  using assms
proof (induction d arbitrary: acc)
  case (Cons p d)
  obtain k v where p: "p = (k, v)" by force
  have "parse_keyvalue (Inl (kv_words v @ pair_words d @ ''}'' # r)) = Inr (v, pair_words d @ ''}'' # r)"
    using Cons.prems(1) [of k v] by (simp add: p)
  moreover have "parse_keyvalue (Inr (acc @ [(k, v)], pair_words d @ ''}'' # r)) = Inr (KvObj ((acc @ [(k, v)]) @ d), r)"
    using Cons.prems by (intro Cons.IH) (auto simp: p)
  ultimately show ?case
    using Cons.prems(2,3) by (simp add: p pair_words_def update_fresh)
qed (simp add: pair_words_def)

lemma parse_words: "kv_plain v \<Longrightarrow> parse_keyvalue (Inl (kv_words v @ r)) = Inr (v, r)"
proof (induction v arbitrary: r)
  case (KvObj d)
  have "parse_keyvalue (Inr ([], pair_words d @ ''}'' # r)) = Inr (KvObj ([] @ d), r)"
    using KvObj by (intro parse_pairs) (auto simp: snds.simps list_all_iff)
  then show ?case by (simp add: pair_words_def)
qed simp

lemma parse_root_words:
  assumes "kv_plain (KvObj (acc @ d))"
  shows "parse_root acc (pair_words d) = Inr (acc @ d)"
  using assms
proof (induction d arbitrary: acc)
  case (Cons p d)
  obtain k v where p: "p = (k, v)" by force
  have "parse_keyvalue (Inl (kv_words v @ pair_words d)) = Inr (v, pair_words d)"
    using Cons.prems by (intro parse_words) (simp add: p)
  moreover have "parse_root (acc @ [(k, v)]) (pair_words d) = Inr ((acc @ [(k, v)]) @ d)"
    using Cons.prems by (intro Cons.IH) (simp add: p)
  ultimately show ?case
    using Cons.prems by (simp add: p pair_words_def update_fresh kv_words_nonempty)
qed (simp add: pair_words_def)

lemma parse_document: "kv_plain (KvObj d) \<Longrightarrow> parse_keyvalues (kv_document d) = Inr d"
proof -
  assume "kv_plain (KvObj d)"
  have "keyvalue_tokens (kv_document d @ []) = with_tokens ((@) (pair_words d)) (keyvalue_tokens [])"
    by (rule tokens_pairs) (rule tokens_text)
  then have "keyvalue_tokens (kv_document d) = Inr (pair_words d)" by (simp add: keyvalue_tokens.simps with_tokens_def)
  then show ?thesis using parse_root_words [of "[]" d] \<open>kv_plain _\<close> by (simp add: parse_keyvalues_def)
qed

text \<open>
  C27: reading KeyValues back gives what was written. The text of any tree of dictionaries and strings,
  quotes and backslashes escaped, is tokenized and parsed to that tree, as long as no key is a brace,
  no value is an opening brace and no key is repeated within a dictionary.
\<close>

theorem keyvalues_roundtrip:
  assumes "kv_plain (KvObj d)"
  shows "parse_keyvalues (kv_document d) = Inr d"
  using assms by (rule parse_document)

definition sample_tree :: "(string \<times> kv) list" where
  "sample_tree = [(''AppState'', KvObj [(''appid'', KvStr ''2394010''), (''buildid'', KvStr ''7''), (''name'', KvStr [CHR 0x22, CHR 0x5C])])]"

theorem keyvalues_roundtrip_witness: "parse_keyvalues (kv_document sample_tree) = Inr sample_tree"
  by (rule keyvalues_roundtrip) (simp add: sample_tree_def)

text \<open>The quotes of a word are lost: a quoted brace ends the block it stands in.\<close>

lemma quoted_brace_is_structure:
  "parse_keyvalues (kv_document [(''a'', KvObj [(''}'', KvStr ''b'')])]) \<noteq> Inr [(''a'', KvObj [(''}'', KvStr ''b'')])]"
  by code_simp

text \<open>
  What the Steam gateway reports is a pair of build identifiers of 1 to 20 digits, read from the
  manifest of the right application; anything else is an error, and so is an update the command did
  not confirm.
\<close>

theorem steam_check_typed:
  assumes "steam_check decode manifest run = Inr b"
  shows "isdecimal (sb_installed_build_id b) \<and> length (sb_installed_build_id b) \<le> 20
    \<and> isdecimal (sb_available_build_id b) \<and> length (sb_available_build_id b) \<le> 20
    \<and> (\<forall>t. sb_available_at b = Some t \<longrightarrow> t \<le> MAX_TIMESTAMP)
    \<and> (\<exists>payload content parsed. manifest = Inr payload \<and> length payload \<le> MAX_MANIFEST_BYTES
        \<and> decode payload = Some content \<and> parse_keyvalues content = Inr parsed
        \<and> kv_get ''appid'' (map_of parsed ''AppState'') = Some (KvStr PALWORLD_APP_ID)
        \<and> kv_get ''buildid'' (map_of parsed ''AppState'') = Some (KvStr (sb_installed_build_id b)))"
proof -
  have vb: "valid_build_id x = Some i \<longleftrightarrow> x = Some (KvStr i) \<and> isdecimal i \<and> 1 \<le> length i \<and> length i \<le> 20" for x i
    by (auto simp: valid_build_id_def split: option.splits kv.splits if_splits)
  have ts: "build_timestamp x = Some t \<Longrightarrow> t \<le> MAX_TIMESTAMP" for x t
    by (auto simp: build_timestamp_def split: option.splits kv.splits if_splits)
  from assms obtain installed r out available t' where
    inst: "read_installed_build_id decode manifest = Inr installed"
    and pub: "parse_public_build out = Inr (available, t')"
    and b: "b = \<lparr>sb_installed_build_id = installed, sb_available_build_id = available, sb_available_at = t'\<rparr>"
    by (auto simp: steam_check_def split: sum.splits prod.splits)
  from pub have "isdecimal available \<and> length available \<le> 20 \<and> (\<forall>t. t' = Some t \<longrightarrow> t \<le> MAX_TIMESTAMP)"
    by (auto simp: parse_public_build_def Let_def vb split: sum.splits if_splits option.splits dest: ts)
  moreover from inst have "isdecimal installed \<and> length installed \<le> 20
      \<and> (\<exists>payload content parsed. manifest = Inr payload \<and> length payload \<le> MAX_MANIFEST_BYTES
        \<and> decode payload = Some content \<and> parse_keyvalues content = Inr parsed
        \<and> kv_get ''appid'' (map_of parsed ''AppState'') = Some (KvStr PALWORLD_APP_ID)
        \<and> kv_get ''buildid'' (map_of parsed ''AppState'') = Some (KvStr installed))"
    by (auto simp: read_installed_build_id_def decode_output_def Let_def vb split: sum.splits if_splits option.splits)
  ultimately show ?thesis by (simp add: b)
qed

definition sample_manifest :: "(string \<times> kv) list" where
  "sample_manifest = [(''AppState'', KvObj [(''appid'', KvStr PALWORLD_APP_ID), (''buildid'', KvStr ''10'')])]"

definition sample_answer :: "(string \<times> kv) list" where
  "sample_answer = [(PALWORLD_APP_ID, KvObj [(''depots'', KvObj [(''branches'', KvObj [(''public'',
     KvObj [(''buildid'', KvStr ''11''), (''timeupdated'', KvStr ''99'')])])])])]"

definition sample_build :: steam_build_info where
  "sample_build = \<lparr>sb_installed_build_id = ''10'', sb_available_build_id = ''11'', sb_available_at = Some 99\<rparr>"

lemma sample_check: "steam_check Some (Inr (kv_document sample_manifest))
    (Inr \<lparr>cr_returncode = 0, cr_output = kv_document sample_answer, cr_output_truncated = False\<rparr>) = Inr sample_build"
proof -
  have "kv_plain (KvObj sample_manifest)" "kv_plain (KvObj sample_answer)"
    by (simp_all add: sample_manifest_def sample_answer_def PALWORLD_APP_ID_def)
  note parsed = this [THEN parse_document]
  have "length (kv_document sample_manifest) \<le> MAX_MANIFEST_BYTES"
    by (simp add: sample_manifest_def kv_document_def quoted_def escaped_def PALWORLD_APP_ID_def MAX_MANIFEST_BYTES_def)
  moreover have "map_of sample_manifest ''AppState'' = Some (KvObj [(''appid'', KvStr PALWORLD_APP_ID), (''buildid'', KvStr ''10'')])"
    by (simp add: sample_manifest_def)
  ultimately have installed: "read_installed_build_id Some (Inr (kv_document sample_manifest)) = Inr ''10''"
    by (simp add: read_installed_build_id_def decode_output_def parsed Let_def is_obj_def kv_get_def
        valid_build_id_def isdecimal_def is_digit_def code_def)
  have "kv_get ''public'' (kv_get ''branches'' (kv_get ''depots'' (map_of sample_answer PALWORLD_APP_ID)))
      = Some (KvObj [(''buildid'', KvStr ''11''), (''timeupdated'', KvStr ''99'')])"
    "is_obj (map_of sample_answer PALWORLD_APP_ID)"
    by (simp_all add: sample_answer_def kv_get_def is_obj_def)
  then have "parse_public_build (kv_document sample_answer) = Inr (''11'', Some 99)"
    by (simp add: parse_public_build_def parsed Let_def is_obj_def)
      (simp add: kv_get_def valid_build_id_def isdecimal_def is_digit_def code_def build_timestamp_def
        nat_of_digits_def MAX_TIMESTAMP_def)
  with installed show ?thesis
    by (simp add: steam_check_def valid_command_output_def decode_output_def sample_build_def)
qed

theorem steam_check_typed_witness:
  "isdecimal (sb_installed_build_id sample_build) \<and> sb_installed_build_id sample_build = ''10''
    \<and> sb_available_build_id sample_build = ''11''"
  using steam_check_typed [OF sample_check] by (simp add: sample_build_def)

end
