(* ===== verification/UpdateQueue.thy ===== *)
theory UpdateQueue
  imports Shutdown ManagerSettings BackupQueue SteamText
begin

text \<open>
  The queue of the Palworld updates (\<open>app/updates/jobs.py\<close>): asking for a check of the versions, asking
  for an update, which needs a successful check, and cancelling it.
\<close>

section \<open>Data of a job\<close>

definition UPDATE_CHECK_JOB_KIND :: string where "UPDATE_CHECK_JOB_KIND = ''PALWORLD_UPDATE_CHECK''"
definition UPDATE_JOB_KIND :: string where "UPDATE_JOB_KIND = ''PALWORLD_UPDATE''"
definition UPDATE_CHECK_COORDINATION_KEY :: string where "UPDATE_CHECK_COORDINATION_KEY = ''PALWORLD_UPDATE_CHECK''"

definition UPDATE_JOB_KINDS :: "string list" where
  "UPDATE_JOB_KINDS = [UPDATE_CHECK_JOB_KIND, UPDATE_JOB_KIND]"

definition required_build_id :: "dict \<Rightarrow> string \<Rightarrow> ('s, string) prog" where
  "required_build_id data key = (case json_str (dict_get data key) of
       Some s \<Rightarrow> if isdecimal s \<and> 1 \<le> length s \<and> length s \<le> 20 then ret s else raise ValueError
     | None \<Rightarrow> raise ValueError)"

definition build_result :: "steam_build \<Rightarrow> dict" where
  "build_result b =
     [(''installed_build_id'', JStr (installed_build_id b)), (''available_build_id'', JStr (available_build_id b)),
      (''available_at'', jopt_str (available_at b)),
      (''update_available'', JBool (installed_build_id b \<noteq> available_build_id b))]"

definition disk_critical_gb :: "(string \<Rightarrow> bool) \<Rightarrow> (db, int) prog" where
  "disk_critical_gb zone_ok = bnd (load_manager_settings zone_ok) (\<lambda>v. ret (ms_disk_critical_gb v))"

definition latest_update_check :: "db \<Rightarrow> job option" where
  "latest_update_check d = limit1 (order_by (\<lambda>j. - j_id j) (filter (\<lambda>j. j_kind j = UPDATE_CHECK_JOB_KIND) (jobs d)))"

definition latest_update_job :: "db \<Rightarrow> job option" where
  "latest_update_job d = limit1 (order_by (\<lambda>j. - j_id j) (filter (\<lambda>j. j_kind j = UPDATE_JOB_KIND) (jobs d)))"

section \<open>Queueing\<close>

definition ensure_no_active_job :: "string \<Rightarrow> (db, unit) prog" where
  "ensure_no_active_job key = bnd (reads (active_with_key key)) (\<lambda>active.
     require (\<not> active) UpdateJobConflictError)"

definition enqueue_update_check :: "int \<Rightarrow> int \<Rightarrow> (db, job) prog" where
  "enqueue_update_check user_id now =
     andthen (ensure_no_active_job UPDATE_CHECK_COORDINATION_KEY)
       (andthen (ensure_no_active_job LIFECYCLE_COORDINATION_KEY)
         (bnd (add_job UpdateJobConflictError
                (new_job UPDATE_CHECK_JOB_KIND False False UPDATE_CHECK_COORDINATION_KEY None [] now)) (\<lambda>job.
           andthen (record_audit_event now
               (admin_event ''PALWORLD_UPDATE_CHECK_REQUESTED'' AUDIT_RESULT_SUCCESS (Some user_id)
                  (Some (j_id job)) (Some ''Palworld'') None))
             (ret job))))"

text \<open>The data of an update job.\<close>

definition update_request :: "int \<Rightarrow> string \<Rightarrow> string \<Rightarrow> int \<Rightarrow> int \<Rightarrow> int \<Rightarrow> int \<Rightarrow> dict" where
  "update_request checked installed available minutes stop start critical =
     [(''checked_job_id'', JInt checked), (''requested_installed_build_id'', JStr installed),
      (''requested_available_build_id'', JStr available), (''countdown_minutes'', JInt minutes),
      (''stop_timeout_seconds'', JInt stop), (''start_timeout_seconds'', JInt start),
      (''disk_critical_gb'', JInt critical)]"

definition enqueue_update :: "(string \<Rightarrow> bool) \<Rightarrow> string \<Rightarrow> int \<Rightarrow> int \<Rightarrow> (db, job) prog" where
  "enqueue_update zone_ok confirmation user_id now =
     andthen (require (confirmation = ''ATUALIZAR'') UpdateRequestError)
       (andthen (ensure_no_active_job UPDATE_CHECK_COORDINATION_KEY)
       (andthen (ensure_no_active_job LIFECYCLE_COORDINATION_KEY)
       (bnd (reads latest_update_check) (\<lambda>found. case found of
          None \<Rightarrow> raise UpdateRequestError
        | Some checked \<Rightarrow>
            (let check_result = dict_of (j_result checked) in
             andthen (require (j_status checked = JOB_STATUS_SUCCEEDED) UpdateRequestError)
             (andthen (require (dict_get check_result ''update_available'' = Some (JBool True)) UpdateRequestError)
             (andthen (require (dict_get check_result ''disk_critical'' \<noteq> Some (JBool True)) UpdateRequestError)
             (bnd (required_build_id check_result ''installed_build_id'') (\<lambda>installed.
              bnd (required_build_id check_result ''available_build_id'') (\<lambda>available.
              bnd assisted_shutdown_default (\<lambda>minutes.
              bnd (lifecycle_timeout STOP) (\<lambda>stop.
              bnd (lifecycle_timeout START) (\<lambda>start.
              bnd (disk_critical_gb zone_ok) (\<lambda>critical.
              bnd (add_job UpdateJobConflictError
                     (new_job UPDATE_JOB_KIND True True LIFECYCLE_COORDINATION_KEY None
                        (update_request (j_id checked) installed available minutes stop start critical) now)) (\<lambda>job.
                andthen (record_audit_event now
                    (admin_event ''PALWORLD_UPDATE_REQUESTED'' AUDIT_RESULT_SUCCESS (Some user_id)
                       (Some (j_id job)) (Some ''Palworld'')
                       (Some [(''installed_build_id'', JStr installed), (''available_build_id'', JStr available)])))
                  (ret job))))))))))))))))"

definition mark_update_cancelled :: "job \<Rightarrow> dict \<Rightarrow> int \<Rightarrow> (db, unit) prog" where
  "mark_update_cancelled j result occurred_at =
     andthen (put_job (finished JOB_STATUS_CANCELLED ''CANCELLED'' occurred_at result j))
       (record_audit_event occurred_at (system_event ''PALWORLD_UPDATE'' AUDIT_RESULT_CANCELLED (j_id j)
          (Some ''Palworld'')
          (Some [(''preventive_backup_record_id'',
                  case dict_get result ''preventive_backup_record_id'' of None \<Rightarrow> JNull | Some v \<Rightarrow> v),
                 (''requires_manual_review'', JBool False)])))"

definition request_update_cancel :: "int \<Rightarrow> int \<Rightarrow> int \<Rightarrow> (db, bool) prog" where
  "request_update_cancel k user_id now =
     bnd (reads (find_job k)) (\<lambda>found. case found of
         None \<Rightarrow> ret False
       | Some j0 \<Rightarrow>
           if \<not> cancellable_job [UPDATE_JOB_KIND] j0 then ret False
           else (let j = j0\<lparr>j_cancel_requested := True\<rparr> in
             andthen (put_job j)
             (andthen (record_audit_event now
                 (admin_event ''PALWORLD_UPDATE_CANCEL_REQUESTED'' AUDIT_RESULT_SUCCESS (Some user_id)
                    (Some k) (Some ''Palworld'') None))
             (andthen (if j_status j0 = JOB_STATUS_PENDING
                       then mark_update_cancelled j (dict_of (j_result j)) now else ret ())
               (ret True)))))"

section \<open>What the queue accepts\<close>

lemma valid_UPDATE [simp]: "valid_audit_action ''PALWORLD_UPDATE_CHECK_REQUESTED''"
  "valid_audit_action ''PALWORLD_UPDATE_REQUESTED''" "valid_audit_action ''PALWORLD_UPDATE_CANCEL_REQUESTED''"
  "valid_audit_action ''PALWORLD_UPDATE''" "valid_audit_action ''PALWORLD_UPDATE_CHECK''"
  by code_simp+

lemma wp_ensure_no_active_job [wp_simps]:
  "wp (ensure_no_active_job key) Q E d = (if active_with_key key d then E UpdateJobConflictError d else Q () d)"
  by (simp add: ensure_no_active_job_def wp_simps)

lemma wp_enqueue_update_check:
  "wp (enqueue_update_check u now)
     (\<lambda>j d'. appended UPDATE_CHECK_COORDINATION_KEY j d d' \<and> j_kind j = UPDATE_CHECK_JOB_KIND
        \<and> \<not> active_with_key LIFECYCLE_COORDINATION_KEY d) (\<lambda>_ d'. d' = d) d"
  by (simp add: enqueue_update_check_def wp_simps Let_def)

interpretation update_check_producer: job_producer "\<lambda>(u, now). enqueue_update_check u now" UPDATE_CHECK_COORDINATION_KEY
  by unfold_locales (auto split: prod.split intro!: wp_mono [OF wp_enqueue_update_check])

text \<open>What the executor demands of the parameters.\<close>

definition valid_update_request :: "dict \<Rightarrow> bool" where
  "valid_update_request data \<longleftrightarrow> (\<forall>key \<in> {''requested_installed_build_id'', ''requested_available_build_id''}.
       case json_str (dict_get data key) of None \<Rightarrow> False | Some s \<Rightarrow> isdecimal s \<and> 1 \<le> length s \<and> length s \<le> 20)
     \<and> int_within (dict_get data ''countdown_minutes'') 0 10 \<noteq> None
     \<and> int_within (dict_get data ''stop_timeout_seconds'') 1 300 \<noteq> None
     \<and> int_within (dict_get data ''start_timeout_seconds'') 1 600 \<noteq> None
     \<and> int_within (dict_get data ''disk_critical_gb'') 1 1024 \<noteq> None"

definition update_accepted :: "string \<Rightarrow> job \<Rightarrow> db \<Rightarrow> db \<Rightarrow> bool" where
  "update_accepted confirmation j d d' \<longleftrightarrow> confirmation = ''ATUALIZAR''
     \<and> appended LIFECYCLE_COORDINATION_KEY j d d' \<and> j_kind j = UPDATE_JOB_KIND
     \<and> j_requires_maintenance_lock j \<and> \<not> active_with_key UPDATE_CHECK_COORDINATION_KEY d
     \<and> (\<exists>checked. latest_update_check d = Some checked \<and> j_status checked = JOB_STATUS_SUCCEEDED
          \<and> dict_get (dict_of (j_result checked)) ''update_available'' = Some (JBool True)
          \<and> dict_get (dict_of (j_result checked)) ''disk_critical'' \<noteq> Some (JBool True)
          \<and> dict_get (dict_of (j_result j)) ''checked_job_id'' = Some (JInt (j_id checked)))
     \<and> valid_update_request (dict_of (j_result j))"

lemma update_request_valid:
  assumes "isdecimal i" "length i \<le> 20" "isdecimal a" "length a \<le> 20" "minutes \<in> {0, 1, 5, 10}"
    "1 \<le> stop" "stop \<le> 300" "1 \<le> start" "start \<le> 600" "1 \<le> critical" "critical \<le> 1024"
  shows "valid_update_request (update_request c i a minutes stop start critical)"
  using assms by (cases i; cases a)
    (auto simp: valid_update_request_def update_request_def dict_get_def int_within_def isdecimal_def)

lemma disk_critical_bounds: "wp (disk_critical_gb z) (\<lambda>n d'. d' = d \<and> 1 \<le> n \<and> n \<le> 1024) (\<lambda>_ d'. d' = d) d"
proof -
  have "1 \<le> ms_disk_critical_gb v \<and> ms_disk_critical_gb v \<le> 1024" if "model_validate z m = Some v" for m v
    using that by (auto simp: model_validate_def Let_def settings_ok_def
        split: if_splits option.splits list.splits prod.splits)
  then show ?thesis
    by (simp add: disk_critical_gb_def load_manager_settings_def wp_simps split: option.split)
qed

lemma assisted_default_bounds: "wp assisted_shutdown_default (\<lambda>n d'. d' = d \<and> n \<in> {0, 1, 5, 10}) (\<lambda>_ d'. d' = d) d"
  by (auto simp: assisted_shutdown_default_def ALLOWED_COUNTDOWN_MINUTES_def wp_simps split: option.split)

lemma wp_required_build_id:
  "wp (required_build_id data key) (\<lambda>s d'. d' = d \<and> isdecimal s \<and> length s \<le> 20) (\<lambda>e d'. d' = d \<and> e = ValueError) d"
  by (auto simp: required_build_id_def wp_simps split: option.split)

lemma update_request_checked [simp]:
  "dict_get (update_request c i a minutes stop start critical) ''checked_job_id'' = Some (JInt c)"
  by (simp add: update_request_def dict_get_def)

text \<open>A first step that only reads: what it finds, and the state as it was.\<close>

lemma wp_reader:
  assumes "wp m (\<lambda>x t. t = s \<and> P x) (\<lambda>_ t. t = s) s" and "\<And>x. P x \<Longrightarrow> wp (f x) Q E s" and "\<And>e. E e s"
  shows "wp (bnd m f) Q E s"
  unfolding wp_bnd by (rule wp_mono [OF assms(1)]) (use assms(2,3) in auto)

lemma wp_enqueue_update: "wp (enqueue_update z confirmation u now) (\<lambda>j d'. update_accepted confirmation j d d') (\<lambda>_ d'. d' = d) d"
proof -
  have last: "wp (bnd (add_job UpdateJobConflictError
            (new_job UPDATE_JOB_KIND True True LIFECYCLE_COORDINATION_KEY None data now)) (\<lambda>job.
          andthen (record_audit_event now
              (admin_event ''PALWORLD_UPDATE_REQUESTED'' AUDIT_RESULT_SUCCESS (Some u)
                 (Some (j_id job)) (Some ''Palworld'') details)) (ret job)))
        (\<lambda>j d'. appended LIFECYCLE_COORDINATION_KEY j d d' \<and> j_kind j = UPDATE_JOB_KIND
           \<and> j_requires_maintenance_lock j \<and> j_result j = Some data) (\<lambda>_ d'. d' = d) d" for data details
    by (simp add: wp_simps Let_def)
  show ?thesis
  proof (cases "latest_update_check d")
    case (Some checked)
    have body: "wp (bnd (required_build_id r ''installed_build_id'') (\<lambda>installed.
        bnd (required_build_id r ''available_build_id'') (\<lambda>available.
        bnd assisted_shutdown_default (\<lambda>minutes.
        bnd (lifecycle_timeout STOP) (\<lambda>stop.
        bnd (lifecycle_timeout START) (\<lambda>start.
        bnd (disk_critical_gb z) (\<lambda>critical.
        bnd (add_job UpdateJobConflictError (new_job UPDATE_JOB_KIND True True LIFECYCLE_COORDINATION_KEY None
             (update_request (j_id checked) installed available minutes stop start critical) now)) (\<lambda>job.
          andthen (record_audit_event now
              (admin_event ''PALWORLD_UPDATE_REQUESTED'' AUDIT_RESULT_SUCCESS (Some u)
                 (Some (j_id job)) (Some ''Palworld'')
                 (Some [(''installed_build_id'', JStr installed), (''available_build_id'', JStr available)])))
            (ret job)))))))))
      (\<lambda>j d'. update_accepted confirmation j d d') (\<lambda>_ d'. d' = d) d"
      if "confirmation = ''ATUALIZAR''" "\<not> active_with_key UPDATE_CHECK_COORDINATION_KEY d"
        "r = dict_of (j_result checked)" "j_status checked = JOB_STATUS_SUCCEEDED"
        "dict_get r ''update_available'' = Some (JBool True)" "dict_get r ''disk_critical'' \<noteq> Some (JBool True)" for r
      apply (rule wp_reader [OF wp_mono [OF wp_required_build_id]], assumption, simp)
       apply (rule wp_reader [OF wp_mono [OF wp_required_build_id]], assumption, simp)
        apply (rule wp_reader [OF assisted_default_bounds])
         apply (rule wp_reader [OF wp_mono [OF lifecycle_timeout_bounds]], assumption, simp)
          apply (rule wp_reader [OF wp_mono [OF lifecycle_timeout_bounds]], assumption, simp)
           apply (rule wp_reader [OF disk_critical_bounds])
            apply (rule wp_mono [OF last])
             apply (use that Some in \<open>simp_all add: update_accepted_def maximum_timeout_def dict_of_def update_request_valid\<close>)
      done
    then show ?thesis
      by (simp add: enqueue_update_def wp_andthen wp_require wp_ensure_no_active_job wp_bnd [of "reads _"] wp_reads
          Some Let_def)
  qed (simp add: enqueue_update_def wp_andthen wp_require wp_ensure_no_active_job wp_bnd [of "reads _"] wp_reads wp_raise)
qed

interpretation update_producer: job_producer
  "\<lambda>(confirmation, u, now). enqueue_update z confirmation u now" LIFECYCLE_COORDINATION_KEY for z
  by unfold_locales
    (auto simp: update_accepted_def split: prod.split intro!: wp_mono [OF wp_enqueue_update])

text \<open>
  An update is queued only with the typed confirmation, after a check that succeeded, found a newer
  version and did not find the disk critical, while no check and no job of the server's lifecycle is
  active. Its stored parameters are within the ranges its executor demands.
\<close>

theorem update_needs_check:
  assumes "enqueue_update zone_ok confirmation user_id now d = (Inr j, d')"
  shows "update_accepted confirmation j d d'"
  using wp_InrD [OF wp_enqueue_update assms] .

definition checked_db :: db where
  "checked_db = empty_db\<lparr>jobs := [(new_job UPDATE_CHECK_JOB_KIND False False UPDATE_CHECK_COORDINATION_KEY None
     (build_result \<lparr>installed_build_id = ''10'', available_build_id = ''11'', available_at = None\<rparr>
       @ [(''disk_critical'', JBool False)]) 0 1)\<lparr>j_status := JOB_STATUS_SUCCEEDED\<rparr>]\<rparr>"

lemma default_settings_load: "wp (load_manager_settings (\<lambda>_. True)) (\<lambda>_ d. d = e) (\<lambda>_ _. False) e" if "settings e = []" for e
proof -
  have "setting_overrides e = []"
    using that by (simp add: setting_overrides_def find_setting_def List.map_filter_def)
  moreover have "\<not> Option.is_none (model_validate (\<lambda>_. True) (dict_merge DEFAULT_MANAGER_SETTINGS []))" by code_simp
  ultimately show ?thesis
    by (auto simp: load_manager_settings_def wp_simps Option.is_none_def split: option.split)
qed

lemma update_accepts_checked: "wp (enqueue_update (\<lambda>_. True) ''ATUALIZAR'' 7 0) (\<lambda>_ _. True) (\<lambda>_ _. False) checked_db"
proof -
  have empty: "settings checked_db = []" "find_setting key checked_db = None" for key
    by (simp_all add: checked_db_def empty_db_def find_setting_def)
  have "wp (disk_critical_gb (\<lambda>_. True)) (\<lambda>_ d. d = checked_db) (\<lambda>_ _. False) checked_db"
    unfolding disk_critical_gb_def wp_bnd wp_ret by (rule default_settings_load) (rule empty)
  note critical = this
  let ?j = "(new_job UPDATE_CHECK_JOB_KIND False False UPDATE_CHECK_COORDINATION_KEY None
     (build_result \<lparr>installed_build_id = ''10'', available_build_id = ''11'', available_at = None\<rparr>
       @ [(''disk_critical'', JBool False)]) 0 1)\<lparr>j_status := JOB_STATUS_SUCCEEDED\<rparr>"
  have check: "latest_update_check checked_db = Some ?j"
    by (simp add: latest_update_check_def checked_db_def order_by_def limit1_def new_job_def)
  have free: "\<not> active_with_key key checked_db" for key
    by (simp add: active_with_key_def checked_db_def new_job_def active_status_def)
  show ?thesis
    unfolding enqueue_update_def
    apply (simp add: wp_andthen wp_require wp_ensure_no_active_job wp_bnd [of "reads _"] wp_reads check free Let_def)
    apply (simp add: new_job_def dict_of_def build_result_def dict_get_def required_build_id_def isdecimal_def is_digit_def
        code_def assisted_shutdown_default_def lifecycle_timeout_def empty wp_simps)
    apply (rule wp_mono [OF critical])
     apply (simp_all add: wp_simps Let_def free)
    done
qed

theorem update_needs_check_witness:
  "\<exists>j d'. enqueue_update (\<lambda>_. True) ''ATUALIZAR'' 7 0 checked_db = (Inr j, d')
    \<and> update_accepted ''ATUALIZAR'' j checked_db d'"
proof -
  obtain j d' where run: "enqueue_update (\<lambda>_. True) ''ATUALIZAR'' 7 0 checked_db = (Inr j, d')"
    using update_accepts_checked by (auto simp: wp_def split: prod.splits sum.splits)
  then show ?thesis using update_needs_check [OF run] by blast
qed

end
