(* ===== verification/FileFrame.thy ===== *)
theory FileFrame
  imports JobRun BackupQueue
begin

text \<open>
  What making a backup and applying the retention leave alone. Both only touch files, the rows of the
  backups and whatever the progress callback does, so a predicate that none of these breaks is kept.
\<close>

definition file_event :: "event \<Rightarrow> bool" where
  "file_event ev = (case ev of EvFileStep _ _ \<Rightarrow> True | EvDirectory _ \<Rightarrow> True | EvArchive _ \<Rightarrow> True
     | EvPublished _ \<Rightarrow> True | EvArtifactRemoved _ \<Rightarrow> True | EvHealth _ \<Rightarrow> True | EvLog _ _ \<Rightarrow> True | _ \<Rightarrow> False)"

locale file_frame =
  fixes P :: "world \<Rightarrow> bool" and env :: env
  assumes call_kept: "file_event ev \<Longrightarrow> P w \<Longrightarrow> P (after_call env ev w)"
    and files_kept: "file_event ev \<Longrightarrow> P w \<Longrightarrow> P (w\<lparr>w_artifacts := a, w_trace := ev # w_trace w\<rparr>)"
begin

lemma call: "(\<And>r. file_event (ev r)) \<Longrightarrow> keeps P (call env f ev)"
  by (rule keeps_call) (rule call_kept)

lemma step: "keeps P (file_step env s)"
  unfolding file_step_def by (rule call) (simp add: file_event_def)

lemma inspect: "keeps P (inspect_archive env)"
  unfolding inspect_archive_def by (rule call) (simp add: file_event_def)

lemma health: "keeps P (health_check env)"
  unfolding health_check_def by (rule call) (simp add: file_event_def)

lemma directory: "keeps P (validate_controlled_directory env)"
  unfolding validate_controlled_directory_def
  by (intro keeps_rules keeps_case_prod call) (simp add: file_event_def)

lemma resolve: "keeps P (resolve_managed_artifact env p)"
  unfolding resolve_managed_artifact_def by (intro keeps_rules directory)

lemma artifacts: "file_event ev \<Longrightarrow> keeps P (modify (\<lambda>w. w\<lparr>w_artifacts := f w, w_trace := ev # w_trace w\<rparr>))"
  by (rule keeps_modify) (rule files_kept)

lemma remove: "keeps P (remove_managed_artifact env p)"
  unfolding remove_managed_artifact_def drop_artifact_def
  by (intro keeps_rules resolve step artifacts) (simp add: file_event_def)

lemma publish: "keeps P (publish_artifact env p)"
  unfolding publish_artifact_def add_artifact_def
  by (intro keeps_rules step artifacts) (simp add: file_event_def)

lemma tree: "keeps P remove_tree"
proof -
  have "keeps P (modify (\<lambda>w. w\<lparr>w_artifacts := w_artifacts w, w_trace := EvLog ''rmtree'' [] # w_trace w\<rparr>))"
    by (rule artifacts) (simp add: file_event_def)
  then show ?thesis by (simp add: remove_tree_def)
qed

lemma publish_and_verify: "keeps P (publish_and_verify env p digest e a)"
  unfolding publish_and_verify_def by (intro keeps_rules keeps_case_prod publish step inspect remove)

lemma create:
  assumes "\<And>s p c. keeps P (progress s p c)"
  shows "keeps P (create_backup env k progress)"
  unfolding create_backup_def run_backup_def build_archive_def snapshot_server_def publish_archive_def Let_def
  by (intro keeps_rules keeps_case_prod assms health step inspect directory publish_and_verify tree)

end

text \<open>The retention also deletes rows of the backups.\<close>

locale retention_frame = file_frame +
  assumes rows_kept: "P w \<Longrightarrow> jobs d = jobs (w_db w) \<Longrightarrow> locks d = locks (w_db w) \<Longrightarrow> P (w\<lparr>w_db := d\<rparr>)"
begin

lemma managed: "keeps P (managed_records env rs)"
  by (induction rs) (auto intro!: keeps_rules resolve)

lemma rows:
  assumes "\<And>d. wp tx (\<lambda>_ d'. jobs d' = jobs d \<and> locks d' = locks d) (\<lambda>_ d'. jobs d' = jobs d \<and> locks d' = locks d) d"
  shows "keeps P (on_db tx)"
  unfolding keeps_def
  by (rule tripleI, unfold wp_on_db, rule wp_mono [OF assms]) (auto intro: rows_kept)

lemma retention: "keeps P (apply_local_retention env n pres)"
  unfolding apply_local_retention_def delete_backup_def
  by (intro keeps_rules managed remove rows) (simp_all add: wp_simps)

lemma register: "keeps P (on_db (register_backup_artifact a k))"
  by (rule rows) (simp add: register_backup_artifact_def insert_backup_def wp_def Let_def)

lemma settings: "keeps P (on_db (configured_local_retention z))"
  by (rule rows) (simp add: configured_local_retention_def load_manager_settings_def wp_simps split: option.split)

lemma audit: "keeps P (on_db (record_audit_event now f))"
  by (rule rows) (simp add: wp_record_audit_event')

end

text \<open>A phase of the trace that file events do not leave.\<close>

lemma phase_frame:
  assumes "\<And>ev es. file_event ev \<Longrightarrow> P es \<Longrightarrow> P (ev # es)"
  shows "retention_frame (at_phase tr P) env"
proof unfold_locales
  fix ev :: event and w :: world and a
  assume ev: "file_event ev"
  show "at_phase tr P w \<Longrightarrow> at_phase tr P (after_call env ev w)" by (erule at_phase_call) (rule assms [OF ev])
  assume "at_phase tr P w"
  then obtain es where "w_trace w = es @ tr" "P es" by (auto simp: at_phase_def)
  then show "at_phase tr P (w\<lparr>w_artifacts := a, w_trace := ev # w_trace w\<rparr>)"
    unfolding at_phase_def using assms [OF ev] by (intro exI [of _ "ev # es"]) simp
qed (simp add: at_phase_def)

text \<open>A backup that was made was published.\<close>

lemma create_published:
  assumes P: "file_frame P env" and R: "\<And>p. file_frame (R p) env" and progress: "\<And>s n c. keeps P (progress s n c)"
    and enter: "\<And>p w a. P w \<Longrightarrow> R p (w\<lparr>w_artifacts := a, w_trace := EvPublished p # w_trace w\<rparr>)"
    and leave: "\<And>p w. R p w \<Longrightarrow> P w"
  shows "triple P (create_backup env k progress) (\<lambda>a. R (ba_storage_path a)) (\<lambda>_. P)"
proof -
  note in_R = keeps_weaken [OF _ leave]
  have pub: "triple P (publish_artifact env p) (\<lambda>_. R p) (\<lambda>_. P)" for p
    unfolding publish_artifact_def
    by (rule triple_andthen [OF keepsD [OF file_frame.step [OF P]]])
      (auto simp: triple_def wp_modify add_artifact_def intro: enter)
  have verify: "triple P (publish_and_verify env p d e (a :: backup_artifact)) (\<lambda>x w. x = a \<and> R p w) (\<lambda>_. P)" for p d e a
    unfolding publish_and_verify_def
  proof (rule triple_andthen [OF pub triple_andthen [OF in_R [OF file_frame.step [OF R]]]])
    show "triple (R p) (handle (bnd (inspect_archive env) (\<lambda>(_, final_digest, _). andthen (require (final_digest = d) e) (ret a)))
        (\<lambda>e. andthen (remove_managed_artifact env p) (raise e))) (\<lambda>x w. x = a \<and> R p w) (\<lambda>_. P)"
    proof (rule triple_handle [where R = "\<lambda>_. P"])
      show "triple (R p) (bnd (inspect_archive env) (\<lambda>(_, final_digest, _). andthen (require (final_digest = d) e) (ret a)))
          (\<lambda>x w. x = a \<and> R p w) (\<lambda>_. P)"
        by (rule triple_bnd [OF in_R [OF file_frame.inspect [OF R]]])
          (auto simp: triple_def wp_simps leave split: prod.split)
      show "triple P (andthen (remove_managed_artifact env p) (raise ea)) (\<lambda>x w. x = a \<and> R p w) (\<lambda>_. P)" for ea
        by (rule triple_andthen [OF keepsD [OF file_frame.remove [OF P]] triple_raise])
    qed
  qed
  have archive: "triple P (publish_archive env i f c x progress) (\<lambda>a. R (ba_storage_path a)) (\<lambda>_. P)" for i f c x
    unfolding publish_archive_def Let_def
    by (cases x) (auto intro!: triple_andthen [OF keepsD [OF progress]] triple_bnd [OF keepsD [OF keeps_reads]]
        triple_andthen [OF keepsD [OF keeps_require]] triple_conseq [OF verify])
  have build: "keeps P (build_archive env i progress)" for i
    unfolding build_archive_def snapshot_server_def
    by (intro keeps_rules progress file_frame.step [OF P] file_frame.health [OF P] file_frame.inspect [OF P])
  have body: "triple P (always (bnd (build_archive env i progress) (\<lambda>x. publish_archive env i f c x progress)) remove_tree)
      (\<lambda>a. R (ba_storage_path a)) (\<lambda>_. P)" for i f c
    by (rule triple_always [OF triple_bnd [OF keepsD [OF build] archive]])
      (simp_all add: keepsD file_frame.tree [OF P] keeps_weaken [OF file_frame.tree [OF R] leave])
  note go = triple_andthen [OF keepsD]
  show ?thesis
    unfolding create_backup_def run_backup_def
    by (intro go [OF keeps_require] triple_bnd [OF keepsD [OF keeps_wall_now]] triple_bnd [OF keepsD [OF keeps_reads]]
        go [OF file_frame.step [OF P]] go [OF file_frame.directory [OF P]] body)
qed

end
