(* ===== verification/UpdateRun.thy ===== *)
theory UpdateRun
  imports UpdateQueue FileFrame BackupRun
begin

text \<open>
  Executing the update jobs (\<open>UpdateJobExecutor\<close> and \<open>DatabaseUpdateCountdownControl\<close> in
  \<open>app/updates/jobs.py\<close>): check the versions, make a preventive backup, shut the server down with a
  countdown, let SteamCMD update it, start it again and verify the result. SteamCMD, the disk and the
  server's log are services of the environment; the log of a job is written to the trace.
\<close>

section \<open>The countdown control\<close>

text \<open>The progress is a quotient of small integers, where truncating the double and dividing agree.\<close>

definition update_countdown_tx :: "int \<Rightarrow> int \<Rightarrow> int \<Rightarrow> (db, directive) prog" where
  "update_countdown_tx k remaining_seconds total_seconds =
     bnd (get_one_job k) (\<lambda>j.
       andthen (put_job (j\<lparr>j_step := ''COUNTDOWN'',
            j_progress := 50 + 15 * (total_seconds - remaining_seconds) div total_seconds,
            j_result := Some (AList.update ''remaining_seconds'' (JInt remaining_seconds) (dict_of (j_result j)))\<rparr>))
         (ret (if j_cancel_requested j then CANCEL else CONTINUE)))"

definition mark_update_tx :: "int \<Rightarrow> (db, directive) prog" where
  "mark_update_tx k =
     bnd (reads (find_job k)) (\<lambda>found.
       let changed = (case found of None \<Rightarrow> False
                      | Some j \<Rightarrow> j_is_cancellable j \<and> \<not> j_cancel_requested j) in
       bnd (get_one_job k) (\<lambda>j.
         if \<not> changed \<and> j_cancel_requested j then ret CANCEL
         else andthen (put_job (j\<lparr>j_is_cancellable := False, j_step := ''STOPPING'', j_progress := 68,
                  j_result := Some (AList.update ''remaining_seconds'' (JInt 0) (dict_of (j_result j)))\<rparr>))
              (ret CONTINUE)))"

text \<open>\<open>irreversible_started\<close> is the flag of the world.\<close>

definition update_countdown_control :: "env \<Rightarrow> int \<Rightarrow> countdown_control" where
  "update_countdown_control env k =
     \<lparr>c_update = (\<lambda>remaining whole. session_scope env (update_countdown_tx k remaining whole)),
      c_mark_irreversible = session_block env (bnd (on_db (mark_update_tx k)) (\<lambda>directive.
        andthen (if directive = CONTINUE then modify (\<lambda>w. w\<lparr>w_irreversible := True\<rparr>) else ret ())
          (ret directive)))\<rparr>"

section \<open>The steps of the executor\<close>

definition append_update_log :: "env \<Rightarrow> int \<Rightarrow> string \<Rightarrow> (world, unit) prog" where
  "append_update_log env k message =
     bnd (session_scope env (bnd (get_one_job k) (\<lambda>j. ret (j_log_path j)))) (\<lambda>path. case path of
         None \<Rightarrow> ret ()
       | Some p \<Rightarrow> if p = [] then ret () else modify (\<lambda>w. w\<lparr>w_trace := EvLog p message # w_trace w\<rparr>))"

definition step_log_messages :: "(string \<times> string) list" where
  "step_log_messages =
     [(''CHECKING'', msg_text ''Consulta de vers~ao iniciada.''),
      (''CHECKING_DISK'', msg_text ''Verifica_c~ao de espa_co livre iniciada.''),
      (''VERIFYING'', msg_text ''Vers~ao p/ublica verificada novamente sob lock.''),
      (''PREVENTIVE_BACKUP'', msg_text ''Backup pr/e-update iniciado.''),
      (''PREVENTIVE_SAFE_SAVE'', msg_text ''Salvamento seguro solicitado para o backup pr/e-update.''),
      (''PREVENTIVE_COPYING_WORLD'', msg_text ''C/opia do mundo para o backup pr/e-update iniciada.''),
      (''PREVENTIVE_COPYING_DATABASE'', msg_text ''Snapshot do banco para o backup pr/e-update iniciado.''),
      (''PREVENTIVE_BUILDING_MANIFEST'', msg_text ''Manifest do backup pr/e-update iniciado.''),
      (''PREVENTIVE_COMPRESSING'', msg_text ''Compacta_c~ao do backup pr/e-update iniciada.''),
      (''PREVENTIVE_VALIDATING'', msg_text ''Valida_c~ao do backup pr/e-update iniciada.''),
      (''PREVENTIVE_PUBLISHING'', msg_text ''Publica_c~ao at^omica do backup pr/e-update iniciada.''),
      (''ASSISTED_SHUTDOWN'', msg_text ''Desligamento assistido iniciado.''),
      (''UPDATING'', msg_text ''SteamCMD iniciado; cancelamento indispon/ivel.''),
      (''STARTING'', msg_text ''Inicializa_c~ao e health check do Palworld iniciados.''),
      (''VERIFYING_VERSION'', msg_text ''Valida_c~ao final de vers~ao e logs iniciada.'')]"

definition step_log_message :: "string \<Rightarrow> string" where
  "step_log_message step = (case map_of step_log_messages step of
       None \<Rightarrow> ''Etapa do Update atualizada.'' | Some m \<Rightarrow> m)"

definition update_checkpoint :: "env \<Rightarrow> int \<Rightarrow> progress_callback" where
  "update_checkpoint env k step progress cancellable =
     bnd (session_scope env (bnd (get_one_job k) (\<lambda>j.
            andthen (checkpoint_tx UpdateCancelledError k step progress cancellable) (ret (j_step j \<noteq> step))))) (\<lambda>changed_step.
       if changed_step then append_update_log env k (step_log_message step) else ret ())"

definition disk_free :: "env \<Rightarrow> (world, int) prog" where
  "disk_free env = call env (e_disk_free env) EvDiskFree"

definition steamcmd_check :: "env \<Rightarrow> (world, steam_build) prog" where
  "steamcmd_check env = call env (e_steam_check env) EvSteamCheck"

definition steamcmd_apply :: "env \<Rightarrow> (world, unit) prog" where
  "steamcmd_apply env = call env (e_steam_apply env) EvSteamApply"

definition failed_update_tx ::
  "int \<Rightarrow> string \<Rightarrow> string \<Rightarrow> bool \<Rightarrow> int option \<Rightarrow> bool \<Rightarrow> int \<Rightarrow> (db, unit) prog" where
  "failed_update_tx k category message manual_review record_id notify now =
     bnd (get_one_job k) (\<lambda>j.
       andthen (put_job (finished JOB_STATUS_FAILED ''FAILED'' now
            (dict_merge (dict_of (j_result j))
               [(''error'', JStr category), (''message'', JStr message),
                (''preventive_backup_record_id'', jopt_int record_id), (''requires_manual_review'', JBool manual_review)]) j))
       (andthen (record_audit_event now
            (system_event (if j_kind j = UPDATE_CHECK_JOB_KIND then ''PALWORLD_UPDATE_CHECK'' else ''PALWORLD_UPDATE'')
               AUDIT_RESULT_FAILURE k (Some ''Palworld'')
               (Some [(''error'', JStr category), (''preventive_backup_record_id'', jopt_int record_id),
                      (''requires_manual_review'', JBool manual_review)])))
         (if notify then enqueue_discord_notification ''UPDATE_FAILED'' (Some k) now else ret ())))"

definition fail_update ::
  "env \<Rightarrow> int \<Rightarrow> string \<Rightarrow> string \<Rightarrow> bool \<Rightarrow> int option \<Rightarrow> bool \<Rightarrow> (world, unit) prog" where
  "fail_update env k category message manual_review record_id notify =
     bnd (wall_now env) (\<lambda>now.
       andthen (session_scope env (failed_update_tx k category message manual_review record_id notify now))
         (append_update_log env k (''Falha controlada: '' @ category @ ''.'')))"

definition merge_result :: "env \<Rightarrow> int \<Rightarrow> dict \<Rightarrow> (world, unit) prog" where
  "merge_result env k values = session_scope env
     (update_job k (\<lambda>j. j\<lparr>j_result := Some (dict_merge (dict_of (j_result j)) values)\<rparr>))"

definition msg_json :: "string \<Rightarrow> json" where
  "msg_json s = JStr (msg_text s)"

section \<open>The check\<close>

definition execute_update_check :: "env \<Rightarrow> (string \<Rightarrow> bool) \<Rightarrow> int \<Rightarrow> (world, unit) prog" where
  "execute_update_check env zone_ok k = handle
     (andthen (update_checkpoint env k ''CHECKING_DISK'' 15 False)
     (bnd (disk_free env) (\<lambda>free_bytes.
      bnd (session_scope env (disk_critical_gb zone_ok)) (\<lambda>critical_gb.
      andthen (update_checkpoint env k ''CHECKING'' 35 False)
     (bnd (steamcmd_check env) (\<lambda>build.
       (let result = dict_merge (build_result build)
              [(''disk_free_bytes'', JInt free_bytes), (''disk_critical'', JBool (free_bytes < critical_gb * 1024 ^ 3))]
        in bnd (wall_now env) (\<lambda>now.
          andthen (session_scope env (andthen (update_job k (\<lambda>j. finished JOB_STATUS_SUCCEEDED ''COMPLETED'' now result j))
              (record_audit_event now (system_event ''PALWORLD_UPDATE_CHECK'' AUDIT_RESULT_SUCCESS k (Some ''Palworld'')
                 (Some result)))))
            (append_update_log env k (msg_text ''Vers~oes instalada e p/ublica verificadas.''))))))))))
     (\<lambda>_. fail_update env k ''UPDATE_CHECK_FAILED''
        (msg_text ''N~ao foi poss/ivel verificar as vers~oes pelo SteamCMD.'') False None False)"

section \<open>The update\<close>

definition demand_int :: "dict \<Rightarrow> string \<Rightarrow> int \<Rightarrow> int \<Rightarrow> ('s, unit) prog" where
  "demand_int data key lo hi = andthen (required_int (Some data) key lo hi) (ret ())"

definition load_update_request :: "env \<Rightarrow> int \<Rightarrow> (world, dict) prog" where
  "load_update_request env k =
     bnd (session_scope env (bnd (get_one_job k) (\<lambda>j.
            andthen (require (j_kind j = UPDATE_JOB_KIND \<and> j_status j = JOB_STATUS_RUNNING) ValueError)
              (ret (dict_of (j_result j)))))) (\<lambda>data.
       andthen (required_build_id data ''requested_installed_build_id'')
       (andthen (required_build_id data ''requested_available_build_id'')
       (andthen (demand_int data ''countdown_minutes'' 0 10)
       (andthen (demand_int data ''stop_timeout_seconds'' 1 300)
       (andthen (demand_int data ''start_timeout_seconds'' 1 600)
       (andthen (demand_int data ''disk_critical_gb'' 1 1024)
         (ret data)))))))"

text \<open>\<open>cast(int, data[key])\<close>, after the checks above.\<close>

definition data_int :: "dict \<Rightarrow> string \<Rightarrow> int" where
  "data_int data key = (case json_int (dict_get data key) of None \<Rightarrow> 0 | Some n \<Rightarrow> n)"

definition preventive_backup :: "env \<Rightarrow> int \<Rightarrow> (world, backup_artifact) prog" where
  "preventive_backup env k = handle
     (bnd (create_backup env k (\<lambda>step progress cancellable.
             update_checkpoint env k (''PREVENTIVE_'' @ step) (min 47 (12 + progress div 3)) cancellable)) (\<lambda>a.
       andthen (modify (\<lambda>w. w\<lparr>w_preventive := Some (ba_storage_path a, None)\<rparr>)) (ret a)))
     (\<lambda>e. if e = UpdateCancelledError then raise e
          else raise (UpdateExecutionError ''PREVENTIVE_BACKUP_FAILED''
                 (msg_text ''O backup pr/e-update n~ao p^ode ser criado e validado.'')))"

text \<open>
  Registering a preventive backup, as the updates and the restores do: the identifier of the record
  reaches the local variable before the rest of the transaction runs.
\<close>

definition register_preventive ::
  "env \<Rightarrow> (string \<Rightarrow> bool) \<Rightarrow> int \<Rightarrow> backup_artifact \<Rightarrow> int list \<Rightarrow> string \<Rightarrow> string \<Rightarrow> (world, int) prog" where
  "register_preventive env zone_ok k a preserved target role = session_block env
     (bnd (on_db (register_backup_artifact a k)) (\<lambda>record.
       andthen (modify (\<lambda>w. w\<lparr>w_preventive := Some (ba_storage_path a, Some (b_id record))\<rparr>))
       (bnd (on_db (configured_local_retention zone_ok)) (\<lambda>retention.
        andthen (apply_local_retention env retention (preserved @ [b_id record]))
        (bnd (wall_now env) (\<lambda>now.
         andthen (on_db (record_audit_event now (system_event ''BACKUP'' AUDIT_RESULT_SUCCESS k (Some target)
             (Some [(''backup_record_id'', JInt (b_id record)), (''filename'', JStr (ba_filename a)),
                    (''size_bytes'', JInt (ba_size_bytes a)), (''integrity'', JStr ''VALID''),
                    (''role'', JStr role)]))))
           (ret (b_id record))))))))"

definition verify_no_critical_logs :: "env \<Rightarrow> int \<Rightarrow> exn \<Rightarrow> exn \<Rightarrow> (world, unit) prog" where
  "verify_no_critical_logs env start_requested_at unavailable critical =
     bnd (handle (call env (e_journal env) EvJournal)
            (\<lambda>e. if e = PalworldLogError then raise unavailable else raise e)) (\<lambda>entries.
       require (\<not> list_ex (\<lambda>x. start_requested_at \<le> le_occurred_at x \<and> le_critical x) entries) critical)"

definition complete_update_tx :: "int \<Rightarrow> dict \<Rightarrow> dict \<Rightarrow> string \<Rightarrow> int \<Rightarrow> (db, unit) prog" where
  "complete_update_tx k result details notification now =
     andthen (update_job k (\<lambda>j. finished JOB_STATUS_SUCCEEDED ''COMPLETED'' now result j))
       (andthen (record_audit_event now (system_event ''PALWORLD_UPDATE'' AUDIT_RESULT_SUCCESS k (Some ''Palworld'')
            (Some details)))
         (if notification = [] then ret () else enqueue_discord_notification notification (Some k) now))"

definition complete_update ::
  "env \<Rightarrow> int \<Rightarrow> dict \<Rightarrow> steam_build \<Rightarrow> steam_build \<Rightarrow> int \<Rightarrow> (world, unit) prog" where
  "complete_update env k data before after record_id =
     bnd (wall_now env) (\<lambda>now.
       andthen (session_scope env (complete_update_tx k
           (dict_merge data
              [(''installed_build_id'', JStr (installed_build_id after)),
               (''available_build_id'', JStr (available_build_id after)),
               (''available_at'', jopt_str (available_at after)),
               (''previous_build_id'', JStr (installed_build_id before)),
               (''update_available'', JBool False), (''preventive_backup_record_id'', JInt record_id),
               (''requires_manual_review'', JBool False),
               (''message'', msg_json ''Update conclu/ido e Palworld ONLINE.'')])
           [(''previous_build_id'', JStr (installed_build_id before)),
            (''installed_build_id'', JStr (installed_build_id after)),
            (''preventive_backup_record_id'', JInt record_id), (''final_state'', JStr ''ONLINE'')]
           ''UPDATE_COMPLETED'' now))
         (append_update_log env k (msg_text ''Update validado; Palworld est/a ONLINE.'')))"

definition complete_no_update :: "env \<Rightarrow> int \<Rightarrow> dict \<Rightarrow> steam_build \<Rightarrow> (world, unit) prog" where
  "complete_no_update env k data build =
     bnd (wall_now env) (\<lambda>now. session_scope env (complete_update_tx k
       (dict_merge (dict_merge data (build_result build))
          [(''requires_manual_review'', JBool False),
           (''message'', JStr (msg_text ''A vers~ao instalada j/a corresponde '' @ CHR 0xE0 # msg_text '' branch p/ublica.''))])
       (dict_merge [(''outcome'', JStr ''ALREADY_CURRENT'')] (build_result build)) [] now))"

definition cancel_update :: "env \<Rightarrow> int \<Rightarrow> dict \<Rightarrow> int option \<Rightarrow> (world, unit) prog" where
  "cancel_update env k data record_id =
     bnd (wall_now env) (\<lambda>now.
       andthen (session_scope env (bnd (get_one_job k) (\<lambda>j. mark_update_cancelled j
           (dict_merge data [(''preventive_backup_record_id'', jopt_int record_id), (''requires_manual_review'', JBool False),
              (''message'', JStr ''Update cancelado antes do Stop.'')]) now)))
         (append_update_log env k ''Update cancelado em ponto seguro.''))"

text \<open>From the preventive backup to the confirmed stop.\<close>

definition stop_for_update ::
  "env \<Rightarrow> (string \<Rightarrow> bool) \<Rightarrow> lifecycle_executor \<Rightarrow> int \<Rightarrow> dict \<Rightarrow> (world, int) prog" where
  "stop_for_update env zone_ok lifecycle k data =
     andthen (update_checkpoint env k ''PREVENTIVE_BACKUP'' 12 True)
     (bnd (preventive_backup env k) (\<lambda>a.
      bnd (register_preventive env zone_ok k a [] (msg_text ''Backup pr/e-update'') ''PRE_UPDATE'') (\<lambda>record_id.
      andthen (merge_result env k [(''preventive_backup_record_id'', JInt record_id)])
     (andthen (update_checkpoint env k ''ASSISTED_SHUTDOWN'' 50 True)
     (andthen (modify (\<lambda>w. w\<lparr>w_irreversible := False\<rparr>))
     (bnd (assisted_shutdown env lifecycle (data_int data ''countdown_minutes'') (data_int data ''stop_timeout_seconds'')
             (update_countdown_control env k)) (\<lambda>shutdown.
      andthen (require (sr_outcome shutdown \<noteq> SHUTDOWN_CANCELLED) UpdateCancelledError)
     (andthen (require (sr_outcome shutdown = SHUTDOWN_SUCCEEDED) (UpdateExecutionError ''STOP_FAILED''
         (msg_text ''O Palworld n~ao confirmou o estado offline; revise o estado manualmente.'')))
       (ret record_id)))))))))"

text \<open>From SteamCMD to the verified start.\<close>

definition apply_update_steps ::
  "env \<Rightarrow> lifecycle_executor \<Rightarrow> int \<Rightarrow> dict \<Rightarrow> (world, steam_build) prog" where
  "apply_update_steps env lifecycle k data =
     andthen (update_checkpoint env k ''UPDATING'' 72 False)
     (andthen (handle (steamcmd_apply env) (\<lambda>e. if e = SteamCmdError
         then raise (UpdateExecutionError ''STEAMCMD_FAILED''
           (msg_text ''O SteamCMD n~ao confirmou a atualiza_c~ao; o servidor permanece parado para revis~ao.''))
         else raise e))
     (andthen (update_checkpoint env k ''STARTING'' 84 False)
     (bnd (wall_now env) (\<lambda>start_requested_at.
      bnd (lifecycle START (data_int data ''start_timeout_seconds'')) (\<lambda>start.
      andthen (require (lr_outcome start = LIFECYCLE_SUCCEEDED) (UpdateExecutionError ''START_FAILED''
        (msg_text ''O Palworld n~ao voltou ao estado ONLINE ap/os o Update.'')))
     (andthen (update_checkpoint env k ''VERIFYING_VERSION'' 93 False)
     (bnd (steamcmd_check env) (\<lambda>after.
      andthen (require (installed_build_id after = available_build_id after) (UpdateExecutionError ''VERSION_MISMATCH''
        (msg_text ''A vers~ao instalada n~ao corresponde '' @ CHR 0xE0 # msg_text '' branch p/ublica ap/os o Update.'')))
     (andthen (verify_no_critical_logs env start_requested_at
        (UpdateExecutionError ''POST_UPDATE_LOGS_UNAVAILABLE''
          (msg_text ''Os logs cr/iticos n~ao puderam ser verificados ap/os o Update.''))
        (UpdateExecutionError ''POST_UPDATE_CRITICAL_LOG''
          (msg_text ''O Palworld registrou erro cr/itico ap/os o Update.'')))
       (ret after))))))))))"

definition update_steps ::
  "env \<Rightarrow> (string \<Rightarrow> bool) \<Rightarrow> lifecycle_executor \<Rightarrow> int \<Rightarrow> dict \<Rightarrow> (world, unit) prog" where
  "update_steps env zone_ok lifecycle k data =
     andthen (update_checkpoint env k ''CHECKING_DISK'' 3 True)
     (bnd (disk_free env) (\<lambda>free_bytes.
      andthen (if free_bytes < data_int data ''disk_critical_gb'' * 1024 ^ 3
        then bnd (wall_now env) (\<lambda>now.
          andthen (session_scope env (enqueue_discord_notification ''DISK_CRITICAL'' (Some k) now))
            (raise (UpdateExecutionError ''DISK_CRITICAL''
              (msg_text ''O Update foi bloqueado porque o espa_co livre est/a em n/ivel cr/itico.''))))
        else ret ())
     (andthen (update_checkpoint env k ''VERIFYING'' 8 True)
     (bnd (steamcmd_check env) (\<lambda>before.
      andthen (merge_result env k (build_result before))
        (if installed_build_id before = available_build_id before then complete_no_update env k data before
         else bnd (stop_for_update env zone_ok lifecycle k data) (\<lambda>record_id.
                bnd (apply_update_steps env lifecycle k data) (\<lambda>after.
                  complete_update env k data before after record_id))))))))"

definition update_failed :: "env \<Rightarrow> int \<Rightarrow> dict \<Rightarrow> exn \<Rightarrow> (world, unit) prog" where
  "update_failed env k data e =
     bnd (reads w_irreversible) (\<lambda>critical_started.
     bnd (reads (\<lambda>w. case w_preventive w of None \<Rightarrow> None | Some (_, r) \<Rightarrow> r)) (\<lambda>record_id.
       case e of
         UpdateCancelledError \<Rightarrow> cancel_update env k data record_id
       | UpdateExecutionError category message \<Rightarrow> fail_update env k category message critical_started record_id True
       | _ \<Rightarrow> fail_update env k ''UPDATE_FAILED'' ''O Update falhou de forma controlada.'' critical_started record_id True))"

text \<open>The \<open>finally\<close>: an archive that never got a record is removed.\<close>

definition drop_unregistered :: "env \<Rightarrow> (world, unit) prog" where
  "drop_unregistered env = bnd (reads w_preventive) (\<lambda>preventive. case preventive of
       Some (path, None) \<Rightarrow> andthen (remove_managed_artifact env path) (ret ())
     | _ \<Rightarrow> ret ())"

definition execute_update ::
  "env \<Rightarrow> (string \<Rightarrow> bool) \<Rightarrow> lifecycle_executor \<Rightarrow> int \<Rightarrow> (world, unit) prog" where
  "execute_update env zone_ok lifecycle k =
     andthen (modify (\<lambda>w. w\<lparr>w_irreversible := False, w_preventive := None\<rparr>))
     (bnd (handle (bnd (load_update_request env k) (\<lambda>data. ret (Some data)))
        (\<lambda>_. andthen (fail_update env k ''INVALID_UPDATE_JOB''
            (msg_text ''O job de Update possui dados inv/alidos e n~ao foi executado.'') False None True) (ret None)))
       (\<lambda>request. case request of
          None \<Rightarrow> ret ()
        | Some data \<Rightarrow> always (handle (update_steps env zone_ok lifecycle k data) (update_failed env k data))
            (drop_unregistered env)))"

definition execute_update_job ::
  "env \<Rightarrow> (string \<Rightarrow> bool) \<Rightarrow> lifecycle_executor \<Rightarrow> int \<Rightarrow> (world, unit) prog" where
  "execute_update_job env zone_ok lifecycle k =
     bnd (session_scope env (bnd (get_one_job k) (\<lambda>j. ret (j_kind j)))) (\<lambda>kind.
       if kind = UPDATE_CHECK_JOB_KIND then execute_update_check env zone_ok k
       else andthen (require (kind = UPDATE_JOB_KIND) ValueError) (execute_update env zone_ok lifecycle k))"

definition fail_unexpected_update :: "env \<Rightarrow> int \<Rightarrow> (world, unit) prog" where
  "fail_unexpected_update env k =
     bnd (session_scope env (bnd (get_one_job k) (\<lambda>j. ret (if \<not> active_status (j_status j) then None
            else Some (j_kind j = UPDATE_JOB_KIND, j_kind j = UPDATE_JOB_KIND \<and> \<not> j_is_cancellable j))))) (\<lambda>found.
       case found of
         None \<Rightarrow> ret ()
       | Some (is_update, manual_review) \<Rightarrow> fail_update env k ''UNEXPECTED_UPDATE_FAILURE''
           ''O Update falhou de forma controlada.'' manual_review None is_update)"

end
