(* ===== verification/UpdateTrace.thy ===== *)
theory UpdateTrace
  imports UpdateRun
begin

text \<open>
  The order of what an update does to the outside: SteamCMD changes the server only after a preventive
  backup was published and the server was stopped, and an update that succeeds went through a start and
  a check of the version and of the log. All of it is read off the trace, so it holds for every
  behaviour of the database and of the services.
\<close>

section \<open>Events that leave the server alone\<close>

definition no_server :: "event \<Rightarrow> bool" where
  "no_server ev = (case ev of EvControl _ _ \<Rightarrow> False | EvSignal _ _ \<Rightarrow> False | EvSteamApply _ \<Rightarrow> False
     | EvHostPower _ _ \<Rightarrow> False | EvRestoreApply _ \<Rightarrow> False | _ \<Rightarrow> True)"

definition untouched :: "event list \<Rightarrow> bool" where
  "untouched es = list_all no_server es"

definition log_event :: "event \<Rightarrow> bool" where
  "log_event ev = (case ev of EvLog _ _ \<Rightarrow> True | _ \<Rightarrow> False)"

lemma no_server_simps [simp]:
  "no_server (EvLog p m)" "no_server (EvDiskFree x)" "no_server (EvSteamCheck y)" "no_server (EvJournal z)"
  "no_server (EvPublished p)" "\<not> no_server (EvSteamApply u)"
  by (simp_all add: no_server_def)

lemma file_no_server: "file_event ev \<Longrightarrow> no_server ev"
  by (cases ev) (auto simp: no_server_def file_event_def)

lemma chat_no_server: "list_all chat_event es \<Longrightarrow> list_all no_server es"
  by (auto simp: list_all_iff no_server_def chat_event_def split: event.splits)

lemma log_no_server: "list_all log_event es \<Longrightarrow> list_all no_server es"
  by (auto simp: list_all_iff no_server_def log_event_def split: event.splits)

lemma at_phase_event:
  "at_phase tr P w \<Longrightarrow> (\<And>es. P es \<Longrightarrow> Q (ev # es)) \<Longrightarrow> at_phase tr Q (w\<lparr>w_trace := ev # w_trace w\<rparr>)"
  by (clarsimp simp: at_phase_def)

section \<open>Phases the executor's own bookkeeping keeps\<close>

locale log_phase =
  fixes P :: "event list \<Rightarrow> bool"
  assumes log_kept: "P es \<Longrightarrow> P (EvLog p m # es)"
begin

lemma append: "keeps (at_phase tr P) (append_update_log env k m)"
  unfolding append_update_log_def
  by (intro keeps_rules keeps_at_phase_scope keeps_modify) (auto intro: at_phase_event log_kept)

lemma point: "keeps (at_phase tr P) (update_checkpoint env k s n c)"
  unfolding update_checkpoint_def by (intro keeps_rules keeps_at_phase_scope append)

lemma merge: "keeps (at_phase tr P) (merge_result env k v)"
  unfolding merge_result_def by (rule keeps_at_phase_scope)

lemma failing: "keeps (at_phase tr P) (fail_update env k c m r i n)"
  unfolding fail_update_def by (intro keeps_rules keeps_at_phase_scope append)

lemma cancelling: "keeps (at_phase tr P) (cancel_update env k data i)"
  unfolding cancel_update_def by (intro keeps_rules keeps_at_phase_scope append)

lemma completing: "keeps (at_phase tr P) (complete_update env k data b a i)"
  "keeps (at_phase tr P) (complete_no_update env k data b)"
  unfolding complete_update_def complete_no_update_def by (intro keeps_rules keeps_at_phase_scope append)+

lemma failed: "keeps (at_phase tr P) (update_failed env k data e)"
  unfolding update_failed_def by (cases e) (auto intro!: keeps_rules failing cancelling)

end

locale calm_phase = log_phase +
  assumes calm: "no_server ev \<Longrightarrow> P es \<Longrightarrow> P (ev # es)"

sublocale calm_phase \<subseteq> files: retention_frame "at_phase tr P" env for tr env
  by (rule phase_frame) (auto intro: calm file_no_server)

context calm_phase
begin

lemma harmless: "(\<And>r. no_server (ev r)) \<Longrightarrow> keeps (at_phase tr P) (call env f ev)"
  by (rule keeps_call) (auto intro: at_phase_call calm)

lemma disk: "keeps (at_phase tr P) (disk_free env)"
  unfolding disk_free_def by (rule harmless) simp

lemma check: "keeps (at_phase tr P) (steamcmd_check env)"
  unfolding steamcmd_check_def by (rule harmless) simp

lemma register_it: "keeps (at_phase tr P) (register_preventive env z k a pres target role)"
  unfolding register_preventive_def
  by (intro keeps_block keeps_rules files.retention files.register files.settings files.audit)
    (auto simp: at_phase_def intro!: keeps_modify)

lemma journal: "keeps (at_phase tr P) (verify_no_critical_logs env t e1 e2)"
  unfolding verify_no_critical_logs_def by (intro keeps_rules harmless) simp

lemma drop: "keeps (at_phase tr P) (drop_unregistered env)"
  unfolding drop_unregistered_def
  by (intro keeps_rules) (auto intro!: keeps_rules files.remove split: prod.split option.split)

end

definition published_in :: "string \<Rightarrow> event list \<Rightarrow> bool" where
  "published_in p es \<longleftrightarrow> untouched es \<and> EvPublished p \<in> set es"

definition seen :: "steam_build \<Rightarrow> event list \<Rightarrow> bool" where
  "seen b es \<longleftrightarrow> untouched es \<and> EvSteamCheck (Inr b) \<in> set es"

interpretation untouched_phase: calm_phase untouched
  by unfold_locales (simp_all add: untouched_def)

interpretation published_phase: calm_phase "published_in p"
  by unfold_locales (simp_all add: published_in_def untouched_def)

interpretation seen_phase: calm_phase "seen b"
  by unfold_locales (simp_all add: seen_def untouched_def)

section \<open>Stopping the server\<close>

interpretation update_countdown: countdown_contract "update_countdown_control env k"
proof unfold_locales
  fix w r t
  show "wp (c_update (update_countdown_control env k) r t) (\<lambda>_. quiet w) (\<lambda>_. quiet w) w"
    by (simp add: update_countdown_control_def wp_scope_quiet)
  have "wp (on_db (mark_update_tx k)) (\<lambda>_. quiet w) (\<lambda>_ v. quiet w v) v" if "quiet w v" for v
    unfolding wp_on_db by (rule wp_mono [OF wp_trivial]) (use that in \<open>auto simp: quiet_def\<close>)
  from this [THEN wp_mono]
  show "wp (c_mark_irreversible (update_countdown_control env k)) (\<lambda>_. quiet w) (\<lambda>_. quiet w) w"
    by (auto simp: update_countdown_control_def wp_session_block Let_def wp_bnd wp_andthen wp_if wp_modify wp_ret
        quiet_def)
qed

interpretation update_assisted: assisted_client "lifecycle_execute env" "update_countdown_control env' k"
  by unfold_locales

definition backed :: "event list \<Rightarrow> bool" where
  "backed es \<longleftrightarrow> untouched es \<and> (\<exists>p. EvPublished p \<in> set es)"

text \<open>The server is stopped after the backup was published; only the log was written since.\<close>

definition ready :: "event list \<Rightarrow> bool" where
  "ready es \<longleftrightarrow> (\<exists>logs stop before. es = logs @ stop @ before \<and> list_all log_event logs
     \<and> list_all lifecycle_event stop \<and> confirmed STOP stop \<and> backed before)"

definition no_apply :: "event \<Rightarrow> bool" where
  "no_apply ev = (case ev of EvSteamApply _ \<Rightarrow> False | _ \<Rightarrow> True)"

definition guarded :: "event list \<Rightarrow> bool" where
  "guarded es \<longleftrightarrow> list_all no_apply es
     \<or> (\<exists>after r before. es = after @ EvSteamApply r # before \<and> list_all no_apply after \<and> ready before)"

text \<open>After a successful run of SteamCMD, of the start, and of the last checks.\<close>

definition applied :: "event list \<Rightarrow> bool" where
  "applied es \<longleftrightarrow> (\<exists>logs before. es = logs @ EvSteamApply (Inr ()) # before \<and> list_all log_event logs \<and> ready before)"

definition started :: "event list \<Rightarrow> bool" where
  "started es \<longleftrightarrow> (\<exists>logs start before. es = logs @ start @ before \<and> list_all log_event logs
     \<and> list_all lifecycle_event start \<and> confirmed START start \<and> applied before)"

definition rechecked :: "steam_build \<Rightarrow> event list \<Rightarrow> bool" where
  "rechecked b es \<longleftrightarrow> (\<exists>late early. es = late @ EvSteamCheck (Inr b) # early \<and> untouched late \<and> started early)"

text \<open>
  The last check reads the log after the versions agreed. The trace shows that it was read;
  \<open>verify_finds_nothing_critical\<close> shows that the check passes only when it holds no critical entry since the start.
\<close>

definition verified :: "event list \<Rightarrow> bool" where
  "verified es \<longleftrightarrow> (\<exists>late log early b. es = late @ EvJournal (Inr log) # early \<and> untouched late \<and> rechecked b early
     \<and> installed_build_id b = available_build_id b)"

lemma verify_finds_nothing_critical:
  "wp (verify_no_critical_logs env start_requested_at a b) (\<lambda>_ v. \<exists>log. w_trace v = EvJournal (Inr log) # w_trace w
      \<and> (\<forall>x\<in>set log. start_requested_at \<le> le_occurred_at x \<longrightarrow> \<not> le_critical x)) (\<lambda>_ _. True) w"
  by (auto simp: verify_no_critical_logs_def wp_simps list_ex_iff split: sum.split)

definition current :: "event list \<Rightarrow> bool" where
  "current es \<longleftrightarrow> (\<exists>b. seen b es \<and> installed_build_id b = available_build_id b)"

lemma no_apply_simps [simp]:
  "no_apply (EvLog p m)" "no_apply (EvSteamCheck y)" "no_apply (EvJournal z)" "\<not> no_apply (EvSteamApply u)"
  by (simp_all add: no_apply_def)

lemma lists_no_apply:
  "list_all no_server es \<Longrightarrow> list_all no_apply es" "list_all log_event es \<Longrightarrow> list_all no_apply es"
  "list_all lifecycle_event es \<Longrightarrow> list_all no_apply es" "list_all chat_event es \<Longrightarrow> list_all no_apply es"
  by (auto simp: list_all_iff no_server_def no_apply_def log_event_def chat_event_def lifecycle_event_def
      split: event.splits)

lemma untouched_guarded: "untouched es \<Longrightarrow> guarded es"
  by (simp add: guarded_def untouched_def lists_no_apply)

lemma ready_no_apply: "ready es \<Longrightarrow> list_all no_apply es"
  by (auto simp: ready_def backed_def untouched_def lists_no_apply simp del: confirmed.simps)

lemma ready_guarded: "ready es \<Longrightarrow> guarded es"
  by (simp add: guarded_def ready_no_apply)

lemma guarded_more: "guarded es \<Longrightarrow> list_all no_apply xs \<Longrightarrow> guarded (xs @ es)"
  unfolding guarded_def by (metis append.assoc list_all_append)

lemma guarded_event: "guarded es \<Longrightarrow> no_apply ev \<Longrightarrow> guarded (ev # es)"
  using guarded_more [of es "[ev]"] by simp

lemma applied_guarded: "applied es \<Longrightarrow> guarded es"
  by (auto simp: applied_def guarded_def dest: lists_no_apply)

lemma started_guarded: "started es \<Longrightarrow> guarded es"
  by (auto simp: started_def guarded_more lists_no_apply applied_guarded simp del: confirmed.simps)

lemma rechecked_guarded: "rechecked b es \<Longrightarrow> guarded es"
  by (auto simp: rechecked_def untouched_def guarded_more guarded_event lists_no_apply started_guarded)

lemma verified_guarded: "verified es \<Longrightarrow> guarded es"
  by (auto simp: verified_def untouched_def guarded_more guarded_event lists_no_apply rechecked_guarded)

lemma current_guarded: "current es \<Longrightarrow> guarded es"
  by (auto simp: current_def seen_def untouched_guarded)

interpretation guarded_phase: calm_phase guarded
  by unfold_locales (auto intro!: guarded_event simp: no_server_def no_apply_def split: event.splits)

interpretation current_phase: calm_phase current
  by unfold_locales (auto simp: current_def intro: seen_phase.log_kept seen_phase.calm)

interpretation backed_phase: calm_phase backed
  by unfold_locales (auto simp: backed_def untouched_def)

lemma log_prefix: "list_all log_event logs \<Longrightarrow> list_all log_event (EvLog p m # logs)"
  by (simp add: log_event_def)

interpretation ready_phase: log_phase ready
  unfolding ready_def by unfold_locales (metis append_Cons log_prefix)

interpretation applied_phase: log_phase applied
  unfolding applied_def by unfold_locales (metis append_Cons log_prefix)

interpretation started_phase: log_phase started
  unfolding started_def by unfold_locales (metis append_Cons log_prefix)

lemma untouched_prefix: "no_server ev \<Longrightarrow> untouched late \<Longrightarrow> untouched (ev # late)"
  by (simp add: untouched_def)

interpretation rechecked_phase: calm_phase "rechecked b"
  unfolding rechecked_def by unfold_locales (metis append_Cons untouched_prefix no_server_simps(1))+

interpretation verified_phase: calm_phase verified
  unfolding verified_def by unfold_locales (metis append_Cons untouched_prefix no_server_simps(1))+

section \<open>The steps\<close>

text \<open>Rules for a step that keeps its phase; every phase is guarded.\<close>

lemma phase_then:
  assumes "keeps (at_phase tr P) m" and "\<And>es. P es \<Longrightarrow> G es"
    and "triple (at_phase tr P) n Q (\<lambda>_. at_phase tr G)"
  shows "triple (at_phase tr P) (andthen m n) Q (\<lambda>_. at_phase tr G)"
  by (rule triple_andthen [OF keeps_weaken [OF assms(1)] assms(3)]) (rule at_phase_mono, assumption, rule assms(2))

lemma phase_bnd:
  assumes "keeps (at_phase tr P) m" and "\<And>es. P es \<Longrightarrow> G es"
    and "\<And>x. triple (at_phase tr P) (f x) Q (\<lambda>_. at_phase tr G)"
  shows "triple (at_phase tr P) (bnd m f) Q (\<lambda>_. at_phase tr G)"
  by (rule triple_bnd [OF keeps_weaken [OF assms(1)] assms(3)]) (rule at_phase_mono, assumption, rule assms(2))

lemma phase_enter:
  assumes "\<And>es. P es \<Longrightarrow> R es" and "triple (at_phase tr R) m Q E"
  shows "triple (at_phase tr P) m Q E"
  by (rule triple_conseq [OF assms(2)]) (auto intro: at_phase_mono assms(1))

lemma phase_last:
  assumes "keeps (at_phase tr P) m" and "\<And>es. P es \<Longrightarrow> R es" and "\<And>es. P es \<Longrightarrow> G es"
  shows "triple (at_phase tr P) m (\<lambda>_. at_phase tr R) (\<lambda>_. at_phase tr G)"
  by (rule triple_conseq [OF keepsD [OF assms(1)]]) (auto intro: at_phase_mono assms(2,3))

lemma steam_check_seen:
  "triple (at_phase tr untouched) (steamcmd_check env) (\<lambda>b. at_phase tr (seen b)) (\<lambda>_. at_phase tr guarded)"
  unfolding steamcmd_check_def
  by (rule triple_call) (auto intro!: at_phase_call untouched_guarded simp: seen_def untouched_def)

lemma create_untouched_published:
  assumes "\<And>s n c. keeps (at_phase tr untouched) (progress s n c)"
  shows "triple (at_phase tr untouched) (create_backup env k progress)
      (\<lambda>a. at_phase tr (published_in (ba_storage_path a))) (\<lambda>_. at_phase tr untouched)"
proof (rule create_published)
  show "at_phase tr (published_in p) (w\<lparr>w_artifacts := a, w_trace := EvPublished p # w_trace w\<rparr>)"
    if "at_phase tr untouched w" for p w a
    using at_phase_event [OF that, of "published_in p" "EvPublished p"]
    by (simp add: published_in_def untouched_def at_phase_def)
  show "at_phase tr untouched w" if "at_phase tr (published_in p) w" for p w
    using that by (rule at_phase_mono) (simp add: published_in_def)
  show "file_frame (at_phase tr untouched) env" "file_frame (at_phase tr (published_in p)) env" for p
    using untouched_phase.files.file_frame_axioms published_phase.files.file_frame_axioms .
qed (rule assms)

lemma preventive_published:
  "triple (at_phase tr untouched) (preventive_backup env k) (\<lambda>_. at_phase tr backed) (\<lambda>_. at_phase tr guarded)"
proof -
  have create: "triple (at_phase tr untouched) (create_backup env k (\<lambda>step progress cancellable.
      update_checkpoint env k (''PREVENTIVE_'' @ step) (min 47 (12 + progress div 3)) cancellable))
      (\<lambda>a. at_phase tr (published_in (ba_storage_path a))) (\<lambda>_. at_phase tr untouched)"
    by (rule create_untouched_published) (rule untouched_phase.point)
  show ?thesis
    unfolding preventive_backup_def
  proof (rule triple_handle [where R = "\<lambda>_. at_phase tr untouched"])
    have "keeps (at_phase tr (published_in p)) (modify (\<lambda>w. w\<lparr>w_preventive := x\<rparr>))" for p x
      by (rule keeps_modify) (simp add: at_phase_def)
    then show "triple (at_phase tr untouched) (bnd (create_backup env k (\<lambda>step progress cancellable.
        update_checkpoint env k (''PREVENTIVE_'' @ step) (min 47 (12 + progress div 3)) cancellable)) (\<lambda>a.
          andthen (modify (\<lambda>w. w\<lparr>w_preventive := Some (ba_storage_path a, None)\<rparr>)) (ret a)))
        (\<lambda>_. at_phase tr backed) (\<lambda>_. at_phase tr untouched)"
      by (intro triple_bnd [OF create] phase_then phase_last keeps_ret)
        (auto simp: published_in_def backed_def)
  qed (auto intro!: triple_if triple_raise intro: at_phase_mono untouched_guarded)
qed

lemma shut_ready:
  assumes "shut v (shutdown_ok r) u" and "at_phase tr backed v"
  shows "at_phase tr guarded u" and "sr_outcome r = SHUTDOWN_SUCCEEDED \<Longrightarrow> at_phase tr ready u"
proof -
  from assms obtain es fs gs where u: "w_trace u = es @ fs @ gs @ tr" and ev: "list_all lifecycle_event es"
    "list_all chat_event fs" and gs: "backed gs" and ok: "shutdown_ok r es"
    by (auto simp: shut_def at_phase_def)
  then have "guarded (es @ fs @ gs)"
    by (simp add: guarded_more untouched_guarded lists_no_apply backed_def)
  with u show "at_phase tr guarded u" by (auto simp: at_phase_def)
  assume "sr_outcome r = SHUTDOWN_SUCCEEDED"
  with ok have "confirmed STOP es" by (simp add: shutdown_ok_def)
  moreover have "backed (fs @ gs)" using gs chat_no_server [OF ev(2)] by (auto simp: backed_def untouched_def)
  ultimately have "ready (es @ fs @ gs)"
    unfolding ready_def using ev(1) by (metis append_Nil list.pred_inject(1))
  with u show "at_phase tr ready u" by (auto simp: at_phase_def)
qed

lemma shut_guarded:
  assumes "shut v (\<lambda>_. True) u" and "at_phase tr backed v"
  shows "at_phase tr guarded u"
  using shut_ready(1) [OF _ assms(2), of "communication_failed None" u] assms(1)
  by (auto simp: shut_def shutdown_ok_def communication_failed_def)

lemma stop_ready:
  "triple (at_phase tr untouched) (stop_for_update env z (lifecycle_execute env) k data)
     (\<lambda>_. at_phase tr ready) (\<lambda>_. at_phase tr guarded)"
proof -
  have shutdown: "triple (at_phase tr backed) (assisted_shutdown env (lifecycle_execute env) m t (update_countdown_control env k))
      (\<lambda>r w. at_phase tr guarded w \<and> (sr_outcome r = SHUTDOWN_SUCCEEDED \<longrightarrow> at_phase tr ready w))
      (\<lambda>_. at_phase tr guarded)" for m t
    by (rule tripleI, rule wp_mono [OF update_assisted.assisted_shut]) (auto intro: shut_ready shut_guarded)
  have outcome: "triple (\<lambda>w. at_phase tr guarded w \<and> (sr_outcome s = SHUTDOWN_SUCCEEDED \<longrightarrow> at_phase tr ready w))
      (andthen (require (sr_outcome s \<noteq> SHUTDOWN_CANCELLED) UpdateCancelledError)
        (andthen (require (sr_outcome s = SHUTDOWN_SUCCEEDED) e) (ret i)))
      (\<lambda>_. at_phase tr ready) (\<lambda>_. at_phase tr guarded)" for s i e
    by (simp add: triple_def wp_simps)
  have reset: "keeps (at_phase tr backed) (modify (\<lambda>w. w\<lparr>w_irreversible := False\<rparr>))"
    by (rule keeps_modify) (simp add: at_phase_def)
  have backed: "backed es \<Longrightarrow> guarded es" for es by (simp add: backed_def untouched_guarded)
  show ?thesis
    unfolding stop_for_update_def
    by (intro phase_then [OF untouched_phase.point untouched_guarded] triple_bnd [OF preventive_published]
        phase_bnd [OF backed_phase.register_it backed] phase_then [OF backed_phase.merge backed]
        phase_then [OF backed_phase.point backed] phase_then [OF reset backed] triple_bnd [OF shutdown] outcome)
qed

lemma apply_verified:
  "triple (at_phase tr ready) (apply_update_steps env (lifecycle_execute env) k data)
     (\<lambda>_. at_phase tr verified) (\<lambda>_. at_phase tr guarded)"
proof -
  have steam: "triple (at_phase tr ready) (handle (steamcmd_apply env) (\<lambda>e. if e = SteamCmdError then raise e' else raise e))
      (\<lambda>_. at_phase tr applied) (\<lambda>_. at_phase tr guarded)" for e'
  proof (rule triple_handle)
    have "applied (EvSteamApply (Inr ()) # es)" if "ready es" for es
      unfolding applied_def using that by (metis append_Nil list.pred_inject(1))
    moreover have "guarded (EvSteamApply r # es)" if "ready es" for r es
      unfolding guarded_def using that by (metis append_Nil list.pred_inject(1))
    ultimately show "triple (at_phase tr ready) (steamcmd_apply env) (\<lambda>_. at_phase tr applied) (\<lambda>_. at_phase tr guarded)"
      unfolding steamcmd_apply_def by (intro triple_call) (auto intro: at_phase_call)
  qed (auto intro!: triple_if triple_raise)
  have start: "triple (at_phase tr applied) (lifecycle_execute env START t)
      (\<lambda>r w. at_phase tr guarded w \<and> (lr_outcome r = LIFECYCLE_SUCCEEDED \<longrightarrow> at_phase tr started w))
      (\<lambda>_. at_phase tr guarded)" for t
  proof (rule tripleI)
    fix w
    assume "at_phase tr applied w"
    then obtain fs where fs: "w_trace w = fs @ tr" "applied fs" by (auto simp: at_phase_def)
    have guarded: "at_phase tr guarded v" if "lifecycle_frame w v es" for v es
      using that fs guarded_more [OF applied_guarded [OF fs(2)], of es]
      by (simp add: lifecycle_frame_def at_phase_def lists_no_apply)
    have "at_phase tr started v" if "lifecycle_frame w v es" "confirmed START es" for v es
    proof -
      have "started (es @ fs)"
        unfolding started_def using that fs(2)
        by (intro exI [of _ "[]"] exI [of _ es] exI [of _ fs]) (simp add: lifecycle_frame_def del: confirmed.simps)
      then show ?thesis using that(1) fs(1) by (simp add: lifecycle_frame_def at_phase_def)
    qed
    then show "wp (lifecycle_execute env START t)
        (\<lambda>r w. at_phase tr guarded w \<and> (lr_outcome r = LIFECYCLE_SUCCEEDED \<longrightarrow> at_phase tr started w))
        (\<lambda>_. at_phase tr guarded) w"
      by (intro wp_mono [OF palworld_lifecycle.exec_done]) (auto simp: lifecycle_done_def guarded simp del: confirmed.simps)
  qed
  have check: "triple (at_phase tr started) (steamcmd_check env) (\<lambda>b. at_phase tr (rechecked b)) (\<lambda>_. at_phase tr guarded)"
  proof -
    have "rechecked b (EvSteamCheck (Inr b) # es)" if "started es" for b es
      unfolding rechecked_def using that by (intro exI [of _ "[]"] exI [of _ es]) (simp add: untouched_def)
    moreover have "guarded (EvSteamCheck r # es)" if "started es" for r es
      using that by (simp add: guarded_event started_guarded)
    ultimately show ?thesis
      unfolding steamcmd_check_def by (intro triple_call) (auto intro: at_phase_call)
  qed
  have journal: "triple (at_phase tr (rechecked b)) (andthen (verify_no_critical_logs env t e1 e2) (ret b))
      (\<lambda>_. at_phase tr verified) (\<lambda>_. at_phase tr guarded)" if "installed_build_id b = available_build_id b" for b t e1 e2
  proof -
    have "verified (EvJournal (Inr x) # es)" if "rechecked b es" for x es
      unfolding verified_def using that \<open>installed_build_id b = available_build_id b\<close>
      by (intro exI [of _ "[]"] exI [of _ x] exI [of _ es] exI [of _ b]) (simp add: untouched_def)
    moreover have "guarded (EvJournal r # es)" if "rechecked b es" for r es
      using that by (simp add: guarded_event rechecked_guarded)
    ultimately have journal: "triple (at_phase tr (rechecked b))
        (handle (call env (e_journal env) EvJournal) (\<lambda>e. if e = PalworldLogError then raise e1 else raise e))
        (\<lambda>_. at_phase tr verified) (\<lambda>_. at_phase tr guarded)"
      by (intro triple_handle [where R = "\<lambda>_. at_phase tr guarded"] triple_call triple_if triple_raise)
        (auto intro: at_phase_call)
    show ?thesis
      unfolding verify_no_critical_logs_def
      by (rule triple_andthen [where R = "at_phase tr verified", OF triple_bnd [OF journal]])
        (auto intro!: triple_require triple_ret intro: at_phase_mono verified_guarded)
  qed
  have same: "triple (at_phase tr (rechecked b)) (andthen (require (installed_build_id b = available_build_id b) e)
      (andthen (verify_no_critical_logs env t e1 e2) (ret b)))
      (\<lambda>_. at_phase tr verified) (\<lambda>_. at_phase tr guarded)" for b e t e1 e2
  proof (cases "installed_build_id b = available_build_id b")
    case True
    then show ?thesis by (simp add: require_def triple_andthen [OF triple_ret journal])
  next
    case False
    then show ?thesis
      by (auto simp: triple_def wp_andthen wp_require intro: at_phase_mono rechecked_guarded)
  qed
  have outcome: "triple (\<lambda>w. at_phase tr guarded w \<and> (lr_outcome s = LIFECYCLE_SUCCEEDED \<longrightarrow> at_phase tr started w))
      (require (lr_outcome s = LIFECYCLE_SUCCEEDED) e) (\<lambda>_. at_phase tr started) (\<lambda>_. at_phase tr guarded)" for s e
    by (rule triple_require) auto
  show ?thesis
    unfolding apply_update_steps_def
    by (intro phase_then [OF ready_phase.point ready_guarded] triple_andthen [OF steam]
        phase_then [OF applied_phase.point applied_guarded] phase_bnd [OF keeps_wall_now applied_guarded]
        triple_bnd [OF start] triple_andthen [OF outcome] phase_then [OF started_phase.point started_guarded]
        triple_bnd [OF check] same)
qed

text \<open>An update that ends without an exception found the version current, or verified it.\<close>

definition accomplished :: "event list \<Rightarrow> bool" where
  "accomplished es \<longleftrightarrow> current es \<or> verified es"

lemma accomplished_guarded: "accomplished es \<Longrightarrow> guarded es"
  by (auto simp: accomplished_def current_guarded verified_guarded)

interpretation accomplished_phase: calm_phase accomplished
  unfolding accomplished_def by unfold_locales (auto intro: current_phase.log_kept verified_phase.log_kept
      current_phase.calm verified_phase.calm)

lemma steps_guarded:
  "triple (at_phase tr untouched) (update_steps env z (lifecycle_execute env) k data)
     (\<lambda>_. at_phase tr accomplished) (\<lambda>_. at_phase tr guarded)"
proof -
  have disk: "keeps (at_phase tr untouched) (if free < c then bnd (wall_now env) (\<lambda>now.
        andthen (session_scope env (enqueue_discord_notification t (Some k) now)) (raise e)) else ret ())" for free c t e
    by (intro keeps_rules keeps_at_phase_scope)
  have seen: "seen b es \<Longrightarrow> guarded es" for b es by (simp add: seen_def untouched_guarded)
  have none: "triple (at_phase tr (seen b)) (complete_no_update env k data b) (\<lambda>_. at_phase tr accomplished)
      (\<lambda>_. at_phase tr guarded)" if "installed_build_id b = available_build_id b" for b
    by (rule phase_last [OF seen_phase.completing(2)]) (use that in \<open>auto simp: accomplished_def current_def seen\<close>)
  have update: "triple (at_phase tr (seen b)) (bnd (stop_for_update env z (lifecycle_execute env) k data) (\<lambda>i.
      bnd (apply_update_steps env (lifecycle_execute env) k data) (\<lambda>a. complete_update env k data b a i)))
      (\<lambda>_. at_phase tr accomplished) (\<lambda>_. at_phase tr guarded)" for b
    by (rule phase_enter [of _ untouched])
      (auto simp: seen_def accomplished_def intro!: triple_bnd [OF stop_ready] triple_bnd [OF apply_verified]
        phase_last [OF verified_phase.completing(1)] verified_guarded)
  show ?thesis
    unfolding update_steps_def
    by (intro phase_then [OF untouched_phase.point untouched_guarded] phase_bnd [OF untouched_phase.disk untouched_guarded]
        phase_then [OF disk untouched_guarded] triple_bnd [OF steam_check_seen] phase_then [OF seen_phase.merge seen]
        triple_if none update)
qed

lemma execute_update_guarded:
  "triple (at_phase tr untouched) (execute_update env z (lifecycle_execute env) k) (\<lambda>_. at_phase tr guarded) (\<lambda>_. at_phase tr guarded)"
proof -
  have load: "keeps (at_phase tr untouched) (load_update_request env k)"
    unfolding load_update_request_def demand_int_def required_int_def required_build_id_def
    by (intro keeps_rules keeps_at_phase_scope)
  have reset: "keeps (at_phase tr untouched) (modify (\<lambda>w. w\<lparr>w_irreversible := False, w_preventive := None\<rparr>))"
    by (rule keeps_modify) (simp add: at_phase_def)
  have request: "keeps (at_phase tr untouched) (handle (bnd (load_update_request env k) (\<lambda>data. ret (Some data)))
      (\<lambda>_. andthen (fail_update env k c m False None True) (ret None)))" for c m
    by (intro keeps_rules load untouched_phase.failing)
  have body: "triple (at_phase tr untouched)
      (always (handle (update_steps env z (lifecycle_execute env) k data) (update_failed env k data)) (drop_unregistered env))
      (\<lambda>_. at_phase tr guarded) (\<lambda>_. at_phase tr guarded)" for data
  proof (rule triple_always)
    show "triple (at_phase tr untouched) (handle (update_steps env z (lifecycle_execute env) k data) (update_failed env k data))
        (\<lambda>_. at_phase tr guarded) (\<lambda>_. at_phase tr guarded)"
      by (rule triple_handle [OF triple_conseq [OF steps_guarded]])
        (auto intro: at_phase_mono accomplished_guarded keepsD [OF guarded_phase.failed])
  qed (auto intro: keepsD [OF guarded_phase.drop])
  show "triple (at_phase tr untouched) (execute_update env z (lifecycle_execute env) k) (\<lambda>_. at_phase tr guarded)
      (\<lambda>_. at_phase tr guarded)"
    unfolding execute_update_def
    by (intro phase_then [OF reset untouched_guarded] phase_bnd [OF request untouched_guarded])
      (auto split: option.split intro!: body triple_ret intro: at_phase_mono untouched_guarded)
qed

text \<open>
  C26: however an update job ends, SteamCMD was asked to change the server at most once, and only after a
  preventive backup was published, nothing else had touched the server, and the server was then stopped
  with the stop confirmed (systemd accepted it, the server was seen OFFLINE and its port closed). Only
  the job's log was written between the stop and SteamCMD.
\<close>

theorem update_apply_guarded:
  "\<exists>es. w_trace (snd (execute_update env z (lifecycle_execute env) k w)) = es @ w_trace w
     \<and> (list_all no_apply es \<or> (\<exists>after r logs stop before. es = after @ EvSteamApply r # logs @ stop @ before
          \<and> list_all no_apply after \<and> list_all log_event logs \<and> confirmed STOP stop \<and> untouched before
          \<and> (\<exists>p. EvPublished p \<in> set before)))"
proof -
  have "at_phase (w_trace w) untouched w" by (simp add: at_phase_def untouched_def)
  from tripleD [OF execute_update_guarded this]
  have "at_phase (w_trace w) guarded (snd (execute_update env z (lifecycle_execute env) k w))"
    by (simp add: wp_snd)
  then obtain es where "w_trace (snd (execute_update env z (lifecycle_execute env) k w)) = es @ w_trace w" "guarded es"
    by (auto simp: at_phase_def)
  then show ?thesis unfolding guarded_def ready_def backed_def by blast
qed

end
