(* ===== verification/UpdateSafe.thy ===== *)
theory UpdateSafe
  imports UpdateTrace
begin

text \<open>
  How an update job ends: it never stays RUNNING, a cancellation leaves the server untouched, and a
  failure after the server may have been touched is marked for a manual review. The web process may set
  the request flags of the job at any time.
\<close>

section \<open>A job the executor has started\<close>

text \<open>The web process only sets the two request flags of a job that is no longer PENDING.\<close>

definition leaves_started :: "int \<Rightarrow> env \<Rightarrow> bool" where
  "leaves_started k env \<longleftrightarrow> (\<forall>n d j. find_job k d = Some j \<longrightarrow> j_status j \<noteq> JOB_STATUS_PENDING \<longrightarrow>
     (\<exists>c x. find_job k (e_interfere env n d) = Some (j\<lparr>j_cancel_requested := c, j_execute_now_requested := x\<rparr>)))"

lemma flags_same: "j\<lparr>j_cancel_requested := j_cancel_requested j, j_execute_now_requested := j_execute_now_requested j\<rparr> = j"
  by (cases j) simp

lemma leaves_started_calm [simp]: "leaves_started k calm_env"
  unfolding leaves_started_def calm_env_simps by (intro allI impI exI) (subst flags_same, assumption)

text \<open>\<open>b\<close>: past the point of no return, where the job is no longer cancellable.\<close>

definition started_db :: "int \<Rightarrow> string \<Rightarrow> bool \<Rightarrow> db \<Rightarrow> bool" where
  "started_db k kind b d \<longleftrightarrow> (\<exists>j. find_job k d = Some j \<and> j_status j = JOB_STATUS_RUNNING \<and> j_kind j = kind
     \<and> (b \<longrightarrow> \<not> j_is_cancellable j))"

definition under_way :: "int \<Rightarrow> string \<Rightarrow> event list \<Rightarrow> bool \<Rightarrow> world \<Rightarrow> bool" where
  "under_way k kind tr b w \<longleftrightarrow> started_db k kind b (w_db w) \<and> w_irreversible w = b \<and> (b \<or> at_phase tr untouched w)"

lemma started_interfere:
  assumes "leaves_started k env" and "started_db k kind b d"
  shows "started_db k kind b (e_interfere env n d)"
proof -
  from assms(2) obtain j where j: "find_job k d = Some j" "j_status j = JOB_STATUS_RUNNING" "j_kind j = kind"
    "b \<longrightarrow> \<not> j_is_cancellable j" by (auto simp: started_db_def)
  then obtain c x where "find_job k (e_interfere env n d) = Some (j\<lparr>j_cancel_requested := c, j_execute_now_requested := x\<rparr>)"
    using assms(1) unfolding leaves_started_def by fastforce
  then show ?thesis using j by (auto simp: started_db_def)
qed

text \<open>What cannot happen any more past the point of no return.\<close>

definition lost :: "bool \<Rightarrow> exn set" where
  "lost b = (if b then {UpdateCancelledError} else {})"

lemma under_way_scope:
  assumes "leaves_started k env"
    and "\<And>d. started_db k kind b d \<Longrightarrow> wp tx (\<lambda>_. started_db k kind b) (\<lambda>e _. e \<notin> lost b) d"
  shows "avoids (lost b) (under_way k kind tr b) (session_scope env tx)"
  unfolding avoids_def
proof (rule triple_scope)
  fix w
  assume w: "under_way k kind tr b w"
  let ?d = "e_interfere env (w_tick w) (w_db w)"
  have d: "started_db k kind b ?d"
    using started_interfere [OF assms(1)] w by (simp add: under_way_def)
  show "wp tx (\<lambda>x d'. under_way k kind tr b (after_scope w d'))
      (\<lambda>e _. under_way k kind tr b (after_scope w ?d) \<and> e \<notin> lost b) ?d"
    by (rule wp_mono [OF assms(2) [OF d]]) (use w d in \<open>auto simp: under_way_def at_phase_def\<close>)
qed

lemma under_way_read:
  assumes "leaves_started k env" and "\<And>j. j_kind j = kind \<Longrightarrow> wp (f j) (\<lambda>_ d'. d' = d) (\<lambda>e _. e \<notin> lost b) d"
  shows "started_db k kind b d \<Longrightarrow> wp (bnd (get_one_job k) f) (\<lambda>_. started_db k kind b) (\<lambda>e _. e \<notin> lost b) d"
proof -
  assume s: "started_db k kind b d"
  then obtain j where j: "find_job k d = Some j" "j_kind j = kind" by (auto simp: started_db_def)
  from s show "wp (bnd (get_one_job k) f) (\<lambda>_. started_db k kind b) (\<lambda>e _. e \<notin> lost b) d"
    by (simp add: wp_bnd wp_get_one_job j(1)) (rule wp_mono [OF assms(2) [OF j(2)]], auto)
qed

interpretation under_way_files: retention_frame "under_way k kind tr b" env for k kind tr b env
proof unfold_locales
  fix ev w a d
  assume ev: "file_event ev"
  have un: "untouched (ev # es)" if "untouched es" for es
    using that file_no_server [OF ev] by (simp add: untouched_def)
  show "under_way k kind tr b (after_call env ev w)" if "under_way k kind tr b w"
    using that by (auto simp: under_way_def intro: at_phase_call un)
  show "under_way k kind tr b (w\<lparr>w_artifacts := a, w_trace := ev # w_trace w\<rparr>)" if "under_way k kind tr b w"
    using that at_phase_event [of tr untouched w untouched ev] un by (auto simp: under_way_def at_phase_def)
qed (auto simp: under_way_def started_db_def find_job_def at_phase_def)

lemma under_way_call:
  assumes "F \<subseteq> {Diverges, UpdateCancelledError}" and "\<And>r. b \<or> no_server (ev r)"
  shows "avoids F (under_way k kind tr b) (call env f ev)"
  by (rule avoids_call [OF assms(1)])
    (use assms(2) in \<open>auto simp: under_way_def untouched_def intro: at_phase_call\<close>)

lemma lost_sub: "lost b \<subseteq> {Diverges, UpdateCancelledError}"
  by (simp add: lost_def)

lemma avoids_any: "avoids (lost False) P m = keeps P m"
  by (simp add: avoids_def keeps_def lost_def)

section \<open>The steps of an update\<close>

lemma append_under_way:
  assumes "leaves_started k env"
  shows "avoids (lost b) (under_way k kind tr b) (append_update_log env k m)"
  unfolding append_update_log_def
proof (intro avoids_rules avoids_modify under_way_scope [OF assms])
  show "wp (bnd (get_one_job k) (\<lambda>j. ret (j_log_path j))) (\<lambda>_. started_db k kind b) (\<lambda>e _. e \<notin> lost b) d"
    if "started_db k kind b d" for d
    by (rule under_way_read [OF assms _ that]) (simp add: wp_ret)
  show "under_way k kind tr b (w\<lparr>w_trace := EvLog p m # w_trace w\<rparr>)" if "under_way k kind tr b w" for w p
    using that at_phase_event [of tr untouched w untouched "EvLog p m"] by (auto simp: under_way_def untouched_def)
qed

lemma point_under_way:
  assumes "leaves_started k env" and "b \<longrightarrow> \<not> c"
  shows "avoids (lost b) (under_way k kind tr b) (update_checkpoint env k s n c)"
  unfolding update_checkpoint_def
proof (intro avoids_rules append_under_way under_way_scope assms(1))
  fix d
  assume "started_db k kind b d"
  then obtain j where j: "find_job k d = Some j" "j_status j = JOB_STATUS_RUNNING" "j_kind j = kind"
    "b \<longrightarrow> \<not> j_is_cancellable j" by (auto simp: started_db_def)
  then show "wp (bnd (get_one_job k) (\<lambda>j. andthen (checkpoint_tx UpdateCancelledError k s n c) (ret (j_step j \<noteq> s))))
      (\<lambda>_. started_db k kind b) (\<lambda>e _. e \<notin> lost b) d"
    using find_job_id [OF j(1)] assms(2)
    by (auto simp: checkpoint_tx_def wp_bnd wp_andthen wp_get_one_job wp_require wp_put_job wp_ret started_db_def lost_def)
qed

lemma merge_under_way:
  assumes "leaves_started k env"
  shows "avoids (lost b) (under_way k kind tr b) (merge_result env k v)"
  unfolding merge_result_def
proof (rule under_way_scope [OF assms])
  fix d
  assume "started_db k kind b d"
  then obtain j where j: "find_job k d = Some j" "j_status j = JOB_STATUS_RUNNING" "j_kind j = kind"
    "b \<longrightarrow> \<not> j_is_cancellable j" by (auto simp: started_db_def)
  then show "wp (update_job k (\<lambda>j. j\<lparr>j_result := Some (dict_merge (dict_of (j_result j)) v)\<rparr>))
      (\<lambda>_. started_db k kind b) (\<lambda>e _. e \<notin> lost b) d"
    using find_job_id [OF j(1)] by (simp add: wp_update_job started_db_def)
qed

section \<open>The countdown is the point of no return\<close>

text \<open>
  A countdown control that separates two states: \<open>Before\<close> holds until the control marks the operation,
  \<open>After\<close> from then on, and an executor that raises no cancellation of its own.
\<close>

locale committing_client = assisted_client exec ctl
  for exec :: lifecycle_executor and ctl :: countdown_control +
  fixes Before After :: "world \<Rightarrow> bool" and env :: env
  assumes update_before: "keeps Before (c_update ctl r t)"
    and mark_commits: "triple Before (c_mark_irreversible ctl) (\<lambda>d. if d = CANCEL then Before else After) (\<lambda>_. Before)"
    and chat_before: "chat_event ev \<Longrightarrow> Before w \<Longrightarrow> Before (after_call env ev w)"
    and chat_after: "chat_event ev \<Longrightarrow> After w \<Longrightarrow> After (after_call env ev w)"
    and clock_before: "Before w \<Longrightarrow> Before (w\<lparr>w_tick := n, w_clock := c\<rparr>)"
    and frame_after: "After w \<Longrightarrow> lifecycle_frame w w' es \<Longrightarrow> After w'"
    and exec_avoids: "avoids {UpdateCancelledError} (\<lambda>_. True) (exec action t)"
begin

lemma chats:
  "keeps Before (online_player_count env)" "keeps Before (announce env m)" "keeps After (announce env m)"
  "avoids {UpdateCancelledError} After (announce env m)"
  unfolding online_player_count_def announce_def
  by (auto intro!: keeps_call avoids_call chat_before chat_after simp: chat_event_def)

lemma before_countdown: "keeps Before (countdown env ctl players whole n)"
  by (induction n) (auto intro!: keeps_rules keeps_try_rest chats update_before keeps_sleep clock_before)

lemma stop_after: "avoids {UpdateCancelledError} After (exec STOP t)"
  using avoids_both [OF exec_avoids keepsD [OF exec_keeps_only [of After, OF frame_after]]] by (simp add: avoids_def)

lemma assisted_commits:
  "triple Before (assisted_shutdown env exec minutes t ctl)
     (\<lambda>r w. if sr_outcome r = SHUTDOWN_CANCELLED then Before w
        else if sr_outcome r = SHUTDOWN_SUCCEEDED then After w else Before w \<or> After w)
     (\<lambda>e w. Before w \<or> After w \<and> e \<noteq> UpdateCancelledError)"
  (is "triple Before _ ?Q ?E")
proof -
  have before: "triple Before m (\<lambda>_. Before) ?E" if "keeps Before m" for m :: "(world, 'b) prog"
    by (rule triple_conseq [OF keepsD [OF that]]) auto
  have cancelled: "triple Before (ret (cancelled_result p)) ?Q ?E" for p
    by (rule triple_ret) (simp add: cancelled_result_def)
  have failed: "triple Before (ret (communication_failed p)) ?Q ?E" "triple After (ret (communication_failed p)) ?Q ?E" for p
    by (rule triple_ret, simp add: communication_failed_def)+
  have late: "avoids {UpdateCancelledError} After (if players \<noteq> 0
      then try_rest (announce env m) else ret (Some ()))" for players :: int and m
    unfolding try_rest_def by (intro avoids_rules chats) simp
  have stop: "triple After (bnd (exec STOP t) (\<lambda>r. ret
        \<lparr>sr_outcome = (if lr_outcome r = LIFECYCLE_SUCCEEDED then SHUTDOWN_SUCCEEDED else SHUTDOWN_FAILED),
         sr_online_players = Some players, sr_timed_out = lr_timed_out r,
         sr_final_state = Some (lr_final_state r),
         sr_failure = (if lr_outcome r = LIFECYCLE_SUCCEEDED then None else Some ''stop_failed'')\<rparr>)) ?Q ?E" for players
    by (rule triple_bnd [where R = "\<lambda>_. After"])
      (auto intro!: triple_ret intro: triple_conseq [OF stop_after [unfolded avoids_def]])
  have marked: "triple (if d = CANCEL then Before else After)
      (if d = CANCEL then ret (cancelled_result players)
       else bnd (if players \<noteq> 0 then try_rest (announce env m) else ret (Some ())) (\<lambda>announced. case announced of
           None \<Rightarrow> ret (communication_failed (Some players))
         | Some _ \<Rightarrow> bnd (exec STOP t) (\<lambda>r. ret
        \<lparr>sr_outcome = (if lr_outcome r = LIFECYCLE_SUCCEEDED then SHUTDOWN_SUCCEEDED else SHUTDOWN_FAILED),
         sr_online_players = Some players, sr_timed_out = lr_timed_out r,
         sr_final_state = Some (lr_final_state r),
         sr_failure = (if lr_outcome r = LIFECYCLE_SUCCEEDED then None else Some ''stop_failed'')\<rparr>))) ?Q ?E" for d players m
  proof (cases "d = CANCEL")
    case False
    have "triple After (if players \<noteq> 0 then try_rest (announce env m) else ret (Some ())) (\<lambda>_. After) ?E"
      by (rule triple_conseq [OF late [unfolded avoids_def]]) auto
    then show ?thesis using False by (simp add: triple_bnd triple_case_option failed stop)
  qed (simp add: cancelled)
  show ?thesis
    unfolding assisted_shutdown_def
    apply (rule triple_andthen [OF before], rule keeps_require)
    apply (rule triple_bnd [OF before], intro keeps_rules keeps_try_rest chats)
    apply (rule triple_case_option, rule failed)
    apply (rule triple_bnd [OF before], rule before_countdown)
    apply (rule triple_if, rule cancelled)
    apply (rule triple_bnd [OF triple_conseq [OF mark_commits] marked], assumption+, simp)
    done
qed

end

lemma lifecycle_avoids: "avoids {UpdateCancelledError} (\<lambda>_. True) (lifecycle_execute env action t)"
proof -
  have port: "avoids {UpdateCancelledError} (\<lambda>_. True) (port_open env)"
    by (rule avoidsI) (simp add: wp_port_open Let_def)
  have "avoids {UpdateCancelledError} (\<lambda>_. True) (lifecycle_poll env n action d ob)" for n d ob
    by (induction n arbitrary: ob)
      (auto simp: health_check_def reached_target_def Let_def sleep_def
        intro!: avoids_rules avoids_call avoids_modify port)
  then show ?thesis
    unfolding lifecycle_execute_def health_check_def control_def
    by (intro avoids_rules avoids_call) simp_all
qed

lemma countdown_tx_under_way:
  assumes "started_db k kind False d"
  shows "wp (update_countdown_tx k r t) (\<lambda>_. started_db k kind False) (\<lambda>_ _. True) d"
proof -
  from assms obtain j where j: "find_job k d = Some j" "j_status j = JOB_STATUS_RUNNING" "j_kind j = kind"
    by (auto simp: started_db_def)
  then show ?thesis
    using find_job_id [OF j(1)]
    by (simp add: update_countdown_tx_def wp_bnd wp_andthen wp_get_one_job wp_put_job wp_ret started_db_def)
qed

lemma mark_update_under_way:
  assumes "started_db k kind False d"
  shows "wp (mark_update_tx k) (\<lambda>directive d'. if directive = CANCEL then d' = d else started_db k kind True d' \<and> directive = CONTINUE)
    (\<lambda>_ _. False) d"
proof -
  from assms obtain j where j: "find_job k d = Some j" "j_status j = JOB_STATUS_RUNNING" "j_kind j = kind"
    by (auto simp: started_db_def)
  then show ?thesis
    using find_job_id [OF j(1)]
    by (simp add: mark_update_tx_def wp_bnd wp_andthen wp_get_one_job wp_put_job wp_ret wp_reads wp_if wp_Let started_db_def)
qed

lemma under_way_mark:
  assumes "leaves_started k env"
  shows "triple (under_way k kind tr False) (c_mark_irreversible (update_countdown_control env k))
    (\<lambda>d. if d = CANCEL then under_way k kind tr False else under_way k kind tr True) (\<lambda>_. under_way k kind tr False)"
proof (rule tripleI)
  fix w :: world
  let ?d = "e_interfere env (w_tick w) (w_db w)"
  assume w: "under_way k kind tr False w"
  then have d: "started_db k kind False ?d" using started_interfere [OF assms] by (simp add: under_way_def)
  show "wp (c_mark_irreversible (update_countdown_control env k))
      (\<lambda>d. if d = CANCEL then under_way k kind tr False else under_way k kind tr True)
      (\<lambda>_. under_way k kind tr False) w"
    unfolding update_countdown_control_def countdown_control.select_convs wp_session_block Let_def wp_bnd wp_on_db
    by (rule wp_mono [OF mark_update_under_way])
      (use w d in \<open>auto simp: wp_simps under_way_def at_phase_def split: if_splits\<close>)
qed

definition update_stage :: "int \<Rightarrow> env \<Rightarrow> event list \<Rightarrow> bool \<Rightarrow> world \<Rightarrow> bool" where
  "update_stage k env tr b w \<longleftrightarrow> leaves_started k env \<and> under_way k UPDATE_JOB_KIND tr b w"

lemma stage_triple:
  assumes "leaves_started k env \<Longrightarrow> triple (under_way k UPDATE_JOB_KIND tr b) m Q E"
  shows "triple (update_stage k env tr b) m (\<lambda>x w. leaves_started k env \<and> Q x w) (\<lambda>e w. leaves_started k env \<and> E e w)"
  using assms unfolding triple_def update_stage_def by (auto intro: wp_mono)

lemma chat_event_no_server: "chat_event ev \<Longrightarrow> no_server ev"
  using chat_no_server [of "[ev]"] by simp

interpretation update_committing: committing_client "lifecycle_execute env" "update_countdown_control env k"
  "update_stage k env tr False" "update_stage k env tr True" env for k tr env
proof unfold_locales
  fix r t
  have "keeps (under_way k UPDATE_JOB_KIND tr False) (c_update (update_countdown_control env k) r t)"
    if env: "leaves_started k env"
    unfolding update_countdown_control_def countdown_control.select_convs
    by (rule avoids_keeps [OF under_way_scope [OF env]], rule wp_mono [OF countdown_tx_under_way]) (auto simp: lost_def)
  from stage_triple [of k env, OF keepsD [OF this]]
  show "keeps (update_stage k env tr False) (c_update (update_countdown_control env k) r t)"
    unfolding keeps_def update_stage_def by simp
next
  show "triple (update_stage k env tr False) (c_mark_irreversible (update_countdown_control env k))
      (\<lambda>d. if d = CANCEL then update_stage k env tr False else update_stage k env tr True)
      (\<lambda>_. update_stage k env tr False)"
    by (rule triple_conseq [OF stage_triple [OF under_way_mark]]) (auto simp: update_stage_def)
next
  fix ev w
  assume ev: "chat_event ev"
  show "update_stage k env tr False w \<Longrightarrow> update_stage k env tr False (after_call env ev w)"
    using chat_event_no_server [OF ev]
    by (auto simp: update_stage_def under_way_def untouched_def intro: at_phase_call)
  show "update_stage k env tr True w \<Longrightarrow> update_stage k env tr True (after_call env ev w)"
    by (simp add: update_stage_def under_way_def)
next
  fix w n c
  show "update_stage k env tr False w \<Longrightarrow> update_stage k env tr False (w\<lparr>w_tick := n, w_clock := c\<rparr>)"
    by (simp add: update_stage_def under_way_def at_phase_def)
next
  fix w w' es
  show "update_stage k env tr True w \<Longrightarrow> lifecycle_frame w w' es \<Longrightarrow> update_stage k env tr True w'"
    by (simp add: update_stage_def under_way_def lifecycle_frame_def)
qed (rule lifecycle_avoids)

section \<open>Ending the job\<close>

definition marked_for_review :: "int \<Rightarrow> db \<Rightarrow> bool" where
  "marked_for_review k d \<longleftrightarrow> (\<exists>j. find_job k d = Some j
     \<and> dict_get (dict_of (j_result j)) ''requires_manual_review'' = Some (JBool True))"

definition ended :: "int \<Rightarrow> event list \<Rightarrow> world \<Rightarrow> bool" where
  "ended k tr w \<longleftrightarrow> job_is k JOB_STATUS_SUCCEEDED (w_db w) \<and> at_phase tr accomplished w
     \<or> job_is k JOB_STATUS_CANCELLED (w_db w) \<and> at_phase tr untouched w
     \<or> job_is k JOB_STATUS_FAILED (w_db w) \<and> (at_phase tr untouched w \<or> marked_for_review k (w_db w))"

lemma ended_db_stays:
  assumes "leaves_started k env"
  shows "st \<noteq> JOB_STATUS_PENDING \<Longrightarrow> job_is k st d \<Longrightarrow> job_is k st (e_interfere env n d)"
    and "job_is k JOB_STATUS_FAILED d \<Longrightarrow> marked_for_review k d \<Longrightarrow> marked_for_review k (e_interfere env n d)"
  using assms unfolding leaves_started_def job_is_def marked_for_review_def by fastforce+

lemma ended_event:
  assumes "no_server ev" and "ended k tr w" and "w_trace w' = ev # w_trace w" and "w_db w' = w_db w"
  shows "ended k tr w'"
proof -
  have kept: "at_phase tr P w \<Longrightarrow> at_phase tr P w'" if "\<And>es. P es \<Longrightarrow> P (ev # es)" for P
    using assms(3) that unfolding at_phase_def by (metis append_Cons)
  have "at_phase tr accomplished w \<Longrightarrow> at_phase tr accomplished w'" "at_phase tr untouched w \<Longrightarrow> at_phase tr untouched w'"
    by (erule kept [rotated], erule accomplished_phase.calm [OF assms(1)])
      (erule kept [rotated], erule untouched_phase.calm [OF assms(1)])
  then show ?thesis using assms(2,4) unfolding ended_def by auto
qed

interpretation ended_files: file_frame "ended k tr" env for k tr env
  by unfold_locales (auto intro: ended_event file_no_server)

lemma ended_append:
  assumes "leaves_started k env"
  shows "keeps (ended k tr) (append_update_log env k m)"
proof -
  have "keeps (ended k tr) (session_scope env (bnd (get_one_job k) (\<lambda>j. ret (j_log_path j))))"
  proof -
    have "ended k tr (after_scope w (e_interfere env (w_tick w) (w_db w)))" if "ended k tr w" for w
      using that ended_db_stays(1) [OF assms, of _ "w_db w" "w_tick w"] ended_db_stays(2) [OF assms, of "w_db w" "w_tick w"] by (auto simp: ended_def at_phase_def)
    then show ?thesis
      by (auto simp: keeps_def triple_def wp_session_scope Let_def wp_bnd wp_get_one_job wp_ret split: option.split)
  qed
  then show ?thesis
    unfolding append_update_log_def
    by (intro keeps_rules keeps_modify) (auto intro: ended_event [of "EvLog _ m"])
qed

lemma under_way_last:
  assumes "leaves_started k env"
    and "\<And>d. started_db k kind b d \<Longrightarrow> wp tx (\<lambda>_. Q) (\<lambda>_ _. False) d"
    and "\<And>w d. Q d \<Longrightarrow> b \<or> at_phase tr untouched w \<Longrightarrow> E (after_scope w d)"
  shows "triple (under_way k kind tr b) (session_scope env tx) (\<lambda>_. E) (\<lambda>_ _. False)"
proof (rule triple_scope)
  fix w
  assume w: "under_way k kind tr b w"
  then have "started_db k kind b (e_interfere env (w_tick w) (w_db w))"
    using started_interfere [OF assms(1)] by (simp add: under_way_def)
  from assms(2) [OF this]
  show "wp tx (\<lambda>x d'. E (after_scope w d')) (\<lambda>_ _. False) (e_interfere env (w_tick w) (w_db w))"
    by (rule wp_mono) (use w assms(3) in \<open>auto simp: under_way_def\<close>)
qed

lemma update_notifications: "''UPDATE_FAILED'' \<in> set SUPPORTED_DISCORD_EVENT_TYPES"
  "''UPDATE_COMPLETED'' \<in> set SUPPORTED_DISCORD_EVENT_TYPES"
  by code_simp+

lemma fail_ends:
  assumes "leaves_started k env"
  shows "triple (under_way k UPDATE_JOB_KIND tr b) (fail_update env k c m b i n) (\<lambda>_. ended k tr) (\<lambda>_. ended k tr)"
proof -
  have tx: "wp (failed_update_tx k c m b i n now)
      (\<lambda>_ d. job_is k JOB_STATUS_FAILED d \<and> (b \<longrightarrow> marked_for_review k d)) (\<lambda>_ _. False) d"
    if "started_db k UPDATE_JOB_KIND b d" for d now
  proof -
    from that obtain j where j: "find_job k d = Some j" "j_kind j = UPDATE_JOB_KIND" by (auto simp: started_db_def)
    then show ?thesis
      using find_job_id [OF j(1)]
      by (simp add: failed_update_tx_def wp_bnd wp_andthen wp_get_one_job wp_put_job wp_record_audit_event' wp_if wp_ret
          wp_enqueue_discord update_notifications job_is_def marked_for_review_def dict_of_def dict_get_merge
          UPDATE_JOB_KIND_def UPDATE_CHECK_JOB_KIND_def)
  qed
  have "triple (under_way k UPDATE_JOB_KIND tr b) (session_scope env (failed_update_tx k c m b i n now))
      (\<lambda>_. ended k tr) (\<lambda>_ _. False)" for now
    by (rule under_way_last [OF assms tx]) (auto simp: ended_def at_phase_def)
  note scope = triple_conseq [OF this]
  show ?thesis
    unfolding fail_update_def
    by (rule triple_bnd [OF triple_wall_now [where Q = "\<lambda>_. under_way k UPDATE_JOB_KIND tr b"]], assumption,
        rule triple_andthen [OF scope keepsD [OF ended_append [OF assms]]]) auto
qed

lemma cancel_ends:
  assumes "leaves_started k env"
  shows "triple (under_way k UPDATE_JOB_KIND tr False) (cancel_update env k data i) (\<lambda>_. ended k tr) (\<lambda>_. ended k tr)"
proof -
  have tx: "wp (bnd (get_one_job k) (\<lambda>j. mark_update_cancelled j r now)) (\<lambda>_ d. job_is k JOB_STATUS_CANCELLED d)
      (\<lambda>_ _. False) d" if "started_db k UPDATE_JOB_KIND False d" for d now r
  proof -
    from that obtain j where j: "find_job k d = Some j" by (auto simp: started_db_def)
    then show ?thesis
      using find_job_id [OF j(1)]
      by (simp add: mark_update_cancelled_def wp_bnd wp_andthen wp_get_one_job wp_put_job wp_record_audit_event' job_is_def)
  qed
  have "triple (under_way k UPDATE_JOB_KIND tr False) (session_scope env (bnd (get_one_job k) (\<lambda>j. mark_update_cancelled j r now)))
      (\<lambda>_. ended k tr) (\<lambda>_ _. False)" for now r
    by (rule under_way_last [OF assms tx]) (auto simp: ended_def at_phase_def)
  note scope = triple_conseq [OF this]
  show ?thesis
    unfolding cancel_update_def
    by (rule triple_bnd [OF triple_wall_now [where Q = "\<lambda>_. under_way k UPDATE_JOB_KIND tr False"]], assumption,
        rule triple_andthen [OF scope keepsD [OF ended_append [OF assms]]]) auto
qed

section \<open>The whole update\<close>

lemma under_way_block:
  assumes "leaves_started k env" and "keeps (under_way k kind tr b) m"
  shows "keeps (under_way k kind tr b) (session_block env m)"
  unfolding keeps_def
proof (rule tripleI)
  fix w :: world
  let ?d = "e_interfere env (w_tick w) (w_db w)"
  assume w: "under_way k kind tr b w"
  then have d: "started_db k kind b ?d" using started_interfere [OF assms(1)] by (simp add: under_way_def)
  then have "under_way k kind tr b (after_scope w ?d)" using w by (simp add: under_way_def at_phase_def)
  from tripleD [OF keepsD [OF assms(2)] this]
  show "wp (session_block env m) (\<lambda>_. under_way k kind tr b) (\<lambda>_. under_way k kind tr b) w"
    unfolding wp_session_block Let_def by (rule wp_mono) (use d in \<open>auto simp: under_way_def at_phase_def\<close>)
qed

lemma under_way_preventive: "under_way k kind tr b w \<Longrightarrow> under_way k kind tr b (w\<lparr>w_preventive := p\<rparr>)"
  by (simp add: under_way_def at_phase_def)

lemma register_under_way:
  assumes "leaves_started k env"
  shows "keeps (under_way k kind tr b) (register_preventive env z k a pres target role)"
  unfolding register_preventive_def
  by (intro under_way_block [OF assms] keeps_rules keeps_modify under_way_files.retention under_way_files.register
      under_way_files.settings under_way_files.audit under_way_preventive)

abbreviation updating :: "int \<Rightarrow> event list \<Rightarrow> bool \<Rightarrow> world \<Rightarrow> bool" where
  "updating k tr b \<equiv> under_way k UPDATE_JOB_KIND tr b"

definition broken_off :: "int \<Rightarrow> event list \<Rightarrow> exn \<Rightarrow> world \<Rightarrow> bool" where
  "broken_off k tr e w \<longleftrightarrow> updating k tr False w \<or> updating k tr True w \<and> e \<noteq> UpdateCancelledError"

lemma early: "keeps (updating k tr False) m \<Longrightarrow> triple (updating k tr False) m (\<lambda>_. updating k tr False) (broken_off k tr)"
  unfolding keeps_def by (erule triple_conseq) (auto simp: broken_off_def)

lemma late:
  "avoids (lost True) (updating k tr True) m \<Longrightarrow> triple (updating k tr True) m (\<lambda>_. updating k tr True) (broken_off k tr)"
  unfolding avoids_def by (erule triple_conseq) (auto simp: broken_off_def lost_def)

lemma stop_under_way:
  assumes env: "leaves_started k env"
  shows "triple (updating k tr False) (stop_for_update env z (lifecycle_execute env) k data) (\<lambda>_. updating k tr True)
    (broken_off k tr)"
proof -
  note first = avoids_keeps [OF append_under_way [OF env, of False]] avoids_keeps [OF point_under_way [OF env, of False]]
    avoids_keeps [OF merge_under_way [OF env, of False]] register_under_way [OF env]
  have backup: "keeps (updating k tr False) (preventive_backup env k)"
    unfolding preventive_backup_def
    by (intro keeps_rules under_way_files.create first keeps_modify under_way_preventive) simp
  have reset: "keeps (updating k tr False) (modify (\<lambda>w. w\<lparr>w_irreversible := False\<rparr>))"
    by (rule keeps_modify) (simp add: under_way_def at_phase_def)
  have shutdown: "triple (updating k tr False) (assisted_shutdown env (lifecycle_execute env) m t (update_countdown_control env k))
      (\<lambda>r w. if sr_outcome r = SHUTDOWN_CANCELLED then updating k tr False w
         else if sr_outcome r = SHUTDOWN_SUCCEEDED then updating k tr True w else updating k tr False w \<or> updating k tr True w)
      (broken_off k tr)" for m t
    by (rule triple_conseq [OF update_committing.assisted_commits [of k env tr]])
      (use env in \<open>auto simp: update_stage_def broken_off_def split: if_splits\<close>)
  have outcome: "triple (\<lambda>w. if sr_outcome s = SHUTDOWN_CANCELLED then updating k tr False w
         else if sr_outcome s = SHUTDOWN_SUCCEEDED then updating k tr True w else updating k tr False w \<or> updating k tr True w)
      (andthen (require (sr_outcome s \<noteq> SHUTDOWN_CANCELLED) UpdateCancelledError)
        (andthen (require (sr_outcome s = SHUTDOWN_SUCCEEDED) (UpdateExecutionError c m)) (ret i)))
      (\<lambda>_. updating k tr True) (broken_off k tr)" for s i c m
    by (auto simp: triple_def wp_simps broken_off_def)
  show ?thesis
    unfolding stop_for_update_def
    by (intro triple_andthen [OF early] triple_bnd [OF early] triple_bnd [OF shutdown] outcome first backup reset)
      simp_all
qed

lemma apply_under_way:
  assumes env: "leaves_started k env"
  shows "avoids (lost True) (updating k tr True) (apply_update_steps env (lifecycle_execute env) k data)"
proof -
  have "keeps (updating k tr True) (lifecycle_execute env START t)" for t
    by (rule palworld_lifecycle.exec_keeps_only) (simp add: under_way_def lifecycle_frame_def)
  from avoids_both [OF lifecycle_avoids keepsD [OF this]]
  have start: "avoids (lost True) (updating k tr True) (lifecycle_execute env START t)" for t
    by (simp add: avoids_def lost_def)
  show ?thesis
    unfolding apply_update_steps_def steamcmd_apply_def steamcmd_check_def verify_no_critical_logs_def
    by (intro avoids_rules point_under_way [OF env] under_way_call lost_sub start) (simp_all add: lost_def)
qed

lemma succeeded_append:
  assumes "leaves_started k env"
  shows "triple (in_db (job_is k JOB_STATUS_SUCCEEDED)) (append_update_log env k m) (\<lambda>_. in_db (job_is k JOB_STATUS_SUCCEEDED))
    (\<lambda>_ _. False)"
proof -
  have stable: "stable env (job_is k JOB_STATUS_SUCCEEDED)"
    using ended_db_stays(1) [OF assms] by (auto simp: stable_def)
  have "triple (in_db (job_is k JOB_STATUS_SUCCEEDED)) (session_scope env (bnd (get_one_job k) (\<lambda>j. ret (j_log_path j))))
      (\<lambda>_. in_db (job_is k JOB_STATUS_SUCCEEDED)) (\<lambda>_ _. False)"
    by (rule triple_conseq [OF scope_sure [OF stable, where Q = "\<lambda>_. job_is k JOB_STATUS_SUCCEEDED"]])
      (auto simp: wp_bnd wp_get_one_job wp_ret job_is_def in_db_def)
  then show ?thesis
    unfolding append_update_log_def
    by (rule triple_bnd) (auto simp: triple_def wp_simps split: option.split)
qed

lemma complete_under_way:
  assumes env: "leaves_started k env"
  shows "triple (updating k tr True) (complete_update env k data before after i) (\<lambda>_. in_db (job_is k JOB_STATUS_SUCCEEDED)) (broken_off k tr)"
    and "triple (updating k tr False) (complete_no_update env k data before) (\<lambda>_. in_db (job_is k JOB_STATUS_SUCCEEDED)) (broken_off k tr)"
proof -
  have tx: "wp (complete_update_tx k r details n now) (\<lambda>_ d. job_is k JOB_STATUS_SUCCEEDED d) (\<lambda>_ _. False) d"
    if "started_db k UPDATE_JOB_KIND b d" "n = [] \<or> n = ''UPDATE_COMPLETED''" for b d r details n now
  proof -
    from that obtain j where j: "find_job k d = Some j" by (auto simp: started_db_def)
    then show ?thesis
      using find_job_id [OF j(1)] that(2)
      by (auto simp: complete_update_tx_def wp_andthen wp_update_job wp_record_audit_event' wp_if wp_ret wp_enqueue_discord
          update_notifications job_is_def)
  qed
  have scope: "triple (updating k tr b) (session_scope env (complete_update_tx k r details n now))
      (\<lambda>_. in_db (job_is k JOB_STATUS_SUCCEEDED)) (broken_off k tr)" if "n = [] \<or> n = ''UPDATE_COMPLETED''" for b r details n now
    by (rule triple_conseq [OF under_way_last [OF env tx]]) (use that in \<open>auto simp: in_db_def\<close>)
  show "triple (updating k tr True) (complete_update env k data before after i) (\<lambda>_. in_db (job_is k JOB_STATUS_SUCCEEDED)) (broken_off k tr)"
    unfolding complete_update_def
    by (rule triple_bnd [OF triple_wall_now [where Q = "\<lambda>_. updating k tr True"]], assumption,
        rule triple_andthen [OF scope triple_conseq [OF succeeded_append [OF env]]]) auto
  show "triple (updating k tr False) (complete_no_update env k data before) (\<lambda>_. in_db (job_is k JOB_STATUS_SUCCEEDED)) (broken_off k tr)"
    unfolding complete_no_update_def
    by (rule triple_bnd [OF triple_wall_now [where Q = "\<lambda>_. updating k tr False"]], assumption, rule scope) simp
qed

lemma steps_under_way:
  assumes env: "leaves_started k env"
  shows "triple (updating k tr False) (update_steps env z (lifecycle_execute env) k data)
    (\<lambda>_. in_db (job_is k JOB_STATUS_SUCCEEDED)) (broken_off k tr)"
proof -
  note first = avoids_keeps [OF point_under_way [OF env, of False]] avoids_keeps [OF merge_under_way [OF env, of False]]
  have calls: "keeps (updating k tr False) (disk_free env)" "keeps (updating k tr False) (steamcmd_check env)"
    unfolding disk_free_def steamcmd_check_def by (rule avoids_keeps [OF under_way_call [OF lost_sub]], simp)+
  have notify: "keeps (updating k tr False) (session_scope env (enqueue_discord_notification ''DISK_CRITICAL'' (Some k) now))" for now
  proof -
    have "''DISK_CRITICAL'' \<in> set SUPPORTED_DISCORD_EVENT_TYPES" by code_simp
    then show ?thesis
      by (intro avoids_keeps [OF under_way_scope [OF env]]) (simp add: wp_enqueue_discord started_db_def find_job_def)
  qed
  have disk: "keeps (updating k tr False) (if free < c then bnd (wall_now env) (\<lambda>now.
        andthen (session_scope env (enqueue_discord_notification ''DISK_CRITICAL'' (Some k) now)) (raise e)) else ret ())" for free c e
    by (intro keeps_rules notify)
  show ?thesis
    unfolding update_steps_def
    by (intro triple_andthen [OF early] triple_bnd [OF early] first calls disk triple_if complete_under_way [OF env]
        triple_bnd [OF stop_under_way [OF env]] triple_bnd [OF late [OF apply_under_way [OF env]]])
      simp_all
qed

lemma failed_ends:
  assumes env: "leaves_started k env"
  shows "triple (broken_off k tr e) (update_failed env k data e) (\<lambda>_. ended k tr) (\<lambda>_. ended k tr)"
proof (rule tripleI)
  fix w
  assume "broken_off k tr e w"
  then obtain b where w: "updating k tr b w" and e: "b \<longrightarrow> e \<noteq> UpdateCancelledError" by (auto simp: broken_off_def)
  have b: "w_irreversible w = b" using w by (simp add: under_way_def)
  show "wp (update_failed env k data e) (\<lambda>_. ended k tr) (\<lambda>_. ended k tr) w"
  proof (cases "e = UpdateCancelledError")
    case True
    with e w have "updating k tr False w" by simp
    then show ?thesis using True by (simp add: update_failed_def wp_bnd wp_reads tripleD [OF cancel_ends [OF env]])
  next
    case False
    then show ?thesis
      using w b by (cases e) (simp_all add: update_failed_def wp_bnd wp_reads tripleD [OF fail_ends [OF env]])
  qed
qed

lemma load_under_way:
  assumes env: "leaves_started k env"
  shows "keeps (updating k tr False) (load_update_request env k)"
proof -
  have "keeps (updating k tr False) (session_scope env (bnd (get_one_job k) (\<lambda>j.
      andthen (require (j_kind j = UPDATE_JOB_KIND \<and> j_status j = JOB_STATUS_RUNNING) ValueError) (ret (dict_of (j_result j))))))"
    by (rule avoids_keeps [OF under_way_scope [OF env]], erule under_way_read [OF env, rotated])
      (auto simp: wp_andthen wp_require wp_ret lost_def)
  then show ?thesis
    unfolding load_update_request_def demand_int_def required_int_def required_build_id_def by (intro keeps_rules)
qed

lemma execute_update_ends:
  assumes env: "leaves_started k env" and w: "started_db k UPDATE_JOB_KIND False (w_db w)"
  shows "wp (execute_update env z (lifecycle_execute env) k) (\<lambda>_. ended k (w_trace w))
    (\<lambda>e v. e = Diverges \<or> ended k (w_trace w) v) w"
proof -
  let ?tr = "w_trace w" and ?E = "\<lambda>e v. e = Diverges \<or> ended k (w_trace w) v"
  have load: "triple (updating k ?tr False) (handle (bnd (load_update_request env k) (\<lambda>data. ret (Some data)))
      (\<lambda>_. andthen (fail_update env k c m False None True) (ret None)))
      (\<lambda>r v. if r = None then ended k ?tr v else updating k ?tr False v) ?E" for c m
    by (rule triple_handle [where R = "\<lambda>_. updating k ?tr False", OF triple_bnd [OF keepsD [OF load_under_way [OF env]]]])
      (auto intro!: triple_ret triple_andthen [where R = "ended k ?tr"] triple_conseq [OF fail_ends [OF env]])
  have steps: "triple (updating k ?tr False) (update_steps env z (lifecycle_execute env) k data)
      (\<lambda>_. ended k ?tr) (broken_off k ?tr)" for data
  proof (rule tripleI)
    fix v
    assume v: "updating k ?tr False v"
    then have un: "at_phase ?tr untouched v" by (simp add: under_way_def)
    from wp_conj [OF tripleD [OF steps_under_way [OF env] v] tripleD [OF steps_guarded un]]
    show "wp (update_steps env z (lifecycle_execute env) k data) (\<lambda>_. ended k ?tr) (broken_off k ?tr) v"
      by (rule wp_mono) (auto simp: ended_def in_db_def)
  qed
  have body: "triple (updating k ?tr False)
      (always (handle (update_steps env z (lifecycle_execute env) k data) (update_failed env k data)) (drop_unregistered env))
      (\<lambda>_. ended k ?tr) ?E" for data
  proof (rule triple_always)
    show "triple (updating k ?tr False) (handle (update_steps env z (lifecycle_execute env) k data) (update_failed env k data))
        (\<lambda>_. ended k ?tr) ?E"
      by (rule triple_handle [OF steps triple_conseq [OF failed_ends [OF env]]]) auto
    have "keeps (ended k ?tr) (drop_unregistered env)"
      unfolding drop_unregistered_def
      by (intro keeps_rules) (auto intro!: keeps_rules ended_files.remove split: prod.split option.split)
    then show "triple (ended k ?tr) (drop_unregistered env) (\<lambda>_. ended k ?tr) ?E"
      "e \<noteq> Diverges \<Longrightarrow> triple (?E e) (drop_unregistered env) (\<lambda>_. ?E e) ?E" for e
      by (auto intro: triple_conseq [OF keepsD])
  qed simp
  have "triple (updating k ?tr False) (bnd (handle (bnd (load_update_request env k) (\<lambda>data. ret (Some data)))
      (\<lambda>_. andthen (fail_update env k c m False None True) (ret None))) (\<lambda>request. case request of
          None \<Rightarrow> ret ()
        | Some data \<Rightarrow> always (handle (update_steps env z (lifecycle_execute env) k data) (update_failed env k data))
            (drop_unregistered env))) (\<lambda>_. ended k ?tr) ?E" for c m
    by (rule triple_bnd [OF load]) (auto intro!: triple_ret body split: option.split)
  moreover have "updating k ?tr False (w\<lparr>w_irreversible := False, w_preventive := None\<rparr>)"
    using w by (simp add: under_way_def at_phase_def untouched_def)
  ultimately show ?thesis
    unfolding execute_update_def wp_andthen wp_modify by (rule tripleD)
qed

text \<open>
  C25: an update job never stays active. When its execution returns, with whatever result, the job is
  over: SUCCEEDED after the update was verified (the versions agree and the log of the server was read
  afterwards) or when the version was current already, CANCELLED only
  with the server untouched, FAILED with the server untouched or the request of a manual review stored
  in the job. The web process may set the job's request flags at any point.
\<close>

theorem update_job_safe:
  assumes "leaves_started k env"
    and "find_job k (w_db w) = Some j" and "j_status j = JOB_STATUS_RUNNING" and "j_kind j = UPDATE_JOB_KIND"
    and "execute_update env z (lifecycle_execute env) k w = (res, w')" and "res \<noteq> Inl Diverges"
  shows "\<exists>j' es. find_job k (w_db w') = Some j' \<and> w_trace w' = es @ w_trace w \<and> j_progress j' = 100
    \<and> \<not> j_is_cancellable j'
    \<and> (j_status j' = JOB_STATUS_SUCCEEDED \<and> accomplished es \<or> j_status j' = JOB_STATUS_CANCELLED \<and> untouched es
       \<or> j_status j' = JOB_STATUS_FAILED \<and> (untouched es
            \<or> dict_get (dict_of (j_result j')) ''requires_manual_review'' = Some (JBool True)))"
proof -
  have "started_db k UPDATE_JOB_KIND False (w_db w)" using assms(2-4) by (simp add: started_db_def)
  from execute_update_ends [OF assms(1) this, of z] have "ended k (w_trace w) w'"
    using assms(5,6) by (auto simp: wp_def split: sum.splits)
  moreover have "at_phase (w_trace w) untouched w" by (simp add: at_phase_def untouched_def)
  from tripleD [OF execute_update_guarded this] have "at_phase (w_trace w) guarded w'"
    using assms(5) by (metis snd_conv wp_snd)
  then obtain es where es: "w_trace w' = es @ w_trace w" by (auto simp: at_phase_def)
  then have "at_phase (w_trace w) P w' \<longleftrightarrow> P es" for P by (auto simp: at_phase_def)
  ultimately have ended: "job_is k JOB_STATUS_SUCCEEDED (w_db w') \<and> accomplished es
      \<or> job_is k JOB_STATUS_CANCELLED (w_db w') \<and> untouched es
      \<or> job_is k JOB_STATUS_FAILED (w_db w') \<and> (untouched es \<or> marked_for_review k (w_db w'))"
    by (simp add: ended_def)
  then obtain j' where "find_job k (w_db w') = Some j'" by (auto simp: job_is_def)
  with ended es show ?thesis by (auto simp: job_is_def marked_for_review_def)
qed

definition update_world :: world where
  "update_world = start_world (empty_db\<lparr>jobs := [(new_job UPDATE_JOB_KIND True True LIFECYCLE_COORDINATION_KEY None
     (update_request 1 ''10'' ''11'' 0 60 120 1) 0 1)\<lparr>j_status := JOB_STATUS_RUNNING\<rparr>]\<rparr>)"

lemma update_world_run:
  "fst (execute_update calm_env (\<lambda>_. True) (lifecycle_execute calm_env) 1 update_world) \<noteq> Inl Diverges"
  by (simp add: run_simps calm_env_simps execute_update_def load_update_request_def update_world_def start_world_def
      empty_db_def get_one_job_def find_job_def row_get_def new_job_def update_request_def dict_of_def
      required_build_id_def dict_get_def isdecimal_def is_digit_def code_def demand_int_def required_int_def int_within_def data_int_def
      json_int_def update_steps_def update_checkpoint_def checkpoint_tx_def put_job_def row_put_def append_update_log_def
      disk_free_def update_failed_def fail_update_def failed_update_tx_def enqueue_discord_notification_def
      SUPPORTED_DISCORD_EVENT_TYPES_def record_audit_event_def drop_unregistered_def
      Let_def prune_expired_audit_events_def UPDATE_JOB_KIND_def UPDATE_CHECK_JOB_KIND_def finished_def)

theorem update_job_safe_witness:
  "\<exists>j' es. find_job 1 (w_db (snd (execute_update calm_env (\<lambda>_. True) (lifecycle_execute calm_env) 1 update_world))) = Some j'
    \<and> w_trace (snd (execute_update calm_env (\<lambda>_. True) (lifecycle_execute calm_env) 1 update_world)) = es @ w_trace update_world
    \<and> j_progress j' = 100 \<and> \<not> j_is_cancellable j'
    \<and> (j_status j' = JOB_STATUS_SUCCEEDED \<and> accomplished es \<or> j_status j' = JOB_STATUS_CANCELLED \<and> untouched es
       \<or> j_status j' = JOB_STATUS_FAILED \<and> (untouched es
            \<or> dict_get (dict_of (j_result j')) ''requires_manual_review'' = Some (JBool True)))"
proof (rule update_job_safe [OF leaves_started_calm _ _ _ prod.collapse [symmetric] update_world_run])
  show "find_job 1 (w_db update_world) = Some ((new_job UPDATE_JOB_KIND True True LIFECYCLE_COORDINATION_KEY None
     (update_request 1 ''10'' ''11'' 0 60 120 1) 0 1)\<lparr>j_status := JOB_STATUS_RUNNING\<rparr>)"
    by (simp add: update_world_def start_world_def find_job_def row_get_def new_job_def)
qed (simp_all add: new_job_def)

end
