(* ===== verification/RestoreRun.thy ===== *)
theory RestoreRun
  imports UpdateSafe DriveRun
begin

text \<open>
  Restoring a backup (\<open>app/restores/jobs.py\<close>): the queue and the executor \<open>LocalRestoreJobExecutor\<close>.
  What preparing and applying the files answers (\<open>LocalRestoreService\<close>) is in the environment; the
  files themselves are the subject of \<open>RestoreFiles\<close> and \<open>PalworldIni\<close>.
\<close>

section \<open>The queue\<close>

definition LOCAL_RESTORE_JOB_KIND :: string where "LOCAL_RESTORE_JOB_KIND = ''LOCAL_RESTORE''"
definition REMOTE_RESTORE_JOB_KIND :: string where "REMOTE_RESTORE_JOB_KIND = ''REMOTE_RESTORE''"
definition RESTORE_JOB_KINDS :: "string list" where
  "RESTORE_JOB_KINDS = [LOCAL_RESTORE_JOB_KIND, REMOTE_RESTORE_JOB_KIND]"
definition LOCAL_RESTORE_COORDINATION_KEY :: string where "LOCAL_RESTORE_COORDINATION_KEY = ''LOCAL_RESTORE''"

definition source_target :: "string \<Rightarrow> string" where
  "source_target location = (if location = ''DRIVE'' then ''Backup remoto'' else ''Backup local'')"

primrec location_value :: "backup_location \<Rightarrow> string" where
  "location_value LOCAL = ''LOCAL''"
| "location_value DRIVE = ''DRIVE''"

definition restorable :: "backup_record \<Rightarrow> backup_location \<Rightarrow> bool" where
  "restorable r location \<longleftrightarrow> b_location r = location \<and> b_status r = ''VALID'' \<and> b_sha256 r \<noteq> None
     \<and> b_size_bytes r \<noteq> None"

definition enqueue_restore :: "int \<Rightarrow> string \<Rightarrow> int \<Rightarrow> backup_location \<Rightarrow> string \<Rightarrow> int \<Rightarrow> (db, job) prog" where
  "enqueue_restore backup_record_id confirmation user_id location kind now =
     andthen (require (confirmation = ''RESTAURAR'') RestoreRequestError)
       (bnd (reads (find_backup backup_record_id)) (\<lambda>record. case record of
            None \<Rightarrow> raise RestoreRequestError
          | Some r \<Rightarrow>
              andthen (require (restorable r location) RestoreRequestError)
              (bnd (reads (active_with_key LOCAL_RESTORE_COORDINATION_KEY)) (\<lambda>active.
               andthen (require (\<not> active) RestoreJobConflictError)
               (bnd (lifecycle_timeout STOP) (\<lambda>stop.
                bnd (lifecycle_timeout START) (\<lambda>start.
                bnd (add_job RestoreJobConflictError
                       (new_job kind False True LOCAL_RESTORE_COORDINATION_KEY None
                          [(''backup_record_id'', JInt (b_id r)), (''source_filename'', JStr (b_filename r)),
                           (''source_location'', JStr (location_value location)),
                           (''stop_timeout_seconds'', JInt stop), (''start_timeout_seconds'', JInt start),
                           (''destructive_started'', JBool False), (''requires_manual_review'', JBool False)] now)) (\<lambda>job.
                 andthen (record_audit_event now
                     (admin_event ''RESTORE_REQUESTED'' AUDIT_RESULT_SUCCESS (Some user_id) (Some (j_id job))
                        (Some (source_target (location_value location)))
                        (Some [(''backup_record_id'', JInt (b_id r)), (''source_filename'', JStr (b_filename r)),
                               (''source_location'', JStr (location_value location))])))
                   (ret job)))))))))"

definition enqueue_local_restore :: "int \<Rightarrow> string \<Rightarrow> int \<Rightarrow> int \<Rightarrow> (db, job) prog" where
  "enqueue_local_restore k confirmation user_id now =
     enqueue_restore k confirmation user_id LOCAL LOCAL_RESTORE_JOB_KIND now"

definition enqueue_remote_restore :: "int \<Rightarrow> string \<Rightarrow> int \<Rightarrow> int \<Rightarrow> (db, job) prog" where
  "enqueue_remote_restore k confirmation user_id now =
     enqueue_restore k confirmation user_id DRIVE REMOTE_RESTORE_JOB_KIND now"

definition latest_restore_job :: "db \<Rightarrow> job option" where
  "latest_restore_job d = limit1 (order_by (\<lambda>j. - j_id j) (filter (\<lambda>j. j_kind j \<in> set RESTORE_JOB_KINDS) (jobs d)))"

record restore_job_view =
  rv_id :: int
  rv_status :: job_status
  rv_step :: string
  rv_progress :: int
  rv_source_filename :: string
  rv_source_location :: string
  rv_error :: "string option"
  rv_requires_manual_review :: bool
  rv_preventive_backup_record_id :: "int option"

text \<open>A stored value that is no string makes the membership test of the code fail or raise.\<close>

definition restore_job_view :: "job \<Rightarrow> restore_job_view option" where
  "restore_job_view j = (if j_kind j \<notin> set RESTORE_JOB_KINDS then None
     else let field = dict_get (dict_of (j_result j)) in Some
       \<lparr>rv_id = j_id j, rv_status = j_status j, rv_step = j_step j, rv_progress = j_progress j,
        rv_source_filename = (case json_str (field ''source_filename'') of
            None \<Rightarrow> ''indispon'' @ CHR 0xED # ''vel'' | Some s \<Rightarrow> s),
        rv_source_location = (if field ''source_location'' = Some (JStr ''DRIVE'') then ''DRIVE'' else ''LOCAL''),
        rv_error = json_str (field ''message''),
        rv_requires_manual_review = (json_bool (field ''requires_manual_review'') = Some True),
        rv_preventive_backup_record_id = json_int (field ''preventive_backup_record_id'')\<rparr>)"

section \<open>The executor\<close>

text \<open>
  The stored parameters. An array or object as the location raises a \<open>TypeError\<close>, one of the
  exceptions the model does not tell apart.
\<close>

definition restore_parameters :: "job \<Rightarrow> exn + dict" where
  "restore_parameters j =
     (let result = dict_of (j_result j);
          location = (case dict_get result ''source_location'' of None \<Rightarrow> JStr ''LOCAL'' | Some v \<Rightarrow> v);
          expected = (if j_kind j = REMOTE_RESTORE_JOB_KIND then ''DRIVE'' else ''LOCAL'') in
      case (json_int (dict_get result ''backup_record_id''), json_str (dict_get result ''source_filename'')) of
        (Some record_id, Some filename) \<Rightarrow>
          if (case location of JArr _ \<Rightarrow> True | JObj _ \<Rightarrow> True | _ \<Rightarrow> False) then Inl OtherException
          else if location \<noteq> JStr expected then Inl ValueError
          else (case (json_int (dict_get result ''stop_timeout_seconds''), json_int (dict_get result ''start_timeout_seconds'')) of
                  (Some stop, Some start) \<Rightarrow>
                    Inr [(''backup_record_id'', JInt record_id), (''source_filename'', JStr filename),
                         (''source_location'', JStr expected), (''stop_timeout_seconds'', JInt stop),
                         (''start_timeout_seconds'', JInt start)]
                | _ \<Rightarrow> Inl ValueError)
      | _ \<Rightarrow> Inl ValueError)"

definition load_restore_request :: "env \<Rightarrow> int \<Rightarrow> (world, dict) prog" where
  "load_restore_request env k = session_scope env (bnd (get_one_job k) (\<lambda>j.
     andthen (require (j_kind j \<in> set RESTORE_JOB_KINDS \<and> j_status j = JOB_STATUS_RUNNING) ValueError)
       (lift (\<lambda>_. restore_parameters j))))"

definition restore_checkpoint_tx :: "int \<Rightarrow> string \<Rightarrow> int \<Rightarrow> bool \<Rightarrow> (db, unit) prog" where
  "restore_checkpoint_tx k step progress destructive =
     bnd (get_one_job k) (\<lambda>j.
       andthen (require (j_status j = JOB_STATUS_RUNNING) RuntimeError)
         (put_job (j\<lparr>j_result := Some (dict_merge (dict_of (j_result j))
              [(''destructive_started'', JBool destructive), (''requires_manual_review'', JBool destructive)]),
            j_step := step, j_progress := progress, j_is_cancellable := False\<rparr>)))"

definition restore_checkpoint :: "env \<Rightarrow> int \<Rightarrow> string \<Rightarrow> int \<Rightarrow> bool \<Rightarrow> (world, unit) prog" where
  "restore_checkpoint env k step progress destructive =
     session_scope env (restore_checkpoint_tx k step progress destructive)"

definition data_str :: "dict \<Rightarrow> string \<Rightarrow> string" where
  "data_str data key = (case json_str (dict_get data key) of None \<Rightarrow> [] | Some s \<Rightarrow> s)"

text \<open>The details every event of a restore starts with.\<close>

definition restore_details :: "dict \<Rightarrow> int option \<Rightarrow> dict" where
  "restore_details data record_id =
     [(''backup_record_id'', JInt (data_int data ''backup_record_id'')),
      (''source_filename'', JStr (data_str data ''source_filename'')),
      (''source_location'', JStr (data_str data ''source_location'')),
      (''preventive_backup_record_id'', jopt_int record_id)]"

definition complete_restore_tx :: "int \<Rightarrow> dict \<Rightarrow> int option \<Rightarrow> int \<Rightarrow> (db, unit) prog" where
  "complete_restore_tx k data record_id now =
     andthen (update_job k (\<lambda>j. finished JOB_STATUS_SUCCEEDED ''COMPLETED'' now
         (dict_merge data [(''preventive_backup_record_id'', jopt_int record_id), (''destructive_started'', JBool True),
            (''requires_manual_review'', JBool False), (''final_state'', JStr ''ONLINE'')]) j))
       (andthen (record_audit_event now
            (system_event ''RESTORE'' AUDIT_RESULT_SUCCESS k (Some (source_target (data_str data ''source_location'')))
               (Some (restore_details data record_id @ [(''scope'', JStr ''PALWORLD_ONLY'')]))))
         (enqueue_discord_notification ''RESTORE_COMPLETED'' (Some k) now))"

definition complete_restore :: "env \<Rightarrow> int \<Rightarrow> dict \<Rightarrow> int option \<Rightarrow> (world, unit) prog" where
  "complete_restore env k data record_id = bnd (wall_now env) (\<lambda>now.
     session_scope env (complete_restore_tx k data record_id now))"

definition failed_restore_tx :: "int \<Rightarrow> dict \<Rightarrow> string \<Rightarrow> string \<Rightarrow> bool \<Rightarrow> int option \<Rightarrow> int \<Rightarrow> (db, unit) prog" where
  "failed_restore_tx k data category message destructive record_id now =
     andthen (update_job k (\<lambda>j. finished JOB_STATUS_FAILED ''FAILED'' now
         (dict_merge data [(''preventive_backup_record_id'', jopt_int record_id), (''destructive_started'', JBool destructive),
            (''requires_manual_review'', JBool destructive), (''error'', JStr category), (''message'', JStr message)]) j))
       (andthen (record_audit_event now
            (system_event ''RESTORE'' AUDIT_RESULT_FAILURE k (Some (source_target (data_str data ''source_location'')))
               (Some (restore_details data record_id
                  @ [(''error'', JStr category), (''requires_manual_review'', JBool destructive)]))))
         (enqueue_discord_notification ''RESTORE_FAILED'' (Some k) now))"

definition fail_restore :: "env \<Rightarrow> int \<Rightarrow> dict \<Rightarrow> string \<Rightarrow> string \<Rightarrow> bool \<Rightarrow> int option \<Rightarrow> (world, unit) prog" where
  "fail_restore env k data category message destructive record_id = bnd (wall_now env) (\<lambda>now.
     session_scope env (failed_restore_tx k data category message destructive record_id now))"

text \<open>\<open>_validate_record\<close> of the restore service.\<close>

definition valid_restore_record :: "backup_record \<Rightarrow> backup_location \<Rightarrow> bool" where
  "valid_restore_record r location \<longleftrightarrow> restorable r location
     \<and> (case b_sha256 r of None \<Rightarrow> False
        | Some s \<Rightarrow> length s = 64 \<and> list_all (\<lambda>c. c \<in> set ''0123456789abcdef'') s)
     \<and> (case b_size_bytes r of None \<Rightarrow> False | Some n \<Rightarrow> 0 < n)
     \<and> path_parts (b_storage_path r) \<noteq> [] \<and> last (path_parts (b_storage_path r)) = b_filename r
     \<and> (if location = DRIVE then b_storage_path r = b_filename r
        else \<not> starts_with (b_storage_path r) ''/'' \<and> butlast (path_parts (b_storage_path r)) = [BACKUP_DIRECTORY_NAME])"

definition prepare_restore :: "env \<Rightarrow> backup_record \<Rightarrow> (world, unit) prog" where
  "prepare_restore env r =
     andthen (require (valid_restore_record r LOCAL) (RestoreError ''BACKUP_RECORD_INVALID''
        (msg_text ''O registro selecionado n~ao representa um backup v/alido.'')))
     (bnd (resolve_managed_artifact env (b_storage_path r)) (\<lambda>source.
      bnd (reads (\<lambda>w. case source of None \<Rightarrow> False | Some p \<Rightarrow> p \<in> set (w_artifacts w))) (\<lambda>is_file.
       andthen (require is_file (RestoreError ''BACKUP_UNAVAILABLE'' (msg_text ''O backup local n~ao est/a dispon/ivel.'')))
         (call env (e_restore_prepare env) EvRestorePrepare))))"

definition prepare_remote :: "env \<Rightarrow> backup_record \<Rightarrow> (world, unit) prog" where
  "prepare_remote env r =
     andthen (require (valid_restore_record r DRIVE) (RestoreError ''BACKUP_RECORD_INVALID''
        (msg_text ''O registro selecionado n~ao representa um backup v/alido.'')))
       (call env (e_restore_prepare env) EvRestorePrepare)"

definition apply_restore :: "env \<Rightarrow> (world, unit) prog" where
  "apply_restore env = call env (e_restore_apply env) EvRestoreApply"

text \<open>
  The \<open>finally\<close>: the temporary download and the working directory are removed when they were made, and
  errors are ignored; the directories are not part of the model.
\<close>

definition restore_cleanup :: "(world, unit) prog" where
  "restore_cleanup = modify (\<lambda>w. w\<lparr>w_trace := EvRestoreCleanup # w_trace w\<rparr>)"

text \<open>The archive of the record, downloaded first when it is remote.\<close>

definition prepare_source :: "env \<Rightarrow> bool \<Rightarrow> int \<Rightarrow> dict \<Rightarrow> (world, unit) prog" where
  "prepare_source env drive_available k data =
     (let gone = RestoreError ''BACKUP_UNAVAILABLE'' (msg_text ''O backup selecionado n~ao est/a mais dispon/ivel.'') in
      bnd (session_scope env (bnd (reads (find_backup (data_int data ''backup_record_id''))) (\<lambda>found. case found of
             None \<Rightarrow> raise gone | Some r \<Rightarrow> ret r))) (\<lambda>r.
        andthen (require (b_filename r = data_str data ''source_filename''
            \<and> location_value (b_location r) = data_str data ''source_location'') gone)
          (if data_str data ''source_location'' = ''DRIVE'' then
             andthen (require drive_available (RestoreError ''REMOTE_RESTORE_UNAVAILABLE''
                 (msg_text ''O Restore remoto n~ao est/a dispon/ivel no worker.'')))
               (andthen (restore_checkpoint env k ''DOWNLOADING_REMOTE'' 5 False)
               (andthen (handle (bnd (download_temporary env r) (\<lambda>_. ret ())) (\<lambda>e.
                    if e \<in> {GoogleDriveError, GoogleDriveCancelled, BackupValidationError}
                    then raise (RestoreError ''REMOTE_DOWNLOAD_INVALID''
                      (msg_text ''O backup remoto n~ao p^ode ser baixado e validado.''))
                    else raise e))
               (andthen (restore_checkpoint env k ''VALIDATING'' 15 False) (prepare_remote env r))))
           else andthen (restore_checkpoint env k ''VALIDATING'' 10 False) (prepare_restore env r))))"

definition preventive_restore_backup :: "env \<Rightarrow> int \<Rightarrow> (world, backup_artifact) prog" where
  "preventive_restore_backup env k = handle
     (bnd (create_backup env k (\<lambda>step progress cancellable.
             restore_checkpoint env k (''PREVENTIVE_'' @ step) (min 45 (25 + progress div 5)) False)) (\<lambda>a.
       andthen (modify (\<lambda>w. w\<lparr>w_preventive := Some (ba_storage_path a, None)\<rparr>)) (ret a)))
     (\<lambda>e. raise (RestoreError ''PREVENTIVE_BACKUP_FAILED''
        (msg_text ''O backup preventivo n~ao p^ode ser criado e validado.'')))"

text \<open>From the archive to the confirmed stop.\<close>

definition stop_for_restore ::
  "env \<Rightarrow> (string \<Rightarrow> bool) \<Rightarrow> bool \<Rightarrow> lifecycle_executor \<Rightarrow> int \<Rightarrow> dict \<Rightarrow> (world, int) prog" where
  "stop_for_restore env zone_ok drive_available lifecycle k data =
     andthen (prepare_source env drive_available k data)
     (andthen (restore_checkpoint env k ''PREVENTIVE_BACKUP'' 25 False)
     (bnd (preventive_restore_backup env k) (\<lambda>a.
      bnd (register_preventive env zone_ok k a [data_int data ''backup_record_id''] ''Backup preventivo do Restore''
             ''PRE_RESTORE'') (\<lambda>record_id.
      andthen (restore_checkpoint env k ''STOPPING'' 50 False)
     (bnd (lifecycle STOP (data_int data ''stop_timeout_seconds'')) (\<lambda>stop.
      andthen (require (lr_outcome stop = LIFECYCLE_SUCCEEDED) (RestoreError ''STOP_FAILED''
        (msg_text ''O Palworld n~ao confirmou o estado offline.'')))
       (ret record_id)))))))"

text \<open>From \<open>destructive_started = True\<close> to the verified start.\<close>

definition apply_restore_steps :: "env \<Rightarrow> lifecycle_executor \<Rightarrow> int \<Rightarrow> dict \<Rightarrow> (world, unit) prog" where
  "apply_restore_steps env lifecycle k data =
     andthen (restore_checkpoint env k ''RESTORING'' 65 True)
     (andthen (apply_restore env)
     (andthen (restore_checkpoint env k ''STARTING'' 85 True)
     (bnd (wall_now env) (\<lambda>start_requested_at.
      bnd (lifecycle START (data_int data ''start_timeout_seconds'')) (\<lambda>start.
      andthen (require (lr_outcome start = LIFECYCLE_SUCCEEDED) (RestoreError ''START_FAILED''
        (msg_text ''O Palworld n~ao confirmou o estado online.'')))
     (andthen (restore_checkpoint env k ''VERIFYING'' 95 True)
       (verify_no_critical_logs env start_requested_at
        (RestoreError ''POST_RESTORE_LOGS_UNAVAILABLE''
          (msg_text ''Os logs cr/iticos n~ao puderam ser verificados ap/os o Restore.''))
        (RestoreError ''POST_RESTORE_CRITICAL_LOG''
          (msg_text ''O Palworld registrou erro cr/itico ap/os o Restore.'')))))))))"

definition restore_steps ::
  "env \<Rightarrow> (string \<Rightarrow> bool) \<Rightarrow> bool \<Rightarrow> lifecycle_executor \<Rightarrow> int \<Rightarrow> dict \<Rightarrow> (world, unit) prog" where
  "restore_steps env zone_ok drive_available lifecycle k data =
     bnd (stop_for_restore env zone_ok drive_available lifecycle k data) (\<lambda>record_id.
       andthen (modify (\<lambda>w. w\<lparr>w_irreversible := True\<rparr>))
         (andthen (apply_restore_steps env lifecycle k data)
           (complete_restore env k data (Some record_id))))"

text \<open>The exception handlers: a \<open>RestoreError\<close> ends the execution quietly, every other exception is raised again.\<close>

definition restore_failed :: "env \<Rightarrow> int \<Rightarrow> dict \<Rightarrow> exn \<Rightarrow> (world, unit) prog" where
  "restore_failed env k data e =
     bnd (reads (\<lambda>w. (w_irreversible w, w_preventive w))) (\<lambda>(destructive, preventive).
       let record_id = (case preventive of None \<Rightarrow> None | Some (_, r) \<Rightarrow> r) in
       case e of
         RestoreError category message \<Rightarrow> fail_restore env k data category message destructive record_id
       | _ \<Rightarrow> andthen (case preventive of Some (path, None) \<Rightarrow> andthen (remove_managed_artifact env path) (ret ()) | _ \<Rightarrow> ret ())
             (andthen (fail_restore env k data ''UNEXPECTED_FAILURE'' ''O Restore falhou de forma inesperada.''
                 destructive record_id) (raise e)))"

definition execute_restore ::
  "env \<Rightarrow> (string \<Rightarrow> bool) \<Rightarrow> bool \<Rightarrow> lifecycle_executor \<Rightarrow> int \<Rightarrow> (world, unit) prog" where
  "execute_restore env zone_ok drive_available lifecycle k =
     andthen (modify (\<lambda>w. w\<lparr>w_irreversible := False, w_preventive := None\<rparr>))
     (bnd (load_restore_request env k) (\<lambda>data.
       always (handle (restore_steps env zone_ok drive_available lifecycle k data) (restore_failed env k data))
         restore_cleanup))"

section \<open>The producer\<close>

lemma valid_RESTORE [simp]: "valid_audit_action ''RESTORE''" "valid_audit_action ''RESTORE_REQUESTED''"
  by code_simp+

text \<open>A restore is queued only with the typed confirmation and for a valid record of its location.\<close>

lemma wp_enqueue_restore:
  "wp (enqueue_restore k confirmation u location kind now)
     (\<lambda>j d'. appended LOCAL_RESTORE_COORDINATION_KEY j d d' \<and> j_kind j = kind \<and> confirmation = ''RESTAURAR''
        \<and> (\<exists>r. find_backup k d = Some r \<and> restorable r location)) (\<lambda>_ _. True) d"
proof -
  have last: "wp (bnd (add_job RestoreJobConflictError (new_job kind False True LOCAL_RESTORE_COORDINATION_KEY None res now)) (\<lambda>job.
        andthen (record_audit_event now (admin_event ''RESTORE_REQUESTED'' AUDIT_RESULT_SUCCESS (Some u) (Some (j_id job)) t dt))
          (ret job))) (\<lambda>j d'. appended LOCAL_RESTORE_COORDINATION_KEY j d d' \<and> j_kind j = kind) (\<lambda>_ _. True) d" for res t dt
    by (simp add: wp_simps wp_record_audit_event' Let_def)
  have "wp (bnd (lifecycle_timeout STOP) (\<lambda>stop. bnd (lifecycle_timeout START) (\<lambda>start. m stop start))) Q (\<lambda>_ _. True) d"
    if "\<And>stop start. wp (m stop start) Q (\<lambda>_ _. True) d" for m :: "int \<Rightarrow> int \<Rightarrow> (db, job) prog" and Q
    unfolding wp_bnd by (rule wp_mono [OF lifecycle_timeout_bounds]) (auto intro!: wp_mono [OF lifecycle_timeout_bounds] that)
  note rest = this [OF wp_mono [OF last]]
  show ?thesis
    by (auto simp: enqueue_restore_def wp_andthen wp_require wp_bnd [of "reads _"] wp_reads wp_raise
        split: option.split intro!: rest)
qed

interpretation restore_producer: job_producer
  "\<lambda>x. case x of Inl (k, c, u, now) \<Rightarrow> enqueue_local_restore k c u now | Inr (k, c, u, now) \<Rightarrow> enqueue_remote_restore k c u now"
  LOCAL_RESTORE_COORDINATION_KEY
  by unfold_locales
    (auto simp: enqueue_local_restore_def enqueue_remote_restore_def split: sum.split prod.split
      intro!: wp_mono [OF wp_enqueue_restore])

end
