(* ===== verification/RestoreSafe.thy ===== *)
theory RestoreSafe
  imports RestoreRun
begin

text \<open>
  How a restore ends: the files are replaced only after a preventive backup was published and the server
  was stopped, a failure after that point is marked for a manual review, and the job never stays active
  once its parameters are readable.
\<close>

section \<open>The order of the events\<close>

definition no_restore :: "event \<Rightarrow> bool" where
  "no_restore ev = (case ev of EvRestoreApply _ \<Rightarrow> False | _ \<Rightarrow> True)"

definition unapplied :: "event list \<Rightarrow> bool" where
  "unapplied es = list_all no_restore es"

text \<open>The newest events are a confirmed stop, and before it nothing but the backup was done.\<close>

definition restore_ready :: "event list \<Rightarrow> bool" where
  "restore_ready es \<longleftrightarrow> (\<exists>stop before. es = stop @ before \<and> list_all lifecycle_event stop \<and> confirmed STOP stop
     \<and> backed before)"

definition restore_guarded :: "event list \<Rightarrow> bool" where
  "restore_guarded es \<longleftrightarrow> unapplied es
     \<or> (\<exists>after r before. es = after @ EvRestoreApply r # before \<and> unapplied after \<and> restore_ready before)"

text \<open>
  The log of the server was read after the start; that it holds no critical entry since then is what
  \<open>verify_finds_nothing_critical\<close> adds to this trace.
\<close>

definition restored :: "event list \<Rightarrow> bool" where
  "restored es \<longleftrightarrow> (\<exists>late log start before. es = late @ EvJournal (Inr log) # start @ EvRestoreApply (Inr ()) # before
     \<and> untouched late \<and> list_all lifecycle_event start \<and> confirmed START start \<and> restore_ready before)"

lemma no_restore_lists:
  "list_all no_server es \<Longrightarrow> unapplied es" "list_all lifecycle_event es \<Longrightarrow> unapplied es"
  by (auto simp: list_all_iff no_server_def no_restore_def unapplied_def lifecycle_event_def split: event.splits)

lemma no_restore_simps [simp]: "unapplied [] = True" "unapplied (ev # es) = (no_restore ev \<and> unapplied es)"
  "unapplied (es @ fs) = (unapplied es \<and> unapplied fs)"
  by (simp_all add: unapplied_def)

lemma no_server_no_restore: "no_server ev \<Longrightarrow> no_restore ev"
  using no_restore_lists(1) [of "[ev]"] by simp

lemma untouched_unapplied: "untouched es \<Longrightarrow> unapplied es"
  by (simp add: untouched_def no_restore_lists)

lemma ready_unapplied: "restore_ready es \<Longrightarrow> unapplied es"
  by (auto simp: restore_ready_def backed_def untouched_unapplied no_restore_lists simp del: confirmed.simps)

lemma unapplied_guarded: "unapplied es \<Longrightarrow> restore_guarded es"
  by (simp add: restore_guarded_def)

lemma restore_guarded_more: "restore_guarded es \<Longrightarrow> unapplied xs \<Longrightarrow> restore_guarded (xs @ es)"
  unfolding restore_guarded_def by (metis append.assoc no_restore_simps(3))

lemma applied_restore_guarded: "restore_ready es \<Longrightarrow> restore_guarded (EvRestoreApply r # es)"
  unfolding restore_guarded_def by (metis append_Nil no_restore_simps(1))

lemma restored_guarded: "restored es \<Longrightarrow> restore_guarded es"
proof -
  assume "restored es"
  then obtain late log start before where es: "es = (late @ EvJournal (Inr log) # start) @ EvRestoreApply (Inr ()) # before"
    and "untouched late" "list_all lifecycle_event start" and ready: "restore_ready before"
    by (auto simp: restored_def)
  then have "unapplied (late @ EvJournal (Inr log) # start)"
    by (simp add: untouched_unapplied no_restore_lists no_restore_def)
  then show ?thesis unfolding es by (rule restore_guarded_more [OF applied_restore_guarded [OF ready]])
qed

interpretation restore_guarded_phase: calm_phase restore_guarded
proof unfold_locales
  show "restore_guarded es \<Longrightarrow> restore_guarded (EvLog p m # es)" for es p m
    using restore_guarded_more [of es "[EvLog p m]"] by (simp add: no_restore_def)
  show "no_server ev \<Longrightarrow> restore_guarded es \<Longrightarrow> restore_guarded (ev # es)" for ev es
    using restore_guarded_more [of es "[ev]"] by (simp add: no_server_no_restore)
qed

interpretation restored_phase: calm_phase restored
  unfolding restored_def by unfold_locales (metis append_Cons untouched_prefix no_server_simps(1))+

interpretation unapplied_phase: calm_phase unapplied
  by unfold_locales (auto simp: no_restore_def dest: no_server_no_restore)

lemma source_untouched: "keeps (at_phase tr untouched) (prepare_source env drive k data)"
  unfolding prepare_source_def prepare_restore_def prepare_remote_def restore_checkpoint_def download_temporary_def Let_def
  by (intro keeps_rules keeps_case_prod keeps_at_phase_scope untouched_phase.files.resolve untouched_phase.harmless
      untouched_phase.files.step untouched_phase.files.directory untouched_phase.files.inspect untouched_phase.files.tree)
    (simp_all add: no_server_def)

lemma restore_backup_published:
  "triple (at_phase tr untouched) (preventive_restore_backup env k) (\<lambda>_. at_phase tr backed) (\<lambda>_. at_phase tr unapplied)"
proof -
  let ?progress = "\<lambda>step progress (cancellable :: bool). restore_checkpoint env k (''PREVENTIVE_'' @ step) (min 45 (25 + progress div 5)) False"
  have create: "triple (at_phase tr untouched) (create_backup env k ?progress)
      (\<lambda>a. at_phase tr (published_in (ba_storage_path a))) (\<lambda>_. at_phase tr untouched)"
    by (rule create_untouched_published) (simp add: restore_checkpoint_def keeps_at_phase_scope)
  show ?thesis
    unfolding preventive_restore_backup_def
  proof (rule triple_handle [where R = "\<lambda>_. at_phase tr untouched"])
    have "keeps (at_phase tr (published_in p)) (modify (\<lambda>w. w\<lparr>w_preventive := x\<rparr>))" for p x
      by (rule keeps_modify) (simp add: at_phase_def)
    then show "triple (at_phase tr untouched) (bnd (create_backup env k ?progress) (\<lambda>a.
          andthen (modify (\<lambda>w. w\<lparr>w_preventive := Some (ba_storage_path a, None)\<rparr>)) (ret a)))
        (\<lambda>_. at_phase tr backed) (\<lambda>_. at_phase tr untouched)"
      by (intro triple_bnd [OF create] phase_then phase_last keeps_ret) (auto simp: published_in_def backed_def)
  qed (auto intro!: triple_raise intro: at_phase_mono untouched_unapplied)
qed

text \<open>A lifecycle operation from a phase, and what its success adds.\<close>

lemma lifecycle_phase:
  assumes "\<And>es fs. P fs \<Longrightarrow> list_all lifecycle_event es \<Longrightarrow> G (es @ fs)"
    and "\<And>es fs. P fs \<Longrightarrow> list_all lifecycle_event es \<Longrightarrow> confirmed action es \<Longrightarrow> Q (es @ fs)"
  shows "triple (at_phase tr P) (lifecycle_execute env action t)
     (\<lambda>r w. at_phase tr G w \<and> (lr_outcome r = LIFECYCLE_SUCCEEDED \<longrightarrow> at_phase tr Q w)) (\<lambda>_. at_phase tr G)"
proof (rule tripleI)
  fix w
  assume "at_phase tr P w"
  then obtain fs where fs: "w_trace w = fs @ tr" "P fs" by (auto simp: at_phase_def)
  have "at_phase tr G v" "confirmed action es \<Longrightarrow> at_phase tr Q v" if "lifecycle_frame w v es" for v es
    using that fs assms(1) [OF fs(2), of es] assms(2) [OF fs(2), of es]
    by (simp_all add: lifecycle_frame_def at_phase_def del: confirmed.simps)
  then show "wp (lifecycle_execute env action t)
      (\<lambda>r w. at_phase tr G w \<and> (lr_outcome r = LIFECYCLE_SUCCEEDED \<longrightarrow> at_phase tr Q w)) (\<lambda>_. at_phase tr G) w"
    by (intro wp_mono [OF palworld_lifecycle.exec_done]) (auto simp: lifecycle_done_def simp del: confirmed.simps)
qed

lemma outcome_phase:
  "triple (\<lambda>w. at_phase tr G w \<and> (lr_outcome r = LIFECYCLE_SUCCEEDED \<longrightarrow> at_phase tr Q w))
     (require (lr_outcome r = LIFECYCLE_SUCCEEDED) e) (\<lambda>_. at_phase tr Q) (\<lambda>_. at_phase tr G)"
  by (rule triple_require) auto

lemma stop_restore_ready:
  "triple (at_phase tr untouched) (stop_for_restore env z drive (lifecycle_execute env) k data)
     (\<lambda>_. at_phase tr restore_ready) (\<lambda>_. at_phase tr unapplied)"
proof -
  have un: "untouched es \<Longrightarrow> unapplied es" for es by (rule untouched_unapplied)
  have backed: "backed es \<Longrightarrow> unapplied es" for es by (simp add: backed_def untouched_unapplied)
  have point: "keeps (at_phase tr P) (restore_checkpoint env k s n d)" for P s n d
    by (simp add: restore_checkpoint_def keeps_at_phase_scope)
  have stop: "triple (at_phase tr backed) (lifecycle_execute env STOP t)
      (\<lambda>r w. at_phase tr unapplied w \<and> (lr_outcome r = LIFECYCLE_SUCCEEDED \<longrightarrow> at_phase tr restore_ready w))
      (\<lambda>_. at_phase tr unapplied)" for t
    by (rule lifecycle_phase) (auto simp: restore_ready_def backed_def untouched_unapplied no_restore_lists simp del: confirmed.simps)
  show ?thesis
    unfolding stop_for_restore_def
    by (intro phase_then [OF source_untouched un] phase_then [OF point un] triple_bnd [OF restore_backup_published]
        phase_bnd [OF backed_phase.register_it backed] phase_then [OF point backed] triple_bnd [OF stop]
        triple_andthen [OF outcome_phase] triple_ret)
qed

definition replaced :: "event list \<Rightarrow> bool" where
  "replaced es \<longleftrightarrow> (\<exists>before. es = EvRestoreApply (Inr ()) # before \<and> restore_ready before)"

definition restarted :: "event list \<Rightarrow> bool" where
  "restarted es \<longleftrightarrow> (\<exists>start before. es = start @ EvRestoreApply (Inr ()) # before \<and> list_all lifecycle_event start
     \<and> confirmed START start \<and> restore_ready before)"

lemma replaced_guarded: "replaced es \<Longrightarrow> restore_guarded es"
  by (auto simp: replaced_def applied_restore_guarded)

lemma restarted_guarded: "restarted es \<Longrightarrow> restore_guarded es"
  by (auto simp: restarted_def no_restore_lists restore_guarded_more applied_restore_guarded simp del: confirmed.simps)

lemma ready_guarded': "restore_ready es \<Longrightarrow> restore_guarded es"
  by (simp add: ready_unapplied unapplied_guarded)

lemma apply_restored:
  "triple (at_phase tr restore_ready) (apply_restore_steps env (lifecycle_execute env) k data)
     (\<lambda>_. at_phase tr restored) (\<lambda>_. at_phase tr restore_guarded)"
proof -
  have point: "keeps (at_phase tr P) (restore_checkpoint env k s n d)" for P s n d
    by (simp add: restore_checkpoint_def keeps_at_phase_scope)
  have apply_it: "triple (at_phase tr restore_ready) (apply_restore env) (\<lambda>_. at_phase tr replaced) (\<lambda>_. at_phase tr restore_guarded)"
    unfolding apply_restore_def
    by (rule triple_call) (auto intro!: at_phase_call [of tr restore_ready] applied_restore_guarded simp: replaced_def)
  have start: "triple (at_phase tr replaced) (lifecycle_execute env START t)
      (\<lambda>r w. at_phase tr restore_guarded w \<and> (lr_outcome r = LIFECYCLE_SUCCEEDED \<longrightarrow> at_phase tr restarted w))
      (\<lambda>_. at_phase tr restore_guarded)" for t
    by (rule lifecycle_phase)
      (auto simp: replaced_def restarted_def no_restore_lists restore_guarded_more applied_restore_guarded simp del: confirmed.simps)
  have read: "restored (EvJournal (Inr x) # es)" if "restarted es" for x es
    using that unfolding restored_def restarted_def untouched_def by (metis append_Nil list.pred_inject(1))
  have "restore_guarded (EvJournal r # es)" if "restarted es" for r es
    using restore_guarded_more [OF restarted_guarded [OF that], of "[EvJournal r]"] by (simp add: no_restore_def)
  with read have "triple (at_phase tr restarted)
      (handle (call env (e_journal env) EvJournal) (\<lambda>e. if e = PalworldLogError then raise e1 else raise e))
      (\<lambda>_. at_phase tr restored) (\<lambda>_. at_phase tr restore_guarded)" for e1
    by (intro triple_handle [where R = "\<lambda>_. at_phase tr restore_guarded"] triple_call triple_if triple_raise)
      (auto intro: at_phase_call)
  then have journal: "triple (at_phase tr restarted) (verify_no_critical_logs env t e1 e2)
      (\<lambda>_. at_phase tr restored) (\<lambda>_. at_phase tr restore_guarded)" for t e1 e2
    unfolding verify_no_critical_logs_def
    by (rule triple_bnd) (auto intro!: triple_require intro: at_phase_mono restored_guarded)
  show ?thesis
    unfolding apply_restore_steps_def
    by (intro phase_then [OF point ready_guarded'] triple_andthen [OF apply_it] phase_then [OF point replaced_guarded]
        phase_bnd [OF keeps_wall_now replaced_guarded] triple_bnd [OF start] triple_andthen [OF outcome_phase]
        phase_then [OF point restarted_guarded] journal)
qed

text \<open>Once the executor is past \<open>destructive_started = True\<close>, it stays there.\<close>

definition committed :: "world \<Rightarrow> bool" where
  "committed w = w_irreversible w"

lemma committed_after [simp]:
  "committed (after_call env ev w) = committed w" "committed (after_scope w d) = committed w"
  "committed (w\<lparr>w_db := d\<rparr>) = committed w" "committed (w\<lparr>w_trace := t\<rparr>) = committed w"
  by (simp_all add: committed_def)

lemma apply_committed: "keeps committed (apply_restore_steps env (lifecycle_execute env) k data)"
  "keeps committed (complete_restore env k data i)"
  unfolding apply_restore_steps_def apply_restore_def restore_checkpoint_def verify_no_critical_logs_def complete_restore_def
  by (intro keeps_rules keeps_scope keeps_call palworld_lifecycle.exec_keeps_only;
      simp add: committed_def lifecycle_frame_def)+

definition restore_broken :: "event list \<Rightarrow> world \<Rightarrow> bool" where
  "restore_broken tr w \<longleftrightarrow> at_phase tr restore_guarded w \<and> (committed w \<or> at_phase tr unapplied w)"

lemma restore_steps_events:
  "triple (at_phase tr untouched) (restore_steps env z drive (lifecycle_execute env) k data)
     (\<lambda>_. at_phase tr restored) (\<lambda>_. restore_broken tr)"
proof -
  have late: "triple (\<lambda>w. at_phase tr P w \<and> committed w) m (\<lambda>_ w. at_phase tr Q w \<and> committed w) (\<lambda>_. restore_broken tr)"
    if "triple (at_phase tr P) m (\<lambda>_. at_phase tr Q) (\<lambda>_. at_phase tr restore_guarded)" "keeps committed m"
    for P Q and m :: "(world, unit) prog"
  proof (rule tripleI)
    fix w
    assume w: "at_phase tr P w \<and> committed w"
    show "wp m (\<lambda>_ w. at_phase tr Q w \<and> committed w) (\<lambda>_. restore_broken tr) w"
      by (rule wp_mono [OF wp_conj [OF tripleD [OF that(1)] tripleD [OF keepsD [OF that(2)]]]])
        (use w in \<open>auto simp: restore_broken_def\<close>)
  qed
  have stop: "triple (at_phase tr untouched) (stop_for_restore env z drive (lifecycle_execute env) k data)
      (\<lambda>_. at_phase tr restore_ready) (\<lambda>_. restore_broken tr)"
    by (rule triple_conseq [OF stop_restore_ready])
      (auto simp: restore_broken_def intro: at_phase_mono unapplied_guarded)
  have commit: "triple (at_phase tr restore_ready) (modify (\<lambda>w. w\<lparr>w_irreversible := True\<rparr>))
      (\<lambda>_ w. at_phase tr restore_ready w \<and> committed w) (\<lambda>_. restore_broken tr)"
    by (simp add: triple_def wp_modify committed_def at_phase_def)
  have fin: "triple (at_phase tr restored) (complete_restore env k data i) (\<lambda>_. at_phase tr restored)
      (\<lambda>_. at_phase tr restore_guarded)" for i
    unfolding complete_restore_def
    by (rule phase_last [of tr restored]) (auto intro!: keeps_rules keeps_at_phase_scope intro: restored_guarded)
  show ?thesis
    unfolding restore_steps_def
    by (rule triple_bnd [OF stop triple_andthen [OF commit triple_andthen [OF late [OF apply_restored apply_committed(1)]
        triple_conseq [OF late [OF fin apply_committed(2)]]]]]) auto
qed

section \<open>The job\<close>

abbreviation restoring :: "int \<Rightarrow> string \<Rightarrow> world \<Rightarrow> bool" where
  "restoring k kind \<equiv> in_db (started_db k kind False)"

interpretation restoring_files: retention_frame "restoring k kind" env for k kind env
  by unfold_locales (auto simp: in_db_def started_db_def find_job_def)

lemma started_stable: "leaves_started k env \<Longrightarrow> stable env (started_db k kind b)"
  unfolding stable_def by (intro allI impI) (rule started_interfere)

lemma restoring_call: "keeps (restoring k kind) (call env f ev)"
  by (rule keeps_call) simp

lemma restoring_point:
  assumes "leaves_started k env"
  shows "keeps (restoring k kind) (restore_checkpoint env k s n b)"
  unfolding restore_checkpoint_def
proof (rule scope_keeps [OF started_stable [OF assms]])
  fix d
  assume "started_db k kind False d"
  then obtain j where j: "find_job k d = Some j" "j_status j = JOB_STATUS_RUNNING" "j_kind j = kind"
    by (auto simp: started_db_def)
  then show "wp (restore_checkpoint_tx k s n b) (\<lambda>_. started_db k kind False) (\<lambda>_ _. True) d"
    using find_job_id [OF j(1)]
    by (simp add: restore_checkpoint_tx_def wp_bnd wp_andthen wp_get_one_job wp_require wp_put_job started_db_def)
qed

lemma restoring_lifecycle: "keeps (restoring k kind) (lifecycle_execute env a t)"
  by (rule palworld_lifecycle.exec_keeps_only) (simp add: in_db_def lifecycle_frame_def)

lemma restoring_steps:
  assumes env: "leaves_started k env"
  shows "keeps (restoring k kind) (stop_for_restore env z drive (lifecycle_execute env) k data)"
    and "keeps (restoring k kind) (apply_restore_steps env (lifecycle_execute env) k data)"
proof -
  have find: "keeps (restoring k kind) (session_scope env (bnd (reads (find_backup i)) (\<lambda>found. case found of
      None \<Rightarrow> raise e | Some r \<Rightarrow> ret r)))" for i e
    by (rule scope_keeps [OF started_stable [OF env]]) (simp add: wp_simps split: option.split)
  have source: "keeps (restoring k kind) (prepare_source env drive k data)"
    unfolding prepare_source_def prepare_restore_def prepare_remote_def download_temporary_def Let_def
    by (intro keeps_rules keeps_case_prod find restoring_point [OF env] restoring_call restoring_files.resolve
        restoring_files.step restoring_files.directory restoring_files.inspect restoring_files.tree)
  have backup: "keeps (restoring k kind) (preventive_restore_backup env k)"
    unfolding preventive_restore_backup_def
    by (intro keeps_rules restoring_files.create restoring_point [OF env] keeps_modify) simp
  have register_it: "keeps (restoring k kind) (register_preventive env z k a pres target role)" for a pres target role
    unfolding register_preventive_def
    by (intro block_keeps [OF started_stable [OF env]] keeps_rules keeps_modify restoring_files.retention
        restoring_files.register restoring_files.settings restoring_files.audit) simp
  show "keeps (restoring k kind) (stop_for_restore env z drive (lifecycle_execute env) k data)"
    unfolding stop_for_restore_def
    by (intro keeps_rules source backup register_it restoring_point [OF env] restoring_lifecycle)
  show "keeps (restoring k kind) (apply_restore_steps env (lifecycle_execute env) k data)"
    unfolding apply_restore_steps_def apply_restore_def verify_no_critical_logs_def
    by (intro keeps_rules restoring_point [OF env] restoring_call restoring_lifecycle)
qed

lemma restore_notifications: "''RESTORE_FAILED'' \<in> set SUPPORTED_DISCORD_EVENT_TYPES"
  "''RESTORE_COMPLETED'' \<in> set SUPPORTED_DISCORD_EVENT_TYPES"
  by code_simp+

lemma complete_restoring:
  assumes env: "leaves_started k env"
  shows "triple (restoring k kind) (complete_restore env k data i) (\<lambda>_. in_db (job_is k JOB_STATUS_SUCCEEDED)) (\<lambda>_ _. False)"
proof -
  have tx: "wp (complete_restore_tx k data i now) (\<lambda>_. job_is k JOB_STATUS_SUCCEEDED) (\<lambda>_ _. False) d"
    if "started_db k kind False d" for d now
  proof -
    from that obtain j where j: "find_job k d = Some j" by (auto simp: started_db_def)
    then show ?thesis
      using find_job_id [OF j(1)]
      by (simp add: complete_restore_tx_def wp_andthen wp_update_job wp_record_audit_event' wp_enqueue_discord
          restore_notifications job_is_def)
  qed
  have "triple (restoring k kind) (session_scope env (complete_restore_tx k data i now))
      (\<lambda>_. in_db (job_is k JOB_STATUS_SUCCEEDED)) (\<lambda>_ _. False)" for now
    by (rule triple_conseq [OF scope_sure [OF started_stable [OF env] tx]]) (auto simp: in_db_def)
  then show ?thesis
    unfolding complete_restore_def by (intro triple_bnd [OF triple_wall_now [where Q = "\<lambda>_. restoring k kind"]])
qed

text \<open>\<open>failed_for b\<close>: the job is over, with \<open>b\<close> stored as the request of a manual review.\<close>

definition failed_for :: "int \<Rightarrow> bool \<Rightarrow> db \<Rightarrow> bool" where
  "failed_for k b d \<longleftrightarrow> job_is k JOB_STATUS_FAILED d \<and> (b \<longrightarrow> marked_for_review k d)"

lemma fail_restoring:
  assumes env: "leaves_started k env"
  shows "triple (restoring k kind) (fail_restore env k data c m b i) (\<lambda>_. in_db (failed_for k b)) (\<lambda>_ _. False)"
proof -
  have tx: "wp (failed_restore_tx k data c m b i now) (\<lambda>_. failed_for k b) (\<lambda>_ _. False) d"
    if "started_db k kind False d" for d now
  proof -
    from that obtain j where j: "find_job k d = Some j" by (auto simp: started_db_def)
    then show ?thesis
      using find_job_id [OF j(1)]
      by (simp add: failed_restore_tx_def wp_andthen wp_update_job wp_record_audit_event' wp_enqueue_discord
          restore_notifications failed_for_def job_is_def marked_for_review_def dict_of_def dict_get_merge)
  qed
  have "triple (restoring k kind) (session_scope env (failed_restore_tx k data c m b i now))
      (\<lambda>_. in_db (failed_for k b)) (\<lambda>_ _. False)" for now
    by (rule triple_conseq [OF scope_sure [OF started_stable [OF env] tx]]) (auto simp: in_db_def)
  then show ?thesis
    unfolding fail_restore_def by (intro triple_bnd [OF triple_wall_now [where Q = "\<lambda>_. restoring k kind"]])
qed

definition restore_ended :: "int \<Rightarrow> event list \<Rightarrow> world \<Rightarrow> bool" where
  "restore_ended k tr w \<longleftrightarrow> job_is k JOB_STATUS_SUCCEEDED (w_db w) \<and> at_phase tr restored w
     \<or> job_is k JOB_STATUS_FAILED (w_db w) \<and> at_phase tr restore_guarded w
         \<and> (at_phase tr unapplied w \<or> marked_for_review k (w_db w))"

lemma restore_steps_end:
  assumes env: "leaves_started k env"
  shows "triple (\<lambda>w. restoring k kind w \<and> at_phase tr untouched w) (restore_steps env z drive (lifecycle_execute env) k data)
    (\<lambda>_. restore_ended k tr) (\<lambda>_ w. restoring k kind w \<and> restore_broken tr w)"
proof -
  have db: "triple (restoring k kind) (restore_steps env z drive (lifecycle_execute env) k data)
      (\<lambda>_. in_db (job_is k JOB_STATUS_SUCCEEDED)) (\<lambda>_. restoring k kind)"
    unfolding restore_steps_def
    by (intro triple_bnd [OF keepsD [OF restoring_steps(1) [OF env]]] triple_andthen [OF keepsD [OF keeps_modify]]
        triple_andthen [OF keepsD [OF restoring_steps(2) [OF env]]] triple_conseq [OF complete_restoring [OF env]]) auto
  show ?thesis
  proof (rule tripleI)
    fix w
    assume w: "restoring k kind w \<and> at_phase tr untouched w"
    show "wp (restore_steps env z drive (lifecycle_execute env) k data)
      (\<lambda>_. restore_ended k tr) (\<lambda>_ w. restoring k kind w \<and> restore_broken tr w) w"
      by (rule wp_mono [OF wp_conj [OF tripleD [OF db] tripleD [OF restore_steps_events]]])
        (use w in \<open>auto simp: restore_ended_def in_db_def\<close>)
  qed
qed

lemma fail_ends_restore:
  assumes env: "leaves_started k env" and w: "restoring k kind w" "at_phase tr restore_guarded w" "b \<or> at_phase tr unapplied w"
  shows "wp (fail_restore env k data c m b i) (\<lambda>_. restore_ended k tr) (\<lambda>_ _. False) w"
proof -
  have keep: "keeps (at_phase tr P) (fail_restore env k data c m b i)" for P
    unfolding fail_restore_def by (intro keeps_rules keeps_at_phase_scope)
  note base = wp_conj [OF tripleD [OF fail_restoring [OF env] w(1)] tripleD [OF keepsD [OF keep] w(2)]]
  show ?thesis
  proof (cases b)
    case True
    then show ?thesis
      by (intro wp_mono [OF base]) (auto simp: restore_ended_def failed_for_def in_db_def)
  next
    case False
    with w(3) have "at_phase tr unapplied w" by simp
    from wp_conj [OF base tripleD [OF keepsD [OF keep] this]] show ?thesis
      by (rule wp_mono) (auto simp: restore_ended_def failed_for_def in_db_def)
  qed
qed

lemma removed_first:
  assumes "restoring k kind w" and "at_phase tr restore_guarded w" and "b \<or> at_phase tr unapplied w"
  shows "wp (remove_managed_artifact env p)
    (\<lambda>_ w. restoring k kind w \<and> at_phase tr restore_guarded w \<and> (b \<or> at_phase tr unapplied w)) removal_refused w"
proof -
  note base = wp_conj [OF remove_refused [of env p w] tripleD [OF keepsD [OF restore_guarded_phase.files.remove] assms(2)]]
  show ?thesis
  proof (cases b)
    case True
    then show ?thesis by (intro wp_mono [OF base]) (use assms(1) in \<open>auto simp: in_db_def\<close>)
  next
    case False
    with assms(3) have "at_phase tr unapplied w" by simp
    from wp_conj [OF base tripleD [OF keepsD [OF unapplied_phase.files.remove] this]] show ?thesis
      by (rule wp_mono) (use assms(1) in \<open>auto simp: in_db_def\<close>)
  qed
qed

lemma restore_failed_ends:
  assumes env: "leaves_started k env" and w: "restoring k kind w" "restore_broken tr w"
  shows "wp (restore_failed env k data e) (\<lambda>_. restore_ended k tr)
    (\<lambda>e w. restore_ended k tr w \<or> removal_refused e w) w"
proof -
  have b: "at_phase tr restore_guarded w" "w_irreversible w \<or> at_phase tr unapplied w"
    using w(2) by (auto simp: restore_broken_def committed_def)
  note fin = fail_ends_restore [OF env]
  have unexpected: "wp (andthen (case p of Some (path, None) \<Rightarrow> andthen (remove_managed_artifact env path) (ret ()) | _ \<Rightarrow> ret ())
        (andthen (fail_restore env k data c m (w_irreversible w) i) (raise e)))
      (\<lambda>_. restore_ended k tr) (\<lambda>e w. restore_ended k tr w \<or> removal_refused e w) w" for p c m i
  proof -
    have quiet: "wp (andthen (fail_restore env k data c m (w_irreversible w) i) (raise e))
        (\<lambda>_. restore_ended k tr) (\<lambda>e w. restore_ended k tr w \<or> removal_refused e w) v"
      if "restoring k kind v" "at_phase tr restore_guarded v" "w_irreversible w \<or> at_phase tr unapplied v" for v
      unfolding wp_andthen wp_raise by (rule wp_mono [OF fin [OF that]]) simp_all
    show ?thesis
    proof (cases p)
      case None
      then show ?thesis using quiet [OF w(1) b] by (simp add: wp_andthen wp_ret)
    next
      case (Some q)
      show ?thesis
      proof (cases q)
        case (Pair path r)
        show ?thesis
        proof (cases r)
          case None
          have "wp (andthen (andthen (remove_managed_artifact env path) (ret ()))
              (andthen (fail_restore env k data c m (w_irreversible w) i) (raise e)))
              (\<lambda>_. restore_ended k tr) (\<lambda>e w. restore_ended k tr w \<or> removal_refused e w) w"
            unfolding wp_andthen [of "andthen _ _"] wp_andthen [of "remove_managed_artifact _ _"]
            by (rule wp_mono [OF removed_first [OF w(1) b]]) (elim conjE, subst wp_ret, rule quiet, assumption+, rule disjI2)
          then show ?thesis by (simp add: Some Pair None)
        qed (use quiet [OF w(1) b] Some Pair in \<open>simp add: wp_andthen wp_ret\<close>)
      qed
    qed
  qed
  have quietly: "wp (fail_restore env k data c m (w_irreversible w) i)
      (\<lambda>_. restore_ended k tr) (\<lambda>e w. restore_ended k tr w \<or> removal_refused e w) w" for c m i
    by (rule wp_mono [OF fin [OF w(1) b]]) simp_all
  show ?thesis
    unfolding restore_failed_def wp_bnd wp_reads case_prod_conv Let_def
    using unexpected quietly by (cases e) simp_all
qed

definition cleanup_refused :: "exn \<Rightarrow> world \<Rightarrow> bool" where
  "cleanup_refused e w \<longleftrightarrow> (\<exists>rest. w_trace w = EvRestoreCleanup # EvFileStep ''unlink'' (Inl e) # rest
     \<or> w_trace w = EvRestoreCleanup # EvDirectory (Inl e) # rest)"

lemma execute_restore_ends:
  assumes env: "leaves_started k env" and w: "find_job k (w_db w) = Some j" "j_status j = JOB_STATUS_RUNNING"
    "j_kind j \<in> set RESTORE_JOB_KINDS" "restore_parameters j = Inr data"
  shows "wp (execute_restore env z drive (lifecycle_execute env) k) (\<lambda>_. restore_ended k (w_trace w))
    (\<lambda>e v. e = Diverges \<or> restore_ended k (w_trace w) v \<or> cleanup_refused e v) w"
proof -
  let ?tr = "w_trace w" and ?kind = "j_kind j"
  let ?E = "\<lambda>e v. e = Diverges \<or> restore_ended k ?tr v \<or> cleanup_refused e v"
  have clean: "restore_ended k ?tr (v\<lparr>w_trace := EvRestoreCleanup # w_trace v\<rparr>)" if "restore_ended k ?tr v" for v
  proof -
    have n: "no_server EvRestoreCleanup" by (simp add: no_server_def)
    have "at_phase ?tr restored v \<Longrightarrow> at_phase ?tr restored (v\<lparr>w_trace := EvRestoreCleanup # w_trace v\<rparr>)"
      "at_phase ?tr restore_guarded v \<Longrightarrow> at_phase ?tr restore_guarded (v\<lparr>w_trace := EvRestoreCleanup # w_trace v\<rparr>)"
      "at_phase ?tr unapplied v \<Longrightarrow> at_phase ?tr unapplied (v\<lparr>w_trace := EvRestoreCleanup # w_trace v\<rparr>)"
      by (erule at_phase_event, erule restored_phase.calm [OF n])
        (erule at_phase_event, erule restore_guarded_phase.calm [OF n],
         erule at_phase_event, erule unapplied_phase.calm [OF n])
    with that show ?thesis by (auto simp: restore_ended_def)
  qed
  have handled: "triple (\<lambda>v. restoring k ?kind v \<and> at_phase ?tr untouched v)
      (handle (restore_steps env z drive (lifecycle_execute env) k data) (restore_failed env k data))
      (\<lambda>_. restore_ended k ?tr) (\<lambda>e v. e = Diverges \<or> restore_ended k ?tr v \<or> removal_refused e v)"
    by (rule triple_handle [OF restore_steps_end [OF env]])
      (auto intro!: tripleI intro: wp_mono [OF restore_failed_ends [OF env]])
  have body: "triple (\<lambda>v. restoring k ?kind v \<and> at_phase ?tr untouched v)
      (always (handle (restore_steps env z drive (lifecycle_execute env) k data) (restore_failed env k data)) restore_cleanup)
      (\<lambda>_. restore_ended k ?tr) ?E"
    by (rule triple_always [OF handled])
      (auto simp: triple_def restore_cleanup_def wp_modify clean removal_refused_def cleanup_refused_def)
  have load: "triple (\<lambda>v. (\<exists>c x. find_job k (w_db v) = Some (j\<lparr>j_cancel_requested := c, j_execute_now_requested := x\<rparr>))
        \<and> at_phase ?tr untouched v)
      (load_restore_request env k) (\<lambda>r v. r = data \<and> restoring k ?kind v \<and> at_phase ?tr untouched v) ?E"
  proof (rule tripleI)
    fix v :: world
    assume v: "(\<exists>c x. find_job k (w_db v) = Some (j\<lparr>j_cancel_requested := c, j_execute_now_requested := x\<rparr>)) \<and> at_phase ?tr untouched v"
    then obtain c x where "find_job k (w_db v) = Some (j\<lparr>j_cancel_requested := c, j_execute_now_requested := x\<rparr>)" by blast
    then obtain c' x' where found: "find_job k (e_interfere env (w_tick v) (w_db v))
        = Some (j\<lparr>j_cancel_requested := c', j_execute_now_requested := x'\<rparr>)"
      using env w(2) unfolding leaves_started_def by fastforce
    have "restore_parameters (j\<lparr>j_cancel_requested := c', j_execute_now_requested := x'\<rparr>) = restore_parameters j"
      by (simp add: restore_parameters_def)
    then show "wp (load_restore_request env k) (\<lambda>r v. r = data \<and> restoring k ?kind v \<and> at_phase ?tr untouched v) ?E v"
      using found v w
      by (simp add: load_restore_request_def wp_simps Let_def in_db_def started_db_def at_phase_def)
  qed
  have "triple (\<lambda>v. (\<exists>c x. find_job k (w_db v) = Some (j\<lparr>j_cancel_requested := c, j_execute_now_requested := x\<rparr>))
        \<and> at_phase ?tr untouched v)
      (bnd (load_restore_request env k) (\<lambda>data. always (handle (restore_steps env z drive (lifecycle_execute env) k data)
         (restore_failed env k data)) restore_cleanup)) (\<lambda>_. restore_ended k ?tr) ?E"
    by (rule triple_bnd [OF load]) (use body in \<open>auto simp: triple_def\<close>)
  moreover have "\<exists>c x. find_job k (w_db w) = Some (j\<lparr>j_cancel_requested := c, j_execute_now_requested := x\<rparr>)"
    using w(1) flags_same by metis
  ultimately show ?thesis
    unfolding execute_restore_def wp_andthen wp_modify by (auto simp: triple_def at_phase_def untouched_def)
qed

text \<open>
  C28: a restore whose stored parameters are readable always ends. SUCCEEDED means that the files were
  replaced after a preventive backup and a confirmed stop, and that the server was started again and
  its log read afterwards (the check of the log passes only without a critical entry since the start,
  \<open>verify_finds_nothing_critical\<close>). FAILED means that the files were not touched, or that they were touched only after
  the backup and the stop and the job asks for a manual review. The one exception is an archive of the
  preventive backup that can neither be registered nor be removed: then the removal's exception is raised.
\<close>

theorem restore_job_safe:
  assumes "leaves_started k env"
    and "find_job k (w_db w) = Some j" and "j_status j = JOB_STATUS_RUNNING" and "j_kind j \<in> set RESTORE_JOB_KINDS"
    and "restore_parameters j = Inr data"
    and "execute_restore env z drive (lifecycle_execute env) k w = (res, w')" and "res \<noteq> Inl Diverges"
  shows "(\<exists>e. res = Inl e \<and> cleanup_refused e w')
    \<or> (\<exists>j' es. find_job k (w_db w') = Some j' \<and> w_trace w' = es @ w_trace w \<and> j_progress j' = 100
       \<and> (j_status j' = JOB_STATUS_SUCCEEDED \<and> restored es
        \<or> j_status j' = JOB_STATUS_FAILED \<and> restore_guarded es
            \<and> (unapplied es \<or> dict_get (dict_of (j_result j')) ''requires_manual_review'' = Some (JBool True))))"
proof -
  from execute_restore_ends [OF assms(1-5), of z drive] have "(\<exists>e. res = Inl e \<and> cleanup_refused e w') \<or> restore_ended k (w_trace w) w'"
    using assms(6,7) by (auto simp: wp_def split: sum.splits)
  moreover have ?thesis if ended: "restore_ended k (w_trace w) w'"
  proof -
    from ended obtain es where es: "w_trace w' = es @ w_trace w" by (auto simp: restore_ended_def at_phase_def)
    then have "at_phase (w_trace w) P w' \<longleftrightarrow> P es" for P by (auto simp: at_phase_def)
    with ended have cases: "job_is k JOB_STATUS_SUCCEEDED (w_db w') \<and> restored es
        \<or> job_is k JOB_STATUS_FAILED (w_db w') \<and> restore_guarded es \<and> (unapplied es \<or> marked_for_review k (w_db w'))"
      by (simp add: restore_ended_def)
    then obtain j' where "find_job k (w_db w') = Some j'" by (auto simp: job_is_def)
    with cases es show ?thesis by (auto simp: job_is_def marked_for_review_def)
  qed
  ultimately show ?thesis by blast
qed

definition restore_world :: world where
  "restore_world = start_world (empty_db\<lparr>jobs := [(new_job LOCAL_RESTORE_JOB_KIND False True LOCAL_RESTORE_COORDINATION_KEY None
     [(''backup_record_id'', JInt 3), (''source_filename'', JStr ''b.tar.gz''), (''source_location'', JStr ''LOCAL''),
      (''stop_timeout_seconds'', JInt 60), (''start_timeout_seconds'', JInt 120)] 0 1)\<lparr>j_status := JOB_STATUS_RUNNING\<rparr>]\<rparr>)"

abbreviation "restore_run \<equiv> execute_restore calm_env (\<lambda>_. True) False (lifecycle_execute calm_env) 1 restore_world"

text \<open>Its backup is gone, so the restore fails with the files untouched.\<close>

lemma restore_world_run: "fst restore_run = Inr ()"
  by (simp add: run_simps calm_env_simps execute_restore_def load_restore_request_def restore_world_def start_world_def
      empty_db_def get_one_job_def find_job_def row_get_def new_job_def RESTORE_JOB_KINDS_def LOCAL_RESTORE_JOB_KIND_def
      REMOTE_RESTORE_JOB_KIND_def lift_run restore_parameters_def dict_of_def dict_get_def json_int_def json_str_def Let_def
      restore_steps_def stop_for_restore_def prepare_source_def find_backup_def data_int_def restore_failed_def
      fail_restore_def failed_restore_tx_def update_job_def put_job_def row_put_def record_audit_event_def
      prune_expired_audit_events_def enqueue_discord_notification_def SUPPORTED_DISCORD_EVENT_TYPES_def
      NOTIFICATION_CHANNEL_DISCORD_def restore_cleanup_def)

theorem restore_job_safe_witness:
  "(\<exists>e. fst restore_run = Inl e \<and> cleanup_refused e (snd restore_run))
    \<or> (\<exists>j' es. find_job 1 (w_db (snd restore_run)) = Some j' \<and> w_trace (snd restore_run) = es @ w_trace restore_world
       \<and> j_progress j' = 100
       \<and> (j_status j' = JOB_STATUS_SUCCEEDED \<and> restored es
        \<or> j_status j' = JOB_STATUS_FAILED \<and> restore_guarded es
            \<and> (unapplied es \<or> dict_get (dict_of (j_result j')) ''requires_manual_review'' = Some (JBool True))))"
proof (rule restore_job_safe [OF leaves_started_calm _ _ _ _ prod.collapse [symmetric]])
  let ?j = "(new_job LOCAL_RESTORE_JOB_KIND False True LOCAL_RESTORE_COORDINATION_KEY None
     [(''backup_record_id'', JInt 3), (''source_filename'', JStr ''b.tar.gz''), (''source_location'', JStr ''LOCAL''),
      (''stop_timeout_seconds'', JInt 60), (''start_timeout_seconds'', JInt 120)] 0 1)\<lparr>j_status := JOB_STATUS_RUNNING\<rparr>"
  show "find_job 1 (w_db restore_world) = Some ?j"
    by (simp add: restore_world_def start_world_def find_job_def row_get_def new_job_def)
  show "restore_parameters ?j = Inr [(''backup_record_id'', JInt 3), (''source_filename'', JStr ''b.tar.gz''),
      (''source_location'', JStr ''LOCAL''), (''stop_timeout_seconds'', JInt 60), (''start_timeout_seconds'', JInt 120)]"
    by (simp add: restore_parameters_def new_job_def dict_of_def dict_get_def json_int_def json_str_def
        LOCAL_RESTORE_JOB_KIND_def REMOTE_RESTORE_JOB_KIND_def)
qed (simp_all add: new_job_def RESTORE_JOB_KINDS_def restore_world_run)

end
