(* ===== verification/WorkerLoop.thy ===== *)
theory WorkerLoop
  imports DriveRun RestoreSafe HostPower
begin

text \<open>
  The worker process: the text logs of the jobs (\<open>app/jobs/logs.py\<close>), one step of the worker with the
  dispatch of the claimed job to its executor (\<open>app/lifecycle/worker.py\<close>), and the start and the main
  loop of the process (\<open>app/worker.py\<close>). Opening and writing files are steps of the environment.
\<close>

section \<open>Text logs of the jobs\<close>

definition JOB_LOG_RETENTION_DAYS :: int where "JOB_LOG_RETENTION_DAYS = 90"

definition SAFE_KIND_PATTERN :: "string \<Rightarrow> bool" where
  "SAFE_KIND_PATTERN s = (1 \<le> length s \<and> length s \<le> 100
     \<and> list_all (\<lambda>c. is_upper c \<or> is_digit c \<or> c = CHR ''_'') s)"

definition SAFE_YEAR_PATTERN :: "string \<Rightarrow> bool" where
  "SAFE_YEAR_PATTERN s = (length s = 4 \<and> list_all is_digit s)"

text \<open>The last eleven characters of a file name are a hyphen, six digits and the suffix.\<close>

definition SAFE_LOG_FILENAME_PATTERN :: "string \<Rightarrow> bool" where
  "SAFE_LOG_FILENAME_PATTERN s =
     (let stem = take (length s - 11) s; rest = drop (length s - 11) s in
      1 \<le> length stem \<and> length stem \<le> 120
      \<and> list_all (\<lambda>c. is_lower c \<or> is_digit c \<or> c = CHR ''-'') stem
      \<and> Option.bind (eat_exact ''-'' rest) (eat_count is_digit 6) = Some ''.log'')"

definition job_log_path :: "int \<Rightarrow> string \<Rightarrow> int \<Rightarrow> string" where
  "job_log_path job_id kind timestamp =
     (case civil_from_days (day_number timestamp) of (year, month, day) \<Rightarrow>
        ''jobs/'' @ padded 4 year @ ''/''
        @ map (\<lambda>c. if c = CHR ''_'' then CHR ''-'' else to_lower c) kind @ ''-'' @ pad6 job_id @ ''.log'')"

text \<open>\<open>_resolve\<close>: whether a reference is accepted.\<close>

definition resolves_log :: "env \<Rightarrow> string \<Rightarrow> bool" where
  "resolves_log env relative =
     (\<not> starts_with relative ''/''
      \<and> (case path_parts relative of
            [base, year, filename] \<Rightarrow> base = ''jobs'' \<and> SAFE_YEAR_PATTERN year \<and> SAFE_LOG_FILENAME_PATTERN filename
              \<and> \<not> e_symlink env ''jobs'' \<and> \<not> e_symlink env (''jobs/'' @ year)
          | _ \<Rightarrow> False))"

definition log_line :: "string \<Rightarrow> string \<Rightarrow> (world, unit) prog" where
  "log_line path message = modify (\<lambda>w. w\<lparr>w_trace := EvLog path message # w_trace w\<rparr>)"

definition job_logs_create :: "env \<Rightarrow> int \<Rightarrow> string \<Rightarrow> (world, string) prog" where
  "job_logs_create env job_id kind =
     andthen (require (0 < job_id \<and> SAFE_KIND_PATTERN kind) ValueError)
     (bnd (wall_now env) (\<lambda>timestamp.
      let relative = job_log_path job_id kind timestamp in
      andthen (require (resolves_log env relative) ValueError)
     (andthen (file_step env ''mkdir'')
     (andthen (file_step env ''open'')
     (andthen (file_step env ''write'')
     (andthen (log_line relative ''Job adquirido pelo worker.'') (ret relative)))))))"

definition job_logs_append :: "env \<Rightarrow> string \<Rightarrow> string \<Rightarrow> (world, unit) prog" where
  "job_logs_append env path message =
     andthen (require (CHR 0x0D \<notin> set message \<and> CHR 0x0A \<notin> set message) ValueError)
     (andthen (require (resolves_log env path) ValueError)
     (andthen (file_step env ''open'')
     (andthen (file_step env ''write'') (log_line path message))))"

text \<open>
  \<open>prune\<close> over what the file system lists: the entries of \<open>jobs\<close> with their files ending in \<open>.log\<close>; a
  file that is no regular one, or whose state cannot be read, has no time of modification.
\<close>

record log_directory =
  ld_name :: string
  ld_symlink :: bool
  ld_directory :: bool
  ld_files :: "(string \<times> int option) list"

definition expired_logs :: "int \<Rightarrow> log_directory list \<Rightarrow> string list" where
  "expired_logs now dirs =
     concat (map (\<lambda>d. if ld_symlink d \<or> \<not> ld_directory d \<or> \<not> SAFE_YEAR_PATTERN (ld_name d) then []
        else List.map_filter (\<lambda>(name, modified_at). case modified_at of
               None \<Rightarrow> None
             | Some t \<Rightarrow> if t < now - days JOB_LOG_RETENTION_DAYS then Some (''jobs/'' @ ld_name d @ ''/'' @ name) else None)
             (ld_files d)) dirs)"

definition job_logs_prune :: "env \<Rightarrow> log_directory list option \<Rightarrow> int \<Rightarrow> (world, nat) prog" where
  "job_logs_prune env listing now = (case listing of
       None \<Rightarrow> ret 0
     | Some dirs \<Rightarrow> andthen (for_each (expired_logs now dirs) (\<lambda>p. file_step env ''unlink''))
         (ret (length (expired_logs now dirs))))"

section \<open>One step of the worker\<close>

definition shutdown_kinds :: "string list" where
  "shutdown_kinds = map shutdown_kind_value [ASSISTED, FORCE_TERM, FORCE_KILL]"

text \<open>\<open>_supported_kinds\<close> of a worker with every executor, as \<open>app/worker.py\<close> builds it.\<close>

definition supported_kinds :: "string list" where
  "supported_kinds = map lifecycle_job_kind [START, STOP, RESTART] @ shutdown_kinds @ [LOCAL_BACKUP_JOB_KIND]
     @ RESTORE_JOB_KINDS @ DRIVE_JOB_KINDS @ UPDATE_JOB_KINDS @ HOST_POWER_JOB_KINDS"

text \<open>The transaction at the start of \<open>process_next\<close>.\<close>

definition claim_step :: "env \<Rightarrow> string \<Rightarrow> (world, (int \<times> string \<times> string) option) prog" where
  "claim_step env worker_id = session_block env
     (bnd (wall_now env) (\<lambda>now.
      bnd (on_db (claim_next_job worker_id supported_kinds now)) (\<lambda>found. case found of
        None \<Rightarrow> ret None
      | Some j \<Rightarrow> bnd (job_logs_create env (j_id j) (j_kind j)) (\<lambda>path.
          andthen (on_db (put_job (j\<lparr>j_log_path := Some path\<rparr>))) (ret (Some (j_id j, j_kind j, path)))))))"

definition execute_lifecycle :: "env \<Rightarrow> int \<Rightarrow> (world, unit) prog" where
  "execute_lifecycle env k = execute_lifecycle_job env k (lifecycle_execute env)"

text \<open>The dispatch inside the \<open>try\<close>. \<open>_append_log\<close> swallows what a file operation raises.\<close>

definition dispatch ::
  "env \<Rightarrow> (string \<Rightarrow> bool) \<Rightarrow> bool \<Rightarrow> int \<Rightarrow> string \<Rightarrow> string \<Rightarrow> (world, unit) prog" where
  "dispatch env zone_ok drive_available k kind path =
     andthen (log_line path (msg_text ''Execu_c~ao iniciada.''))
       (if kind = LOCAL_BACKUP_JOB_KIND then
          andthen (log_line path (msg_text ''Valida_c~ao de consist^encia e backup local iniciados.''))
            (bnd (execute_local_backup env zone_ok True k) (\<lambda>_. ret ()))
        else if kind \<in> set RESTORE_JOB_KINDS then
          andthen (log_line path (if kind = REMOTE_RESTORE_JOB_KIND
              then msg_text ''Download e valida_c~ao do Restore remoto iniciados.''
              else msg_text ''Valida_c~ao integral e backup preventivo do Restore iniciados.''))
            (execute_restore env zone_ok drive_available (lifecycle_execute env) k)
        else if kind \<in> set DRIVE_JOB_KINDS then
          andthen (log_line path (msg_text ''Opera_c~ao gerenciada no Google Drive iniciada.''))
            (execute_drive_job env zone_ok k)
        else if kind \<in> set UPDATE_JOB_KINDS then
          andthen (log_line path (msg_text ''Opera_c~ao manual de Update iniciada.''))
            (execute_update_job env zone_ok (lifecycle_execute env) k)
        else if kind \<in> set HOST_POWER_JOB_KINDS then
          andthen (log_line path (msg_text ''Valida_c~ao do Palworld e controle de energia do Ubuntu iniciados.''))
            (execute_host_power_job env k (lifecycle_execute env))
        else if kind \<in> set shutdown_kinds then
          (if kind = shutdown_kind_value ASSISTED
           then execute_assisted_shutdown_job env k (lifecycle_execute env)
           else execute_forced_shutdown_job env k)
        else execute_lifecycle env k)"

text \<open>The \<open>except\<close> clause; the executors of backups, restores and Drive jobs end their own jobs.\<close>

definition dispatch_failed :: "env \<Rightarrow> int \<Rightarrow> string \<Rightarrow> string \<Rightarrow> (world, unit) prog" where
  "dispatch_failed env k kind path =
     andthen (log_line path (msg_text ''Execu_c~ao falhou de forma inesperada.''))
       (if kind \<in> set UPDATE_JOB_KINDS then fail_unexpected_update env k
        else if kind \<in> set HOST_POWER_JOB_KINDS then fail_unexpected_host_power env k
        else if kind \<in> set (LOCAL_BACKUP_JOB_KIND # RESTORE_JOB_KINDS @ DRIVE_JOB_KINDS) then ret ()
        else if kind \<in> set shutdown_kinds then fail_shutdown_job env k
        else bnd (wall_now env) (\<lambda>now. session_scope env (fail_lifecycle_job k now)))"

definition log_outcome :: "env \<Rightarrow> int \<Rightarrow> string \<Rightarrow> (world, unit) prog" where
  "log_outcome env k path =
     bnd (session_scope env (bnd (get_one_job k) (\<lambda>j. ret (j_status j)))) (\<lambda>final_status.
       log_line path (if final_status = JOB_STATUS_SUCCEEDED then msg_text ''Execu_c~ao finalizada.''
         else msg_text ''Execu_c~ao finalizada com falha controlada.''))"

text \<open>\<open>try\<close>, \<open>except\<close>, \<open>else\<close> and \<open>finally\<close>.\<close>

definition run_claimed ::
  "env \<Rightarrow> (string \<Rightarrow> bool) \<Rightarrow> bool \<Rightarrow> int \<Rightarrow> string \<Rightarrow> string \<Rightarrow> (world, unit) prog" where
  "run_claimed env zone_ok drive_available k kind path = always
     (bnd (handle (andthen (dispatch env zone_ok drive_available k kind path) (ret True))
             (\<lambda>e. andthen (dispatch_failed env k kind path) (ret False))) (\<lambda>returned.
        if returned then log_outcome env k path else ret ()))
     (session_scope env (release_maintenance_lock k))"

definition process_next :: "env \<Rightarrow> (string \<Rightarrow> bool) \<Rightarrow> bool \<Rightarrow> string \<Rightarrow> (world, bool) prog" where
  "process_next env zone_ok drive_available worker_id =
     bnd (claim_step env worker_id) (\<lambda>found. case found of
       None \<Rightarrow> ret False
     | Some (k, kind, path) \<Rightarrow> andthen (run_claimed env zone_ok drive_available k kind path) (ret True))"

section \<open>The process\<close>

definition prune_retained_data :: "env \<Rightarrow> log_directory list option \<Rightarrow> (world, unit) prog" where
  "prune_retained_data env listing = bnd (wall_now env) (\<lambda>current.
     andthen (session_scope env (modify (prune_expired_audit_events current)))
       (bnd (job_logs_prune env listing current) (\<lambda>_. ret ())))"

definition log_interrupted :: "env \<Rightarrow> interrupted_job \<Rightarrow> (world, unit) prog" where
  "log_interrupted env i =
     bnd (on_db (get_one_job (i_id i))) (\<lambda>j.
     bnd (case i_log_path i of
         Some p \<Rightarrow> ret p
       | None \<Rightarrow> bnd (job_logs_create env (i_id i) (i_kind i)) (\<lambda>p.
           andthen (on_db (put_job (j\<lparr>j_log_path := Some p\<rparr>))) (ret p))) (\<lambda>log_path.
     andthen (job_logs_append env log_path
         (msg_text ''Worker reiniciado; job interrompido e bloqueado para revis~ao manual.''))
       (if j_requires_maintenance_lock j
        then bnd (wall_now env) (\<lambda>now. on_db (enqueue_discord_notification ''OPERATION_INTERRUPTED'' (Some (i_id i)) now))
        else ret ())))"

definition recover_at_start :: "env \<Rightarrow> (world, interrupted_job list) prog" where
  "recover_at_start env = session_block env
     (bnd (wall_now env) (\<lambda>now.
      bnd (on_db (recover_interrupted_jobs now)) (\<lambda>jobs.
      bnd (wall_now env) (\<lambda>now'.
      andthen (bnd (on_db (reconcile_sending_notifications now')) (\<lambda>_. ret ()))
        (andthen (for_each jobs (log_interrupted env)) (ret jobs))))))"

definition start_worker :: "env \<Rightarrow> log_directory list option \<Rightarrow> bool \<Rightarrow> (world, nat) prog" where
  "start_worker env listing backups_exist =
     bnd (recover_at_start env) (\<lambda>interrupted_jobs.
     andthen (prune_retained_data env listing)
       (cleanup_interrupted_artifacts env backups_exist
          (map i_id (filter (\<lambda>i. i_kind i = LOCAL_BACKUP_JOB_KIND) interrupted_jobs))))"

text \<open>One turn of the loop; \<open>sweep\<close> says whether the hourly retention is due. Nothing catches what it raises.\<close>

definition worker_turn ::
  "env \<Rightarrow> (string \<Rightarrow> (int \<Rightarrow> int) option) \<Rightarrow> bool \<Rightarrow> string \<Rightarrow> bool \<Rightarrow> log_directory list option \<Rightarrow> (world, bool \<times> bool) prog" where
  "worker_turn env zone drive_available worker_id sweep listing =
     andthen (if sweep then prune_retained_data env listing else ret ())
     (andthen (bnd (wall_now env) (\<lambda>now. bnd (session_scope env (schedule_daily_backup zone now)) (\<lambda>_. ret ())))
     (bnd (process_next env (\<lambda>z. zone z \<noteq> None) drive_available worker_id) (\<lambda>job_processed.
      bnd (bnd (wall_now env) (process_next_notification env)) (\<lambda>notification_processed.
        ret (job_processed, notification_processed)))))"

end
