(* ===== verification/QueueSteps.thy ===== *)
theory QueueSteps
  imports WorkerLoop ManagerSettings
begin

text \<open>
  The queue as a machine: the steps by which the two processes change jobs and locks, what every
  number of steps keeps, and an abstract queue the machine implements. The requests of the web
  process are sequences of such steps.
\<close>

section \<open>The steps\<close>

text \<open>Writing a job back without reviving it.\<close>

definition evolves :: "job \<Rightarrow> job \<Rightarrow> bool" where
  "evolves j0 j \<longleftrightarrow> j_id j = j_id j0 \<and> j_kind j = j_kind j0 \<and> j_coordination_key j = j_coordination_key j0
     \<and> j_requires_maintenance_lock j = j_requires_maintenance_lock j0
     \<and> (active_status (j_status j) \<longrightarrow> j_status j = j_status j0)"

inductive queue_step :: "db \<Rightarrow> db \<Rightarrow> bool" where
  other: "jobs d' = jobs d \<Longrightarrow> locks d' = locks d \<Longrightarrow> queue_step d d'"
| evolve: "find_job (j_id j) d = Some j0 \<Longrightarrow> evolves j0 j \<Longrightarrow> jobs d' = row_put j_id j (jobs d) \<Longrightarrow>
    locks d' = locks d \<Longrightarrow> queue_step d d'"
| enqueue: "appended key j d d' \<Longrightarrow> queue_step d d'"
| claim: "pending_supported_job kinds d = Some j \<Longrightarrow> jobs d' = jobs (claim_state w now j d) \<Longrightarrow>
    locks d' = locks (claim_state w now j d) \<Longrightarrow> queue_step d d'"
| unlock: "jobs d' = jobs d \<Longrightarrow> locks d' = filter P (locks d) \<Longrightarrow>
    (\<And>j l. j \<in> set (jobs d) \<Longrightarrow> j_status j = JOB_STATUS_RUNNING \<Longrightarrow> j_requires_maintenance_lock j \<Longrightarrow>
       l_job_id l = j_id j \<Longrightarrow> P l) \<Longrightarrow> queue_step d d'"

lemma queue_step_inv: "queue_step d d' \<Longrightarrow> queue_inv d \<Longrightarrow> queue_inv d'"
proof (induction rule: queue_step.induct)
  case (other d' d)
  then show ?case using queue_inv_cong by metis
next
  case (evolve j d j0 d')
  then have "queue_inv (d\<lparr>jobs := row_put j_id j (jobs d)\<rparr>)"
    by (intro queue_inv_put [of _ _ j0]) (auto simp: evolves_def)
  with evolve.hyps(3,4) show ?case using queue_inv_cong [of d' "d\<lparr>jobs := row_put j_id j (jobs d)\<rparr>"] by simp
next
  case (enqueue key j d d')
  then show ?case by (blast intro: appended_queue_inv)
next
  case (claim kinds d j d' w now)
  from claim_state_inv [OF claim.prems claim.hyps(1), of w now] claim.hyps(2,3) show ?case
    using queue_inv_cong [of d' "claim_state w now j d"] by simp
next
  case (unlock d' d P)
  then have "locks_wf (d\<lparr>locks := filter P (locks d)\<rparr>)"
    by (intro locks_wf_filter) (auto simp: queue_inv_def)
  then have "queue_inv (d\<lparr>locks := filter P (locks d)\<rparr>)"
    using unlock.prems jobs_wf_cong [of d "d\<lparr>locks := filter P (locks d)\<rparr>"] by (simp add: queue_inv_def)
  with unlock.hyps(1,2) show ?case using queue_inv_cong [of d' "d\<lparr>locks := filter P (locks d)\<rparr>"] by simp
qed

section \<open>Any number of steps\<close>

definition since :: "db \<Rightarrow> db \<Rightarrow> bool" where
  "since d0 d = queue_step\<^sup>*\<^sup>* d0 d"

lemma since_refl [simp]: "since d d"
  by (simp add: since_def)

lemma since_step: "since d0 d \<Longrightarrow> queue_step d d' \<Longrightarrow> since d0 d'"
  unfolding since_def by (rule rtranclp.rtrancl_into_rtrancl)

lemma since_trans: "since d0 d \<Longrightarrow> since d d' \<Longrightarrow> since d0 d'"
  unfolding since_def by (rule rtranclp_trans)

lemma since_inv: "since d0 d \<Longrightarrow> queue_inv d0 \<Longrightarrow> queue_inv d"
  unfolding since_def by (induction rule: rtranclp_induct) (auto intro: queue_step_inv)

lemma since_cong: "jobs d = jobs d' \<Longrightarrow> locks d = locks d' \<Longrightarrow> since d0 d \<longleftrightarrow> since d0 d'"
  using since_step queue_step.other by metis

lemma since_frame [simp]:
  "since d0 (d\<lparr>heartbeats := x2\<rparr>) = since d0 d"
  "since d0 (d\<lparr>notifications := x3\<rparr>) = since d0 d"
  "since d0 (d\<lparr>audit := x4\<rparr>) = since d0 d"
  "since d0 (d\<lparr>backups := x5\<rparr>) = since d0 d"
  "since d0 (d\<lparr>settings := x6\<rparr>) = since d0 d"
  "since d0 (audited t f d) = since d0 d"
  by (rule since_cong; simp)+

lemma since_put:
  "since d0 d \<Longrightarrow> find_job (j_id j) d = Some j0 \<Longrightarrow> evolves j0 j \<Longrightarrow> since d0 (d\<lparr>jobs := row_put j_id j (jobs d)\<rparr>)"
  by (rule since_step) (auto intro: queue_step.evolve)

lemma since_append: "since d0 d \<Longrightarrow> appended key j d d' \<Longrightarrow> since d0 d'"
  by (rule since_step) (auto intro: queue_step.enqueue)

text \<open>A job is never removed and stays what it is; an ended job stays ended.\<close>

lemma claim_state_jobs: "jobs (claim_state w now j d) = row_put j_id (claimed w now j) (jobs d)"
  by (simp add: claim_state_def Let_def)

lemma find_row_put: "find_job k d = Some j0 \<Longrightarrow> jobs d' = row_put j_id j (jobs d) \<Longrightarrow>
    find_job k d' = Some (if j_id j = k then j else j0)"
  by (simp add: find_job_def row_get_put)

lemma find_appended: "find_job k d = Some j0 \<Longrightarrow> appended key j d d' \<Longrightarrow> find_job k d' = Some j0"
  by (simp add: appended_def find_job_def)

definition same_job :: "job \<Rightarrow> job \<Rightarrow> bool" where
  "same_job j0 j \<longleftrightarrow> j_id j = j_id j0 \<and> j_kind j = j_kind j0 \<and> j_coordination_key j = j_coordination_key j0
     \<and> j_requires_maintenance_lock j = j_requires_maintenance_lock j0
     \<and> (\<not> active_status (j_status j0) \<longrightarrow> \<not> active_status (j_status j))"

lemma same_job_refl [simp]: "same_job j j"
  by (simp add: same_job_def)

lemma same_job_trans: "same_job a b \<Longrightarrow> same_job b c \<Longrightarrow> same_job a c"
  by (auto simp: same_job_def)

lemma queue_step_same:
  assumes "queue_step d d'" and "queue_inv d" and "find_job k d = Some j0"
  shows "\<exists>j. find_job k d' = Some j \<and> same_job j0 j"
  using assms
proof (induction rule: queue_step.induct)
  case (evolve j d i d')
  then show ?case using find_row_put [OF evolve.prems(2) evolve.hyps(3)]
    by (cases "j_id j = k") (auto simp: evolves_def same_job_def)
next
  case (claim kinds d j d' w now)
  from pending_supported_job_SomeD [OF claim.hyps(1)] have j: "j \<in> set (jobs d)" "j_status j = JOB_STATUS_PENDING"
    by (auto simp: claimable_def)
  with jobs_wf_find claim.prems have "j = j0" if "j_id j = k"
    using that by (force simp: queue_inv_def)
  moreover have "find_job k d' = Some (if j_id j = k then claimed w now j else j0)"
    using find_row_put [OF claim.prems(2), of d' "claimed w now j"] claim.hyps(2) by (simp add: claim_state_jobs)
  ultimately show ?case using j(2) by (auto simp: same_job_def)
next
  case (enqueue key j d d')
  then show ?case using find_appended by (metis same_job_refl)
qed (auto simp: find_job_def [of k])

lemma since_same:
  assumes "since d0 d" and "queue_inv d0" and "find_job k d0 = Some j0"
  shows "\<exists>j. find_job k d = Some j \<and> same_job j0 j"
  using assms unfolding since_def
proof (induction rule: rtranclp_induct)
  case base
  then show ?case by simp
next
  case (step d d')
  then have "queue_inv d" using since_inv [of d0 d] by (simp add: since_def)
  with step queue_step_same show ?case by (meson same_job_trans)
qed

section \<open>The abstract queue\<close>

text \<open>
  What the queue promises: an entry waits, works and is over; a key belongs to one entry that is not
  over; an exclusive entry works only while it holds the one lock, which is given back when it does not
  work any more.
\<close>

datatype stage = Waiting | Working | Over

record queue_entry =
  q_stage :: stage
  q_key :: "string option"
  q_exclusive :: bool

record queue_spec =
  q_entries :: "int \<Rightarrow> queue_entry option"
  q_holder :: "int option"

inductive spec_step :: "queue_spec \<Rightarrow> queue_spec \<Rightarrow> bool" where
  accept: "q_entries s k = None \<Longrightarrow>
    (\<And>i e. q_entries s i = Some e \<Longrightarrow> q_stage e \<noteq> Over \<Longrightarrow> q_key e \<noteq> Some key) \<Longrightarrow>
    spec_step s (s\<lparr>q_entries := (q_entries s)(k \<mapsto> \<lparr>q_stage = Waiting, q_key = Some key, q_exclusive = x\<rparr>)\<rparr>)"
| start: "q_entries s k = Some e \<Longrightarrow> q_stage e = Waiting \<Longrightarrow> (q_exclusive e \<Longrightarrow> q_holder s = None) \<Longrightarrow>
    spec_step s (s\<lparr>q_entries := (q_entries s)(k \<mapsto> e\<lparr>q_stage := Working\<rparr>),
      q_holder := if q_exclusive e then Some k else q_holder s\<rparr>)"
| finish: "q_entries s k = Some e \<Longrightarrow> q_stage e \<noteq> Over \<Longrightarrow>
    spec_step s (s\<lparr>q_entries := (q_entries s)(k \<mapsto> e\<lparr>q_stage := Over\<rparr>)\<rparr>)"
| free: "q_holder s = Some k \<Longrightarrow>
    (\<And>e. q_entries s k = Some e \<Longrightarrow> q_exclusive e \<Longrightarrow> q_stage e \<noteq> Working) \<Longrightarrow> spec_step s (s\<lparr>q_holder := None\<rparr>)"

primrec stage_of :: "job_status \<Rightarrow> stage" where
  "stage_of JOB_STATUS_PENDING = Waiting"
| "stage_of JOB_STATUS_RUNNING = Working"
| "stage_of JOB_STATUS_SUCCEEDED = Over"
| "stage_of JOB_STATUS_FAILED = Over"
| "stage_of JOB_STATUS_CANCELLED = Over"
| "stage_of JOB_STATUS_INTERRUPTED = Over"

definition entry_of :: "job \<Rightarrow> queue_entry" where
  "entry_of j = \<lparr>q_stage = stage_of (j_status j), q_key = j_coordination_key j,
     q_exclusive = j_requires_maintenance_lock j\<rparr>"

definition abs_queue :: "db \<Rightarrow> queue_spec" where
  "abs_queue d = \<lparr>q_entries = (\<lambda>k. map_option entry_of (find_job k d)),
     q_holder = (case locks d of [] \<Rightarrow> None | l # _ \<Rightarrow> Some (l_job_id l))\<rparr>"

lemma stage_of_simps [simp]:
  "stage_of s = Over \<longleftrightarrow> \<not> active_status s" "stage_of s = Waiting \<longleftrightarrow> s = JOB_STATUS_PENDING"
  "stage_of s = Working \<longleftrightarrow> s = JOB_STATUS_RUNNING"
  by (cases s; simp add: active_status_def)+

lemma abs_queue_simps [simp]:
  "q_entries (abs_queue d) k = map_option entry_of (find_job k d)"
  "q_holder (abs_queue d) = (case locks d of [] \<Rightarrow> None | l # _ \<Rightarrow> Some (l_job_id l))"
  by (simp_all add: abs_queue_def)

lemma entry_of_simps [simp]:
  "q_stage (entry_of j) = stage_of (j_status j)" "q_key (entry_of j) = j_coordination_key j"
  "q_exclusive (entry_of j) = j_requires_maintenance_lock j"
  by (simp_all add: entry_of_def)

lemma abs_queue_put:
  assumes "find_job (j_id j) d = Some j0" and "jobs d' = row_put j_id j (jobs d)"
  shows "q_entries (abs_queue d') = (q_entries (abs_queue d))(j_id j \<mapsto> entry_of j)"
proof
  fix k
  show "q_entries (abs_queue d') k = ((q_entries (abs_queue d))(j_id j \<mapsto> entry_of j)) k"
    using assms by (auto simp: find_job_def row_get_put)
qed

lemma abs_queue_cong: "jobs d = jobs d' \<Longrightarrow> locks d = locks d' \<Longrightarrow> abs_queue d = abs_queue d'"
  by (simp add: abs_queue_def find_job_def)

lemma spec_put:
  assumes "find_job (j_id j) d = Some j0" and "evolves j0 j" and "jobs d' = row_put j_id j (jobs d)" and "locks d' = locks d"
  shows "spec_step\<^sup>*\<^sup>* (abs_queue d) (abs_queue d')"
proof -
  let ?s = "abs_queue d"
  have d': "abs_queue d' = ?s\<lparr>q_entries := (q_entries ?s)(j_id j \<mapsto> entry_of j)\<rparr>"
    using abs_queue_put [OF assms(1,3)] assms(4) by (simp add: abs_queue_def)
  have old: "q_entries ?s (j_id j) = Some (entry_of j0)" using assms(1) by simp
  show ?thesis
  proof (cases "stage_of (j_status j) = stage_of (j_status j0)")
    case True
    then have "entry_of j = entry_of j0" using assms(2) by (simp add: entry_of_def evolves_def)
    then have "abs_queue d' = ?s" unfolding d' using old by (simp add: fun_upd_idem)
    then show ?thesis by simp
  next
    case False
    then have "\<not> active_status (j_status j)" using assms(2) by (auto simp: evolves_def)
    then have over: "stage_of (j_status j) = Over" by simp
    with False have live: "stage_of (j_status j0) \<noteq> Over" by metis
    have "entry_of j = (entry_of j0)\<lparr>q_stage := Over\<rparr>"
      using assms(2) over by (simp add: entry_of_def evolves_def)
    moreover have "spec_step ?s (?s\<lparr>q_entries := (q_entries ?s)(j_id j \<mapsto> (entry_of j0)\<lparr>q_stage := Over\<rparr>)\<rparr>)"
      by (rule spec_step.finish [OF old]) (use live in simp)
    ultimately show ?thesis unfolding d' by (simp add: r_into_rtranclp)
  qed
qed

lemma spec_append:
  assumes "appended key j d d'"
  shows "spec_step (abs_queue d) (abs_queue d')"
proof -
  let ?s = "abs_queue d"
  have new: "find_job (j_id j) d = None"
    using assms fresh_key_notin [of j_id "jobs d"] by (simp add: appended_def find_job_def row_get_None)
  have "q_entries (abs_queue d') k = ((q_entries ?s)(j_id j \<mapsto> entry_of j)) k" for k
    using assms new by (auto simp: appended_def find_job_def split: option.splits)
  then have "abs_queue d' = ?s\<lparr>q_entries := (q_entries ?s)(j_id j \<mapsto> entry_of j)\<rparr>"
    using assms by (auto simp: abs_queue_def appended_def)
  moreover have "entry_of j = \<lparr>q_stage = Waiting, q_key = Some key, q_exclusive = j_requires_maintenance_lock j\<rparr>"
    using assms by (simp add: entry_of_def appended_def)
  moreover have "q_key e \<noteq> Some key" if e: "q_entries ?s i = Some e" "q_stage e \<noteq> Over" for i e
  proof
    assume "q_key e = Some key"
    with e obtain x where x: "find_job i d = Some x" "active_status (j_status x)" "j_coordination_key x = Some key" by auto
    then have "active_with_key key d" by (blast intro: active_with_keyI find_job_mem)
    with assms show False by (simp add: appended_def)
  qed
  ultimately show ?thesis using spec_step.accept [of ?s "j_id j" key "j_requires_maintenance_lock j"] new by simp
qed

lemma spec_claim:
  assumes inv: "queue_inv d" and sel: "pending_supported_job kinds d = Some j"
    and d': "jobs d' = jobs (claim_state w now j d)" "locks d' = locks (claim_state w now j d)"
  shows "spec_step (abs_queue d) (abs_queue d')"
proof -
  let ?s = "abs_queue d"
  from pending_supported_job_SomeD [OF sel] have j: "j \<in> set (jobs d)" "claimable kinds d j" by auto
  then have found: "find_job (j_id j) d = Some j" using inv jobs_wf_find by (simp add: queue_inv_def)
  have empty: "locks d = []" if "j_requires_maintenance_lock j"
    using j(2) that inv lock_free_no_locks by (auto simp: claimable_def queue_inv_def)
  have "q_entries (abs_queue d') = (q_entries ?s)(j_id j \<mapsto> entry_of (claimed w now j))"
    using abs_queue_put [of "claimed w now j" d j d'] found d'(1) by (simp add: claim_state_jobs)
  moreover have "q_holder (abs_queue d') = (if j_requires_maintenance_lock j then Some (j_id j) else q_holder ?s)"
    using empty d'(2) by (simp add: claim_state_def Let_def)
  moreover have "entry_of (claimed w now j) = (entry_of j)\<lparr>q_stage := Working\<rparr>" by (simp add: entry_of_def)
  ultimately have "abs_queue d' = ?s\<lparr>q_entries := (q_entries ?s)(j_id j \<mapsto> (entry_of j)\<lparr>q_stage := Working\<rparr>),
      q_holder := if q_exclusive (entry_of j) then Some (j_id j) else q_holder ?s\<rparr>"
    by (auto simp: abs_queue_def)
  moreover have "spec_step ?s (?s\<lparr>q_entries := (q_entries ?s)(j_id j \<mapsto> (entry_of j)\<lparr>q_stage := Working\<rparr>),
      q_holder := if q_exclusive (entry_of j) then Some (j_id j) else q_holder ?s\<rparr>)"
    by (rule spec_step.start) (use found j(2) empty in \<open>simp_all add: claimable_def\<close>)
  ultimately show ?thesis by simp
qed

lemma spec_unlock:
  assumes inv: "queue_inv d" and d': "jobs d' = jobs d" "locks d' = filter P (locks d)"
    and keep: "\<And>j l. j \<in> set (jobs d) \<Longrightarrow> j_status j = JOB_STATUS_RUNNING \<Longrightarrow> j_requires_maintenance_lock j \<Longrightarrow>
       l_job_id l = j_id j \<Longrightarrow> P l"
  shows "spec_step\<^sup>*\<^sup>* (abs_queue d) (abs_queue d')"
proof (cases "filter P (locks d) = locks d")
  case True
  then have "abs_queue d' = abs_queue d" using d' by (intro abs_queue_cong) simp_all
  then show ?thesis by simp
next
  case False
  from inv have "length (locks d) \<le> 1" by (simp add: queue_inv_def locks_wf_def)
  with False obtain l where l: "locks d = [l]" "\<not> P l" by (cases "locks d") (auto split: if_splits)
  have "q_stage e \<noteq> Working" if "q_entries (abs_queue d) (l_job_id l) = Some e" "q_exclusive e" for e
    using that keep l(2) find_job_mem find_job_id by fastforce
  then have "spec_step (abs_queue d) ((abs_queue d)\<lparr>q_holder := None\<rparr>)"
    using l(1) by (intro spec_step.free [of _ "l_job_id l"]) auto
  moreover have "abs_queue d' = (abs_queue d)\<lparr>q_holder := None\<rparr>"
    using d' l by (simp add: abs_queue_def find_job_def)
  ultimately show ?thesis by auto
qed

lemma queue_step_refines: "queue_step d d' \<Longrightarrow> queue_inv d \<Longrightarrow> spec_step\<^sup>*\<^sup>* (abs_queue d) (abs_queue d')"
proof (induction rule: queue_step.induct)
  case (other d' d)
  then have "abs_queue d' = abs_queue d" by (intro abs_queue_cong) simp_all
  then show ?case by simp
next
  case (evolve j d j0 d')
  then show ?case by (blast intro: spec_put)
next
  case (enqueue key j d d')
  then show ?case by (blast intro: spec_append)
next
  case (claim kinds d j d' w now)
  then show ?case by (blast intro: spec_claim)
next
  case (unlock d' d P)
  then show ?case by (blast intro: spec_unlock)
qed

lemma since_refines:
  assumes "since d0 d" and "queue_inv d0"
  shows "spec_step\<^sup>*\<^sup>* (abs_queue d0) (abs_queue d)"
  using assms unfolding since_def
proof (induction rule: rtranclp_induct)
  case base
  then show ?case by simp
next
  case (step d d')
  then have "queue_inv d" using since_inv [of d0 d] by (simp add: since_def)
  with step queue_step_refines [of d d'] show ?case by force
qed

end
