(* ===== verification/Login.thy ===== *)
theory Login
  imports AuditTrail Notifications
begin

text \<open>
  Passwords (\<open>app/auth/passwords.py\<close>), names (\<open>roles.py\<close>, \<open>service.py\<close>) and the protection of the login
  (\<open>login_protection.py\<close>). Argon2 is a parameter: \<open>hash\<close> gives the text stored for a password and \<open>verify\<close> says
  whether a stored text accepts a password, where an exception counts as a refusal. A transaction begins with
  BEGIN IMMEDIATE, so it runs alone.
\<close>

section \<open>Passwords and names\<close>

definition MINIMUM_PASSWORD_LENGTH :: nat where "MINIMUM_PASSWORD_LENGTH = 6"

definition MAXIMUM_PASSWORD_LENGTH :: nat where "MAXIMUM_PASSWORD_LENGTH = 1024"

definition MAXIMUM_USERNAME_LENGTH :: nat where "MAXIMUM_USERNAME_LENGTH = 100"

definition validate_password :: "string \<Rightarrow> (db, unit) prog" where
  "validate_password password =
     andthen (require (MINIMUM_PASSWORD_LENGTH \<le> length password) PasswordTooShortError)
       (require (length password \<le> MAXIMUM_PASSWORD_LENGTH) PasswordTooLongError)"

definition hash_password :: "(string \<Rightarrow> string) \<Rightarrow> string \<Rightarrow> (db, string) prog" where
  "hash_password hash password = andthen (validate_password password) (ret (hash password))"

definition verify_password :: "(string \<Rightarrow> string \<Rightarrow> bool) \<Rightarrow> string \<Rightarrow> string \<Rightarrow> bool" where
  "verify_password verify password password_hash =
     (if MAXIMUM_PASSWORD_LENGTH < length password then False else verify password_hash password)"

definition verify_password_or_dummy :: "(string \<Rightarrow> string \<Rightarrow> bool) \<Rightarrow> string \<Rightarrow> string \<Rightarrow> string option \<Rightarrow> bool" where
  "verify_password_or_dummy verify dummy_hash password password_hash =
     (let candidate_hash = (case password_hash of Some h \<Rightarrow> h | None \<Rightarrow> dummy_hash);
          verified = verify_password verify password candidate_hash
      in password_hash \<noteq> None \<and> verified)"

definition username_key :: "string \<Rightarrow> string" where
  "username_key username = casefold username"

definition normalize_username :: "string \<Rightarrow> (db, string) prog" where
  "normalize_username username =
     andthen (require (CHR 0x0A \<notin> set username \<and> CHR 0x0D \<notin> set username) InvalidUsernameError)
       (let normalized = strip username in
        andthen (require (normalized \<noteq> []) InvalidUsernameError)
         (andthen (require (length normalized \<le> MAXIMUM_USERNAME_LENGTH) InvalidUsernameError)
           (ret normalized)))"

section \<open>Login protection\<close>

definition MAXIMUM_FAILED_ATTEMPTS :: nat where "MAXIMUM_FAILED_ATTEMPTS = 5"

definition LOGIN_BLOCK_DURATION :: int where "LOGIN_BLOCK_DURATION = seconds (15 * 60)"

record login_result =
  li_user :: "user option"
  li_blocked_until :: "int option"

definition tracked_username :: "string \<Rightarrow> string option" where
  "tracked_username username = (let normalized = strip username in
     if normalized = [] then None else Some (username_key (take MAXIMUM_USERNAME_LENGTH normalized)))"

text \<open>\<open>order_by(attempted_at.desc(), id.desc())\<close>.\<close>

definition newest_first :: "login_attempt list \<Rightarrow> login_attempt list" where
  "newest_first ts = rev (order_by (\<lambda>t. (t_attempted_at t, t_id t)) ts)"

definition attempts_for_username :: "string option \<Rightarrow> db \<Rightarrow> login_attempt list" where
  "attempts_for_username username d = filter (\<lambda>t. t_username t = username) (attempts d)"

definition active_block :: "string option \<Rightarrow> int \<Rightarrow> db \<Rightarrow> int option" where
  "active_block username now d =
     (case limit1 (newest_first (filter (\<lambda>t. t_blocked_until t \<noteq> None) (attempts_for_username username d))) of
        None \<Rightarrow> None
      | Some latest \<Rightarrow> (case t_blocked_until latest of
          None \<Rightarrow> None
        | Some blocked_until \<Rightarrow> if now < blocked_until then Some blocked_until else None))"

definition consecutive_failures :: "string option \<Rightarrow> db \<Rightarrow> nat" where
  "consecutive_failures username d =
     length (takeWhile (\<lambda>t. \<not> (t_successful t \<or> t_blocked_until t \<noteq> None))
       (take MAXIMUM_FAILED_ATTEMPTS (newest_first (attempts_for_username username d))))"

definition login_user :: "string option \<Rightarrow> db \<Rightarrow> user option" where
  "login_user username d = List.find (\<lambda>u. Some (u_username_key u) = username \<and> u_is_active u) (users d)"

definition login_audit_details :: "string option \<Rightarrow> dict option" where
  "login_audit_details source_address = map_option (\<lambda>s. [(''source_address'', JStr s)]) source_address"

definition add_attempt ::
  "int option \<Rightarrow> string option \<Rightarrow> string option \<Rightarrow> bool \<Rightarrow> int \<Rightarrow> int option \<Rightarrow> (db, unit) prog" where
  "add_attempt user_id username source_address successful now blocked_until =
     modify (\<lambda>d. d\<lparr>attempts := attempts d @ [\<lparr>t_id = fresh_key t_id (attempts d), t_user_id = user_id,
       t_username = username, t_source_address = source_address, t_successful = successful,
       t_attempted_at = now, t_blocked_until = blocked_until\<rparr>]\<rparr>)"

definition login_event ::
  "int \<Rightarrow> string \<Rightarrow> audit_result \<Rightarrow> audit_origin \<Rightarrow> int option \<Rightarrow> string option \<Rightarrow> string option \<Rightarrow> string option \<Rightarrow> (db, unit) prog" where
  "login_event now action result origin user_id target reason source_address =
     record_audit_event now \<lparr>f_action = action, f_result = result, f_origin = origin, f_user_id = user_id,
       f_job_id = None, f_target = target, f_reason = reason, f_details = login_audit_details source_address\<rparr>"

text \<open>The three ways an attempt ends: refused by a block, accepted, failed.\<close>

definition blocked_login :: "int option \<Rightarrow> string option \<Rightarrow> string option \<Rightarrow> int \<Rightarrow> int \<Rightarrow> (db, login_result) prog" where
  "blocked_login user_id tracked source_address now blocked_until =
     andthen (add_attempt user_id tracked source_address False now (Some blocked_until))
       (andthen (login_event now ''LOGIN'' AUDIT_RESULT_FAILURE AUDIT_ORIGIN_ADMINISTRATOR user_id tracked (Some ''BLOCKED'') source_address)
         (ret \<lparr>li_user = None, li_blocked_until = Some blocked_until\<rparr>))"

definition accepted_login :: "user \<Rightarrow> string option \<Rightarrow> string option \<Rightarrow> int \<Rightarrow> (db, login_result) prog" where
  "accepted_login user tracked source_address now =
     andthen (add_attempt (Some (u_id user)) tracked source_address True now None)
       (andthen (login_event now ''LOGIN'' AUDIT_RESULT_SUCCESS AUDIT_ORIGIN_ADMINISTRATOR (Some (u_id user)) tracked None source_address)
         (ret \<lparr>li_user = Some user, li_blocked_until = None\<rparr>))"

definition failed_login :: "int option \<Rightarrow> string option \<Rightarrow> string option \<Rightarrow> int \<Rightarrow> (db, login_result) prog" where
  "failed_login user_id tracked source_address now =
     bnd (reads (\<lambda>d. consecutive_failures tracked d + 1)) (\<lambda>failure_count.
       let new_block = (if MAXIMUM_FAILED_ATTEMPTS \<le> failure_count then Some (now + LOGIN_BLOCK_DURATION) else None) in
       andthen (add_attempt user_id tracked source_address False now new_block)
        (andthen (login_event now ''LOGIN'' AUDIT_RESULT_FAILURE AUDIT_ORIGIN_ADMINISTRATOR user_id tracked
            (Some ''INVALID_CREDENTIALS'') source_address)
          (andthen (if new_block = None then ret ()
              else andthen (login_event now ''LOGIN_BLOCKED'' AUDIT_RESULT_SUCCESS AUDIT_ORIGIN_SYSTEM user_id tracked None source_address)
                (enqueue_discord_notification ''LOGIN_BLOCKED'' None now))
            (ret \<lparr>li_user = None, li_blocked_until = new_block\<rparr>))))"

definition attempt_user_login ::
  "(string \<Rightarrow> string \<Rightarrow> bool) \<Rightarrow> string \<Rightarrow> string \<Rightarrow> string \<Rightarrow> string option \<Rightarrow> int \<Rightarrow> (db, login_result) prog" where
  "attempt_user_login verify dummy_hash username password source_address now =
     (let tracked = tracked_username username in
      bnd (reads (login_user tracked)) (\<lambda>user.
      bnd (reads (active_block tracked now)) (\<lambda>blocked.
        case blocked of
          Some blocked_until \<Rightarrow> blocked_login (map_option u_id user) tracked source_address now blocked_until
        | None \<Rightarrow>
            (case user of
               Some u \<Rightarrow>
                 if verify_password_or_dummy verify dummy_hash password (Some (u_password_hash u))
                 then accepted_login u tracked source_address now
                 else failed_login (Some (u_id u)) tracked source_address now
             | None \<Rightarrow> failed_login None tracked source_address now))))"

section \<open>What one attempt does\<close>

lemma attempt_actions: "valid_audit_action ''LOGIN''" "valid_audit_action ''LOGIN_BLOCKED''"
    "''LOGIN_BLOCKED'' \<in> set SUPPORTED_DISCORD_EVENT_TYPES"
  by (code_simp, code_simp, simp add: SUPPORTED_DISCORD_EVENT_TYPES_def)

text \<open>The row an attempt adds.\<close>

definition attempt_row :: "db \<Rightarrow> string option \<Rightarrow> string option \<Rightarrow> int \<Rightarrow> login_result \<Rightarrow> login_attempt \<Rightarrow> bool" where
  "attempt_row d tracked source_address now r t \<longleftrightarrow> t_id t = fresh_key t_id (attempts d) \<and> t_username t = tracked
     \<and> t_source_address t = source_address \<and> t_attempted_at t = now
     \<and> t_user_id t = map_option u_id (login_user tracked d)
     \<and> t_successful t = (li_user r \<noteq> None) \<and> t_blocked_until t = li_blocked_until r"

definition new_block_of :: "string option \<Rightarrow> int \<Rightarrow> db \<Rightarrow> int option" where
  "new_block_of tracked now d = (case active_block tracked now d of
     Some b \<Rightarrow> Some b
   | None \<Rightarrow> if MAXIMUM_FAILED_ATTEMPTS \<le> consecutive_failures tracked d + 1 then Some (now + LOGIN_BLOCK_DURATION) else None)"

definition accepts :: "(string \<Rightarrow> string \<Rightarrow> bool) \<Rightarrow> string \<Rightarrow> string option \<Rightarrow> int \<Rightarrow> db \<Rightarrow> user option" where
  "accepts verify password tracked now d = (case login_user tracked d of
     None \<Rightarrow> None
   | Some u \<Rightarrow> if active_block tracked now d = None \<and> length password \<le> MAXIMUM_PASSWORD_LENGTH
       \<and> verify (u_password_hash u) password then Some u else None)"

text \<open>Beside the attempts, only the audit trail and the notifications change.\<close>

definition attempt_frame :: "db \<Rightarrow> db \<Rightarrow> bool" where
  "attempt_frame d d' \<longleftrightarrow> jobs d' = jobs d \<and> locks d' = locks d \<and> heartbeats d' = heartbeats d \<and> backups d' = backups d
     \<and> settings d' = settings d \<and> users d' = users d \<and> sessions d' = sessions d"

definition attempt_effect ::
  "(string \<Rightarrow> string \<Rightarrow> bool) \<Rightarrow> string option \<Rightarrow> string \<Rightarrow> string option \<Rightarrow> int \<Rightarrow> db \<Rightarrow> login_result \<Rightarrow> db \<Rightarrow> bool" where
  "attempt_effect verify tracked password source_address now d r d' \<longleftrightarrow>
     li_user r = accepts verify password tracked now d
     \<and> li_blocked_until r = (if li_user r = None then new_block_of tracked now d else None)
     \<and> (\<exists>t. attempt_row d tracked source_address now r t \<and> attempts d' = attempts d @ [t]) \<and> attempt_frame d d'"

lemma wp_attempt:
  "wp (attempt_user_login verify dummy_hash username password source_address now)
     (attempt_effect verify (tracked_username username) password source_address now d) (\<lambda>_ _. False) d"
proof -
  let ?u = "tracked_username username"
  have event: "wp (login_event now a res orig k tgt rsn src) Q E e = Q () (audited now \<lparr>f_action = a, f_result = res,
      f_origin = orig, f_user_id = k, f_job_id = None, f_target = tgt, f_reason = rsn, f_details = login_audit_details src\<rparr> e)"
    if "a = ''LOGIN'' \<or> a = ''LOGIN_BLOCKED''" for a res orig k tgt rsn src Q E e
    using that attempt_actions(1,2) by (auto simp: login_event_def wp_simps)
  show ?thesis
  proof (cases "active_block ?u now d")
    case (Some b)
    then show ?thesis
      by (simp add: attempt_user_login_def wp_simps Let_def blocked_login_def event add_attempt_def attempt_effect_def
          accepts_def new_block_of_def attempt_row_def attempt_frame_def split: option.split)
  next
    case None
    have failed: "wp (failed_login (map_option u_id (login_user ?u d)) ?u source_address now)
        (attempt_effect verify ?u password source_address now d) (\<lambda>_ _. False) d"
      if "accepts verify password ?u now d = None"
      using that None attempt_actions(3)
      by (simp add: failed_login_def wp_simps Let_def event add_attempt_def enqueue_discord_notification_def
          attempt_effect_def new_block_of_def attempt_row_def attempt_frame_def)
    show ?thesis
    proof (cases "login_user ?u d")
      case u: (Some v)
      show ?thesis
      proof (cases "length password \<le> MAXIMUM_PASSWORD_LENGTH \<and> verify (u_password_hash v) password")
        case True
        then show ?thesis
          using None u by (simp add: attempt_user_login_def wp_simps Let_def accepted_login_def event add_attempt_def
              verify_password_or_dummy_def verify_password_def attempt_effect_def accepts_def attempt_row_def attempt_frame_def)
      next
        case False
        with None u failed show ?thesis
          by (auto simp: attempt_user_login_def wp_simps Let_def verify_password_or_dummy_def verify_password_def accepts_def)
      qed
    next
      case u: None
      with None failed show ?thesis by (simp add: attempt_user_login_def wp_simps Let_def accepts_def)
    qed
  qed
qed

section \<open>How often a password is checked\<close>

text \<open>The latest attempt comes first.\<close>

definition earlier :: "db \<Rightarrow> int \<Rightarrow> bool" where
  "earlier d now \<longleftrightarrow> (\<forall>t\<in>set (attempts d). t_attempted_at t \<le> now)"

lemma insort_key_snoc: "f x \<le> f y \<Longrightarrow> insort_key f x (zs @ [y]) = insort_key f x zs @ [y]"
  by (induction zs) auto

lemma order_by_snoc: "\<forall>x\<in>set xs. f x \<le> f y \<Longrightarrow> order_by f (xs @ [y]) = order_by f xs @ [y]"
  unfolding order_by_def by (induction xs) (auto simp: insort_key_snoc)

lemma takeWhile_take_length: "length (takeWhile P (take n xs)) = min n (length (takeWhile P xs))"
proof (induction xs arbitrary: n)
  case (Cons x xs)
  then show ?case by (cases n) auto
qed simp

lemma newest_first_snoc:
  assumes "\<forall>x\<in>set ts. t_attempted_at x \<le> t_attempted_at t \<and> t_id x < t_id t"
  shows "newest_first (ts @ [t]) = t # newest_first ts"
proof -
  have "order_by (\<lambda>t. (t_attempted_at t, t_id t)) (ts @ [t]) = order_by (\<lambda>t. (t_attempted_at t, t_id t)) ts @ [t]"
    by (rule order_by_snoc) (use assms in \<open>auto simp: less_eq_prod_def\<close>)
  then show ?thesis by (simp add: newest_first_def)
qed

text \<open>What a new row does to the two questions an attempt asks, for its own name and for the others.\<close>

lemma added_attempt:
  assumes "earlier d now" "attempts d' = attempts d @ [t]" "t_id t = fresh_key t_id (attempts d)" "t_attempted_at t = now"
  shows "t_username t \<noteq> u \<Longrightarrow> active_block u n d' = active_block u n d \<and> consecutive_failures u d' = consecutive_failures u d"
    and "t_username t = u \<Longrightarrow> t_blocked_until t = Some b \<Longrightarrow> active_block u n d' = (if n < b then Some b else None)"
    and "t_username t = u \<Longrightarrow> t_blocked_until t = None \<Longrightarrow> active_block u n d' = active_block u n d"
    and "t_username t = u \<Longrightarrow> t_blocked_until t = None \<Longrightarrow> \<not> t_successful t
      \<Longrightarrow> consecutive_failures u d' = min MAXIMUM_FAILED_ATTEMPTS (consecutive_failures u d + 1)"
proof -
  have new: "newest_first (filter P (attempts d) @ [t]) = t # newest_first (filter P (attempts d))" for P
    by (rule newest_first_snoc) (use assms(1,3,4) in \<open>auto simp: earlier_def fresh_key_gt\<close>)
  show "t_username t \<noteq> u \<Longrightarrow> active_block u n d' = active_block u n d \<and> consecutive_failures u d' = consecutive_failures u d"
    by (simp add: active_block_def consecutive_failures_def attempts_for_username_def assms(2))
  show "t_username t = u \<Longrightarrow> t_blocked_until t = Some b \<Longrightarrow> active_block u n d' = (if n < b then Some b else None)"
    using new by (simp add: active_block_def attempts_for_username_def assms(2) limit1_def)
  show "t_username t = u \<Longrightarrow> t_blocked_until t = None \<Longrightarrow> active_block u n d' = active_block u n d"
    by (simp add: active_block_def attempts_for_username_def assms(2))
  assume "t_username t = u" "t_blocked_until t = None" "\<not> t_successful t"
  then show "consecutive_failures u d' = min MAXIMUM_FAILED_ATTEMPTS (consecutive_failures u d + 1)"
    using new [of "\<lambda>t. t_username t = u"]
    by (simp add: consecutive_failures_def attempts_for_username_def assms(2) takeWhile_take_length MAXIMUM_FAILED_ATTEMPTS_def)
qed

text \<open>The latest block of a name, whether it still runs or not.\<close>

definition latest_block :: "string option \<Rightarrow> db \<Rightarrow> int option" where
  "latest_block u d = Option.bind (limit1 (newest_first (filter (\<lambda>t. t_blocked_until t \<noteq> None) (attempts_for_username u d))))
     t_blocked_until"

lemma block_shape: "active_block u t d = (case latest_block u d of None \<Rightarrow> None | Some b \<Rightarrow> if t < b then Some b else None)"
  unfolding active_block_def latest_block_def by (auto simp: limit1_def split: option.split list.split)

lemma block_until: "active_block u now d = Some b \<Longrightarrow> active_block u t d = (if t < b then Some b else None)"
  by (auto simp: block_shape split: option.split_asm if_split_asm)

lemma block_over: "active_block u now d = None \<Longrightarrow> now \<le> t \<Longrightarrow> active_block u t d = None"
  by (auto simp: block_shape split: option.split_asm if_split_asm option.split)

text \<open>
  A list of requests, in the order in which they were served; \<open>between n\<close> is what the rest of the program does
  to the database before the \<open>n\<close>-th of them. Each request is listed with its result and with whether its
  password was checked: whether the answer, or anything the attempt leaves in the database, would be different if
  Argon2 judged passwords differently. A request that is not checked tells nothing about the password it carries.
\<close>

record login_request =
  lq_username :: string
  lq_password :: string
  lq_source_address :: "string option"
  lq_now :: int

definition password_decides :: "string \<Rightarrow> login_request \<Rightarrow> db \<Rightarrow> bool" where
  "password_decides dummy_hash q d \<longleftrightarrow> (\<exists>verify verify'.
     attempt_user_login verify dummy_hash (lq_username q) (lq_password q) (lq_source_address q) (lq_now q) d
     \<noteq> attempt_user_login verify' dummy_hash (lq_username q) (lq_password q) (lq_source_address q) (lq_now q) d)"

lemma blocked_undecided:
  assumes "password_decides dummy_hash q d"
  shows "active_block (tracked_username (lq_username q)) (lq_now q) d = None"
proof (cases "active_block (tracked_username (lq_username q)) (lq_now q) d")
  case (Some b)
  have "attempt_user_login v dummy_hash (lq_username q) (lq_password q) (lq_source_address q) (lq_now q) d
      = blocked_login (map_option u_id (login_user (tracked_username (lq_username q)) d)) (tracked_username (lq_username q))
          (lq_source_address q) (lq_now q) b d" for v
    using Some by (simp add: attempt_user_login_def bnd_def reads_def Let_def)
  with assms show ?thesis unfolding password_decides_def by simp
qed

text \<open>A refusal by Argon2 is never an acceptance, so whoever is let in was checked.\<close>

lemma accepted_decided:
  assumes "attempt_user_login verify dummy_hash (lq_username q) (lq_password q) (lq_source_address q) (lq_now q) d = (Inr r, d')"
    and "li_user r \<noteq> None"
  shows "password_decides dummy_hash q d"
proof -
  obtain r' e where no: "attempt_user_login (\<lambda>_ _. False) dummy_hash (lq_username q) (lq_password q) (lq_source_address q)
      (lq_now q) d = (Inr r', e)" and "li_user r' = accepts (\<lambda>_ _. False) (lq_password q) (tracked_username (lq_username q)) (lq_now q) d"
    using wp_attempt [of "\<lambda>_ _. False" dummy_hash "lq_username q" "lq_password q" "lq_source_address q" "lq_now q" d]
    by (auto simp: wp_def attempt_effect_def split: prod.split_asm sum.split_asm)
  then have "li_user r' = None" by (simp add: accepts_def split: option.split)
  with assms(2) have "(Inr r, d') \<noteq> (Inr r', e)" by auto
  with assms(1) no show ?thesis unfolding password_decides_def by metis
qed

fun login_run ::
  "(string \<Rightarrow> string \<Rightarrow> bool) \<Rightarrow> string \<Rightarrow> (nat \<Rightarrow> db \<Rightarrow> db) \<Rightarrow> nat \<Rightarrow> login_request list \<Rightarrow> db
    \<Rightarrow> (login_request \<times> bool \<times> login_result) list" where
  "login_run verify dummy_hash between n [] d = []"
| "login_run verify dummy_hash between n (q # qs) d =
     (let d1 = between n d;
          checked = password_decides dummy_hash q d1 in
      case attempt_user_login verify dummy_hash (lq_username q) (lq_password q) (lq_source_address q) (lq_now q) d1 of
        (Inl e, d2) \<Rightarrow> login_run verify dummy_hash between (Suc n) qs d1
      | (Inr r, d2) \<Rightarrow> (q, checked, r) # login_run verify dummy_hash between (Suc n) qs d2)"

definition checks_of :: "string option \<Rightarrow> (login_request \<times> bool \<times> login_result) list \<Rightarrow> nat" where
  "checks_of u run = length (filter (\<lambda>(q, checked, r). checked \<and> tracked_username (lq_username q) = u) run)"

lemma checks_of_simps [simp]:
  "checks_of u [] = 0"
  "checks_of u ((q, checked, r) # run) = (if checked \<and> tracked_username (lq_username q) = u then 1 else 0) + checks_of u run"
  by (simp_all add: checks_of_def)

text \<open>\<open>m\<close> more checks at most before the end \<open>e\<close> of the window.\<close>

definition room :: "string option \<Rightarrow> int \<Rightarrow> nat \<Rightarrow> int \<Rightarrow> db \<Rightarrow> bool" where
  "room u e m now d \<longleftrightarrow> (\<forall>t. now \<le> t \<and> t < e \<longrightarrow> active_block u t d \<noteq> None)
     \<or> m = MAXIMUM_FAILED_ATTEMPTS
     \<or> 1 \<le> m \<and> MAXIMUM_FAILED_ATTEMPTS \<le> m + consecutive_failures u d \<and> (\<forall>t. now \<le> t \<longrightarrow> active_block u t d = None)"

lemma room_later: "room u e m now d \<Longrightarrow> now \<le> n \<Longrightarrow> room u e m n d"
  by (auto simp: room_def)

lemma room_step:
  assumes "room u e m now d" "now \<le> n" "n < e" "e \<le> n + LOGIN_BLOCK_DURATION" "earlier d now"
    and "attempt_effect verify tracked password src n d r d'" "tracked = u \<Longrightarrow> li_user r = None"
  shows "if active_block tracked n d = None \<and> tracked = u then 1 \<le> m \<and> room u e (m - 1) n d' else room u e m n d'"
proof -
  from assms(6) obtain t where t: "attempt_row d tracked src n r t" "attempts d' = attempts d @ [t]"
    and r: "li_blocked_until r = (if li_user r = None then new_block_of tracked n d else None)"
    by (auto simp: attempt_effect_def)
  have early: "earlier d n" using assms(2,5) by (force simp: earlier_def)
  note added = added_attempt [OF early t(2)] and row = t(1) [unfolded attempt_row_def]
  show ?thesis
  proof (cases "tracked = u")
    case other: False
    then have "active_block u x d' = active_block u x d \<and> consecutive_failures u d' = consecutive_failures u d" for x
      using added(1) row by simp
    then show ?thesis using room_later [OF assms(1,2)] other by (simp add: room_def)
  next
    case True
    with assms(7) r have block: "t_blocked_until t = new_block_of u n d" and fail: "\<not> t_successful t" "t_username t = u"
      using row by simp_all
    show ?thesis
    proof (cases "active_block u n d")
      case (Some b)
      then have "active_block u x d' = (if x < b then Some b else None)" for x
        using added(2) row block fail(2) by (simp add: new_block_of_def)
      moreover have "\<not> (\<forall>t. now \<le> t \<longrightarrow> active_block u t d = None)" using Some assms(2) by force
      ultimately show ?thesis using Some block_until [OF Some] room_later [OF assms(1,2)] True by (auto simp: room_def)
    next
      case None
      show ?thesis
      proof (cases "MAXIMUM_FAILED_ATTEMPTS \<le> consecutive_failures u d + 1")
        case full: True
        then have "active_block u x d' = (if x < n + LOGIN_BLOCK_DURATION then Some (n + LOGIN_BLOCK_DURATION) else None)" for x
          using added(2) row block fail(2) None by (simp add: new_block_of_def)
        moreover have "1 \<le> m" using assms(1-3) None by (auto simp: room_def MAXIMUM_FAILED_ATTEMPTS_def)
        ultimately show ?thesis using None True assms(4) by (auto simp: room_def)
      next
        case False
        then have "active_block u x d' = active_block u x d"
          "consecutive_failures u d' = min MAXIMUM_FAILED_ATTEMPTS (consecutive_failures u d + 1)" for x
          using added(3,4) row block fail None by (simp_all add: new_block_of_def)
        then show ?thesis
          using None True False assms(1-3) block_over [OF None] by (auto simp: room_def MAXIMUM_FAILED_ATTEMPTS_def)
      qed
    qed
  qed
qed

lemma checks_bounded:
  assumes "\<forall>n d. attempts (between n d) = attempts d" "sorted (List.map lq_now qs)"
    and "\<forall>q\<in>set qs. now \<le> lq_now q \<and> lq_now q < e \<and> e \<le> lq_now q + LOGIN_BLOCK_DURATION"
    and "earlier d now" "room u e m now d"
    and "\<forall>(q, checked, r)\<in>set (login_run verify dummy_hash between n qs d). tracked_username (lq_username q) = u \<longrightarrow> li_user r = None"
  shows "checks_of u (login_run verify dummy_hash between n qs d) \<le> m"
  using assms(2-6)
proof (induction qs arbitrary: n d now m)
  case (Cons q qs)
  let ?u = "tracked_username (lq_username q)" and ?d = "between n d"
  have same: "active_block x t ?d = active_block x t d" "consecutive_failures x ?d = consecutive_failures x d" "earlier ?d now" for x t
    using assms(1) Cons.prems(3) by (simp_all add: active_block_def consecutive_failures_def attempts_for_username_def earlier_def)
  then have room: "room u e m now ?d" using Cons.prems(4) by (simp add: room_def)
  obtain r d' where a: "attempt_user_login verify dummy_hash (lq_username q) (lq_password q) (lq_source_address q) (lq_now q) ?d = (Inr r, d')"
    and eff: "attempt_effect verify ?u (lq_password q) (lq_source_address q) (lq_now q) ?d r d'"
    using wp_attempt [of verify dummy_hash "lq_username q" "lq_password q" "lq_source_address q" "lq_now q" ?d]
    by (auto simp: wp_def split: prod.split_asm sum.split_asm)
  have run: "login_run verify dummy_hash between n (q # qs) d
      = (q, password_decides dummy_hash q ?d, r) # login_run verify dummy_hash between (Suc n) qs d'"
    by (simp add: a)
  from Cons.prems(2) have times: "now \<le> lq_now q" "lq_now q < e" "e \<le> lq_now q + LOGIN_BLOCK_DURATION" by simp_all
  have none: "?u = u \<Longrightarrow> li_user r = None" using Cons.prems(5) unfolding run by simp
  have step: "if active_block ?u (lq_now q) ?d = None \<and> ?u = u then 1 \<le> m \<and> room u e (m - 1) (lq_now q) d'
      else room u e m (lq_now q) d'" by (rule room_step [OF room times same(3) eff none])
  have early: "earlier d' (lq_now q)"
    using eff same(3) times(1) by (force simp: attempt_effect_def attempt_row_def earlier_def)
  have rest: "checks_of u (login_run verify dummy_hash between (Suc n) qs d') \<le> k" if "room u e k (lq_now q) d'" for k
    using Cons.IH [OF _ _ early that] Cons.prems(1,2,5) unfolding run by auto
  show ?case
  proof (cases "active_block ?u (lq_now q) ?d = None \<and> ?u = u")
    case True
    have "1 \<le> m" "room u e (m - 1) (lq_now q) d'" using step unfolding if_P [OF True] by simp_all
    with rest [of "m - 1"] show ?thesis unfolding run by auto
  next
    case False
    have "room u e m (lq_now q) d'" using step unfolding if_not_P [OF False] .
    with rest False blocked_undecided [of dummy_hash q ?d] show ?thesis unfolding run by auto
  qed
qed simp

lemma let_in_checked:
  "(q, checked, r) \<in> set (login_run verify dummy_hash between n qs d) \<Longrightarrow> li_user r \<noteq> None \<Longrightarrow> checked"
proof (induction qs arbitrary: n d)
  case (Cons q0 qs)
  obtain x e where a: "attempt_user_login verify dummy_hash (lq_username q0) (lq_password q0) (lq_source_address q0) (lq_now q0)
      (between n d) = (x, e)" by fastforce
  show ?case
  proof (cases x)
    case (Inl y)
    then show ?thesis using Cons a by (auto simp: Let_def)
  next
    case (Inr r')
    then show ?thesis
      using Cons a accepted_decided [OF a [unfolded Inr]] by (auto simp: Let_def simp del: not_None_eq)
  qed
qed simp

text \<open>
  C36: nobody can guess passwords quickly. Take any list of login requests, for any names, served one after the other
  at times that do not go back, all lie within fifteen minutes and begin no earlier than any attempt already recorded, while the rest of the program may do anything to
  the other tables in between. If no login under a name succeeds among them, at most five of the requests
  for that name had their password checked: all the others are answered, and leave the database, exactly
  as they would with any other judgement of Argon2, so they tell nothing about the password. And in every such list,
  whoever is let in had the password checked.
\<close>

theorem login_guesses_bounded:
  assumes "\<forall>n d. attempts (between n d) = attempts d" "sorted (List.map lq_now qs)"
    and "\<forall>q\<in>set qs. a \<le> lq_now q \<and> lq_now q < a + LOGIN_BLOCK_DURATION" "earlier d a"
  shows "((\<forall>(q, checked, r)\<in>set (login_run verify dummy_hash between 0 qs d). tracked_username (lq_username q) = u \<longrightarrow> li_user r = None)
      \<longrightarrow> checks_of u (login_run verify dummy_hash between 0 qs d) \<le> 5)
    \<and> (\<forall>(q, checked, r)\<in>set (login_run verify dummy_hash between 0 qs d). li_user r \<noteq> None \<longrightarrow> checked)"
proof (intro conjI impI)
  assume none: "\<forall>(q, checked, r)\<in>set (login_run verify dummy_hash between 0 qs d). tracked_username (lq_username q) = u \<longrightarrow> li_user r = None"
  have "checks_of u (login_run verify dummy_hash between 0 qs d) \<le> MAXIMUM_FAILED_ATTEMPTS"
    by (rule checks_bounded [OF assms(1,2) _ assms(4) _ none])
      (use assms(3) in \<open>auto simp: room_def\<close>)
  then show "checks_of u (login_run verify dummy_hash between 0 qs d) \<le> 5" by (simp add: MAXIMUM_FAILED_ATTEMPTS_def)
qed (blast dest: let_in_checked)

text \<open>
  Every attempt is decided and recorded. A user is let in exactly when the name is that of an active user, no
  block is in force and the stored password accepts the given one; the attempt is blocked
  when a block is in force or this is the fifth failure in a row. One row records it, and besides
  the audit trail and the notifications nothing else changes.
\<close>

theorem login_decided:
  "\<exists>r d'. attempt_user_login verify dummy_hash username password source_address now d = (Inr r, d')
    \<and> li_user r = accepts verify password (tracked_username username) now d
    \<and> li_blocked_until r = (if li_user r = None then new_block_of (tracked_username username) now d else None)
    \<and> (\<exists>t. attempt_row d (tracked_username username) source_address now r t \<and> attempts d' = attempts d @ [t])
    \<and> attempt_frame d d'"
proof -
  obtain r d' where "attempt_user_login verify dummy_hash username password source_address now d = (Inr r, d')"
    "attempt_effect verify (tracked_username username) password source_address now d r d'"
    using wp_attempt [of verify dummy_hash username password source_address now d]
    by (auto simp: wp_def split: prod.split_asm sum.split_asm)
  then show ?thesis unfolding attempt_effect_def by blast
qed


text \<open>The witness: eight wrong guesses for a user in eight seconds, with the jobs table emptied in between.\<close>

definition eve_requests :: "login_request list" where
  "eve_requests = List.map (\<lambda>i. \<lparr>lq_username = '' Eve'', lq_password = ''guess'', lq_source_address = None, lq_now = seconds i\<rparr>) [0..7]"

definition eve_db :: db where
  "eve_db = empty_db\<lparr>users := [\<lparr>u_id = 1, u_username = ''Eve'', u_username_key = ''eve'', u_password_hash = ''h'',
     u_role = ADMIN, u_is_active = True, u_password_change_required = False, u_updated_at = 0\<rparr>]\<rparr>"

lemma nobody_logs_in:
  "x \<in> set (login_run (\<lambda>_ _. False) dummy between n qs d) \<Longrightarrow> li_user (snd (snd x)) = None"
proof (induction qs arbitrary: n d)
  case (Cons q qs)
  let ?d = "between n d"
  obtain r d' where a: "attempt_user_login (\<lambda>_ _. False) dummy (lq_username q) (lq_password q) (lq_source_address q) (lq_now q) ?d = (Inr r, d')"
    and eff: "attempt_effect (\<lambda>_ _. False) (tracked_username (lq_username q)) (lq_password q) (lq_source_address q) (lq_now q) ?d r d'"
    using wp_attempt [of "\<lambda>_ _. False" dummy "lq_username q" "lq_password q" "lq_source_address q" "lq_now q" ?d]
    by (auto simp: wp_def split: prod.split_asm sum.split_asm)
  then have "li_user r = None" by (simp add: attempt_effect_def accepts_def split: option.split)
  with Cons.IH [of "Suc n" d'] Cons.prems a show ?case by (auto simp: Let_def)
qed simp

theorem login_guesses_bounded_witness:
  "checks_of (Some ''eve'') (login_run (\<lambda>_ _. False) [] (\<lambda>_ d. d\<lparr>jobs := []\<rparr>) 0 eve_requests eve_db) \<le> 5"
proof -
  have "\<forall>(q, checked, r)\<in>set (login_run (\<lambda>_ _. False) [] (\<lambda>_ d. d\<lparr>jobs := []\<rparr>) 0 eve_requests eve_db).
      tracked_username (lq_username q) = Some ''eve'' \<longrightarrow> li_user r = None"
    using nobody_logs_in by fastforce
  then show ?thesis
    by (intro login_guesses_bounded [where a = 0, THEN conjunct1, THEN mp])
      (auto simp: eve_requests_def eve_db_def LOGIN_BLOCK_DURATION_def seconds_def earlier_def empty_db_def upto.simps)
qed

end
