(* ===== verification/Accounts.thy ===== *)
theory Accounts
  imports Login "HOL-Library.List_Lexorder" "HOL-Library.Char_ord"
begin

text \<open>
  Sessions, users and permissions: \<open>app/auth/sessions.py\<close>, \<open>authorization.py\<close>, \<open>csrf.py\<close>, \<open>middleware.py\<close>, \<open>service.py\<close>,
  \<open>app/users/service.py\<close>, and the transactions of \<open>app/auth/router.py\<close> and \<open>app/account/router.py\<close>. The tokens drawn by
  \<open>secrets\<close> are arguments and \<open>hash_token\<close> stands for SHA-256; \<open>clock i\<close> is what the \<open>i\<close>-th \<open>datetime.now\<close> of an
  operation answers.
\<close>

section \<open>Sessions\<close>

definition SESSION_MAXIMUM_DURATION :: int where "SESSION_MAXIMUM_DURATION = seconds (8 * 3600)"

definition SESSION_INACTIVITY_TIMEOUT :: int where "SESSION_INACTIVITY_TIMEOUT = seconds 3600"

record issued_session =
  is_session_token :: string
  is_csrf_token :: string
  is_expires_at :: int

record principal =
  sp_session_id :: int
  sp_user_id :: int
  sp_username :: string
  sp_role :: user_role
  sp_password_change_required :: bool
  sp_csrf_token_hash :: string

definition issue_session ::
  "(string \<Rightarrow> string) \<Rightarrow> string \<Rightarrow> string \<Rightarrow> user \<Rightarrow> int \<Rightarrow> (db, issued_session) prog" where
  "issue_session hash_token session_token csrf_token user issued_at =
     bnd (reads sessions) (\<lambda>existing.
       andthen (require (\<not> list_ex (\<lambda>r. r_token_hash r = hash_token session_token) existing) IntegrityError)
        (andthen (modify (\<lambda>d. d\<lparr>sessions := sessions d @ [\<lparr>r_id = fresh_key r_id existing, r_user_id = u_id user,
            r_token_hash = hash_token session_token, r_csrf_token_hash = hash_token csrf_token,
            r_expires_at = issued_at + SESSION_MAXIMUM_DURATION, r_last_seen_at = issued_at, r_revoked_at = None\<rparr>]\<rparr>))
          (ret \<lparr>is_session_token = session_token, is_csrf_token = csrf_token,
             is_expires_at = issued_at + SESSION_MAXIMUM_DURATION\<rparr>)))"

definition put_session :: "session_record \<Rightarrow> (db, unit) prog" where
  "put_session r = modify (\<lambda>d. d\<lparr>sessions := row_put r_id r (sessions d)\<rparr>)"

text \<open>The row of the token joined with its user.\<close>

definition session_of_token :: "(string \<Rightarrow> string) \<Rightarrow> string \<Rightarrow> db \<Rightarrow> (session_record \<times> user) option" where
  "session_of_token hash_token session_token d =
     (case List.find (\<lambda>r. r_token_hash r = hash_token session_token) (sessions d) of
        None \<Rightarrow> None
      | Some r \<Rightarrow> map_option (Pair r) (find_user (r_user_id r) d))"

definition session_over :: "session_record \<Rightarrow> user \<Rightarrow> int \<Rightarrow> bool" where
  "session_over r user now \<longleftrightarrow> r_revoked_at r \<noteq> None \<or> r_expires_at r \<le> now
     \<or> r_last_seen_at r + SESSION_INACTIVITY_TIMEOUT \<le> now \<or> \<not> u_is_active user"

definition resolve_session :: "(string \<Rightarrow> string) \<Rightarrow> string option \<Rightarrow> int \<Rightarrow> (db, principal option) prog" where
  "resolve_session hash_token session_token now = (case session_token of
     None \<Rightarrow> ret None
   | Some token \<Rightarrow>
       bnd (reads (session_of_token hash_token token)) (\<lambda>result. case result of
         None \<Rightarrow> ret None
       | Some (r, user) \<Rightarrow>
           if session_over r user now
           then andthen (if r_revoked_at r = None then put_session (r\<lparr>r_revoked_at := Some now\<rparr>) else ret ()) (ret None)
           else andthen (put_session (r\<lparr>r_last_seen_at := now\<rparr>))
             (ret (Some \<lparr>sp_session_id = r_id r, sp_user_id = u_id user, sp_username = u_username user,
                sp_role = u_role user, sp_password_change_required = u_password_change_required user,
                sp_csrf_token_hash = r_csrf_token_hash r\<rparr>))))"

definition token_matches_hash :: "(string \<Rightarrow> string) \<Rightarrow> string option \<Rightarrow> string \<Rightarrow> bool" where
  "token_matches_hash hash_token token expected_hash = (case token of None \<Rightarrow> False | Some t \<Rightarrow> hash_token t = expected_hash)"

definition tokens_match :: "string option \<Rightarrow> string option \<Rightarrow> bool" where
  "tokens_match first second \<longleftrightarrow> first \<noteq> None \<and> second \<noteq> None \<and> first = second"

definition session_csrf_is_valid :: "(string \<Rightarrow> string) \<Rightarrow> principal \<Rightarrow> string option \<Rightarrow> bool" where
  "session_csrf_is_valid hash_token p csrf_token = token_matches_hash hash_token csrf_token (sp_csrf_token_hash p)"

definition revoke_session :: "int \<Rightarrow> int \<Rightarrow> (db, unit) prog" where
  "revoke_session session_id now = bnd (reads (\<lambda>d. row_get r_id session_id (sessions d))) (\<lambda>row. case row of
     None \<Rightarrow> ret ()
   | Some r \<Rightarrow> if r_revoked_at r = None then put_session (r\<lparr>r_revoked_at := Some now\<rparr>) else ret ())"

definition revoke_user_sessions :: "int \<Rightarrow> int \<Rightarrow> (db, unit) prog" where
  "revoke_user_sessions user_id now = modify (\<lambda>d. d\<lparr>sessions := List.map (\<lambda>r.
     if r_user_id r = user_id \<and> r_revoked_at r = None then r\<lparr>r_revoked_at := Some now\<rparr> else r) (sessions d)\<rparr>)"

section \<open>Users\<close>

definition find_username :: "string \<Rightarrow> db \<Rightarrow> user option" where
  "find_username k d = List.find (\<lambda>u. u_username_key u = k) (users d)"

definition put_user :: "user \<Rightarrow> (db, unit) prog" where
  "put_user u = modify (\<lambda>d. d\<lparr>users := row_put u_id u (users d)\<rparr>)"

text \<open>\<open>session.add(User(...))\<close> and \<open>flush\<close>; both name columns are unique, and \<open>updated_at\<close> has its default.\<close>

definition add_user :: "exn \<Rightarrow> string \<Rightarrow> string \<Rightarrow> user_role \<Rightarrow> bool \<Rightarrow> int \<Rightarrow> (db, user) prog" where
  "add_user duplicate normalized password_hash role change_required now =
     bnd (reads users) (\<lambda>existing.
       andthen (require (\<not> list_ex (\<lambda>u. u_username u = normalized \<or> u_username_key u = username_key normalized) existing) duplicate)
         (let u = \<lparr>u_id = fresh_key u_id existing, u_username = normalized, u_username_key = username_key normalized,
            u_password_hash = password_hash, u_role = role, u_is_active = True,
            u_password_change_required = change_required, u_updated_at = current_timestamp now\<rparr> in
          andthen (modify (\<lambda>d. d\<lparr>users := users d @ [u]\<rparr>)) (ret u)))"

definition create_administrator :: "(string \<Rightarrow> string) \<Rightarrow> string \<Rightarrow> string \<Rightarrow> (nat \<Rightarrow> int) \<Rightarrow> (db, user) prog" where
  "create_administrator hash username password clock =
     bnd (reads users) (\<lambda>existing.
       andthen (require (existing = []) AdministratorAlreadyExistsError)
        (bnd (normalize_username username) (\<lambda>normalized.
          bnd (hash_password hash password) (\<lambda>password_hash.
            add_user IntegrityError normalized password_hash ADMIN False (clock 0)))))"

definition reset_administrator_password :: "(string \<Rightarrow> string) \<Rightarrow> string \<Rightarrow> string \<Rightarrow> (nat \<Rightarrow> int) \<Rightarrow> (db, user) prog" where
  "reset_administrator_password hash username password clock =
     bnd (normalize_username username) (\<lambda>normalized.
     bnd (reads (\<lambda>d. List.find (\<lambda>u. u_username_key u = username_key normalized \<and> u_role u = ADMIN) (users d))) (\<lambda>administrator.
       case administrator of
         None \<Rightarrow> raise AdministratorNotFoundError
       | Some u \<Rightarrow>
           bnd (hash_password hash password) (\<lambda>password_hash.
             let v = u\<lparr>u_password_hash := password_hash, u_password_change_required := False, u_updated_at := clock 0\<rparr> in
             andthen (put_user v) (andthen (revoke_user_sessions (u_id u) (clock 1)) (ret v)))))"

definition list_users :: "(db, user list) prog" where
  "list_users = reads (\<lambda>d. order_by u_username_key (users d))"

definition user_audit :: "int \<Rightarrow> string \<Rightarrow> int \<Rightarrow> user \<Rightarrow> dict option \<Rightarrow> (db, unit) prog" where
  "user_audit now action actor_user_id user details = record_audit_event now
     \<lparr>f_action = action, f_result = AUDIT_RESULT_SUCCESS, f_origin = AUDIT_ORIGIN_ADMINISTRATOR, f_user_id = Some actor_user_id,
      f_job_id = None, f_target = Some (u_username user), f_reason = None, f_details = details\<rparr>"

definition managed_user :: "int \<Rightarrow> int \<Rightarrow> (db, user) prog" where
  "managed_user target_user_id actor_user_id =
     andthen (require (target_user_id \<noteq> actor_user_id) SelfManagementError)
      (bnd (reads (find_user target_user_id)) (\<lambda>user. case user of None \<Rightarrow> raise UserNotFoundError | Some u \<Rightarrow> ret u))"

definition active_administrators :: "db \<Rightarrow> nat" where
  "active_administrators d = length (filter (\<lambda>u. u_role u = ADMIN \<and> u_is_active u) (users d))"

definition require_another_active_administrator :: "user \<Rightarrow> (db, unit) prog" where
  "require_another_active_administrator user = bnd (reads active_administrators) (\<lambda>active_admins.
     require (\<not> (u_is_active user \<and> active_admins \<le> 1)) LastActiveAdministratorError)"

definition role_value :: "user_role \<Rightarrow> string" where
  "role_value role = (case role of ADMIN \<Rightarrow> ''ADMIN'' | USER \<Rightarrow> ''USER'')"

definition create_user ::
  "(string \<Rightarrow> string) \<Rightarrow> string \<Rightarrow> string \<Rightarrow> user_role \<Rightarrow> int \<Rightarrow> (nat \<Rightarrow> int) \<Rightarrow> (db, user) prog" where
  "create_user hash username temporary_password role actor_user_id clock =
     bnd (normalize_username username) (\<lambda>normalized.
     bnd (hash_password hash temporary_password) (\<lambda>password_hash.
     bnd (reads (find_username (username_key normalized))) (\<lambda>existing.
       andthen (require (case existing of None \<Rightarrow> True | Some u \<Rightarrow> u_id u = 0) UsernameAlreadyExistsError)
        (bnd (add_user UsernameAlreadyExistsError normalized password_hash role True (clock 0)) (\<lambda>user.
          andthen (user_audit (clock 1) ''USER_CREATED'' actor_user_id user (Some [(''role'', JStr (role_value role))]))
            (ret user))))))"

definition change_user_role :: "int \<Rightarrow> user_role \<Rightarrow> int \<Rightarrow> (nat \<Rightarrow> int) \<Rightarrow> (db, user) prog" where
  "change_user_role target_user_id role actor_user_id clock =
     bnd (managed_user target_user_id actor_user_id) (\<lambda>user.
       if u_role user = role then ret user
       else andthen (if u_role user = ADMIN \<and> role \<noteq> ADMIN then require_another_active_administrator user else ret ())
        (let changed = user\<lparr>u_role := role, u_updated_at := clock 0\<rparr> in
         andthen (put_user changed)
          (andthen (revoke_user_sessions (u_id user) (clock 1))
            (andthen (user_audit (clock 2) ''USER_ROLE_CHANGED'' actor_user_id changed
                (Some [(''previous_role'', JStr (role_value (u_role user))), (''role'', JStr (role_value role))]))
              (ret changed)))))"

definition set_user_active :: "int \<Rightarrow> bool \<Rightarrow> int \<Rightarrow> (nat \<Rightarrow> int) \<Rightarrow> (db, user) prog" where
  "set_user_active target_user_id active actor_user_id clock =
     bnd (managed_user target_user_id actor_user_id) (\<lambda>user.
       if u_is_active user = active then ret user
       else andthen (if \<not> active \<and> u_role user = ADMIN then require_another_active_administrator user else ret ())
        (let changed = user\<lparr>u_is_active := active, u_updated_at := clock 0\<rparr> in
         andthen (put_user changed)
          (andthen (revoke_user_sessions (u_id user) (clock 1))
            (andthen (user_audit (clock 2) ''USER_STATUS_CHANGED'' actor_user_id changed (Some [(''active'', JBool active)]))
              (ret changed)))))"

definition reset_user_password ::
  "(string \<Rightarrow> string) \<Rightarrow> int \<Rightarrow> string \<Rightarrow> int \<Rightarrow> (nat \<Rightarrow> int) \<Rightarrow> (db, user) prog" where
  "reset_user_password hash target_user_id temporary_password actor_user_id clock =
     bnd (hash_password hash temporary_password) (\<lambda>password_hash.
     bnd (managed_user target_user_id actor_user_id) (\<lambda>user.
       let changed = user\<lparr>u_password_hash := password_hash, u_password_change_required := True, u_updated_at := clock 0\<rparr> in
       andthen (put_user changed)
        (andthen (revoke_user_sessions (u_id user) (clock 1))
          (andthen (user_audit (clock 2) ''USER_PASSWORD_RESET'' actor_user_id changed None) (ret changed)))))"

definition update_own_password :: "(string \<Rightarrow> string) \<Rightarrow> int \<Rightarrow> string \<Rightarrow> (nat \<Rightarrow> int) \<Rightarrow> (db, user) prog" where
  "update_own_password hash user_id new_password clock =
     bnd (reads (find_user user_id)) (\<lambda>user. case user of
       None \<Rightarrow> raise UserNotFoundError
     | Some u \<Rightarrow>
         bnd (hash_password hash new_password) (\<lambda>password_hash.
           let changed = u\<lparr>u_password_hash := password_hash, u_password_change_required := False, u_updated_at := clock 0\<rparr> in
           andthen (put_user changed) (andthen (revoke_user_sessions (u_id u) (clock 1)) (ret changed))))"

section \<open>Permissions\<close>

definition USER_GET_PATHS :: "string list" where
  "USER_GET_PATHS = [''/'', ''/account'', ''/backups/drive/status'', ''/dashboard/active-job'', ''/dashboard/metrics'',
     ''/dashboard/palworld-health'', ''/dashboard/worker-health'']"

definition USER_POST_PATHS :: "string list" where
  "USER_POST_PATHS = [''/account/password'', ''/dashboard/lifecycle/START'', ''/dashboard/lifecycle/RESTART'',
     ''/dashboard/shutdown'', ''/logout'']"

text \<open>A pattern \<open>prefix[0-9]+suffix\<close> that has to match the whole path.\<close>

definition job_path :: "string \<Rightarrow> string list \<Rightarrow> string \<Rightarrow> bool" where
  "job_path prefix suffixes path \<longleftrightarrow> starts_with path prefix \<and>
     (let rest = drop (length prefix) path; digits = takeWhile is_digit rest in
      digits \<noteq> [] \<and> drop (length digits) rest \<in> set suffixes)"

definition user_get_pattern :: "string \<Rightarrow> bool" where
  "user_get_pattern path \<longleftrightarrow> job_path ''/dashboard/lifecycle/jobs/'' [[]] path \<or> job_path ''/dashboard/shutdown/jobs/'' [[]] path"

definition user_post_pattern :: "string \<Rightarrow> bool" where
  "user_post_pattern path \<longleftrightarrow> job_path ''/dashboard/shutdown/jobs/'' [''/cancel'', ''/now''] path"

definition request_is_authorized :: "principal \<Rightarrow> string \<Rightarrow> string \<Rightarrow> bool" where
  "request_is_authorized p meth path =
     (if sp_role p = ADMIN then True
      else if meth = ''GET'' \<or> meth = ''HEAD'' then path \<in> set USER_GET_PATHS \<or> user_get_pattern path
      else if meth = ''POST'' then path \<in> set USER_POST_PATHS \<or> user_post_pattern path
      else False)"

definition password_change_path_is_allowed :: "string \<Rightarrow> string \<Rightarrow> bool" where
  "password_change_path_is_allowed meth path \<longleftrightarrow>
     (meth = ''GET'' \<or> meth = ''HEAD'') \<and> path = ''/account''
     \<or> meth = ''POST'' \<and> (path = ''/account/password'' \<or> path = ''/logout'')"

definition is_public_path :: "string \<Rightarrow> bool" where
  "is_public_path path \<longleftrightarrow> path = ''/health'' \<or> path = ''/login'' \<or> starts_with path ''/static/''"

definition safe_method :: "string \<Rightarrow> bool" where
  "safe_method meth \<longleftrightarrow> meth \<in> {''GET'', ''HEAD'', ''OPTIONS''}"

text \<open>What the middleware does with a request: hand it on, redirect it, refuse it.\<close>

datatype guard_answer = Forwarded "principal option" | SeeOther string | Refused int

definition guard_request ::
  "(string \<Rightarrow> string) \<Rightarrow> string \<Rightarrow> string \<Rightarrow> string option \<Rightarrow> int \<Rightarrow> (db, guard_answer) prog" where
  "guard_request hash_token meth path cookie now =
     (if is_public_path path then ret (Forwarded None)
      else bnd (rollback (resolve_session hash_token cookie now)) (\<lambda>principal. ret (case principal of
        None \<Rightarrow> if safe_method meth then SeeOther ''/login'' else Refused 401
      | Some p \<Rightarrow>
          if sp_password_change_required p \<and> \<not> password_change_path_is_allowed meth path
          then (if safe_method meth then SeeOther ''/account?password_change_required=1'' else Refused 403)
          else if \<not> request_is_authorized p meth path then Refused 403
          else Forwarded (Some p))))"

section \<open>Logging in and out, changing the own password\<close>

definition login_request_tx ::
  "(string \<Rightarrow> string \<Rightarrow> bool) \<Rightarrow> string \<Rightarrow> (string \<Rightarrow> string) \<Rightarrow> string \<Rightarrow> string \<Rightarrow> string \<Rightarrow> string \<Rightarrow> string option
    \<Rightarrow> (nat \<Rightarrow> int) \<Rightarrow> (db, login_result \<times> issued_session option) prog" where
  "login_request_tx verify dummy_hash hash_token session_token csrf_token username password source_address clock =
     rollback (bnd (attempt_user_login verify dummy_hash username password source_address (clock 0)) (\<lambda>result.
       case li_user result of
         None \<Rightarrow> ret (result, None)
       | Some u \<Rightarrow> bnd (issue_session hash_token session_token csrf_token u (clock 1)) (\<lambda>issued. ret (result, Some issued))))"

definition csrf_checked :: "(string \<Rightarrow> string) \<Rightarrow> principal \<Rightarrow> string option \<Rightarrow> string option \<Rightarrow> bool" where
  "csrf_checked hash_token p cookie_token csrf_token \<longleftrightarrow> tokens_match cookie_token csrf_token \<and> session_csrf_is_valid hash_token p csrf_token"

definition logout_request ::
  "(string \<Rightarrow> string) \<Rightarrow> principal \<Rightarrow> string option \<Rightarrow> string option \<Rightarrow> int \<Rightarrow> (db, guard_answer) prog" where
  "logout_request hash_token p cookie_token csrf_token now =
     (if \<not> csrf_checked hash_token p cookie_token csrf_token then ret (Refused 403)
      else andthen (rollback (revoke_session (sp_session_id p) now)) (ret (SeeOther ''/login'')))"

definition password_audit :: "int \<Rightarrow> int \<Rightarrow> audit_result \<Rightarrow> string option \<Rightarrow> (db, unit) prog" where
  "password_audit now user_id result reason = record_audit_event now
     \<lparr>f_action = ''ACCOUNT_PASSWORD_UPDATE'', f_result = result, f_origin = AUDIT_ORIGIN_ADMINISTRATOR, f_user_id = Some user_id,
      f_job_id = None, f_target = Some (msg_text ''Conta pr/opria''), f_reason = reason, f_details = None\<rparr>"

definition change_own_password_tx ::
  "(string \<Rightarrow> string \<Rightarrow> bool) \<Rightarrow> string \<Rightarrow> (string \<Rightarrow> string) \<Rightarrow> principal \<Rightarrow> string \<Rightarrow> string \<Rightarrow> string option
    \<Rightarrow> (nat \<Rightarrow> int) \<Rightarrow> (db, login_result \<times> bool) prog" where
  "change_own_password_tx verify dummy_hash hash p current_password new_password source_address clock =
     rollback (bnd (attempt_user_login verify dummy_hash (sp_username p) current_password source_address (clock 0)) (\<lambda>authentication.
       if li_user authentication = None
       then andthen (password_audit (clock 1) (sp_user_id p) AUDIT_RESULT_FAILURE (Some ''CURRENT_PASSWORD_REJECTED''))
         (ret (authentication, False))
       else if new_password = current_password
       then andthen (password_audit (clock 1) (sp_user_id p) AUDIT_RESULT_FAILURE (Some ''NEW_PASSWORD_MATCHES_CURRENT''))
         (ret (authentication, True))
       else andthen (andthen (update_own_password hash (sp_user_id p) new_password (\<lambda>i. clock (i + 1)))
           (password_audit (clock 3) (sp_user_id p) AUDIT_RESULT_SUCCESS None))
         (ret (authentication, False))))"

text \<open>The answer of the page; a refused confirmation or password is only recorded.\<close>

definition password_request ::
  "(string \<Rightarrow> string \<Rightarrow> bool) \<Rightarrow> string \<Rightarrow> (string \<Rightarrow> string) \<Rightarrow> (string \<Rightarrow> string) \<Rightarrow> principal \<Rightarrow> string option \<Rightarrow> string option
    \<Rightarrow> string \<Rightarrow> string \<Rightarrow> string \<Rightarrow> string option \<Rightarrow> (nat \<Rightarrow> int) \<Rightarrow> (db, guard_answer) prog" where
  "password_request verify dummy_hash hash hash_token p cookie_token csrf_token current_password new_password confirmation source_address clock =
     (if \<not> csrf_checked hash_token p cookie_token csrf_token then ret (Refused 403)
      else if new_password \<noteq> confirmation
      then andthen (rollback (password_audit (clock 0) (sp_user_id p) AUDIT_RESULT_FAILURE (Some ''CONFIRMATION_MISMATCH''))) (ret (Refused 400))
      else bnd (reads (\<lambda>d. fst (validate_password new_password d))) (\<lambda>policy. case policy of
        Inl _ \<Rightarrow> andthen (rollback (password_audit (clock 0) (sp_user_id p) AUDIT_RESULT_FAILURE (Some ''POLICY_REJECTED''))) (ret (Refused 400))
      | Inr _ \<Rightarrow>
          bnd (change_own_password_tx verify dummy_hash hash p current_password new_password source_address clock)
            (\<lambda>(authentication, password_reused).
              ret (if li_user authentication = None
                   then (if li_blocked_until authentication \<noteq> None then Refused 429 else Refused 400)
                   else if password_reused then Refused 400
                   else SeeOther ''/login?password_changed=1''))))"

end
