(* ===== verification/WebRequests.thy ===== *)
theory WebRequests
  imports QueueSteps Accounts
begin

text \<open>
  The requests by which the web process changes the database of the worker: it queues jobs, asks for
  their cancellation and saves the settings; it checks sessions, logs users in and out, changes accounts and passwords,
  and records events (saving the settings of the server and acting on players change nothing else of this
  database). Whatever requests it serves between two statements of the worker, the queue only takes steps
  of its machine, and a started job keeps everything but its flags.
\<close>

datatype web_request =
    RequestLifecycle lifecycle_action "int option" int
  | RequestAssistedShutdown int int int
  | RequestForcedShutdown int palworld_signal int int
  | RequestHostPower host_power_action string int int
  | RequestBackup "int option" string int
  | RequestDriveCheck int int
  | RequestDriveUpload int "int option" string int
  | RequestDriveDownload int int int
  | RequestDriveDelete int int int
  | RequestUpdateCheck int int
  | RequestUpdate string int int
  | RequestLocalRestore int string int int
  | RequestRemoteRestore int string int int
  | CancelShutdown int int "int option" int
  | ShutdownNow int int "int option" int
  | CancelBackup int int int
  | CancelDrive int int int
  | CancelUpdate int int int
  | SaveSettings manager_settings string int int
  | RequestDiscordTest int int
  | GuardRequest "string \<Rightarrow> string" string string "string option" int
  | LoginRequest "string \<Rightarrow> string \<Rightarrow> bool" string "string \<Rightarrow> string" string string string string "string option" "nat \<Rightarrow> int"
  | LogoutRequest "string \<Rightarrow> string" principal "string option" "string option" int
  | PasswordRequest "string \<Rightarrow> string \<Rightarrow> bool" string "string \<Rightarrow> string" "string \<Rightarrow> string" principal "string option" "string option"
      string string string "string option" "nat \<Rightarrow> int"
  | CreateUser "string \<Rightarrow> string" string string user_role int "nat \<Rightarrow> int"
  | ChangeUserRole int user_role int "nat \<Rightarrow> int"
  | SetUserActive int bool int "nat \<Rightarrow> int"
  | ResetUserPassword "string \<Rightarrow> string" int string int "nat \<Rightarrow> int"
  | CreateAdministrator "string \<Rightarrow> string" string string "nat \<Rightarrow> int"
  | ResetAdministrator "string \<Rightarrow> string" string string "nat \<Rightarrow> int"
  | RecordEvent int audit_fields

definition void :: "('s, 'a) prog \<Rightarrow> ('s, unit) prog" where
  "void m = bnd m (\<lambda>_. ret ())"

fun perform :: "(string \<Rightarrow> bool) \<Rightarrow> (manager_settings \<Rightarrow> string) \<Rightarrow> web_request \<Rightarrow> (db, unit) prog" where
  "perform z v (RequestLifecycle action u now) = void (enqueue_lifecycle_job action u now)"
| "perform z v (RequestAssistedShutdown m u now) = void (enqueue_assisted_shutdown m u now)"
| "perform z v (RequestForcedShutdown source sig u now) = void (enqueue_forced_shutdown source sig u now)"
| "perform z v (RequestHostPower action c u now) = void (enqueue_host_power_job action c u now)"
| "perform z v (RequestBackup u trigger now) = void (enqueue_local_backup u trigger now)"
| "perform z v (RequestDriveCheck u now) = void (enqueue_drive_check u now)"
| "perform z v (RequestDriveUpload k u trigger now) = void (enqueue_drive_upload k u trigger now)"
| "perform z v (RequestDriveDownload k u now) = void (enqueue_drive_download k u now)"
| "perform z v (RequestDriveDelete k u now) = void (enqueue_drive_delete k u now)"
| "perform z v (RequestUpdateCheck u now) = void (enqueue_update_check u now)"
| "perform z v (RequestUpdate c u now) = void (enqueue_update z c u now)"
| "perform z v (RequestLocalRestore k c u now) = void (enqueue_local_restore k c u now)"
| "perform z v (RequestRemoteRestore k c u now) = void (enqueue_remote_restore k c u now)"
| "perform z v (CancelShutdown k u owner now) = void (request_shutdown_cancel k u owner now)"
| "perform z v (ShutdownNow k u owner now) = void (request_shutdown_now k u owner now)"
| "perform z v (CancelBackup k u now) = void (request_backup_cancel k u now)"
| "perform z v (CancelDrive k u now) = void (request_drive_cancel k u now)"
| "perform z v (CancelUpdate k u now) = void (request_update_cancel k u now)"
| "perform z v (SaveSettings values expected u now) = void (update_manager_settings z v values expected u now)"
| "perform z v (RequestDiscordTest u now) = void (enqueue_discord_test u now)"
| "perform z v (GuardRequest hash_token meth path cookie now) = void (guard_request hash_token meth path cookie now)"
| "perform z v (LoginRequest verify dummy hash_token session_token csrf_token username password source clock) =
     void (login_request_tx verify dummy hash_token session_token csrf_token username password source clock)"
| "perform z v (LogoutRequest hash_token p cookie csrf now) = void (logout_request hash_token p cookie csrf now)"
| "perform z v (PasswordRequest verify dummy hash hash_token p cookie csrf old_password new_password confirmation source clock) =
     void (password_request verify dummy hash hash_token p cookie csrf old_password new_password confirmation source clock)"
| "perform z v (CreateUser hash username password role actor clock) = void (create_user hash username password role actor clock)"
| "perform z v (ChangeUserRole k role actor clock) = void (change_user_role k role actor clock)"
| "perform z v (SetUserActive k active actor clock) = void (set_user_active k active actor clock)"
| "perform z v (ResetUserPassword hash k password actor clock) = void (reset_user_password hash k password actor clock)"
| "perform z v (CreateAdministrator hash username password clock) = void (create_administrator hash username password clock)"
| "perform z v (ResetAdministrator hash username password clock) = void (reset_administrator_password hash username password clock)"
| "perform z v (RecordEvent now f) = record_audit_event now f"

text \<open>Each request is a transaction of its own.\<close>

definition commit_request :: "(string \<Rightarrow> bool) \<Rightarrow> (manager_settings \<Rightarrow> string) \<Rightarrow> web_request \<Rightarrow> db \<Rightarrow> db" where
  "commit_request z v r d = snd (rollback (perform z v r) d)"

definition serves_requests :: "env \<Rightarrow> bool" where
  "serves_requests env \<longleftrightarrow> (\<forall>n. \<exists>z v rs. \<forall>d. e_interfere env n d = fold (commit_request z v) rs d)"

lemma serves_calm [simp]: "serves_requests calm_env"
  unfolding serves_requests_def calm_env_simps by (metis fold_Nil id_apply)

section \<open>What a request does to the queue\<close>

text \<open>A queue in which the started jobs kept everything but their flags.\<close>

definition flags_only :: "db \<Rightarrow> db \<Rightarrow> bool" where
  "flags_only d d' \<longleftrightarrow> (\<forall>k j. find_job k d = Some j \<longrightarrow> j_status j \<noteq> JOB_STATUS_PENDING \<longrightarrow>
     (\<exists>c x. find_job k d' = Some (j\<lparr>j_cancel_requested := c, j_execute_now_requested := x\<rparr>)))"

definition web_step :: "db \<Rightarrow> db \<Rightarrow> bool" where
  "web_step d d' \<longleftrightarrow> since d d' \<and> flags_only d d'"

lemma flags_only_cong: "jobs d = jobs d' \<Longrightarrow> flags_only d d'"
  unfolding flags_only_def find_job_def by (metis flags_same)

lemma flags_only_trans: "flags_only a b \<Longrightarrow> flags_only b c \<Longrightarrow> flags_only a c"
  unfolding flags_only_def by (fastforce dest: spec)

lemma web_step_refl [simp]: "web_step d d"
  by (simp add: web_step_def flags_only_cong)

lemma web_step_trans: "web_step a b \<Longrightarrow> web_step b c \<Longrightarrow> web_step a c"
  unfolding web_step_def using since_trans flags_only_trans by blast

lemma web_step_other: "jobs d' = jobs d \<Longrightarrow> locks d' = locks d \<Longrightarrow> web_step d d'"
  unfolding web_step_def using since_cong [of d' d d] flags_only_cong [of d d'] by simp

lemma web_step_append: "appended key j d d' \<Longrightarrow> web_step d d'"
  unfolding web_step_def flags_only_def
  using since_append [OF since_refl] find_appended flags_same by metis

lemma web_step_put:
  assumes "find_job (j_id j) d = Some j0" and "evolves j0 j"
    and "j_status j0 \<noteq> JOB_STATUS_PENDING \<Longrightarrow> \<exists>c x. j = j0\<lparr>j_cancel_requested := c, j_execute_now_requested := x\<rparr>"
    and "jobs d' = row_put j_id j (jobs d)" and "locks d' = locks d"
  shows "web_step d d'"
proof -
  have "since d d'" by (rule since_step [OF since_refl queue_step.evolve [OF assms(1,2,4,5)]])
  moreover have "flags_only d d'"
    unfolding flags_only_def
  proof (intro allI impI)
    fix k i
    assume i: "find_job k d = Some i" "j_status i \<noteq> JOB_STATUS_PENDING"
    note after = find_row_put [OF i(1) assms(4)]
    show "\<exists>c x. find_job k d' = Some (i\<lparr>j_cancel_requested := c, j_execute_now_requested := x\<rparr>)"
    proof (cases "j_id j = k")
      case True
      with i assms(1,3) after show ?thesis by auto
    next
      case False
      with after show ?thesis using flags_same by metis
    qed
  qed
  ultimately show ?thesis by (simp add: web_step_def)
qed

text \<open>The producers and the cancellations.\<close>

lemma wp_void [wp_simps]: "wp (void m) Q E s = wp m (\<lambda>_. Q ()) E s"
  by (auto simp: void_def wp_def bnd_def ret_def split: prod.splits sum.splits)

lemma web_step_cancel:
  assumes "find_job k d = Some j" and "jobs d' = row_put j_id (j\<lparr>j_cancel_requested := True\<rparr>) (jobs d)" and "locks d' = locks d"
  shows "web_step d d'"
proof (rule web_step_put [OF _ _ _ assms(2,3)])
  show "find_job (j_id (j\<lparr>j_cancel_requested := True\<rparr>)) d = Some j" using assms(1) find_job_id by auto
  have "j\<lparr>j_cancel_requested := True\<rparr> = j\<lparr>j_cancel_requested := True, j_execute_now_requested := j_execute_now_requested j\<rparr>"
    by (cases j) simp
  then show "\<exists>c x. j\<lparr>j_cancel_requested := True\<rparr> = j\<lparr>j_cancel_requested := c, j_execute_now_requested := x\<rparr>" by blast
qed (simp add: evolves_def)

lemma web_step_now:
  assumes "find_job k d = Some j" and "jobs d' = row_put j_id (j\<lparr>j_execute_now_requested := True\<rparr>) (jobs d)" and "locks d' = locks d"
  shows "web_step d d'"
proof (rule web_step_put [OF _ _ _ assms(2,3)])
  show "find_job (j_id (j\<lparr>j_execute_now_requested := True\<rparr>)) d = Some j" using assms(1) find_job_id by auto
  have "j\<lparr>j_execute_now_requested := True\<rparr> = j\<lparr>j_cancel_requested := j_cancel_requested j, j_execute_now_requested := True\<rparr>"
    by (cases j) simp
  then show "\<exists>c x. j\<lparr>j_execute_now_requested := True\<rparr> = j\<lparr>j_cancel_requested := c, j_execute_now_requested := x\<rparr>" by blast
qed (simp add: evolves_def)

text \<open>A PENDING job that is cancelled at once.\<close>

lemma web_step_drop:
  assumes "find_job k d = Some j" and "j_status j = JOB_STATUS_PENDING" and "locks d' = locks d"
    and "jobs d' = row_put j_id (finished JOB_STATUS_CANCELLED step now r (j\<lparr>j_cancel_requested := True\<rparr>))
      (row_put j_id (j\<lparr>j_cancel_requested := True\<rparr>) (jobs d))"
  shows "web_step d d'"
proof -
  let ?j = "finished JOB_STATUS_CANCELLED step now r (j\<lparr>j_cancel_requested := True\<rparr>)"
  have lock: "j_requires_maintenance_lock ?j = j_requires_maintenance_lock j" by (simp add: finished_def)
  show ?thesis
  proof (rule web_step_put [of ?j d j d'])
    show "find_job (j_id ?j) d = Some j" using assms(1) find_job_id by auto
    show "evolves j ?j" by (simp add: evolves_def lock)
    show "jobs d' = row_put j_id ?j (jobs d)" using assms(4) by (auto simp: row_put_def)
  qed (use assms in simp_all)
qed

lemma wp_request_cancel: "wp (request_cancel kinds action target k u now) (\<lambda>_. web_step d) (\<lambda>_ _. True) d"
  by (auto simp: request_cancel_def wp_simps split: option.split intro: web_step_cancel)

lemma wp_shutdown_now: "wp (request_shutdown_now k u owner now) (\<lambda>_. web_step d) (\<lambda>_ _. True) d"
  by (auto simp: request_shutdown_now_def wp_simps split: option.split intro: web_step_now)

lemma wp_shutdown_cancel: "wp (request_shutdown_cancel k u owner now) (\<lambda>_. web_step d) (\<lambda>_ _. True) d"
  by (auto simp: request_shutdown_cancel_def wp_simps Let_def find_job_id split: option.split
      intro: web_step_cancel web_step_drop)

lemma wp_update_cancel: "wp (request_update_cancel k u now) (\<lambda>_. web_step d) (\<lambda>_ _. True) d"
  by (auto simp: request_update_cancel_def mark_update_cancelled_def wp_simps Let_def find_job_id
      split: option.split intro: web_step_cancel web_step_drop)


text \<open>Saving the settings and asking for a test message change other tables.\<close>

definition same_queue :: "db \<Rightarrow> db \<Rightarrow> bool" where
  "same_queue d d' \<longleftrightarrow> jobs d' = jobs d \<and> locks d' = locks d"

lemma keeps_write_setting: "keeps (same_queue d) (write_setting u now kv)"
  by (cases kv) (auto simp: same_queue_def write_setting_def keeps_def triple_def wp_simps Let_def split: option.split)

lemma keeps_same_audit: "keeps (same_queue d) (record_audit_event now f)"
  by (simp add: same_queue_def keeps_def triple_def wp_record_audit_event')

lemma wp_save_settings: "wp (update_manager_settings z v values expected u now) (\<lambda>_. web_step d) (\<lambda>_ _. True) d"
proof -
  have "keeps (same_queue d) (load_manager_settings z)"
    by (simp add: keeps_def triple_def load_manager_settings_def wp_simps split: option.split)
  then have "keeps (same_queue d) (update_manager_settings z v values expected u now)"
    unfolding update_manager_settings_def
    by (intro keeps_rules keeps_write_setting keeps_same_audit)
  then have "wp (update_manager_settings z v values expected u now) (\<lambda>_. same_queue d) (\<lambda>_. same_queue d) d"
    by (rule tripleD [OF keepsD]) (simp add: same_queue_def)
  then show ?thesis by (rule wp_mono) (auto simp: same_queue_def intro: web_step_other)
qed

lemma wp_discord_test: "wp (enqueue_discord_test u now) (\<lambda>_. web_step d) (\<lambda>_ _. True) d"
  by (auto simp: enqueue_discord_test_def enqueue_discord_notification_def wp_simps Let_def intro: web_step_other)

text \<open>Sessions, logins and accounts too.\<close>

lemma keeps_same_modify: "(\<And>e. jobs (f e) = jobs e \<and> locks (f e) = locks e) \<Longrightarrow> keeps (same_queue d) (modify f)"
  by (simp add: same_queue_def keeps_def triple_def wp_simps)

lemma keeps_rollback: "keeps P m \<Longrightarrow> keeps P (rollback m)"
  by (auto simp: keeps_def triple_def wp_def rollback_def split: prod.split sum.split)

lemma keeps_sum: "(\<And>e. keeps P (g e)) \<Longrightarrow> (\<And>y. keeps P (f y)) \<Longrightarrow> keeps P (case r of Inl e \<Rightarrow> g e | Inr y \<Rightarrow> f y)"
  by (simp split: sum.split)

lemma keeps_same_rows:
  "keeps (same_queue d) (put_session r)" "keeps (same_queue d) (put_user u)" "keeps (same_queue d) (revoke_user_sessions k now)"
  "keeps (same_queue d) (add_attempt user_id username source successful now b)"
  "keeps (same_queue d) (enqueue_discord_notification ty job_id now)" "keeps (same_queue d) (user_audit now action k u details)"
  "keeps (same_queue d) (password_audit now k result reason)" "keeps (same_queue d) (login_event now action result origin user_id target reason source)"
  "keeps (same_queue d) (issue_session hash_token token csrf u now)" "keeps (same_queue d) (add_user e name h role c now)"
  unfolding put_session_def put_user_def revoke_user_sessions_def add_attempt_def enqueue_discord_notification_def user_audit_def
    password_audit_def login_event_def issue_session_def add_user_def Let_def
  by (intro keeps_rules keeps_same_modify keeps_same_audit; simp)+

lemma keeps_same_checks:
  "keeps (same_queue d) (normalize_username username)" "keeps (same_queue d) (hash_password hash password)"
  "keeps (same_queue d) (managed_user k actor)" "keeps (same_queue d) (require_another_active_administrator u)"
  "keeps (same_queue d) (revoke_session i now)" "keeps (same_queue d) (resolve_session hash_token cookie now)"
  unfolding normalize_username_def hash_password_def validate_password_def managed_user_def require_another_active_administrator_def
    revoke_session_def resolve_session_def Let_def
  by (intro keeps_rules keeps_case_prod keeps_same_rows)+

lemma keeps_same_login: "keeps (same_queue d) (attempt_user_login verify dummy username password source now)"
  unfolding attempt_user_login_def blocked_login_def accepted_login_def failed_login_def Let_def
  by (intro keeps_rules keeps_same_rows)

lemma keeps_same_own_password: "keeps (same_queue d) (update_own_password hash k password clock)"
  unfolding update_own_password_def Let_def by (intro keeps_rules keeps_same_rows keeps_same_checks)

lemma keeps_same_accounts:
  "keeps (same_queue d) (guard_request hash_token meth path cookie now)"
  "keeps (same_queue d) (login_request_tx verify dummy hash_token session_token csrf_token username password source clock)"
  "keeps (same_queue d) (logout_request hash_token p cookie csrf now)"
  "keeps (same_queue d) (password_request verify dummy hash hash_token p cookie csrf old_password new_password confirmation source clock)"
  "keeps (same_queue d) (create_user hash username password role actor clock)"
  "keeps (same_queue d) (change_user_role k role actor clock)"
  "keeps (same_queue d) (set_user_active k active actor clock)"
  "keeps (same_queue d) (reset_user_password hash k password actor clock)"
  "keeps (same_queue d) (create_administrator hash username password clock)"
  "keeps (same_queue d) (reset_administrator_password hash username password clock)"
  unfolding guard_request_def login_request_tx_def logout_request_def password_request_def change_own_password_tx_def create_user_def
    change_user_role_def set_user_active_def reset_user_password_def create_administrator_def reset_administrator_password_def Let_def
  by (intro keeps_rules keeps_case_prod keeps_rollback keeps_sum keeps_same_rows keeps_same_checks keeps_same_login keeps_same_own_password)+

lemma wp_same_queue: "keeps (same_queue d) m \<Longrightarrow> wp m (\<lambda>_. web_step d) (\<lambda>_ _. True) d"
proof -
  assume m: "keeps (same_queue d) m"
  show ?thesis
    by (rule wp_mono [OF tripleD [OF keepsD [OF m]]]) (auto simp: same_queue_def intro: web_step_other)
qed

lemma wp_appending: "wp m (\<lambda>j d'. appended key j d d') (\<lambda>_ _. True) d \<Longrightarrow> wp m (\<lambda>_. web_step d) (\<lambda>_ _. True) d"
  by (erule wp_mono) (auto intro: web_step_append)

lemma wp_perform: "wp (perform z v r) (\<lambda>_. web_step d) (\<lambda>_ _. True) d"
proof (cases r)
  case (RequestLifecycle a u now)
  then show ?thesis using wp_appending [OF lifecycle_producer.enqueue_appends [of "(a, u, now)" d]] by (simp add: wp_void)
next
  case (RequestAssistedShutdown m u now)
  then show ?thesis using wp_appending [OF assisted_producer.enqueue_appends [of "(m, u, now)" d]] by (simp add: wp_void)
next
  case (RequestForcedShutdown source sig u now)
  then show ?thesis using wp_appending [OF forced_producer.enqueue_appends [of "(source, sig, u, now)" d]] by (simp add: wp_void)
next
  case (RequestHostPower a c u now)
  then show ?thesis using wp_appending [OF host_power_producer.enqueue_appends [of "(a, c, u, now)" d]] by (simp add: wp_void)
next
  case (RequestBackup u t now)
  then show ?thesis using wp_appending [OF local_backup_producer.enqueue_appends [of "(u, t, now)" d]] by (simp add: wp_void)
next
  case (RequestDriveCheck u now)
  then show ?thesis using wp_appending [OF drive_check_producer.enqueue_appends [of "(u, now)" d]] by (simp add: wp_void)
next
  case (RequestDriveUpload k u t now)
  then show ?thesis using wp_appending [OF drive_upload_producer.enqueue_appends [of k "(u, t, now)" d]] by (simp add: wp_void)
next
  case (RequestDriveDownload k u now)
  then show ?thesis using wp_appending [OF drive_remote_producer.enqueue_appends [of k "Inl (u, now)" d, simplified]] by (simp add: wp_void)
next
  case (RequestDriveDelete k u now)
  then show ?thesis using wp_appending [OF drive_remote_producer.enqueue_appends [of k "Inr (u, now)" d, simplified]] by (simp add: wp_void)
next
  case (RequestUpdateCheck u now)
  then show ?thesis using wp_appending [OF update_check_producer.enqueue_appends [of "(u, now)" d]] by (simp add: wp_void)
next
  case (RequestUpdate c u now)
  then show ?thesis using wp_appending [OF update_producer.enqueue_appends [of z "(c, u, now)" d]] by (simp add: wp_void)
next
  case (RequestLocalRestore k c u now)
  then show ?thesis using wp_appending [OF restore_producer.enqueue_appends [of "Inl (k, c, u, now)" d, simplified]] by (simp add: wp_void)
next
  case (RequestRemoteRestore k c u now)
  then show ?thesis using wp_appending [OF restore_producer.enqueue_appends [of "Inr (k, c, u, now)" d, simplified]] by (simp add: wp_void)
qed (simp_all add: wp_void wp_same_queue keeps_same_accounts keeps_same_audit request_backup_cancel_def request_drive_cancel_def wp_request_cancel wp_shutdown_now
    wp_shutdown_cancel wp_update_cancel wp_save_settings wp_discord_test)

lemma commit_web_step: "web_step d (commit_request z v r d)"
  using wp_perform [of z v r d] by (auto simp: commit_request_def rollback_def wp_def split: prod.split sum.split)

lemma requests_web_step: "web_step d (fold (commit_request z v) rs d)"
proof (induction rs arbitrary: d)
  case (Cons r rs)
  from web_step_trans [OF commit_web_step [of d z v r] Cons] show ?case by simp
qed simp

lemma serves_web_step: "serves_requests env \<Longrightarrow> web_step d (e_interfere env n d)"
  unfolding serves_requests_def using requests_web_step by metis

text \<open>What the executors rely on.\<close>

lemma serves_leaves_started: "serves_requests env \<Longrightarrow> leaves_started k env"
  using serves_web_step unfolding web_step_def flags_only_def leaves_started_def by blast

lemma serves_leaves_job: "serves_requests env \<Longrightarrow> leaves_job k env"
  using serves_web_step unfolding web_step_def flags_only_def leaves_job_def by fastforce

lemma serves_since: "serves_requests env \<Longrightarrow> stable env (since d0)"
  using serves_web_step since_trans unfolding web_step_def stable_def by blast

end
