(* ===== verification/QueueRun.thy ===== *)
theory QueueRun
  imports WebRequests
begin

text \<open>
  Every executor of the worker changes the queue only by steps of its machine, whatever the services
  answer and whatever requests the web process serves in between; and so does the claim of a job.
\<close>

section \<open>Transactions that take steps of the machine\<close>

lemma since_write:
  "since d0 d \<Longrightarrow> find_job k d = Some j0 \<Longrightarrow> evolves j0 j \<Longrightarrow> since d0 (d\<lparr>jobs := row_put j_id j (jobs d)\<rparr>)"
  by (rule since_put [of d0 d j j0]) (auto simp: evolves_def dest: find_job_id)

lemma finished_evolves [simp]:
  "\<not> active_status st \<Longrightarrow> evolves j (finished st step now r j)"
  by (simp add: evolves_def finished_def)

lemma steps_update:
  assumes "\<And>j. evolves j (f j)"
  shows "keeps (since d0) (update_job k f)"
  using assms by (auto simp: keeps_def triple_def wp_update_job split: option.split intro: since_write)

lemma steps_get: "keeps (since d0) (get_one_job k)"
  by (simp add: keeps_def triple_def wp_get_one_job split: option.split)

text \<open>Reading a job and writing it back later in the same transaction.\<close>

lemma steps_with_job:
  assumes "\<And>j d. since d0 d \<Longrightarrow> find_job k d = Some j \<Longrightarrow> wp (f j) (\<lambda>_. since d0) (\<lambda>_. since d0) d"
  shows "keeps (since d0) (bnd (get_one_job k) f)"
  using assms by (simp add: keeps_def triple_def wp_bnd wp_get_one_job split: option.split)

lemma steps_write_then:
  "since d0 d \<Longrightarrow> find_job k d = Some j \<Longrightarrow> evolves j j' \<Longrightarrow> keeps (since d0) m \<Longrightarrow>
   wp (andthen (put_job j') m) (\<lambda>_. since d0) (\<lambda>_. since d0) d"
  by (simp add: wp_andthen wp_put_job keeps_def triple_def since_write)

lemma steps_audit: "keeps (since d0) (record_audit_event now f)"
  by (simp add: keeps_def triple_def wp_record_audit_event')

lemma steps_notify: "keeps (since d0) (enqueue_discord_notification e k now)"
  by (simp add: keeps_def triple_def enqueue_discord_notification_def wp_simps)

lemma steps_settings: "keeps (since d0) (configured_local_retention z)" "keeps (since d0) (configured_drive_retention z)"
    "keeps (since d0) (load_manager_settings z)"
  by (simp_all add: keeps_def triple_def configured_local_retention_def configured_drive_retention_def
      load_manager_settings_def wp_simps split: option.split)

lemma steps_insert_backup: "keeps (since d0) (insert_backup mk)"
  by (simp add: keeps_def triple_def wp_def insert_backup_def Let_def)

lemma steps_delete_backup: "keeps (since d0) (delete_backup i)"
  by (simp add: keeps_def triple_def delete_backup_def wp_simps)

lemma steps_get_backup: "keeps (since d0) (get_backup i)"
  by (simp add: keeps_def triple_def get_backup_def wp_def split: option.split)

lemma steps_lift: "keeps P (lift f)"
  by (simp add: keeps_def triple_def wp_lift split: sum.split)

lemma steps_web_request:
  assumes "wp tx (\<lambda>_. web_step d) (\<lambda>_ _. True) d" and "since d0 d"
  shows "wp tx (\<lambda>_. since d0) (\<lambda>_ _. True) d"
  by (rule wp_mono [OF assms(1)]) (use assms(2) since_trans in \<open>auto simp: web_step_def\<close>)

lemmas steps_rules = keeps_rules steps_get steps_audit steps_notify steps_settings steps_insert_backup
  steps_delete_backup steps_get_backup steps_lift


text \<open>The transactions of the executors.\<close>

lemma steps_lifecycle:
  "keeps (since d0) (complete_lifecycle_job k action t r now)" "keeps (since d0) (fail_lifecycle_job k now)"
  unfolding complete_lifecycle_job_def fail_lifecycle_job_def
  by (rule steps_with_job; auto simp: wp_simps wp_record_audit_event' Let_def evolves_def split: option.split
      intro: since_write)+

lemma steps_countdown:
  "keeps (since d0) (countdown_update_tx k x y)" "keeps (since d0) (mark_irreversible_tx k)"
  "keeps (since d0) (update_countdown_tx k x y)" "keeps (since d0) (mark_update_tx k)"
  by (auto simp: countdown_update_tx_def mark_irreversible_tx_def update_countdown_tx_def mark_update_tx_def
      keeps_def triple_def wp_simps Let_def evolves_def split: option.split intro: since_write)

lemma outcome_over [simp]: "\<not> active_status (outcome_status r)"
  by (cases r) simp_all

lemma steps_complete_shutdown: "keeps (since d0) (complete_shutdown_tx k r a n now)"
  unfolding complete_shutdown_tx_def
  by (intro steps_with_job steps_write_then steps_rules) auto

lemma steps_host_power:
  "keeps (since d0) (complete_host_power_tx k a ok details now)" "keeps (since d0) (start_host_power_tx k)"
  unfolding complete_host_power_tx_def
  subgoal by (intro steps_rules steps_update) simp
  subgoal unfolding start_host_power_tx_def
    by (rule steps_with_job) (auto simp: wp_simps evolves_def split: option.split intro: since_write)
  done

lemma steps_checkpoint: "keeps (since d0) (checkpoint_tx c k step p b)"
  unfolding checkpoint_tx_def
  by (rule steps_with_job) (auto simp: wp_simps evolves_def intro: since_write)

lemma steps_backup: "keeps (since d0) (cancelled_backup_tx k t now)" "keeps (since d0) (failed_backup_tx k t now)"
  unfolding cancelled_backup_tx_def failed_backup_tx_def finish_failed_job_def
  by (intro steps_rules steps_update; simp)+

lemma steps_drive: "\<not> active_status st \<Longrightarrow> keeps (since d0) (finish_drive_tx k st step r ev now)"
  unfolding finish_drive_tx_def by (intro steps_rules steps_update) simp

lemma steps_drive_done: "keeps (since d0) (succeed_drive_tx k r a now)" "keeps (since d0) (register_remote_tx k r x c now)"
  unfolding succeed_drive_tx_def register_remote_tx_def by (intro steps_rules steps_drive; simp)+

lemma steps_update_job_end:
  "keeps (since d0) (failed_update_tx k c m b i n now)" "keeps (since d0) (complete_update_tx k r ds nt now)"
  "keeps (since d0) (bnd (get_one_job k) (\<lambda>j. mark_update_cancelled j r now))"
  unfolding failed_update_tx_def complete_update_tx_def mark_update_cancelled_def
  subgoal by (intro steps_with_job steps_write_then steps_rules) auto
  subgoal by (intro steps_rules steps_update) simp
  subgoal by (intro steps_with_job steps_write_then steps_rules) auto
  done

lemma steps_restore: "keeps (since d0) (restore_checkpoint_tx k step p b)" "keeps (since d0) (complete_restore_tx k data i now)"
  "keeps (since d0) (failed_restore_tx k data c m b i now)"
  unfolding restore_checkpoint_tx_def complete_restore_tx_def failed_restore_tx_def
  subgoal by (rule steps_with_job) (auto simp: wp_simps evolves_def intro: since_write)
  by (intro steps_rules steps_update; simp)+

section \<open>The executors\<close>

text \<open>
  The world after steps of the queue. Everything below holds for an environment whose web process
  serves requests.
\<close>

abbreviation stepped :: "db \<Rightarrow> world \<Rightarrow> bool" where
  "stepped d0 \<equiv> in_db (since d0)"

lemma stepped_call: "keeps (stepped d0) (call env f ev)"
  by (rule keeps_call) simp

lemma stepped_modify: "(\<And>w. w_db (g w) = w_db w) \<Longrightarrow> keeps (stepped d0) (modify g)"
  by (rule keeps_modify) (simp add: in_db_def)

lemma stepped_on_db: "keeps (since d0) tx \<Longrightarrow> keeps (stepped d0) (on_db tx)"
  by (simp add: keeps_def triple_def wp_on_db in_db_def)

lemma stepped_lifecycle: "keeps (stepped d0) (lifecycle_execute env a t)"
  by (rule palworld_lifecycle.exec_keeps_only) (simp add: in_db_def lifecycle_frame_def)

interpretation stepped_files: retention_frame "in_db (since d0)" env for d0 env
  by unfold_locales (auto simp: in_db_def dest: since_cong [THEN iffD2, rotated -1])

lemma stepped_log: "keeps (stepped d0) (log_line path m)"
  unfolding log_line_def by (rule stepped_modify) simp

lemma stepped_sleep: "keeps (stepped d0) (sleep env t)"
  unfolding sleep_def by (rule stepped_modify) simp

lemmas stepped_rules = keeps_rules stepped_call stepped_sleep stepped_on_db stepped_lifecycle stepped_log stepped_files.step stepped_files.inspect
  stepped_files.health stepped_files.directory stepped_files.resolve stepped_files.remove stepped_files.publish
  stepped_files.tree stepped_files.publish_and_verify stepped_files.retention stepped_files.register stepped_files.settings
  stepped_files.audit

lemma stepped_scope:
  assumes "serves_requests env" and "keeps (since d0) tx"
  shows "keeps (stepped d0) (session_scope env tx)"
  by (rule scope_keeps [OF serves_since [OF assms(1)]]) (rule wp_mono [OF tripleD [OF keepsD [OF assms(2)]]], auto)

lemma stepped_block:
  assumes "serves_requests env" and "keeps (stepped d0) m"
  shows "keeps (stepped d0) (session_block env m)"
  by (rule block_keeps [OF serves_since [OF assms(1)] assms(2)])

text \<open>The shutdowns.\<close>

lemma stepped_countdown:
  assumes "\<And>x y. keeps (stepped d0) (c_update ctl x y)"
  shows "keeps (stepped d0) (countdown env ctl p t n)"
  by (induction n) (auto simp: try_rest_def announce_def intro!: stepped_rules assms)

lemma stepped_assisted:
  assumes "\<And>x y. keeps (stepped d0) (c_update ctl x y)" and "keeps (stepped d0) (c_mark_irreversible ctl)"
  shows "keeps (stepped d0) (assisted_shutdown env (lifecycle_execute env) m t ctl)"
  unfolding assisted_shutdown_def try_rest_def online_player_count_def announce_def
  by (intro stepped_rules stepped_countdown assms)

lemma stepped_port: "keeps (stepped d0) (port_open env)"
  by (simp add: keeps_def triple_def wp_port_open Let_def)

lemma stepped_forced_poll: "keeps (stepped d0) (forced_poll env n t)"
  by (induction n) (auto simp: health_check_def intro!: stepped_rules stepped_port)

lemma stepped_shutdown_jobs:
  assumes "serves_requests env"
  shows "keeps (stepped d0) (execute_assisted_shutdown_job env k (lifecycle_execute env))"
    and "keeps (stepped d0) (execute_forced_shutdown_job env k)" and "keeps (stepped d0) (fail_shutdown_job env k)"
proof -
  note scope = stepped_scope [OF assms]
  have int: "keeps (since d0) (required_int x key lo hi)" for x key lo hi
    by (simp add: required_int_def keeps_def triple_def wp_simps split: option.split)
  have complete: "keeps (stepped d0) (complete_shutdown_job env k r a n)" for r a n
    unfolding complete_shutdown_job_def by (intro stepped_rules scope steps_complete_shutdown)
  show "keeps (stepped d0) (execute_assisted_shutdown_job env k (lifecycle_execute env))"
    unfolding execute_assisted_shutdown_job_def
    by (intro stepped_rules scope steps_rules int complete stepped_assisted)
      (simp_all add: database_countdown_control_def scope steps_countdown)
  show "keeps (stepped d0) (execute_forced_shutdown_job env k)"
    unfolding execute_forced_shutdown_job_def forced_shutdown_def send_signal_def Let_def
    by (intro stepped_rules scope steps_rules int complete stepped_forced_poll)
  show "keeps (stepped d0) (fail_shutdown_job env k)"
    unfolding fail_shutdown_job_def by (rule complete)
qed

lemma stepped_lifecycle_job:
  assumes "serves_requests env"
  shows "keeps (stepped d0) (execute_lifecycle_job env k (lifecycle_execute env))"
  unfolding execute_lifecycle_job_def
  by (intro stepped_rules stepped_scope [OF assms] steps_rules steps_lifecycle)

lemma stepped_host_power:
  assumes "serves_requests env"
  shows "keeps (stepped d0) (execute_host_power_job env k (lifecycle_execute env))"
    and "keeps (stepped d0) (fail_unexpected_host_power env k)"
proof -
  note scope = stepped_scope [OF assms]
  have complete: "keeps (stepped d0) (complete_host_power env k a ok ds)" for a ok ds
    unfolding complete_host_power_def by (intro stepped_rules scope steps_host_power)
  have finish: "keeps (stepped d0) (finish_host_power env k a s h)" for a s h
    unfolding finish_host_power_def request_host_power_def
    by (intro stepped_rules scope steps_update complete) (simp add: evolves_def)
  have control: "keeps (stepped d0) (c_update immediate_shutdown_control x y)"
    "keeps (stepped d0) (c_mark_irreversible immediate_shutdown_control)" for x y
    by (simp_all add: immediate_shutdown_control_def keeps_ret)
  show "keeps (stepped d0) (execute_host_power_job env k (lifecycle_execute env))"
    unfolding execute_host_power_job_def health_check_def
    by (intro stepped_rules scope steps_host_power steps_update finish complete stepped_assisted control)
      (simp add: evolves_def)
  show "keeps (stepped d0) (fail_unexpected_host_power env k)"
    unfolding fail_unexpected_host_power_def by (intro stepped_rules scope steps_rules complete)
qed

text \<open>The backups. Queueing the automatic upload is a step of the queue when the transaction ends.\<close>

lemma stepped_register_backup:
  assumes "serves_requests env"
  shows "keeps (stepped d0) (register_backup env z auto k t a)"
proof -
  let ?Q = "\<lambda>_ :: unit. stepped d0"
  have upload: "wp (on_db (queue_automatic_upload auto t i now)) (\<lambda>_. stepped d0) (\<lambda>_ _. True) w"
    if "stepped d0 w" for i now w
  proof -
    have "wp (enqueue_drive_upload i None ''AUTOMATIC'' now) (\<lambda>_. web_step (w_db w)) (\<lambda>_ _. True) (w_db w)"
      using wp_appending [OF drive_upload_producer.enqueue_appends [of i "(None, ''AUTOMATIC'', now)"]] by simp
    from steps_web_request [OF this] that
    have "wp (enqueue_drive_upload i None ''AUTOMATIC'' now) (\<lambda>_. since d0) (\<lambda>_ _. True) (w_db w)"
      by (simp add: in_db_def)
    then have "wp (queue_automatic_upload auto t i now) (\<lambda>_. since d0) (\<lambda>_ _. True) (w_db w)"
      unfolding queue_automatic_upload_def using that
      by (auto simp: wp_bnd wp_ret in_db_def elim: wp_mono)
    then show ?thesis unfolding wp_on_db by (rule wp_mono) (auto simp: in_db_def)
  qed
  have ending: "keeps (stepped d0) (bnd (wall_now env) (\<lambda>now. on_db (andthen (update_job k (\<lambda>j. finished JOB_STATUS_SUCCEEDED st now r j))
      (record_audit_event now (ev now)))))" for st r ev
    by (intro stepped_rules steps_rules steps_update) simp
  let ?rest = "\<lambda>(record :: backup_record) requested_at. bnd (on_db (queue_automatic_upload auto t (b_id record) requested_at)) (\<lambda>upload.
        bnd (wall_now env) (\<lambda>completed_at.
          on_db (andthen (update_job k (finished JOB_STATUS_SUCCEEDED ''COMPLETED'' completed_at
                     (backup_result t (b_id record) a upload)))
            (record_audit_event completed_at (system_event ''BACKUP'' AUDIT_RESULT_SUCCESS k
               (Some ''Backup local'') (Some (backup_audit t (b_id record) a)))))))"
  have rest: "triple (stepped d0) (?rest r now) ?Q (\<lambda>_ _. True)" for r now
    by (rule tripleI, unfold wp_bnd [of "on_db _"], rule wp_mono [OF upload])
      (auto intro: wp_mono [OF tripleD [OF keepsD [OF ending]]])
  have body: "triple (stepped d0) (bnd (on_db (get_one_job k)) (\<lambda>job.
        bnd (on_db (register_backup_artifact a (j_id job))) (\<lambda>record.
        bnd (on_db (configured_local_retention z)) (\<lambda>retention.
        andthen (apply_local_retention env retention [])
        (bnd (wall_now env) (?rest record)))))) ?Q (\<lambda>_ _. True)"
    by (intro triple_bnd [OF keeps_weaken [OF stepped_on_db [OF steps_get]]]
        triple_bnd [OF keeps_weaken [OF stepped_files.register]] triple_bnd [OF keeps_weaken [OF stepped_files.settings]]
        triple_andthen [OF keeps_weaken [OF stepped_files.retention]] triple_bnd [OF keeps_weaken [OF keeps_wall_now]] rest) simp_all
  show ?thesis
    unfolding register_backup_def keeps_def
    by (rule triple_conseq [OF block_gen [OF serves_since [OF assms] tripleD [OF body], where G = "\<lambda>_. True"]]) auto
qed

lemma stepped_local_backup:
  assumes "serves_requests env"
  shows "keeps (stepped d0) (execute_local_backup env z auto k)"
proof -
  note scope = stepped_scope [OF assms]
  have "keeps (stepped d0) (backup_handler env k t a e)" for t a e
    unfolding backup_handler_def by (intro stepped_rules scope steps_backup)
  moreover have "keeps (stepped d0) (checkpoint env c k s p b)" for c s p b
    unfolding checkpoint_def by (intro scope steps_checkpoint)
  ultimately show ?thesis
    unfolding execute_local_backup_def
    by (intro stepped_rules scope steps_rules stepped_files.create stepped_register_backup [OF assms])
qed

text \<open>Google Drive.\<close>

lemma stepped_trim: "(\<And>w. keeps (stepped d0) (remove_oldest_managed_remote env k)) \<Longrightarrow>
    keeps (stepped d0) (managed_remote_count env) \<Longrightarrow> keeps (stepped d0) (trim_remote env k n fuel)"
  by (induction fuel) (auto intro!: stepped_rules)

lemma stepped_free: "keeps (stepped d0) (remove_oldest_managed_remote env k) \<Longrightarrow>
    keeps (stepped d0) (managed_remote_count env) \<Longrightarrow> keeps (stepped d0) (drive_cancel_requested env k) \<Longrightarrow>
    keeps (stepped d0) (free_remote env k r a fuel)"
  by (induction fuel arbitrary: a) (auto simp: drive_quota_call_def intro!: stepped_rules)

lemma stepped_drive:
  assumes "serves_requests env"
  shows "keeps (stepped d0) (execute_drive_job env z k)"
proof -
  note scope = stepped_scope [OF assms] and block = stepped_block [OF assms]
  have delete: "keeps (stepped d0) (drive_delete env r)" for r
    unfolding drive_delete_def by (intro stepped_rules)
  have cancel: "keeps (stepped d0) (drive_cancel_requested env k)"
    unfolding drive_cancel_requested_def by (intro scope steps_rules)
  have count: "keeps (stepped d0) (managed_remote_count env)"
    unfolding managed_remote_count_def by (intro scope steps_rules)
  have oldest: "keeps (stepped d0) (remove_oldest_managed_remote env k)"
    unfolding remove_oldest_managed_remote_def Let_def by (intro stepped_rules block delete steps_rules)
  have capacity: "keeps (stepped d0) (prepare_capacity env z k n)" for n
    unfolding prepare_capacity_def drive_quota_call_def
    by (intro stepped_rules scope steps_rules stepped_trim stepped_free oldest count cancel)
  have point: "keeps (stepped d0) (drive_checkpoint env k s p b)" for s p b
    unfolding drive_checkpoint_def checkpoint_def by (intro scope steps_checkpoint)
  have success: "keeps (stepped d0) (finish_drive_success env k r a)" for r a
    unfolding finish_drive_success_def by (intro stepped_rules scope steps_drive_done)
  have temporary: "keeps (stepped d0) (download_temporary env r)" for r
    unfolding download_temporary_def by (intro stepped_rules)
  have download: "keeps (stepped d0) (drive_download env r (drive_cancel_requested env k))" for r
    unfolding drive_download_def Let_def by (intro stepped_rules temporary cancel)
  have upload: "keeps (stepped d0) (drive_upload env r)" for r
    unfolding drive_upload_def by (intro stepped_rules)
  have register: "keeps (stepped d0) (register_download env z k r a)" for r a
    unfolding register_download_def by (intro stepped_rules block steps_drive_done)
  have "keeps (stepped d0) (run_drive_operation env z k kind r)" for kind r
    unfolding run_drive_operation_def execute_drive_check_def execute_drive_upload_def execute_drive_download_def
      execute_drive_delete_def drive_status_def drive_quota_call_def remove_uploaded_artifact_def
    by (intro stepped_rules scope block steps_rules steps_drive_done point capacity success upload download register delete)
  moreover have "keeps (stepped d0) (finish_drive_cancelled env k r)" "keeps (stepped d0) (finish_drive_failed env k r)" for r
    unfolding finish_drive_cancelled_def finish_drive_failed_def
    by (intro stepped_rules scope steps_rules steps_drive; simp)+
  ultimately show ?thesis
    unfolding execute_drive_job_def by (intro stepped_rules scope steps_rules)
qed

text \<open>The preventive backups of updates and restores.\<close>

lemma stepped_register_preventive:
  assumes "serves_requests env"
  shows "keeps (stepped d0) (register_preventive env z k a ps t r)"
  unfolding register_preventive_def
  by (intro stepped_rules stepped_block [OF assms] stepped_modify steps_rules) simp

lemma stepped_verify: "keeps (stepped d0) (verify_no_critical_logs env t a b)"
  unfolding verify_no_critical_logs_def by (intro stepped_rules)

lemma stepped_restore:
  assumes "serves_requests env"
  shows "keeps (stepped d0) (execute_restore env z drive (lifecycle_execute env) k)"
proof -
  note scope = stepped_scope [OF assms]
  have point: "keeps (stepped d0) (restore_checkpoint env k s p b)" for s p b
    unfolding restore_checkpoint_def by (intro scope steps_restore)
  have fail: "keeps (stepped d0) (fail_restore env k data c m b i)" for data c m b i
    unfolding fail_restore_def by (intro stepped_rules scope steps_restore)
  have failed: "keeps (stepped d0) (restore_failed env k data e)" for data e
    unfolding restore_failed_def Let_def
    by (intro stepped_rules fail) (auto split: exn.split option.split intro!: stepped_rules fail)
  have source: "keeps (stepped d0) (prepare_source env drive k data)" for data
    unfolding prepare_source_def Let_def download_temporary_def prepare_remote_def prepare_restore_def
    by (intro stepped_rules scope steps_rules point)
  have "keeps (stepped d0) (preventive_restore_backup env k)"
    unfolding preventive_restore_backup_def
    by (intro stepped_rules stepped_files.create point stepped_modify) simp
  then have stop: "keeps (stepped d0) (stop_for_restore env z drive (lifecycle_execute env) k data)" for data
    unfolding stop_for_restore_def
    by (intro stepped_rules source point stepped_register_preventive [OF assms])
  have apply_it: "keeps (stepped d0) (apply_restore_steps env (lifecycle_execute env) k data)" for data
    unfolding apply_restore_steps_def apply_restore_def
    by (intro stepped_rules point stepped_verify)
  have steps: "keeps (stepped d0) (restore_steps env z drive (lifecycle_execute env) k data)" for data
    unfolding restore_steps_def complete_restore_def
    by (intro stepped_rules stop apply_it stepped_modify scope steps_restore) simp
  have cleanup: "keeps (stepped d0) restore_cleanup"
    unfolding restore_cleanup_def by (rule stepped_modify) simp
  show ?thesis
    unfolding execute_restore_def load_restore_request_def
    by (intro stepped_rules stepped_modify scope steps_rules failed steps cleanup) simp
qed

lemma stepped_update:
  assumes "serves_requests env"
  shows "keeps (stepped d0) (execute_update_job env z (lifecycle_execute env) k)"
    and "keeps (stepped d0) (fail_unexpected_update env k)"
proof -
  note scope = stepped_scope [OF assms] and block = stepped_block [OF assms]
  have log: "keeps (stepped d0) (append_update_log env k m)" for m
    unfolding append_update_log_def by (intro stepped_rules stepped_modify scope steps_rules) simp
  have point: "keeps (stepped d0) (update_checkpoint env k s p b)" for s p b
    unfolding update_checkpoint_def by (intro stepped_rules scope steps_rules steps_checkpoint log)
  have fail: "keeps (stepped d0) (fail_update env k c m b i n)" for c m b i n
    unfolding fail_update_def by (intro stepped_rules scope steps_update_job_end log)
  have cancel: "keeps (stepped d0) (cancel_update env k data i)" for data i
    unfolding cancel_update_def by (intro stepped_rules scope steps_update_job_end log)
  have merge: "keeps (stepped d0) (merge_result env k v)" for v
    unfolding merge_result_def by (intro scope steps_update) (simp add: evolves_def)
  have failed: "keeps (stepped d0) (update_failed env k data e)" for data e
    unfolding update_failed_def by (intro stepped_rules) (auto split: exn.split intro: cancel fail)
  have disk: "keeps (since d0) (disk_critical_gb z)"
    unfolding disk_critical_gb_def by (intro steps_rules)
  have check: "keeps (stepped d0) (execute_update_check env z k)"
    unfolding execute_update_check_def disk_free_def steamcmd_check_def Let_def
    by (intro stepped_rules scope steps_rules steps_update point log fail disk) simp
  have backup: "keeps (stepped d0) (preventive_backup env k)"
    unfolding preventive_backup_def by (intro stepped_rules stepped_files.create point stepped_modify) simp
  have control: "keeps (stepped d0) (c_update (update_countdown_control env k) x y)"
    "keeps (stepped d0) (c_mark_irreversible (update_countdown_control env k))" for x y
    unfolding update_countdown_control_def countdown_control.simps
    by (intro stepped_rules scope block steps_countdown stepped_modify; simp)+
  have stop: "keeps (stepped d0) (stop_for_update env z (lifecycle_execute env) k data)" for data
    unfolding stop_for_update_def
    by (intro stepped_rules point backup stepped_register_preventive [OF assms] merge stepped_modify stepped_assisted control) simp
  have apply_it: "keeps (stepped d0) (apply_update_steps env (lifecycle_execute env) k data)" for data
    unfolding apply_update_steps_def steamcmd_apply_def steamcmd_check_def
    by (intro stepped_rules point stepped_verify)
  have steps: "keeps (stepped d0) (update_steps env z (lifecycle_execute env) k data)" for data
    unfolding update_steps_def disk_free_def steamcmd_check_def complete_no_update_def complete_update_def
    by (intro stepped_rules point merge stop apply_it scope steps_rules steps_update_job_end log)
  have drop: "keeps (stepped d0) (drop_unregistered env)"
    unfolding drop_unregistered_def by (intro stepped_rules)
  have demand: "keeps (stepped d0) (required_int x key lo hi)" "keeps (stepped d0) (required_build_id data key)" for x key lo hi data
    by (auto simp: required_int_def required_build_id_def keeps_def triple_def wp_simps split: option.split)
  have load: "keeps (stepped d0) (load_update_request env k)"
    unfolding load_update_request_def demand_int_def by (intro stepped_rules scope steps_rules demand)
  have "keeps (stepped d0) (execute_update env z (lifecycle_execute env) k)"
    unfolding execute_update_def by (intro stepped_rules stepped_modify load fail steps failed drop) simp
  with check show "keeps (stepped d0) (execute_update_job env z (lifecycle_execute env) k)"
    unfolding execute_update_job_def by (intro stepped_rules scope steps_rules)
  show "keeps (stepped d0) (fail_unexpected_update env k)"
    unfolding fail_unexpected_update_def by (intro stepped_rules scope steps_rules fail)
qed

section \<open>The worker\<close>

lemma stepped_dispatch:
  assumes "serves_requests env"
  shows "keeps (stepped d0) (dispatch env z drive k kind path)"
  unfolding dispatch_def execute_lifecycle_def
  by (intro stepped_rules stepped_local_backup stepped_restore stepped_drive stepped_update stepped_host_power
      stepped_shutdown_jobs stepped_lifecycle_job assms)

lemma stepped_dispatch_failed:
  assumes "serves_requests env"
  shows "keeps (stepped d0) (dispatch_failed env k kind path)"
  unfolding dispatch_failed_def
  by (intro stepped_rules stepped_update stepped_host_power stepped_shutdown_jobs stepped_scope steps_lifecycle assms)

lemma stepped_outcome: "serves_requests env \<Longrightarrow> keeps (stepped d0) (log_outcome env k path)"
  unfolding log_outcome_def by (intro stepped_rules stepped_scope steps_rules)

lemma stepped_create_log: "keeps (stepped d0) (job_logs_create env k kind)"
  unfolding job_logs_create_def Let_def by (intro stepped_rules)

text \<open>The claim: the lock of an ended job goes first, then the oldest claimable job is taken.\<close>

lemma steps_claim:
  assumes inv: "queue_inv d" and since: "since d0 d"
  shows "wp (claim_next_job worker supported_kinds now) (\<lambda>r d'. since d0 d' \<and> (\<forall>j. r = Some j \<longrightarrow>
      find_job (j_id j) d' = Some j \<and> j_status j = JOB_STATUS_RUNNING \<and> j_kind j \<in> set supported_kinds
      \<and> j_claimed_by j = Some worker)) (\<lambda>_ d'. since d0 d') d"
proof (cases "worker = []")
  case True
  then show ?thesis using since by (simp add: claim_next_job_def wp_simps)
next
  case False
  have kinds: "supported_kinds \<noteq> []" by (simp add: supported_kinds_def)
  let ?d = "release_terminal_locks d"
  have inv': "queue_inv ?d" by (rule release_terminal_locks_inv [OF inv])
  have unlock: "queue_step d ?d"
  proof (rule queue_step.unlock)
    show "locks ?d = filter (\<lambda>l. \<not> list_ex (\<lambda>j. terminal_status (j_status j) \<and> j_id j = l_job_id l) (jobs d)) (locks d)"
      by (simp add: release_terminal_locks_def)
  next
    fix j l
    assume j: "j \<in> set (jobs d)" "j_status j = JOB_STATUS_RUNNING" and l: "l_job_id l = j_id j"
    have "\<not> terminal_status (j_status i)" if "i \<in> set (jobs d)" "j_id i = j_id j" for i
      using jobs_wf_inj [of d i j] inv j that by (simp add: queue_inv_def terminal_status_def)
    then show "\<not> list_ex (\<lambda>j. terminal_status (j_status j) \<and> j_id j = l_job_id l) (jobs d)"
      using l by (auto simp: list_ex_iff)
  qed simp
  then have released: "since d0 ?d" by (rule since_step [OF since])
  have taken: "since d0 (claim_state worker now j ?d)"
    if "pending_supported_job supported_kinds ?d = Some j" for j
    by (rule since_step [OF released queue_step.claim [OF that refl refl]])
  have found: "find_job (j_id j) (claim_state worker now j ?d) = Some (claimed worker now j)"
    if "pending_supported_job supported_kinds ?d = Some j" for j
  proof -
    have "find_job (j_id j) ?d = Some j"
      using pending_supported_job_SomeD [OF that] inv' jobs_wf_find by (auto simp: queue_inv_def)
    from find_row_put [OF this claim_state_jobs, of worker now j] show ?thesis by simp
  qed
  show ?thesis
    unfolding wp_def claim_next_job_eq [OF inv False kinds] Let_def
    using released taken found pending_supported_job_SomeD [of supported_kinds ?d]
    by (auto simp: claimable_def claimed_def split: option.splits)
qed

text \<open>What the claiming transaction leaves: nothing changed, or a running job with its log.\<close>

definition claimed_job :: "int \<Rightarrow> string \<Rightarrow> string \<Rightarrow> string \<Rightarrow> db \<Rightarrow> bool" where
  "claimed_job k kind path worker d \<longleftrightarrow> kind \<in> set supported_kinds \<and> (\<exists>j. find_job k d = Some j
     \<and> j_status j = JOB_STATUS_RUNNING \<and> j_kind j = kind \<and> j_log_path j = Some path \<and> j_claimed_by j = Some worker)"

lemma claim_step_spec:
  assumes env: "serves_requests env" and inv: "queue_inv d0"
  shows "triple (stepped d0) (claim_step env worker) (\<lambda>r w. stepped d0 w \<and> (\<forall>k kind path. r = Some (k, kind, path) \<longrightarrow>
      claimed_job k kind path worker (w_db w))) (\<lambda>_. stepped d0)"
proof -
  let ?Q = "\<lambda>r w. stepped d0 w \<and> (\<forall>k kind path. r = Some (k, kind, path) \<longrightarrow> claimed_job k kind path worker (w_db w))"
  let ?P = "\<lambda>r w. stepped d0 w \<and> (\<forall>j. r = Some j \<longrightarrow> find_job (j_id j) (w_db w) = Some j
      \<and> j_status j = JOB_STATUS_RUNNING \<and> j_kind j \<in> set supported_kinds \<and> j_claimed_by j = Some worker)"
  have claim: "triple (stepped d0) (on_db (claim_next_job worker supported_kinds now)) ?P (\<lambda>_ _. True)" for now
  proof (rule tripleI)
    fix w
    assume "stepped d0 w"
    then have "since d0 (w_db w)" by (simp add: in_db_def)
    from steps_claim [OF since_inv [OF this inv] this]
    show "wp (on_db (claim_next_job worker supported_kinds now)) ?P (\<lambda>_ _. True) w"
      unfolding wp_on_db by (rule wp_mono) (auto simp: in_db_def)
  qed
  have log: "triple (?P (Some j)) (bnd (job_logs_create env (j_id j) (j_kind j)) (\<lambda>path.
      andthen (on_db (put_job (j\<lparr>j_log_path := Some path\<rparr>))) (ret (Some (j_id j, j_kind j, path))))) ?Q (\<lambda>_ _. True)" for j
  proof -
    have "keeps (?P (Some j)) (job_logs_create env (j_id j) (j_kind j))"
      unfolding job_logs_create_def Let_def log_line_def file_step_def
      by (intro keeps_rules keeps_call keeps_modify) (auto simp: in_db_def after_call_def)
    moreover have "wp (andthen (on_db (put_job (j\<lparr>j_log_path := Some path\<rparr>))) (ret (Some (j_id j, j_kind j, path)))) ?Q (\<lambda>_ _. True) w"
      if w: "?P (Some j) w" for path w
    proof -
      from w have j: "find_job (j_id j) (w_db w) = Some j" by simp
      have "since d0 ((w_db w)\<lparr>jobs := row_put j_id (j\<lparr>j_log_path := Some path\<rparr>) (jobs (w_db w))\<rparr>)"
        by (rule since_write [OF _ j]) (use w in \<open>auto simp: in_db_def evolves_def\<close>)
      with w j show ?thesis by (auto simp: wp_simps claimed_job_def in_db_def)
    qed
    ultimately show ?thesis by (intro triple_bnd [OF keeps_weaken]) (auto simp: triple_def)
  qed
  have after: "triple (?P found) (case found of None \<Rightarrow> ret None
      | Some j \<Rightarrow> bnd (job_logs_create env (j_id j) (j_kind j)) (\<lambda>path.
          andthen (on_db (put_job (j\<lparr>j_log_path := Some path\<rparr>))) (ret (Some (j_id j, j_kind j, path))))) ?Q (\<lambda>_ _. True)" for found
  proof (cases found)
    case None
    then show ?thesis by (simp add: triple_ret)
  next
    case (Some j)
    with log [of j] show ?thesis by simp
  qed
  have body: "triple (stepped d0) (bnd (wall_now env) (\<lambda>now.
      bnd (on_db (claim_next_job worker supported_kinds now)) (\<lambda>found. case found of
        None \<Rightarrow> ret None
      | Some j \<Rightarrow> bnd (job_logs_create env (j_id j) (j_kind j)) (\<lambda>path.
          andthen (on_db (put_job (j\<lparr>j_log_path := Some path\<rparr>))) (ret (Some (j_id j, j_kind j, path))))))) ?Q (\<lambda>_ _. True)"
    by (intro triple_bnd [OF keeps_weaken [OF keeps_wall_now]] triple_bnd [OF claim] after) simp
  show ?thesis
    unfolding claim_step_def
    by (rule triple_conseq [OF block_gen [OF serves_since [OF env] tripleD [OF body], where G = "\<lambda>_. True"]]) auto
qed

end
