(* ===== verification/WorkerSafe.thy ===== *)
theory WorkerSafe
  imports QueueRun
begin

text \<open>
  One step of the worker as a whole: what an executor that returns and the handler of one that raised
  leave of the claimed job, the release of its lock, and the refinement of the abstract queue.
\<close>

section \<open>Programs that end the job\<close>

definition job_over :: "int \<Rightarrow> db \<Rightarrow> bool" where
  "job_over k d \<longleftrightarrow> (\<exists>j. find_job k d = Some j \<and> \<not> active_status (j_status j))"

definition ends :: "int \<Rightarrow> (world, 'a) prog \<Rightarrow> bool" where
  "ends k m \<longleftrightarrow> triple (\<lambda>_. True) m (\<lambda>_. in_db (job_over k)) (\<lambda>_ _. True)"

lemma ends_bnd: "(\<And>x. ends k (f x)) \<Longrightarrow> ends k (bnd m f)"
  by (simp add: ends_def triple_def wp_any_bnd)

lemma ends_andthen: "ends k n \<Longrightarrow> ends k (andthen m n)"
  by (simp add: ends_def triple_def wp_any_andthen)

lemma ends_raise: "ends k (raise e)"
  by (simp add: ends_def triple_raise)

lemma ends_if: "(b \<Longrightarrow> ends k m) \<Longrightarrow> (\<not> b \<Longrightarrow> ends k n) \<Longrightarrow> ends k (if b then m else n)"
  by simp

lemma ends_handle: "ends k m \<Longrightarrow> (\<And>e. ends k (h e)) \<Longrightarrow> ends k (handle m h)"
  unfolding ends_def by (rule triple_handle)

lemma ends_option: "(x = None \<Longrightarrow> ends k m) \<Longrightarrow> (\<And>y. x = Some y \<Longrightarrow> ends k (f y)) \<Longrightarrow>
    ends k (case x of None \<Rightarrow> m | Some y \<Rightarrow> f y)"
  by (simp split: option.split)

lemma ends_case_prod: "(\<And>a b. ends k (f a b)) \<Longrightarrow> ends k (case x of (a, b) \<Rightarrow> f a b)"
  by (simp split: prod.split)

lemma ends_scope: "(\<And>d. wp tx (\<lambda>_. job_over k) (\<lambda>_ _. True) d) \<Longrightarrow> ends k (session_scope env tx)"
  by (auto simp: ends_def triple_def wp_session_scope Let_def elim: wp_mono)

lemma ends_then: "ends k m \<Longrightarrow> (\<And>x. keeps (in_db (job_over k)) (f x)) \<Longrightarrow> ends k (bnd m f)"
  unfolding ends_def
  by (rule triple_bnd, assumption) (rule triple_conseq [OF keepsD], auto)

lemma ends_first: "ends k m \<Longrightarrow> keeps (in_db (job_over k)) n \<Longrightarrow> ends k (andthen m n)"
  unfolding ends_def
  by (rule triple_andthen, assumption) (rule triple_conseq [OF keepsD], auto)

lemma ends_always: "ends k m \<Longrightarrow> keeps (in_db (job_over k)) fin \<Longrightarrow> ends k (always m fin)"
  unfolding ends_def
  by (rule triple_always [where F = "\<lambda>_ _. True"], assumption)
    (auto simp: triple_def wp_trivial intro: wp_mono [OF tripleD [OF keepsD]])

lemmas ends_rules = ends_bnd ends_andthen ends_raise ends_if ends_handle ends_option ends_case_prod

lemma over_finished: "wp (update_job k (\<lambda>j. finished st step now (f j) j)) (\<lambda>_. job_over k) (\<lambda>_ _. True) d"
  if "\<not> active_status st"
  using that by (auto simp: wp_update_job job_over_def dest: find_job_id split: option.split)

lemma over_frame [simp]:
  "job_over k (audited t f d) = job_over k d" "job_over k (d\<lparr>notifications := n\<rparr>) = job_over k d"
  "job_over k (d\<lparr>backups := b\<rparr>) = job_over k d" "job_over k (d\<lparr>locks := l\<rparr>) = job_over k d"
  by (simp_all add: job_over_def)

lemma over_put: "find_job k d = Some j0 \<Longrightarrow> j_id j = j_id j0 \<Longrightarrow> \<not> active_status (j_status j) \<Longrightarrow>
    job_over k (d\<lparr>jobs := row_put j_id j (jobs d)\<rparr>)"
  by (auto simp: job_over_def dest: find_job_id)

lemma over_since: "serves_requests env \<Longrightarrow> stable env (job_over k)"
  unfolding stable_def job_over_def
proof (intro allI impI)
  fix n d
  assume env: "serves_requests env" and "\<exists>j. find_job k d = Some j \<and> \<not> active_status (j_status j)"
  then obtain j where j: "find_job k d = Some j" "\<not> active_status (j_status j)" by blast
  then have "j_status j \<noteq> JOB_STATUS_PENDING" by auto
  with serves_leaves_started [OF env] j show "\<exists>j. find_job k (e_interfere env n d) = Some j \<and> \<not> active_status (j_status j)"
    unfolding leaves_started_def by fastforce
qed

lemma over_append_log: "serves_requests env \<Longrightarrow> keeps (in_db (job_over k)) (append_update_log env n m)"
  unfolding append_update_log_def
  by (intro keeps_rules keeps_modify scope_keeps over_since) (auto simp: wp_simps in_db_def split: option.split)

lemma over_drop: "keeps (in_db (job_over k)) (drop_unregistered env)"
proof -
  have "keeps (in_db (job_over k)) (remove_managed_artifact env p)" for p
    by (rule file_frame.remove, unfold_locales) (simp_all add: in_db_def)
  then show ?thesis unfolding drop_unregistered_def by (intro keeps_rules) 
qed

lemma over_ended: "find_job k d = Some j \<Longrightarrow> \<not> active_status st \<Longrightarrow>
    job_over k (d\<lparr>jobs := row_put j_id (finished st step now r j) (jobs d)\<rparr>)"
  by (rule over_put) simp_all

text \<open>The executors that return have ended their job.\<close>

lemma over_audit: "keeps (job_over k) (record_audit_event now f)"
  by (simp add: keeps_def triple_def wp_record_audit_event')

lemma over_notify: "keeps (job_over k) (enqueue_discord_notification e n t)"
  by (simp add: keeps_def triple_def enqueue_discord_notification_def wp_simps)

lemma over_write_then:
  "find_job k d = Some j0 \<Longrightarrow> j_id j = j_id j0 \<Longrightarrow> \<not> active_status (j_status j) \<Longrightarrow> keeps (job_over k) m \<Longrightarrow>
   wp (andthen (put_job j) m) (\<lambda>_. job_over k) (\<lambda>_ _. True) d"
  unfolding wp_andthen wp_put_job by (rule wp_mono [OF tripleD [OF keepsD]]) (auto intro: over_put)

lemma over_update_then:
  "\<not> active_status st \<Longrightarrow> keeps (job_over k) m \<Longrightarrow>
   wp (andthen (update_job k (\<lambda>j. finished st step now (f j) j)) m) (\<lambda>_. job_over k) (\<lambda>_ _. True) d"
  unfolding wp_andthen by (rule wp_mono [OF over_finished]) (auto intro: wp_mono [OF tripleD [OF keepsD]])

lemma over_get: "(\<And>j. find_job k d = Some j \<Longrightarrow> wp (f j) Q (\<lambda>_ _. True) d) \<Longrightarrow> wp (bnd (get_one_job k) f) Q (\<lambda>_ _. True) d"
  by (simp add: wp_bnd wp_get_one_job split: option.split)

lemmas over_rules = over_write_then over_update_then over_get over_audit over_notify keeps_rules

lemma ends_lifecycle: "ends k (execute_lifecycle_job env k ex)"
  unfolding execute_lifecycle_job_def complete_lifecycle_job_def
  by (intro ends_rules ends_scope)
    (auto simp: wp_simps Let_def split: option.split intro: over_put)

lemma ends_complete_shutdown: "ends k (complete_shutdown_job env k r a n)"
  unfolding complete_shutdown_job_def complete_shutdown_tx_def
  by (intro ends_rules ends_scope over_rules) auto

lemma ends_shutdown:
  "ends k (execute_assisted_shutdown_job env k ex)" "ends k (execute_forced_shutdown_job env k)"
  unfolding execute_assisted_shutdown_job_def execute_forced_shutdown_job_def Let_def
  by (intro ends_rules ends_complete_shutdown)+

lemma ends_complete_host_power: "ends k (complete_host_power env k a ok ds)"
  unfolding complete_host_power_def complete_host_power_tx_def
  by (intro ends_rules ends_scope over_rules) simp

lemma ends_host_power: "ends k (execute_host_power_job env k ex)"
  unfolding execute_host_power_job_def finish_host_power_def
  by (intro ends_rules ends_complete_host_power)

lemma ends_fail_update: "serves_requests env \<Longrightarrow> ends k (fail_update env k c m b i n)"
  unfolding fail_update_def failed_update_tx_def
  by (intro ends_bnd ends_first ends_scope over_append_log over_rules) auto

lemma ends_update:
  assumes "serves_requests env"
  shows "ends k (execute_update_job env z ex k)"
proof -
  note fail = ends_fail_update [OF assms] and log = over_append_log [OF assms]
  have cancel: "ends k (cancel_update env k data i)" for data i
    unfolding cancel_update_def mark_update_cancelled_def
    by (intro ends_bnd ends_first ends_scope log over_rules) auto
  have complete: "ends k (session_scope env (complete_update_tx k r ds n now))" for r ds n now
    unfolding complete_update_tx_def by (intro ends_scope over_rules) simp
  have check: "ends k (execute_update_check env z k)"
    unfolding execute_update_check_def Let_def
    by (intro ends_handle fail ends_andthen [of k "bnd _ _"] ends_bnd ends_first ends_scope log over_rules) simp
  have failed: "ends k (update_failed env k data e)" for data e
    unfolding update_failed_def by (intro ends_bnd) (auto split: exn.split intro: cancel fail)
  have steps: "ends k (update_steps env z ex k data)" for data
    unfolding update_steps_def complete_no_update_def complete_update_def
    by (intro ends_andthen [of k "bnd _ _"] ends_andthen [of k "andthen _ _"] ends_andthen [of k "If _ _ _"] ends_bnd ends_if ends_first complete log)
  let ?R = "\<lambda>r w. r = None \<longrightarrow> in_db (job_over k) w"
  have load: "triple (\<lambda>_. True) (handle (bnd (load_update_request env k) (\<lambda>data. ret (Some data)))
      (\<lambda>_. andthen (fail_update env k c m False None True) (ret None))) ?R (\<lambda>_ _. True)" for c m
  proof (rule triple_handle [where R = "\<lambda>_ _. True"])
    show "triple (\<lambda>_. True) (bnd (load_update_request env k) (\<lambda>data. ret (Some data))) ?R (\<lambda>_ _. True)"
      by (simp add: triple_def wp_any_bnd wp_ret)
    show "triple (\<lambda>_. True) (andthen (fail_update env k c m False None True) (ret None)) ?R (\<lambda>_ _. True)" for e :: exn
      by (rule triple_andthen [OF fail [unfolded ends_def]]) (simp add: triple_ret)
  qed simp
  have main: "ends k (always (handle (update_steps env z ex k data) (update_failed env k data)) (drop_unregistered env))" for data
    by (intro ends_always ends_handle steps failed over_drop)
  have "ends k (execute_update env z ex k)"
    unfolding execute_update_def
  proof (rule ends_andthen, unfold ends_def, rule triple_bnd [OF load])
    fix request
    show "triple (?R request) (case request of None \<Rightarrow> ret ()
        | Some data \<Rightarrow> always (handle (update_steps env z ex k data) (update_failed env k data)) (drop_unregistered env))
        (\<lambda>_. in_db (job_over k)) (\<lambda>_ _. True)"
      using main [unfolded ends_def triple_def] by (cases request) (simp_all add: triple_def wp_ret)
  qed
  with check show ?thesis
    unfolding execute_update_job_def by (intro ends_bnd ends_if ends_andthen)
qed

text \<open>
  The executors of backups, restores and Drive jobs also end the job when they raise and catch that
  themselves; what they let out is raised again.
\<close>

lemma ends_on_db: "(\<And>d. wp tx (\<lambda>_. job_over k) (\<lambda>_ _. True) d) \<Longrightarrow> ends k (on_db tx)"
  by (auto simp: ends_def triple_def wp_on_db in_db_def elim: wp_mono)

lemma ends_block: "ends k m \<Longrightarrow> ends k (session_block env m)"
  by (fastforce simp: ends_def triple_def wp_def session_block_def Let_def in_db_def split: prod.splits sum.splits)

lemma ends_local_backup: "ends k (execute_local_backup env z auto k)"
proof -
  have handler: "ends k (backup_handler env k t a e)" for t a e
    unfolding backup_handler_def cancelled_backup_tx_def failed_backup_tx_def finish_failed_job_def
    by (intro ends_if ends_bnd ends_andthen [of k "bnd _ _"] ends_andthen [of k "andthen _ _"] ends_first ends_raise
        ends_scope over_rules) simp_all
  have register: "ends k (andthen (register_backup env z auto k t a) (ret (Some a)))" for t a
    unfolding register_backup_def
    by (intro ends_first ends_block ends_bnd ends_andthen [of k "bnd _ _"] ends_on_db over_rules) simp
  let ?R = "\<lambda>r w. r = None \<longrightarrow> in_db (job_over k) w"
  have made: "triple (\<lambda>_. True) (handle (bnd (create_backup env k c) (\<lambda>a. ret (Some a))) (backup_handler env k t None))
      ?R (\<lambda>_ _. True)" for c t
  proof (rule triple_handle [where R = "\<lambda>_ _. True"])
    show "triple (\<lambda>_. True) (bnd (create_backup env k c) (\<lambda>a. ret (Some a))) ?R (\<lambda>_ _. True)"
      by (simp add: triple_def wp_any_bnd wp_ret)
    show "triple (\<lambda>_. True) (backup_handler env k t None e) ?R (\<lambda>_ _. True)" for e :: exn
      by (rule triple_conseq [OF handler [unfolded ends_def]]) auto
  qed simp
  have rest: "triple (?R m) (case m of None \<Rightarrow> ret None
      | Some a \<Rightarrow> handle (andthen (register_backup env z auto k t a) (ret (Some a))) (backup_handler env k t (Some a)))
      (\<lambda>_. in_db (job_over k)) (\<lambda>_ _. True)" for m t
    using ends_handle [OF register handler, unfolded ends_def triple_def]
    by (cases m) (simp_all add: triple_def wp_ret)
  have "ends k (bnd (handle (bnd (create_backup env k c) (\<lambda>a. ret (Some a))) (backup_handler env k t None)) (\<lambda>m. case m of None \<Rightarrow> ret None
      | Some a \<Rightarrow> handle (andthen (register_backup env z auto k t a) (ret (Some a))) (backup_handler env k t (Some a))))" for c t
    unfolding ends_def by (rule triple_bnd [OF made rest])
  then show ?thesis unfolding execute_local_backup_def by (rule ends_bnd)
qed

lemma ends_drive: "ends k (execute_drive_job env z k)"
proof -
  have success: "ends k (finish_drive_success env k r a)" for r a
    unfolding finish_drive_success_def succeed_drive_tx_def finish_drive_tx_def
    by (intro ends_bnd ends_scope over_rules) simp
  have cancelled: "ends k (finish_drive_cancelled env k r)" for r
    unfolding finish_drive_cancelled_def finish_drive_tx_def by (intro ends_bnd ends_scope over_rules) simp
  have remote: "ends k (session_scope env (register_remote_tx k r x c now))" for r x c now
    unfolding register_remote_tx_def succeed_drive_tx_def finish_drive_tx_def
    by (intro ends_scope) (intro over_update_then over_audit wp_any_bnd wp_any_andthen, simp)
  have download: "ends k (register_download env z k r a)" for r a
    unfolding register_download_def succeed_drive_tx_def finish_drive_tx_def
    by (intro ends_block ends_bnd ends_andthen [of k "bnd _ _"] ends_on_db over_rules) simp
  have "ends k (run_drive_operation env z k kind r)" for kind r
    unfolding run_drive_operation_def execute_drive_check_def execute_drive_upload_def execute_drive_download_def
      execute_drive_delete_def
    by (intro ends_rules success remote download)
  then show ?thesis unfolding execute_drive_job_def by (intro ends_rules cancelled)
qed

lemma ends_restore: "ends k (execute_restore env z drive ex k)"
proof -
  have complete: "ends k (complete_restore env k data i)" for data i
    unfolding complete_restore_def complete_restore_tx_def by (intro ends_bnd ends_scope over_rules) simp
  have fail: "ends k (fail_restore env k data c m b i)" for data c m b i
    unfolding fail_restore_def failed_restore_tx_def by (intro ends_bnd ends_scope over_rules) simp
  have steps: "ends k (restore_steps env z drive ex k data)" for data
    unfolding restore_steps_def by (intro ends_bnd ends_andthen complete)
  have failed: "ends k (restore_failed env k data e)" for data e
    unfolding restore_failed_def Let_def by (intro ends_bnd ends_case_prod) (auto split: exn.split intro: fail ends_andthen ends_raise)
  have "keeps (in_db (job_over k)) restore_cleanup"
    unfolding restore_cleanup_def by (rule keeps_modify) (simp add: in_db_def)
  then show ?thesis
    unfolding execute_restore_def by (intro ends_andthen ends_bnd ends_always ends_handle steps failed)
qed

section \<open>The handler of the worker\<close>

text \<open>The job is there, of its kind, whatever the executor did before it raised.\<close>

definition has_job :: "int \<Rightarrow> string \<Rightarrow> db \<Rightarrow> bool" where
  "has_job k kind d \<longleftrightarrow> (\<exists>j. find_job k d = Some j \<and> j_kind j = kind)"

lemma has_job_since: "since d0 d \<Longrightarrow> queue_inv d0 \<Longrightarrow> has_job k kind d0 \<Longrightarrow> has_job k kind d"
  using since_same [of d0 d k] by (auto simp: has_job_def same_job_def)

lemma has_job_stable:
  assumes "serves_requests env"
  shows "stable env (\<lambda>d. queue_inv d \<and> has_job k kind d)"
  unfolding stable_def
proof (intro allI impI)
  fix n d
  assume d: "queue_inv d \<and> has_job k kind d"
  have "since d (e_interfere env n d)" using serves_web_step [OF assms] by (simp add: web_step_def)
  with d show "queue_inv (e_interfere env n d) \<and> has_job k kind (e_interfere env n d)"
    using since_inv has_job_since by blast
qed

definition handled_kinds :: "string list" where
  "handled_kinds = map lifecycle_job_kind [START, STOP, RESTART] @ shutdown_kinds @ UPDATE_JOB_KINDS @ HOST_POWER_JOB_KINDS"

definition self_ending_kinds :: "string list" where
  "self_ending_kinds = LOCAL_BACKUP_JOB_KIND # RESTORE_JOB_KINDS @ DRIVE_JOB_KINDS"

lemma supported_split: "set supported_kinds = set handled_kinds \<union> set self_ending_kinds"
  by (auto simp: supported_kinds_def handled_kinds_def self_ending_kinds_def)

lemma sure_scope:
  assumes "serves_requests env" and "\<And>d. queue_inv d \<Longrightarrow> has_job k kind d \<Longrightarrow> wp tx Q (\<lambda>_ _. False) d"
  shows "triple (in_db (\<lambda>d. queue_inv d \<and> has_job k kind d)) (session_scope env tx) (\<lambda>x w. Q x (w_db w)) (\<lambda>_ _. False)"
  by (rule scope_sure [OF has_job_stable [OF assms(1)]]) (use assms(2) in blast)

lemma sure_over:
  assumes "serves_requests env" and "\<And>d. queue_inv d \<Longrightarrow> has_job k kind d \<Longrightarrow> wp tx (\<lambda>_. job_over k) (\<lambda>_ _. False) d"
  shows "triple (in_db (\<lambda>d. queue_inv d \<and> has_job k kind d)) (session_scope env tx) (\<lambda>_. in_db (job_over k)) (\<lambda>_ _. False)"
  using sure_scope [OF assms] by (simp add: in_db_def [abs_def])

lemma append_log_sure:
  assumes "serves_requests env"
  shows "triple (in_db (job_over k)) (append_update_log env k m) (\<lambda>_. in_db (job_over k)) (\<lambda>_ _. False)"
proof -
  have "wp (bnd (get_one_job k) (\<lambda>j. ret (j_log_path j))) (\<lambda>_. job_over k) (\<lambda>_ _. False) d" if "job_over k d" for d
    using that by (auto simp: wp_simps job_over_def)
  from scope_sure [OF over_since [OF assms] this]
  have "triple (in_db (job_over k)) (session_scope env (bnd (get_one_job k) (\<lambda>j. ret (j_log_path j))))
      (\<lambda>_. in_db (job_over k)) (\<lambda>_ _. False)" by (simp add: in_db_def [abs_def])
  then show ?thesis
    unfolding append_update_log_def
    by (rule triple_bnd) (auto simp: triple_def wp_simps in_db_def split: option.split)
qed

lemma failed_update_sure:
  assumes "has_job k kind d"
  shows "wp (failed_update_tx k c m b i n now) (\<lambda>_. job_over k) (\<lambda>_ _. False) d"
  using assms by (auto simp: failed_update_tx_def has_job_def wp_simps enqueue_discord_notification_def
      SUPPORTED_DISCORD_EVENT_TYPES_def intro!: over_put)

lemma fail_update_sure:
  assumes "serves_requests env"
  shows "triple (in_db (\<lambda>d. queue_inv d \<and> has_job k kind d)) (fail_update env k c m b i n) (\<lambda>_. in_db (job_over k)) (\<lambda>_ _. False)"
  unfolding fail_update_def
proof (rule triple_bnd [where R = "\<lambda>_. in_db (\<lambda>d. queue_inv d \<and> has_job k kind d)"])
  show "triple (in_db (\<lambda>d. queue_inv d \<and> has_job k kind d))
      (andthen (session_scope env (failed_update_tx k c m b i n now)) (append_update_log env k l)) (\<lambda>_. in_db (job_over k)) (\<lambda>_ _. False)"
    for now l
    by (rule triple_andthen [OF sure_over [OF assms failed_update_sure] append_log_sure [OF assms]])
qed (simp add: triple_wall_now)

abbreviation present :: "int \<Rightarrow> string \<Rightarrow> world \<Rightarrow> bool" where
  "present k kind \<equiv> in_db (\<lambda>d. queue_inv d \<and> has_job k kind d)"

lemma shutdown_failure_sure:
  assumes "serves_requests env"
  shows "triple (present k kind) (fail_shutdown_job env k) (\<lambda>_. in_db (job_over k)) (\<lambda>_ _. False)"
  unfolding fail_shutdown_job_def complete_shutdown_job_def
proof (rule triple_bnd [where R = "\<lambda>_. present k kind"])
  have valid: "valid_audit_action ''SHUTDOWN''" by code_simp
  show "triple (present k kind) (session_scope env (complete_shutdown_tx k \<lparr>sr_outcome = SHUTDOWN_FAILED,
      sr_online_players = None, sr_timed_out = False, sr_final_state = Some FAILURE,
      sr_failure = Some ''unexpected_failure''\<rparr> ''SHUTDOWN'' False now)) (\<lambda>_. in_db (job_over k)) (\<lambda>_ _. False)" for now
    by (rule sure_over [OF assms])
      (auto simp: complete_shutdown_tx_def has_job_def wp_simps valid intro!: over_put)
qed (simp add: triple_wall_now)

lemma lifecycle_failure_sure:
  assumes "serves_requests env" and "parse_lifecycle_job_kind kind \<noteq> None"
  shows "triple (present k kind) (bnd (wall_now env) (\<lambda>now. session_scope env (fail_lifecycle_job k now)))
    (\<lambda>_. in_db (job_over k)) (\<lambda>_ _. False)"
proof (rule triple_bnd [where R = "\<lambda>_. present k kind"])
  have valid: "valid_audit_action (lifecycle_action_value a @ ''_SERVER'')" for a
    by (cases a) (simp_all only: lifecycle_action_value.simps, code_simp+)
  show "triple (present k kind) (session_scope env (fail_lifecycle_job k now)) (\<lambda>_. in_db (job_over k)) (\<lambda>_ _. False)" for now
    by (rule sure_over [OF assms(1)])
      (use assms(2) in \<open>auto simp: fail_lifecycle_job_def has_job_def wp_simps valid intro!: over_put\<close>)
qed (simp add: triple_wall_now)

lemma host_power_failure_sure:
  assumes "serves_requests env" and "parse_host_power_job_kind kind = Some action"
  shows "triple (present k kind) (fail_unexpected_host_power env k) (\<lambda>_. in_db (job_over k)) (\<lambda>_ _. False)"
proof -
  have read: "wp (bnd (get_one_job k) (\<lambda>j. case parse_host_power_job_kind (j_kind j) of
              None \<Rightarrow> raise ValueError
            | Some action \<Rightarrow> ret (action,
                (case json_str (dict_get (dict_of (j_result j)) ''palworld_initial_state'') of
                   None \<Rightarrow> None | Some s \<Rightarrow> parse_health_value s))))
      (\<lambda>_ d. queue_inv d \<and> has_job k kind d) (\<lambda>_ _. False) d" if "queue_inv d" "has_job k kind d" for d
    using that assms(2) by (auto simp: has_job_def wp_simps split: option.split)
  have finish: "triple (present k kind) (case x of (action, initial_state) \<Rightarrow> complete_host_power env k action False
      (host_power_details initial_state ''unknown'' False (Some ''unexpected_failure''))) (\<lambda>_. in_db (job_over k)) (\<lambda>_ _. False)" for x
    unfolding complete_host_power_def split_beta
  proof (rule triple_bnd [where R = "\<lambda>_. present k kind"])
    show "triple (present k kind) (session_scope env (complete_host_power_tx k (fst x) False
        (host_power_details (snd x) ''unknown'' False (Some ''unexpected_failure'')) now)) (\<lambda>_. in_db (job_over k)) (\<lambda>_ _. False)" for now
      by (rule sure_over [OF assms(1)])
        (use valid_HOST [of "fst x"] in \<open>auto simp: complete_host_power_tx_def has_job_def wp_simps intro!: over_ended\<close>)
  qed (simp add: triple_wall_now)
  show ?thesis
    unfolding fail_unexpected_host_power_def
    by (rule triple_bnd [OF triple_conseq [OF sure_scope [OF assms(1) read]] finish]) (auto simp: in_db_def)
qed

lemma update_failure_sure:
  assumes "serves_requests env"
  shows "triple (present k kind) (fail_unexpected_update env k) (\<lambda>_. in_db (job_over k)) (\<lambda>_ _. False)"
proof -
  let ?R = "\<lambda>r w. if r = None then in_db (job_over k) w else present k kind w"
  have read: "wp (bnd (get_one_job k) (\<lambda>j. ret (if \<not> active_status (j_status j) then None
            else Some (j_kind j = UPDATE_JOB_KIND, j_kind j = UPDATE_JOB_KIND \<and> \<not> j_is_cancellable j))))
      (\<lambda>r d. if r = None then job_over k d else queue_inv d \<and> has_job k kind d) (\<lambda>_ _. False) d"
    if "queue_inv d" "has_job k kind d" for d
    using that by (auto simp: has_job_def job_over_def wp_simps)
  have start: "triple (present k kind) (session_scope env (bnd (get_one_job k) (\<lambda>j. ret (if \<not> active_status (j_status j) then None
            else Some (j_kind j = UPDATE_JOB_KIND, j_kind j = UPDATE_JOB_KIND \<and> \<not> j_is_cancellable j))))) ?R (\<lambda>_ _. False)"
    by (rule triple_conseq [OF sure_scope [OF assms read]]) (auto simp: in_db_def)
  have rest: "triple (?R found) (case found of None \<Rightarrow> ret ()
      | Some (is_update, manual_review) \<Rightarrow> fail_update env k c m manual_review None is_update)
      (\<lambda>_. in_db (job_over k)) (\<lambda>_ _. False)" for found c m
    using fail_update_sure [OF assms] by (cases found) (auto simp: triple_ret split: prod.split)
  show ?thesis unfolding fail_unexpected_update_def by (rule triple_bnd [OF start rest])
qed

lemma handled_kind:
  assumes "kind \<in> set handled_kinds"
  shows "kind \<notin> set self_ending_kinds"
    and "kind \<notin> set UPDATE_JOB_KINDS \<Longrightarrow> kind \<notin> set HOST_POWER_JOB_KINDS \<Longrightarrow> kind \<notin> set shutdown_kinds \<Longrightarrow>
      parse_lifecycle_job_kind kind \<noteq> None"
    and "kind \<in> set HOST_POWER_JOB_KINDS \<Longrightarrow> parse_host_power_job_kind kind \<noteq> None"
proof -
  have "list_all (\<lambda>k. k \<notin> set self_ending_kinds \<and> (k \<notin> set UPDATE_JOB_KINDS \<longrightarrow> k \<notin> set HOST_POWER_JOB_KINDS
      \<longrightarrow> k \<notin> set shutdown_kinds \<longrightarrow> parse_lifecycle_job_kind k \<noteq> None)
      \<and> (k \<in> set HOST_POWER_JOB_KINDS \<longrightarrow> parse_host_power_job_kind k \<noteq> None)) handled_kinds"
    by code_simp
  with assms show "kind \<notin> set self_ending_kinds"
    and "kind \<notin> set UPDATE_JOB_KINDS \<Longrightarrow> kind \<notin> set HOST_POWER_JOB_KINDS \<Longrightarrow> kind \<notin> set shutdown_kinds \<Longrightarrow>
      parse_lifecycle_job_kind kind \<noteq> None"
    and "kind \<in> set HOST_POWER_JOB_KINDS \<Longrightarrow> parse_host_power_job_kind kind \<noteq> None"
    by (auto simp: list_all_iff)
qed

lemma dispatch_failed_sure:
  assumes env: "serves_requests env" and kind: "kind \<in> set handled_kinds"
  shows "triple (present k kind) (dispatch_failed env k kind path) (\<lambda>_. in_db (job_over k)) (\<lambda>_ _. False)"
proof -
  have log: "triple (present k kind) (log_line path m) (\<lambda>_. present k kind) (\<lambda>_ _. False)" for m
    by (simp add: log_line_def triple_def wp_simps in_db_def)
  have host: "triple (present k kind) (fail_unexpected_host_power env k) (\<lambda>_. in_db (job_over k)) (\<lambda>_ _. False)"
    if "kind \<in> set HOST_POWER_JOB_KINDS"
    using handled_kind(3) [OF kind that] host_power_failure_sure [OF env] by blast
  have self: "triple (present k kind) (ret ()) (\<lambda>_. in_db (job_over k)) (\<lambda>_ _. False)"
    if "kind \<in> set (LOCAL_BACKUP_JOB_KIND # RESTORE_JOB_KINDS @ DRIVE_JOB_KINDS)"
    using handled_kind(1) [OF kind] that unfolding self_ending_kinds_def by blast
  show ?thesis
    unfolding dispatch_failed_def
    by (intro triple_andthen [OF log] triple_if update_failure_sure [OF env] host self shutdown_failure_sure [OF env]
        lifecycle_failure_sure [OF env] handled_kind(2) [OF kind])
qed

text \<open>Whatever its kind, the job is over when its executor returns.\<close>

lemma ends_dispatch:
  assumes "serves_requests env"
  shows "ends k (dispatch env z drive k kind path)"
  unfolding dispatch_def execute_lifecycle_def
  by (intro ends_andthen ends_if ends_then [OF ends_local_backup keeps_ret] ends_restore ends_drive ends_update [OF assms]
      ends_host_power ends_shutdown ends_lifecycle)

text \<open>The whole run of a claimed job: its \<open>try\<close>, the handlers and the release of the lock.\<close>

definition lock_free_of :: "int \<Rightarrow> db \<Rightarrow> bool" where
  "lock_free_of k d \<longleftrightarrow> (\<forall>l\<in>set (locks d). l_job_id l \<noteq> k)"

text \<open>The job is not over, its lock is given back, and the queue had only taken steps before.\<close>

definition unfinished :: "db \<Rightarrow> int \<Rightarrow> db \<Rightarrow> bool" where
  "unfinished d0 k d \<longleftrightarrow> \<not> job_over k d
     \<and> (\<exists>d1. since d0 d1 \<and> d = d1\<lparr>locks := filter (\<lambda>l. l_job_id l \<noteq> k) (locks d1)\<rparr>)"

definition run_left :: "db \<Rightarrow> int \<Rightarrow> bool \<Rightarrow> db \<Rightarrow> bool" where
  "run_left d0 k raised d \<longleftrightarrow> lock_free_of k d \<and> (since d0 d \<and> job_over k d \<or> raised \<and> unfinished d0 k d)"

lemma release_left:
  assumes "since d0 d" and "queue_inv d0" and "job_over k d \<or> raised"
  shows "wp (release_maintenance_lock k) (\<lambda>_. run_left d0 k raised) (\<lambda>_ _. False) d"
proof -
  let ?d = "d\<lparr>locks := filter (\<lambda>l. l_job_id l \<noteq> k) (locks d)\<rparr>"
  have "queue_step d ?d" if over: "job_over k d"
  proof (rule queue_step.unlock [where P = "\<lambda>l. l_job_id l \<noteq> k"])
    fix j l
    assume j: "j \<in> set (jobs d)" "j_status j = JOB_STATUS_RUNNING" and l: "l_job_id l = j_id j"
    have "find_job (j_id j) d = Some j"
      using since_inv [OF assms(1,2)] j(1) jobs_wf_find by (simp add: queue_inv_def)
    with over j(2) l show "l_job_id l \<noteq> k" by (auto simp: job_over_def)
  qed simp_all
  then have "job_over k d \<Longrightarrow> since d0 ?d" by (rule since_step [OF assms(1)])
  then show ?thesis
    using assms(1,3) by (auto simp: release_maintenance_lock_def wp_simps run_left_def unfinished_def lock_free_of_def)
qed

text \<open>The claimed job while it runs, and once its executor or its handler is done.\<close>

definition at_work :: "db \<Rightarrow> int \<Rightarrow> string \<Rightarrow> db \<Rightarrow> bool" where
  "at_work d0 k kind d \<longleftrightarrow> since d0 d \<and> has_job k kind d"

definition worked :: "db \<Rightarrow> int \<Rightarrow> string \<Rightarrow> bool \<Rightarrow> db \<Rightarrow> bool" where
  "worked d0 k kind raised d \<longleftrightarrow> at_work d0 k kind d \<and> (job_over k d \<or> raised)"

lemma at_work_keeps:
  assumes inv: "queue_inv d0" and m: "\<And>d1. keeps (stepped d1) m"
  shows "keeps (in_db (at_work d0 k kind)) m"
  unfolding keeps_def
proof (rule tripleI)
  fix w
  assume "in_db (at_work d0 k kind) w"
  then have since: "since d0 (w_db w)" and job: "has_job k kind (w_db w)" by (simp_all add: at_work_def in_db_def)
  have "wp m (\<lambda>_. stepped (w_db w)) (\<lambda>_. stepped (w_db w)) w"
    by (rule tripleD [OF keepsD [OF m]]) (simp add: in_db_def)
  then show "wp m (\<lambda>_. in_db (at_work d0 k kind)) (\<lambda>_. in_db (at_work d0 k kind)) w"
    by (rule wp_mono)
      (auto simp: at_work_def in_db_def intro: since_trans [OF since] has_job_since [OF _ since_inv [OF since inv] job])
qed

lemma worked_stable:
  assumes "serves_requests env" and "queue_inv d0"
  shows "stable env (worked d0 k kind raised)"
  unfolding stable_def
proof (intro allI impI)
  fix n d
  assume d: "worked d0 k kind raised d"
  have "since d (e_interfere env n d)" using serves_web_step [OF assms(1)] by (simp add: web_step_def)
  moreover from d have "since d0 d" "has_job k kind d" by (simp_all add: worked_def at_work_def)
  ultimately have "at_work d0 k kind (e_interfere env n d)"
    unfolding at_work_def by (blast intro: since_trans has_job_since since_inv [OF _ assms(2)])
  moreover have "job_over k d \<Longrightarrow> job_over k (e_interfere env n d)"
    using over_since [OF assms(1)] by (simp add: stable_def)
  ultimately show "worked d0 k kind raised (e_interfere env n d)" using d by (auto simp: worked_def)
qed

lemma outcome_sure:
  assumes "serves_requests env" and "queue_inv d0"
  shows "triple (in_db (worked d0 k kind raised)) (log_outcome env k path) (\<lambda>_. in_db (worked d0 k kind raised)) (\<lambda>_ _. False)"
proof -
  have "wp (bnd (get_one_job k) (\<lambda>j. ret (j_status j))) (\<lambda>_. worked d0 k kind raised) (\<lambda>_ _. False) d"
    if "worked d0 k kind raised d" for d
    using that by (auto simp: wp_simps worked_def at_work_def has_job_def)
  from scope_sure [OF worked_stable [OF assms] this]
  have read: "triple (in_db (worked d0 k kind raised)) (session_scope env (bnd (get_one_job k) (\<lambda>j. ret (j_status j))))
      (\<lambda>_. in_db (worked d0 k kind raised)) (\<lambda>_ _. False)" by (rule triple_conseq) (auto simp: in_db_def)
  have "triple (in_db (worked d0 k kind raised)) (log_line path m) (\<lambda>_. in_db (worked d0 k kind raised)) (\<lambda>_ _. False)" for m
    by (simp add: log_line_def triple_def wp_modify)
  from triple_bnd [OF read this] show ?thesis unfolding log_outcome_def .
qed

text \<open>
  The \<open>try\<close> with its handler. What is left unfinished is a job whose executor, started in this very
  world, raised and is one of those that end their own jobs.
\<close>

definition let_down :: "env \<Rightarrow> (string \<Rightarrow> bool) \<Rightarrow> bool \<Rightarrow> int \<Rightarrow> string \<Rightarrow> string \<Rightarrow> world \<Rightarrow> bool" where
  "let_down env z drive k kind path w \<longleftrightarrow> kind \<in> set self_ending_kinds
     \<and> (\<exists>e w'. dispatch env z drive k kind path w = (Inl e, w'))"

lemma wp_outcome: "wp m (\<lambda>x v. m w = (Inr x, v)) (\<lambda>e v. m w = (Inl e, v)) w"
  by (auto simp: wp_def split: prod.split sum.split)

lemma attempt_spec:
  assumes env: "serves_requests env" and inv: "queue_inv d0" and kind: "kind \<in> set supported_kinds"
    and w1: "in_db (at_work d0 k kind) w1"
  shows "wp (handle (andthen (dispatch env z drive k kind path) (ret True))
       (\<lambda>e. andthen (dispatch_failed env k kind path) (ret False)))
    (\<lambda>_. in_db (worked d0 k kind (let_down env z drive k kind path w1))) (\<lambda>e w. e = Diverges \<and> stepped d0 w) w1"
proof -
  let ?raised = "let_down env z drive k kind path w1"
  let ?W = "\<lambda>_. in_db (worked d0 k kind ?raised)"
  let ?R = "\<lambda>e w. in_db (at_work d0 k kind) w \<and> dispatch env z drive k kind path w1 = (Inl e, w)"
  note run = at_work_keeps [OF inv stepped_dispatch [OF env]] and failed = at_work_keeps [OF inv stepped_dispatch_failed [OF env]]
  have "wp (dispatch env z drive k kind path) (\<lambda>_. in_db (job_over k)) (\<lambda>_ _. True) w1"
    using ends_dispatch [OF env] by (simp add: ends_def triple_def)
  from wp_conj [OF wp_conj [OF tripleD [OF keepsD [OF run] w1] this] wp_outcome]
  have "wp (dispatch env z drive k kind path) ?W ?R w1" by (rule wp_mono) (auto simp: in_db_def worked_def)
  then have tried: "wp (andthen (dispatch env z drive k kind path) (ret True)) ?W ?R w1" unfolding wp_andthen by (rule wp_mono) (simp_all add: wp_ret)
  have handled: "wp (andthen (dispatch_failed env k kind path) (ret False)) ?W (\<lambda>e w. e = Diverges \<and> stepped d0 w) w"
    if w: "?R e w" for e w
  proof (cases "kind \<in> set handled_kinds")
    case True
    have "present k kind w" using w since_inv [OF _ inv] by (auto simp: in_db_def at_work_def)
    note sure = tripleD [OF dispatch_failed_sure [OF env True] this]
    from w have "in_db (at_work d0 k kind) w" by simp
    from wp_conj [OF tripleD [OF keepsD [OF failed] this] sure]
    have "wp (dispatch_failed env k kind path) ?W (\<lambda>e w. e = Diverges \<and> stepped d0 w) w"
      by (rule wp_mono) (auto simp: in_db_def worked_def)
    then show ?thesis unfolding wp_andthen by (rule wp_mono) (simp_all add: wp_ret)
  next
    case False
    then have self: "kind \<in> set self_ending_kinds" using kind by (simp add: supported_split)
    from False have no: "kind \<notin> set UPDATE_JOB_KINDS" "kind \<notin> set HOST_POWER_JOB_KINDS"
      unfolding handled_kinds_def set_append by blast+
    have quiet: "dispatch_failed env k kind path = andthen (log_line path (msg_text ''Execu_c~ao falhou de forma inesperada.'')) (ret ())"
      unfolding dispatch_failed_def if_not_P [OF no(1)] if_not_P [OF no(2)]
      by (simp only: if_P self [unfolded self_ending_kinds_def])
    have ?raised using self w by (auto simp: let_down_def)
    with w show ?thesis unfolding quiet by (simp add: wp_simps log_line_def in_db_def worked_def)
  qed
  show ?thesis
    unfolding wp_handle by (rule wp_mono [OF tried]) (use handled in \<open>auto simp: in_db_def at_work_def\<close>)
qed

lemma run_claimed_spec:
  assumes env: "serves_requests env" and inv: "queue_inv d0" and kind: "kind \<in> set supported_kinds"
    and w1: "in_db (at_work d0 k kind) w1"
  shows "wp (run_claimed env z drive k kind path)
    (\<lambda>_. in_db (run_left d0 k (let_down env z drive k kind path w1))) (\<lambda>e w. e = Diverges \<and> stepped d0 w) w1"
proof -
  let ?raised = "let_down env z drive k kind path w1"
  let ?body = "bnd (handle (andthen (dispatch env z drive k kind path) (ret True))
       (\<lambda>e. andthen (dispatch_failed env k kind path) (ret False))) (\<lambda>returned.
        if returned then log_outcome env k path else ret ())"
  have "wp ?body (\<lambda>_. in_db (worked d0 k kind ?raised)) (\<lambda>e w. e = Diverges \<and> stepped d0 w) w1"
    unfolding wp_bnd
    by (rule wp_mono [OF attempt_spec [OF env inv kind w1]])
      (auto simp: wp_ret intro: wp_mono [OF tripleD [OF outcome_sure [OF env inv]]])
  then have body: "triple (\<lambda>w. w = w1) ?body (\<lambda>_. in_db (worked d0 k kind ?raised)) (\<lambda>e w. e = Diverges \<and> stepped d0 w)"
    by (simp add: triple_def)
  have release: "wp (release_maintenance_lock k) (\<lambda>_. run_left d0 k ?raised) (\<lambda>_ _. False) d" if "worked d0 k kind ?raised d" for d
    by (rule release_left [OF _ inv]) (use that in \<open>auto simp: worked_def at_work_def\<close>)
  have fin: "triple (in_db (worked d0 k kind ?raised)) (session_scope env (release_maintenance_lock k))
      (\<lambda>_. in_db (run_left d0 k ?raised)) (\<lambda>e w. e = Diverges \<and> stepped d0 w)"
    by (rule triple_conseq [OF scope_sure [OF worked_stable [OF env inv] release]]) (auto simp: in_db_def)
  have "triple (\<lambda>w. w = w1) (run_claimed env z drive k kind path)
      (\<lambda>_. in_db (run_left d0 k ?raised)) (\<lambda>e w. e = Diverges \<and> stepped d0 w)"
    unfolding run_claimed_def by (rule triple_always [OF body fin]) (auto simp: triple_def)
  then show ?thesis by (simp add: triple_def)
qed

text \<open>A step that claims a job is the run of that job.\<close>

lemma claimed_step:
  assumes "claim_step env worker w = (Inr (Some (k, kind, path)), w1)"
  shows "process_next env z drive worker w = (case run_claimed env z drive k kind path w1 of
      (Inl e, w2) \<Rightarrow> (Inl e, w2) | (Inr _, w2) \<Rightarrow> (Inr True, w2))"
  using assms by (simp add: process_next_def bnd_def andthen_def ret_def split: prod.split sum.split)

lemma claimed_run:
  assumes env: "serves_requests env" and inv: "queue_inv (w_db w)"
    and claim: "claim_step env worker w = (Inr (Some (k, kind, path)), w1)"
  shows "claimed_job k kind path worker (w_db w1)"
    and "wp (run_claimed env z drive k kind path) (\<lambda>_. in_db (run_left (w_db w) k (let_down env z drive k kind path w1)))
      (\<lambda>e v. e = Diverges \<and> stepped (w_db w) v) w1"
proof -
  have "stepped (w_db w) w" by (simp add: in_db_def)
  from tripleD [OF claim_step_spec [OF env inv] this, of worker] claim
  have w1: "stepped (w_db w) w1" and job: "claimed_job k kind path worker (w_db w1)" by (auto simp: wp_def)
  show "claimed_job k kind path worker (w_db w1)" by (rule job)
  have "kind \<in> set supported_kinds" "in_db (at_work (w_db w) k kind) w1"
    using w1 job by (auto simp: claimed_job_def at_work_def has_job_def in_db_def)
  then show "wp (run_claimed env z drive k kind path) (\<lambda>_. in_db (run_left (w_db w) k (let_down env z drive k kind path w1)))
      (\<lambda>e v. e = Diverges \<and> stepped (w_db w) v) w1"
    by (rule run_claimed_spec [OF env inv])
qed

section \<open>Properties of the worker\<close>

text \<open>
  C2: one step of the worker refines the abstract queue. Whatever requests the web process serves
  and whatever the services answer in between, the consistent queue is changed only by accepting,
  starting and ending jobs and by giving the lock back once its job does not work any more, also when
  the step raises or does not end. The one exception is a backup, restore or Drive job whose executor
  raised and left the job unfinished: up to the release at the end of the step the queue was
  changed only by such steps, and then the locks of that job are given back, and nothing else is done,
  while it still counts as running.
\<close>

theorem worker_refines_queue:
  assumes "serves_requests env" and "queue_inv (w_db w)" and "process_next env z drive worker w = (res, w')"
  shows "spec_step\<^sup>*\<^sup>* (abs_queue (w_db w)) (abs_queue (w_db w')) \<and> queue_inv (w_db w')
    \<or> (\<exists>k kind path w1 e w2 d1. claim_step env worker w = (Inr (Some (k, kind, path)), w1)
         \<and> kind \<in> set self_ending_kinds \<and> dispatch env z drive k kind path w1 = (Inl e, w2)
         \<and> spec_step\<^sup>*\<^sup>* (abs_queue (w_db w)) (abs_queue d1) \<and> queue_inv d1 \<and> \<not> job_over k d1
         \<and> w_db w' = d1\<lparr>locks := filter (\<lambda>l. l_job_id l \<noteq> k) (locks d1)\<rparr>)"
proof -
  let ?d = "w_db w"
  have start: "stepped ?d w" by (simp add: in_db_def)
  have good: "spec_step\<^sup>*\<^sup>* (abs_queue ?d) (abs_queue d) \<and> queue_inv d" if "since ?d d" for d
    using since_refines [OF that assms(2)] since_inv [OF that assms(2)] by blast
  obtain r w1 where claim: "claim_step env worker w = (r, w1)" by (cases "claim_step env worker w")
  show ?thesis
  proof (cases "\<exists>k kind path. r = Inr (Some (k, kind, path))")
    case True
    then obtain k kind path where r: "claim_step env worker w = (Inr (Some (k, kind, path)), w1)" using claim by blast
    note run = claimed_run(2) [OF assms(1,2) r, of z drive]
    obtain x where "run_claimed env z drive k kind path w1 = (x, w')"
      using assms(3) claimed_step [OF r] by (auto split: prod.splits sum.splits)
    with run have "since ?d (w_db w') \<or> run_left ?d k (let_down env z drive k kind path w1) (w_db w')"
      by (auto simp: wp_def in_db_def split: sum.splits)
    then consider "since ?d (w_db w')" | "let_down env z drive k kind path w1" "unfinished ?d k (w_db w')"
      by (auto simp: run_left_def)
    then show ?thesis
    proof cases
      case 2
      then obtain e w2 d1 where "dispatch env z drive k kind path w1 = (Inl e, w2)" "kind \<in> set self_ending_kinds"
        "since ?d d1" "\<not> job_over k d1" "w_db w' = d1\<lparr>locks := filter (\<lambda>l. l_job_id l \<noteq> k) (locks d1)\<rparr>"
        unfolding let_down_def unfinished_def by auto
      with good r show ?thesis by blast
    qed (use good in blast)
  next
    case False
    then have "w' = w1" using assms(3) claim by (auto simp: process_next_def bnd_def ret_def split: sum.splits option.splits)
    moreover have "stepped ?d w1"
      using tripleD [OF claim_step_spec [OF assms(1,2)] start, of worker] claim by (auto simp: wp_def split: sum.splits)
    ultimately show ?thesis using good by (simp add: in_db_def)
  qed
qed

text \<open>
  C3: a step of the worker that returns finishes what it claimed. Nothing is claimed and it answers
  that there was nothing to do, or the claimed job was running in the name of this worker with its
  log, and afterwards it holds no lock and is over, whatever its kind, unless it is a backup, restore
  or Drive job whose executor raised; when the log could not be created nothing was claimed and the
  exception leaves the step.
\<close>

theorem worker_step_finishes:
  assumes "serves_requests env" and "queue_inv (w_db w)" and "process_next env z drive worker w = (res, w')"
    and "res \<noteq> Inl Diverges"
  shows "case claim_step env worker w of
      (Inl e, _) \<Rightarrow> res = Inl e \<and> w_db w' = e_interfere env (w_tick w) (w_db w)
    | (Inr None, _) \<Rightarrow> res = Inr False
    | (Inr (Some (k, kind, path)), w1) \<Rightarrow> res = Inr True \<and> claimed_job k kind path worker (w_db w1)
        \<and> lock_free_of k (w_db w')
        \<and> (job_over k (w_db w')
           \<or> kind \<in> set self_ending_kinds \<and> (\<exists>e w2. dispatch env z drive k kind path w1 = (Inl e, w2)))"
proof -
  obtain r w1 where claim: "claim_step env worker w = (r, w1)" by (cases "claim_step env worker w")
  show ?thesis
  proof (cases r)
    case (Inl e)
    then have "w_db w1 = e_interfere env (w_tick w) (w_db w)"
      using claim by (auto simp: claim_step_def session_block_def Let_def split: prod.splits sum.splits)
    then show ?thesis using Inl claim assms(3) by (simp add: process_next_def bnd_def)
  next
    case (Inr found)
    show ?thesis
    proof (cases found)
      case None
      then show ?thesis using Inr claim assms(3) by (simp add: process_next_def bnd_def ret_def)
    next
      case (Some x)
      obtain k kind path where x: "x = (k, kind, path)" by (cases x)
      with claim Inr Some have r: "claim_step env worker w = (Inr (Some (k, kind, path)), w1)" by simp
      note run = claimed_run [OF assms(1,2) r]
      obtain y w2 where "run_claimed env z drive k kind path w1 = (y, w2)" by (cases "run_claimed env z drive k kind path w1")
      with run(2) [of z drive] claimed_step [OF r, of z drive] assms(3,4)
      have "res = Inr True" "run_left (w_db w) k (let_down env z drive k kind path w1) (w_db w')"
        by (auto simp: wp_def in_db_def split: sum.splits)
      with run(1) r show ?thesis by (auto simp: run_left_def let_down_def)
    qed
  qed
qed

section \<open>A step of the worker on a concrete queue\<close>

text \<open>A queued stop without its timeout: the executor refuses it and the handler marks it FAILED.\<close>

definition queued_stop :: job where
  "queued_stop = new_job ''PALWORLD_STOP'' False True LIFECYCLE_COORDINATION_KEY None [] 0 1"

definition worker_env :: env where "worker_env = calm_env\<lparr>e_health := \<lambda>_. Inr OFFLINE\<rparr>"

definition queued_world :: world where "queued_world = start_world (empty_db\<lparr>jobs := [queued_stop]\<rparr>)"

definition stop_log :: string where "stop_log = ''jobs/1970/palworld-stop-000001.log''"

definition stop_run :: "(exn + bool) \<times> world" where
  "stop_run = process_next worker_env (\<lambda>_. True) True ''w'' queued_world"

lemma stop_log_path: "job_log_path 1 ''PALWORLD_STOP'' (seconds 1) = stop_log" by code_simp

lemma stop_log_ok: "resolves_log worker_env stop_log" by code_simp

lemma stop_kind: "SAFE_KIND_PATTERN ''PALWORLD_STOP''" "''PALWORLD_STOP'' \<in> set supported_kinds" "supported_kinds \<noteq> []"
  "''PALWORLD_STOP'' \<noteq> LOCAL_BACKUP_JOB_KIND" "''PALWORLD_STOP'' \<notin> set RESTORE_JOB_KINDS"
  "''PALWORLD_STOP'' \<notin> set DRIVE_JOB_KINDS" "''PALWORLD_STOP'' \<notin> set UPDATE_JOB_KINDS"
  "''PALWORLD_STOP'' \<notin> set HOST_POWER_JOB_KINDS" "''PALWORLD_STOP'' \<notin> set shutdown_kinds"
  "''PALWORLD_STOP'' \<notin> set self_ending_kinds" "parse_lifecycle_job_kind ''PALWORLD_STOP'' = Some STOP"
  "valid_audit_action (lifecycle_action_value STOP @ ''_SERVER'')"
  by code_simp+

lemmas claim_run_simps = claim_step_def run_simps calm_env_simps claim_next_job_def pending_supported_job_def
  claimable_def release_terminal_locks_def queued_world_def queued_stop_def start_world_def empty_db_def new_job_def
  worker_env_def lock_is_free_def order_by_def limit1_def put_job_def acquire_lock_def claimed_def Let_def after_scope_def
  job_logs_create_def stop_log_path stop_kind stop_log_ok [unfolded worker_env_def] file_step_def log_line_def answer_def

lemma stop_claimed: "fst (claim_step worker_env ''w'' queued_world) = Inr (Some (1, ''PALWORLD_STOP'', stop_log))"
  by (simp add: claim_run_simps)

lemma stop_run_returns: "fst stop_run = Inr True"
  using stop_kind(12)
  by (simp add: stop_run_def process_next_def claim_run_simps run_claimed_def dispatch_def execute_lifecycle_def
    execute_lifecycle_job_def get_one_job_def find_job_def row_get_def row_put_def job_timeout_def int_within_def
    dict_get_def dict_of_def json_int_def always_def dispatch_failed_def fail_lifecycle_job_def record_audit_event_def
    log_outcome_def release_maintenance_lock_def system_event_def)

lemma queued_world_ok: "serves_requests worker_env" "queue_inv (w_db queued_world)"
proof -
  show "serves_requests worker_env"
    unfolding serves_requests_def worker_env_def by (simp add: calm_env_simps) (metis fold_Nil id_apply)
  show "queue_inv (w_db queued_world)"
    by (simp add: queued_world_def queued_stop_def queue_inv_def jobs_wf_def locks_wf_def start_world_def empty_db_def new_job_def)
qed

theorem worker_refines_queue_witness:
  "spec_step\<^sup>*\<^sup>* (abs_queue (w_db queued_world)) (abs_queue (w_db (snd stop_run))) \<and> queue_inv (w_db (snd stop_run))"
proof -
  obtain w1 where "claim_step worker_env ''w'' queued_world = (Inr (Some (1, ''PALWORLD_STOP'', stop_log)), w1)"
    using stop_claimed by (metis prod.collapse)
  with worker_refines_queue [OF queued_world_ok stop_run_def [symmetric, THEN trans, OF prod.collapse [symmetric]]]
  show ?thesis using stop_kind(10) by auto
qed

theorem worker_step_finishes_witness:
  "lock_free_of 1 (w_db (snd stop_run)) \<and> job_over 1 (w_db (snd stop_run))"
proof -
  obtain w1 where "claim_step worker_env ''w'' queued_world = (Inr (Some (1, ''PALWORLD_STOP'', stop_log)), w1)"
    using stop_claimed by (metis prod.collapse)
  with worker_step_finishes [OF queued_world_ok stop_run_def [symmetric, THEN trans, OF prod.collapse [symmetric]]]
  show ?thesis using stop_run_returns stop_kind(10) by simp
qed

end
