(* ===== verification/PalworldIni.thy ===== *)
theory PalworldIni
  imports PyText
begin

text \<open>
  The file PalWorldSettings.ini (\<open>app/palworld_settings/ini.py\<close>): the regular expressions that find its
  section and its OptionSettings, the scanners over parentheses and quotes, and the entries with the
  replacement of their values. The scanners are related to a grammar of balanced texts.
\<close>

section \<open>Regular expressions\<close>

definition SECTION_NAME :: string where
  "SECTION_NAME = ''/Script/Pal.PalGameWorldSettings''"

text \<open>
  \<open>\\s*$\<close> in multiline mode: the white space is taken as a whole when the text ends with it, and else up
  to its last line feed.
\<close>

definition to_line_end :: "string \<Rightarrow> nat option" where
  "to_line_end s =
     (let w = takeWhile is_space s in
      if w = s then Some (length s)
      else if CHR 0x0A \<in> set w then Some (length w - 1 - length (takeWhile (\<lambda>c. c \<noteq> CHR 0x0A) (rev w)))
      else None)"

text \<open>Each pattern gives the length of its match at the beginning of a line.\<close>

definition section_pattern :: "string \<Rightarrow> nat option" where
  "section_pattern s =
     (let r = lstrip s; header = ''['' @ SECTION_NAME @ '']'' in
      if starts_with r header
      then map_option (\<lambda>n. length s - length r + length header + n) (to_line_end (drop (length header) r))
      else None)"

definition name_char :: "char \<Rightarrow> bool" where
  "name_char c \<longleftrightarrow> c \<notin> {CHR '']'', CHR 0x0D, CHR 0x0A}"

definition next_section_pattern :: "string \<Rightarrow> nat option" where
  "next_section_pattern s =
     (case lstrip s of
        c # t \<Rightarrow> if c \<noteq> CHR ''['' then None
          else (let name = takeWhile name_char t in
            case drop (length name) t of
              d # v \<Rightarrow> if d = CHR '']'' \<and> name \<noteq> []
                then map_option (\<lambda>n. length s - length v + n) (to_line_end v) else None
            | [] \<Rightarrow> None)
      | [] \<Rightarrow> None)"

definition blank :: "char \<Rightarrow> bool" where
  "blank c \<longleftrightarrow> c = CHR '' '' \<or> c = CHR 0x09"

text \<open>What follows \<open>[ \t]*=[ \t]*\(\<close>.\<close>

definition after_opening :: "string \<Rightarrow> string option" where
  "after_opening s =
     (case dropWhile blank s of
        c # t \<Rightarrow> (case dropWhile blank t of
            d # v \<Rightarrow> if c = CHR ''='' \<and> d = CHR ''('' then Some v else None
          | [] \<Rightarrow> None)
      | [] \<Rightarrow> None)"

definition option_pattern :: "string \<Rightarrow> nat option" where
  "option_pattern s =
     (let r = dropWhile blank s; name = ''OptionSettings'' in
      if starts_with r name
      then map_option (\<lambda>v. length s - length v) (after_opening (drop (length name) r)) else None)"

text \<open>
  \<open>finditer\<close> of a pattern that starts with \<open>^\<close> and matches no empty text, over a text at position \<open>pos\<close>:
  the starts and ends of the matches, none overlapping another. The flag says whether a line begins here.
\<close>

definition match_length :: "(string \<Rightarrow> nat option) \<Rightarrow> bool \<Rightarrow> string \<Rightarrow> nat" where
  "match_length m bol s = (if bol then case m s of None \<Rightarrow> 0 | Some n \<Rightarrow> n else 0)"

function finditer :: "(string \<Rightarrow> nat option) \<Rightarrow> bool \<Rightarrow> nat \<Rightarrow> string \<Rightarrow> (nat \<times> nat) list" where
  "finditer m bol pos [] = []"
| "finditer m bol pos (c # cs) =
     (if match_length m bol (c # cs) = 0 then finditer m (c = CHR 0x0A) (Suc pos) cs
      else (pos, pos + match_length m bol (c # cs))
        # finditer m (last (take (match_length m bol (c # cs)) (c # cs)) = CHR 0x0A)
            (pos + match_length m bol (c # cs)) (drop (match_length m bol (c # cs)) (c # cs)))"
  by pat_completeness auto
termination
  by (relation "measure (\<lambda>(m, bol, pos, s). length s)") auto

text \<open>\<open>pattern.search(content, pos)\<close>: the position \<open>pos\<close> begins a line only after a line feed.\<close>

definition search_from :: "(string \<Rightarrow> nat option) \<Rightarrow> string \<Rightarrow> nat \<Rightarrow> (nat \<times> nat) option" where
  "search_from m content pos =
     (case finditer m (pos = 0 \<or> content ! (pos - 1) = CHR 0x0A) pos (drop pos content) of
        [] \<Rightarrow> None | x # _ \<Rightarrow> Some x)"

section \<open>Scanning parentheses and quotes\<close>

fun find_closing :: "bool \<Rightarrow> bool \<Rightarrow> int \<Rightarrow> nat \<Rightarrow> string \<Rightarrow> nat option" where
  "find_closing quoted escaped depth index [] = None"
| "find_closing quoted escaped depth index (c # cs) =
     (if quoted then
        if escaped then find_closing True False depth (Suc index) cs
        else if c = CHR 0x5C then find_closing True True depth (Suc index) cs
        else if c = CHR 0x22 then find_closing False False depth (Suc index) cs
        else find_closing True False depth (Suc index) cs
      else if c = CHR 0x22 then find_closing True False depth (Suc index) cs
      else if c = CHR ''('' then find_closing False False (depth + 1) (Suc index) cs
      else if c = CHR '')'' then
        if depth - 1 = 0 then Some index
        else if depth - 1 < 0 then None
        else find_closing False False (depth - 1) (Suc index) cs
      else find_closing False False depth (Suc index) cs)"

definition find_closing_parenthesis :: "string \<Rightarrow> nat \<Rightarrow> exn + nat" where
  "find_closing_parenthesis content opening_index =
     (case find_closing False False 0 opening_index (drop opening_index content) of
        None \<Rightarrow> Inl IniParseError | Some index \<Rightarrow> Inr index)"

text \<open>The loop of \<open>_split_entries\<close>; \<open>entry\<close> is what it has read of the entry that began at \<open>start\<close>.\<close>

fun split_scan :: "bool \<Rightarrow> bool \<Rightarrow> nat \<Rightarrow> string \<Rightarrow> string \<Rightarrow> exn + string list" where
  "split_scan quoted escaped depth entry [] =
     (if quoted \<or> depth \<noteq> 0 then Inl IniParseError else Inr [entry])"
| "split_scan quoted escaped depth entry (c # cs) =
     (if quoted then
        if escaped then split_scan True False depth (entry @ [c]) cs
        else if c = CHR 0x5C then split_scan True True depth (entry @ [c]) cs
        else if c = CHR 0x22 then split_scan False False depth (entry @ [c]) cs
        else split_scan True False depth (entry @ [c]) cs
      else if c = CHR 0x22 then split_scan True False depth (entry @ [c]) cs
      else if c = CHR ''('' then split_scan False False (depth + 1) (entry @ [c]) cs
      else if c = CHR '')'' then
        if depth = 0 then Inl IniParseError
        else split_scan False False (depth - 1) (entry @ [c]) cs
      else if c = CHR '','' \<and> depth = 0 then
        map_sum id (\<lambda>entries. entry # entries) (split_scan False False depth [] cs)
      else split_scan False False depth (entry @ [c]) cs)"

definition split_entries :: "string \<Rightarrow> exn + string list" where
  "split_entries inner = (if inner = [] then Inr [] else split_scan False False 0 [] inner)"

fun equal_scan :: "bool \<Rightarrow> bool \<Rightarrow> int \<Rightarrow> nat \<Rightarrow> string \<Rightarrow> nat option" where
  "equal_scan quoted escaped depth index [] = None"
| "equal_scan quoted escaped depth index (c # cs) =
     (if quoted then
        if escaped then equal_scan True False depth (Suc index) cs
        else if c = CHR 0x5C then equal_scan True True depth (Suc index) cs
        else if c = CHR 0x22 then equal_scan False False depth (Suc index) cs
        else equal_scan True False depth (Suc index) cs
      else if c = CHR 0x22 then equal_scan True False depth (Suc index) cs
      else if c = CHR ''('' then equal_scan False False (depth + 1) (Suc index) cs
      else if c = CHR '')'' then equal_scan False False (depth - 1) (Suc index) cs
      else if c = CHR ''='' \<and> depth = 0 then Some index
      else equal_scan False False depth (Suc index) cs)"

definition top_level_equal :: "string \<Rightarrow> nat option" where
  "top_level_equal raw = equal_scan False False 0 0 raw"

section \<open>Entries\<close>

record ini_entry =
  ie_raw :: string
  ie_key :: "string option"
  ie_value :: "string option"
  ie_value_start :: "nat option"
  ie_value_end :: "nat option"

definition replace_value :: "ini_entry \<Rightarrow> string \<Rightarrow> exn + string" where
  "replace_value e serialized =
     (case (ie_value_start e, ie_value_end e) of
        (Some s, Some t) \<Rightarrow> Inr (take s (ie_raw e) @ serialized @ drop t (ie_raw e))
      | _ \<Rightarrow> Inl IniParseError)"

definition key_pattern :: "string \<Rightarrow> bool" where
  "key_pattern s = (case s of [] \<Rightarrow> False | c # cs \<Rightarrow>
     (is_upper c \<or> is_lower c) \<and> list_all (\<lambda>x. is_upper x \<or> is_lower x \<or> is_digit x \<or> x = CHR ''_'') cs)"

definition plain_entry :: "string \<Rightarrow> ini_entry" where
  "plain_entry raw =
     \<lparr>ie_raw = raw, ie_key = None, ie_value = None, ie_value_start = None, ie_value_end = None\<rparr>"

definition parse_entry :: "string \<Rightarrow> ini_entry" where
  "parse_entry raw =
     (case top_level_equal raw of
        None \<Rightarrow> plain_entry raw
      | Some equal_index \<Rightarrow>
          let key = strip (take equal_index raw) in
          if \<not> key_pattern key then plain_entry raw
          else
            let after_equal = drop (equal_index + 1) raw;
                leading = length after_equal - length (lstrip after_equal);
                trailing = length after_equal - length (rstrip after_equal);
                value_start = equal_index + 1 + leading;
                value_end = (if trailing \<noteq> 0 then length raw - trailing else length raw)
            in \<lparr>ie_raw = raw, ie_key = Some key,
                ie_value = Some (if value_end \<le> value_start then [] else drop value_start (take value_end raw)),
                ie_value_start = Some value_start, ie_value_end = Some value_end\<rparr>)"

section \<open>The whole file\<close>

record parsed_ini =
  pi_prefix :: string
  pi_entries :: "ini_entry list"
  pi_suffix :: string

fun rendered_entries :: "(string \<Rightarrow> string option) \<Rightarrow> ini_entry list \<Rightarrow> exn + string list" where
  "rendered_entries values [] = Inr []"
| "rendered_entries values (e # es) =
     (case (case ie_key e of None \<Rightarrow> Inr (ie_raw e)
            | Some k \<Rightarrow> (case values k of None \<Rightarrow> Inr (ie_raw e) | Some v \<Rightarrow> replace_value e v)) of
        Inl x \<Rightarrow> Inl x
      | Inr raw \<Rightarrow> map_sum id ((#) raw) (rendered_entries values es))"

text \<open>\<open>','.join(entries)\<close>.\<close>

fun join_commas :: "string list \<Rightarrow> string" where
  "join_commas [] = []"
| "join_commas [s] = s"
| "join_commas (s # t # ts) = s @ CHR '','' # join_commas (t # ts)"

definition render :: "parsed_ini \<Rightarrow> (string \<Rightarrow> string option) \<Rightarrow> exn + string" where
  "render p values = map_sum id (\<lambda>raws. pi_prefix p @ join_commas raws @ pi_suffix p)
     (rendered_entries values (pi_entries p))"

definition parse_ini :: "string \<Rightarrow> exn + parsed_ini" where
  "parse_ini content =
     (case finditer section_pattern True 0 content of
        [(section_start, body)] \<Rightarrow>
          (let section_end = (case search_from next_section_pattern content body of
               None \<Rightarrow> length content | Some (start, _) \<Rightarrow> start) in
           case finditer option_pattern True 0 (drop body (take section_end content)) of
             [(option_start, option_end)] \<Rightarrow>
               (let opening_index = body + option_end - 1 in
                case find_closing_parenthesis content opening_index of
                  Inl x \<Rightarrow> Inl x
                | Inr closing_index \<Rightarrow>
                    if section_end \<le> closing_index then Inl IniParseError
                    else map_sum id (\<lambda>raws. \<lparr>pi_prefix = take (opening_index + 1) content,
                        pi_entries = List.map parse_entry raws, pi_suffix = drop closing_index content\<rparr>)
                      (split_entries (drop (opening_index + 1) (take closing_index content))))
           | _ \<Rightarrow> Inl IniParseError)
      | _ \<Rightarrow> Inl IniParseError)"

section \<open>A grammar of balanced texts\<close>

text \<open>
  The body of a quoted string, and the texts whose quotes and parentheses match. The flag says whether
  commas may occur outside of all parentheses.
\<close>

inductive quoted_body :: "string \<Rightarrow> bool" where
  quoted_empty: "quoted_body []"
| quoted_char: "c \<noteq> CHR 0x5C \<Longrightarrow> c \<noteq> CHR 0x22 \<Longrightarrow> quoted_body s \<Longrightarrow> quoted_body (c # s)"
| quoted_escape: "quoted_body s \<Longrightarrow> quoted_body (CHR 0x5C # c # s)"

definition plain_char :: "char \<Rightarrow> bool" where
  "plain_char c \<longleftrightarrow> c \<noteq> CHR 0x22 \<and> c \<noteq> CHR ''('' \<and> c \<noteq> CHR '')''"

inductive balanced :: "bool \<Rightarrow> string \<Rightarrow> bool" where
  balanced_empty: "balanced b []"
| balanced_char: "plain_char c \<Longrightarrow> (c = CHR '','' \<Longrightarrow> b) \<Longrightarrow> balanced b s \<Longrightarrow> balanced b (c # s)"
| balanced_quote: "quoted_body u \<Longrightarrow> balanced b s \<Longrightarrow> balanced b (CHR 0x22 # u @ CHR 0x22 # s)"
| balanced_group: "balanced True u \<Longrightarrow> balanced b s \<Longrightarrow> balanced b (CHR ''('' # u @ CHR '')'' # s)"

lemma split_quoted:
  "quoted_body u \<Longrightarrow> split_scan True False d a (u @ CHR 0x22 # s) = split_scan False False d (a @ u @ [CHR 0x22]) s"
  by (induction u arbitrary: a rule: quoted_body.induct) auto

lemma split_balanced:
  "balanced b u \<Longrightarrow> (b \<Longrightarrow> 0 < d) \<Longrightarrow> split_scan False False d a (u @ s) = split_scan False False d (a @ u) s"
proof (induction b u arbitrary: a d s rule: balanced.induct)
  case (balanced_group u b t)
  then show ?case by (simp add: balanced_group.IH(1))
qed (auto simp: plain_char_def split_quoted)

lemma split_quoted_back:
  "split_scan True False d a s = Inr es
    \<Longrightarrow> \<exists>u r. quoted_body u \<and> s = u @ CHR 0x22 # r \<and> split_scan False False d (a @ u @ [CHR 0x22]) r = Inr es"
proof (induction s arbitrary: a rule: measure_induct_rule [where f = length])
  case (less s)
  show ?case
  proof (cases s)
    case Nil with less.prems show ?thesis by simp
  next
    case c: (Cons c cs)
    consider "c = CHR 0x22" | "c = CHR 0x5C" | "c \<noteq> CHR 0x22" "c \<noteq> CHR 0x5C" by blast
    then show ?thesis
    proof cases
      case 1
      with less.prems c show ?thesis by (intro exI [of _ "[]"] exI [of _ cs]) (auto intro: quoted_empty)
    next
      case 2
      then obtain x t where t: "cs = x # t" using less.prems c by (cases cs) auto
      with less.prems c 2 have "split_scan True False d (a @ [c, x]) t = Inr es" by simp
      from less.IH [OF _ this] t c obtain u r where "quoted_body u" "t = u @ CHR 0x22 # r"
        "split_scan False False d ((a @ [c, x]) @ u @ [CHR 0x22]) r = Inr es" by auto
      then show ?thesis using c t 2
        by (intro exI [of _ "CHR 0x5C # x # u"] exI [of _ r]) (simp_all add: quoted_escape)
    next
      case 3
      with less.prems c have "split_scan True False d (a @ [c]) cs = Inr es" by simp
      from less.IH [OF _ this] c obtain u r where "quoted_body u" "cs = u @ CHR 0x22 # r"
        "split_scan False False d ((a @ [c]) @ u @ [CHR 0x22]) r = Inr es" by auto
      then show ?thesis using c 3
        by (intro exI [of _ "c # u"] exI [of _ r]) (simp_all add: quoted_char)
    qed
  qed
qed

text \<open>What a successful scan has read: a balanced text up to the end of its group, entry or input.\<close>

definition reached :: "nat \<Rightarrow> string \<Rightarrow> string list \<Rightarrow> string \<Rightarrow> bool" where
  "reached d w es r \<longleftrightarrow>
     (if d = 0 then r = [] \<and> es = [w] \<or> (\<exists>t fs. r = CHR '','' # t \<and> es = w # fs
          \<and> split_scan False False 0 [] t = Inr fs)
      else \<exists>t. r = CHR '')'' # t \<and> split_scan False False (d - 1) (w @ [CHR '')'']) t = Inr es)"

lemma split_balanced_back:
  assumes "split_scan False False d a s = Inr es"
  shows "\<exists>u r. balanced (0 < d) u \<and> s = u @ r \<and> reached d (a @ u) es r"
  using assms
proof (induction s arbitrary: d a rule: measure_induct_rule [where f = length])
  case (less s)
  have step: "\<exists>u r. balanced (0 < d) u \<and> s = u @ r \<and> reached d (a @ u) es r"
    if "s = p @ t" "p \<noteq> []" "split_scan False False d (a @ p) t = Inr es"
      "\<And>u. balanced (0 < d) u \<Longrightarrow> balanced (0 < d) (p @ u)" for p t
  proof -
    from that(1,2) have "length t < length s" by simp
    from less.IH [OF this that(3)] obtain u r where
      "balanced (0 < d) u" "t = u @ r" "reached d ((a @ p) @ u) es r" by blast
    then show ?thesis using that(1,4) by (intro exI [of _ "p @ u"] exI [of _ r]) simp
  qed
  have stop: "\<exists>u r. balanced (0 < d) u \<and> s = u @ r \<and> reached d (a @ u) es r" if "reached d a es s"
    using that by (intro exI [of _ "[]"] exI [of _ s]) (simp add: balanced_empty)
  show ?case
  proof (cases s)
    case Nil
    with less.prems show ?thesis by (intro stop) (auto simp: reached_def split: if_splits)
  next
    case c: (Cons c cs)
    consider "c = CHR 0x22" | "c = CHR ''(''" | "c = CHR '')''" | "c = CHR '',''" "d = 0"
      | "plain_char c" "c = CHR '','' \<longrightarrow> 0 < d" by (auto simp: plain_char_def)
    then show ?thesis
    proof cases
      case 1
      with less.prems c have "split_scan True False d (a @ [c]) cs = Inr es" by simp
      from split_quoted_back [OF this] obtain u r where ur: "quoted_body u" "cs = u @ CHR 0x22 # r"
        "split_scan False False d (a @ [c] @ u @ [CHR 0x22]) r = Inr es" by auto
      then show ?thesis using c 1
        by (intro step [of "c # u @ [CHR 0x22]" r]) (simp_all add: balanced_quote)
    next
      case 2
      with less.prems c have "split_scan False False (Suc d) (a @ [c]) cs = Inr es" by simp
      from less.IH [OF _ this] c obtain u t where ut: "balanced True u" "cs = u @ CHR '')'' # t"
        "split_scan False False d (a @ [c] @ u @ [CHR '')'']) t = Inr es" by (auto simp: reached_def)
      then show ?thesis using c 2
        by (intro step [of "c # u @ [CHR '')'']" t]) (simp_all add: balanced_group)
    next
      case 3
      with less.prems c show ?thesis by (intro stop) (auto simp: reached_def split: if_splits)
    next
      case 4
      with less.prems c show ?thesis
        by (intro stop) (cases "split_scan False False 0 [] cs"; auto simp: reached_def)
    next
      case 5
      with less.prems c have "split_scan False False d (a @ [c]) cs = Inr es"
        by (auto simp: plain_char_def)
      then show ?thesis using c 5
        by (intro step [of "[c]" cs]) (auto intro: balanced_char)
    qed
  qed
qed

lemma split_scan_iff:
  "split_scan False False 0 [] s = Inr es
    \<longleftrightarrow> es \<noteq> [] \<and> join_commas es = s \<and> (\<forall>e\<in>set es. balanced False e)"
proof
  assume "split_scan False False 0 [] s = Inr es"
  then show "es \<noteq> [] \<and> join_commas es = s \<and> (\<forall>e\<in>set es. balanced False e)"
  proof (induction s arbitrary: es rule: measure_induct_rule [where f = length])
    case (less s)
    from split_balanced_back [OF less.prems] obtain u r where u: "balanced False u" "s = u @ r"
      and r: "r = [] \<and> es = [u] \<or> (\<exists>t fs. r = CHR '','' # t \<and> es = u # fs \<and> split_scan False False 0 [] t = Inr fs)"
      by (auto simp: reached_def)
    from r show ?case
    proof (elim disjE exE conjE)
      fix t fs
      assume t: "r = CHR '','' # t" "es = u # fs" "split_scan False False 0 [] t = Inr fs"
      with u less.IH [OF _ t(3)] have "fs \<noteq> []" "join_commas fs = t" "\<forall>e\<in>set fs. balanced False e" by auto
      then show ?thesis using t u by (cases fs) auto
    qed (use u in auto)
  qed
next
  assume "es \<noteq> [] \<and> join_commas es = s \<and> (\<forall>e\<in>set es. balanced False e)"
  then show "split_scan False False 0 [] s = Inr es"
  proof (induction es arbitrary: s rule: join_commas.induct)
    case (2 e)
    then show ?case using split_balanced [of False e 0 "[]" "[]"] by auto
  next
    case (3 e f fs)
    then show ?case using split_balanced [of False e 0 "[]" "CHR '','' # join_commas (f # fs)"] by auto
  qed simp
qed

lemma balanced_append: "balanced b u \<Longrightarrow> balanced b v \<Longrightarrow> balanced b (u @ v)"
  by (induction b u rule: balanced.induct) (simp_all add: balanced.intros)

lemma balanced_weaken: "balanced b u \<Longrightarrow> balanced True u"
  by (induction b u rule: balanced.induct) (simp_all add: balanced.intros)

lemma balanced_join: "\<forall>e\<in>set es. balanced False e \<Longrightarrow> balanced True (join_commas es)"
proof (induction es rule: join_commas.induct)
  case (3 e f fs)
  then show ?case
    by (auto intro!: balanced_append balanced_char simp: balanced_weaken plain_char_def)
qed (auto intro: balanced_empty balanced_weaken)

lemma balanced_scans:
  assumes "balanced True u"
  shows "\<exists>es. split_scan False False 0 a u = Inr es"
proof -
  have "b \<Longrightarrow> \<exists>es. split_scan False False 0 a u = Inr es" if "balanced b u" for b u a
    using that
  proof (induction b u arbitrary: a rule: balanced.induct)
    case (balanced_char c b s)
    then obtain fs gs where "split_scan False False 0 (a @ [c]) s = Inr fs" "split_scan False False 0 [] s = Inr gs"
      by blast
    with balanced_char.hyps show ?case by (auto simp: plain_char_def)
  next
    case (balanced_quote u b s)
    then show ?case by (simp add: split_quoted)
  next
    case (balanced_group u b s)
    then show ?case by (simp add: split_balanced [where b = True])
  qed auto
  with assms show ?thesis by blast
qed

text \<open>
  C29: splitting the settings at their commas is exactly the grammar's reading. A text splits into entries
  if and only if they are the texts, balanced and with no comma outside of parentheses and quotes, that
  joined by commas give it back, so the reading is unique; and it is refused if and only if it is not
  balanced.
\<close>

theorem split_entries_grammar:
  "(split_entries inner = Inr es
    \<longleftrightarrow> (if inner = [] then es = []
         else es \<noteq> [] \<and> join_commas es = inner \<and> (\<forall>e\<in>set es. balanced False e)))
   \<and> ((\<exists>x. split_entries inner = Inl x) \<longleftrightarrow> \<not> balanced True inner)"
proof
  show "split_entries inner = Inr es
    \<longleftrightarrow> (if inner = [] then es = []
         else es \<noteq> [] \<and> join_commas es = inner \<and> (\<forall>e\<in>set es. balanced False e))"
    by (auto simp: split_entries_def split_scan_iff)
  have "balanced True inner" if "split_entries inner = Inr es" for es
    using that balanced_join [of es] by (auto simp: split_entries_def split_scan_iff balanced_empty split: if_splits)
  moreover have "\<exists>es. split_entries inner = Inr es" if "balanced True inner"
    using balanced_scans [OF that] by (auto simp: split_entries_def)
  ultimately show "(\<exists>x. split_entries inner = Inl x) \<longleftrightarrow> \<not> balanced True inner"
    by (cases "split_entries inner") auto
qed

theorem split_entries_grammar_witness:
  "split_entries ''A,B=(1,2)'' = Inr [''A'', ''B=(1,2)''] \<and> balanced False ''A'' \<and> balanced False ''B=(1,2)''"
proof -
  have "split_entries ''A,B=(1,2)'' = Inr [''A'', ''B=(1,2)'']" by code_simp
  with split_entries_grammar [of "''A,B=(1,2)''" "[''A'', ''B=(1,2)'']"] show ?thesis by simp
qed

section \<open>Where the scanners stop\<close>

lemma find_closing_quoted:
  "quoted_body u \<Longrightarrow> find_closing True False d i (u @ CHR 0x22 # s)
    = find_closing False False d (i + length u + 1) s"
  by (induction u arbitrary: i rule: quoted_body.induct) auto

lemma find_closing_balanced:
  "balanced b u \<Longrightarrow> 1 \<le> d \<Longrightarrow> find_closing False False d i (u @ s) = find_closing False False d (i + length u) s"
proof (induction b u arbitrary: d i s rule: balanced.induct)
  case (balanced_group u b t)
  then show ?case using balanced_group.IH(1) [of "d + 1"] by (simp add: ac_simps)
qed (auto simp: plain_char_def find_closing_quoted ac_simps)

lemma find_closing_group:
  assumes "balanced True u"
  shows "find_closing_parenthesis (a @ CHR ''('' # u @ CHR '')'' # s) (length a) = Inr (length a + length u + 1)"
  using find_closing_balanced [OF assms, of 1 "Suc (length a)" "CHR '')'' # s"]
  by (simp add: find_closing_parenthesis_def)

lemma find_closing_bounds:
  "find_closing q e d i s = Some k \<Longrightarrow> i \<le> k \<and> k < i + length s \<and> s ! (k - i) = CHR '')''"
proof (induction q e d i s rule: find_closing.induct)
  case (2 q e d i c cs)
  have "Suc i \<le> k \<and> k < Suc i + length cs \<and> cs ! (k - Suc i) = CHR '')''
      \<Longrightarrow> i \<le> k \<and> k < i + length (c # cs) \<and> (c # cs) ! (k - i) = CHR '')''"
    by (auto simp: nth_Cons' Suc_diff_le)
  with 2 show ?case by (auto split: if_splits)
qed simp

lemma equal_quoted:
  "quoted_body u \<Longrightarrow> equal_scan True False d i (u @ CHR 0x22 # s) = equal_scan False False d (i + length u + 1) s"
  by (induction u arbitrary: i rule: quoted_body.induct) auto

lemma equal_inside:
  "balanced b u \<Longrightarrow> 1 \<le> d \<Longrightarrow> equal_scan False False d i (u @ s) = equal_scan False False d (i + length u) s"
proof (induction b u arbitrary: d i s rule: balanced.induct)
  case (balanced_group u b t)
  then show ?case using balanced_group.IH(1) [of "d + 1"] by (simp add: ac_simps)
qed (auto simp: plain_char_def equal_quoted ac_simps)

text \<open>The first equals sign outside of parentheses splits a balanced text into two.\<close>

lemma equal_balanced:
  assumes "balanced b s" "equal_scan False False 0 i s = Some k"
  shows "\<exists>u t. s = u @ CHR ''='' # t \<and> k = i + length u \<and> balanced b u \<and> balanced b t
    \<and> (\<forall>t'. equal_scan False False 0 i (u @ CHR ''='' # t') = Some k)"
  using assms
proof (induction b s arbitrary: i rule: balanced.induct)
  case (balanced_char c b s)
  show ?case
  proof (cases "c = CHR ''=''")
    case True
    with balanced_char show ?thesis by (intro exI [of _ "[]"] exI [of _ s]) (simp add: balanced_empty)
  next
    case False
    with balanced_char.prems balanced_char.hyps have "equal_scan False False 0 (Suc i) s = Some k"
      by (auto simp: plain_char_def)
    from balanced_char.IH [OF this] obtain u t where "s = u @ CHR ''='' # t" "k = Suc i + length u" "balanced b u"
      "balanced b t" "\<forall>t'. equal_scan False False 0 (Suc i) (u @ CHR ''='' # t') = Some k" by blast
    with False balanced_char.hyps show ?thesis
      by (intro exI [of _ "c # u"] exI [of _ t]) (auto simp: plain_char_def intro: balanced.balanced_char)
  qed
next
  case (balanced_quote v b s)
  then have "equal_scan False False 0 (i + length v + 2) s = Some k" by (simp add: equal_quoted)
  from balanced_quote.IH [OF this] obtain u t where "s = u @ CHR ''='' # t" "k = i + length v + 2 + length u"
    "balanced b u" "balanced b t" "\<forall>t'. equal_scan False False 0 (i + length v + 2) (u @ CHR ''='' # t') = Some k"
    by blast
  with balanced_quote.hyps show ?case
    by (intro exI [of _ "CHR 0x22 # v @ CHR 0x22 # u"] exI [of _ t])
      (simp add: equal_quoted balanced.balanced_quote)
next
  case (balanced_group v b s)
  then have "equal_scan False False 0 (i + length v + 2) s = Some k" by (simp add: equal_inside)
  from balanced_group.IH(2) [OF this] obtain u t where "s = u @ CHR ''='' # t" "k = i + length v + 2 + length u"
    "balanced b u" "balanced b t" "\<forall>t'. equal_scan False False 0 (i + length v + 2) (u @ CHR ''='' # t') = Some k"
    by blast
  with balanced_group.hyps show ?case
    by (intro exI [of _ "CHR ''('' # v @ CHR '')'' # u"] exI [of _ t])
      (simp add: equal_inside balanced.balanced_group)
qed simp

section \<open>Replacing the value of an entry\<close>

definition trimmed :: "string \<Rightarrow> bool" where
  "trimmed v \<longleftrightarrow> v = [] \<or> (\<not> is_space (hd v) \<and> \<not> is_space (last v))"

lemma strip_padded:
  assumes "list_all is_space w1" "list_all is_space w2" "trimmed v"
  shows "lstrip (w1 @ v @ w2) = (if v = [] then [] else v @ w2)"
    and "rstrip (w1 @ v @ w2) = (if v = [] then [] else w1 @ v)"
    and "strip (w1 @ v @ w2) = v"
proof -
  have dw: "dropWhile is_space (w @ s) = (if list_all is_space s then [] else dropWhile is_space s)"
    if "list_all is_space w" for w s
    using that by (induction w) (auto simp: dropWhile_eq_Nil_conv list_all_iff)
  have head: "dropWhile is_space (v @ w2) = (if v = [] then [] else v @ w2)"
    using assms(2,3) by (cases v) (auto simp: trimmed_def dropWhile_eq_Nil_conv list_all_iff)
  show l: "lstrip (w1 @ v @ w2) = (if v = [] then [] else v @ w2)"
    unfolding lstrip_def dw [OF assms(1)] head using assms(2,3)
    by (cases v) (auto simp: trimmed_def)
  have r: "rstrip (w @ v @ w2) = (if v = [] then [] else w @ v)" if "list_all is_space w" for w
  proof (cases "v = []")
    case True
    then show ?thesis using that assms(2) by (auto simp: rstrip_def dropWhile_eq_Nil_conv list_all_iff)
  next
    case False
    then obtain v' x where v: "v = v' @ [x]" by (cases v rule: rev_cases) auto
    with assms(3) have "\<not> is_space x" by (simp add: trimmed_def)
    then have "dropWhile is_space (rev (w @ v @ w2)) = rev (w @ v)"
      using assms(2) v by (simp add: dw list_all_iff)
    with False show ?thesis by (simp add: rstrip_def)
  qed
  show "rstrip (w1 @ v @ w2) = (if v = [] then [] else w1 @ v)" by (rule r [OF assms(1)])
  have "rstrip [] = []" by (simp add: rstrip_def)
  then show "strip (w1 @ v @ w2) = v" unfolding strip_def l using r [of "[]"] by simp
qed

lemma strip_split:
  obtains w1 w2 where "t = w1 @ strip t @ w2" "list_all is_space w1" "list_all is_space w2" "trimmed (strip t)"
proof -
  let ?v = "dropWhile is_space t"
  let ?r = "dropWhile is_space (rev ?v)"
  have t: "t = takeWhile is_space t @ rev ?r @ rev (takeWhile is_space (rev ?v))"
    using takeWhile_dropWhile_id [of is_space t] takeWhile_dropWhile_id [of is_space "rev ?v"]
    by (metis rev_append rev_rev_ident)
  have "\<not> is_space (hd ?r)" if "?r \<noteq> []" using that hd_dropWhile by blast
  moreover have "\<not> is_space (last ?r)" if "?r \<noteq> []"
  proof -
    have "last ?r = last (rev ?v)"
      using that by (metis last_appendR takeWhile_dropWhile_id)
    moreover have "?v \<noteq> []"
    proof
      assume "?v = []"
      then have "?r = []" by (simp only: rev.simps dropWhile.simps)
      with that show False by contradiction
    qed
    ultimately show ?thesis using hd_dropWhile [of is_space t] by (simp add: last_rev)
  qed
  ultimately have "trimmed (rev ?r)" by (auto simp: trimmed_def hd_rev last_rev)
  moreover have "list_all is_space (takeWhile is_space s)" for s
    by (simp add: list_all_iff) (meson set_takeWhileD)
  moreover have "strip t = rev ?r" by (simp add: strip_def lstrip_def rstrip_def)
  ultimately show thesis using that [of "takeWhile is_space t" "rev (takeWhile is_space (rev ?v))"] t
    by (metis list_all_iff set_rev)
qed

lemma trimmed_strip [simp]: "trimmed (strip t)"
  by (rule strip_split [of t])

lemma strip_id [simp]: "trimmed v \<Longrightarrow> strip v = v"
  using strip_padded(3) [of "[]" "[]" v] by simp

lemma space_plain: "is_space c \<Longrightarrow> plain_char c \<and> c \<noteq> CHR '','' \<and> c \<noteq> CHR ''=''"
  by (auto simp: is_space_def plain_char_def code_def Let_def)

lemma balanced_spaces: "list_all is_space w \<Longrightarrow> balanced b w"
  by (induction w) (auto intro: balanced_empty balanced_char dest: space_plain)

inductive_cases balanced_consE: "balanced b (c # s)"

lemma balanced_drop_spaces: "list_all is_space w \<Longrightarrow> balanced b (w @ s) \<Longrightarrow> balanced b s"
  by (induction w) (auto elim!: balanced_consE dest: space_plain simp: plain_char_def)

lemma balanced_drop_last:
  "balanced b t \<Longrightarrow> t = s @ [c] \<Longrightarrow> plain_char c \<Longrightarrow> balanced b s"
proof (induction b t arbitrary: s rule: balanced.induct)
  case (balanced_char x b t)
  then show ?case by (cases s) (simp_all add: balanced_empty balanced.balanced_char)
next
  case (balanced_quote u b t)
  show ?case
  proof (cases t rule: rev_cases)
    case Nil
    with balanced_quote.prems(1) have "last (s @ [c]) = last ((CHR 0x22 # u) @ [CHR 0x22])" by simp
    with balanced_quote.prems(2) show ?thesis unfolding last_snoc by (simp add: plain_char_def)
  next
    case (snoc t' x)
    with balanced_quote.prems(1) have "(CHR 0x22 # u @ CHR 0x22 # t') @ [x] = s @ [c]" by simp
    then have "x = c" and s: "s = CHR 0x22 # u @ CHR 0x22 # t'" unfolding append1_eq_conv by simp_all
    with snoc balanced_quote.IH balanced_quote.prems have "balanced b t'" by simp
    with balanced_quote.hyps s show ?thesis by (simp add: balanced.balanced_quote)
  qed
next
  case (balanced_group u b t)
  show ?case
  proof (cases t rule: rev_cases)
    case Nil
    with balanced_group.prems(1) have "last (s @ [c]) = last ((CHR ''('' # u) @ [CHR '')''])" by simp
    with balanced_group.prems(2) show ?thesis unfolding last_snoc by (simp add: plain_char_def)
  next
    case (snoc t' x)
    with balanced_group.prems(1) have "(CHR ''('' # u @ CHR '')'' # t') @ [x] = s @ [c]" by simp
    then have "x = c" and s: "s = CHR ''('' # u @ CHR '')'' # t'" unfolding append1_eq_conv by simp_all
    with snoc balanced_group.IH balanced_group.prems have "balanced b t'" by simp
    with balanced_group.hyps s show ?thesis by (simp add: balanced.balanced_group)
  qed
qed simp

lemma balanced_drop_trailing: "list_all is_space w \<Longrightarrow> balanced b (s @ w) \<Longrightarrow> balanced b s"
proof (induction w rule: rev_induct)
  case (snoc c w)
  from snoc.prems space_plain [of c] have "list_all is_space w" "plain_char c" "balanced b ((s @ w) @ [c])"
    by simp_all
  then show ?case using snoc.IH balanced_drop_last by blast
qed simp

lemma balanced_strip: "balanced b t \<Longrightarrow> balanced b (strip t)"
  by (metis balanced_drop_spaces balanced_drop_trailing append_assoc strip_split)

text \<open>A text that can be the value of an entry.\<close>

definition value_text :: "string \<Rightarrow> bool" where
  "value_text v \<longleftrightarrow> balanced False v \<and> trimmed v"

lemma parse_entry_at:
  assumes "top_level_equal (u @ CHR ''='' # w1 @ v @ w2) = Some (length u)" "key_pattern (strip u)"
    and "list_all is_space w1" "list_all is_space w2" "trimmed v"
  shows "parse_entry (u @ CHR ''='' # w1 @ v @ w2) =
    \<lparr>ie_raw = u @ CHR ''='' # w1 @ v @ w2, ie_key = Some (strip u), ie_value = Some v,
     ie_value_start = Some (length u + 1 + length w1 + (if v = [] then length w2 else 0)),
     ie_value_end = Some (length u + 1 + (if v = [] then 0 else length w1 + length v))\<rparr>"
  using assms(1,2) strip_padded(1,2) [OF assms(3-5)]
  by (auto simp: parse_entry_def Let_def)

lemma parse_entry_Some:
  assumes "balanced False raw" "ie_key (parse_entry raw) = Some k"
  shows "\<exists>u w1 v w2. raw = u @ CHR ''='' # w1 @ v @ w2 \<and> k = strip u \<and> key_pattern k
    \<and> list_all is_space w1 \<and> list_all is_space w2 \<and> value_text v \<and> balanced False u
    \<and> (\<forall>t. top_level_equal (u @ CHR ''='' # t) = Some (length u))"
proof -
  from assms(2) obtain i where i: "top_level_equal raw = Some i"
    by (auto simp: parse_entry_def plain_entry_def split: option.splits)
  with equal_balanced [OF assms(1), of 0 i] obtain u t where ut: "raw = u @ CHR ''='' # t" "i = length u"
    "balanced False u" "balanced False t" "\<And>t'. top_level_equal (u @ CHR ''='' # t') = Some (length u)"
    by (auto simp: top_level_equal_def)
  from i ut(1,2) assms(2) have "key_pattern (strip u)" "k = strip u"
    by (auto simp: parse_entry_def plain_entry_def Let_def split: if_splits)
  moreover obtain w1 w2 where "t = w1 @ strip t @ w2" "list_all is_space w1" "list_all is_space w2"
    "trimmed (strip t)" by (rule strip_split)
  ultimately show ?thesis using ut balanced_strip [OF ut(4)]
    by (intro exI [of _ u] exI [of _ w1] exI [of _ "strip t"] exI [of _ w2]) (simp add: value_text_def)
qed

text \<open>Writing a value into an entry and reading the entry again gives the key and the new value.\<close>

lemma replaced_entry:
  assumes "balanced False raw" "ie_key (parse_entry raw) = Some k" "value_text v"
  shows "\<exists>raw'. replace_value (parse_entry raw) v = Inr raw' \<and> balanced False raw'
    \<and> ie_key (parse_entry raw') = Some k \<and> ie_value (parse_entry raw') = Some v"
proof -
  obtain u w1 w2 v0 where p: "raw = u @ CHR ''='' # w1 @ v0 @ w2" "k = strip u" "key_pattern k"
    "list_all is_space w1" "list_all is_space w2" "value_text v0" "balanced False u"
    "\<And>t. top_level_equal (u @ CHR ''='' # t) = Some (length u)"
    using parse_entry_Some [OF assms(1,2)] by blast
  define w where "w = (if v0 = [] then w1 @ w2 else w1)"
  define w' where "w' = (if v0 = [] then w1 @ w2 else w2)"
  let ?raw = "u @ CHR ''='' # w @ v @ w'"
  have spaces: "list_all is_space w" "list_all is_space w'" using p(4,5) by (simp_all add: w_def w'_def)
  have "replace_value (parse_entry raw) v = Inr ?raw"
    using parse_entry_at [OF p(8) _ p(4,5)] p(1-3,6)
    by (simp add: replace_value_def value_text_def w_def w'_def)
  moreover have "balanced False (w @ v @ w')"
    using assms(3) balanced_spaces [OF spaces(1)] balanced_spaces [OF spaces(2)]
    by (simp add: value_text_def balanced_append)
  then have "balanced False ?raw"
    by (intro balanced_append [OF p(7)] balanced_char) (simp_all add: plain_char_def)
  moreover have "ie_key (parse_entry ?raw) = Some k \<and> ie_value (parse_entry ?raw) = Some v"
    using parse_entry_at [OF p(8) _ spaces] p(2,3) assms(3) by (simp add: value_text_def)
  ultimately show ?thesis by blast
qed

section \<open>The lines a pattern looks at\<close>

text \<open>A match that what follows cannot change, and that ends before it.\<close>

definition settled :: "(string \<Rightarrow> nat option) \<Rightarrow> string \<Rightarrow> bool" where
  "settled m t \<longleftrightarrow> (\<forall>y. m (t @ y) = m t) \<and> (\<forall>n. m t = Some n \<longrightarrow> n \<le> length t)"

lemma finditer_step:
  "s \<noteq> [] \<Longrightarrow> finditer m bol pos s =
     (let k = match_length m bol s in
      if k = 0 then finditer m (hd s = CHR 0x0A) (Suc pos) (tl s)
      else (pos, pos + k) # finditer m (last (take k s) = CHR 0x0A) (pos + k) (drop k s))"
  by (cases s) (simp_all add: Let_def)

lemma finditer_append:
  assumes "\<And>u t. a = u @ t \<Longrightarrow> t \<noteq> [] \<Longrightarrow> (if u = [] then bol else last u = CHR 0x0A) \<Longrightarrow> settled m t"
    and "a = [] \<or> last a \<noteq> CHR 0x0A"
  shows "finditer m bol pos (a @ y) = finditer m bol pos a @ finditer m (bol \<and> a = []) (pos + length a) y"
  using assms
proof (induction a arbitrary: bol pos rule: measure_induct_rule [where f = length])
  case (less a)
  show ?case
  proof (cases a)
    case c: (Cons c cs)
    have rest: "finditer m b (pos + length p) (r @ y)
        = finditer m b (pos + length p) r @ finditer m False (pos + length a) y"
      if r: "a = p @ r" "p \<noteq> []" "b = (last p = CHR 0x0A)" for p r b
    proof -
      have "finditer m b (pos + length p) (r @ y)
          = finditer m b (pos + length p) r @ finditer m (b \<and> r = []) (pos + length p + length r) y"
      proof (rule less.IH)
        fix u t assume "r = u @ t" "t \<noteq> []" "if u = [] then b else last u = CHR 0x0A"
        with r show "settled m t" by (intro less.prems(1) [of "p @ u" t]) (auto split: if_splits)
      qed (use r less.prems(2) in auto)
      moreover have "\<not> (b \<and> r = [])" using r less.prems(2) by auto
      ultimately show ?thesis using r(1) by (simp add: add.assoc)
    qed
    have same: "match_length m bol (a @ y) = match_length m bol a" "match_length m bol a \<le> length a"
      using less.prems(1) [of "[]" a] c by (auto simp: match_length_def settled_def split: option.splits)
    show ?thesis
    proof (cases "match_length m bol a = 0")
      case True
      then show ?thesis using same rest [of "[c]" cs "c = CHR 0x0A"] by (simp add: c)
    next
      case False
      let ?k = "match_length m bol a"
      from c have "a \<noteq> []" by simp
      then show ?thesis
        using False same rest [of "take ?k a" "drop ?k a" "last (take ?k a) = CHR 0x0A"]
        by (simp add: finditer_step Let_def)
    qed
  qed simp
qed

lemma finditer_skip:
  "CHR 0x0A \<notin> set x \<Longrightarrow> finditer m False pos (x @ y) = finditer m False (pos + length x) y"
  by (induction x arbitrary: pos) (auto simp: match_length_def)

lemma finditer_shift: "finditer m bol (pos + k) s = List.map (\<lambda>(i, j). (i + k, j + k)) (finditer m bol pos s)"
proof (induction m bol pos s rule: finditer.induct)
  case (2 m bol pos c cs)
  show ?case
    using 2 by (cases "match_length m bol (c # cs) = 0") (simp_all add: ac_simps del: take_Cons' drop_Cons')
qed simp

definition found :: "(string \<Rightarrow> nat option) \<Rightarrow> bool \<Rightarrow> nat \<Rightarrow> string \<Rightarrow> nat \<Rightarrow> nat \<Rightarrow> bool" where
  "found m bol pos s i j \<longleftrightarrow>
     (\<exists>u t. s = u @ t \<and> t \<noteq> [] \<and> i = pos + length u \<and> m t = Some (j - i) \<and> i < j
       \<and> (if u = [] then bol else last u = CHR 0x0A))"

lemma found_later: "found m (last p = CHR 0x0A) (pos + length p) r i j \<Longrightarrow> p \<noteq> [] \<Longrightarrow> found m bol pos (p @ r) i j"
  unfolding found_def by (elim exE conjE, rule_tac x = "p @ u" in exI, rule_tac x = t in exI) (auto split: if_splits)

lemma finditer_match: "(i, j) \<in> set (finditer m bol pos s) \<Longrightarrow> found m bol pos s i j"
proof (induction m bol pos s rule: finditer.induct)
  case (2 m bol pos c cs)
  let ?k = "match_length m bol (c # cs)"
  show ?case
  proof (cases "?k = 0")
    case True
    with 2(1,3) show ?thesis using found_later [of m "[c]" pos cs i j bol] by simp
  next
    case False
    with 2(3) consider "i = pos" "j = pos + ?k"
      | "(i, j) \<in> set (finditer m (last (take ?k (c # cs)) = CHR 0x0A) (pos + ?k) (drop ?k (c # cs)))"
      by auto
    then show ?thesis
    proof cases
      case 1
      with False show ?thesis unfolding found_def
        by (intro exI [of _ "[]"] exI [of _ "c # cs"]) (auto simp: match_length_def split: if_splits option.splits)
    next
      case 2
      then have "drop ?k (c # cs) \<noteq> []" by (metis empty_iff empty_set finditer.simps(1))
      then have "pos + ?k = pos + length (take ?k (c # cs))" by simp
      then show ?thesis using False "2.IH"(2) [OF False 2] found_later [of m "take ?k (c # cs)" pos "drop ?k (c # cs)" i j bol]
        by (simp only: append_take_drop_id) simp
    qed
  qed
qed simp

lemma finditer_start: "(i, j) \<in> set (finditer m bol pos s) \<Longrightarrow> i < pos + length s"
  using finditer_match [of i j m bol pos s] by (auto simp: found_def)

text \<open>The header of the settings ends with a parenthesis, which no pattern goes past.\<close>

lemma dropWhile_open:
  assumes "t \<noteq> []" "last t = CHR ''(''" "\<not> P (CHR ''('')"
  shows "dropWhile P (t @ y) = dropWhile P t @ y" "dropWhile P t \<noteq> []" "last (dropWhile P t) = CHR ''(''"
proof -
  have "CHR ''('' \<in> set t" using assms(1,2) last_in_set by metis
  with assms(3) show "dropWhile P (t @ y) = dropWhile P t @ y" by (rule dropWhile_append1 [rotated])
  from \<open>CHR ''('' \<in> set t\<close> assms(3) show "dropWhile P t \<noteq> []" by (auto simp: dropWhile_eq_Nil_conv)
  with assms(2) show "last (dropWhile P t) = CHR ''(''" by (metis last_appendR takeWhile_dropWhile_id)
qed

lemma starts_with_open:
  "r \<noteq> [] \<Longrightarrow> last r = CHR ''('' \<Longrightarrow> CHR ''('' \<notin> set q
    \<Longrightarrow> starts_with (r @ y) q = starts_with r q \<and> (starts_with r q \<longrightarrow> length q < length r)"
proof (induction r q rule: starts_with.induct)
  case (3 c cs a ps)
  show ?case
  proof (cases "cs = []")
    case False
    with 3 show ?thesis by auto
  qed (use 3 in \<open>cases ps; auto\<close>)
qed auto

lemma to_line_end_open:
  assumes "s \<noteq> []" "last s = CHR ''(''"
  shows "to_line_end (s @ y) = to_line_end s"
proof -
  have "\<not> is_space CHR ''(''" by code_simp
  moreover have "CHR ''('' \<in> set s" using assms last_in_set by metis
  ultimately have "\<not> (\<forall>c\<in>set s. is_space c)" "\<not> (\<forall>c\<in>set (s @ y). is_space c)" by auto
  then have n: "takeWhile is_space s \<noteq> s" "takeWhile is_space (s @ y) \<noteq> s @ y"
    unfolding takeWhile_eq_all_conv .
  have t: "takeWhile is_space (s @ y) = takeWhile is_space s"
    using \<open>\<not> is_space CHR ''(''\<close> \<open>CHR ''('' \<in> set s\<close> by (rule takeWhile_append1 [rotated])
  show ?thesis unfolding to_line_end_def Let_def t if_not_P [OF n(1)] if_not_P [OF n(2) [unfolded t]] by (rule refl)
qed

lemma to_line_end_bound:
  assumes "to_line_end s = Some n"
  shows "n \<le> length s \<and> (n < length s \<longrightarrow> s ! n = CHR 0x0A)"
proof (cases "takeWhile is_space s = s")
  case True
  with assms show ?thesis by (simp add: to_line_end_def)
next
  case False
  let ?w = "takeWhile is_space s"
  from False assms have nl: "CHR 0x0A \<in> set ?w" and n: "n = length ?w - 1 - length (takeWhile (\<lambda>c. c \<noteq> CHR 0x0A) (rev ?w))"
    by (auto simp: to_line_end_def Let_def split: if_splits)
  from split_list_last [OF nl] obtain a b where w: "?w = a @ CHR 0x0A # b" "CHR 0x0A \<notin> set b" by blast
  have "takeWhile (\<lambda>c. c \<noteq> CHR 0x0A) (rev b @ CHR 0x0A # rev a) = rev b"
    using w(2) by (simp add: takeWhile_append)
  then have "takeWhile (\<lambda>c. c \<noteq> CHR 0x0A) (rev ?w) = rev b" unfolding w(1) by simp
  with n w have "n = length a" by simp
  moreover have "s = a @ CHR 0x0A # b @ dropWhile is_space s"
    using takeWhile_dropWhile_id [of is_space s] w by (metis append.assoc append_Cons)
  ultimately show ?thesis by (metis le_add1 length_append nth_append_length)
qed

lemma lstrip_open:
  assumes "t \<noteq> []" "last t = CHR ''(''"
  shows "lstrip (t @ y) = lstrip t @ y" "lstrip t \<noteq> []" "last (lstrip t) = CHR ''(''"
proof -
  have "\<not> is_space CHR ''(''" by code_simp
  from dropWhile_open [where P = is_space, OF assms this] show "lstrip (t @ y) = lstrip t @ y" "lstrip t \<noteq> []" "last (lstrip t) = CHR ''(''"
    by (simp_all add: lstrip_def)
qed

lemma settled_section:
  assumes "t \<noteq> []" "last t = CHR ''(''"
  shows "settled section_pattern t"
proof -
  let ?h = "''['' @ SECTION_NAME @ '']''"
  note l = lstrip_open [OF assms]
  have "CHR ''('' \<notin> set ?h" by (simp add: SECTION_NAME_def)
  note sw = starts_with_open [OF l(2,3) this]
  have d: "to_line_end (drop (length ?h) (lstrip t @ y)) = to_line_end (drop (length ?h) (lstrip t))"
    if "starts_with (lstrip t) ?h" for y
    using to_line_end_open [of "drop (length ?h) (lstrip t)" y] sw [of y] that l(2,3)
    by (simp add: last_drop not_le del: length_append)
  have "section_pattern (t @ y) = section_pattern t" for y
    using sw [of y] d [of y] by (simp add: section_pattern_def l(1) Let_def)
  moreover have "n \<le> length t" if "section_pattern t = Some n" for n
    using that to_line_end_bound [of "drop (length ?h) (lstrip t)"] sw [of "[]"] length_lstrip_le [of t]
    by (auto simp: section_pattern_def Let_def split: if_splits)
  ultimately show ?thesis by (auto simp: settled_def)
qed

lemma blank_open: "\<not> blank CHR ''(''" by (simp add: blank_def)

lemma after_opening_open:
  assumes "t \<noteq> []" "last t = CHR ''(''"
  shows "after_opening (t @ y) = map_option (\<lambda>v. v @ y) (after_opening t)"
proof -
  note v = dropWhile_open [where P = blank, OF assms blank_open]
  obtain c s where cs: "dropWhile blank t = c # s" using v(2) by (cases "dropWhile blank t") auto
  show ?thesis
  proof (cases "c = CHR ''=''")
    case False
    then show ?thesis by (simp add: after_opening_def v(1) cs split: list.split)
  next
    case eq: True
    with cs v(3) have s: "s \<noteq> []" "last s = CHR ''(''" by (auto split: if_splits)
    note u = dropWhile_open [where P = blank, OF s blank_open]
    then obtain d z where "dropWhile blank s = d # z" by (cases "dropWhile blank s") auto
    then show ?thesis by (simp add: after_opening_def v(1) cs u(1))
  qed
qed

lemma settled_option:
  assumes "t \<noteq> []" "last t = CHR ''(''"
  shows "settled option_pattern t"
proof -
  let ?h = "''OptionSettings''"
  note w = dropWhile_open [where P = blank, OF assms blank_open]
  let ?r = "dropWhile blank t"
  have "CHR ''('' \<notin> set ?h" by simp
  note sw = starts_with_open [OF w(2,3) this]
  have "option_pattern (t @ y) = option_pattern t" for y
  proof (cases "starts_with ?r ?h")
    case True
    define k where "k = length ?h"
    with True sw [of y] have "k < length ?r" by (simp only:)
    then have "after_opening (drop k (?r @ y)) = map_option (\<lambda>v. v @ y) (after_opening (drop k ?r))"
      using after_opening_open [of "drop k ?r" y] w(2,3) by (simp add: last_drop)
    with True sw [of y] show ?thesis unfolding option_pattern_def Let_def w(1) k_def
      by (simp only: if_True option.map_comp o_def length_append) (simp add: option.map_comp o_def)
  next
    case False
    then show ?thesis using sw [of y] unfolding option_pattern_def Let_def w(1) by (simp only: if_False)
  qed
  moreover have "n \<le> length t" if "option_pattern t = Some n" for n
    using that by (auto simp: option_pattern_def Let_def split: if_splits)
  ultimately show ?thesis by (auto simp: settled_def)
qed

text \<open>The line of the settings: it has no bracket, so the search for the next section stops before it.\<close>

definition settings_line :: "string \<Rightarrow> bool" where
  "settings_line h \<longleftrightarrow> h \<noteq> [] \<and> last h = CHR ''('' \<and> CHR 0x0A \<notin> set h \<and> CHR ''['' \<notin> set h"

lemma settled_next:
  assumes "settings_line h" "t = t' @ h" "t' = [] \<or> last t' = CHR 0x0A"
  shows "settled next_section_pattern t"
proof -
  from assms(1,2) have t: "t \<noteq> []" "last t = CHR ''(''" by (auto simp: settings_line_def)
  note l = lstrip_open [OF t]
  obtain c z where r: "lstrip t = c # z" using l(2) by (cases "lstrip t") auto
  show ?thesis
  proof (cases "c = CHR ''[''")
    case False
    with r show ?thesis by (simp add: settled_def next_section_pattern_def l(1))
  next
    case True
    with l(3) r have z: "z \<noteq> []" "last z = CHR ''(''" by (auto split: if_splits)
    have "CHR 0x0A \<in> set z"
    proof -
      have "takeWhile is_space t @ CHR ''['' # z = t' @ h"
        using lstrip_append_takeWhile [of t] r True assms(2) by simp
      then obtain us where "takeWhile is_space t = t' @ us \<and> us @ CHR ''['' # z = h
          \<or> takeWhile is_space t @ us = t' \<and> CHR ''['' # z = us @ h"
        by (auto simp: append_eq_append_conv2)
      with assms(1) have us: "takeWhile is_space t @ us = t'" "CHR ''['' # z = us @ h"
        by (auto simp: settings_line_def)
      with assms(1) obtain us' where us': "us = CHR ''['' # us'" "z = us' @ h"
        by (cases us) (auto simp: settings_line_def)
      with us(1) assms(3) have "last (CHR ''['' # us') = CHR 0x0A" by auto
      then have "us' \<noteq> []" "last us' = CHR 0x0A" by (auto split: if_splits)
      then show ?thesis using us'(2) last_in_set [of us'] by simp
    qed
    then have name: "takeWhile name_char (z @ y) = takeWhile name_char z" for y
      by (rule takeWhile_append1 [of "CHR 0x0A"]) (simp add: name_char_def)
    have le: "length (takeWhile name_char z) \<le> length z" by (rule length_takeWhile_le)
    have "takeWhile name_char z \<noteq> z" using \<open>CHR 0x0A \<in> set z\<close> by (auto simp: takeWhile_eq_all_conv name_char_def)
    then have "drop (length (takeWhile name_char z)) z \<noteq> []"
      by (metis append.right_neutral dropWhile_eq_drop takeWhile_dropWhile_id)
    then obtain d v where v: "drop (length (takeWhile name_char z)) z = d # v"
      by (cases "drop (length (takeWhile name_char z)) z") auto
    have tail: "v \<noteq> [] \<and> last v = CHR ''(''" if "d = CHR '']''"
    proof -
      have "length (takeWhile name_char z) < length z" using v by (metis drop_all list.distinct(1) not_le)
      from last_drop [OF this] have "last (d # v) = CHR ''(''" unfolding v using z(2) by (simp only:)
      with that show ?thesis by (cases v) simp_all
    qed
    have same: "to_line_end (v @ y) = to_line_end v" if "d = CHR '']''" for y
      using to_line_end_open tail [OF that] by blast
    have "next_section_pattern (t @ y) = next_section_pattern t" for y
      using same [of y] le by (simp add: next_section_pattern_def l(1) r True name v Let_def)
    moreover have "n \<le> length t" if n: "next_section_pattern t = Some n" for n
    proof -
      have "length v \<le> length t" using v r length_lstrip_le [of t] by (metis Suc_leD length_Cons length_drop diff_le_self le_trans)
      then show ?thesis using n to_line_end_bound [of v]
        by (auto simp: next_section_pattern_def r True v Let_def split: if_splits)
    qed
    ultimately show ?thesis by (auto simp: settled_def)
  qed
qed

lemma after_opening_Some:
  "after_opening s = Some v \<Longrightarrow> \<exists>h. s = h @ v \<and> settings_line h"
proof -
  assume "after_opening s = Some v"
  then obtain t where t: "dropWhile blank s = CHR ''='' # t" "dropWhile blank t = CHR ''('' # v"
    by (auto simp: after_opening_def split: list.splits if_splits)
  let ?h = "takeWhile blank s @ CHR ''='' # takeWhile blank t @ [CHR ''('']"
  have "s = ?h @ v"
    using takeWhile_dropWhile_id [of blank s] takeWhile_dropWhile_id [of blank t] t by simp
  moreover have "CHR 0x0A \<notin> set (takeWhile blank x)" "CHR ''['' \<notin> set (takeWhile blank x)" for x
    by (auto dest: set_takeWhileD simp: blank_def)
  ultimately show ?thesis by (intro exI [of _ ?h]) (simp add: settings_line_def)
qed

lemma starts_with_drop: "starts_with s p \<Longrightarrow> s = p @ drop (length p) s"
  by (induction s p rule: starts_with.induct) auto

lemma option_pattern_Some:
  assumes "option_pattern s = Some n"
  shows "\<exists>h v. s = h @ v \<and> length h = n \<and> settings_line h"
proof -
  let ?r = "dropWhile blank s"
  from assms have sw: "starts_with ?r ''OptionSettings''"
    by (simp only: option_pattern_def Let_def option.distinct split: if_splits)
  with assms obtain v where v: "after_opening (drop (length ''OptionSettings'') ?r) = Some v" "n = length s - length v"
    by (auto simp only: option_pattern_def Let_def if_True map_option_eq_Some)
  from after_opening_Some [OF v(1)] obtain h where h: "drop (length ''OptionSettings'') ?r = h @ v" "settings_line h"
    by blast
  let ?h = "takeWhile blank s @ ''OptionSettings'' @ h"
  have s: "s = ?h @ v"
    using takeWhile_dropWhile_id [of blank s] starts_with_drop [OF sw] h(1) by (metis append.assoc)
  then have "length s = length ?h + length v" by (metis length_append)
  with v(2) have "length ?h = n" by simp
  moreover have "CHR 0x0A \<notin> set (takeWhile blank s)" "CHR ''['' \<notin> set (takeWhile blank s)"
    by (auto dest: set_takeWhileD simp: blank_def)
  ultimately show ?thesis using h(2) s by (intro exI [of _ ?h] exI [of _ v]) (simp add: settings_line_def)
qed

lemma section_pattern_Some:
  assumes "section_pattern s = Some n"
  shows "n \<le> length s \<and> (n < length s \<longrightarrow> s ! n = CHR 0x0A)"
proof -
  define k where "k = length (''['' @ SECTION_NAME @ '']'')"
  from assms obtain e where e: "to_line_end (drop k (lstrip s)) = Some e" "n = length s - length (lstrip s) + k + e"
    and sw: "starts_with (lstrip s) (''['' @ SECTION_NAME @ '']'')"
    by (auto simp only: section_pattern_def Let_def k_def map_option_eq_Some split: if_splits)
  have k: "k \<le> length (lstrip s)"
    using starts_with_drop [OF sw] unfolding k_def by (metis le_add1 length_append)
  have l: "lstrip s = drop (length s - length (lstrip s)) s"
    using lstrip_append_takeWhile [of s] by (metis add_diff_cancel_right' append_eq_conv_conj length_append)
  from to_line_end_bound [OF e(1)] have "e \<le> length (lstrip s) - k"
    and nl: "e < length (lstrip s) - k \<longrightarrow> lstrip s ! (k + e) = CHR 0x0A" by (simp_all add: k)
  with k e(2) length_lstrip_le [of s] show ?thesis
    by (subst (asm) (2) l) (auto simp: add.assoc)
qed

section \<open>Reading a file again\<close>

definition end_of_section :: "string \<Rightarrow> nat \<Rightarrow> nat" where
  "end_of_section c b = (case search_from next_section_pattern c b of None \<Rightarrow> length c | Some (start, _) \<Rightarrow> start)"

lemma parse_ini_Inr:
  "parse_ini c = Inr p \<longleftrightarrow>
     (\<exists>s b o1 o2 k raws. finditer section_pattern True 0 c = [(s, b)]
       \<and> finditer option_pattern True 0 (drop b (take (end_of_section c b) c)) = [(o1, o2)]
       \<and> find_closing_parenthesis c (b + o2 - 1) = Inr k \<and> k < end_of_section c b
       \<and> split_entries (drop (b + o2 - 1 + 1) (take k c)) = Inr raws
       \<and> p = \<lparr>pi_prefix = take (b + o2 - 1 + 1) c, pi_entries = List.map parse_entry raws, pi_suffix = drop k c\<rparr>)"
  (is "_ \<longleftrightarrow> ?rhs")
proof
  assume "parse_ini c = Inr p"
  then show ?rhs
    unfolding parse_ini_def end_of_section_def [symmetric] Let_def
    by (auto simp: not_le map_sum_def split: list.split_asm prod.split_asm sum.split_asm if_split_asm)
next
  assume ?rhs
  then show "parse_ini c = Inr p"
    unfolding parse_ini_def end_of_section_def [symmetric] Let_def by auto
qed

lemma parse_iniI:
  assumes "finditer section_pattern True 0 c = [(s, b)]"
    and "finditer option_pattern True 0 (drop b (take (end_of_section c b) c)) = [(o1, o2)]"
    and "find_closing_parenthesis c (b + o2 - 1) = Inr k" "k < end_of_section c b"
    and "split_entries (drop (b + o2 - 1 + 1) (take k c)) = Inr raws"
  shows "parse_ini c = Inr \<lparr>pi_prefix = take (b + o2 - 1 + 1) c, pi_entries = List.map parse_entry raws,
    pi_suffix = drop k c\<rparr>"
  unfolding parse_ini_Inr using assms by (intro exI conjI) (assumption | rule refl)+

text \<open>The file as the parser sees it: up to the parenthesis, the settings, and from its counterpart on.\<close>

lemma parse_ini_parts:
  assumes "finditer section_pattern True 0 c = [(s, b)]"
    and "finditer option_pattern True 0 (drop b (take (end_of_section c b) c)) = [(o1, o2)]"
    and "find_closing_parenthesis c (b + o2 - 1) = Inr k"
  shows "\<exists>a h x y. c = (a @ h) @ x @ CHR '')'' # y \<and> settings_line h \<and> a \<noteq> [] \<and> last a = CHR 0x0A
    \<and> b \<le> length a \<and> b + o2 = length (a @ h) \<and> k = length (a @ h) + length x"
proof -
  let ?e = "end_of_section c b"
  from finditer_match [of s b section_pattern True 0 c] assms(1) obtain u t where
    ut: "c = u @ t" "section_pattern t = Some (b - s)" "s < b" "s = length u" by (auto simp: found_def)
  with section_pattern_Some [OF ut(2)] have b: "b \<le> length c" "b < length c \<longrightarrow> c ! b = CHR 0x0A"
    by (auto simp: nth_append)
  from finditer_match [of o1 o2 option_pattern True 0 "drop b (take ?e c)"] assms(2) obtain v w where
    vw: "drop b (take ?e c) = v @ w" "option_pattern w = Some (o2 - o1)" "o1 < o2" "o1 = length v"
      "v = [] \<or> last v = CHR 0x0A" by (auto simp: found_def split: if_splits)
  from option_pattern_Some [OF vw(2)] obtain h z where hz: "w = h @ z" "length h = o2 - o1" "settings_line h" by blast
  obtain r where r: "drop b c = v @ h @ z @ r"
    using vw(1) hz(1) by (metis append.assoc append_take_drop_id drop_append)
  with b(1) have c: "c = take b c @ v @ h @ z @ r" by (metis append_take_drop_id)
  have h: "h \<noteq> []" "last h = CHR ''(''" "CHR 0x0A \<notin> set h" using hz(3) by (simp_all add: settings_line_def)
  have "v \<noteq> []"
  proof
    assume "v = []"
    with r h(1) have "b < length c" "c ! b = hd h"
      by (metis append_Nil drop_all length_greater_0_conv append_is_Nil_conv not_le, 
          metis append_Nil append_is_Nil_conv b(1) drop_all hd_append2 hd_drop_conv_nth not_le)
    with b(2) h(1,3) show False by (metis hd_in_set)
  qed
  with vw(5) have v: "v \<noteq> []" "last v = CHR 0x0A" by auto
  let ?a = "take b c @ v" and ?rest = "z @ r"
  have op: "b + o2 = length (?a @ h)" using b(1) vw(3,4) hz(2) by simp
  have ch: "c = (?a @ h) @ ?rest" using c by simp
  from assms(3) have fc: "find_closing False False 0 (b + o2 - 1) (drop (b + o2 - 1) c) = Some k"
    by (simp add: find_closing_parenthesis_def split: option.splits)
  have lt: "b + o2 - 1 < length (?a @ h)" using h(1) op by (metis One_nat_def append_is_Nil_conv diff_less length_greater_0_conv zero_less_one)
  from find_closing_bounds [OF fc] have k: "b + o2 - 1 \<le> k" "k < length c" "c ! k = CHR '')''"
    by (auto simp: nth_drop)
  have "c ! (b + o2 - 1) = CHR ''(''"
    using ch lt h(1,2) op by (metis append_is_Nil_conv last_appendR last_conv_nth nth_append)
  with k(3) have "k \<noteq> b + o2 - 1" by auto
  with k(1) op have "length (?a @ h) \<le> k" by linarith
  define n where "n = k - length (?a @ h)"
  have kn: "k = length (?a @ h) + n" using \<open>length (?a @ h) \<le> k\<close> by (simp add: n_def)
  with k(2,3) have n: "n < length ?rest" "?rest ! n = CHR '')''"
    by (metis ch add_less_cancel_left length_append, metis ch nth_append_length_plus)
  have "?rest = take n ?rest @ CHR '')'' # drop (Suc n) ?rest" using id_take_nth_drop [OF n(1)] unfolding n(2) .
  with ch have "c = (?a @ h) @ take n ?rest @ CHR '')'' # drop (Suc n) ?rest" by metis
  moreover have "length (take n ?rest) = n" using n(1) by simp
  ultimately show ?thesis using hz(3) v op kn b(1)
    by (intro exI [of _ ?a] exI [of _ h] exI [of _ "take n ?rest"] exI [of _ "drop (Suc n) ?rest"]) simp
qed

text \<open>The list of the matches in the text before and after the settings, which hold no line feed.\<close>

lemma finditer_around:
  assumes "\<And>u t. p = u @ t \<Longrightarrow> t \<noteq> [] \<Longrightarrow> (if u = [] then bol else last u = CHR 0x0A) \<Longrightarrow> settled m t"
    and "p \<noteq> []" "last p = CHR ''(''" "CHR 0x0A \<notin> set x"
  shows "finditer m bol pos (p @ x @ y) = finditer m bol pos p
    @ List.map (\<lambda>(i, j). (i + (pos + length p + length x), j + (pos + length p + length x))) (finditer m False 0 y)"
  using finditer_append [of p bol m pos "x @ y", OF assms(1)] assms(2-4)
    finditer_skip [of x m "pos + length p" y] finditer_shift [of m False 0 "pos + length p + length x" y]
  by simp

lemma settled_prefix:
  assumes "settings_line h" "a \<noteq> []" "last a = CHR 0x0A" "b \<le> length a" "drop b (a @ h) = u @ t" "t \<noteq> []"
    and "if u = [] then b = 0 \<or> (a @ h) ! (b - 1) = CHR 0x0A else last u = CHR 0x0A"
  shows "settled section_pattern t" "settled option_pattern t" "settled next_section_pattern t"
proof -
  have h: "h \<noteq> []" "last h = CHR ''(''" "CHR 0x0A \<notin> set h" using assms(1) by (simp_all add: settings_line_def)
  have d: "drop b a @ h = u @ t" using assms(4,5) by simp
  then have "last t = CHR ''(''" using assms(6) h by (metis last_appendR)
  then show "settled section_pattern t" "settled option_pattern t"
    using assms(6) by (simp_all add: settled_section settled_option)
  from d obtain us where "drop b a = u @ us \<and> us @ h = t \<or> drop b a @ us = u \<and> h = us @ t"
    by (auto simp: append_eq_append_conv2)
  then show "settled next_section_pattern t"
  proof
    assume us: "drop b a = u @ us \<and> us @ h = t"
    then have "us = [] \<or> last us = CHR 0x0A" using assms(2,3) by (metis last_appendR last_drop drop_all not_le append_is_Nil_conv)
    then show ?thesis using settled_next [OF assms(1), of t us] us by blast
  next
    assume us: "drop b a @ us = u \<and> h = us @ t"
    have "us = []"
    proof (rule ccontr)
      assume "us \<noteq> []"
      with us have "u \<noteq> []" "last u = last us" by auto
      with assms(7) \<open>us \<noteq> []\<close> us h(3) show False by (metis Un_iff last_in_set set_append)
    qed
    then show ?thesis using settled_next [OF assms(1), of t "[]"] us by simp
  qed
qed

lemma end_of_section_around:
  assumes "settings_line h" "a \<noteq> []" "last a = CHR 0x0A" "b \<le> length a" "CHR 0x0A \<notin> set x"
  shows "end_of_section ((a @ h) @ x @ y) b =
    (case finditer next_section_pattern (b = 0 \<or> (a @ h) ! (b - 1) = CHR 0x0A) b (drop b (a @ h)) of
       (start, _) # _ \<Rightarrow> start
     | [] \<Rightarrow> length (a @ h) + length x
         + (case finditer next_section_pattern False 0 y of [] \<Rightarrow> length y | (start, _) # _ \<Rightarrow> start))"
proof -
  let ?p = "a @ h"
  let ?bol = "b = 0 \<or> ?p ! (b - 1) = CHR 0x0A"
  have h: "h \<noteq> []" "last h = CHR ''(''" using assms(1) by (simp_all add: settings_line_def)
  have "?bol = (b = 0 \<or> (?p @ x @ y) ! (b - 1) = CHR 0x0A)"
    using assms(2,4) h(1) by (auto simp: nth_append)
  moreover have "drop b (?p @ x @ y) = drop b ?p @ x @ y" using assms(4) by simp
  moreover have "b + length (drop b ?p) = length ?p" using assms(4) by simp
  moreover have "finditer next_section_pattern ?bol b (drop b ?p @ x @ y) = finditer next_section_pattern ?bol b (drop b ?p)
    @ List.map (\<lambda>(i, j). (i + (b + length (drop b ?p) + length x), j + (b + length (drop b ?p) + length x)))
        (finditer next_section_pattern False 0 y)"
  proof (rule finditer_around)
    fix u t assume "drop b ?p = u @ t" "t \<noteq> []" "if u = [] then ?bol else last u = CHR 0x0A"
    then show "settled next_section_pattern t" by (rule settled_prefix(3) [OF assms(1-4)])
  qed (use assms(4,5) h in auto)
  ultimately show ?thesis
    by (auto simp: end_of_section_def search_from_def split: list.splits)
qed

definition same_file :: "string \<Rightarrow> string \<Rightarrow> string list \<Rightarrow> parsed_ini" where
  "same_file a y raws = \<lparr>pi_prefix = a, pi_entries = List.map parse_entry raws, pi_suffix = y\<rparr>"

lemma parse_ini_split:
  assumes "parse_ini c = Inr p"
  obtains x raws where "c = pi_prefix p @ x @ pi_suffix p" "split_entries x = Inr raws"
    "p = same_file (pi_prefix p) (pi_suffix p) raws"
    "\<And>x' raws'. CHR 0x0A \<notin> set x \<Longrightarrow> CHR 0x0A \<notin> set x' \<Longrightarrow> balanced True x' \<Longrightarrow> split_entries x' = Inr raws'
      \<Longrightarrow> parse_ini (pi_prefix p @ x' @ pi_suffix p) = Inr (same_file (pi_prefix p) (pi_suffix p) raws')"
proof -
  from assms obtain s b o1 o2 k raws where P: "finditer section_pattern True 0 c = [(s, b)]"
    "finditer option_pattern True 0 (drop b (take (end_of_section c b) c)) = [(o1, o2)]"
    "find_closing_parenthesis c (b + o2 - 1) = Inr k" "k < end_of_section c b"
    "split_entries (drop (b + o2 - 1 + 1) (take k c)) = Inr raws"
    "p = \<lparr>pi_prefix = take (b + o2 - 1 + 1) c, pi_entries = List.map parse_entry raws, pi_suffix = drop k c\<rparr>"
    unfolding parse_ini_Inr by blast
  from parse_ini_parts [OF P(1-3)] obtain a h x z where S: "c = (a @ h) @ x @ CHR '')'' # z" "settings_line h"
    "a \<noteq> []" "last a = CHR 0x0A" "b \<le> length a" "b + o2 = length (a @ h)" "k = length (a @ h) + length x"
    by blast
  let ?p = "a @ h" and ?y = "CHR '')'' # z"
  let ?bol = "b = 0 \<or> ?p ! (b - 1) = CHR 0x0A"
  have h: "h \<noteq> []" "last h = CHR ''(''" using S(2) by (simp_all add: settings_line_def)
  have o2: "b + o2 - 1 + 1 = length ?p" using S(6) h(1) by simp
  have pre: "pi_prefix p = ?p" "pi_suffix p = ?y" using P(6) S(1,7) unfolding o2 by simp_all
  have split: "split_entries x = Inr raws" using P(5) S(1,7) unfolding o2 by simp
  define e where "e = (case finditer next_section_pattern False 0 ?y of [] \<Rightarrow> length ?y | (start, _) # _ \<Rightarrow> start)"
  have again: "parse_ini (?p @ x' @ ?y) = Inr (same_file ?p ?y raws')"
    if x: "CHR 0x0A \<notin> set x" "CHR 0x0A \<notin> set x'" "balanced True x'" "split_entries x' = Inr raws'" for x' raws'
  proof -
    have sec: "finditer section_pattern True 0 (?p @ w @ ?y) = finditer section_pattern True 0 ?p
      @ List.map (\<lambda>(i, j). (i + (length ?p + length w), j + (length ?p + length w))) (finditer section_pattern False 0 ?y)"
      if "CHR 0x0A \<notin> set w" for w
    proof -
      have "settled section_pattern t" if "?p = u @ t" "t \<noteq> []" "if u = [] then True else last u = CHR 0x0A" for u t
        using settled_prefix(1) [OF S(2-4), of 0 u t] that by simp
      from finditer_around [of ?p True section_pattern w 0 ?y, OF this] that h show ?thesis by simp
    qed
    have b_lt: "b < length ?p" using S(5) h(1) by (cases h) simp_all
    have "finditer section_pattern False 0 ?y = []"
    proof (rule ccontr)
      assume "finditer section_pattern False 0 ?y \<noteq> []"
      then obtain i j r where "finditer section_pattern False 0 ?y = (i, j) # r" by (cases "finditer section_pattern False 0 ?y") auto
      with sec [OF x(1)] P(1) S(1) have "(s, b) = (i + (length ?p + length x), j + (length ?p + length x))"
        by (auto simp: append_eq_Cons_conv Cons_eq_append_conv)
      with b_lt show False by simp
    qed
    with sec [OF x(1)] sec [OF x(2)] P(1) S(1) have sec': "finditer section_pattern True 0 (?p @ x' @ ?y) = [(s, b)]"
      by simp
    note eos = end_of_section_around [OF S(2-5)]
    have "finditer next_section_pattern ?bol b (drop b ?p) = []"
    proof (rule ccontr)
      assume "finditer next_section_pattern ?bol b (drop b ?p) \<noteq> []"
      then obtain i j r where ij: "finditer next_section_pattern ?bol b (drop b ?p) = (i, j) # r"
        by (cases "finditer next_section_pattern ?bol b (drop b ?p)") auto
      with eos [OF x(1), of ?y] S(1) have "end_of_section c b = i" by simp
      moreover have "i < length ?p"
        using finditer_start [of i j next_section_pattern ?bol b "drop b ?p"] ij b_lt by simp
      ultimately show False using P(4) S(7) by simp
    qed
    with eos e_def have eos': "end_of_section (?p @ w @ ?y) b = length ?p + length w + e" if "CHR 0x0A \<notin> set w" for w
      using that by simp
    have opt: "finditer option_pattern True 0 (drop b (take (end_of_section (?p @ w @ ?y) b) (?p @ w @ ?y)))
      = finditer option_pattern True 0 (drop b ?p) @ List.map (\<lambda>(i, j). (i + (length (drop b ?p) + length w),
          j + (length (drop b ?p) + length w))) (finditer option_pattern False 0 (take e ?y))"
      if w: "CHR 0x0A \<notin> set w" for w
    proof -
      have "drop b (take (end_of_section (?p @ w @ ?y) b) (?p @ w @ ?y)) = drop b ?p @ w @ take e ?y"
        unfolding eos' [OF w] using b_lt by (simp add: take_append del: append_assoc)
      moreover have "settled option_pattern t" if "drop b ?p = u @ t" "t \<noteq> []" for u t
        using that h by (intro settled_option) (metis last_appendR last_drop b_lt append_is_Nil_conv)+
      moreover have "drop b ?p \<noteq> []" "last (drop b ?p) = CHR ''(''" using S(5) h by simp_all
      ultimately show ?thesis using finditer_around [of "drop b ?p" True option_pattern w 0 "take e ?y"] w by simp
    qed
    have "finditer option_pattern False 0 (take e ?y) = []"
    proof (rule ccontr)
      assume "finditer option_pattern False 0 (take e ?y) \<noteq> []"
      then obtain i j r where ij: "finditer option_pattern False 0 (take e ?y) = (i, j) # r"
        by (cases "finditer option_pattern False 0 (take e ?y)") auto
      with opt [OF x(1)] P(2) S(1) have "o2 = j + (length (drop b ?p) + length x)"
        by (auto simp: append_eq_Cons_conv Cons_eq_append_conv)
      moreover have "i < j" using finditer_match [of i j option_pattern False 0 "take e ?y"] ij by (auto simp: found_def)
      ultimately show False using S(6) b_lt by simp
    qed
    with opt [OF x(1)] opt [OF x(2)] P(2) S(1) have opt':
      "finditer option_pattern True 0 (drop b (take (end_of_section (?p @ x' @ ?y) b) (?p @ x' @ ?y))) = [(o1, o2)]"
      by simp
    have "?p = butlast ?p @ [CHR ''('']" using h by (metis append_butlast_last_id append_is_Nil_conv last_appendR)
    then have p': "butlast ?p @ CHR ''('' # x' @ CHR '')'' # z = ?p @ x' @ ?y"
      by (metis append.assoc append_Cons append_Nil)
    have "length (butlast ?p) = b + o2 - 1" "length (butlast ?p) + length x' + 1 = length ?p + length x'"
      using S(6) h(1) by (simp, cases h) simp_all
    with find_closing_group [OF x(3), of "butlast ?p" z] have
      close: "find_closing_parenthesis (?p @ x' @ ?y) (b + o2 - 1) = Inr (length ?p + length x')"
      unfolding p' by (simp only:)
    have lt: "length ?p + length x' < end_of_section (?p @ x' @ ?y) b"
      using P(4) S(1,7) eos' [OF x(1)] eos' [OF x(2)] by simp
    have sp: "split_entries (drop (b + o2 - 1 + 1) (take (length ?p + length x') (?p @ x' @ ?y))) = Inr raws'"
      unfolding o2 using x(4) by simp
    have parts: "take (b + o2 - 1 + 1) (?p @ x' @ ?y) = ?p" "drop (length ?p + length x') (?p @ x' @ ?y) = ?y"
      unfolding o2 by simp_all
    from parse_iniI [OF sec' opt' close lt sp] show ?thesis unfolding parts same_file_def .
  qed
  have whole: "p = same_file ?p ?y raws" using P(6) pre unfolding same_file_def by (metis parsed_ini.select_convs(1,3))
  show thesis
  proof (rule that [of x raws])
    show "c = pi_prefix p @ x @ pi_suffix p" unfolding pre by (rule S(1))
    show "split_entries x = Inr raws" by (rule split)
    show "p = same_file (pi_prefix p) (pi_suffix p) raws" unfolding pre by (rule whole)
  qed (unfold pre, rule again)
qed

section \<open>Editing a file\<close>

lemma raw_parse_entry [simp]: "ie_raw (parse_entry raw) = raw"
  by (simp add: parse_entry_def plain_entry_def Let_def split: option.split)

lemma parse_entry_empty [simp]: "ie_key (parse_entry []) = None"
  by (simp add: parse_entry_def plain_entry_def top_level_equal_def)

definition edited :: "(string \<Rightarrow> string option) \<Rightarrow> ini_entry \<Rightarrow> ini_entry \<Rightarrow> bool" where
  "edited values e e' =
     (case Option.bind (ie_key e) values of
        None \<Rightarrow> e' = e
      | Some v \<Rightarrow> ie_key e' = ie_key e \<and> ie_value e' = Some v)"

definition one_line :: "string \<Rightarrow> bool" where
  "one_line s \<longleftrightarrow> CHR 0x0A \<notin> set s"

lemma rendered_unchanged: "rendered_entries Map.empty (List.map parse_entry raws) = Inr raws"
  by (induction raws) (auto split: option.split)

lemma one_line_replaced:
  "replace_value e v = Inr raw \<Longrightarrow> one_line (ie_raw e) \<Longrightarrow> one_line v \<Longrightarrow> one_line raw"
  by (auto simp: replace_value_def one_line_def split: option.splits dest: in_set_takeD in_set_dropD)

lemma rendered_edited:
  assumes "\<forall>k v. values k = Some v \<longrightarrow> value_text v \<and> one_line v"
    and "\<forall>raw\<in>set raws. balanced False raw \<and> one_line raw"
  shows "\<exists>raws'. rendered_entries values (List.map parse_entry raws) = Inr raws' \<and> length raws' = length raws
    \<and> (\<forall>raw\<in>set raws'. balanced False raw \<and> one_line raw)
    \<and> list_all2 (\<lambda>raw raw'. raw \<noteq> [] \<longrightarrow> raw' \<noteq> []) raws raws'
    \<and> list_all2 (edited values) (List.map parse_entry raws) (List.map parse_entry raws')"
  using assms(2)
proof (induction raws)
  case (Cons raw raws)
  then obtain raws' where IH: "rendered_entries values (List.map parse_entry raws) = Inr raws'"
    "length raws' = length raws" "\<forall>raw\<in>set raws'. balanced False raw \<and> one_line raw"
    "list_all2 (\<lambda>raw raw'. raw \<noteq> [] \<longrightarrow> raw' \<noteq> []) raws raws'"
    "list_all2 (edited values) (List.map parse_entry raws) (List.map parse_entry raws')" by auto
  show ?case
  proof (cases "Option.bind (ie_key (parse_entry raw)) values")
    case None
    then have "edited values (parse_entry raw) (parse_entry raw)" by (simp add: edited_def)
    with None show ?thesis using IH Cons.prems
      by (intro exI [of _ "raw # raws'"]) (auto simp: Option.bind_eq_None_conv split: option.split)
  next
    case (Some v)
    then obtain k where k: "ie_key (parse_entry raw) = Some k" "values k = Some v"
      by (auto simp: Option.bind_eq_Some_conv)
    with assms(1) Cons.prems replaced_entry [of raw k v] obtain raw' where
      "replace_value (parse_entry raw) v = Inr raw'" "balanced False raw'"
      "ie_key (parse_entry raw') = Some k" "ie_value (parse_entry raw') = Some v" by auto
    moreover from this k assms(1) Cons.prems have "one_line raw'"
      using one_line_replaced [of "parse_entry raw" v raw'] by auto
    moreover have "raw' \<noteq> []" using \<open>ie_key (parse_entry raw') = Some k\<close> by auto
    moreover have "edited values (parse_entry raw) (parse_entry raw')"
      using k \<open>ie_key (parse_entry raw') = Some k\<close> \<open>ie_value (parse_entry raw') = Some v\<close> by (simp add: edited_def)
    ultimately show ?thesis using IH k by (intro exI [of _ "raw' # raws'"]) auto
  qed
qed simp

lemma one_line_join: "one_line (join_commas raws) \<longleftrightarrow> (\<forall>raw\<in>set raws. one_line raw)"
  by (induction raws rule: join_commas.induct) (auto simp: one_line_def)

lemma join_empty: "join_commas raws = [] \<longleftrightarrow> raws = [] \<or> raws = [[]]"
  by (induction raws rule: join_commas.induct) auto

lemma split_entries_Inr:
  "split_entries x = Inr raws \<Longrightarrow> join_commas raws = x \<and> (\<forall>raw\<in>set raws. balanced False raw) \<and> raws \<noteq> [[]]"
  by (auto simp: split_entries_def split_scan_iff split: if_splits)

lemma split_entries_join:
  "\<forall>raw\<in>set raws. balanced False raw \<Longrightarrow> raws \<noteq> [[]] \<Longrightarrow> split_entries (join_commas raws) = Inr raws"
  by (cases "raws = []") (auto simp: split_entries_def split_scan_iff join_empty)

lemma rendered_edit_parses:
  assumes "parse_ini c = Inr p"
    and "\<forall>k v. values k = Some v \<longrightarrow> value_text v \<and> one_line v"
    and "\<forall>e\<in>set (pi_entries p). one_line (ie_raw e)"
  shows "\<exists>c' p'. render p values = Inr c' \<and> parse_ini c' = Inr p' \<and> pi_prefix p' = pi_prefix p
        \<and> pi_suffix p' = pi_suffix p \<and> list_all2 (edited values) (pi_entries p) (pi_entries p')"
proof -
  from parse_ini_split [OF assms(1)] obtain x raws where P: "c = pi_prefix p @ x @ pi_suffix p"
    "split_entries x = Inr raws" "p = same_file (pi_prefix p) (pi_suffix p) raws"
    "\<And>x' raws'. one_line x \<Longrightarrow> one_line x' \<Longrightarrow> balanced True x' \<Longrightarrow> split_entries x' = Inr raws'
      \<Longrightarrow> parse_ini (pi_prefix p @ x' @ pi_suffix p) = Inr (same_file (pi_prefix p) (pi_suffix p) raws')"
    unfolding one_line_def by blast
  from split_entries_Inr [OF P(2)] have raws: "join_commas raws = x" "\<forall>raw\<in>set raws. balanced False raw" "raws \<noteq> [[]]"
    by auto
  have entries: "pi_entries p = List.map parse_entry raws" by (subst P(3)) (simp add: same_file_def)
  with assms(3) have "\<forall>raw\<in>set raws. one_line raw" by simp
  with raws(2) rendered_edited [OF assms(2), of raws] obtain raws' where E:
    "rendered_entries values (pi_entries p) = Inr raws'" "length raws' = length raws"
    "\<forall>raw\<in>set raws'. balanced False raw \<and> one_line raw"
    "list_all2 (\<lambda>raw raw'. raw \<noteq> [] \<longrightarrow> raw' \<noteq> []) raws raws'"
    "list_all2 (edited values) (pi_entries p) (List.map parse_entry raws')" unfolding entries by auto
  have "raws' \<noteq> [[]]" using E(2,4) raws(3) by (auto simp: list_all2_Cons2)
  with E(3) have "split_entries (join_commas raws') = Inr raws'" by (simp add: split_entries_join)
  moreover have "one_line x" "one_line (join_commas raws')" "balanced True (join_commas raws')"
    using \<open>\<forall>raw\<in>set raws. one_line raw\<close> E(3) balanced_join raws(1) by (auto simp: one_line_join)
  ultimately have "parse_ini (pi_prefix p @ join_commas raws' @ pi_suffix p)
      = Inr (same_file (pi_prefix p) (pi_suffix p) raws')"
    using P(4) by simp
  with E(1,5) show ?thesis by (simp add: render_def same_file_def)
qed

lemma render_lossless:
  assumes "parse_ini c = Inr p"
  shows "render p Map.empty = Inr c"
proof -
  from parse_ini_split [OF assms] obtain x raws where P: "c = pi_prefix p @ x @ pi_suffix p"
    "split_entries x = Inr raws" "p = same_file (pi_prefix p) (pi_suffix p) raws" by blast
  have "pi_entries p = List.map parse_entry raws" by (subst P(3)) (simp add: same_file_def)
  with split_entries_Inr [OF P(2)] P(1) show ?thesis by (simp add: render_def rendered_unchanged)
qed

text \<open>
  C30: the parser loses nothing: rendering a parsed file gives the file back, whatever the file. And an edit changes
  exactly what it is asked to change, under two conditions: each of the settings is on one line, and the new values are what
  the serializer writes, balanced in quotes and parentheses with no comma outside of them, without blanks at their ends, and on
  one line. Then the rendered file parses again, with the same text around the settings and the same entries in the
  same order, except that each replaced key has the new value.
\<close>

theorem ini_edit_roundtrip:
  assumes "parse_ini c = Inr p"
  shows "render p Map.empty = Inr c
    \<and> ((\<forall>k v. values k = Some v \<longrightarrow> value_text v \<and> one_line v) \<longrightarrow> (\<forall>e\<in>set (pi_entries p). one_line (ie_raw e)) \<longrightarrow>
       (\<exists>c' p'. render p values = Inr c' \<and> parse_ini c' = Inr p' \<and> pi_prefix p' = pi_prefix p
        \<and> pi_suffix p' = pi_suffix p \<and> list_all2 (edited values) (pi_entries p) (pi_entries p')))"
  using render_lossless [OF assms] rendered_edit_parses [OF assms] by simp

definition sample_file :: string where
  "sample_file = ''['' @ SECTION_NAME @ '']'' @ [CHR 0x0A] @ ''OptionSettings=(Rate=1,Deny=(1,2))'' @ [CHR 0x0A]"

definition sample_parsed :: parsed_ini where
  "sample_parsed = same_file (''['' @ SECTION_NAME @ '']'' @ [CHR 0x0A] @ ''OptionSettings=('')
     ('')'' @ [CHR 0x0A]) [''Rate=1'', ''Deny=(1,2)'']"

lemma parse_sample: "parse_ini sample_file = Inr sample_parsed"
  by code_simp

lemma value_text_two: "value_text ''2''"
  by (auto simp: value_text_def trimmed_def is_space_def code_def plain_char_def
      intro!: balanced_char balanced_empty)

theorem ini_edit_roundtrip_witness:
  "\<exists>c' p'. render sample_parsed [''Rate'' \<mapsto> ''2''] = Inr c' \<and> parse_ini c' = Inr p'
    \<and> list_all2 (edited [''Rate'' \<mapsto> ''2'']) (pi_entries sample_parsed) (pi_entries p')"
proof -
  have "\<forall>k v. [''Rate'' \<mapsto> ''2''] k = Some v \<longrightarrow> value_text v \<and> one_line v"
    by (auto simp: value_text_two one_line_def)
  moreover have "\<forall>e\<in>set (pi_entries sample_parsed). one_line (ie_raw e)"
    by (simp add: sample_parsed_def same_file_def one_line_def)
  ultimately show ?thesis using ini_edit_roundtrip [OF parse_sample] by blast
qed

end
