(* ===== verification/SettingValues.thy ===== *)
theory SettingValues
  imports PalworldIni
begin

text \<open>
  The known settings of the Palworld server (\<open>app/palworld_settings/definitions.py\<close>) and their values
  (\<open>parse_setting_value\<close> and \<open>serialize_setting_value\<close> in \<open>app/palworld_settings/ini.py\<close>), with the parts of
  \<open>decimal.Decimal\<close> and \<open>json\<close> they use. A \<open>\u\<close> escape of a code point from 256 on has no counterpart
  here: reading it is \<open>OtherException\<close>, outside of what the lemmas are about.
\<close>

section \<open>The known settings\<close>

datatype setting_kind =
    KIND_BOOLEAN | KIND_ENUM | KIND_INTEGER | KIND_NUMBER | KIND_READ_ONLY | KIND_SENSITIVE | KIND_STRING

text \<open>A decimal number: a mantissa and an exponent of ten.\<close>

type_synonym decimal = "int \<times> int"

record setting_definition =
  sd_key :: string
  sd_label :: string
  sd_description :: string
  sd_category :: string
  sd_kind :: setting_kind
  sd_options :: "string list"
  sd_minimum :: "decimal option"
  sd_maximum :: "decimal option"

definition setting_of ::
  "string \<Rightarrow> string \<Rightarrow> string \<Rightarrow> string \<Rightarrow> setting_kind \<Rightarrow> string list \<Rightarrow> decimal option \<Rightarrow> decimal option \<Rightarrow> setting_definition" where
  "setting_of key label description category kind options minimum maximum =
     \<lparr>sd_key = key, sd_label = label, sd_description = description, sd_category = category, sd_kind = kind,
      sd_options = options, sd_minimum = minimum, sd_maximum = maximum\<rparr>"

definition PERFORMANCE :: string where "PERFORMANCE = ''Desempenho''"
definition MANAGEMENT :: string where "MANAGEMENT = msg_text ''Administra_c~ao do servidor''"
definition FEATURES :: string where "FEATURES = ''Recursos''"
definition BALANCE :: string where "BALANCE = ''Balanceamento''"

definition SETTING_DEFINITIONS_1 :: "setting_definition list" where
  "SETTING_DEFINITIONS_1 =
    [setting_of ''BaseCampMaxNum'' (msg_text ''Total de bases'')
        (msg_text ''Quantidade total de bases no servidor.'')
        PERFORMANCE KIND_INTEGER [] None None,
     setting_of ''BaseCampMaxNumInGuild'' (msg_text ''Bases por guilda'')
        (msg_text ''Quantidade m/axima de bases por guilda.'')
        PERFORMANCE KIND_INTEGER [] None (Some (10, 0)),
     setting_of ''BaseCampWorkerMaxNum'' (msg_text ''Pals por base'')
        (msg_text ''Quantidade m/axima de Pals trabalhando em cada base.'')
        PERFORMANCE KIND_INTEGER [] None (Some (50, 0)),
     setting_of ''ItemContainerForceMarkDirtyInterval'' (msg_text ''Intervalo de sincroniza_c~ao de cont^eineres'')
        (msg_text ''Frequ^encia, em segundos, para for_car a sincroniza_c~ao de cont^eineres abertos.'')
        PERFORMANCE KIND_NUMBER [] None None,
     setting_of ''MaxBuildingLimitNum'' (msg_text ''Constru_c~oes por jogador'')
        (msg_text ''Limite de constru_c~oes por jogador; zero significa ilimitado.'')
        PERFORMANCE KIND_INTEGER [] None None,
     setting_of ''PhysicsActiveDropItemMaxNum'' (msg_text ''Itens com f/isica'')
        (msg_text ''Quantidade m/axima de itens largados que usam f/isica.'')
        PERFORMANCE KIND_INTEGER [] None None,
     setting_of ''ServerReplicatePawnCullDistance'' (msg_text ''Dist^ancia de sincroniza_c~ao'')
        (msg_text ''Dist^ancia de sincroniza_c~ao dos Pals em cent/imetros.'')
        PERFORMANCE KIND_NUMBER [] (Some (5000, 0)) (Some (15000, 0)),
     setting_of ''bAllowClientMod'' (msg_text ''Permitir clientes com mods'')
        (msg_text ''Permite a entrada de jogadores com mods habilitados.'')
        MANAGEMENT KIND_BOOLEAN [] None None,
     setting_of ''AllowConnectPlatform'' (msg_text ''Plataforma permitida legada'')
        (msg_text ''Par^ametro indispon/ivel nesta vers~ao; use Plataformas crossplay.'')
        MANAGEMENT KIND_READ_ONLY [] None None,
     setting_of ''bEnableBuildingPlayerUIdDisplay'' (msg_text ''Exibir criador das constru_c~oes'')
        (msg_text ''Exibe o identificador do jogador que criou cada estrutura.'')
        MANAGEMENT KIND_BOOLEAN [] None None,
     setting_of ''bIsShowJoinLeftMessage'' (msg_text ''Mensagens de entrada e sa/ida'')
        (msg_text ''Exibe mensagens quando jogadores entram ou saem.'')
        MANAGEMENT KIND_BOOLEAN [] None None,
     setting_of ''bIsUseBackupSaveData'' (msg_text ''Backups internos do Palworld'')
        (msg_text ''Habilita os backups internos do mundo feitos pelo Palworld.'')
        MANAGEMENT KIND_BOOLEAN [] None None,
     setting_of ''ChatPostLimitPerMinute'' (msg_text ''Mensagens de chat por minuto'')
        (msg_text ''Limite de mensagens de chat por minuto.'')
        MANAGEMENT KIND_INTEGER [] None None]"

definition SETTING_DEFINITIONS_2 :: "setting_definition list" where
  "SETTING_DEFINITIONS_2 =
    [setting_of ''LogFormatType'' (msg_text ''Formato dos logs'')
        (msg_text ''Formato emitido pelo servidor.'')
        MANAGEMENT KIND_ENUM [''Text'', ''Json''] None None,
     setting_of ''PublicIP'' (msg_text ''IP p/ublico'')
        (msg_text ''IP externo anunciado pelo servidor comunit/ario.'')
        MANAGEMENT KIND_STRING [] None None,
     setting_of ''PublicPort'' (msg_text ''Porta p/ublica'')
        (msg_text ''Porta externa anunciada pelo servidor comunit/ario.'')
        MANAGEMENT KIND_INTEGER [] (Some (1, 0)) (Some (65535, 0)),
     setting_of ''RCONEnabled'' (msg_text ''Habilitar RCON'')
        (msg_text ''Habilita o protocolo RCON.'')
        MANAGEMENT KIND_BOOLEAN [] None None,
     setting_of ''RCONPort'' (msg_text ''Porta RCON'')
        (msg_text ''Porta usada pelo RCON.'')
        MANAGEMENT KIND_INTEGER [] (Some (1, 0)) (Some (65535, 0)),
     setting_of ''RESTAPIEnabled'' (msg_text ''Habilitar REST API'')
        (msg_text ''Habilita a REST API oficial usada pelo Manager.'')
        MANAGEMENT KIND_BOOLEAN [] None None,
     setting_of ''RESTAPIPort'' (msg_text ''Porta da REST API'')
        (msg_text ''Porta de escuta da REST API oficial.'')
        MANAGEMENT KIND_INTEGER [] (Some (1, 0)) (Some (65535, 0)),
     setting_of ''ServerDescription'' (msg_text ''Descri_c~ao do servidor'')
        (msg_text ''Descri_c~ao apresentada pelo servidor.'')
        MANAGEMENT KIND_STRING [] None None,
     setting_of ''ServerName'' (msg_text ''Nome do servidor'')
        (msg_text ''Nome apresentado pelo servidor.'')
        MANAGEMENT KIND_STRING [] None None,
     setting_of ''ServerPlayerMaxNum'' (msg_text ''M/aximo de jogadores'')
        (msg_text ''Quantidade m/axima de jogadores conectados.'')
        MANAGEMENT KIND_INTEGER [] None None,
     setting_of ''AdminPassword'' (msg_text ''Senha administrativa'')
        (msg_text ''Campo sens/ivel preservado sem exibir seu valor.'')
        MANAGEMENT KIND_SENSITIVE [] None None,
     setting_of ''ServerPassword'' (msg_text ''Senha do servidor'')
        (msg_text ''Campo sens/ivel preservado sem exibir seu valor.'')
        MANAGEMENT KIND_SENSITIVE [] None None,
     setting_of ''CrossplayPlatforms'' (msg_text ''Plataformas crossplay'')
        (msg_text ''Estrutura composta reconhecida e preservada sem edi_c~ao nesta vers~ao.'')
        MANAGEMENT KIND_READ_ONLY [] None None]"

definition SETTING_DEFINITIONS_3 :: "setting_definition list" where
  "SETTING_DEFINITIONS_3 =
    [setting_of ''AutoResetGuildTimeNoOnlinePlayers'' (msg_text ''Tempo para remover guilda inativa'')
        (msg_text ''Tempo sem membros online antes da remo_c~ao autom/atica da guilda.'')
        FEATURES KIND_NUMBER [] None None,
     setting_of ''bAllowEnemyCampSpawnNearBaseCamp'' (msg_text ''Permitir acampamentos inimigos pr/oximos'')
        (msg_text ''Permite o surgimento de acampamentos inimigos perto das bases dos jogadores.'')
        FEATURES KIND_BOOLEAN [] None None,
     setting_of ''bAllowEnhanceStat_Attack'' (msg_text ''Permitir atributo de ataque'')
        (msg_text ''Permite distribuir pontos no atributo de ataque.'')
        FEATURES KIND_BOOLEAN [] None None,
     setting_of ''bAllowEnhanceStat_Health'' (msg_text ''Permitir atributo de vida'')
        (msg_text ''Permite distribuir pontos no atributo de vida.'')
        FEATURES KIND_BOOLEAN [] None None,
     setting_of ''bAllowEnhanceStat_Stamina'' (msg_text ''Permitir atributo de stamina'')
        (msg_text ''Permite distribuir pontos no atributo de stamina.'')
        FEATURES KIND_BOOLEAN [] None None,
     setting_of ''bAllowEnhanceStat_Weight'' (msg_text ''Permitir atributo de peso'')
        (msg_text ''Permite distribuir pontos no atributo de capacidade de peso.'')
        FEATURES KIND_BOOLEAN [] None None,
     setting_of ''bAllowEnhanceStat_WorkSpeed'' (msg_text ''Permitir atributo de velocidade de trabalho'')
        (msg_text ''Permite distribuir pontos no atributo de velocidade de trabalho.'')
        FEATURES KIND_BOOLEAN [] None None,
     setting_of ''bAllowGlobalPalboxExport'' (msg_text ''Permitir exporta_c~ao pelo Palbox global'')
        (msg_text ''Permite exportar Pals pelo Palbox global.'')
        FEATURES KIND_BOOLEAN [] None None,
     setting_of ''bAllowGlobalPalboxImport'' (msg_text ''Permitir importa_c~ao pelo Palbox global'')
        (msg_text ''Permite importar Pals pelo Palbox global.'')
        FEATURES KIND_BOOLEAN [] None None,
     setting_of ''bAutoResetGuildNoOnlinePlayers'' (msg_text ''Remover guildas inativas'')
        (msg_text ''Remove estruturas e Pals da base quando nenhum membro entrar durante o per/iodo configurado.'')
        FEATURES KIND_BOOLEAN [] None None,
     setting_of ''bBuildAreaLimit'' (msg_text ''Restringir /areas de constru_c~ao'')
        (msg_text ''Impede constru_c~oes perto de locais importantes, como pontos de viagem r/apida.'')
        FEATURES KIND_BOOLEAN [] None None,
     setting_of ''bCanPickupOtherGuildDeathPenaltyDrop'' (msg_text ''Permitir coleta de perdas de outras guildas'')
        (msg_text ''Permite coletar itens e Pals perdidos por jogadores de outras guildas.'')
        FEATURES KIND_BOOLEAN [] None None,
     setting_of ''bCharacterRecreateInHardcore'' (msg_text ''Recriar personagem no modo hardcore'')
        (msg_text ''Permite recriar o personagem ap/os a morte no modo hardcore.'')
        FEATURES KIND_BOOLEAN [] None None]"

definition SETTING_DEFINITIONS_4 :: "setting_definition list" where
  "SETTING_DEFINITIONS_4 =
    [setting_of ''bDisplayPvPItemNumOnWorldMap_BaseCamp'' (msg_text ''Exibir itens PvP das bases'')
        (msg_text ''Exibe no mapa a quantidade de itens PvP em cada base.'')
        FEATURES KIND_BOOLEAN [] None None,
     setting_of ''bDisplayPvPItemNumOnWorldMap_Player'' (msg_text ''Exibir itens PvP dos jogadores'')
        (msg_text ''Exibe no mapa a posi_c~ao e a quantidade de itens PvP dos jogadores.'')
        FEATURES KIND_BOOLEAN [] None None,
     setting_of ''bEnableAimAssistPad'' (msg_text ''Habilitar assist^encia de mira no controle'')
        (msg_text ''Habilita a assist^encia de mira para jogadores que usam controle.'')
        FEATURES KIND_BOOLEAN [] None None,
     setting_of ''bEnableDefenseOtherGuildPlayer'' (msg_text ''Defender contra outras guildas'')
        (msg_text ''Permite que Pals da base ataquem jogadores hostis de outras guildas.'')
        FEATURES KIND_BOOLEAN [] None None,
     setting_of ''bEnableFastTravel'' (msg_text ''Permitir viagem r/apida'')
        (msg_text ''Habilita a viagem r/apida.'')
        FEATURES KIND_BOOLEAN [] None None,
     setting_of ''bEnableFastTravelOnlyBaseCamp'' (msg_text ''Restringir viagem r/apida '' @ [CHR 0xE0] @ msg_text ''s bases'')
        (msg_text ''Permite viagem r/apida somente entre bases.'')
        FEATURES KIND_BOOLEAN [] None None,
     setting_of ''bEnableInvaderEnemy'' (msg_text ''Habilitar invas~oes'')
        (msg_text ''Habilita inimigos invasores.'')
        FEATURES KIND_BOOLEAN [] None None,
     setting_of ''bEnableVoiceChat'' (msg_text ''Habilitar chat de voz'')
        (msg_text ''Habilita o chat de voz do jogo.'')
        FEATURES KIND_BOOLEAN [] None None,
     setting_of ''bEnablePlayerToPlayerDamage'' (msg_text ''Habilitar dano entre jogadores'')
        (msg_text ''Permite que jogadores causem dano uns aos outros.'')
        FEATURES KIND_BOOLEAN [] None None,
     setting_of ''bExistPlayerAfterLogout'' (msg_text ''Manter jogador ap/os logout'')
        (msg_text ''Mant/em o jogador dormindo na posi_c~ao atual depois do logout.'')
        FEATURES KIND_BOOLEAN [] None None,
     setting_of ''bHardcore'' (msg_text ''Habilitar modo hardcore'')
        (msg_text ''Habilita o modo hardcore, sem renascimento ap/os a morte.'')
        FEATURES KIND_BOOLEAN [] None None,
     setting_of ''bInvisibleOtherGuildBaseCampAreaFX'' (msg_text ''Ocultar /area das bases de outras guildas'')
        (msg_text ''Controla a visibilidade dos limites das bases de outras guildas.'')
        FEATURES KIND_BOOLEAN [] None None,
     setting_of ''bIsPvP'' (msg_text ''Habilitar PvP'')
        (msg_text ''Habilita o modo PvP.'')
        FEATURES KIND_BOOLEAN [] None None,
     setting_of ''bIsRandomizerPalLevelRandom'' (msg_text ''Aleatorizar completamente o n/ivel dos Pals'')
        (msg_text ''Aleatoriza completamente os n/iveis; desativado, respeita a faixa de cada regi~ao.'')
        FEATURES KIND_BOOLEAN [] None None]"

definition SETTING_DEFINITIONS_5 :: "setting_definition list" where
  "SETTING_DEFINITIONS_5 =
    [setting_of ''bIsStartLocationSelectByMap'' (msg_text ''Permitir escolha do local inicial'')
        (msg_text ''Permite escolher pelo mapa o local inicial do personagem.'')
        FEATURES KIND_BOOLEAN [] None None,
     setting_of ''bShowPlayerList'' (msg_text ''Exibir lista de jogadores'')
        (msg_text ''Exibe a lista de jogadores no menu do jogo.'')
        FEATURES KIND_BOOLEAN [] None None,
     setting_of ''RandomizerType'' (msg_text ''Modo de aleatoriza_c~ao'')
        (msg_text ''Modo de aleatoriza_c~ao do surgimento de Pals.'')
        FEATURES KIND_ENUM [''None'', ''Region'', ''All''] None None,
     setting_of ''RandomizerSeed'' (msg_text ''Seed da aleatoriza_c~ao'')
        (msg_text ''Seed usada pelo modo de aleatoriza_c~ao.'')
        FEATURES KIND_INTEGER [] None None,
     setting_of ''VoiceChatMaxVolumeDistance'' (msg_text ''Dist^ancia m/axima do chat de voz'')
        (msg_text ''Dist^ancia at/e a qual o volume do chat de voz n~ao /e atenuado.'')
        FEATURES KIND_NUMBER [] None None,
     setting_of ''VoiceChatZeroVolumeDistance'' (msg_text ''Dist^ancia sem volume do chat de voz'')
        (msg_text ''Dist^ancia na qual o volume do chat de voz chega a zero.'')
        FEATURES KIND_NUMBER [] None None,
     setting_of ''AdditionalDropItemNumWhenPlayerKillingInPvPMode'' (msg_text ''Quantidade da recompensa PvP'')
        (msg_text ''Quantidade do item derrubado ao eliminar um jogador no modo PvP.'')
        BALANCE KIND_NUMBER [] None None,
     setting_of ''AdditionalDropItemWhenPlayerKillingInPvPMode'' (msg_text ''Item de recompensa PvP'')
        (msg_text ''Estrutura composta reconhecida e preservada sem edi_c~ao nesta vers~ao.'')
        BALANCE KIND_READ_ONLY [] None None,
     setting_of ''bAdditionalDropItemWhenPlayerKillingInPvPMode'' (msg_text ''Habilitar recompensa por elimina_c~ao PvP'')
        (msg_text ''Derruba um item especial ao eliminar um jogador no modo PvP.'')
        BALANCE KIND_BOOLEAN [] None None,
     setting_of ''BlockRespawnTime'' (msg_text ''Tempo para renascer'')
        (msg_text ''Tempo de espera, em segundos, antes de renascer ap/os a morte.'')
        BALANCE KIND_NUMBER [] None None,
     setting_of ''bPalLost'' (msg_text ''Perder Pals permanentemente'')
        (msg_text ''Remove permanentemente os Pals perdidos ap/os a morte.'')
        BALANCE KIND_BOOLEAN [] None None,
     setting_of ''BuildObjectDamageRate'' (msg_text ''Dano contra constru_c~oes'')
        (msg_text ''Multiplicador do dano causado a constru_c~oes.'')
        BALANCE KIND_NUMBER [] None None,
     setting_of ''BuildObjectDeteriorationDamageRate'' (msg_text ''Deteriora_c~ao de constru_c~oes'')
        (msg_text ''Multiplicador da velocidade de deteriora_c~ao das constru_c~oes.'')
        BALANCE KIND_NUMBER [] None None,
     setting_of ''CollectionDropRate'' (msg_text ''Quantidade de itens coletados'')
        (msg_text ''Multiplicador da quantidade de itens obtidos na coleta.'')
        BALANCE KIND_NUMBER [] None None]"

definition SETTING_DEFINITIONS_6 :: "setting_definition list" where
  "SETTING_DEFINITIONS_6 =
    [setting_of ''CollectionObjectHpRate'' (msg_text ''Vida dos objetos colet/aveis'')
        (msg_text ''Multiplicador da vida dos objetos colet/aveis.'')
        BALANCE KIND_NUMBER [] None None,
     setting_of ''CollectionObjectRespawnSpeedRate'' (msg_text ''Renascimento dos objetos colet/aveis'')
        (msg_text ''Multiplicador do intervalo de renascimento dos objetos colet/aveis.'')
        BALANCE KIND_NUMBER [] None None,
     setting_of ''DayTimeSpeedRate'' (msg_text ''Velocidade do dia'')
        (msg_text ''Multiplicador da passagem do tempo durante o dia.'')
        BALANCE KIND_NUMBER [] None None,
     setting_of ''NightTimeSpeedRate'' (msg_text ''Velocidade da noite'')
        (msg_text ''Multiplicador da passagem do tempo durante a noite.'')
        BALANCE KIND_NUMBER [] None None,
     setting_of ''ExpRate'' (msg_text ''Experi^encia'')
        (msg_text ''Multiplicador de experi^encia recebida.'')
        BALANCE KIND_NUMBER [] None None,
     setting_of ''PalCaptureRate'' (msg_text ''Captura de Pals'')
        (msg_text ''Multiplicador da chance de captura.'')
        BALANCE KIND_NUMBER [] None None,
     setting_of ''PalSpawnNumRate'' (msg_text ''Surgimento de Pals'')
        (msg_text ''Multiplicador da quantidade de Pals; pode afetar o desempenho.'')
        BALANCE KIND_NUMBER [] None None,
     setting_of ''PalDamageRateAttack'' (msg_text ''Dano causado por Pals'')
        (msg_text ''Multiplicador do dano causado por Pals.'')
        BALANCE KIND_NUMBER [] None None,
     setting_of ''PalDamageRateDefense'' (msg_text ''Dano recebido por Pals'')
        (msg_text ''Multiplicador do dano recebido por Pals.'')
        BALANCE KIND_NUMBER [] None None,
     setting_of ''PlayerDamageRateAttack'' (msg_text ''Dano causado por jogadores'')
        (msg_text ''Multiplicador do dano causado por jogadores.'')
        BALANCE KIND_NUMBER [] None None,
     setting_of ''PlayerDamageRateDefense'' (msg_text ''Dano recebido por jogadores'')
        (msg_text ''Multiplicador do dano recebido por jogadores.'')
        BALANCE KIND_NUMBER [] None None,
     setting_of ''PalEggDefaultHatchingTime'' (msg_text ''Tempo de incuba_c~ao'')
        (msg_text ''Horas para incubar um ovo enorme.'')
        BALANCE KIND_NUMBER [] None None,
     setting_of ''GuildPlayerMaxNum'' (msg_text ''Jogadores por guilda'')
        (msg_text ''Quantidade m/axima de jogadores em uma guilda.'')
        BALANCE KIND_INTEGER [] None None,
     setting_of ''SupplyDropSpan'' (msg_text ''Intervalo de suprimentos'')
        (msg_text ''Intervalo em minutos para meteoritos e suprimentos.'')
        BALANCE KIND_INTEGER [] None None]"

definition SETTING_DEFINITIONS_7 :: "setting_definition list" where
  "SETTING_DEFINITIONS_7 =
    [setting_of ''DeathPenalty'' (msg_text ''Penalidade por morte'')
        (msg_text ''Itens e Pals perdidos ap/os a morte.'')
        BALANCE KIND_ENUM [''None'', ''Item'', ''ItemAndEquipment'', ''All''] None None,
     setting_of ''DenyTechnologyList'' (msg_text ''Tecnologias bloqueadas'')
        (msg_text ''Lista composta reconhecida e preservada sem edi_c~ao nesta vers~ao.'')
        BALANCE KIND_READ_ONLY [] None None,
     setting_of ''EnemyDropItemRate'' (msg_text ''Itens derrubados por inimigos'')
        (msg_text ''Multiplicador da quantidade de itens derrubados por inimigos.'')
        BALANCE KIND_NUMBER [] None None,
     setting_of ''EquipmentDurabilityDamageRate'' (msg_text ''Perda de durabilidade'')
        (msg_text ''Multiplicador da perda de durabilidade dos equipamentos.'')
        BALANCE KIND_NUMBER [] None None,
     setting_of ''FishingDifficultyRate'' (msg_text ''Dificuldade da pesca'')
        (msg_text ''Multiplicador da dificuldade da pesca.'')
        BALANCE KIND_NUMBER [] (Some (1, - 1)) (Some (10, - 1)),
     setting_of ''GuildRejoinCooldownMinutes'' (msg_text ''Espera para retornar '' @ [CHR 0xE0] @ msg_text '' guilda'')
        (msg_text ''Tempo de espera, em minutos, para retornar a uma guilda.'')
        BALANCE KIND_NUMBER [] None None,
     setting_of ''ItemCorruptionMultiplier'' (msg_text ''Deteriora_c~ao dos itens'')
        (msg_text ''Multiplicador da velocidade de deteriora_c~ao dos itens.'')
        BALANCE KIND_NUMBER [] None None,
     setting_of ''ItemWeightRate'' (msg_text ''Peso dos itens'')
        (msg_text ''Multiplicador do peso dos itens.'')
        BALANCE KIND_NUMBER [] None None,
     setting_of ''MonsterFarmActionSpeedRate'' (msg_text ''Produ_c~ao no rancho'')
        (msg_text ''Multiplicador da velocidade de produ_c~ao de itens no rancho.'')
        BALANCE KIND_NUMBER [] None None,
     setting_of ''PalAutoHPRegeneRate'' (msg_text ''Regenera_c~ao natural dos Pals'')
        (msg_text ''Multiplicador da regenera_c~ao natural de vida dos Pals.'')
        BALANCE KIND_NUMBER [] None None,
     setting_of ''PalAutoHpRegeneRateInSleep'' (msg_text ''Regenera_c~ao dos Pals no Palbox'')
        (msg_text ''Multiplicador da regenera_c~ao de vida dos Pals enquanto descansam no Palbox.'')
        BALANCE KIND_NUMBER [] None None,
     setting_of ''PalStaminaDecreaceRate'' (msg_text ''Consumo de stamina dos Pals'')
        (msg_text ''Multiplicador do consumo de stamina dos Pals.'')
        BALANCE KIND_NUMBER [] None None,
     setting_of ''PalStomachDecreaceRate'' (msg_text ''Fome dos Pals'')
        (msg_text ''Multiplicador do consumo de alimento dos Pals.'')
        BALANCE KIND_NUMBER [] None None]"

definition SETTING_DEFINITIONS_8 :: "setting_definition list" where
  "SETTING_DEFINITIONS_8 =
    [setting_of ''PlayerAutoHPRegeneRate'' (msg_text ''Regenera_c~ao natural dos jogadores'')
        (msg_text ''Multiplicador da regenera_c~ao natural de vida dos jogadores.'')
        BALANCE KIND_NUMBER [] None None,
     setting_of ''PlayerAutoHpRegeneRateInSleep'' (msg_text ''Regenera_c~ao dos jogadores dormindo'')
        (msg_text ''Multiplicador da regenera_c~ao de vida dos jogadores enquanto dormem.'')
        BALANCE KIND_NUMBER [] None None,
     setting_of ''PlayerStaminaDecreaceRate'' (msg_text ''Consumo de stamina dos jogadores'')
        (msg_text ''Multiplicador do consumo de stamina dos jogadores.'')
        BALANCE KIND_NUMBER [] None None,
     setting_of ''PlayerStomachDecreaceRate'' (msg_text ''Fome dos jogadores'')
        (msg_text ''Multiplicador do consumo de alimento dos jogadores.'')
        BALANCE KIND_NUMBER [] None None,
     setting_of ''RespawnPenaltyDurationThreshold'' (msg_text ''Limite da penalidade de renascimento'')
        (msg_text ''Tempo de sobreviv^encia, em segundos, para reiniciar a penalidade de renascimento.'')
        BALANCE KIND_NUMBER [] None None,
     setting_of ''RespawnPenaltyTimeScale'' (msg_text ''Escala da penalidade de renascimento'')
        (msg_text ''Multiplicador aplicado ao tempo de espera para renascer.'')
        BALANCE KIND_NUMBER [] None None]"

definition SETTING_DEFINITIONS :: "setting_definition list" where
  "SETTING_DEFINITIONS = SETTING_DEFINITIONS_1 @ SETTING_DEFINITIONS_2 @ SETTING_DEFINITIONS_3 @ SETTING_DEFINITIONS_4
     @ SETTING_DEFINITIONS_5 @ SETTING_DEFINITIONS_6 @ SETTING_DEFINITIONS_7 @ SETTING_DEFINITIONS_8"

text \<open>\<open>SETTING_DEFINITIONS_BY_KEY.get(key)\<close>: the last definition of a key would count.\<close>

definition definition_of :: "string \<Rightarrow> setting_definition option" where
  "definition_of key = map_of (rev (List.map (\<lambda>d. (sd_key d, d)) SETTING_DEFINITIONS)) key"

definition SETTING_CATEGORIES :: "string list" where
  "SETTING_CATEGORIES = [PERFORMANCE, MANAGEMENT, FEATURES, BALANCE]"

section \<open>Decimal numbers\<close>

text \<open>An optional sign: whether the rest is negated.\<close>

definition split_sign :: "string \<Rightarrow> bool \<times> string" where
  "split_sign s = (case s of [] \<Rightarrow> (False, [])
     | c # cs \<Rightarrow> if c = CHR ''-'' then (True, cs) else if c = CHR ''+'' then (False, cs) else (False, s))"

definition exponent_of :: "string \<Rightarrow> int option" where
  "exponent_of s = (case s of [] \<Rightarrow> Some 0
     | c # cs \<Rightarrow> (case split_sign cs of (negative, ds) \<Rightarrow>
         if (c = CHR ''e'' \<or> c = CHR ''E'') \<and> ds \<noteq> [] \<and> list_all is_digit ds
         then Some (if negative then - int (nat_of_digits ds) else int (nat_of_digits ds)) else None))"

text \<open>The numbers \<open>Decimal\<close> can hold exactly: its largest and smallest exponents on a 64-bit build.\<close>

definition representable :: "decimal \<Rightarrow> bool" where
  "representable x = (case x of (m, e) \<Rightarrow> - 1999999999999999997 \<le> e \<and>
     (if m = 0 then e \<le> 999999999999999999
      else e + int (length (digits_of (nat \<bar>m\<bar>))) - 1 \<le> 999999999999999999))"

text \<open>
  \<open>Decimal(text)\<close> when it is a finite number: white space around it and every underscore are ignored.
  \<open>None\<close> is a text \<open>Decimal\<close> refuses, an infinity or a NaN.
\<close>

definition decimal_of :: "string \<Rightarrow> decimal option" where
  "decimal_of text =
     (case split_sign (filter (\<lambda>c. c \<noteq> CHR ''_'') (strip text)) of (negative, r) \<Rightarrow>
        let whole = takeWhile is_digit r; r1 = dropWhile is_digit r;
            point = (r1 \<noteq> [] \<and> hd r1 = CHR ''.'');
            fraction = (if point then takeWhile is_digit (tl r1) else []);
            r2 = (if point then dropWhile is_digit (tl r1) else r1)
        in if whole = [] \<and> fraction = [] then None
           else (case exponent_of r2 of None \<Rightarrow> None
             | Some e \<Rightarrow>
                 let m = int (nat_of_digits (whole @ fraction));
                     x = ((if negative then - m else m), e - int (length fraction))
                 in if representable x then Some x else None))"

definition decimal_less :: "decimal \<Rightarrow> decimal \<Rightarrow> bool" where
  "decimal_less x y = (case (x, y) of ((m, e), (n, f)) \<Rightarrow>
     m * 10 ^ nat (e - min e f) < n * 10 ^ nat (f - min e f))"

section \<open>JSON strings\<close>

definition hex_value :: "char \<Rightarrow> nat option" where
  "hex_value c = (let n = code c in
     if is_digit c then Some (n - 48)
     else if 97 \<le> n \<and> n \<le> 102 then Some (n - 87)
     else if 65 \<le> n \<and> n \<le> 70 then Some (n - 55) else None)"

definition hex_digit :: "nat \<Rightarrow> char" where
  "hex_digit n = char_of (if n < 10 then 48 + n else 87 + n)"

definition simple_escape :: "char \<Rightarrow> char option" where
  "simple_escape c = (if c = CHR 0x22 \<or> c = CHR 0x5C \<or> c = CHR ''/'' then Some c
     else if c = CHR ''b'' then Some (CHR 0x08) else if c = CHR ''f'' then Some (CHR 0x0C)
     else if c = CHR ''n'' then Some (CHR 0x0A) else if c = CHR ''r'' then Some (CHR 0x0D)
     else if c = CHR ''t'' then Some (CHR 0x09) else None)"

text \<open>The number four hexadecimal digits stand for.\<close>

definition hex4 :: "string \<Rightarrow> nat option" where
  "hex4 ds = (if length ds = 4 \<and> list_all (\<lambda>c. hex_value c \<noteq> None) ds
     then Some (fold (\<lambda>c n. 16 * n + the (hex_value c)) ds 0) else None)"

text \<open>One character of a JSON string after its opening quote, and what follows it.\<close>

definition json_unit :: "string \<Rightarrow> exn + char \<times> string" where
  "json_unit s = (case s of
     [] \<Rightarrow> Inl SettingValueError
   | c # cs \<Rightarrow>
       if c = CHR 0x5C then
         (case cs of
            [] \<Rightarrow> Inl SettingValueError
          | x # r \<Rightarrow>
              if x = CHR ''u'' then
                (case hex4 (take 4 r) of
                   None \<Rightarrow> Inl SettingValueError
                 | Some n \<Rightarrow> if n < 256 then Inr (char_of n, drop 4 r) else Inl OtherException)
              else (case simple_escape x of None \<Rightarrow> Inl SettingValueError | Some y \<Rightarrow> Inr (y, r)))
       else if code c < 32 then Inl SettingValueError
       else Inr (c, cs))"

lemma json_unit_shorter:
  assumes "json_unit s = Inr (c, r)"
  shows "length r < length s"
proof (cases s)
  case Nil
  with assms show ?thesis by (simp add: json_unit_def)
next
  case (Cons a cs)
  show ?thesis
  proof (cases "a = CHR 0x5C")
    case True
    then obtain x t where cs: "cs = x # t" using assms Cons by (cases cs) (simp_all add: json_unit_def)
    show ?thesis
    proof (cases "x = CHR ''u''")
      case u: True
      with assms Cons True cs have "r = drop 4 t"
        by (simp add: json_unit_def split: option.split_asm if_split_asm)
      then show ?thesis using Cons cs by simp
    next
      case False
      with assms Cons True cs have "r = t" by (simp add: json_unit_def split: option.split_asm)
      then show ?thesis using Cons cs by simp
    qed
  next
    case False
    with assms Cons have "r = cs" by (simp add: json_unit_def split: if_split_asm)
    then show ?thesis using Cons by simp
  qed
qed

text \<open>The characters up to the closing quote, and what follows it.\<close>

function json_scan :: "string \<Rightarrow> exn + string \<times> string" where
  "json_scan s =
     (if s \<noteq> [] \<and> hd s = CHR 0x22 then Inr ([], tl s)
      else case json_unit s of
          Inl x \<Rightarrow> Inl x
        | Inr (c, r) \<Rightarrow> map_sum id (\<lambda>(v, t). (c # v, t)) (json_scan r))"
  by pat_completeness auto
termination
  by (relation "measure length") (auto dest: json_unit_shorter)

declare json_scan.simps [simp del]

definition json_escape :: "char \<Rightarrow> string" where
  "json_escape c =
     (if c = CHR 0x22 then [CHR 0x5C, CHR 0x22]
      else if c = CHR 0x5C then [CHR 0x5C, CHR 0x5C]
      else if c = CHR 0x0A then [CHR 0x5C, CHR ''n'']
      else if c = CHR 0x0D then [CHR 0x5C, CHR ''r'']
      else if c = CHR 0x09 then [CHR 0x5C, CHR ''t'']
      else if c = CHR 0x0C then [CHR 0x5C, CHR ''f'']
      else if c = CHR 0x08 then [CHR 0x5C, CHR ''b'']
      else if code c < 32 then [CHR 0x5C, CHR ''u'', CHR ''0'', CHR ''0'', hex_digit (code c div 16), hex_digit (code c mod 16)]
      else [c])"

text \<open>\<open>json.dumps(value, ensure_ascii=False)\<close> of a string.\<close>

definition json_dumps :: "string \<Rightarrow> string" where
  "json_dumps s = CHR 0x22 # concat (List.map json_escape s) @ [CHR 0x22]"

section \<open>Reading and writing a value\<close>

definition MAX_STRING_LENGTH :: nat where
  "MAX_STRING_LENGTH = 2048"

definition integer_pattern :: "string \<Rightarrow> bool" where
  "integer_pattern s = (case split_sign s of (_, ds) \<Rightarrow> ds \<noteq> [] \<and> list_all is_digit ds)"

definition parse_string :: "string \<Rightarrow> exn + string" where
  "parse_string raw =
     (let normalized = strip raw in
      if \<not> starts_with normalized [CHR 0x22] then Inr normalized
      else case json_scan (tl normalized) of
          Inl x \<Rightarrow> Inl x
        | Inr (v, rest) \<Rightarrow> if rest = [] then Inr v else Inl SettingValueError)"

definition in_range :: "setting_definition \<Rightarrow> decimal \<Rightarrow> bool" where
  "in_range d x \<longleftrightarrow>
     \<not> (case sd_minimum d of None \<Rightarrow> False | Some lo \<Rightarrow> decimal_less x lo)
   \<and> \<not> (case sd_maximum d of None \<Rightarrow> False | Some hi \<Rightarrow> decimal_less hi x)"

definition parse_setting_value :: "setting_definition \<Rightarrow> string \<Rightarrow> exn + string" where
  "parse_setting_value d raw =
     (case sd_kind d of
        KIND_BOOLEAN \<Rightarrow>
          (let normalized = List.map to_lower (strip raw) in
           if normalized \<noteq> ''true'' \<and> normalized \<noteq> ''false'' then Inl SettingValueError
           else Inr (if normalized = ''true'' then ''True'' else ''False''))
      | KIND_INTEGER \<Rightarrow>
          (let normalized = strip raw in
           if \<not> integer_pattern normalized then Inl SettingValueError
           else case decimal_of normalized of
               None \<Rightarrow> Inl OtherException
             | Some x \<Rightarrow> if in_range d x then Inr normalized else Inl SettingValueError)
      | KIND_NUMBER \<Rightarrow>
          (let normalized = strip raw in
           case decimal_of normalized of
             None \<Rightarrow> Inl SettingValueError
           | Some x \<Rightarrow> if in_range d x then Inr normalized else Inl SettingValueError)
      | KIND_ENUM \<Rightarrow>
          (case parse_string raw of
             Inl x \<Rightarrow> Inl x
           | Inr v \<Rightarrow> if v \<in> set (sd_options d) then Inr v else Inl SettingValueError)
      | KIND_STRING \<Rightarrow>
          (case parse_string raw of
             Inl x \<Rightarrow> Inl x
           | Inr v \<Rightarrow>
               if MAX_STRING_LENGTH < length v then Inl SettingValueError
               else if CHR 0x00 \<in> set v \<or> CHR 0x0D \<in> set v \<or> CHR 0x0A \<in> set v then Inl SettingValueError
               else Inr v)
      | _ \<Rightarrow> Inl SettingValueError)"

definition serialize_setting_value :: "setting_definition \<Rightarrow> string \<Rightarrow> exn + string" where
  "serialize_setting_value d value =
     map_sum id (\<lambda>normalized. if sd_kind d = KIND_STRING then json_dumps normalized else normalized)
       (parse_setting_value d value)"

section \<open>A written value is read back\<close>

lemma hex_value_digit: "n < 16 \<Longrightarrow> hex_value (hex_digit n) = Some n"
  by (cases "n < 10") (simp_all add: hex_value_def hex_digit_def is_digit_def code_def Let_def)

lemma code_less: "code c < 256"
  by (simp add: code_def)

lemma char_of_code [simp]: "char_of (code c) = c"
  by (simp add: code_def)

lemma json_unit_hex:
  assumes "a < 16" "b < 16"
  shows "json_unit ([CHR 0x5C, CHR ''u'', CHR ''0'', CHR ''0'', hex_digit a, hex_digit b] @ r) = Inr (char_of (a * 16 + b), r)"
proof -
  have "hex_value (CHR ''0'') = Some 0" by code_simp
  moreover have "a * 16 + b < 256" using assms by simp
  ultimately show ?thesis using hex_value_digit [OF assms(1)] hex_value_digit [OF assms(2)]
    by (simp add: json_unit_def hex4_def numeral_eq_Suc ac_simps)
qed

lemma json_unit_escape: "json_unit (json_escape c @ r) = Inr (c, r)"
proof (cases "c \<in> {CHR 0x22, CHR 0x5C, CHR 0x0A, CHR 0x0D, CHR 0x09, CHR 0x0C, CHR 0x08}")
  case True
  then show ?thesis by (elim insertE) (simp_all add: json_escape_def json_unit_def simple_escape_def)
next
  case False
  show ?thesis
  proof (cases "code c < 32")
    case True
    with False have "json_escape c = [CHR 0x5C, CHR ''u'', CHR ''0'', CHR ''0'', hex_digit (code c div 16), hex_digit (code c mod 16)]"
      by (simp add: json_escape_def)
    then show ?thesis using json_unit_hex [of "code c div 16" "code c mod 16" r] code_less [of c] by simp
  next
    case small: False
    with False show ?thesis by (simp add: json_escape_def json_unit_def)
  qed
qed

lemma json_escape_start: "json_escape c \<noteq> [] \<and> hd (json_escape c) \<noteq> CHR 0x22"
  by (simp add: json_escape_def)

lemma json_scan_escaped: "json_scan (concat (List.map json_escape s) @ CHR 0x22 # r) = Inr (s, r)"
proof (induction s)
  case (Cons c s)
  then show ?case
    using json_escape_start [of c] json_unit_escape [of c "concat (List.map json_escape s) @ CHR 0x22 # r"]
    by (subst json_scan.simps) (simp add: hd_append)
qed (simp add: json_scan.simps)

lemma trimmed_dumps: "trimmed (json_dumps s)"
  by (simp add: trimmed_def json_dumps_def is_space_def code_def)

lemma parse_string_dumps: "parse_string (json_dumps s) = Inr s"
proof -
  have "strip (json_dumps s) = json_dumps s" by (simp add: trimmed_dumps)
  moreover have "json_scan (tl (json_dumps s)) = Inr (s, [])" "starts_with (json_dumps s) [CHR 0x22]"
    using json_scan_escaped [of s "[]"] by (simp_all add: json_dumps_def)
  ultimately show ?thesis by (simp add: parse_string_def)
qed

lemma strip_strip [simp]: "strip (strip t) = strip t"
  by simp

lemma decimal_of_strip [simp]: "decimal_of (strip t) = decimal_of t"
  by (simp add: decimal_of_def)

text \<open>Words, which quoting and stripping leave alone.\<close>

definition word_char :: "char \<Rightarrow> bool" where
  "word_char c \<longleftrightarrow> plain_char c \<and> c \<noteq> CHR '','' \<and> \<not> is_space c"

lemma word_value_text: "list_all word_char v \<Longrightarrow> value_text v \<and> one_line v"
proof -
  assume w: "list_all word_char v"
  have "balanced False v" using w by (induction v) (auto simp: word_char_def intro: balanced_empty balanced_char)
  moreover have "trimmed v" using w by (cases v) (auto simp: trimmed_def word_char_def list_all_iff)
  moreover have "is_space (CHR 0x0A)" by code_simp
  with w have "one_line v" by (auto simp: one_line_def word_char_def list_all_iff)
  ultimately show ?thesis by (simp add: value_text_def)
qed

definition options_ok :: "setting_definition \<Rightarrow> bool" where
  "options_ok d \<longleftrightarrow> list_all (list_all word_char) (sd_options d)"

lemma word_option:
  assumes "options_ok d" "v \<in> set (sd_options d)"
  shows "value_text v" "one_line v" "parse_string v = Inr v"
proof -
  from assms have w: "list_all word_char v" by (simp add: options_ok_def list_all_iff)
  then show "value_text v" "one_line v" using word_value_text by auto
  then have "strip v = v" by (simp add: value_text_def)
  moreover have "\<not> starts_with v [CHR 0x22]" using w by (cases v) (auto simp: word_char_def plain_char_def)
  ultimately show "parse_string v = Inr v" by (simp add: parse_string_def)
qed

text \<open>What is written to the file is read back as the value that was accepted.\<close>

lemma serialize_read_back:
  assumes "options_ok d" "serialize_setting_value d raw = Inr out"
  shows "parse_setting_value d out = parse_setting_value d raw"
proof -
  from assms(2) obtain v where v: "parse_setting_value d raw = Inr v"
    and out: "out = (if sd_kind d = KIND_STRING then json_dumps v else v)"
    by (auto simp: serialize_setting_value_def map_sum_def split: sum.splits)
  show ?thesis
  proof (cases "sd_kind d")
    case KIND_BOOLEAN
    have "List.map to_lower (strip ''True'') = ''true''" "List.map to_lower (strip ''False'') = ''false''" by code_simp+
    then have "parse_setting_value d ''True'' = Inr ''True''" "parse_setting_value d ''False'' = Inr ''False''"
      unfolding parse_setting_value_def KIND_BOOLEAN setting_kind.case Let_def by simp_all
    moreover have "v = ''True'' \<or> v = ''False''"
      using v unfolding parse_setting_value_def KIND_BOOLEAN setting_kind.case Let_def by (auto split: if_splits)
    ultimately show ?thesis using v out KIND_BOOLEAN by auto
  next
    case KIND_ENUM
    with v out have "v \<in> set (sd_options d)" "out = v"
      by (auto simp: parse_setting_value_def split: sum.splits if_splits)
    with word_option(3) [OF assms(1)] KIND_ENUM v show ?thesis by (simp add: parse_setting_value_def)
  next
    case KIND_STRING
    with v out show ?thesis by (auto simp: parse_setting_value_def parse_string_dumps split: sum.splits if_splits)
  next
    case KIND_INTEGER
    with v out show ?thesis
      by (auto simp: parse_setting_value_def Let_def split: option.splits if_splits)
  next
    case KIND_NUMBER
    with v out show ?thesis
      by (auto simp: parse_setting_value_def Let_def split: option.splits if_splits)
  qed (use v in \<open>simp_all add: parse_setting_value_def\<close>)
qed

lemma sign_chars: "c \<in> set s \<Longrightarrow> c \<in> set (snd (split_sign s)) \<or> c = CHR ''-'' \<or> c = CHR ''+''"
  by (auto simp: split_sign_def split: list.splits)

definition number_char :: "char \<Rightarrow> bool" where
  "number_char c \<longleftrightarrow> is_digit c \<or> c \<in> {CHR ''+'', CHR ''-'', CHR ''.'', CHR ''e'', CHR ''E'', CHR ''_''}"

lemma number_word: "number_char c \<Longrightarrow> word_char c"
  by (auto simp: number_char_def word_char_def plain_char_def is_digit_def is_space_def code_def Let_def)

lemma exponent_chars: "exponent_of s = Some e \<Longrightarrow> c \<in> set s \<Longrightarrow> number_char c"
  using sign_chars [of c "tl s"]
  by (auto simp: exponent_of_def number_char_def list_all_iff split: list.splits prod.splits if_splits)

lemma decimal_chars:
  assumes "decimal_of s = Some x" "c \<in> set (strip s)"
  shows "number_char c"
proof (cases "c = CHR ''_''")
  case False
  let ?f = "filter (\<lambda>c. c \<noteq> CHR ''_'') (strip s)"
  let ?r = "snd (split_sign ?f)"
  let ?r1 = "dropWhile is_digit ?r"
  let ?r2 = "if ?r1 \<noteq> [] \<and> hd ?r1 = CHR ''.'' then dropWhile is_digit (tl ?r1) else ?r1"
  from assms(1) obtain e where e: "exponent_of ?r2 = Some e"
    unfolding decimal_of_def Let_def
    by (simp add: case_prod_beta split: option.split_asm if_split_asm) 
  from assms(2) False have "c \<in> set ?f" by simp
  with sign_chars [of c ?f] consider "c \<in> set ?r" | "c = CHR ''-'' \<or> c = CHR ''+''" by blast
  then show ?thesis
  proof cases
    case 1
    have pieces: "c \<in> set (takeWhile is_digit t) \<or> c \<in> set (dropWhile is_digit t)" if "c \<in> set t" for t
      using that by (metis Un_iff set_append takeWhile_dropWhile_id)
    from pieces [OF 1] show ?thesis
    proof
      assume "c \<in> set (takeWhile is_digit ?r)"
      then show ?thesis by (auto simp: number_char_def dest: set_takeWhileD)
    next
      assume c1: "c \<in> set ?r1"
      show ?thesis
      proof (cases "c \<in> set ?r2")
        case True
        with exponent_chars [OF e] show ?thesis .
      next
        case False
        with c1 have "?r1 \<noteq> []" "hd ?r1 = CHR ''.''" "c \<notin> set (dropWhile is_digit (tl ?r1))"
          by (auto split: if_splits)
        moreover from this c1 have "c = CHR ''.'' \<or> c \<in> set (tl ?r1)" by (cases ?r1) auto
        ultimately have "c = CHR ''.'' \<or> c \<in> set (takeWhile is_digit (tl ?r1))" using pieces by blast
        then show ?thesis by (auto simp: number_char_def dest: set_takeWhileD)
      qed
    qed
  qed (auto simp: number_char_def)
qed (simp add: number_char_def)

lemma hex_digit_plain: "n < 16 \<Longrightarrow> hex_digit n \<notin> {CHR 0x5C, CHR 0x22, CHR 0x0A}"
proof
  assume "n < 16" "hex_digit n \<in> {CHR 0x5C, CHR 0x22, CHR 0x0A}"
  moreover have "hex_value (CHR 0x5C) = None" "hex_value (CHR 0x22) = None" "hex_value (CHR 0x0A) = None" by code_simp+
  ultimately show False using hex_value_digit [of n] by auto
qed

lemma json_escape_cases:
  obtains "json_escape c = [c]" "c \<noteq> CHR 0x5C" "c \<noteq> CHR 0x22" "c \<noteq> CHR 0x0A"
  | x where "json_escape c = [CHR 0x5C, x]" "x \<noteq> CHR 0x0A"
  | a b where "json_escape c = [CHR 0x5C, CHR ''u'', CHR ''0'', CHR ''0'', hex_digit a, hex_digit b]" "a < 16" "b < 16"
proof (cases "c \<in> {CHR 0x22, CHR 0x5C, CHR 0x0A, CHR 0x0D, CHR 0x09, CHR 0x0C, CHR 0x08}")
  case True
  then show thesis by (elim insertE) (auto simp: json_escape_def intro: that)
next
  case False
  then show thesis using that(1) that(3) [of "code c div 16" "code c mod 16"] code_less [of c]
    by (cases "code c < 32") (simp_all add: json_escape_def)
qed

lemma quoted_escape_append: "quoted_body s \<Longrightarrow> quoted_body (json_escape c @ s)"
proof (cases c rule: json_escape_cases)
  case (3 a b)
  then show "quoted_body s \<Longrightarrow> quoted_body (json_escape c @ s)"
    using hex_digit_plain [of a] hex_digit_plain [of b] by (auto intro!: quoted_body.intros)
qed (auto intro: quoted_body.intros)

lemma quoted_escaped: "quoted_body (concat (List.map json_escape s))"
  by (induction s) (auto intro: quoted_empty quoted_escape_append)

lemma dumps_value_text: "value_text (json_dumps s)"
proof -
  have "balanced False (json_dumps s)"
    using balanced_quote [OF quoted_escaped balanced_empty [of False], of s] by (simp add: json_dumps_def)
  then show ?thesis by (simp add: value_text_def trimmed_dumps)
qed

lemma escape_one_line: "CHR 0x0A \<notin> set (json_escape c)"
proof (cases c rule: json_escape_cases)
  case (3 a b)
  then show ?thesis using hex_digit_plain [of a] hex_digit_plain [of b] by auto
qed auto

lemma dumps_one_line: "one_line (json_dumps s)"
  using escape_one_line by (auto simp: one_line_def json_dumps_def)

lemma number_word_text: "decimal_of s = Some x \<Longrightarrow> value_text (strip s) \<and> one_line (strip s)"
  using decimal_chars [of s x] number_word by (intro word_value_text) (simp add: list_all_iff)

lemma serialized_text:
  assumes "options_ok d" "serialize_setting_value d raw = Inr out"
  shows "value_text out \<and> one_line out"
proof -
  from assms(2) obtain v where v: "parse_setting_value d raw = Inr v"
    and out: "out = (if sd_kind d = KIND_STRING then json_dumps v else v)"
    by (auto simp: serialize_setting_value_def map_sum_def split: sum.splits)
  show ?thesis
  proof (cases "sd_kind d")
    case KIND_BOOLEAN
    then have "out = ''True'' \<or> out = ''False''"
      using v out unfolding parse_setting_value_def KIND_BOOLEAN setting_kind.case Let_def by (auto split: if_splits)
    moreover have "list_all word_char ''True''" "list_all word_char ''False''" by code_simp+
    ultimately show ?thesis using word_value_text by blast
  next
    case KIND_ENUM
    with v out have "v \<in> set (sd_options d)" "out = v"
      by (auto simp: parse_setting_value_def split: sum.splits if_splits)
    then show ?thesis using word_option [OF assms(1)] by blast
  next
    case KIND_STRING
    with out show ?thesis by (simp add: dumps_value_text dumps_one_line)
  next
    case KIND_INTEGER
    with v obtain x where "v = strip raw" "decimal_of raw = Some x"
      by (auto simp: parse_setting_value_def Let_def split: option.splits if_splits)
    then show ?thesis using KIND_INTEGER out number_word_text by simp
  next
    case KIND_NUMBER
    with v obtain x where "v = strip raw" "decimal_of raw = Some x"
      by (auto simp: parse_setting_value_def Let_def split: option.splits if_splits)
    then show ?thesis using KIND_NUMBER out number_word_text by simp
  qed (use v in \<open>simp_all add: parse_setting_value_def\<close>)
qed

lemmas definition_tables = SETTING_DEFINITIONS_1_def SETTING_DEFINITIONS_2_def SETTING_DEFINITIONS_3_def
  SETTING_DEFINITIONS_4_def SETTING_DEFINITIONS_5_def SETTING_DEFINITIONS_6_def SETTING_DEFINITIONS_7_def
  SETTING_DEFINITIONS_8_def SETTING_DEFINITIONS_def

declare msg_text.simps [simp del]

lemma definitions_ok: "list_all options_ok SETTING_DEFINITIONS"
  by (simp add: definition_tables options_ok_def setting_of_def word_char_def plain_char_def is_space_def code_def)

lemma definition_of_ok: "definition_of k = Some d \<Longrightarrow> options_ok d"
  using definitions_ok by (auto simp: definition_of_def list_all_iff dest!: map_of_SomeD)

lemma definition_of_key: "definition_of k = Some d \<Longrightarrow> sd_key d = k"
  by (auto simp: definition_of_def dest!: map_of_SomeD)

end
