(* ===== verification/PalworldSettings.thy ===== *)
theory PalworldSettings
  imports SettingValues Producer Calendar "HOL-Library.List_Lexorder" "HOL-Library.Char_ord"
begin

text \<open>
  Editing PalWorldSettings.ini: the storage of the file (\<open>app/palworld_settings/storage.py\<close>), an interface with
  two implementations, and the service that inspects and saves it (\<open>app/palworld_settings/service.py\<close>). Every
  call of the operating system may fail; a write that fails leaves a part of the content. SHA-256 is the
  parameter \<open>version\<close>. A file that is not UTF-8 is an answer of the call that reads it.
\<close>

section \<open>The storage\<close>

text \<open>The file, its backups in the order of their creation, the temporary file, and the audit trail's database.\<close>

record site =
  ss_current :: "string option"
  ss_backups :: "(string \<times> string) list"
  ss_temp :: "string option"
  ss_calls :: nat
  ss_db :: db

datatype os_answer = Succeeded | Unsafe | FileNotFound | PermissionDenied | OSFailure

record os_env =
  os_answer :: "nat \<Rightarrow> os_answer"
  os_partial :: "nat \<Rightarrow> nat"
  os_clock :: "nat \<Rightarrow> int"

definition MAX_INI_BYTES :: nat where
  "MAX_INI_BYTES = 1024 * 1024"

text \<open>\<open>len(text.encode('utf-8'))\<close>.\<close>

definition utf8_length :: "string \<Rightarrow> nat" where
  "utf8_length s = sum_list (List.map (\<lambda>c. if code c < 128 then 1 else 2) s)"

text \<open>The error a failing call becomes where the file is read, and where it is written.\<close>

definition read_error :: "os_answer \<Rightarrow> exn" where
  "read_error a = PalworldSettingsStorageError (case a of
     FileNotFound \<Rightarrow> ''not_found'' | PermissionDenied \<Rightarrow> ''permission'' | OSFailure \<Rightarrow> ''io'' | _ \<Rightarrow> ''invalid_file'')"

definition write_error :: "os_answer \<Rightarrow> exn" where
  "write_error a = PalworldSettingsStorageError (case a of
     PermissionDenied \<Rightarrow> ''permission'' | Unsafe \<Rightarrow> ''invalid_file'' | _ \<Rightarrow> ''io'')"

definition os_call :: "os_env \<Rightarrow> (os_answer \<Rightarrow> exn) \<Rightarrow> (site, unit) prog" where
  "os_call env err = (\<lambda>s. let t = s\<lparr>ss_calls := Suc (ss_calls s)\<rparr> in
     (case os_answer env (ss_calls s) of Succeeded \<Rightarrow> (Inr (), t) | a \<Rightarrow> (Inl (err a), t)))"

text \<open>Writing a content with \<open>put\<close>: a call that fails has written a part of it.\<close>

definition os_write :: "os_env \<Rightarrow> (string \<Rightarrow> site \<Rightarrow> site) \<Rightarrow> string \<Rightarrow> (site, unit) prog" where
  "os_write env put content = (\<lambda>s. let t = s\<lparr>ss_calls := Suc (ss_calls s)\<rparr> in
     (case os_answer env (ss_calls s) of
        Succeeded \<Rightarrow> (Inr (), put content t)
      | a \<Rightarrow> (Inl (write_error a), put (take (os_partial env (ss_calls s)) content) t)))"

definition read_current :: "os_env \<Rightarrow> (site, string) prog" where
  "read_current env =
     andthen (os_call env read_error)
      (andthen (os_call env read_error)
        (bnd (reads ss_current) (\<lambda>current.
          case current of
            None \<Rightarrow> raise (PalworldSettingsStorageError ''not_found'')
          | Some content \<Rightarrow>
              andthen (os_call env read_error)
               (andthen (os_call env read_error)
                 (andthen (require (utf8_length content \<le> MAX_INI_BYTES) (PalworldSettingsStorageError ''invalid_file''))
                   (ret content))))))"

definition put_backup :: "string \<Rightarrow> string \<Rightarrow> site \<Rightarrow> site" where
  "put_backup name content s = s\<lparr>ss_backups := AList.update name content (ss_backups s)\<rparr>"

definition put_temp :: "string \<Rightarrow> site \<Rightarrow> site" where
  "put_temp content s = s\<lparr>ss_temp := Some content\<rparr>"

definition write_exclusive :: "os_env \<Rightarrow> string \<Rightarrow> string \<Rightarrow> (site, unit) prog" where
  "write_exclusive env name content =
     bnd (reads ss_backups) (\<lambda>existing.
       andthen (require (map_of existing name = None) (PalworldSettingsStorageError ''io''))
        (andthen (os_call env write_error)
          (andthen (modify (put_backup name []))
            (andthen (os_call env write_error)
              (andthen (os_write env (put_backup name) content)
                (os_call env write_error))))))"

text \<open>The temporary file is removed when it still exists, and not after it became the file.\<close>

definition remove_temporary :: "os_env \<Rightarrow> (site, unit) prog" where
  "remove_temporary env = bnd (reads ss_temp) (\<lambda>temporary.
     if temporary = None then ret ()
     else andthen (os_call env write_error) (modify (\<lambda>s. s\<lparr>ss_temp := None\<rparr>)))"

definition atomic_replace :: "os_env \<Rightarrow> string \<Rightarrow> (site, unit) prog" where
  "atomic_replace env content =
     andthen (os_call env write_error)
      (andthen (modify (put_temp []))
        (always
          (andthen (os_call env write_error)
            (andthen (os_write env put_temp content)
              (andthen (os_call env write_error)
                (andthen (os_call env write_error)
                  (andthen (os_call env write_error)
                    (andthen (modify (\<lambda>s. s\<lparr>ss_current := ss_temp s, ss_temp := None\<rparr>))
                      (andthen (os_call env write_error)
                        (os_call env write_error))))))))
          (remove_temporary env)))"

definition file_read :: "os_env \<Rightarrow> (string \<Rightarrow> string) \<Rightarrow> (site, string \<times> string) prog" where
  "file_read env version = bnd (read_current env) (\<lambda>content. ret (content, version content))"

definition backup_name_at :: "int \<Rightarrow> string \<Rightarrow> string" where
  "backup_name_at now expected_version =
     ''PalWorldSettings.ini.backup-'' @ compact_stamp now @ ''-'' @ take 12 expected_version"

definition file_write :: "os_env \<Rightarrow> (string \<Rightarrow> string) \<Rightarrow> string \<Rightarrow> string \<Rightarrow> (site, string) prog" where
  "file_write env version expected_version content =
     bnd (read_current env) (\<lambda>current.
       andthen (require (version current = expected_version) (PalworldSettingsStorageError ''conflict''))
        (andthen (require (utf8_length content \<le> MAX_INI_BYTES) (PalworldSettingsStorageError ''invalid_file''))
          (bnd (reads ss_calls) (\<lambda>n.
            let name = backup_name_at (os_clock env n) expected_version in
            andthen (write_exclusive env name current)
             (andthen (atomic_replace env content) (ret name))))))"

section \<open>The storage without a file\<close>

definition fake_read :: "string option \<Rightarrow> (string \<Rightarrow> string) \<Rightarrow> (site, string \<times> string) prog" where
  "fake_read error version =
     (case error of Some kind \<Rightarrow> raise (PalworldSettingsStorageError kind)
      | None \<Rightarrow> bnd (reads ss_current) (\<lambda>c. case c of None \<Rightarrow> raise AssertionError | Some content \<Rightarrow> ret (content, version content)))"

text \<open>\<open>f"PalWorldSettings.ini.backup-{n:04d}"\<close>.\<close>

definition fake_backup_name :: "nat \<Rightarrow> string" where
  "fake_backup_name n = (let s = str_int (int n) in ''PalWorldSettings.ini.backup-'' @ replicate (4 - length s) (CHR ''0'') @ s)"

definition fake_write :: "string option \<Rightarrow> (string \<Rightarrow> string) \<Rightarrow> string \<Rightarrow> string \<Rightarrow> (site, string) prog" where
  "fake_write error version expected_version content =
     (case error of Some kind \<Rightarrow> raise (PalworldSettingsStorageError kind)
      | None \<Rightarrow> bnd (reads ss_current) (\<lambda>c. case c of None \<Rightarrow> raise AssertionError
        | Some current \<Rightarrow>
            andthen (require (version current = expected_version) (PalworldSettingsStorageError ''conflict''))
             (bnd (reads (\<lambda>s. fake_backup_name (length (ss_backups s) + 1))) (\<lambda>name.
               andthen (modify (\<lambda>s. s\<lparr>ss_backups := ss_backups s @ [(name, current)], ss_current := Some content\<rparr>))
                 (ret name)))))"

section \<open>The interface of a storage\<close>

text \<open>The errors a storage may raise, and what of the site it never touches.\<close>

definition storage_error :: "exn \<Rightarrow> bool" where
  "storage_error e \<longleftrightarrow> (\<exists>kind. e = PalworldSettingsStorageError kind) \<or> e = AssertionError"

text \<open>The backups a site has are kept with their content.\<close>

definition keeps_backups :: "site \<Rightarrow> site \<Rightarrow> bool" where
  "keeps_backups s t \<longleftrightarrow> (\<forall>b. b \<in> set (ss_backups s) \<longrightarrow> b \<in> set (ss_backups t))"

definition same_content :: "site \<Rightarrow> site \<Rightarrow> bool" where
  "same_content s t \<longleftrightarrow> ss_current t = ss_current s \<and> ss_db t = ss_db s \<and> keeps_backups s t"

text \<open>The file holds the new content, and a backup the one it replaced.\<close>

definition replaced_content :: "string \<Rightarrow> site \<Rightarrow> site \<Rightarrow> bool" where
  "replaced_content content s t \<longleftrightarrow> ss_current t = Some content \<and> ss_db t = ss_db s \<and> keeps_backups s t
     \<and> (\<exists>name old. ss_current s = Some old \<and> (name, old) \<in> set (ss_backups t))"

locale settings_storage =
  fixes read_settings :: "(site, string \<times> string) prog"
    and write_settings :: "string \<Rightarrow> string \<Rightarrow> (site, string) prog"
    and version :: "string \<Rightarrow> string"
  assumes reading: "wp read_settings
      (\<lambda>(content, v) t. ss_current s = Some content \<and> v = version content \<and> same_content s t)
      (\<lambda>e t. storage_error e \<and> same_content s t) s"
    and writing: "wp (write_settings expected content)
      (\<lambda>name t. replaced_content content s t \<and> (\<exists>old. ss_current s = Some old \<and> version old = expected
         \<and> (name, old) \<in> set (ss_backups t)))
      (\<lambda>e t. storage_error e \<and> (same_content s t \<or> replaced_content content s t)) s"

lemma keeps_backups_refl [simp]: "keeps_backups s s"
  by (simp add: keeps_backups_def)

lemma same_content_refl [simp]: "same_content s s"
  by (simp add: same_content_def)

lemma same_content_trans: "same_content s t \<Longrightarrow> same_content t u \<Longrightarrow> same_content s u"
  by (auto simp: same_content_def keeps_backups_def)

lemma same_content_calls [simp]: "same_content s (t\<lparr>ss_calls := n\<rparr>) = same_content s t"
  by (simp add: same_content_def keeps_backups_def)

lemma storage_error_kind [simp]: "storage_error (PalworldSettingsStorageError kind)"
  by (simp add: storage_error_def)

lemma storage_error_mapped [simp]: "storage_error (read_error a)" "storage_error (write_error a)"
  by (simp_all add: read_error_def write_error_def)

lemma wp_os_call [wp_simps]:
  "wp (os_call env err) Q E s = (let t = s\<lparr>ss_calls := Suc (ss_calls s)\<rparr> in
     (case os_answer env (ss_calls s) of Succeeded \<Rightarrow> Q () t | a \<Rightarrow> E (err a) t))"
  by (simp add: os_call_def wp_def Let_def split: os_answer.split)

lemma wp_os_write [wp_simps]:
  "wp (os_write env put content) Q E s = (let t = s\<lparr>ss_calls := Suc (ss_calls s)\<rparr> in
     (case os_answer env (ss_calls s) of Succeeded \<Rightarrow> Q () (put content t)
      | a \<Rightarrow> E (write_error a) (put (take (os_partial env (ss_calls s)) content) t)))"
  by (simp add: os_write_def wp_def Let_def split: os_answer.split)

text \<open>A call that may fail: it is enough to show both outcomes for every answer.\<close>

lemma wp_os_callI:
  "Q () (s\<lparr>ss_calls := Suc (ss_calls s)\<rparr>) \<Longrightarrow> (\<And>a. E (err a) (s\<lparr>ss_calls := Suc (ss_calls s)\<rparr>))
    \<Longrightarrow> wp (os_call env err) Q E s"
  by (simp add: wp_os_call Let_def split: os_answer.split)

lemma wp_os_writeI:
  "Q () (put content (s\<lparr>ss_calls := Suc (ss_calls s)\<rparr>))
    \<Longrightarrow> (\<And>a n. E (write_error a) (put (take n content) (s\<lparr>ss_calls := Suc (ss_calls s)\<rparr>)))
    \<Longrightarrow> wp (os_write env put content) Q E s"
  by (simp add: wp_os_write Let_def split: os_answer.split)

lemma wp_read_current:
  "wp (read_current env) (\<lambda>content t. ss_current s = Some content \<and> same_content s t)
     (\<lambda>e t. storage_error e \<and> same_content s t) s"
  unfolding read_current_def wp_andthen wp_bnd wp_reads
  by (intro wp_os_callI) (auto split: option.split simp: wp_simps Let_def split: os_answer.split)

lemma alist_update_keeps:
  "k \<noteq> name \<Longrightarrow> (k, v) \<in> set m \<Longrightarrow> (k, v) \<in> set (AList.update name c m)"
  "(name, c) \<in> set (AList.update name c m)"
  by (induction m) auto

lemma put_backup_fresh:
  assumes "map_of (ss_backups s) name = None" "same_content s t"
  shows "same_content s (put_backup name c t)" "(name, c) \<in> set (ss_backups (put_backup name c t))"
proof -
  have "(k, v) \<in> set (AList.update name c (ss_backups t))" if "(k, v) \<in> set (ss_backups s)" for k v
  proof (rule alist_update_keeps(1))
    show "k \<noteq> name" using that assms(1) by (force simp: map_of_eq_None_iff)
    show "(k, v) \<in> set (ss_backups t)" using that assms(2) by (simp add: same_content_def keeps_backups_def)
  qed
  then show "same_content s (put_backup name c t)"
    using assms(2) by (simp add: same_content_def keeps_backups_def put_backup_def)
qed (simp add: put_backup_def alist_update_keeps(2))

lemma put_backup_calls [simp]: "put_backup name c (t\<lparr>ss_calls := n\<rparr>) = (put_backup name c t)\<lparr>ss_calls := n\<rparr>"
  by (simp add: put_backup_def)

lemma wp_write_exclusive:
  "wp (write_exclusive env name content)
     (\<lambda>_ t. same_content s t \<and> (name, content) \<in> set (ss_backups t))
     (\<lambda>e t. storage_error e \<and> same_content s t) s"
proof (cases "map_of (ss_backups s) name")
  case None
  note put = put_backup_fresh [OF None]
  show ?thesis
    unfolding write_exclusive_def wp_bnd wp_reads wp_andthen wp_require wp_modify if_P [OF None]
    by (intro wp_os_callI wp_os_writeI) (simp_all add: put)
qed (simp add: write_exclusive_def wp_simps)

text \<open>What replacing the file leaves: the old content or the new one, and everything else.\<close>

definition replacing :: "string \<Rightarrow> site \<Rightarrow> site \<Rightarrow> bool" where
  "replacing content s t \<longleftrightarrow> (ss_current t = ss_current s \<or> ss_current t = Some content)
     \<and> ss_db t = ss_db s \<and> ss_backups t = ss_backups s"

lemma replacing_simps [simp]:
  "replacing content s s"
  "replacing content s (t\<lparr>ss_calls := n\<rparr>) = replacing content s t"
  "replacing content s (t\<lparr>ss_temp := x\<rparr>) = replacing content s t"
  "replacing content s (put_temp c t) = replacing content s t"
  "replacing content s (t\<lparr>ss_current := Some content\<rparr>) \<longleftrightarrow> ss_db t = ss_db s \<and> ss_backups t = ss_backups s"
  by (simp_all add: replacing_def put_temp_def)

lemma read_write_error_fact [simp]: "write_error a \<noteq> Diverges"
  by (simp add: write_error_def)

lemma wp_remove_temporary:
  "replacing content s t \<Longrightarrow>
     wp (remove_temporary env) (\<lambda>_ u. replacing content s u \<and> ss_current u = ss_current t)
       (\<lambda>e u. storage_error e \<and> replacing content s u) t"
  by (auto simp: remove_temporary_def wp_simps Let_def split: os_answer.split)

lemma wp_atomic_replace:
  "wp (atomic_replace env content)
     (\<lambda>_ t. replacing content s t \<and> ss_current t = Some content)
     (\<lambda>e t. storage_error e \<and> replacing content s t) s"
proof -
  have failed: "wp (remove_temporary env) (\<lambda>_ u. replacing content s u)
       (\<lambda>e u. storage_error e \<and> replacing content s u) t" if "replacing content s t" for t
    by (rule wp_mono [OF wp_remove_temporary [OF that]]) auto
  have ended: "wp (remove_temporary env) (\<lambda>_ u. replacing content s u \<and> ss_current u = Some content)
       (\<lambda>e u. storage_error e \<and> replacing content s u) t" if "replacing content s t" "ss_current t = Some content" for t
    by (rule wp_mono [OF wp_remove_temporary [OF that(1)]]) (use that(2) in auto)
  have moved: "replacing content s (t\<lparr>ss_current := Some content, ss_temp := None, ss_calls := n\<rparr>)"
    if "ss_db t = ss_db s" "ss_backups t = ss_backups s" for t n
    using that by (simp add: replacing_def)
  show ?thesis
    unfolding atomic_replace_def wp_andthen wp_always wp_modify
    by (intro wp_os_callI wp_os_writeI) (simp_all add: failed ended moved put_temp_def)
qed

lemma wp_file_write:
  "wp (file_write env version expected content)
     (\<lambda>name t. replaced_content content s t \<and> (\<exists>old. ss_current s = Some old \<and> version old = expected
        \<and> (name, old) \<in> set (ss_backups t)))
     (\<lambda>e t. storage_error e \<and> (same_content s t \<or> replaced_content content s t)) s"
  unfolding file_write_def wp_bnd
proof (rule wp_mono [OF wp_read_current])
  fix current t
  assume t: "ss_current s = Some current \<and> same_content s t"
  have replace: "wp (andthen (atomic_replace env content) (ret name))
      (\<lambda>name u. replaced_content content s u \<and> (\<exists>old. ss_current s = Some old \<and> version old = expected
        \<and> (name, old) \<in> set (ss_backups u)))
      (\<lambda>e u. storage_error e \<and> (same_content s u \<or> replaced_content content s u)) v"
    if "same_content t v" "(name, current) \<in> set (ss_backups v)" "version current = expected" for name v
    unfolding wp_andthen wp_ret
    by (rule wp_mono [OF wp_atomic_replace [of env content v]])
      (use that t in \<open>auto simp: replaced_content_def replacing_def same_content_def keeps_backups_def\<close>)
  have backup: "wp (andthen (write_exclusive env name current) (andthen (atomic_replace env content) (ret name)))
      (\<lambda>name u. replaced_content content s u \<and> (\<exists>old. ss_current s = Some old \<and> version old = expected
        \<and> (name, old) \<in> set (ss_backups u)))
      (\<lambda>e u. storage_error e \<and> (same_content s u \<or> replaced_content content s u)) t"
    if "version current = expected" for name
    unfolding wp_andthen [of "write_exclusive env name current"]
    by (rule wp_mono [OF wp_write_exclusive]) (use that t replace same_content_trans in blast)+
  show "wp (andthen (require (version current = expected) (PalworldSettingsStorageError ''conflict''))
        (andthen (require (utf8_length content \<le> MAX_INI_BYTES) (PalworldSettingsStorageError ''invalid_file''))
          (bnd (reads ss_calls) (\<lambda>n. let name = backup_name_at (os_clock env n) expected in
            andthen (write_exclusive env name current) (andthen (atomic_replace env content) (ret name))))))
      (\<lambda>name u. replaced_content content s u \<and> (\<exists>old. ss_current s = Some old \<and> version old = expected
        \<and> (name, old) \<in> set (ss_backups u)))
      (\<lambda>e u. storage_error e \<and> (same_content s u \<or> replaced_content content s u)) t"
    unfolding wp_andthen [of "require _ _"] wp_require wp_bnd [of "reads _"] wp_reads wp_Let
    using t backup by simp
qed simp

interpretation file_storage: settings_storage "file_read env version" "file_write env version" version
  for env version
proof
  fix s
  show "wp (file_read env version)
      (\<lambda>(content, v) t. ss_current s = Some content \<and> v = version content \<and> same_content s t)
      (\<lambda>e t. storage_error e \<and> same_content s t) s"
    unfolding file_read_def wp_bnd wp_ret by (rule wp_mono [OF wp_read_current]) simp_all
qed (rule wp_file_write)

interpretation fake_storage: settings_storage "fake_read error version" "fake_write error version" version
  for error version
proof
  fix s expected content
  show "wp (fake_read error version)
      (\<lambda>(content, v) t. ss_current s = Some content \<and> v = version content \<and> same_content s t)
      (\<lambda>e t. storage_error e \<and> same_content s t) s"
    by (auto simp: fake_read_def wp_simps storage_error_def split: option.split)
  show "wp (fake_write error version expected content)
      (\<lambda>name t. replaced_content content s t \<and> (\<exists>old. ss_current s = Some old \<and> version old = expected
        \<and> (name, old) \<in> set (ss_backups t)))
      (\<lambda>e t. storage_error e \<and> (same_content s t \<or> replaced_content content s t)) s"
    by (auto simp: fake_write_def wp_simps storage_error_def replaced_content_def keeps_backups_def split: option.split)
qed

section \<open>Inspecting the file\<close>

record setting_field =
  sf_definition :: setting_definition
  sf_value :: "string option"
  sf_editable :: bool
  sf_issue :: "string option"

definition setting_field_view :: "setting_definition \<Rightarrow> string option \<Rightarrow> bool \<Rightarrow> string option \<Rightarrow> setting_field" where
  "setting_field_view d v editable issue =
     \<lparr>sf_definition = d, sf_value = v, sf_editable = editable, sf_issue = issue\<rparr>"

definition field_view :: "setting_definition \<Rightarrow> ini_entry list \<Rightarrow> setting_field" where
  "field_view d entries =
     (if length entries \<noteq> 1 then
        setting_field_view d None False (Some (msg_text ''A chave aparece mais de uma vez e foi preservada sem edi_c~ao.''))
      else if sd_kind d = KIND_SENSITIVE then
        setting_field_view d None False (Some (msg_text ''Valor sens/ivel ocultado e preservado sem edi_c~ao.''))
      else if sd_kind d = KIND_READ_ONLY then
        setting_field_view d None False (Some (msg_text ''Estrutura reconhecida e preservada sem edi_c~ao nesta vers~ao.''))
      else case ie_value (hd entries) of
          None \<Rightarrow> setting_field_view d None False (Some (msg_text ''O valor n~ao p^ode ser interpretado e foi preservado.''))
        | Some raw_value \<Rightarrow>
            (case parse_setting_value d raw_value of
               Inr v \<Rightarrow> setting_field_view d (Some v) True None
             | Inl _ \<Rightarrow> setting_field_view d None False
                 (Some (msg_text ''O valor usa um formato n~ao suportado e foi preservado.''))))"

record settings_snapshot =
  sn_version :: string
  sn_categories :: "(string \<times> setting_field list) list"
  sn_unknown_keys :: "string list"
  sn_malformed_entries :: nat

definition editable_keys :: "settings_snapshot \<Rightarrow> string list" where
  "editable_keys snapshot =
     List.map (\<lambda>f. sd_key (sf_definition f)) (filter sf_editable (concat (List.map snd (sn_categories snapshot))))"

definition entries_with :: "ini_entry list \<Rightarrow> string \<Rightarrow> ini_entry list" where
  "entries_with entries key = filter (\<lambda>e. ie_key e = Some key) entries"

definition fields_of :: "ini_entry list \<Rightarrow> setting_field list" where
  "fields_of entries =
     List.map (\<lambda>d. field_view d (entries_with entries (sd_key d)))
       (filter (\<lambda>d. entries_with entries (sd_key d) \<noteq> []) SETTING_DEFINITIONS)"

definition unknown_keys :: "ini_entry list \<Rightarrow> string list" where
  "unknown_keys entries = sort (remdups (filter (\<lambda>k. definition_of k = None)
     (List.map the (filter (\<lambda>k. k \<noteq> None) (List.map ie_key entries)))))"

record inspected_settings =
  is_parsed :: parsed_ini
  is_snapshot :: settings_snapshot
  is_fields :: "setting_field list"

definition inspect_settings :: "string \<times> string \<Rightarrow> exn + inspected_settings" where
  "inspect_settings stored =
     (case parse_ini (fst stored) of
        Inl _ \<Rightarrow> Inl PalworldSettingsValidationError
      | Inr parsed \<Rightarrow>
          (let entries = pi_entries parsed; views = fields_of entries in
           Inr \<lparr>is_parsed = parsed,
             is_snapshot = \<lparr>sn_version = snd stored,
               sn_categories = filter (\<lambda>(_, fs). fs \<noteq> []) (List.map (\<lambda>category. (category,
                 filter (\<lambda>f. sd_category (sf_definition f) = category) views)) SETTING_CATEGORIES),
               sn_unknown_keys = unknown_keys entries,
               sn_malformed_entries = length (filter (\<lambda>e. ie_key e = None \<and> strip (ie_raw e) \<noteq> []) entries)\<rparr>,
             is_fields = views\<rparr>))"

definition field_of :: "setting_field list \<Rightarrow> string \<Rightarrow> setting_field option" where
  "field_of views key = map_of (List.map (\<lambda>f. (sd_key (sf_definition f), f)) views) key"

section \<open>Saving\<close>

definition of_result :: "exn + 'a \<Rightarrow> ('s, 'a) prog" where
  "of_result r = (\<lambda>s. (r, s))"

text \<open>The loop over the editable keys: the serialized value of each key that changes.\<close>

fun changed_values :: "setting_field list \<Rightarrow> (string \<times> string) list \<Rightarrow> string list \<Rightarrow> exn + (string \<times> string) list" where
  "changed_values views updates [] = Inr []"
| "changed_values views updates (key # keys) =
     (case (field_of views key, definition_of key, map_of updates key) of
        (Some field, Some d, Some text) \<Rightarrow>
          (case parse_setting_value d text of
             Inl x \<Rightarrow> Inl x
           | Inr submitted \<Rightarrow>
               if Some submitted = sf_value field then changed_values views updates keys
               else (case serialize_setting_value d text of
                   Inl x \<Rightarrow> Inl x
                 | Inr v \<Rightarrow> map_sum id ((#) (key, v)) (changed_values views updates keys)))
      | _ \<Rightarrow> Inl OtherException)"

definition settings_audit ::
  "int \<Rightarrow> int \<Rightarrow> audit_result \<Rightarrow> string list \<Rightarrow> string option \<Rightarrow> string option \<Rightarrow> (site, unit) prog" where
  "settings_audit now user_id result changed_fields backup_name error_kind = (\<lambda>s.
     case rollback (record_audit_event now (admin_event ''PALWORLD_SETTINGS_UPDATE'' result (Some user_id) None
        (Some ''PalWorldSettings.ini'')
        (Some ([(''changed_fields'', JArr (List.map JStr changed_fields)), (''schema_version'', JStr ''1.0.4'')]
          @ (case backup_name of None \<Rightarrow> [] | Some n \<Rightarrow> [(''backup_name'', JStr n)])
          @ (case error_kind of None \<Rightarrow> [] | Some k \<Rightarrow> [(''error_kind'', JStr k)]))))) (ss_db s)
     of (r, d) \<Rightarrow> (r, s\<lparr>ss_db := d\<rparr>))"

record save_result =
  sv_snapshot :: settings_snapshot
  sv_changed_fields :: "string list"
  sv_backup_name :: "string option"

text \<open>The part of \<open>save\<close> after the file was read and inspected.\<close>

definition write_changes ::
  "(site, string \<times> string) prog \<Rightarrow> (string \<Rightarrow> string \<Rightarrow> (site, string) prog) \<Rightarrow> string \<Rightarrow> int \<Rightarrow> int
     \<Rightarrow> parsed_ini \<Rightarrow> (string \<times> string) list \<Rightarrow> (site, save_result) prog" where
  "write_changes read_settings write_settings expected_version user_id now parsed replacements =
     bnd (of_result (render parsed (map_of replacements))) (\<lambda>rendered.
       andthen (of_result (parse_ini rendered))
        (bnd (write_settings expected_version rendered) (\<lambda>backup_name.
          bnd read_settings (\<lambda>stored.
            bnd (of_result (inspect_settings stored)) (\<lambda>inspected.
              andthen (settings_audit now user_id AUDIT_RESULT_SUCCESS (List.map fst replacements) (Some backup_name) None)
                (ret \<lparr>sv_snapshot = is_snapshot inspected, sv_changed_fields = List.map fst replacements,
                   sv_backup_name = Some backup_name\<rparr>))))))"

definition save_inspected ::
  "(site, string \<times> string) prog \<Rightarrow> (string \<Rightarrow> string \<Rightarrow> (site, string) prog) \<Rightarrow> (string \<times> string) list
     \<Rightarrow> string \<Rightarrow> int \<Rightarrow> int \<Rightarrow> inspected_settings \<Rightarrow> (site, save_result) prog" where
  "save_inspected read_settings write_settings updates expected_version user_id now inspected =
     (let keys = editable_keys (is_snapshot inspected) in
      andthen (require (set (List.map fst updates) = set keys) PalworldSettingsValidationError)
       (bnd (of_result (changed_values (is_fields inspected) updates keys)) (\<lambda>replacements.
         if replacements = [] then
           andthen (settings_audit now user_id AUDIT_RESULT_SUCCESS [] None None)
             (ret \<lparr>sv_snapshot = is_snapshot inspected, sv_changed_fields = [], sv_backup_name = None\<rparr>)
         else write_changes read_settings write_settings expected_version user_id now (is_parsed inspected) replacements)))"

definition save_body ::
  "(site, string \<times> string) prog \<Rightarrow> (string \<Rightarrow> string \<Rightarrow> (site, string) prog) \<Rightarrow> (string \<times> string) list
     \<Rightarrow> string \<Rightarrow> int \<Rightarrow> int \<Rightarrow> (site, save_result) prog" where
  "save_body read_settings write_settings updates expected_version user_id now =
     bnd read_settings (\<lambda>stored.
       andthen (require (snd stored = expected_version) (PalworldSettingsStorageError ''conflict''))
        (bnd (of_result (inspect_settings stored))
          (save_inspected read_settings write_settings updates expected_version user_id now)))"

definition save_settings ::
  "(site, string \<times> string) prog \<Rightarrow> (string \<Rightarrow> string \<Rightarrow> (site, string) prog) \<Rightarrow> (string \<times> string) list
     \<Rightarrow> string \<Rightarrow> int \<Rightarrow> int \<Rightarrow> (site, save_result) prog" where
  "save_settings read_settings write_settings updates expected_version user_id now =
     (let safe_requested_keys = sort (remdups (filter (\<lambda>k. definition_of k \<noteq> None) (List.map fst updates))) in
      handle (save_body read_settings write_settings updates expected_version user_id now)
       (\<lambda>e. case e of
          SettingValueError \<Rightarrow>
            andthen (settings_audit now user_id AUDIT_RESULT_FAILURE safe_requested_keys None (Some ''validation''))
              (raise PalworldSettingsValidationError)
        | IniParseError \<Rightarrow>
            andthen (settings_audit now user_id AUDIT_RESULT_FAILURE safe_requested_keys None (Some ''validation''))
              (raise PalworldSettingsValidationError)
        | PalworldSettingsValidationError \<Rightarrow>
            andthen (settings_audit now user_id AUDIT_RESULT_FAILURE safe_requested_keys None (Some ''validation''))
              (raise PalworldSettingsValidationError)
        | PalworldSettingsStorageError kind \<Rightarrow>
            andthen (settings_audit now user_id AUDIT_RESULT_FAILURE safe_requested_keys None (Some kind))
              (raise e)
        | _ \<Rightarrow> raise e))"

definition load_settings :: "(site, string \<times> string) prog \<Rightarrow> (site, settings_snapshot) prog" where
  "load_settings read_settings = bnd read_settings (\<lambda>stored.
     bnd (of_result (inspect_settings stored)) (\<lambda>inspected. ret (is_snapshot inspected)))"

section \<open>What a save leaves\<close>

text \<open>
  An edit of the parsed file: the text is what the file renders to with new values of the changed fields, known settings
  that are neither sensitive nor read-only, each value reading as the one that was submitted. When
  every setting of the file is on one line, it is read back with exactly these values replaced.
\<close>

definition edit_of :: "(string \<times> string) list \<Rightarrow> parsed_ini \<Rightarrow> string list \<Rightarrow> string \<Rightarrow> parsed_ini \<Rightarrow> bool" where
  "edit_of updates p changed c' p' \<longleftrightarrow>
     (\<exists>values. dom values = set changed \<and> render p values = Inr c'
       \<and> (\<forall>k\<in>set changed. \<exists>d text v. definition_of k = Some d \<and> sd_kind d \<notin> {KIND_SENSITIVE, KIND_READ_ONLY}
            \<and> map_of updates k = Some text \<and> values k = Some v
            \<and> parse_setting_value d v = parse_setting_value d text)
       \<and> ((\<forall>e\<in>set (pi_entries p). one_line (ie_raw e)) \<longrightarrow> pi_prefix p' = pi_prefix p \<and> pi_suffix p' = pi_suffix p
            \<and> list_all2 (edited values) (pi_entries p) (pi_entries p')))"

text \<open>The file is as it was, or a complete edit whose original is in a backup.\<close>

definition edited_file :: "(string \<times> string) list \<Rightarrow> string \<Rightarrow> parsed_ini \<Rightarrow> string list \<Rightarrow> string \<Rightarrow> site \<Rightarrow> bool" where
  "edited_file updates c p changed name t \<longleftrightarrow>
     (\<exists>c' p'. ss_current t = Some c' \<and> parse_ini c' = Inr p' \<and> edit_of updates p changed c' p' \<and> (name, c) \<in> set (ss_backups t))"

definition unharmed :: "(string \<times> string) list \<Rightarrow> string \<Rightarrow> parsed_ini \<Rightarrow> site \<Rightarrow> bool" where
  "unharmed updates c p t \<longleftrightarrow> ss_current t = Some c \<or> (\<exists>changed name. edited_file updates c p changed name t)"

definition saved :: "(string \<times> string) list \<Rightarrow> string \<Rightarrow> parsed_ini \<Rightarrow> save_result \<Rightarrow> site \<Rightarrow> bool" where
  "saved updates c p r t \<longleftrightarrow>
     (if sv_changed_fields r = [] then ss_current t = Some c
      else \<exists>name. sv_backup_name r = Some name \<and> edited_file updates c p (sv_changed_fields r) name t)"

lemma changed_values_sound:
  "changed_values views updates keys = Inr repl \<Longrightarrow> (k, v) \<in> set repl
    \<Longrightarrow> \<exists>d text. definition_of k = Some d \<and> map_of updates k = Some text \<and> serialize_setting_value d text = Inr v"
proof (induction keys arbitrary: repl)
  case (Cons key keys)
  from Cons.prems(1) obtain view d raw submitted where
    k: "field_of views key = Some view" "definition_of key = Some d" "map_of updates key = Some raw"
      "parse_setting_value d raw = Inr submitted"
    by (auto split: option.split_asm sum.split_asm)
  show ?case
  proof (cases "Some submitted = sf_value view")
    case True
    with Cons k show ?thesis by simp
  next
    case False
    with Cons.prems(1) k obtain w rest where "serialize_setting_value d raw = Inr w"
      "changed_values views updates keys = Inr rest" "repl = (key, w) # rest"
      by (auto simp: map_sum_def split: sum.split_asm)
    with Cons k show ?thesis by auto
  qed
qed simp

lemma serialize_kind:
  "serialize_setting_value d text = Inr v \<Longrightarrow> sd_kind d \<noteq> KIND_SENSITIVE \<and> sd_kind d \<noteq> KIND_READ_ONLY"
  by (auto simp: serialize_setting_value_def parse_setting_value_def)

lemma rendered_edit_of:
  assumes "parse_ini c = Inr p" "parse_ini c' = Inr p'"
    and "changed_values views updates keys = Inr repl" "render p (map_of repl) = Inr c'"
  shows "edit_of updates p (List.map fst repl) c' p'"
proof -
  have sound: "\<exists>d text. definition_of k = Some d \<and> map_of updates k = Some text \<and> serialize_setting_value d text = Inr v"
    if "map_of repl k = Some v" for k v
    using changed_values_sound [OF assms(3)] map_of_SomeD [OF that] by blast
  have "\<forall>k v. map_of repl k = Some v \<longrightarrow> value_text v \<and> one_line v"
    using sound serialized_text definition_of_ok by blast
  from rendered_edit_parses [OF assms(1) this] assms(2,4) have lines: "pi_prefix p' = pi_prefix p \<and> pi_suffix p' = pi_suffix p
      \<and> list_all2 (edited (map_of repl)) (pi_entries p) (pi_entries p')" if "\<forall>e\<in>set (pi_entries p). one_line (ie_raw e)"
    using that by fastforce
  have "\<exists>d text v. definition_of k = Some d \<and> sd_kind d \<notin> {KIND_SENSITIVE, KIND_READ_ONLY}
      \<and> map_of updates k = Some text \<and> map_of repl k = Some v
      \<and> parse_setting_value d v = parse_setting_value d text" if k: "k \<in> set (List.map fst repl)" for k
  proof -
    from k obtain v where v: "map_of repl k = Some v" by (metis list.set_map map_of_eq_None_iff not_None_eq)
    from sound [OF this] obtain d raw where d: "definition_of k = Some d" "map_of updates k = Some raw"
      "serialize_setting_value d raw = Inr v" by blast
    with v serialize_kind [OF d(3)] serialize_read_back [OF definition_of_ok [OF d(1)] d(3)] show ?thesis by auto
  qed
  moreover have "dom (map_of repl) = set (List.map fst repl)" by (simp add: dom_map_of_conv_image_fst)
  ultimately show ?thesis using lines assms(4) unfolding edit_of_def by blast
qed

lemma wp_settings_audit:
  assumes "\<And>d. Q () (s\<lparr>ss_db := d\<rparr>)" "\<And>d. E ValueError (s\<lparr>ss_db := d\<rparr>)"
  shows "wp (settings_audit now user_id result changed backup kind) Q E s"
  using assms assms(2) [of "ss_db s"]
  by (auto simp: settings_audit_def wp_def rollback_def record_audit_event_def run_code split: sum.split prod.split)

lemma wp_of_result [wp_simps]: "wp (of_result r) Q E s = (case r of Inl e \<Rightarrow> E e s | Inr x \<Rightarrow> Q x s)"
  by (simp add: wp_def of_result_def)

lemma inspect_parsed: "parse_ini c = Inr p \<Longrightarrow> inspect_settings (c, v) = Inr i \<Longrightarrow> is_parsed i = p"
  by (auto simp: inspect_settings_def Let_def)

lemma edited_file_db [simp]: "edited_file updates c p changed name (t\<lparr>ss_db := d\<rparr>) = edited_file updates c p changed name t"
  by (simp add: edited_file_def)

lemma unharmed_db [simp]: "unharmed updates c p (t\<lparr>ss_db := d\<rparr>) = unharmed updates c p t"
  by (simp add: unharmed_def)

lemma saved_db [simp]: "saved updates c p r (t\<lparr>ss_db := d\<rparr>) = saved updates c p r t"
  by (simp add: saved_def)

lemma edited_file_same: "edited_file updates c p changed name t \<Longrightarrow> same_content t u \<Longrightarrow> edited_file updates c p changed name u"
  by (auto simp: edited_file_def same_content_def keeps_backups_def)

context settings_storage
begin

lemma reading_then:
  assumes "\<And>content t. ss_current s = Some content \<Longrightarrow> same_content s t \<Longrightarrow> wp (f (content, version content)) Q E t"
    and "\<And>e t. same_content s t \<Longrightarrow> E e t"
  shows "wp (bnd read_settings f) Q E s"
  unfolding wp_bnd by (rule wp_mono [OF reading [of s]]) (use assms in auto)

lemma wp_write_changes:
  assumes c: "parse_ini c = Inr p" "ss_current t = Some c"
    and r: "changed_values views updates keys = Inr repl" "repl \<noteq> []"
  shows "wp (write_changes read_settings write_settings expected user_id now p repl)
    (saved updates c p) (\<lambda>_. unharmed updates c p) t"
proof (cases "render p (map_of repl)")
  case (Inl x)
  with c(2) show ?thesis by (simp add: write_changes_def wp_simps unharmed_def)
next
  case (Inr c')
  show ?thesis
  proof (cases "parse_ini c'")
    case (Inl x)
    with Inr c(2) show ?thesis by (simp add: write_changes_def wp_simps unharmed_def)
  next
    case reads: (Inr p')
  note p' = reads rendered_edit_of [OF c(1) reads r(1) Inr]
  have edited: "edited_file updates c p (List.map fst repl) name u"
    if "replaced_content c' t u" "(name, c) \<in> set (ss_backups u)" for name u
    using that p' by (auto simp: edited_file_def replaced_content_def)
  have rest: "wp (bnd (of_result (inspect_settings stored)) (\<lambda>inspected'.
          andthen (settings_audit now user_id AUDIT_RESULT_SUCCESS (List.map fst repl) (Some name) None)
            (ret \<lparr>sv_snapshot = is_snapshot inspected', sv_changed_fields = List.map fst repl,
               sv_backup_name = Some name\<rparr>)))
      (saved updates c p) (\<lambda>_. unharmed updates c p) v"
    if "edited_file updates c p (List.map fst repl) name v" for name v stored
    using that r(2)
    by (auto simp: wp_simps saved_def unharmed_def intro!: wp_settings_audit split: sum.split)
  have lost: "unharmed updates c p u" if "same_content t u \<or> replaced_content c' t u" for u
    using that c(2) edited by (auto simp: unharmed_def same_content_def replaced_content_def)
  show ?thesis
    unfolding write_changes_def Inr wp_bnd [of "of_result _"] wp_andthen [of "of_result _"] wp_of_result sum.case p'(1)
      wp_bnd [of "write_settings _ _"]
  proof (rule wp_mono [OF writing])
    fix name u
    assume u: "replaced_content c' t u \<and> (\<exists>old. ss_current t = Some old \<and> version old = expected \<and> (name, old) \<in> set (ss_backups u))"
    with c(2) edited have e: "edited_file updates c p (List.map fst repl) name u" by auto
    show "wp (bnd read_settings (\<lambda>stored'. bnd (of_result (inspect_settings stored')) (\<lambda>inspected'.
          andthen (settings_audit now user_id AUDIT_RESULT_SUCCESS (List.map fst repl) (Some name) None)
            (ret \<lparr>sv_snapshot = is_snapshot inspected', sv_changed_fields = List.map fst repl,
               sv_backup_name = Some name\<rparr>))))
        (saved updates c p) (\<lambda>_. unharmed updates c p) u"
      by (intro reading_then rest edited_file_same [OF e]) (use edited_file_same [OF e] in \<open>auto simp: unharmed_def\<close>)
  qed (use lost in blast)
  qed
qed

lemma wp_save_inspected:
  assumes c: "parse_ini c = Inr p" "ss_current t = Some c"
    and i: "is_parsed i = p"
  shows "wp (save_inspected read_settings write_settings updates expected user_id now i)
    (saved updates c p) (\<lambda>_. unharmed updates c p) t"
proof -
  let ?keys = "editable_keys (is_snapshot i)"
  have E: "unharmed updates c p t" using c(2) by (simp add: unharmed_def)
  show ?thesis
  proof (cases "changed_values (is_fields i) updates ?keys")
    case (Inl x)
    with E show ?thesis by (simp add: save_inspected_def wp_simps)
  next
    case (Inr repl)
    show ?thesis
    proof (cases "repl = []")
      case True
      with Inr E c(2) show ?thesis
        by (auto simp: save_inspected_def wp_simps saved_def intro!: wp_settings_audit)
    next
      case False
      with Inr E wp_write_changes [OF c Inr False] show ?thesis
        by (simp add: save_inspected_def wp_simps i)
    qed
  qed
qed

lemma wp_save_body:
  assumes c: "ss_current s = Some c" "parse_ini c = Inr p"
  shows "wp (save_body read_settings write_settings updates expected user_id now)
    (\<lambda>r t. version c = expected \<and> saved updates c p r t) (\<lambda>_. unharmed updates c p) s"
  unfolding save_body_def
proof (rule reading_then)
  fix content t
  assume "ss_current s = Some content" "same_content s t"
  with c(1) have t: "content = c" "ss_current t = Some c" by (auto simp: same_content_def)
  then have E: "unharmed updates c p t" by (simp add: unharmed_def)
  show "wp (andthen (require (snd (content, version content) = expected) (PalworldSettingsStorageError ''conflict''))
        (bnd (of_result (inspect_settings (content, version content)))
          (save_inspected read_settings write_settings updates expected user_id now)))
      (\<lambda>r u. version c = expected \<and> saved updates c p r u) (\<lambda>_. unharmed updates c p) t"
  proof (cases "inspect_settings (c, version c)")
    case (Inl x)
    with E t(1) show ?thesis by (simp add: wp_simps)
  next
    case (Inr i)
    from wp_save_inspected [OF c(2) t(2) inspect_parsed [OF c(2) Inr]] E t(1) Inr show ?thesis
      by (auto simp: wp_simps elim: wp_mono)
  qed
qed (use c in \<open>auto simp: same_content_def unharmed_def\<close>)

lemma wp_save:
  assumes c: "ss_current s = Some c" "parse_ini c = Inr p"
  shows "wp (save_settings read_settings write_settings updates expected user_id now)
    (\<lambda>r t. version c = expected \<and> saved updates c p r t) (\<lambda>_ t. unharmed updates c p t) s"
  unfolding save_settings_def wp_Let wp_handle
proof (rule wp_mono [OF wp_save_body [OF c]])
  fix e t
  assume "unharmed updates c p t"
  then show "if e = Diverges then unharmed updates c p t else wp (case e of
          SettingValueError \<Rightarrow>
            andthen (settings_audit now user_id AUDIT_RESULT_FAILURE (sort (remdups (filter (\<lambda>k. definition_of k \<noteq> None) (List.map fst updates)))) None (Some ''validation''))
              (raise PalworldSettingsValidationError)
        | IniParseError \<Rightarrow>
            andthen (settings_audit now user_id AUDIT_RESULT_FAILURE (sort (remdups (filter (\<lambda>k. definition_of k \<noteq> None) (List.map fst updates)))) None (Some ''validation''))
              (raise PalworldSettingsValidationError)
        | PalworldSettingsValidationError \<Rightarrow>
            andthen (settings_audit now user_id AUDIT_RESULT_FAILURE (sort (remdups (filter (\<lambda>k. definition_of k \<noteq> None) (List.map fst updates)))) None (Some ''validation''))
              (raise PalworldSettingsValidationError)
        | PalworldSettingsStorageError kind \<Rightarrow>
            andthen (settings_audit now user_id AUDIT_RESULT_FAILURE (sort (remdups (filter (\<lambda>k. definition_of k \<noteq> None) (List.map fst updates)))) None (Some kind))
              (raise e)
        | _ \<Rightarrow> raise e) (\<lambda>r t. version c = expected \<and> saved updates c p r t) (\<lambda>_ t. unharmed updates c p t) t"
    by (cases e) (auto simp: wp_simps intro!: wp_settings_audit)
qed simp

end

text \<open>
  C31: saving the settings of the server on the real file system. Whatever calls of the operating system fail,
  the file is as it was or a complete edit whose original is in a backup: a text that parses, the one the original renders to
  with new values of some fields. A save that succeeds was asked for on the version that is in the file; it changes
  exactly the fields it reports, none of them sensitive or read-only, each to a value that reads as the submitted
  one. When each of the settings is on one line, as the server writes them, the file reads back with exactly these
  values replaced, and every other entry and all the text around them kept; for a file with a setting that spans lines
  this last part is not claimed, as a bracket at the end of such a line could begin a section.
\<close>

theorem settings_save_safe:
  assumes "ss_current s = Some c" "parse_ini c = Inr p"
  shows "wp (save_settings (file_read env version) (file_write env version) updates expected user_id now)
    (\<lambda>r t. version c = expected \<and> saved updates c p r t) (\<lambda>_ t. unharmed updates c p t) s"
  by (rule file_storage.wp_save [OF assms])

section \<open>A save that changes a value\<close>

definition sample_text :: "string \<Rightarrow> string" where
  "sample_text entries = ''['' @ SECTION_NAME @ '']'' @ [CHR 0x0A] @ ''OptionSettings=('' @ entries @ '')''"

definition sample_ini :: "string list \<Rightarrow> parsed_ini" where
  "sample_ini raws = same_file (''['' @ SECTION_NAME @ '']'' @ [CHR 0x0A] @ ''OptionSettings=('') '')'' raws"

text \<open>Looking a key up in the table, part by part.\<close>

definition keyless :: "string \<Rightarrow> setting_definition list \<Rightarrow> bool" where
  "keyless k ds \<longleftrightarrow> list_all (\<lambda>d. sd_key d \<noteq> k) ds"

lemma lookup_parts:
  "map_of (rev (List.map (\<lambda>d. (sd_key d, d)) (xs @ ys))) k =
     (case map_of (rev (List.map (\<lambda>d. (sd_key d, d)) ys)) k of Some d \<Rightarrow> Some d
      | None \<Rightarrow> map_of (rev (List.map (\<lambda>d. (sd_key d, d)) xs)) k)"
  by (simp add: map_add_def)

lemma lookup_keyless: "keyless k ds \<Longrightarrow> map_of (rev (List.map (\<lambda>d. (sd_key d, d)) ds)) k = None"
  by (auto simp: keyless_def list_all_iff map_of_eq_None_iff)

lemma scale_definition:
  "\<exists>d. definition_of ''RespawnPenaltyTimeScale'' = Some d \<and> filter (\<lambda>d. sd_key d = ''RespawnPenaltyTimeScale'') SETTING_DEFINITIONS = [d]
    \<and> sd_kind d = KIND_NUMBER \<and> sd_minimum d = None \<and> sd_maximum d = None \<and> sd_category d = BALANCE
    \<and> sd_key d = ''RespawnPenaltyTimeScale''"
proof -
  have none: "filter (\<lambda>d. sd_key d = k) ds = []" if "keyless k ds" for k ds
    using that by (simp add: keyless_def list_all_iff filter_empty_conv)
  have "keyless ''RespawnPenaltyTimeScale'' ds" if "ds \<in> {SETTING_DEFINITIONS_1, SETTING_DEFINITIONS_2, SETTING_DEFINITIONS_3,
      SETTING_DEFINITIONS_4, SETTING_DEFINITIONS_5, SETTING_DEFINITIONS_6, SETTING_DEFINITIONS_7}" for ds
    using that by (elim insertE emptyE) (simp_all add: keyless_def setting_of_def SETTING_DEFINITIONS_1_def SETTING_DEFINITIONS_2_def
        SETTING_DEFINITIONS_3_def SETTING_DEFINITIONS_4_def SETTING_DEFINITIONS_5_def SETTING_DEFINITIONS_6_def
        SETTING_DEFINITIONS_7_def del: msg_text.simps)
  note none [OF this]
  then show ?thesis
    unfolding definition_of_def SETTING_DEFINITIONS_def lookup_parts filter_append
    by (simp add: SETTING_DEFINITIONS_8_def setting_of_def del: msg_text.simps map_of_append rev_append rev_map)
qed

definition scale :: setting_definition where
  "scale = the (definition_of ''RespawnPenaltyTimeScale'')"

lemma scale_facts:
  "definition_of ''RespawnPenaltyTimeScale'' = Some scale" "filter (\<lambda>d. sd_key d = ''RespawnPenaltyTimeScale'') SETTING_DEFINITIONS = [scale]"
  "sd_kind scale = KIND_NUMBER" "sd_category scale = BALANCE" "sd_key scale = ''RespawnPenaltyTimeScale''"
  "parse_setting_value scale ''1.5'' = Inr ''1.5''" "parse_setting_value scale ''2'' = Inr ''2''"
proof -
  show d: "definition_of ''RespawnPenaltyTimeScale'' = Some scale"
    "filter (\<lambda>d. sd_key d = ''RespawnPenaltyTimeScale'') SETTING_DEFINITIONS = [scale]"
    "sd_kind scale = KIND_NUMBER" "sd_category scale = BALANCE" "sd_key scale = ''RespawnPenaltyTimeScale''"
    using scale_definition by (auto simp: scale_def)
  have "sd_minimum scale = None" "sd_maximum scale = None" using scale_definition by (auto simp: scale_def)
  moreover have "strip ''1.5'' = ''1.5''" "strip ''2'' = ''2''" "decimal_of ''1.5'' \<noteq> None" "decimal_of ''2'' \<noteq> None" by code_simp+
  ultimately show "parse_setting_value scale ''1.5'' = Inr ''1.5''" "parse_setting_value scale ''2'' = Inr ''2''"
    using d by (auto simp: parse_setting_value_def in_range_def Let_def)
qed

definition rate_text :: "string \<Rightarrow> string" where
  "rate_text v = sample_text (''RespawnPenaltyTimeScale='' @ v)"

definition rate_ini :: "string \<Rightarrow> parsed_ini" where
  "rate_ini v = sample_ini [''RespawnPenaltyTimeScale='' @ v]"

lemma rate_parses: "parse_ini (rate_text ''1.5'') = Inr (rate_ini ''1.5'')" "parse_ini (rate_text ''2'') = Inr (rate_ini ''2'')"
  "render (rate_ini ''1.5'') [''RespawnPenaltyTimeScale'' \<mapsto> ''2''] = Inr (rate_text ''2'')"
  by code_simp+

lemma rate_small: "utf8_length (rate_text ''1.5'') \<le> MAX_INI_BYTES" "utf8_length (rate_text ''2'') \<le> MAX_INI_BYTES"
proof -
  have "utf8_length s \<le> 2 * length s" for s by (induction s) (simp_all add: utf8_length_def)
  from this [of "rate_text ''1.5''"] this [of "rate_text ''2''"]
  show "utf8_length (rate_text ''1.5'') \<le> MAX_INI_BYTES" "utf8_length (rate_text ''2'') \<le> MAX_INI_BYTES"
    by (simp_all add: rate_text_def sample_text_def SECTION_NAME_def MAX_INI_BYTES_def)
qed

lemma rate_entries: "List.map ie_key (pi_entries (rate_ini v)) = [Some ''RespawnPenaltyTimeScale'']
    \<and> List.map ie_value (pi_entries (rate_ini v)) = [Some v]" if "v = ''1.5'' \<or> v = ''2''"
  using that by (elim disjE; simp only:; code_simp)

lemma rate_inspected:
  assumes "v = ''1.5'' \<or> v = ''2''"
  shows "\<exists>i. inspect_settings (rate_text v, ver) = Inr i \<and> is_parsed i = rate_ini v
    \<and> is_fields i = [setting_field_view scale (Some v) True None] \<and> editable_keys (is_snapshot i) = [''RespawnPenaltyTimeScale'']"
proof -
  obtain e where e: "pi_entries (rate_ini v) = [e]" "ie_key e = Some ''RespawnPenaltyTimeScale''" "ie_value e = Some v"
    using rate_entries [OF assms] by auto
  have one: "entries_with [e] k = (if k = ''RespawnPenaltyTimeScale'' then [e] else [])" for k
    by (simp add: entries_with_def e)
  have "filter (\<lambda>d. entries_with [e] (sd_key d) \<noteq> []) SETTING_DEFINITIONS = [scale]"
    using scale_facts(2) by (simp add: one)
  moreover have "parse_setting_value scale v = Inr v" using assms scale_facts(6,7) by auto
  ultimately have fields: "fields_of [e] = [setting_field_view scale (Some v) True None]"
    by (simp add: fields_of_def one scale_facts(3,5) field_view_def e del: msg_text.simps)
  have parsed: "parse_ini (rate_text v) = Inr (rate_ini v)" using assms rate_parses by auto
  show ?thesis
    unfolding inspect_settings_def fst_conv parsed sum.case Let_def e(1) fields
    by (simp add: editable_keys_def setting_field_view_def SETTING_CATEGORIES_def scale_facts(4,5) PERFORMANCE_def
        MANAGEMENT_def FEATURES_def BALANCE_def accent_def)
qed

definition calm_os :: os_env where
  "calm_os = \<lparr>os_answer = \<lambda>_. Succeeded, os_partial = \<lambda>_. 0, os_clock = int\<rparr>"

definition sample_site :: site where
  "sample_site = \<lparr>ss_current = Some (rate_text ''1.5''), ss_backups = [], ss_temp = None, ss_calls = 0, ss_db = empty_db\<rparr>"

definition rate_save :: "(site, save_result) prog" where
  "rate_save = save_settings (file_read calm_os id) (file_write calm_os id) [(''RespawnPenaltyTimeScale'', ''2'')] (rate_text ''1.5'') 1 0"

lemma calm_ok: "os_answer calm_os n = Succeeded"
  by (simp add: calm_os_def)

lemma calm_file_read:
  "ss_current s = Some c \<Longrightarrow> utf8_length c \<le> MAX_INI_BYTES \<Longrightarrow>
    wp (file_read calm_os id) Q E s = Q (c, c) (s\<lparr>ss_calls := ss_calls s + 4\<rparr>)"
  by (simp add: file_read_def read_current_def wp_simps calm_ok Let_def numeral_eq_Suc)

lemma calm_write:
  assumes "ss_current s = Some c" "utf8_length c \<le> MAX_INI_BYTES" "utf8_length c' \<le> MAX_INI_BYTES" "ss_backups s = []"
    and "\<And>name n bs. Q name (s\<lparr>ss_backups := bs, ss_current := Some c', ss_temp := None, ss_calls := n\<rparr>)"
  shows "wp (file_write calm_os id c c') Q E s"
  using assms by (simp add: file_write_def read_current_def write_exclusive_def atomic_replace_def remove_temporary_def
      put_backup_def put_temp_def wp_simps calm_ok Let_def)

lemma rate_audit:
  assumes "\<And>d. Q () (s\<lparr>ss_db := d\<rparr>)"
  shows "wp (settings_audit 0 1 AUDIT_RESULT_SUCCESS changed name None) Q E s"
proof -
  have "valid_audit_action ''PALWORLD_SETTINGS_UPDATE''" by code_simp
  with assms show ?thesis
    by (simp add: settings_audit_def wp_def record_audit_event_def admin_event_def rollback_def run_code split: prod.split)
qed

lemma rate_saved: "wp rate_save (\<lambda>r _. sv_changed_fields r = [''RespawnPenaltyTimeScale'']) (\<lambda>_ _. False) sample_site"
proof -
  let ?k = "''RespawnPenaltyTimeScale''"
  obtain i where i: "inspect_settings (rate_text ''1.5'', rate_text ''1.5'') = Inr i" "is_parsed i = rate_ini ''1.5''"
    "is_fields i = [setting_field_view scale (Some ''1.5'') True None]" "editable_keys (is_snapshot i) = [?k]"
    using rate_inspected [of "''1.5''" "rate_text ''1.5''"] by auto
  obtain i' where i': "inspect_settings (rate_text ''2'', rate_text ''2'') = Inr i'" using rate_inspected [of "''2''" "rate_text ''2''"] by auto
  have c: "changed_values (is_fields i) [(?k, ''2'')] [?k] = Inr [(?k, ''2'')]"
    by (simp add: i(3) field_of_def setting_field_view_def scale_facts serialize_setting_value_def)
  have first: "wp (file_read calm_os id) Q E sample_site = Q (rate_text ''1.5'', rate_text ''1.5'') (sample_site\<lparr>ss_calls := 4\<rparr>)" for Q E
    by (subst calm_file_read) (simp_all add: sample_site_def rate_small)
  show ?thesis
    unfolding rate_save_def save_settings_def wp_Let wp_handle save_body_def wp_bnd [of "file_read _ _"] first
    by (auto simp: wp_simps i c [unfolded i(3)] save_inspected_def write_changes_def rate_parses i' calm_file_read rate_small
        simp del: changed_values.simps intro!: calm_write rate_audit) (simp_all add: sample_site_def)
qed

theorem settings_save_safe_witness:
  "wp rate_save (\<lambda>r t. sv_changed_fields r = [''RespawnPenaltyTimeScale'']
      \<and> saved [(''RespawnPenaltyTimeScale'', ''2'')] (rate_text ''1.5'') (rate_ini ''1.5'') r t)
    (\<lambda>_ _. False) sample_site"
proof -
  have "ss_current sample_site = Some (rate_text ''1.5'')" by (simp add: sample_site_def)
  from settings_save_safe [OF this rate_parses(1)]
  show ?thesis
    unfolding rate_save_def by (rule wp_mono [OF wp_conj [OF rate_saved [unfolded rate_save_def]]]) auto
qed

end
