(* ===== verification/RestoreMerge.thy ===== *)
theory RestoreMerge
  imports PalworldSettings
begin

text \<open>
  How a restore merges the server's settings (\<open>merge_palworld_settings\<close> of \<open>app/restores/service.py\<close>): those of
  the backup are put into the current PalWorldSettings.ini, without the secrets a backup may hold.
\<close>

section \<open>Secrets\<close>

definition secret_words :: "string list" where
  "secret_words = [''password'', ''passwd'', ''secret'', ''token'', ''cookie'', ''webhook'', ''credential'']"

text \<open>\<open>SENSITIVE_KEY_PATTERN.search(key)\<close>.\<close>

fun secret_name :: "string \<Rightarrow> bool" where
  "secret_name [] = False"
| "secret_name (c # cs) =
     (list_ex (\<lambda>w. eat_ci w (c # cs) \<noteq> None) secret_words \<or> eat_api_key (c # cs) \<noteq> None \<or> secret_name cs)"

section \<open>Merging the server's settings\<close>

definition then_result :: "exn + 'a \<Rightarrow> ('a \<Rightarrow> exn + 'b) \<Rightarrow> exn + 'b" where
  "then_result r f = (case r of Inl e \<Rightarrow> Inl e | Inr x \<Rightarrow> f x)"

lemma then_result_Inr [simp]: "then_result r f = Inr y \<longleftrightarrow> (\<exists>x. r = Inr x \<and> f x = Inr y)"
  by (simp add: then_result_def split: sum.split)

definition SETTINGS_MERGE_UNSAFE :: "string \<Rightarrow> exn" where
  "SETTINGS_MERGE_UNSAFE message = RestoreError ''SETTINGS_MERGE_UNSAFE'' (msg_text message)"

type_synonym ini_dict = "(string \<times> ini_entry) list"

fun unique_from :: "ini_dict \<Rightarrow> ini_entry list \<Rightarrow> exn + ini_dict" where
  "unique_from result [] = Inr result"
| "unique_from result (entry # entries) =
     (case ie_key entry of
        None \<Rightarrow> unique_from result entries
      | Some key \<Rightarrow>
          if map_of result key \<noteq> None
          then Inl (SETTINGS_MERGE_UNSAFE ''O PalWorldSettings.ini cont/em par^ametros duplicados.'')
          else unique_from (result @ [(key, entry)]) entries)"

definition unique_ini_entries :: "ini_entry list \<Rightarrow> exn + ini_dict" where
  "unique_ini_entries entries = unique_from [] entries"

fun validate_known_values :: "ini_dict \<Rightarrow> exn + unit" where
  "validate_known_values [] = Inr ()"
| "validate_known_values ((key, entry) # rest) =
     (case definition_of key of
        None \<Rightarrow> validate_known_values rest
      | Some d \<Rightarrow>
          if sd_kind d = KIND_READ_ONLY then validate_known_values rest
          else (case ie_value entry of
            None \<Rightarrow> Inl IniParseError
          | Some v \<Rightarrow>
              if sd_kind d = KIND_SENSITIVE then validate_known_values rest
              else then_result (parse_setting_value d v) (\<lambda>_. validate_known_values rest)))"

text \<open>The values the merged file takes from the backup.\<close>

fun restored_values :: "ini_dict \<Rightarrow> ini_dict \<Rightarrow> exn + (string \<times> string) list" where
  "restored_values current [] = Inr []"
| "restored_values current ((key, entry) # rest) =
     (case definition_of key of
        None \<Rightarrow> restored_values current rest
      | Some d \<Rightarrow>
          if sd_kind d = KIND_SENSITIVE then restored_values current rest
          else (case (map_of current key, ie_value entry) of
            (Some _, Some v) \<Rightarrow> map_sum id ((#) (key, v)) (restored_values current rest)
          | _ \<Rightarrow> Inl (SETTINGS_MERGE_UNSAFE
              ''O PalWorldSettings.ini n~ao pode ser combinado de forma determin/istica.'')))"

definition secret_key :: "string \<Rightarrow> bool" where
  "secret_key key \<longleftrightarrow>
     (case definition_of key of None \<Rightarrow> False | Some d \<Rightarrow> sd_kind d = KIND_SENSITIVE) \<or> secret_name key"

definition secrets_kept :: "ini_dict \<Rightarrow> ini_dict \<Rightarrow> bool" where
  "secrets_kept current merged = list_all (\<lambda>(key, entry). secret_key key \<longrightarrow>
     (case map_of merged key of None \<Rightarrow> False | Some e \<Rightarrow> ie_value e = ie_value entry)) current"

definition merge_entries :: "parsed_ini \<Rightarrow> ini_dict \<Rightarrow> ini_dict \<Rightarrow> exn + string" where
  "merge_entries current current_entries backup_entries =
     then_result (validate_known_values current_entries) (\<lambda>_.
     then_result (validate_known_values backup_entries) (\<lambda>_.
     then_result (restored_values current_entries backup_entries) (\<lambda>replacements.
     then_result (render current (map_of replacements)) (\<lambda>merged.
     then_result (parse_ini merged) (\<lambda>parsed.
     then_result (unique_ini_entries (pi_entries parsed)) (\<lambda>merged_entries.
     then_result (validate_known_values merged_entries) (\<lambda>_.
       if secrets_kept current_entries merged_entries then Inr merged
       else Inl (RestoreError ''SETTINGS_SECRET_CHANGED'' (msg_text ''Um valor sens/ivel n~ao p^ode ser preservado.'')))))))))"

definition merge_palworld_settings :: "string \<Rightarrow> string \<Rightarrow> exn + string" where
  "merge_palworld_settings backup_content current_content =
     (case then_result (parse_ini backup_content) (\<lambda>backup.
           then_result (parse_ini current_content) (\<lambda>current.
           then_result (unique_ini_entries (pi_entries backup)) (\<lambda>backup_entries.
           then_result (unique_ini_entries (pi_entries current)) (\<lambda>current_entries.
             merge_entries current current_entries backup_entries)))) of
        Inl e \<Rightarrow> Inl (if e \<in> {IniParseError, SettingValueError}
          then SETTINGS_MERGE_UNSAFE ''O PalWorldSettings.ini n~ao pode ser combinado com seguran_ca.'' else e)
      | Inr merged \<Rightarrow> Inr merged)"

section \<open>What the merged settings hold\<close>

definition keyed :: "ini_entry list \<Rightarrow> ini_dict" where
  "keyed es = List.map_filter (\<lambda>e. map_option (\<lambda>k. (k, e)) (ie_key e)) es"

definition value_in :: "parsed_ini \<Rightarrow> string \<Rightarrow> string option" where
  "value_in p k = Option.bind (map_of (keyed (pi_entries p)) k) ie_value"

lemma keyed_simps [simp]:
  "keyed [] = []"
  "keyed (e # es) = (case ie_key e of None \<Rightarrow> keyed es | Some k \<Rightarrow> (k, e) # keyed es)"
  by (simp_all add: keyed_def map_filter_simps split: option.split)

lemma unique_from_keyed: "unique_from r es = Inr d \<Longrightarrow> d = r @ keyed es"
proof (induction es arbitrary: r)
  case (Cons e es)
  then show ?case by (fastforce split: option.split_asm if_split_asm)
qed simp

lemma unique_entries_keyed: "unique_ini_entries es = Inr d \<Longrightarrow> d = keyed es"
  using unique_from_keyed [of "[]"] by (simp add: unique_ini_entries_def)

lemma restored_values_of:
  "restored_values current es = Inr vals \<Longrightarrow> map_of vals k =
     (case (map_of es k, definition_of k) of
        (Some e, Some d) \<Rightarrow> if sd_kind d = KIND_SENSITIVE then None else ie_value e
      | _ \<Rightarrow> None)"
proof (induction es arbitrary: vals)
  case (Cons x es)
  obtain key e where x: "x = (key, e)" by (cases x)
  show ?case
  proof (cases "key = k")
    case True
    show ?thesis using Cons.prems unfolding x True
      by (auto split: option.split_asm option.split if_split_asm sum.split_asm simp: map_sum_def Cons.IH)
  next
    case False
    then show ?thesis using Cons.prems unfolding x
      by (auto split: option.split_asm if_split_asm sum.split_asm simp: map_sum_def Cons.IH)
  qed
qed simp

lemma restored_values_known:
  "restored_values current es = Inr vals \<Longrightarrow> map_of vals k = Some v \<Longrightarrow> map_of current k \<noteq> None"
proof (induction es arbitrary: vals)
  case (Cons x es)
  obtain key e where x: "x = (key, e)" by (cases x)
  from Cons show ?case unfolding x
    by (auto split: option.split_asm if_split_asm sum.split_asm simp: map_sum_def)
qed simp

lemma known_values_valid:
  "validate_known_values es = Inr () \<Longrightarrow> map_of es k = Some e \<Longrightarrow> ie_value e = Some v
    \<Longrightarrow> definition_of k = Some d \<Longrightarrow> sd_kind d \<noteq> KIND_READ_ONLY \<Longrightarrow> sd_kind d \<noteq> KIND_SENSITIVE
    \<Longrightarrow> \<exists>x. parse_setting_value d v = Inr x"
  by (induction es rule: validate_known_values.induct) (auto split: option.split_asm if_split_asm)

lemma secrets_kept_value:
  "secrets_kept current merged \<Longrightarrow> map_of current k = Some e \<Longrightarrow> secret_key k
    \<Longrightarrow> \<exists>e'. map_of merged k = Some e' \<and> ie_value e' = ie_value e"
  by (induction current) (auto simp: secrets_kept_def split: if_split_asm option.split_asm)

lemma edited_keys: "list_all2 (edited vals) es es' \<Longrightarrow> List.map ie_key es' = List.map ie_key es"
  by (induction rule: list_all2_induct) (auto simp: edited_def split: option.split_asm)

lemma edited_value:
  "list_all2 (edited vals) es es' \<Longrightarrow> Option.bind (map_of (keyed es') k) ie_value =
     (case (map_of (keyed es) k, vals k) of
        (Some _, Some v) \<Rightarrow> Some v | (Some e, None) \<Rightarrow> ie_value e | _ \<Rightarrow> None)"
proof (induction rule: list_all2_induct)
  case (Cons e es e' es')
  then show ?case by (cases "ie_key e"; cases "vals k") (auto simp: edited_def split: option.split_asm)
qed simp

lemma entry_value_text:
  assumes "balanced False raw" "ie_key (parse_entry raw) = Some k"
  shows "\<exists>v. ie_value (parse_entry raw) = Some v \<and> value_text v \<and> set v \<subseteq> set raw"
proof -
  from parse_entry_Some [OF assms] obtain u w1 v w2 where p: "raw = u @ CHR ''='' # w1 @ v @ w2" "k = strip u"
    "key_pattern k" "list_all is_space w1" "list_all is_space w2" "value_text v"
    "top_level_equal raw = Some (length u)" by blast
  with parse_entry_at [of u w1 v w2] show ?thesis by (auto simp: value_text_def)
qed

lemma parsed_values_text:
  assumes "parse_ini c = Inr p" "map_of (keyed (pi_entries p)) k = Some e" "ie_value e = Some v"
  shows "value_text v \<and> set v \<subseteq> set (ie_raw e) \<and> e \<in> set (pi_entries p)"
proof -
  from parse_ini_split [OF assms(1)] obtain x raws where P: "split_entries x = Inr raws"
    "p = same_file (pi_prefix p) (pi_suffix p) raws" by blast
  from split_entries_Inr [OF P(1)] have raws: "\<forall>raw\<in>set raws. balanced False raw" by auto
  have "(k, e) \<in> set (keyed es) \<Longrightarrow> e \<in> set es \<and> ie_key e = Some k" for es
    by (induction es) (auto split: option.split_asm)
  from this [OF map_of_SomeD [OF assms(2)]] have e: "e \<in> set (pi_entries p)" "ie_key e = Some k" by auto
  then obtain raw where "raw \<in> set raws" "e = parse_entry raw" by (subst (asm) P(2)) (auto simp: same_file_def)
  with raws entry_value_text e assms(3) show ?thesis by fastforce
qed

lemma one_line_subset: "set v \<subseteq> set s \<Longrightarrow> one_line s \<Longrightarrow> one_line v"
  by (auto simp: one_line_def)

lemma restored_texts:
  assumes "parse_ini b = Inr pb" "\<forall>e\<in>set (pi_entries pb). one_line (ie_raw e)"
    and "restored_values current (keyed (pi_entries pb)) = Inr vals" "map_of vals k = Some v"
  shows "value_text v \<and> one_line v"
proof -
  from assms(4) restored_values_of [OF assms(3), of k] obtain e where
    "map_of (keyed (pi_entries pb)) k = Some e" "ie_value e = Some v"
    by (auto split: option.split_asm if_split_asm)
  from parsed_values_text [OF assms(1) this] assms(2) one_line_subset show ?thesis by blast
qed

text \<open>The keys whose values a restore takes from the backup.\<close>

definition restored_key :: "string \<Rightarrow> bool" where
  "restored_key k \<longleftrightarrow> (case definition_of k of None \<Rightarrow> False | Some d \<Rightarrow> sd_kind d \<noteq> KIND_SENSITIVE)"

definition merged_from :: "parsed_ini \<Rightarrow> parsed_ini \<Rightarrow> parsed_ini \<Rightarrow> bool" where
  "merged_from pb pc pm \<longleftrightarrow> pi_prefix pm = pi_prefix pc \<and> pi_suffix pm = pi_suffix pc
     \<and> List.map ie_key (pi_entries pm) = List.map ie_key (pi_entries pc)
     \<and> (\<forall>k. value_in pm k = (if restored_key k \<and> value_in pb k \<noteq> None then value_in pb k else value_in pc k))"

lemma merge_settings_parts:
  assumes "merge_palworld_settings b c = Inr m"
  obtains pb pc pm vals where "parse_ini b = Inr pb" "parse_ini c = Inr pc" "parse_ini m = Inr pm"
    "restored_values (keyed (pi_entries pc)) (keyed (pi_entries pb)) = Inr vals"
    "render pc (map_of vals) = Inr m" "validate_known_values (keyed (pi_entries pm)) = Inr ()"
    "secrets_kept (keyed (pi_entries pc)) (keyed (pi_entries pm))"
  using assms unfolding merge_palworld_settings_def merge_entries_def
  by (auto split: sum.split_asm if_split_asm dest!: unique_entries_keyed)

lemma rendered_merged_from:
  assumes "parse_ini b = Inr pb" "parse_ini c = Inr pc" "parse_ini m = Inr pm"
    and "restored_values (keyed (pi_entries pc)) (keyed (pi_entries pb)) = Inr vals"
    and "render pc (map_of vals) = Inr m"
    and "\<forall>e\<in>set (pi_entries pb) \<union> set (pi_entries pc). one_line (ie_raw e)"
  shows "merged_from pb pc pm"
proof -
  from rendered_edit_parses [OF assms(2), of "map_of vals"] restored_texts [OF assms(1) _ assms(4)] assms(3,5,6)
  have E: "pi_prefix pm = pi_prefix pc" "pi_suffix pm = pi_suffix pc"
    "list_all2 (edited (map_of vals)) (pi_entries pc) (pi_entries pm)" by auto
  have "value_in pm k = (if restored_key k \<and> value_in pb k \<noteq> None then value_in pb k else value_in pc k)" for k
    using edited_value [OF E(3), of k] restored_values_of [OF assms(4), of k] restored_values_known [OF assms(4), of k]
    by (auto simp: value_in_def restored_key_def split: option.split_asm if_split_asm)
  with E edited_keys [OF E(3)] show ?thesis by (simp add: merged_from_def)
qed

text \<open>
  C32: the settings a restore writes keep every secret of the server and take the rest from the backup. A
  merged file parses, with every known value valid; each secret of the current file has its current value,
  whatever the backup says. When both files have their settings on one line, the text around the settings
  and the keys are those of the current file, every known setting that is no secret has the value of the
  backup where the backup has one, and everything else is unchanged.
\<close>

theorem restore_keeps_secrets:
  assumes "merge_palworld_settings b c = Inr m"
  shows "\<exists>pb pc pm. parse_ini b = Inr pb \<and> parse_ini c = Inr pc \<and> parse_ini m = Inr pm
    \<and> (\<forall>k v. secret_key k \<and> value_in pc k = Some v \<longrightarrow> value_in pm k = Some v)
    \<and> (\<forall>k d v. definition_of k = Some d \<and> sd_kind d \<notin> {KIND_READ_ONLY, KIND_SENSITIVE} \<and> value_in pm k = Some v
        \<longrightarrow> (\<exists>x. parse_setting_value d v = Inr x))
    \<and> ((\<forall>e\<in>set (pi_entries pb) \<union> set (pi_entries pc). one_line (ie_raw e)) \<longrightarrow> merged_from pb pc pm)"
proof -
  from assms obtain pb pc pm vals where P: "parse_ini b = Inr pb" "parse_ini c = Inr pc" "parse_ini m = Inr pm"
    "restored_values (keyed (pi_entries pc)) (keyed (pi_entries pb)) = Inr vals"
    "render pc (map_of vals) = Inr m" "validate_known_values (keyed (pi_entries pm)) = Inr ()"
    "secrets_kept (keyed (pi_entries pc)) (keyed (pi_entries pm))" by (rule merge_settings_parts)
  have "\<exists>x. parse_setting_value d v = Inr x"
    if "definition_of k = Some d" "sd_kind d \<notin> {KIND_READ_ONLY, KIND_SENSITIVE}" "value_in pm k = Some v" for k d v
    using that known_values_valid [OF P(6)] by (auto simp: value_in_def Option.bind_eq_Some_conv)
  moreover have "value_in pm k = Some v" if "secret_key k" "value_in pc k = Some v" for k v
    using that secrets_kept_value [OF P(7)] by (fastforce simp: value_in_def Option.bind_eq_Some_conv)
  moreover have "merged_from pb pc pm"
    if "\<forall>e\<in>set (pi_entries pb) \<union> set (pi_entries pc). one_line (ie_raw e)"
    using rendered_merged_from [OF P(1-5) that] .
  ultimately show ?thesis using P(1-3) by blast
qed

lemma parse_samples:
  "parse_ini (sample_text ''AdminPassword=theirs,RespawnPenaltyTimeScale=2'') = Inr (sample_ini [''AdminPassword=theirs'', ''RespawnPenaltyTimeScale=2''])"
  "parse_ini (sample_text ''RespawnPenaltyTimeScale=1.5,AdminPassword=mine'') = Inr (sample_ini [''RespawnPenaltyTimeScale=1.5'', ''AdminPassword=mine''])"
  "parse_ini (sample_text ''RespawnPenaltyTimeScale=2,AdminPassword=mine'') = Inr (sample_ini [''RespawnPenaltyTimeScale=2'', ''AdminPassword=mine''])"
  by code_simp+

lemma admin_keyless:
  "keyless ''AdminPassword'' SETTING_DEFINITIONS_3" "keyless ''AdminPassword'' SETTING_DEFINITIONS_4"
  "keyless ''AdminPassword'' SETTING_DEFINITIONS_5" "keyless ''AdminPassword'' SETTING_DEFINITIONS_6"
  "keyless ''AdminPassword'' SETTING_DEFINITIONS_7" "keyless ''AdminPassword'' SETTING_DEFINITIONS_8"
  by (simp_all add: keyless_def setting_of_def SETTING_DEFINITIONS_3_def SETTING_DEFINITIONS_4_def SETTING_DEFINITIONS_5_def
      SETTING_DEFINITIONS_6_def SETTING_DEFINITIONS_7_def SETTING_DEFINITIONS_8_def del: msg_text.simps)

lemma admin_definition: "\<exists>d. definition_of ''AdminPassword'' = Some d \<and> sd_kind d = KIND_SENSITIVE"
  unfolding definition_of_def SETTING_DEFINITIONS_def lookup_parts lookup_keyless [OF admin_keyless(1)]
    lookup_keyless [OF admin_keyless(2)] lookup_keyless [OF admin_keyless(3)] lookup_keyless [OF admin_keyless(4)]
    lookup_keyless [OF admin_keyless(5)] lookup_keyless [OF admin_keyless(6)]
  by (simp add: SETTING_DEFINITIONS_2_def setting_of_def del: msg_text.simps)

definition admin :: setting_definition where
  "admin = the (definition_of ''AdminPassword'')"

lemma sample_definitions:
  "definition_of ''AdminPassword'' = Some admin" "sd_kind admin = KIND_SENSITIVE"
  "definition_of ''RespawnPenaltyTimeScale'' = Some scale" "sd_kind scale = KIND_NUMBER"
  "parse_setting_value scale ''1.5'' = Inr ''1.5''" "parse_setting_value scale ''2'' = Inr ''2''"
  using admin_definition scale_facts by (auto simp: admin_def)

definition sample_entry :: "string \<Rightarrow> string \<Rightarrow> ini_entry" where
  "sample_entry k v = \<lparr>ie_raw = k @ CHR ''='' # v, ie_key = Some k, ie_value = Some v,
     ie_value_start = Some (Suc (length k)), ie_value_end = Some (Suc (length k + length v))\<rparr>"

lemma sample_entries:
  "parse_entry ''AdminPassword=theirs'' = sample_entry ''AdminPassword'' ''theirs''"
  "parse_entry ''AdminPassword=mine'' = sample_entry ''AdminPassword'' ''mine''"
  "parse_entry ''RespawnPenaltyTimeScale=1.5'' = sample_entry ''RespawnPenaltyTimeScale'' ''1.5''"
  "parse_entry ''RespawnPenaltyTimeScale=2'' = sample_entry ''RespawnPenaltyTimeScale'' ''2''"
  by code_simp+

lemma sample_not_secret: "\<not> secret_key ''RespawnPenaltyTimeScale''"
proof -
  have "\<not> secret_name ''RespawnPenaltyTimeScale''" by code_simp
  then show ?thesis by (simp add: secret_key_def sample_definitions)
qed

lemma sample_entry_simps [simp]:
  "ie_key (sample_entry k v) = Some k" "ie_value (sample_entry k v) = Some v"
  "pi_entries (sample_ini raws) = List.map parse_entry raws"
  by (simp_all add: sample_entry_def sample_ini_def same_file_def)

lemma merge_sample:
  "merge_palworld_settings (sample_text ''AdminPassword=theirs,RespawnPenaltyTimeScale=2'')
     (sample_text ''RespawnPenaltyTimeScale=1.5,AdminPassword=mine'') = Inr (sample_text ''RespawnPenaltyTimeScale=2,AdminPassword=mine'')"
proof -
  have "rendered_entries [''RespawnPenaltyTimeScale'' \<mapsto> ''2'']
      [sample_entry ''RespawnPenaltyTimeScale'' ''1.5'', sample_entry ''AdminPassword'' ''mine'']
      = Inr [''RespawnPenaltyTimeScale=2'', ''AdminPassword=mine'']"
    by (simp add: sample_entry_def replace_value_def)
  then have r: "render (sample_ini [''RespawnPenaltyTimeScale=1.5'', ''AdminPassword=mine'']) [''RespawnPenaltyTimeScale'' \<mapsto> ''2'']
      = Inr (sample_text ''RespawnPenaltyTimeScale=2,AdminPassword=mine'')"
    by (simp add: render_def sample_ini_def same_file_def sample_text_def sample_entries)
  show ?thesis
    unfolding merge_palworld_settings_def parse_samples
    by (simp add: then_result_def unique_ini_entries_def sample_entries sample_definitions
        merge_entries_def secrets_kept_def r parse_samples sample_not_secret)
qed

theorem restore_keeps_secrets_witness:
  "\<exists>pm. parse_ini (sample_text ''RespawnPenaltyTimeScale=2,AdminPassword=mine'') = Inr pm
    \<and> merged_from (sample_ini [''AdminPassword=theirs'', ''RespawnPenaltyTimeScale=2''])
        (sample_ini [''RespawnPenaltyTimeScale=1.5'', ''AdminPassword=mine'']) pm
    \<and> value_in pm ''AdminPassword'' = Some ''mine''"
proof -
  have "secret_key ''AdminPassword''" by (simp add: secret_key_def sample_definitions)
  moreover have "value_in (sample_ini [''RespawnPenaltyTimeScale=1.5'', ''AdminPassword=mine'']) ''AdminPassword'' = Some ''mine''"
    by (simp add: value_in_def sample_entries)
  moreover have "one_line (ie_raw (parse_entry raw))" if "CHR 0x0A \<notin> set raw" for raw
    using that by (simp add: one_line_def)
  ultimately show ?thesis using restore_keeps_secrets [OF merge_sample]
    by (auto simp: parse_samples)
qed

end
