(* ===== verification/RelatedSettings.thy ===== *)
theory RelatedSettings
  imports RestoreMerge
begin

text \<open>
  How a restore merges the file beside the server's settings (\<open>merge_generic_ini\<close> of \<open>app/restores/service.py\<close>):
  it is taken from the backup line by line, with the secrets of the current file. The model of
  \<open>str.casefold\<close> leaves the micro sign as it is: its image is not a Latin-1 character, and no other
  character has it.
\<close>

section \<open>Merging the related settings\<close>

definition MAX_GENERIC_CONFIG_BYTES :: nat where
  "MAX_GENERIC_CONFIG_BYTES = 1024 * 1024"

text \<open>\<open>str.splitlines(keepends=True)\<close>.\<close>

fun kept_lines_from :: "string \<Rightarrow> string \<Rightarrow> string list" where
  "kept_lines_from acc [] = (if acc = [] then [] else [rev acc])"
| "kept_lines_from acc (c # cs) =
     (if is_line_break c then
        (case cs of
            d # ds \<Rightarrow> (if code c = 13 \<and> code d = 10 then rev (d # c # acc) # kept_lines_from [] ds
                      else rev (c # acc) # kept_lines_from [] cs)
          | [] \<Rightarrow> [rev (c # acc)])
      else kept_lines_from (c # acc) cs)"

definition kept_lines :: "string \<Rightarrow> string list" where
  "kept_lines s = kept_lines_from [] s"

text \<open>\<open>stripped.startswith('[') and stripped.endswith(']')\<close>.\<close>

definition section_line :: "string \<Rightarrow> bool" where
  "section_line line \<longleftrightarrow> (let s = strip line in s \<noteq> [] \<and> hd s = CHR ''['' \<and> last s = CHR '']'')"

text \<open>The key and the value of a line that assigns a secret.\<close>

definition secret_assignment :: "string \<Rightarrow> (string \<times> string) option" where
  "secret_assignment line = (case partition_at (CHR ''='') line of
     Some (key, v) \<Rightarrow> if secret_name (strip key) then Some (key, v) else None
   | None \<Rightarrow> None)"

type_synonym secrets = "((string \<times> string) \<times> string) list"

fun secret_values :: "string \<Rightarrow> secrets \<Rightarrow> string list \<Rightarrow> exn + secrets" where
  "secret_values sect result [] = Inr result"
| "secret_values sect result (line # rest) =
     (if section_line line then secret_values (strip line) result rest
      else (case secret_assignment line of
        None \<Rightarrow> secret_values sect result rest
      | Some (key, v) \<Rightarrow>
          let identity = (casefold sect, casefold (strip key)) in
          if map_of result identity \<noteq> None \<or> strip v = []
          then Inl (RestoreError ''CURRENT_RELATED_SETTINGS_INVALID''
            (msg_text ''A configura_c~ao relacionada atual /e inv/alida.''))
          else secret_values sect (result @ [(identity, v)]) rest))"

definition generic_sensitive_values :: "string \<Rightarrow> exn + secrets" where
  "generic_sensitive_values content =
     (if MAX_GENERIC_CONFIG_BYTES < utf8_length content
      then Inl (RestoreError ''CURRENT_RELATED_SETTINGS_INVALID'' (msg_text ''A configura_c~ao relacionada /e inv/alida.''))
      else secret_values [] [] (splitlines content))"

definition line_end :: "string \<Rightarrow> string" where
  "line_end line = (if ends_with line [CHR 0x0D, CHR 0x0A] then [CHR 0x0D, CHR 0x0A]
     else if ends_with line [CHR 0x0A] then [CHR 0x0A] else [])"

fun merge_lines :: "secrets \<Rightarrow> (string \<times> string) list \<Rightarrow> string \<Rightarrow> string list \<Rightarrow> exn + string list" where
  "merge_lines current seen sect [] = Inr []"
| "merge_lines current seen sect (line # rest) =
     (if section_line line then map_sum id ((#) line) (merge_lines current seen (strip line) rest)
      else (case secret_assignment line of
        None \<Rightarrow> map_sum id ((#) line) (merge_lines current seen sect rest)
      | Some (key, _) \<Rightarrow>
          let identity = (casefold sect, casefold (strip key)) in
          (case (identity \<in> set seen, map_of current identity) of
             (False, Some v) \<Rightarrow> map_sum id ((#) (key @ CHR ''='' # v @ line_end line))
               (merge_lines current (identity # seen) sect rest)
           | _ \<Rightarrow> Inl (RestoreError ''RELATED_SETTINGS_MERGE_UNSAFE''
               (msg_text ''A configura_c~ao relacionada n~ao pode ser combinada com seguran_ca.'')))))"

definition merge_generic_ini :: "string \<Rightarrow> string \<Rightarrow> exn + string" where
  "merge_generic_ini backup_content current_content =
     then_result (generic_sensitive_values current_content) (\<lambda>current_values.
     then_result (merge_lines current_values [] [] (kept_lines backup_content)) (\<lambda>result.
       let merged = concat result in
       if MAX_GENERIC_CONFIG_BYTES < utf8_length merged
       then Inl (RestoreError ''RELATED_SETTINGS_MERGE_UNSAFE'' (msg_text ''A configura_c~ao relacionada /e inv/alida.''))
       else Inr merged))"

section \<open>Lines and their ends\<close>

definition line_body :: "string \<Rightarrow> string" where
  "line_body = takeWhile (\<lambda>c. \<not> is_line_break c)"

definition line_break_of :: "string \<Rightarrow> string" where
  "line_break_of = dropWhile (\<lambda>c. \<not> is_line_break c)"

definition no_break :: "string \<Rightarrow> bool" where
  "no_break s \<longleftrightarrow> list_all (\<lambda>c. \<not> is_line_break c) s"

text \<open>A list of lines with common ends, of which only the last may have none.\<close>

fun well_ended :: "string list \<Rightarrow> bool" where
  "well_ended [] = True"
| "well_ended (l # ls) \<longleftrightarrow> line_break_of l \<in> {[CHR 0x0A], [CHR 0x0D, CHR 0x0A]} \<and> well_ended ls
     \<or> l \<noteq> [] \<and> no_break l \<and> ls = []"

lemma no_break_simps [simp]:
  "no_break []" "no_break (c # s) \<longleftrightarrow> \<not> is_line_break c \<and> no_break s"
  "no_break (s @ t) \<longleftrightarrow> no_break s \<and> no_break t" "no_break (rev s) \<longleftrightarrow> no_break s"
  by (auto simp: no_break_def list_all_iff)

lemma no_break_body: "no_break s \<Longrightarrow> line_body (s @ t) = s @ line_body t"
  "no_break s \<Longrightarrow> line_body s = s"
  by (induction s) (auto simp: line_body_def)

lemma splitlines_kept: "splitlines_from acc s = List.map line_body (kept_lines_from acc s)" if "no_break acc"
  using that
proof (induction acc s rule: splitlines_from.induct)
  case (1 acc)
  then show ?case by (simp add: no_break_body)
next
  case (2 acc c cs)
  have body: "line_body (rev acc @ c # t) = rev acc" if "is_line_break c" for t
    using 2(4) that by (simp add: no_break_body) (simp add: line_body_def)
  show ?case
  proof (cases "is_line_break c")
    case True
    show ?thesis
    proof (cases cs)
      case Nil
      with True body [OF True, of "[]"] show ?thesis by simp
    next
      case (Cons d ds)
      with True 2(1,2) body [OF True] show ?thesis by auto
    qed
  next
    case False
    with 2 show ?thesis by simp
  qed
qed

lemma splitlines_bodies: "splitlines s = List.map line_body (kept_lines s)"
  using splitlines_kept [of "[]"] by (simp add: splitlines_def kept_lines_def)

lemma kept_lines_accumulate: "no_break l \<Longrightarrow> kept_lines_from acc (l @ s) = kept_lines_from (rev l @ acc) s"
  by (induction l arbitrary: acc) auto

lemma line_parts: "line_body l @ line_break_of l = l" "no_break (line_body l)"
  by (simp_all add: line_body_def line_break_of_def no_break_def list_all_iff) (blast dest: set_takeWhileD)

lemma kept_lines_concat: "well_ended ls \<Longrightarrow> kept_lines (concat ls) = ls"
proof (induction ls)
  case (Cons l ls)
  have lf: "is_line_break (CHR 0x0A)" "is_line_break (CHR 0x0D)" by (simp_all add: is_line_break_def code_def)
  have first: "kept_lines (l @ s) = kept_lines_from (rev (line_body l)) (line_break_of l @ s)" for s
    using kept_lines_accumulate [of "line_body l" "[]" "line_break_of l @ s"] line_parts [of l]
    by (metis append.assoc append_Nil2 kept_lines_def)
  have l: "rev (rev (line_body l)) @ line_break_of l = l" using line_parts(1) by simp
  from Cons.prems consider "line_break_of l = [CHR 0x0A]" "well_ended ls"
    | "line_break_of l = [CHR 0x0D, CHR 0x0A]" "well_ended ls" | "l \<noteq> []" "no_break l" "ls = []" by auto
  then show ?case
  proof cases
    case 1
    have "kept_lines_from (rev (line_body l)) (CHR 0x0A # t) = l # kept_lines_from [] t" for t
      using l 1(1) lf by (cases t) (simp_all add: code_def)
    then have "kept_lines (l @ concat ls) = l # kept_lines (concat ls)"
      using first [of "concat ls"] 1(1) by (simp add: kept_lines_def)
    with Cons.IH 1 show ?thesis by simp
  next
    case 2
    have "kept_lines_from (rev (line_body l)) (CHR 0x0D # CHR 0x0A # t) = l # kept_lines_from [] t" for t
      using l 2(1) lf by (simp add: code_def)
    then have "kept_lines (l @ concat ls) = l # kept_lines (concat ls)"
      using first [of "concat ls"] 2(1) by (simp add: kept_lines_def)
    with Cons.IH 2 show ?thesis by simp
  next
    case 3
    then show ?thesis using kept_lines_accumulate [of l "[]" "[]"] by (simp add: kept_lines_def)
  qed
qed (simp add: kept_lines_def)

lemma kept_lines_bodies: "l \<in> set (kept_lines_from acc s) \<Longrightarrow> no_break acc \<Longrightarrow> l \<noteq> []"
proof (induction acc s rule: kept_lines_from.induct)
  case (2 acc c cs)
  then show ?case by (cases cs) (auto split: if_splits)
qed (auto split: if_splits)

section \<open>Section headers and assignments\<close>

lemma strip_spaces: "list_all is_space w \<Longrightarrow> strip (t @ w) = strip t"
proof -
  assume w: "list_all is_space w"
  obtain w1 w2 where t: "t = w1 @ strip t @ w2" "list_all is_space w1" "list_all is_space w2" "trimmed (strip t)"
    by (rule strip_split)
  then have "strip (w1 @ strip t @ (w2 @ w)) = strip t" using w by (intro strip_padded(3)) auto
  then show ?thesis by (subst t(1)) simp
qed

lemma strip_around:
  assumes "strip a \<noteq> []" "strip b \<noteq> []"
  shows "\<exists>m. strip (a @ c # b) = strip a @ m @ strip b"
proof -
  obtain w1 w2 where a: "a = w1 @ strip a @ w2" "list_all is_space w1" "list_all is_space w2" "trimmed (strip a)"
    by (rule strip_split)
  obtain w3 w4 where b: "b = w3 @ strip b @ w4" "list_all is_space w3" "list_all is_space w4" "trimmed (strip b)"
    by (rule strip_split)
  let ?m = "w2 @ c # w3"
  have "trimmed (strip a @ ?m @ strip b)" using a(4) b(4) assms by (simp add: trimmed_def)
  from strip_padded(3) [OF a(2) b(3) this] have "strip (w1 @ (strip a @ ?m @ strip b) @ w4) = strip a @ ?m @ strip b" .
  moreover have "a @ c # b = w1 @ (strip a @ ?m @ strip b) @ w4" using a(1) b(1) by (metis append.assoc append_Cons)
  ultimately show ?thesis by metis
qed

lemma assignment_section:
  assumes "strip a \<noteq> []" "strip b \<noteq> []"
  shows "section_line (a @ c # b) \<longleftrightarrow> hd (strip a) = CHR ''['' \<and> last (strip b) = CHR '']''"
  using strip_around [OF assms, of c] assms by (auto simp: section_line_def Let_def)

lemma space_breaks: "is_line_break c \<Longrightarrow> is_space c"
  by (auto simp: is_line_break_def is_space_def Let_def)

lemma well_ended_breaks: "line_break_of l \<in> {[CHR 0x0A], [CHR 0x0D, CHR 0x0A]} \<Longrightarrow> list_all is_space (line_break_of l)"
  by (auto simp: is_space_def code_def)

lemma section_body: "list_all is_space (line_break_of l) \<Longrightarrow> section_line l = section_line (line_body l) \<and> strip l = strip (line_body l)"
  using strip_spaces [of "line_break_of l" "line_body l"] line_parts(1) [of l] by (simp add: section_line_def)

lemma partition_first: "x \<notin> set a \<Longrightarrow> partition_at x (a @ x # b) = Some (a, b)"
  by (simp add: partition_at_def takeWhile_append2 dropWhile_append2) (simp add: takeWhile_append dropWhile_append)

lemma secret_name_nonempty: "secret_name s \<Longrightarrow> s \<noteq> []"
  by auto

lemma casefold_char_hd: "casefold_char c \<noteq> [] \<and> (hd (casefold_char c) = CHR ''['' \<longleftrightarrow> c = CHR ''['')"
proof -
  have "char_of (code c + 32) \<noteq> CHR ''[''" if "65 \<le> code c \<and> code c \<le> 90 \<or> 192 \<le> code c \<and> code c \<le> 222"
  proof
    assume "char_of (code c + 32) = CHR ''[''"
    with that have "of_char (char_of (code c + 32) :: char) = (of_char (CHR ''['') :: nat)" by simp
    moreover from that have "code c + 32 < 256" by auto
    ultimately have "code c + 32 = 91" by simp
    with that show False by auto
  qed
  then show ?thesis by (auto simp: casefold_char_def Let_def code_def)
qed

lemma casefold_hd: "s \<noteq> [] \<Longrightarrow> casefold s \<noteq> [] \<and> (hd (casefold s) = CHR ''['' \<longleftrightarrow> hd s = CHR ''['')"
  using casefold_char_hd by (cases s) (auto simp: casefold_def)

section \<open>Reading the merged file\<close>

text \<open>A line is a text without line breaks and one of the common ends; only the last may have none.\<close>

lemma line_splitE:
  assumes "well_ended (l # ls)"
  obtains t w where "l = t @ w" "no_break t" "w \<in> {[], [CHR 0x0A], [CHR 0x0D, CHR 0x0A]}" "line_body l = t"
    "line_break_of l = w" "well_ended ls"
proof
  show "l = line_body l @ line_break_of l" "no_break (line_body l)" "line_body l = line_body l"
    "line_break_of l = line_break_of l" using line_parts by simp_all
  have "line_break_of l = []" if "no_break l" using that by (auto simp: line_break_of_def no_break_def list_all_iff)
  with assms show "line_break_of l \<in> {[], [CHR 0x0A], [CHR 0x0D, CHR 0x0A]}" "well_ended ls" by auto
qed

lemma end_breaks: "w \<in> {[], [CHR 0x0A], [CHR 0x0D, CHR 0x0A]} \<Longrightarrow> list_all is_space w \<and> CHR ''='' \<notin> set w"
  by (auto simp: is_space_def code_def)

lemma ended_section:
  assumes "w \<in> {[], [CHR 0x0A], [CHR 0x0D, CHR 0x0A]}"
  shows "strip (t @ w) = strip t" "section_line (t @ w) = section_line t"
  using strip_spaces [of w t] end_breaks [OF assms] by (simp_all add: section_line_def)

lemma ended_assignment:
  assumes "w \<in> {[], [CHR 0x0A], [CHR 0x0D, CHR 0x0A]}"
  shows "secret_assignment (t @ w) = map_option (\<lambda>(k, v). (k, v @ w)) (secret_assignment t)"
  using end_breaks [OF assms]
  by (auto simp: secret_assignment_def partition_at_def takeWhile_append1 dropWhile_append1 takeWhile_append2
      dest!: split_list_first)

lemma ended_line_end:
  assumes "no_break t" "w \<in> {[], [CHR 0x0A], [CHR 0x0D, CHR 0x0A]}"
  shows "line_end (t @ w) = w"
proof -
  have "is_line_break (CHR 0x0A)" "is_line_break (CHR 0x0D)" by (simp_all add: is_line_break_def code_def)
  then have "last t \<noteq> CHR 0x0A \<and> last t \<noteq> CHR 0x0D" if "t \<noteq> []"
    using assms(1) last_in_set [OF that] unfolding no_break_def list_all_iff by metis
  with assms(2) show ?thesis by (cases t rule: rev_cases) (auto simp: line_end_def ends_with_def)
qed

lemma line_of_ended:
  assumes "no_break t" "w \<in> {[], [CHR 0x0A], [CHR 0x0D, CHR 0x0A]}"
  shows "line_body (t @ w) = t \<and> line_break_of (t @ w) = w"
proof -
  have "line_body w = []" "line_break_of w = w" using assms(2)
    by (auto simp: line_body_def line_break_of_def is_line_break_def code_def)
  moreover have "line_body (t @ w) = t @ line_body w" using assms(1) by (rule no_break_body)
  ultimately show ?thesis using line_parts(1) [of "t @ w"] by simp
qed

text \<open>A secret as the current file has it: a value that no section header hides.\<close>

definition safe_secret :: "(string \<times> string) \<times> string \<Rightarrow> bool" where
  "safe_secret x = (case x of ((_, k), v) \<Rightarrow>
     strip v \<noteq> [] \<and> no_break v \<and> \<not> (hd k = CHR ''['' \<and> last (strip v) = CHR '']''))"

lemma secret_assignment_Some:
  "secret_assignment l = Some (k, v) \<longleftrightarrow> l = k @ CHR ''='' # v \<and> CHR ''='' \<notin> set k \<and> secret_name (strip k)"
proof
  assume "secret_assignment l = Some (k, v)"
  then have "partition_at (CHR ''='') l = Some (k, v)" "secret_name (strip k)"
    by (auto simp: secret_assignment_def split: option.split_asm if_split_asm)
  with partition_at_Some show "l = k @ CHR ''='' # v \<and> CHR ''='' \<notin> set k \<and> secret_name (strip k)" by blast
qed (simp add: secret_assignment_def partition_first)

lemma secret_values_safe:
  "secret_values sect r ls = Inr vs \<Longrightarrow> list_all no_break ls \<Longrightarrow> list_all safe_secret r \<Longrightarrow> list_all safe_secret vs"
proof (induction sect r ls rule: secret_values.induct)
  case (2 sect r line rest)
  show ?case
  proof (cases "section_line line \<or> secret_assignment line = None")
    case True
    with 2 show ?thesis by (auto split: if_split_asm)
  next
    case False
    then obtain k v where kv: "secret_assignment line = Some (k, v)" "\<not> section_line line" by auto
    from kv(1) have l: "line = k @ CHR ''='' # v" "secret_name (strip k)" by (simp_all add: secret_assignment_Some)
    with secret_name_nonempty have k: "strip k \<noteq> []" by blast
    from 2(4) kv have v: "strip v \<noteq> []" "secret_values sect (r @ [((casefold sect, casefold (strip k)), v)]) rest = Inr vs"
      by (auto simp: Let_def split: if_split_asm)
    have "safe_secret ((casefold sect, casefold (strip k)), v)"
      using v(1) kv(2) k l(1) 2(5) assignment_section [OF k v(1), of "CHR ''=''"] casefold_hd [OF k]
      by (simp add: safe_secret_def)
    with 2(3) [OF kv(2) kv(1) refl refl] v 2(4-6) kv show ?thesis by (auto simp: Let_def split: if_split_asm)
  qed
qed simp

definition unchanged_line :: "string \<Rightarrow> bool" where
  "unchanged_line l \<longleftrightarrow> section_line l \<or> secret_assignment l = None"

lemma merge_lines_read:
  assumes "merge_lines current seen sect ls = Inr out" "well_ended ls" "list_all safe_secret current"
  shows "well_ended out \<and> filter unchanged_line (List.map line_body out) = filter unchanged_line (List.map line_body ls)
    \<and> (\<exists>vs. set vs \<subseteq> set current \<and> (\<forall>r. fst ` set r \<subseteq> set seen
        \<longrightarrow> secret_values sect r (List.map line_body out) = Inr (r @ vs)))"
  using assms
proof (induction current seen sect ls arbitrary: out rule: merge_lines.induct)
  case (1 current seen sect)
  then show ?case by (auto intro: exI [of _ "[]"])
next
  case (2 current seen sect line rest)
  obtain t w where l: "line = t @ w" "no_break t" "w \<in> {[], [CHR 0x0A], [CHR 0x0D, CHR 0x0A]}" "line_body line = t"
    "line_break_of line = w" "well_ended rest" using line_splitE [OF 2(5)] by metis
  have same: "section_line line = section_line t" "strip line = strip t"
    "secret_assignment line = map_option (\<lambda>(k, v). (k, v @ w)) (secret_assignment t)" "line_end line = w"
    using ended_section [OF l(3)] ended_assignment [OF l(3)] ended_line_end [OF l(2,3)] l(1) by simp_all
  have step: ?case if "out = n # out'" "line_break_of n = w" "n \<noteq> []" "merge_lines current seen' sect' rest = Inr out'"
      "unchanged_line t \<Longrightarrow> line_body n = t" "unchanged_line (line_body n) = unchanged_line t"
      "well_ended rest \<Longrightarrow> well_ended out'
        \<and> filter unchanged_line (List.map line_body out') = filter unchanged_line (List.map line_body rest)
        \<and> (\<exists>vs. set vs \<subseteq> set current \<and> (\<forall>r. fst ` set r \<subseteq> set seen'
            \<longrightarrow> secret_values sect' r (List.map line_body out') = Inr (r @ vs)))"
      "\<And>r ks. fst ` set r \<subseteq> set seen \<Longrightarrow> fst ` set (r @ x) \<subseteq> set seen'
        \<and> secret_values sect r (line_body n # ks) = secret_values sect' (r @ x) ks"
      "set x \<subseteq> set current"
    for x n out' sect' seen'
  proof -
    have "rest = [] \<longrightarrow> out' = []" using that(4) by auto
    moreover have "no_break n" if "w = []"
      using that \<open>line_break_of n = w\<close> by (simp add: line_break_of_def no_break_def list_all_iff dropWhile_eq_Nil_conv)
    ultimately have "well_ended out" using 2(5) that(1-3,7) l(3,5,6) by auto
    moreover have "filter unchanged_line (List.map line_body out) = filter unchanged_line (List.map line_body (line # rest))"
      using that(1,5-7) l(4,6) by auto
    moreover note reading = that(8)
    from that(7) l(6) obtain vs where vs: "set vs \<subseteq> set current"
      "\<And>r. fst ` set r \<subseteq> set seen' \<Longrightarrow> secret_values sect' r (List.map line_body out') = Inr (r @ vs)" by blast
    note reading = that(8)
    moreover have "set (x @ vs) \<subseteq> set current" using vs(1) that(9) by simp
    moreover have "secret_values sect r (List.map line_body out) = Inr (r @ x @ vs)" if "fst ` set r \<subseteq> set seen" for r
      using vs(2) [of "r @ x"] \<open>out = n # out'\<close> reading [OF that] by simp
    ultimately show ?thesis by blast
  qed
  consider (header) "section_line t" | (other) "\<not> section_line t" "secret_assignment t = None"
    | (secret) k v where "\<not> section_line t" "secret_assignment t = Some (k, v)" by (cases "secret_assignment t") auto
  then show ?case
  proof cases
    case header
    with 2(4) same obtain out' where out: "out = line # out'" "merge_lines current seen (strip line) rest = Inr out'"
      by (auto simp: map_sum_def split: sum.split_asm)
    show ?thesis
    proof (rule step [where x = "[]", OF out(1) l(5) _ out(2)])
      show "line \<noteq> []" using 2(5) by (auto simp: line_break_of_def)
      show "unchanged_line (line_body line) = unchanged_line t" using l(4) by simp
    qed (use header l(4) same 2(1,6) out(2) in auto)
  next
    case other
    with 2(4) same obtain out' where out: "out = line # out'" "merge_lines current seen sect rest = Inr out'"
      by (auto simp: map_sum_def split: sum.split_asm)
    have plain: "\<not> section_line line" "secret_assignment line = None" using other same by simp_all
    show ?thesis
    proof (rule step [where x = "[]", OF out(1) l(5) _ out(2)])
      show "line \<noteq> []" using 2(5) by (auto simp: line_break_of_def)
      show "unchanged_line (line_body line) = unchanged_line t" using l(4) by simp
    qed (use other l(4) 2(2) [OF plain out(2)] 2(6) in auto)
  next
    case secret
    let ?id = "(casefold sect, casefold (strip k))"
    have hidden: "\<not> section_line line" "secret_assignment line = Some (k, v @ w)" using secret same by simp_all
    with 2(4) same obtain cv out' where out: "?id \<notin> set seen" "map_of current ?id = Some cv"
      "out = (k @ CHR ''='' # cv @ w) # out'" "merge_lines current (?id # seen) sect rest = Inr out'"
      by (auto simp: map_sum_def Let_def split: sum.split_asm bool.split_asm option.split_asm)
    from out(2) 2(6) have cv: "(?id, cv) \<in> set current" "strip cv \<noteq> []" "no_break cv"
      "\<not> (hd (casefold (strip k)) = CHR ''['' \<and> last (strip cv) = CHR '']'')"
      using map_of_SomeD [OF out(2)] by (auto simp: list_all_iff safe_secret_def)
    from secret(2) have k: "t = k @ CHR ''='' # v" "CHR ''='' \<notin> set k" "secret_name (strip k)" "strip k \<noteq> []"
      using secret_name_nonempty by (auto simp: secret_assignment_Some)
    have n: "no_break (k @ CHR ''='' # cv)" using l(2) k(1) cv(3) by simp
    have body: "line_body (k @ CHR ''='' # cv @ w) = k @ CHR ''='' # cv"
      and brk: "line_break_of (k @ CHR ''='' # cv @ w) = w"
      using line_of_ended [OF n l(3)] by simp_all
    have nb: "\<not> section_line (k @ CHR ''='' # cv)" "secret_assignment (k @ CHR ''='' # cv) = Some (k, cv)"
      using assignment_section [OF k(4) cv(2)] casefold_hd [OF k(4)] cv(4) k(2,3) by (auto simp: secret_assignment_Some)
    show ?thesis
    proof (rule step [where x = "[(?id, cv)]", OF out(3) brk _ out(4)])
      show "unchanged_line (line_body (k @ CHR ''='' # cv @ w)) = unchanged_line t"
        using body nb secret by (simp add: unchanged_line_def)
      show "unchanged_line t \<Longrightarrow> line_body (k @ CHR ''='' # cv @ w) = t" using secret by (simp add: unchanged_line_def)
      show "fst ` set (r @ [(?id, cv)]) \<subseteq> set (?id # seen) \<and>
          secret_values sect r (line_body (k @ CHR ''='' # cv @ w) # ks) = secret_values sect (r @ [(?id, cv)]) ks"
        if "fst ` set r \<subseteq> set seen" for r ks
      proof -
        have "map_of r ?id = None" using that out(1) by (auto simp: map_of_eq_None_iff)
        with that show ?thesis unfolding body using nb cv(2) by (auto simp: Let_def)
      qed
    qed (use cv(1) 2(3) [OF hidden refl refl] out(1,2,4) 2(6) in auto)
  qed
qed

lemma merge_generic_read:
  assumes "merge_generic_ini b c = Inr m" "well_ended (kept_lines b)"
  shows "\<exists>cur vs. generic_sensitive_values c = Inr cur \<and> generic_sensitive_values m = Inr vs \<and> set vs \<subseteq> set cur
    \<and> filter unchanged_line (splitlines m) = filter unchanged_line (splitlines b)"
proof -
  from assms(1) obtain cur out where P: "generic_sensitive_values c = Inr cur"
    "merge_lines cur [] [] (kept_lines b) = Inr out" "m = concat out" "\<not> MAX_GENERIC_CONFIG_BYTES < utf8_length m"
    by (auto simp: merge_generic_ini_def Let_def split: if_split_asm)
  have "secret_values [] [] (splitlines c) = Inr cur" using P(1) by (simp add: generic_sensitive_values_def split: if_split_asm)
  moreover have "list_all no_break (splitlines c)" by (simp add: splitlines_bodies list_all_iff line_parts(2))
  ultimately have "list_all safe_secret cur" by (rule secret_values_safe) simp
  from merge_lines_read [OF P(2) assms(2) this] obtain vs where "well_ended out" "set vs \<subseteq> set cur"
    "filter unchanged_line (List.map line_body out) = filter unchanged_line (List.map line_body (kept_lines b))"
    "secret_values [] [] (List.map line_body out) = Inr vs" by auto
  moreover from this(1) have "splitlines m = List.map line_body out"
    unfolding splitlines_bodies P(3) by (simp add: kept_lines_concat)
  ultimately show ?thesis using P(1,4) by (auto simp: generic_sensitive_values_def splitlines_bodies)
qed

text \<open>
  C33: no secret of a backup reaches the related settings. When the lines of the backup end in the common ways,
  every secret that the merged file assigns is one that the current file assigns in the same section under
  the same key, with that value; and all other lines of the merged file are those of the backup, in order.
\<close>

theorem related_settings_secrets:
  assumes "merge_generic_ini b c = Inr m" "well_ended (kept_lines b)"
  shows "\<exists>cur vs. generic_sensitive_values c = Inr cur \<and> generic_sensitive_values m = Inr vs \<and> set vs \<subseteq> set cur
    \<and> filter unchanged_line (splitlines m) = filter unchanged_line (splitlines b)"
  by (rule merge_generic_read [OF assms])

definition main_line :: string where "main_line = ''[Main]'' @ [CHR 0x0A]"

definition theirs_line :: string where "theirs_line = ''Password = theirs'' @ [CHR 0x0A]"

definition mine_line :: string where "mine_line = ''Password =mine'' @ [CHR 0x0A]"

definition current_related :: string where
  "current_related = ''[main]'' @ [CHR 0x0A] @ ''password=mine'' @ [CHR 0x0A]"

lemma current_lines:
  "splitlines current_related = [''[main]'', ''password=mine'']" "section_line ''[main]''" "\<not> section_line ''password=mine''"
  "strip ''[main]'' = ''[main]''" "secret_assignment ''password=mine'' = Some (''password'', ''mine'')"
  "strip ''password'' = ''password''" "casefold ''[main]'' = ''[main]''" "casefold ''password'' = ''password''"
  "strip ''mine'' = ''mine''"
  by code_simp+

lemma current_secrets: "generic_sensitive_values current_related = Inr [((''[main]'', ''password''), ''mine'')]"
proof -
  have "utf8_length current_related \<le> MAX_GENERIC_CONFIG_BYTES"
    by (simp add: utf8_length_def MAX_GENERIC_CONFIG_BYTES_def code_def current_related_def)
  then show ?thesis by (simp add: generic_sensitive_values_def current_lines Let_def)
qed

lemma related_lines:
  "kept_lines (main_line @ theirs_line @ ''Rate=2'') = [main_line, theirs_line, ''Rate=2'']"
  "section_line main_line" "strip main_line = ''[Main]''" "\<not> section_line theirs_line" "\<not> section_line ''Rate=2''"
  "secret_assignment theirs_line = Some (''Password '', '' theirs'' @ [CHR 0x0A])" "secret_assignment ''Rate=2'' = None"
  "strip ''Password '' = ''Password''" "casefold ''[Main]'' = ''[main]''" "casefold ''Password'' = ''password''"
  "''Password '' @ CHR ''='' # ''mine'' @ line_end theirs_line = mine_line"
  "well_ended [main_line, theirs_line, ''Rate=2'']"
  by code_simp+

lemma merge_related: "merge_generic_ini (main_line @ theirs_line @ ''Rate=2'') current_related = Inr (main_line @ mine_line @ ''Rate=2'')"
proof -
  have "merge_lines [((''[main]'', ''password''), ''mine'')] [] [] [main_line, theirs_line, ''Rate=2'']
      = Inr [main_line, mine_line, ''Rate=2'']"
    unfolding related_lines(11) [symmetric] by (simp add: related_lines Let_def)
  moreover have "utf8_length (main_line @ mine_line @ ''Rate=2'') \<le> MAX_GENERIC_CONFIG_BYTES"
    by (simp add: utf8_length_def MAX_GENERIC_CONFIG_BYTES_def code_def main_line_def mine_line_def)
  ultimately show ?thesis by (simp add: merge_generic_ini_def related_lines(1) current_secrets then_result_def)
qed

theorem related_settings_secrets_witness:
  "\<exists>vs. generic_sensitive_values (main_line @ mine_line @ ''Rate=2'') = Inr vs
    \<and> set vs \<subseteq> {((''[main]'', ''password''), ''mine'')}"
  using related_settings_secrets [OF merge_related] related_lines(1,12) current_secrets by auto

text \<open>
  Why the ends of the lines matter: a line that ends in a lone carriage return loses its end when its secret is
  replaced, and the next line becomes a part of the value.
\<close>

definition returned_line :: string where "returned_line = ''Password=theirs'' @ [CHR 0x0D]"

lemma lone_return_joins_lines:
  "merge_lines [(([], ''password''), ''mine'')] [] [] [returned_line, ''Rate=2''] = Inr [''Password=mine'', ''Rate=2'']"
proof -
  have "\<not> section_line returned_line" "line_end returned_line = []"
    "secret_assignment returned_line = Some (''Password'', ''theirs'' @ [CHR 0x0D])"
    "strip ''Password'' = ''Password''" "casefold [] = []" by code_simp+
  then show ?thesis using related_lines(5,7,10) by (simp add: Let_def)
qed

end
