(* ===== verification/BackupManifest.thy ===== *)
theory BackupManifest
  imports PalworldSettings Artifacts "HOL-Library.Multiset"
begin

text \<open>
  The contents of a backup (\<open>app/backups/manifest.py\<close>, the writing of an archive in \<open>app/backups/service.py\<close> and
  its extraction in \<open>app/restores/service.py\<close>): the manifest, the checks an archive has to pass, and what is
  extracted from it. A tar.gz is the list of its members, \<open>None\<close> when it cannot be read. SHA-256, the
  parser and the printer of JSON and \<open>datetime.fromisoformat\<close> are the parameters \<open>sha256\<close>, \<open>loads\<close>,
  \<open>dumps\<close> and \<open>is_datetime\<close>; a parsed object has each key once. Contents are bytes, as texts.
\<close>

section \<open>Members and manifest\<close>

datatype node = Directory | RegularFile string | SymbolicLink | SpecialFile

type_synonym tree = "(string \<times> node) list"

record tar_member =
  tm_name :: string
  tm_is_file :: bool
  tm_size :: int
  tm_content :: "string option"

record manifest_file =
  mf_path :: string
  mf_size_bytes :: int
  mf_sha256 :: string

definition MANIFEST_FILENAME :: string where "MANIFEST_FILENAME = ''manifest.json''"

definition MAX_MANIFEST_BYTES :: int where "MAX_MANIFEST_BYTES = 4 * 1024 * 1024"

definition MAX_ARCHIVE_MEMBERS :: int where "MAX_ARCHIVE_MEMBERS = 100000"

definition MAX_ARCHIVE_PATH_BYTES :: nat where "MAX_ARCHIVE_PATH_BYTES = 4096"

definition MAX_ARCHIVE_UNCOMPRESSED_BYTES :: int where "MAX_ARCHIVE_UNCOMPRESSED_BYTES = 128 * 1024 ^ 3"

text \<open>\<open>TypeError\<close>, which no handler here names.\<close>

definition TypeError :: exn where "TypeError = OtherException"

text \<open>\<open>str.isalpha\<close> of a Latin-1 character.\<close>

definition is_alpha :: "char \<Rightarrow> bool" where
  "is_alpha c \<longleftrightarrow> is_upper c \<or> is_lower c \<or> code c \<in> {170, 181, 186} \<or> (192 \<le> code c \<and> code c \<noteq> 215 \<and> code c \<noteq> 247)"

fun join_slashes :: "string list \<Rightarrow> string" where
  "join_slashes [] = ''.''"
| "join_slashes [s] = s"
| "join_slashes (s # t # ts) = s @ CHR ''/'' # join_slashes (t # ts)"

definition validate_archive_path :: "string \<Rightarrow> bool" where
  "validate_archive_path s \<longleftrightarrow>
     \<not> (s = [] \<or> MAX_ARCHIVE_PATH_BYTES < utf8_length s \<or> CHR 0x5C \<in> set s \<or> starts_with s ''/''
        \<or> s \<noteq> join_slashes (path_parts s)
        \<or> (2 \<le> length s \<and> is_alpha (s ! 0) \<and> s ! 1 = CHR '':'')
        \<or> list_ex (\<lambda>c. code c < 32 \<or> code c = 127) s)
     \<and> \<not> list_ex (\<lambda>part. part \<in> {[], ''.'', ''..''}) (path_parts s)"

text \<open>\<open>payload_manifest_files\<close>: the files of a directory in the order of their paths.\<close>

fun manifest_files :: "(string \<Rightarrow> string) \<Rightarrow> tree \<Rightarrow> exn + manifest_file list" where
  "manifest_files sha256 [] = Inr []"
| "manifest_files sha256 ((path, n) # rest) = (case n of
     SymbolicLink \<Rightarrow> Inl BackupValidationError
   | Directory \<Rightarrow> manifest_files sha256 rest
   | SpecialFile \<Rightarrow> Inl BackupValidationError
   | RegularFile content \<Rightarrow>
       if \<not> validate_archive_path path then Inl BackupValidationError
       else map_sum id ((#) \<lparr>mf_path = path, mf_size_bytes = int (length content), mf_sha256 = sha256 content\<rparr>)
         (manifest_files sha256 rest))"

definition payload_manifest_files :: "(string \<Rightarrow> string) \<Rightarrow> tree \<Rightarrow> exn + manifest_file list" where
  "payload_manifest_files sha256 payload =
     (case manifest_files sha256 (order_by fst payload) of
        Inl e \<Rightarrow> Inl e
      | Inr files \<Rightarrow> if files = [] then Inl BackupValidationError else Inr files)"

text \<open>The manifest as a value; \<open>sort_keys\<close> orders the keys of each object.\<close>

definition manifest_entry :: "manifest_file \<Rightarrow> json" where
  "manifest_entry f = JObj [(''path'', JStr (mf_path f)), (''sha256'', JStr (mf_sha256 f)), (''size_bytes'', JInt (mf_size_bytes f))]"

definition build_manifest :: "string \<Rightarrow> string \<Rightarrow> string \<Rightarrow> manifest_file list \<Rightarrow> json" where
  "build_manifest backup_id created_at_utc trigger files = JObj
     [(''backup_id'', JStr backup_id), (''created_at_utc'', JStr created_at_utc),
      (''files'', JArr (List.map manifest_entry files)),
      (''metadata'', JObj [(''format'', JStr ''tar.gz''), (''kind'', JStr ''local''), (''trigger'', JStr (List.map to_lower trigger))]),
      (''schema_version'', JInt 1)]"

section \<open>Writing an archive\<close>

text \<open>\<open>_write_archive\<close>: the manifest first, then every file it lists.\<close>

fun file_members :: "tree \<Rightarrow> manifest_file list \<Rightarrow> exn + tar_member list" where
  "file_members payload [] = Inr []"
| "file_members payload (entry # rest) = (case map_of payload (mf_path entry) of
     Some (RegularFile content) \<Rightarrow>
       map_sum id ((#) \<lparr>tm_name = mf_path entry, tm_is_file = True, tm_size = int (length content), tm_content = Some content\<rparr>)
         (file_members payload rest)
   | _ \<Rightarrow> Inl BackupValidationError)"

definition write_archive :: "tree \<Rightarrow> manifest_file list \<Rightarrow> string \<Rightarrow> exn + tar_member list" where
  "write_archive payload files manifest =
     map_sum id ((#) \<lparr>tm_name = MANIFEST_FILENAME, tm_is_file = True, tm_size = int (length manifest), tm_content = Some manifest\<rparr>)
       (file_members payload files)"

section \<open>Reading a manifest\<close>

text \<open>\<open>int(text, 16)\<close> succeeds: spaces around, a sign, a prefix, and digits with single underscores between them.\<close>

fun hex_groups :: "bool \<Rightarrow> string \<Rightarrow> bool" where
  "hex_groups after_digit [] = after_digit"
| "hex_groups after_digit (c # cs) =
     (if hex_value c \<noteq> None then hex_groups True cs else c = CHR ''_'' \<and> after_digit \<and> hex_groups False cs)"

definition int_base_16 :: "string \<Rightarrow> bool" where
  "int_base_16 text =
     (let s = strip text;
          t = (case s of c # cs \<Rightarrow> if c = CHR ''+'' \<or> c = CHR ''-'' then cs else s | [] \<Rightarrow> s);
          u = (if starts_with t ''0x'' \<or> starts_with t ''0X'' then
                 (case drop 2 t of c # cs \<Rightarrow> if c = CHR ''_'' then cs else c # cs | [] \<Rightarrow> []) else t)
      in hex_groups False u)"

text \<open>\<open>text.replace('Z', '+00:00')\<close>.\<close>

definition utc_offset :: "string \<Rightarrow> string" where
  "utc_offset s = concat (List.map (\<lambda>c. if c = CHR ''Z'' then ''+00:00'' else [c]) s)"

text \<open>An object of the list of files: its values, then the object itself.\<close>

definition checked_file :: "string option \<Rightarrow> int option \<Rightarrow> string option \<Rightarrow> exn + manifest_file" where
  "checked_file path size_bytes digest = (case (path, size_bytes, digest) of
     (Some p, Some n, Some h) \<Rightarrow>
       if \<not> validate_archive_path p \<or> p = MANIFEST_FILENAME \<or> n < 0 \<or> length h \<noteq> 64 \<or> \<not> int_base_16 h
       then Inl BackupValidationError
       else Inr \<lparr>mf_path = p, mf_size_bytes = n, mf_sha256 = h\<rparr>
   | _ \<Rightarrow> Inl BackupValidationError)"

definition parse_entry_of :: "json \<Rightarrow> exn + manifest_file" where
  "parse_entry_of raw = (case raw of
     JObj d \<Rightarrow>
       if set (List.map fst d) \<noteq> {''path'', ''size_bytes'', ''sha256''} then Inl BackupValidationError
       else checked_file (json_str (dict_get d ''path'')) (json_int (dict_get d ''size_bytes'')) (json_str (dict_get d ''sha256''))
   | _ \<Rightarrow> Inl BackupValidationError)"

fun parse_files :: "json list \<Rightarrow> exn + manifest_file list" where
  "parse_files [] = Inr []"
| "parse_files (raw # rest) = (case parse_entry_of raw of
     Inl e \<Rightarrow> Inl e | Inr f \<Rightarrow> map_sum id ((#) f) (parse_files rest))"

text \<open>The metadata; a list or an object as the trigger is not hashable.\<close>

definition parse_metadata :: "json option \<Rightarrow> exn + unit" where
  "parse_metadata metadata = (case metadata of
     Some (JObj m) \<Rightarrow>
       if set (List.map fst m) \<noteq> {''format'', ''kind'', ''trigger''} then Inl BackupValidationError
       else if dict_get m ''format'' \<noteq> Some (JStr ''tar.gz'') \<or> dict_get m ''kind'' \<noteq> Some (JStr ''local'') then Inl BackupValidationError
       else (case dict_get m ''trigger'' of
         Some (JArr _) \<Rightarrow> Inl TypeError
       | Some (JObj _) \<Rightarrow> Inl TypeError
       | v \<Rightarrow> if v \<in> {Some (JStr ''manual''), Some (JStr ''automatic'')} then Inr () else Inl BackupValidationError)
   | _ \<Rightarrow> Inl BackupValidationError)"

definition parse_header :: "(string \<Rightarrow> bool) \<Rightarrow> dict \<Rightarrow> exn + unit" where
  "parse_header is_datetime d =
     (if dict_get d ''schema_version'' \<notin> {Some (JInt 1), Some (JBool True)} then Inl BackupValidationError
      else (case (json_str (dict_get d ''backup_id''), json_str (dict_get d ''created_at_utc'')) of
        (Some backup_id, Some created_at) \<Rightarrow>
          if length backup_id \<noteq> 32 \<or> \<not> int_base_16 backup_id \<or> \<not> ends_with created_at ''Z''
            \<or> \<not> is_datetime (utc_offset created_at)
          then Inl BackupValidationError else parse_metadata (dict_get d ''metadata'')
      | _ \<Rightarrow> Inl BackupValidationError))"

definition parse_listed :: "json option \<Rightarrow> exn + manifest_file list" where
  "parse_listed raw_files = (case raw_files of
     Some (JArr raw) \<Rightarrow> (case parse_files raw of
       Inl e \<Rightarrow> Inl e
     | Inr files \<Rightarrow>
         let paths = List.map mf_path files in
         if paths \<noteq> sort paths \<or> \<not> distinct paths then Inl BackupValidationError else Inr files)
   | _ \<Rightarrow> Inl BackupValidationError)"

definition parse_manifest :: "(string \<Rightarrow> bool) \<Rightarrow> json \<Rightarrow> exn + manifest_file list" where
  "parse_manifest is_datetime payload = (case payload of
     JObj d \<Rightarrow> (case parse_header is_datetime d of
       Inl e \<Rightarrow> Inl e | Inr _ \<Rightarrow> parse_listed (dict_get d ''files''))
   | _ \<Rightarrow> Inl BackupValidationError)"

section \<open>Checking an archive\<close>

text \<open>The loop over the members: how many were seen, their names, the declared size of the payload.\<close>

fun check_members :: "string list \<Rightarrow> int \<Rightarrow> tar_member list \<Rightarrow> exn + unit" where
  "check_members names declared [] = Inr ()"
| "check_members names declared (m # rest) =
     (if MAX_ARCHIVE_MEMBERS \<le> int (length names) then Inl BackupValidationError
      else if \<not> validate_archive_path (tm_name m) then Inl BackupValidationError
      else if \<not> tm_is_file m \<or> tm_size m < 0 then Inl BackupValidationError
      else if names = [] \<and> tm_name m \<noteq> MANIFEST_FILENAME then Inl BackupValidationError
      else if tm_name m \<in> set names then Inl BackupValidationError
      else if tm_name m = MANIFEST_FILENAME then
        (if MAX_MANIFEST_BYTES < tm_size m then Inl BackupValidationError
         else check_members (names @ [tm_name m]) declared rest)
      else if MAX_ARCHIVE_UNCOMPRESSED_BYTES < declared + tm_size m then Inl BackupValidationError
      else check_members (names @ [tm_name m]) (declared + tm_size m) rest)"

text \<open>\<open>archive.getmember(name)\<close> when each name occurs once.\<close>

definition get_member :: "tar_member list \<Rightarrow> string \<Rightarrow> tar_member option" where
  "get_member members name = List.find (\<lambda>m. tm_name m = name) members"

fun payload_sizes :: "tar_member list \<Rightarrow> int \<Rightarrow> manifest_file list \<Rightarrow> exn + int" where
  "payload_sizes members summed [] = Inr summed"
| "payload_sizes members summed (entry # rest) = (case get_member members (mf_path entry) of
     None \<Rightarrow> Inl OtherException
   | Some m \<Rightarrow>
       if tm_size m \<noteq> mf_size_bytes entry then Inl BackupValidationError
       else if MAX_ARCHIVE_UNCOMPRESSED_BYTES < summed + mf_size_bytes entry then Inl BackupValidationError
       else payload_sizes members (summed + mf_size_bytes entry) rest)"

record archive_structure =
  as_manifest :: json
  as_expected :: "manifest_file list"
  as_payload_size_bytes :: int

definition validated_structure ::
  "(string \<Rightarrow> json option) \<Rightarrow> (string \<Rightarrow> bool) \<Rightarrow> tar_member list \<Rightarrow> exn + archive_structure" where
  "validated_structure loads is_datetime members =
     (case check_members [] 0 members of
        Inl e \<Rightarrow> Inl e
      | Inr _ \<Rightarrow> (case members of
          [] \<Rightarrow> Inl BackupValidationError
        | first # _ \<Rightarrow> (case tm_content first of
            None \<Rightarrow> Inl BackupValidationError
          | Some manifest_bytes \<Rightarrow>
              if MAX_MANIFEST_BYTES < int (length manifest_bytes) then Inl BackupValidationError
              else (case loads manifest_bytes of
                None \<Rightarrow> Inl BackupValidationError
              | Some manifest \<Rightarrow> (case parse_manifest is_datetime manifest of
                  Inl e \<Rightarrow> Inl e
                | Inr expected \<Rightarrow>
                    if set (List.map tm_name members) \<noteq> insert MANIFEST_FILENAME (set (List.map mf_path expected))
                    then Inl BackupValidationError
                    else map_sum id (\<lambda>summed. \<lparr>as_manifest = manifest, as_expected = expected, as_payload_size_bytes = summed\<rparr>)
                      (payload_sizes members 0 expected))))))"

fun check_contents :: "(string \<Rightarrow> string) \<Rightarrow> tar_member list \<Rightarrow> manifest_file list \<Rightarrow> exn + unit" where
  "check_contents sha256 members [] = Inr ()"
| "check_contents sha256 members (entry # rest) = (case get_member members (mf_path entry) of
     None \<Rightarrow> Inl OtherException
   | Some m \<Rightarrow>
       if tm_size m \<noteq> mf_size_bytes entry then Inl BackupValidationError
       else (case tm_content m of
         None \<Rightarrow> Inl BackupValidationError
       | Some content \<Rightarrow>
           if sha256 content \<noteq> mf_sha256 entry then Inl BackupValidationError
           else check_contents sha256 members rest))"

definition validate_archive ::
  "(string \<Rightarrow> string) \<Rightarrow> (string \<Rightarrow> json option) \<Rightarrow> (string \<Rightarrow> bool) \<Rightarrow> tar_member list option \<Rightarrow> exn + json" where
  "validate_archive sha256 loads is_datetime archive = (case archive of
     None \<Rightarrow> Inl BackupValidationError
   | Some members \<Rightarrow> (case validated_structure loads is_datetime members of
       Inl e \<Rightarrow> Inl e
     | Inr st \<Rightarrow> map_sum id (\<lambda>_. as_manifest st) (check_contents sha256 members (as_expected st))))"

text \<open>\<open>inspect_archive\<close>.\<close>

definition summarize_archive ::
  "(string \<Rightarrow> json option) \<Rightarrow> (string \<Rightarrow> bool) \<Rightarrow> tar_member list option \<Rightarrow> exn + int" where
  "summarize_archive loads is_datetime archive = (case archive of
     None \<Rightarrow> Inl BackupValidationError
   | Some members \<Rightarrow> map_sum id as_payload_size_bytes (validated_structure loads is_datetime members))"

section \<open>Extracting an archive\<close>

text \<open>Two files of which one would have to be a directory on the path of the other, or that are the same.\<close>

definition in_the_way :: "string \<Rightarrow> string \<Rightarrow> bool" where
  "in_the_way p q \<longleftrightarrow> p = q \<or> starts_with p (q @ ''/'') \<or> starts_with q (p @ ''/'')"

definition ARCHIVE_EXTRACTION_FAILED :: exn where
  "ARCHIVE_EXTRACTION_FAILED = RestoreError ''ARCHIVE_EXTRACTION_FAILED'' (msg_text ''O backup n~ao p^ode ser preparado com seguran_ca.'')"

text \<open>\<open>_extract_validated_archive\<close>: what is extracted into the empty directory.\<close>

fun extract_members :: "(string \<times> string) list \<Rightarrow> tar_member list \<Rightarrow> exn + (string \<times> string) list" where
  "extract_members extracted [] = Inr extracted"
| "extract_members extracted (m # rest) =
     (if tm_name m = MANIFEST_FILENAME then extract_members extracted rest
      else if \<not> validate_archive_path (tm_name m) then Inl BackupValidationError
      else if \<not> tm_is_file m then Inl (RestoreError ''ARCHIVE_ENTRY_INVALID'' (msg_text ''O backup cont/em uma entrada insegura.''))
      else (case tm_content m of
        None \<Rightarrow> Inl (RestoreError ''ARCHIVE_ENTRY_INVALID'' (msg_text ''O backup cont/em uma entrada ileg/ivel.''))
      | Some content \<Rightarrow>
          if list_ex (\<lambda>(path, _). in_the_way (tm_name m) path) extracted then Inl ARCHIVE_EXTRACTION_FAILED
          else extract_members (extracted @ [(tm_name m, content)]) rest))"

section \<open>What a valid archive holds\<close>

lemma get_member_Some: "get_member ms name = Some m \<Longrightarrow> m \<in> set ms \<and> tm_name m = name"
  by (auto simp: get_member_def find_Some_iff)

lemma get_member_in:
  "distinct (List.map tm_name ms) \<Longrightarrow> m \<in> set ms \<Longrightarrow> get_member ms (tm_name m) = Some m"
  by (induction ms) (auto simp: get_member_def)

lemma check_members_sound:
  "check_members names declared ms = Inr () \<Longrightarrow> distinct names \<Longrightarrow> distinct (names @ List.map tm_name ms)
    \<and> (\<forall>m\<in>set ms. tm_is_file m \<and> validate_archive_path (tm_name m))"
proof (induction ms arbitrary: names declared)
  case (Cons m ms)
  from Cons.prems(1) obtain declared' where ok: "validate_archive_path (tm_name m)" "tm_is_file m" "tm_name m \<notin> set names"
    "check_members (names @ [tm_name m]) declared' ms = Inr ()" by (auto split: if_split_asm)
  from Cons.IH [OF ok(4)] ok Cons.prems(2) show ?case by auto
qed simp

lemma extract_members_sound:
  "extract_members extracted ms = Inr payload \<Longrightarrow>
     payload = extracted @ List.map (\<lambda>m. (tm_name m, the (tm_content m))) (filter (\<lambda>m. tm_name m \<noteq> MANIFEST_FILENAME) ms)"
proof (induction ms arbitrary: extracted)
  case (Cons m ms)
  show ?case
  proof (cases "tm_name m = MANIFEST_FILENAME")
    case True
    with Cons show ?thesis by simp
  next
    case False
    with Cons.prems obtain content where "tm_content m = Some content"
      "extract_members (extracted @ [(tm_name m, content)]) ms = Inr payload"
      by (simp split: if_split_asm option.split_asm)
    with False Cons.IH [OF this(2)] show ?thesis by simp
  qed
qed simp

lemma check_contents_sound:
  "check_contents sha256 ms files = Inr () \<Longrightarrow> f \<in> set files \<Longrightarrow>
     \<exists>m content. get_member ms (mf_path f) = Some m \<and> tm_content m = Some content \<and> sha256 content = mf_sha256 f
       \<and> tm_size m = mf_size_bytes f"
  by (induction files) (auto split: option.split_asm if_split_asm)

lemma checked_file_path: "checked_file p n h = Inr f \<Longrightarrow> mf_path f \<noteq> MANIFEST_FILENAME"
  by (cases p; cases n; cases h) (auto simp: checked_file_def split: if_split_asm)

lemma parse_entry_path: "parse_entry_of raw = Inr f \<Longrightarrow> mf_path f \<noteq> MANIFEST_FILENAME"
  by (cases raw) (simp_all add: parse_entry_of_def checked_file_path split: if_split_asm)

lemma parse_files_paths:
  "parse_files raws = Inr files \<Longrightarrow> f \<in> set files \<Longrightarrow> mf_path f \<noteq> MANIFEST_FILENAME"
proof (induction raws arbitrary: files)
  case (Cons raw raws)
  then show ?case by (auto simp: map_sum_def split: sum.split_asm dest: parse_entry_path)
qed simp

lemma parse_listed_Inr:
  "parse_listed raw = Inr files \<Longrightarrow> \<exists>raws. parse_files raws = Inr files \<and> distinct (List.map mf_path files)"
  by (auto simp: parse_listed_def Let_def split: option.split_asm json.split_asm sum.split_asm if_split_asm)

lemma parse_manifest_Inr:
  "parse_manifest is_datetime d = Inr files \<Longrightarrow> \<exists>raw. parse_listed raw = Inr files"
  by (auto simp: parse_manifest_def split: json.split_asm sum.split_asm)

lemma parse_manifest_paths:
  assumes "parse_manifest is_datetime d = Inr files"
  shows "distinct (List.map mf_path files)" "f \<in> set files \<Longrightarrow> mf_path f \<noteq> MANIFEST_FILENAME"
  using parse_manifest_Inr [OF assms] parse_listed_Inr parse_files_paths by blast+

text \<open>The payload is exactly what the manifest lists, and stays inside of the directory it is extracted into.\<close>

definition exact_payload :: "(string \<Rightarrow> string) \<Rightarrow> manifest_file list \<Rightarrow> (string \<times> string) list \<Rightarrow> bool" where
  "exact_payload sha256 files payload \<longleftrightarrow>
     distinct (List.map fst payload) \<and> fst ` set payload = mf_path ` set files
     \<and> (\<forall>(path, content)\<in>set payload. \<not> starts_with path ''/'' \<and> ''..'' \<notin> set (path_parts path)
         \<and> (\<exists>f\<in>set files. mf_path f = path \<and> mf_sha256 f = sha256 content))"

lemma valid_archive_payload:
  assumes "validate_archive sha256 loads is_datetime (Some ms) = Inr manifest" "extract_members [] ms = Inr payload"
  shows "\<exists>files. parse_manifest is_datetime manifest = Inr files \<and> exact_payload sha256 files payload"
proof -
  from assms(1) obtain st where st: "validated_structure loads is_datetime ms = Inr st"
    "check_contents sha256 ms (as_expected st) = Inr ()" "as_manifest st = manifest"
    by (auto simp: validate_archive_def map_sum_def split: sum.split_asm)
  let ?files = "as_expected st"
  from st(1) have P: "check_members [] 0 ms = Inr ()" "parse_manifest is_datetime manifest = Inr ?files"
    "set (List.map tm_name ms) = insert MANIFEST_FILENAME (set (List.map mf_path ?files))"
    using st(3) by (auto simp: validated_structure_def map_sum_def split: sum.split_asm option.split_asm list.split_asm if_split_asm)
  from check_members_sound [OF P(1)] have ms: "distinct (List.map tm_name ms)"
    "\<And>m. m \<in> set ms \<Longrightarrow> validate_archive_path (tm_name m)" by auto
  note paths = parse_manifest_paths [OF P(2)]
  from extract_members_sound [OF assms(2)] have payload:
    "payload = List.map (\<lambda>m. (tm_name m, the (tm_content m))) (filter (\<lambda>m. tm_name m \<noteq> MANIFEST_FILENAME) ms)" by simp
  have "fst ` set payload = mf_path ` set ?files"
    using P(3) paths(2) unfolding payload by (auto simp: image_iff) (metis (no_types, lifting) image_iff insert_iff list.set_map)+
  moreover have "distinct (List.map fst payload)"
    using ms(1) unfolding payload by (auto simp: comp_def distinct_map inj_on_def)
  moreover have "\<not> starts_with path ''/'' \<and> ''..'' \<notin> set (path_parts path)
      \<and> (\<exists>f\<in>set ?files. mf_path f = path \<and> mf_sha256 f = sha256 content)" if "(path, content) \<in> set payload" for path content
  proof -
    from that obtain m where m: "m \<in> set ms" "tm_name m = path" "path \<noteq> MANIFEST_FILENAME" "content = the (tm_content m)"
      unfolding payload by auto
    with P(3) obtain f where f: "f \<in> set ?files" "mf_path f = path" by auto
    from check_contents_sound [OF st(2) f(1)] get_member_in [OF ms(1) m(1)] f(2) m(2,4)
    have "mf_sha256 f = sha256 content" by auto
    with f ms(2) [OF m(1)] m(2) show ?thesis by (auto simp: validate_archive_path_def list_ex_iff)
  qed
  ultimately show ?thesis using P(2) by (auto simp: exact_payload_def)
qed

section \<open>What is written can be read\<close>

definition regular_files :: "tree \<Rightarrow> (string \<times> string) list" where
  "regular_files t = List.map_filter (\<lambda>(p, n). case n of RegularFile c \<Rightarrow> Some (p, c) | _ \<Rightarrow> None) t"

lemma regular_files_simps [simp]:
  "regular_files [] = []"
  "regular_files ((p, n) # t) = (case n of RegularFile c \<Rightarrow> (p, c) # regular_files t | _ \<Rightarrow> regular_files t)"
  by (simp_all add: regular_files_def map_filter_simps split: node.split)

definition listed :: "(string \<Rightarrow> string) \<Rightarrow> string \<times> string \<Rightarrow> manifest_file" where
  "listed sha256 = (\<lambda>(p, c). \<lparr>mf_path = p, mf_size_bytes = int (length c), mf_sha256 = sha256 c\<rparr>)"

definition packed :: "string \<times> string \<Rightarrow> tar_member" where
  "packed = (\<lambda>(p, c). \<lparr>tm_name = p, tm_is_file = True, tm_size = int (length c), tm_content = Some c\<rparr>)"

lemma listed_simps [simp]:
  "mf_path (listed sha256 x) = fst x" "mf_size_bytes (listed sha256 x) = int (length (snd x))"
  "mf_sha256 (listed sha256 x) = sha256 (snd x)"
  by (simp_all add: listed_def split: prod.split)

lemma packed_simps [simp]:
  "tm_name (packed x) = fst x" "tm_is_file (packed x)" "tm_size (packed x) = int (length (snd x))"
  "tm_content (packed x) = Some (snd x)"
  by (simp_all add: packed_def split: prod.split)

lemma manifest_files_listed:
  "manifest_files sha256 t = Inr files \<Longrightarrow> files = List.map (listed sha256) (regular_files t)
    \<and> (\<forall>x\<in>set (regular_files t). validate_archive_path (fst x))"
proof (induction t arbitrary: files)
  case (Cons x t)
  obtain p n where x: "x = (p, n)" by force
  with Cons show ?case
    by (cases n) (auto simp: map_sum_def listed_def split: sum.split_asm if_split_asm)
qed simp

lemma regular_files_mem: "(p, c) \<in> set (regular_files t) \<longleftrightarrow> (p, RegularFile c) \<in> set t"
  by (induction t) (auto split: node.split node.split_asm)

lemma regular_files_sorted: "sorted (List.map fst t) \<Longrightarrow> sorted (List.map fst (regular_files t))"
proof (induction t)
  case (Cons x t)
  obtain p n where x: "x = (p, n)" by force
  have "p \<le> fst y" if "y \<in> set (regular_files t)" for y
    using that Cons.prems x regular_files_mem [of "fst y" "snd y" t] by force
  with Cons x show ?case by (auto split: node.split)
qed simp

lemma regular_files_distinct: "distinct (List.map fst t) \<Longrightarrow> distinct (List.map fst (regular_files t))"
proof (induction t)
  case (Cons x t)
  obtain p n where x: "x = (p, n)" by force
  have "fst y \<noteq> p" if "y \<in> set (regular_files t)" for y
    using that Cons.prems x regular_files_mem [of "fst y" "snd y" t] by force
  with Cons x show ?case by (auto split: node.split)
qed simp

lemma file_members_packed:
  assumes "distinct (List.map fst payload)"
  shows "\<forall>x\<in>set xs. (fst x, RegularFile (snd x)) \<in> set payload
    \<Longrightarrow> file_members payload (List.map (listed sha256) xs) = Inr (List.map packed xs)"
proof (induction xs)
  case (Cons x xs)
  from Cons.prems assms have "map_of payload (fst x) = Some (RegularFile (snd x))" by simp
  with Cons show ?case by (simp add: packed_def split: prod.split)
qed simp

text \<open>The digests are texts of 64 hexadecimal digits.\<close>

definition hex_digests :: "(string \<Rightarrow> string) \<Rightarrow> bool" where
  "hex_digests sha256 \<longleftrightarrow> (\<forall>c. length (sha256 c) = 64 \<and> int_base_16 (sha256 c))"

lemma parse_entry_listed:
  assumes "validate_archive_path (fst x)" "fst x \<noteq> MANIFEST_FILENAME"
    and "hex_digests sha256"
  shows "parse_entry_of (manifest_entry (listed sha256 x)) = Inr (listed sha256 x)"
  using assms by (cases x) (simp add: hex_digests_def parse_entry_of_def checked_file_def manifest_entry_def dict_get_def json_str_def json_int_def listed_def insert_commute)

lemma parse_files_listed:
  assumes "hex_digests sha256"
  shows "\<forall>x\<in>set xs. validate_archive_path (fst x) \<and> fst x \<noteq> MANIFEST_FILENAME
    \<Longrightarrow> parse_files (List.map (\<lambda>x. manifest_entry (listed sha256 x)) xs) = Inr (List.map (listed sha256) xs)"
  by (induction xs) (simp_all add: parse_entry_listed assms)

definition payload_bytes :: "(string \<times> string) list \<Rightarrow> int" where
  "payload_bytes xs = sum_list (List.map (\<lambda>x. int (length (snd x))) xs)"

lemma payload_bytes_simps [simp]:
  "payload_bytes [] = 0" "payload_bytes (x # xs) = int (length (snd x)) + payload_bytes xs" "0 \<le> payload_bytes xs"
  by (simp_all add: payload_bytes_def) (rule sum_list_nonneg, auto)

lemma check_members_packed:
  "distinct (names @ List.map fst xs) \<Longrightarrow> MANIFEST_FILENAME \<in> set names
    \<Longrightarrow> \<forall>x\<in>set xs. validate_archive_path (fst x)
    \<Longrightarrow> int (length names) + int (length xs) \<le> MAX_ARCHIVE_MEMBERS
    \<Longrightarrow> declared + payload_bytes xs \<le> MAX_ARCHIVE_UNCOMPRESSED_BYTES
    \<Longrightarrow> check_members names declared (List.map packed xs) = Inr ()"
proof (induction xs arbitrary: names declared)
  case (Cons x xs)
  have "check_members (names @ [fst x]) (declared + int (length (snd x))) (List.map packed xs) = Inr ()"
    by (rule Cons.IH) (use Cons.prems in auto)
  moreover have "declared + int (length (snd x)) \<le> MAX_ARCHIVE_UNCOMPRESSED_BYTES"
    using Cons.prems(5) payload_bytes_simps(3) [of xs] unfolding payload_bytes_simps(2) by linarith
  moreover have "fst x \<notin> set names" "fst x \<noteq> MANIFEST_FILENAME" "names \<noteq> []" using Cons.prems(1,2) by auto
  ultimately show ?case using Cons.prems(3,4) by simp
qed simp

lemma get_member_packed:
  assumes "distinct (List.map fst xs)" "x \<in> set xs" "fst x \<noteq> tm_name first"
  shows "get_member (first # List.map packed xs) (fst x) = Some (packed x)"
proof -
  have "get_member (List.map packed xs) (tm_name (packed x)) = Some (packed x)"
    using assms(1,2) by (intro get_member_in) (simp_all add: comp_def)
  with assms(3) show ?thesis by (auto simp: get_member_def)
qed

lemma payload_sizes_packed:
  "\<forall>x\<in>set xs. get_member ms (fst x) = Some (packed x) \<Longrightarrow> summed + payload_bytes xs \<le> MAX_ARCHIVE_UNCOMPRESSED_BYTES
    \<Longrightarrow> payload_sizes ms summed (List.map (listed sha256) xs) = Inr (summed + payload_bytes xs)"
proof (induction xs arbitrary: summed)
  case (Cons x xs)
  have "summed + int (length (snd x)) \<le> MAX_ARCHIVE_UNCOMPRESSED_BYTES"
    using Cons.prems(2) payload_bytes_simps(3) [of xs] unfolding payload_bytes_simps(2) by linarith
  with Cons show ?case by simp
qed simp

lemma check_contents_packed:
  "\<forall>x\<in>set xs. get_member ms (fst x) = Some (packed x) \<Longrightarrow> check_contents sha256 ms (List.map (listed sha256) xs) = Inr ()"
  by (induction xs) simp_all

definition no_file_in_the_way :: "(string \<times> string) list \<Rightarrow> bool" where
  "no_file_in_the_way xs \<longleftrightarrow> (\<forall>x\<in>set xs. \<forall>y\<in>set xs. fst x \<noteq> fst y \<longrightarrow> \<not> in_the_way (fst x) (fst y))"

lemma extract_packed:
  assumes "\<forall>x\<in>set xs. validate_archive_path (fst x) \<and> fst x \<noteq> MANIFEST_FILENAME" "distinct (List.map fst (ys @ xs))"
    and "no_file_in_the_way (ys @ xs)"
  shows "extract_members ys (List.map packed xs) = Inr (ys @ xs)"
  using assms
proof (induction xs arbitrary: ys)
  case (Cons x xs)
  have "\<not> in_the_way (fst x) (fst y)" if "y \<in> set ys" for y
  proof -
    from that have "fst y \<in> fst ` set ys" by simp
    moreover have "fst x \<notin> fst ` set ys" using Cons.prems(2) by simp
    ultimately have "fst x \<noteq> fst y" by metis
    with that Cons.prems(3) show ?thesis by (simp add: no_file_in_the_way_def)
  qed
  then have "\<not> list_ex (\<lambda>(path, _). in_the_way (fst x) path) ys" by (auto simp: list_ex_iff)
  moreover have "extract_members (ys @ [x]) (List.map packed xs) = Inr ((ys @ [x]) @ xs)"
    by (rule Cons.IH) (use Cons.prems in auto)
  ultimately show ?case using Cons.prems(1) by simp
qed simp

lemma manifest_path_valid: "validate_archive_path MANIFEST_FILENAME"
  by (simp add: validate_archive_path_def MANIFEST_FILENAME_def path_parts_def utf8_length_def MAX_ARCHIVE_PATH_BYTES_def
      code_def is_alpha_def)

text \<open>What makes a payload fit into an archive, and what the code relies on of the functions it calls.\<close>

definition fits :: "tree \<Rightarrow> bool" where
  "fits payload \<longleftrightarrow> distinct (List.map fst payload) \<and> no_file_in_the_way (regular_files payload)
     \<and> MANIFEST_FILENAME \<notin> fst ` set payload
     \<and> 1 + int (length (regular_files payload)) \<le> MAX_ARCHIVE_MEMBERS
     \<and> payload_bytes (regular_files payload) \<le> MAX_ARCHIVE_UNCOMPRESSED_BYTES"

definition good_identity :: "(string \<Rightarrow> bool) \<Rightarrow> string \<Rightarrow> string \<Rightarrow> string \<Rightarrow> bool" where
  "good_identity is_datetime backup_id created_at_utc trigger \<longleftrightarrow>
     length backup_id = 32 \<and> int_base_16 backup_id \<and> ends_with created_at_utc ''Z'' \<and> is_datetime (utc_offset created_at_utc)
     \<and> List.map to_lower trigger \<in> {''manual'', ''automatic''}"

lemma order_by_sorted: "sorted (List.map f (order_by f xs))"
  by (simp add: order_by_def)

lemma bytes_order: "payload_bytes xs = payload_bytes ys" if "mset xs = mset ys"
  unfolding payload_bytes_def by (simp only: sum_mset_sum_list [symmetric] mset_map that)

definition regular_file :: "string \<times> node \<Rightarrow> (string \<times> string) option" where
  "regular_file x = (case snd x of RegularFile c \<Rightarrow> Some (fst x, c) | _ \<Rightarrow> None)"

lemma regular_files_mset:
  "mset (regular_files t) = image_mset (\<lambda>x. the (regular_file x)) (filter_mset (\<lambda>x. regular_file x \<noteq> None) (mset t))"
proof (induction t)
  case (Cons x t)
  obtain p n where "x = (p, n)" by force
  with Cons show ?case by (cases n) (simp_all add: regular_file_def)
qed simp

lemma regular_files_order: "mset (regular_files (order_by f t)) = mset (regular_files t)"
  unfolding regular_files_mset by (simp add: order_by_def)

lemma parse_built:
  assumes "good_identity is_datetime backup_id created_at_utc trigger" "hex_digests sha256"
    and "\<forall>x\<in>set xs. validate_archive_path (fst x) \<and> fst x \<noteq> MANIFEST_FILENAME"
    and "sorted (List.map fst xs)" "distinct (List.map fst xs)"
  shows "parse_manifest is_datetime (build_manifest backup_id created_at_utc trigger (List.map (listed sha256) xs))
    = Inr (List.map (listed sha256) xs)"
proof -
  have "parse_files (List.map manifest_entry (List.map (listed sha256) xs)) = Inr (List.map (listed sha256) xs)"
    using parse_files_listed [OF assms(2,3)] by (simp add: comp_def)
  moreover have "sort (List.map fst xs) = List.map fst xs" using assms(4) by (simp add: sorted_sort_id)
  ultimately have "parse_listed (Some (JArr (List.map manifest_entry (List.map (listed sha256) xs))))
      = Inr (List.map (listed sha256) xs)"
    using assms(5) by (simp add: parse_listed_def Let_def comp_def del: List.map_map) (simp add: comp_def)
  moreover have "parse_header is_datetime [(''backup_id'', JStr backup_id), (''created_at_utc'', JStr created_at_utc),
      (''files'', fs),
      (''metadata'', JObj [(''format'', JStr ''tar.gz''), (''kind'', JStr ''local''), (''trigger'', JStr (List.map to_lower trigger))]),
      (''schema_version'', JInt 1)] = Inr ()" for fs
  proof -
    have "parse_metadata (Some (JObj [(''format'', JStr ''tar.gz''), (''kind'', JStr ''local''),
        (''trigger'', JStr (List.map to_lower trigger))])) = Inr ()"
      using assms(1) by (auto simp: parse_metadata_def dict_get_def good_identity_def)
    then show ?thesis using assms(1) by (simp add: parse_header_def dict_get_def json_str_def good_identity_def)
  qed
  ultimately show ?thesis by (simp add: parse_manifest_def build_manifest_def dict_get_def)
qed

lemma payload_files_listed:
  assumes "payload_manifest_files sha256 payload = Inr files"
  shows "files = List.map (listed sha256) (regular_files (order_by fst payload))"
    "\<forall>x\<in>set (regular_files (order_by fst payload)). validate_archive_path (fst x)"
  using assms manifest_files_listed [of sha256 "order_by fst payload" files]
  by (auto simp: payload_manifest_files_def split: sum.split_asm if_split_asm)

text \<open>Everything an archive has to pass, for one that was written by the code.\<close>

lemma written_archive:
  assumes "fits payload" "good_identity is_datetime backup_id created_at_utc trigger"
    and "payload_manifest_files sha256 payload = Inr files" "hex_digests sha256"
    and "m = build_manifest backup_id created_at_utc trigger files"
    and "loads content = Some m" "int (length content) \<le> MAX_MANIFEST_BYTES"
  shows "\<exists>ms. write_archive payload files content = Inr ms \<and> validate_archive sha256 loads is_datetime (Some ms) = Inr m
    \<and> summarize_archive loads is_datetime (Some ms) = Inr (payload_bytes (regular_files payload))
    \<and> extract_members [] ms = Inr (regular_files (order_by fst payload))"
proof -
  define xs where "xs = regular_files (order_by fst payload)"
  define first where "first = \<lparr>tm_name = MANIFEST_FILENAME, tm_is_file = True, tm_size = int (length content), tm_content = Some content\<rparr>"
  define ms where "ms = first # List.map packed xs"
  have fits: "distinct (List.map fst payload)" "no_file_in_the_way (regular_files payload)" "MANIFEST_FILENAME \<notin> fst ` set payload"
    "1 + int (length (regular_files payload)) \<le> MAX_ARCHIVE_MEMBERS"
    "payload_bytes (regular_files payload) \<le> MAX_ARCHIVE_UNCOMPRESSED_BYTES" using assms(1) by (simp_all add: fits_def)
  have perm: "mset xs = mset (regular_files payload)" by (simp add: xs_def regular_files_order)
  then have same: "set xs = set (regular_files payload)" "length xs = length (regular_files payload)"
    "payload_bytes xs = payload_bytes (regular_files payload)" by (metis set_mset_mset, metis size_mset, rule bytes_order)
  have files: "files = List.map (listed sha256) xs" using payload_files_listed(1) [OF assms(3)] by (simp add: xs_def)
  have mem: "(fst x, RegularFile (snd x)) \<in> set payload" if "x \<in> set xs" for x
    using that same(1) regular_files_mem [of "fst x" "snd x" payload] by simp
  then have paths: "\<forall>x\<in>set xs. validate_archive_path (fst x) \<and> fst x \<noteq> MANIFEST_FILENAME"
    using payload_files_listed(2) [OF assms(3)] fits(3) by (force simp: xs_def)
  have dist: "distinct (List.map fst xs)" using fits(1) by (simp add: xs_def regular_files_distinct)
  have sorted: "sorted (List.map fst xs)" by (simp add: xs_def regular_files_sorted order_by_sorted)
  have written: "write_archive payload files content = Inr ms"
    using file_members_packed [OF fits(1), of xs sha256] mem by (simp add: write_archive_def files ms_def first_def)
  have member: "\<forall>x\<in>set xs. get_member ms (fst x) = Some (packed x)"
    using get_member_packed [OF dist, of _ first] paths by (simp add: ms_def first_def)
  have "check_members [MANIFEST_FILENAME] 0 (List.map packed xs) = Inr ()"
    by (rule check_members_packed) (use dist paths fits(4,5) same in auto)
  then have checked: "check_members [] 0 ms = Inr ()"
    using assms(7) fits(4) manifest_path_valid by (simp add: ms_def first_def MAX_ARCHIVE_MEMBERS_def)
  have first_of: "(case ms of [] \<Rightarrow> a | f # r \<Rightarrow> g f) = g first" for a :: "exn + archive_structure" and g
    by (simp add: ms_def)
  have "payload_sizes ms 0 files = Inr (payload_bytes xs)"
    using payload_sizes_packed [OF member, of 0 sha256] fits(5) same(3) by (simp add: files)
  moreover have "parse_manifest is_datetime m = Inr files"
    using parse_built [OF assms(2,4) paths sorted dist] by (simp add: assms(5) files)
  moreover have "tm_name ` set ms = insert MANIFEST_FILENAME (mf_path ` set files)"
    by (simp add: ms_def first_def files image_image)
  ultimately have checked_structure: "validated_structure loads is_datetime ms
      = Inr \<lparr>as_manifest = m, as_expected = files, as_payload_size_bytes = payload_bytes xs\<rparr>"
    using checked assms(6,7) by (simp add: validated_structure_def first_of) (simp add: first_def)
  have "extract_members [] (List.map packed xs) = Inr xs"
    using extract_packed [OF paths, of "[]"] dist fits(2) same(1) by (simp add: no_file_in_the_way_def)
  then have "extract_members [] ms = Inr xs" by (simp add: ms_def first_def)
  moreover have "validate_archive sha256 loads is_datetime (Some ms) = Inr m"
    using checked_structure check_contents_packed [OF member] by (simp add: validate_archive_def files)
  moreover have "summarize_archive loads is_datetime (Some ms) = Inr (payload_bytes (regular_files payload))"
    using checked_structure same(3) by (simp add: summarize_archive_def)
  ultimately show ?thesis using written by (auto simp: xs_def)
qed

text \<open>
  C35: what is written as a backup can be restored from it. When the payload fits into the limits, the archive
  that is written for it with its manifest passes every check, reports the size of the payload, and gives
  back exactly the files of the payload with their contents.
\<close>

theorem archive_roundtrip:
  assumes "fits payload" "good_identity is_datetime backup_id created_at_utc trigger"
    and "payload_manifest_files sha256 payload = Inr files" "hex_digests sha256"
    and "m = build_manifest backup_id created_at_utc trigger files"
    and "loads content = Some m" "int (length content) \<le> MAX_MANIFEST_BYTES"
  shows "\<exists>ms xs. write_archive payload files content = Inr ms \<and> validate_archive sha256 loads is_datetime (Some ms) = Inr m
    \<and> summarize_archive loads is_datetime (Some ms) = Inr (payload_bytes (regular_files payload))
    \<and> extract_members [] ms = Inr xs \<and> mset xs = mset (regular_files payload)"
proof -
  have "\<exists>ms. write_archive payload files content = Inr ms \<and> validate_archive sha256 loads is_datetime (Some ms) = Inr m
    \<and> summarize_archive loads is_datetime (Some ms) = Inr (payload_bytes (regular_files payload))
    \<and> extract_members [] ms = Inr (regular_files (order_by fst payload))"
    by (rule written_archive) (rule assms)+
  then show ?thesis using regular_files_order by blast
qed

text \<open>
  C34: what is extracted from a valid archive is what its manifest lists, and nothing else. Each extracted path
  is relative, does not leave the directory and occurs once; they are the paths of the manifest; and the
  content of each has the SHA-256 the manifest gives for it.
\<close>

theorem archive_payload_exact:
  assumes "validate_archive sha256 loads is_datetime (Some ms) = Inr manifest" "extract_members [] ms = Inr payload"
  shows "\<exists>files. parse_manifest is_datetime manifest = Inr files \<and> exact_payload sha256 files payload"
  by (rule valid_archive_payload [OF assms])

definition packed_tree :: tree where
  "packed_tree = [(''world'', Directory), (''world/Level.sav'', RegularFile ''abc''), (''config/a.ini'', RegularFile ''x'')]"

definition packed_digest :: "string \<Rightarrow> string" where
  "packed_digest c = replicate 64 (CHR ''0'')"

definition packed_manifest :: json where
  "packed_manifest = build_manifest (replicate 32 (CHR ''a'')) ''2026-01-01T00:00:00Z'' ''MANUAL''
     (List.map (listed packed_digest) [(''config/a.ini'', ''x''), (''world/Level.sav'', ''abc'')])"

lemma packed_files:
  "payload_manifest_files packed_digest packed_tree
     = Inr (List.map (listed packed_digest) [(''config/a.ini'', ''x''), (''world/Level.sav'', ''abc'')])"
proof -
  have "order_by fst packed_tree = [(''config/a.ini'', RegularFile ''x''), (''world'', Directory), (''world/Level.sav'', RegularFile ''abc'')]"
    by (simp add: order_by_def packed_tree_def)
  moreover have "validate_archive_path ''config/a.ini''" "validate_archive_path ''world/Level.sav''"
    by (simp_all add: validate_archive_path_def path_parts_def utf8_length_def MAX_ARCHIVE_PATH_BYTES_def code_def is_alpha_def)
  ultimately show ?thesis by (simp add: payload_manifest_files_def listed_def)
qed

lemma packed_digits: "hex_groups b (replicate n (CHR ''0'')) = (b \<or> 0 < n)" "hex_groups b (replicate n (CHR ''a'')) = (b \<or> 0 < n)"
  by (induction n arbitrary: b) (simp_all add: hex_value_def is_digit_def code_def)

lemma packed_facts:
  "fits packed_tree" "good_identity (\<lambda>_. True) (replicate 32 (CHR ''a'')) ''2026-01-01T00:00:00Z'' ''MANUAL''"
  "hex_digests packed_digest"
proof -
  show "fits packed_tree"
    by (simp add: fits_def packed_tree_def no_file_in_the_way_def in_the_way_def MANIFEST_FILENAME_def
        MAX_ARCHIVE_MEMBERS_def MAX_ARCHIVE_UNCOMPRESSED_BYTES_def)
  have digits: "int_base_16 (replicate n c)" if c: "c \<in> {CHR ''0'', CHR ''a''}" and big: "2 < n" for n c
  proof -
    define k where "k = n - 3"
    have n: "n = Suc (Suc (Suc k))" using big by (simp add: k_def)
    have "strip (replicate n c) = replicate n c" using c by (intro strip_id) (auto simp: trimmed_def is_space_def code_def)
    moreover have "hex_groups False (replicate n c)" using c big by (auto simp: packed_digits)
    moreover have "\<not> starts_with (replicate n c) ''0x''" "\<not> starts_with (replicate n c) ''0X''" using c by (auto simp: n)
    ultimately show ?thesis using c unfolding int_base_16_def Let_def by (auto simp: n)
  qed
  have "List.map to_lower ''MANUAL'' = ''manual''" by code_simp
  then show "good_identity (\<lambda>_. True) (replicate 32 (CHR ''a'')) ''2026-01-01T00:00:00Z'' ''MANUAL''"
    using digits [of "CHR ''a''" 32] by (simp add: good_identity_def ends_with_def)
  show "hex_digests packed_digest" using digits [of "CHR ''0''" 64] by (simp add: hex_digests_def packed_digest_def)
qed

theorem archive_roundtrip_witness:
  "\<exists>ms xs. write_archive packed_tree (List.map (listed packed_digest) [(''config/a.ini'', ''x''), (''world/Level.sav'', ''abc'')]) ''{}'' = Inr ms
    \<and> validate_archive packed_digest (\<lambda>_. Some packed_manifest) (\<lambda>_. True) (Some ms) = Inr packed_manifest
    \<and> summarize_archive (\<lambda>_. Some packed_manifest) (\<lambda>_. True) (Some ms) = Inr (payload_bytes (regular_files packed_tree))
    \<and> extract_members [] ms = Inr xs \<and> mset xs = mset (regular_files packed_tree)"
  by (rule archive_roundtrip [where content = "''{}''", OF packed_facts(1,2) packed_files packed_facts(3)])
    (simp_all add: packed_manifest_def MAX_MANIFEST_BYTES_def)

theorem archive_payload_exact_witness:
  "\<exists>ms manifest payload files. validate_archive packed_digest (\<lambda>_. Some packed_manifest) (\<lambda>_. True) (Some ms) = Inr manifest
    \<and> extract_members [] ms = Inr payload \<and> parse_manifest (\<lambda>_. True) manifest = Inr files
    \<and> exact_payload packed_digest files payload"
proof -
  have "\<exists>ms. write_archive packed_tree (List.map (listed packed_digest) [(''config/a.ini'', ''x''), (''world/Level.sav'', ''abc'')]) ''{}'' = Inr ms
    \<and> validate_archive packed_digest (\<lambda>_. Some packed_manifest) (\<lambda>_. True) (Some ms) = Inr packed_manifest
    \<and> summarize_archive (\<lambda>_. Some packed_manifest) (\<lambda>_. True) (Some ms) = Inr (payload_bytes (regular_files packed_tree))
    \<and> extract_members [] ms = Inr (regular_files (order_by fst packed_tree))"
    by (rule written_archive [where content = "''{}''", OF packed_facts(1,2) packed_files packed_facts(3)])
      (simp_all add: packed_manifest_def MAX_MANIFEST_BYTES_def)
  then show ?thesis using archive_payload_exact by blast
qed

end
