(* ===== verification/RestoreFiles.thy ===== *)
theory RestoreFiles
  imports RelatedSettings BackupManifest
begin

text \<open>
  Replacing the files of the server by those of a backup (\<open>FilesystemRestoreTarget\<close> and \<open>FakeRestoreTarget\<close> of
  \<open>app/restores/service.py\<close>). The directory of the world, the copy that is being made and the one set aside are
  three slots; every call of the operating system may fail, and a copy or a removal that fails is left
  half done. The storage of PalWorldSettings.ini is the interface of \<open>PalworldSettings\<close>.
\<close>

section \<open>The state\<close>

record target =
  rt_world :: "tree option"
  rt_new :: "tree option"
  rt_previous :: "tree option"
  rt_related :: "string option"
  rt_related_temp :: "string option"
  rt_site :: site
  rt_calls :: nat

record prepared_restore =
  pr_world_directory :: tree
  pr_palworld_settings :: string
  pr_palworld_settings_version :: string
  pr_game_user_settings :: "string option"
  pr_payload_size_bytes :: nat

text \<open>\<open>OSError\<close> and its subclasses, wherever no handler has named them yet.\<close>

definition OSError :: exn where
  "OSError = OtherException"

definition on_site :: "(site, 'a) prog \<Rightarrow> (target, 'a) prog" where
  "on_site p = (\<lambda>s. case p (rt_site s) of (r, t) \<Rightarrow> (r, s\<lparr>rt_site := t\<rparr>))"

definition tree_call :: "os_env \<Rightarrow> (os_answer \<Rightarrow> exn) \<Rightarrow> (target, unit) prog" where
  "tree_call env err = (\<lambda>s. let t = s\<lparr>rt_calls := Suc (rt_calls s)\<rparr> in
     (case os_answer env (rt_calls s) of Succeeded \<Rightarrow> (Inr (), t) | a \<Rightarrow> (Inl (err a), t)))"

text \<open>A call that has done a part of its work when it fails: the number says how much.\<close>

definition tree_write :: "os_env \<Rightarrow> (nat option \<Rightarrow> target \<Rightarrow> target) \<Rightarrow> (target, unit) prog" where
  "tree_write env put = (\<lambda>s. let t = s\<lparr>rt_calls := Suc (rt_calls s)\<rparr> in
     (case os_answer env (rt_calls s) of
        Succeeded \<Rightarrow> (Inr (), put None t)
      | _ \<Rightarrow> (Inl OSError, put (Some (os_partial env (rt_calls s))) t)))"

abbreviation tree_step :: "os_env \<Rightarrow> (target, unit) prog" where
  "tree_step env \<equiv> tree_call env (\<lambda>_. OSError)"

section \<open>Checks\<close>

definition RESTORE_TARGET_INVALID :: exn where
  "RESTORE_TARGET_INVALID = RestoreError ''RESTORE_TARGET_INVALID'' (msg_text ''O diret/orio estrutural do mundo /e inv/alido.'')"

text \<open>\<open>_validate_directory\<close> of the world: the components of the path, then the directories themselves.\<close>

definition validate_world :: "os_env \<Rightarrow> (target, unit) prog" where
  "validate_world env =
     andthen (tree_call env (\<lambda>_. RESTORE_TARGET_INVALID))
      (andthen (tree_call env (\<lambda>a. if a = Unsafe then RESTORE_TARGET_INVALID else OSError))
        (bnd (reads rt_world) (\<lambda>w. require (w \<noteq> None) RESTORE_TARGET_INVALID)))"

definition ensure_available_space :: "os_env \<Rightarrow> nat \<Rightarrow> nat \<Rightarrow> (target, unit) prog" where
  "ensure_available_space env free required_bytes =
     andthen (validate_world env)
      (andthen (tree_step env)
        (require (required_bytes \<le> free) (RestoreError ''DISK_SPACE_INSUFFICIENT''
          (msg_text ''N~ao h/a espa_co livre suficiente para o Restore.''))))"

definition target_read_settings :: "os_env \<Rightarrow> (site, string \<times> string) prog \<Rightarrow> (target, string \<times> string) prog" where
  "target_read_settings env read_settings =
     andthen (tree_call env (\<lambda>_. RestoreError ''CURRENT_SETTINGS_INVALID''
        (msg_text ''O PalWorldSettings.ini atual n~ao est/a em uma /area estrutural segura.'')))
      (on_site read_settings)"

text \<open>\<open>_read_safe_file\<close>: the path, opening, the type of the file, reading at most the limit and one byte more.\<close>

definition read_related :: "os_env \<Rightarrow> (target, string option) prog" where
  "read_related env = bnd (reads rt_related) (\<lambda>related. case related of
     None \<Rightarrow> ret None
   | Some content \<Rightarrow>
       andthen (tree_step env)
        (andthen (tree_step env)
          (andthen (tree_step env)
            (andthen (require (utf8_length content \<le> MAX_GENERIC_CONFIG_BYTES) OSError) (ret (Some content))))))"

section \<open>Copying and replacing\<close>

definition add_node :: "string \<Rightarrow> node \<Rightarrow> target \<Rightarrow> target" where
  "add_node path node s = s\<lparr>rt_new := map_option (AList.update path node) (rt_new s)\<rparr>"

text \<open>A file is created empty, then filled; a failure leaves a part of its content.\<close>

definition copy_node :: "os_env \<Rightarrow> string \<times> node \<Rightarrow> (target, unit) prog" where
  "copy_node env entry = (case entry of
     (path, SymbolicLink) \<Rightarrow> raise (RestoreError ''WORLD_SOURCE_INVALID'' (msg_text ''O mundo preparado cont/em link simb/olico.''))
   | (path, SpecialFile) \<Rightarrow> raise (RestoreError ''WORLD_SOURCE_INVALID'' (msg_text ''O mundo preparado cont/em entrada inv/alida.''))
   | (path, Directory) \<Rightarrow>
       andthen (tree_step env)
        (andthen (modify (add_node path Directory)) (andthen (tree_step env) (tree_step env)))
   | (path, RegularFile content) \<Rightarrow>
       andthen (tree_step env)
        (andthen (tree_step env)
          (andthen (tree_write env (\<lambda>part. add_node path (RegularFile (case part of None \<Rightarrow> content | Some n \<Rightarrow> take n content))))
            (andthen (tree_step env) (tree_step env)))))"

definition copy_world_tree :: "os_env \<Rightarrow> tree \<Rightarrow> (target, unit) prog" where
  "copy_world_tree env source =
     andthen (tree_step env)
      (andthen (modify (\<lambda>s. s\<lparr>rt_new := Some []\<rparr>))
        (andthen (tree_step env) (for_each source (copy_node env))))"

text \<open>\<open>_replace_related_settings\<close>; the temporary file is removed when it still exists.\<close>

definition remove_related_temporary :: "os_env \<Rightarrow> (target, unit) prog" where
  "remove_related_temporary env = bnd (reads rt_related_temp) (\<lambda>temporary.
     if temporary = None then ret ()
     else andthen (tree_step env) (modify (\<lambda>s. s\<lparr>rt_related_temp := None\<rparr>)))"

definition replace_related_settings :: "os_env \<Rightarrow> string \<Rightarrow> (target, unit) prog" where
  "replace_related_settings env content =
     andthen (tree_step env)
      (bnd (reads rt_related) (\<lambda>current.
        andthen (require (current \<noteq> None) OSError)
         (andthen (tree_step env)
           (andthen (tree_step env)
             (andthen (modify (\<lambda>s. s\<lparr>rt_related_temp := Some []\<rparr>))
               (always
                 (andthen (tree_step env)
                   (andthen (tree_write env (\<lambda>part s. s\<lparr>rt_related_temp :=
                        Some (case part of None \<Rightarrow> content | Some n \<Rightarrow> take n content)\<rparr>))
                     (andthen (tree_step env)
                       (andthen (tree_step env)
                         (modify (\<lambda>s. s\<lparr>rt_related := rt_related_temp s, rt_related_temp := None\<rparr>))))))
                 (remove_related_temporary env)))))))"

text \<open>\<open>shutil.rmtree(previous_root)\<close>.\<close>

definition remove_previous :: "os_env \<Rightarrow> (target, unit) prog" where
  "remove_previous env = tree_write env (\<lambda>part s. s\<lparr>rt_previous :=
     (case part of None \<Rightarrow> None | Some n \<Rightarrow> map_option (take n) (rt_previous s))\<rparr>)"

definition replace_files :: "os_env \<Rightarrow> (string \<Rightarrow> string \<Rightarrow> (site, string) prog) \<Rightarrow> prepared_restore \<Rightarrow> (target, unit) prog" where
  "replace_files env write_settings prepared =
     andthen (copy_world_tree env (pr_world_directory prepared))
      (andthen (tree_step env)
        (andthen (modify (\<lambda>s. s\<lparr>rt_previous := rt_world s, rt_world := None\<rparr>))
          (andthen (tree_step env)
            (andthen (modify (\<lambda>s. s\<lparr>rt_world := rt_new s, rt_new := None\<rparr>))
              (bnd (on_site (write_settings (pr_palworld_settings_version prepared) (pr_palworld_settings prepared))) (\<lambda>_.
                andthen (case pr_game_user_settings prepared of None \<Rightarrow> ret ()
                    | Some content \<Rightarrow> replace_related_settings env content)
                 (remove_previous env)))))))"

definition apply_failed :: "exn \<Rightarrow> exn" where
  "apply_failed e = (case e of
     RestoreError _ _ \<Rightarrow> e
   | PalworldSettingsStorageError _ \<Rightarrow> RestoreError ''SETTINGS_APPLY_FAILED''
       (msg_text ''A configura_c~ao combinada n~ao p^ode ser aplicada.'')
   | OtherException \<Rightarrow> RestoreError ''WORLD_APPLY_FAILED'' (msg_text ''O mundo n~ao p^ode ser restaurado com seguran_ca.'')
   | _ \<Rightarrow> e)"

definition target_apply :: "os_env \<Rightarrow> (string \<Rightarrow> string \<Rightarrow> (site, string) prog) \<Rightarrow> prepared_restore \<Rightarrow> (target, unit) prog" where
  "target_apply env write_settings prepared =
     andthen (validate_world env)
      (bnd (reads (\<lambda>s. rt_new s \<noteq> None \<or> rt_previous s \<noteq> None)) (\<lambda>ambiguous.
        andthen (require (\<not> ambiguous) (RestoreError ''RESTORE_STATE_AMBIGUOUS''
            (msg_text ''Existem artefatos de Restore que exigem revis~ao manual.'')))
         (andthen (tree_step env)
           (handle (replace_files env write_settings prepared) (\<lambda>e. raise (apply_failed e))))))"

section \<open>The target without files\<close>

definition files_of :: "tree \<Rightarrow> tree" where
  "files_of t = filter (\<lambda>(_, n). case n of RegularFile _ \<Rightarrow> True | _ \<Rightarrow> False) t"

definition fake_apply :: "exn option \<Rightarrow> (string \<Rightarrow> string \<Rightarrow> (site, string) prog) \<Rightarrow> prepared_restore \<Rightarrow> (target, unit) prog" where
  "fake_apply apply_error write_settings prepared = (case apply_error of
     Some e \<Rightarrow> raise e
   | None \<Rightarrow>
       andthen (modify (\<lambda>s. s\<lparr>rt_world := Some (files_of (pr_world_directory prepared))\<rparr>))
        (bnd (on_site (write_settings (pr_palworld_settings_version prepared) (pr_palworld_settings prepared))) (\<lambda>_.
          modify (\<lambda>s. s\<lparr>rt_related := pr_game_user_settings prepared\<rparr>))))"

section \<open>What a restore leaves\<close>

lemma wp_on_site [wp_simps]:
  "wp (on_site p) Q E s = wp p (\<lambda>x t. Q x (s\<lparr>rt_site := t\<rparr>)) (\<lambda>e t. E e (s\<lparr>rt_site := t\<rparr>)) (rt_site s)"
  by (simp add: wp_def on_site_def split: prod.split sum.split)

text \<open>A call that may fail: it is enough to show both outcomes for every answer.\<close>

lemma wp_tree_call:
  "Q () (s\<lparr>rt_calls := Suc (rt_calls s)\<rparr>) \<Longrightarrow> (\<And>a. E (err a) (s\<lparr>rt_calls := Suc (rt_calls s)\<rparr>))
    \<Longrightarrow> wp (tree_call env err) Q E s"
  by (simp add: wp_def tree_call_def Let_def split: os_answer.split)

lemma wp_tree_write:
  "Q () (put None (s\<lparr>rt_calls := Suc (rt_calls s)\<rparr>)) \<Longrightarrow> (\<And>n. E OSError (put (Some n) (s\<lparr>rt_calls := Suc (rt_calls s)\<rparr>)))
    \<Longrightarrow> wp (tree_write env put) Q E s"
  by (simp add: wp_def tree_write_def Let_def split: os_answer.split)

lemma OSError_simps [simp]: "OSError \<noteq> Diverges" "OSError \<noteq> RestoreError a b"
  by (simp_all add: OSError_def)

text \<open>Copying touches the new directory only.\<close>

definition copying :: "target \<Rightarrow> target \<Rightarrow> bool" where
  "copying s t \<longleftrightarrow> rt_world t = rt_world s \<and> rt_previous t = rt_previous s \<and> rt_related t = rt_related s
     \<and> rt_site t = rt_site s"

lemma copying_simps [simp]:
  "copying s s" "copying s (t\<lparr>rt_calls := n\<rparr>) = copying s t" "copying s (t\<lparr>rt_new := x\<rparr>) = copying s t"
  "copying s (add_node p m t) = copying s t" "copying s (t\<lparr>rt_related_temp := y\<rparr>) = copying s t"
  by (simp_all add: copying_def add_node_def)

lemma add_node_new [simp]: "rt_new (add_node p x t) = map_option (AList.update p x) (rt_new t)"
  by (simp add: add_node_def)

lemma wp_copy_node:
  assumes "copying s t" "rt_new t = Some so_far"
  shows "wp (copy_node env (path, n)) (\<lambda>_ u. copying s u \<and> rt_new u = Some (AList.update path n so_far))
    (\<lambda>_ u. copying s u) t"
  using assms by (cases n) (simp_all add: copy_node_def wp_andthen wp_modify wp_raise wp_tree_call wp_tree_write)

lemma wp_copy_nodes:
  assumes "copying s t" "rt_new t = Some so_far"
  shows "wp (for_each entries (copy_node env))
    (\<lambda>_ u. copying s u \<and> rt_new u = Some (fold (\<lambda>(p, n). AList.update p n) entries so_far)) (\<lambda>_ u. copying s u) t"
  using assms
proof (induction entries arbitrary: t so_far)
  case (Cons x entries)
  obtain p n where x: "x = (p, n)" by force
  show ?case
    unfolding for_each.simps wp_andthen x
    by (rule wp_mono [OF wp_copy_node [OF Cons.prems]]) (use Cons.IH in auto)
qed (simp add: wp_ret)

lemma update_new_path: "k \<notin> fst ` set m \<Longrightarrow> AList.update k v m = m @ [(k, v)]"
  by (induction m) auto

lemma fold_update_distinct:
  "distinct (List.map fst (m @ entries)) \<Longrightarrow> fold (\<lambda>(p, n). AList.update p n) entries m = m @ entries"
proof (induction entries arbitrary: m)
  case (Cons x entries)
  obtain p n where x: "x = (p, n)" by force
  from Cons.prems x have "p \<notin> fst ` set m" by auto
  with Cons.IH [of "m @ [x]"] Cons.prems x show ?case by (simp add: update_new_path)
qed simp

lemma wp_copy_world:
  assumes "distinct (List.map fst source)"
  shows "wp (copy_world_tree env source) (\<lambda>_ t. copying s t \<and> rt_new t = Some source) (\<lambda>_ t. copying s t) s"
proof -
  have "wp (for_each source (copy_node env)) (\<lambda>_ t. copying s t \<and> rt_new t = Some source) (\<lambda>_ t. copying s t) t"
    if "copying s t" "rt_new t = Some []" for t
    using wp_copy_nodes [OF that, of source env] fold_update_distinct [of "[]" source] assms by simp
  then show ?thesis
    unfolding copy_world_tree_def wp_andthen wp_modify by (intro wp_tree_call) simp_all
qed

text \<open>Replacing the related file leaves the old one or the new one, and touches nothing else.\<close>

definition relating :: "string \<Rightarrow> target \<Rightarrow> target \<Rightarrow> bool" where
  "relating content s t \<longleftrightarrow> rt_world t = rt_world s \<and> rt_previous t = rt_previous s \<and> rt_new t = rt_new s
     \<and> rt_site t = rt_site s \<and> (rt_related t = rt_related s \<or> rt_related t = Some content)"

lemma relating_simps [simp]:
  "relating content s s" "relating content s (t\<lparr>rt_calls := n\<rparr>) = relating content s t"
  "relating content s (t\<lparr>rt_related_temp := y\<rparr>) = relating content s t"
  "relating content s t \<Longrightarrow> relating content s (t\<lparr>rt_related := Some content\<rparr>)"
  by (simp_all add: relating_def)

lemma wp_remove_related:
  "relating content s t \<Longrightarrow> wp (remove_related_temporary env)
     (\<lambda>_ u. relating content s u \<and> rt_related u = rt_related t) (\<lambda>_ u. relating content s u) t"
  by (auto simp: remove_related_temporary_def wp_bnd wp_reads wp_if wp_ret wp_andthen wp_modify intro!: wp_tree_call)

lemma wp_replace_related:
  "wp (replace_related_settings env content)
     (\<lambda>_ t. relating content s t \<and> rt_related t = Some content) (\<lambda>_ t. relating content s t) s"
proof -
  have failed: "wp (remove_related_temporary env) (\<lambda>_. relating content s) (\<lambda>_. relating content s) t"
    if "relating content s t" for t
    by (rule wp_mono [OF wp_remove_related [OF that]]) auto
  have ended: "wp (remove_related_temporary env) (\<lambda>_ u. relating content s u \<and> rt_related u = Some content)
      (\<lambda>_. relating content s) t" if "relating content s t" "rt_related t = Some content" for t
    by (rule wp_mono [OF wp_remove_related [OF that(1)]]) (use that(2) in auto)
  show ?thesis
    unfolding replace_related_settings_def wp_andthen wp_bnd wp_reads wp_always wp_modify wp_require
    by (intro wp_tree_call wp_tree_write) (auto simp: failed intro!: ended wp_tree_call wp_tree_write)
qed

text \<open>
  Three stages of a restore: nothing was replaced; the old world is set aside, complete; everything is in its
  place. The settings file is replaced only after the world.
\<close>

definition not_begun :: "target \<Rightarrow> target \<Rightarrow> bool" where
  "not_begun s t \<longleftrightarrow> rt_world t = rt_world s \<and> rt_previous t = rt_previous s \<and> rt_related t = rt_related s \<and> rt_site t = rt_site s"

definition set_aside :: "prepared_restore \<Rightarrow> target \<Rightarrow> target \<Rightarrow> bool" where
  "set_aside prepared s t \<longleftrightarrow> rt_previous t = rt_world s
     \<and> (rt_world t = None \<and> rt_new t = Some (pr_world_directory prepared) \<and> same_content (rt_site s) (rt_site t)
        \<or> rt_world t = Some (pr_world_directory prepared) \<and> (same_content (rt_site s) (rt_site t)
          \<or> replaced_content (pr_palworld_settings prepared) (rt_site s) (rt_site t)))
     \<and> (rt_related t = rt_related s \<or> rt_related t = pr_game_user_settings prepared)"

definition in_place :: "prepared_restore \<Rightarrow> target \<Rightarrow> target \<Rightarrow> bool" where
  "in_place prepared s t \<longleftrightarrow> rt_world t = Some (pr_world_directory prepared)
     \<and> replaced_content (pr_palworld_settings prepared) (rt_site s) (rt_site t)
     \<and> rt_related t = (case pr_game_user_settings prepared of None \<Rightarrow> rt_related s | Some c \<Rightarrow> Some c)"

definition restored :: "(string \<Rightarrow> string) \<Rightarrow> prepared_restore \<Rightarrow> target \<Rightarrow> target \<Rightarrow> bool" where
  "restored version prepared s t \<longleftrightarrow> in_place prepared s t \<and> rt_new t = None \<and> rt_previous t = None
     \<and> (\<exists>old. ss_current (rt_site s) = Some old \<and> version old = pr_palworld_settings_version prepared)"

definition recoverable :: "prepared_restore \<Rightarrow> target \<Rightarrow> target \<Rightarrow> bool" where
  "recoverable prepared s t \<longleftrightarrow> not_begun s t \<or> set_aside prepared s t \<or> in_place prepared s t"

lemma stage_simps [simp]:
  "not_begun s (t\<lparr>rt_calls := n\<rparr>) = not_begun s t" "not_begun s s"
  "set_aside prepared s (t\<lparr>rt_calls := n\<rparr>) = set_aside prepared s t"
  "in_place prepared s (t\<lparr>rt_calls := n\<rparr>) = in_place prepared s t"
  by (simp_all add: not_begun_def set_aside_def in_place_def)

lemma recoverable_simps [simp]:
  "recoverable prepared s (t\<lparr>rt_calls := n\<rparr>) = recoverable prepared s t" "recoverable prepared s s"
  by (simp_all add: recoverable_def)

text \<open>The last steps, once the settings are written.\<close>

definition settings_written :: "prepared_restore \<Rightarrow> target \<Rightarrow> target \<Rightarrow> bool" where
  "settings_written prepared s t \<longleftrightarrow> rt_previous t = rt_world s \<and> rt_world t = Some (pr_world_directory prepared)
     \<and> rt_new t = None \<and> rt_related t = rt_related s
     \<and> replaced_content (pr_palworld_settings prepared) (rt_site s) (rt_site t)"

lemma wp_remove_previous:
  assumes "in_place prepared s t" "rt_new t = None"
  shows "wp (remove_previous env) (\<lambda>_ u. in_place prepared s u \<and> rt_new u = None \<and> rt_previous u = None)
    (\<lambda>_ u. in_place prepared s u) t"
  unfolding remove_previous_def by (rule wp_tree_write) (use assms in \<open>simp_all add: in_place_def\<close>)

lemma wp_last_steps:
  assumes "settings_written prepared s t"
  shows "wp (andthen (case pr_game_user_settings prepared of None \<Rightarrow> ret () | Some content \<Rightarrow> replace_related_settings env content)
      (remove_previous env))
    (\<lambda>_ u. in_place prepared s u \<and> rt_new u = None \<and> rt_previous u = None) (\<lambda>_ u. recoverable prepared s u) t"
proof -
  have remove: "wp (remove_previous env) (\<lambda>_ u. in_place prepared s u \<and> rt_new u = None \<and> rt_previous u = None)
      (\<lambda>_ u. recoverable prepared s u) u" if "in_place prepared s u" "rt_new u = None" for u
    by (rule wp_mono [OF wp_remove_previous [OF that]]) (auto simp: recoverable_def)
  show ?thesis
  proof (cases "pr_game_user_settings prepared")
    case None
    with assms have "in_place prepared s t" "rt_new t = None" by (simp_all add: settings_written_def in_place_def)
    from remove [OF this] None show ?thesis by (simp add: wp_andthen wp_ret)
  next
    case (Some content)
    have placed: "in_place prepared s u \<and> rt_new u = None" if "relating content t u" "rt_related u = Some content" for u
      using that assms Some by (simp add: relating_def settings_written_def in_place_def)
    have aside: "recoverable prepared s u" if "relating content t u" for u
      using that assms Some by (auto simp: relating_def settings_written_def recoverable_def set_aside_def)
    show ?thesis
      unfolding Some option.case wp_andthen
      by (rule wp_mono [OF wp_replace_related [of env content t]]) (use remove placed aside in blast)+
  qed
qed

context settings_storage
begin

text \<open>From the copied world on.\<close>

lemma wp_replace_files:
  assumes "distinct (List.map fst (pr_world_directory prepared))"
  shows "wp (replace_files env write_settings prepared) (\<lambda>_ t. restored version prepared s t)
    (\<lambda>_ t. recoverable prepared s t) s"
proof -
  define e where "e = pr_palworld_settings_version prepared"
  have last: "wp (andthen (case pr_game_user_settings prepared of None \<Rightarrow> ret () | Some content \<Rightarrow> replace_related_settings env content)
      (remove_previous env)) (\<lambda>_ u. restored version prepared s u) (\<lambda>_ u. recoverable prepared s u) t"
    if "settings_written prepared s t" "\<exists>old. ss_current (rt_site s) = Some old \<and> version old = e" for t
    by (rule wp_mono [OF wp_last_steps [OF that(1)]]) (use that(2) in \<open>auto simp: restored_def e_def\<close>)
  have settings: "wp (on_site (write_settings e (pr_palworld_settings prepared)))
      (\<lambda>_ u. settings_written prepared s u \<and> (\<exists>old. ss_current (rt_site s) = Some old \<and> version old = e))
      (\<lambda>_ u. recoverable prepared s u) t"
    if "rt_previous t = rt_world s" "rt_world t = Some (pr_world_directory prepared)" "rt_new t = None"
      "rt_related t = rt_related s" "rt_site t = rt_site s" for t
    unfolding wp_on_site
    by (rule wp_mono [OF writing])
      (use that in \<open>auto simp: settings_written_def recoverable_def set_aside_def\<close>)
  have moved: "wp (bnd (on_site (write_settings e (pr_palworld_settings prepared))) (\<lambda>_.
        andthen (case pr_game_user_settings prepared of None \<Rightarrow> ret () | Some content \<Rightarrow> replace_related_settings env content)
          (remove_previous env)))
      (\<lambda>_ u. restored version prepared s u) (\<lambda>_ u. recoverable prepared s u) t"
    if "rt_previous t = rt_world s" "rt_world t = Some (pr_world_directory prepared)" "rt_new t = None"
      "rt_related t = rt_related s" "rt_site t = rt_site s" for t
    unfolding wp_bnd by (rule wp_mono [OF settings [OF that]]) (use last in auto)
  show ?thesis
    unfolding replace_files_def wp_andthen [of "copy_world_tree _ _"]
    by (rule wp_mono [OF wp_copy_world [OF assms]])
      (auto simp: wp_andthen wp_modify copying_def recoverable_def not_begun_def set_aside_def e_def [symmetric]
        intro!: wp_tree_call moved)
qed

lemma wp_apply:
  assumes "distinct (List.map fst (pr_world_directory prepared))"
  shows "wp (target_apply env write_settings prepared) (\<lambda>_ t. restored version prepared s t)
    (\<lambda>_ t. recoverable prepared s t) s"
proof -
  have calls: "restored version prepared (s\<lparr>rt_calls := n\<rparr>) = restored version prepared s"
    "recoverable prepared (s\<lparr>rt_calls := n\<rparr>) = recoverable prepared s" for n
    by (simp_all add: restored_def recoverable_def not_begun_def set_aside_def in_place_def fun_eq_iff split: option.split)
  have "wp (handle (replace_files env write_settings prepared) (\<lambda>e. raise (apply_failed e)))
      (\<lambda>_ t. restored version prepared s t) (\<lambda>_ t. recoverable prepared s t) (s\<lparr>rt_calls := n\<rparr>)" for n
    unfolding wp_handle wp_raise
    by (rule wp_mono [OF wp_replace_files [OF assms]]) (simp_all add: calls)
  then show ?thesis
    unfolding target_apply_def validate_world_def wp_andthen wp_bnd wp_reads wp_require
    by (auto intro!: wp_tree_call)
qed

end

text \<open>
  C5: a restore on the real file system never loses the world it replaces. Whatever calls of the operating
  system fail, nothing was replaced, or the old world is complete beside the new one, or every file is in
  its place. When it succeeds the world is the one of the backup, the settings
  file holds the merged settings and its predecessor, of the version that was merged, is in a backup.
\<close>

theorem restore_apply_safe:
  assumes "distinct (List.map fst (pr_world_directory prepared))"
  shows "wp (target_apply env (file_write site_env version) prepared) (\<lambda>_ t. restored version prepared s t)
    (\<lambda>_ t. recoverable prepared s t) s"
  by (rule file_storage.wp_apply [OF assms])

definition sample_restore :: prepared_restore where
  "sample_restore = \<lparr>pr_world_directory = [(''0'', Directory), (''0/Level.sav'', RegularFile ''new'')],
     pr_palworld_settings = ''merged'', pr_palworld_settings_version = ''current'', pr_game_user_settings = Some ''user'',
     pr_payload_size_bytes = 3\<rparr>"

definition sample_target :: target where
  "sample_target = \<lparr>rt_world = Some [(''Level.sav'', RegularFile ''old'')], rt_new = None, rt_previous = None,
     rt_related = Some ''own'', rt_related_temp = None,
     rt_site = \<lparr>ss_current = Some ''current'', ss_backups = [], ss_temp = None, ss_calls = 0, ss_db = empty_db\<rparr>, rt_calls = 0\<rparr>"

theorem restore_apply_safe_witness:
  "wp (target_apply \<lparr>os_answer = \<lambda>n. if n = 14 then OSFailure else Succeeded, os_partial = \<lambda>_. 1, os_clock = int\<rparr>
       (file_write \<lparr>os_answer = \<lambda>_. Succeeded, os_partial = \<lambda>_. 5, os_clock = int\<rparr> id) sample_restore)
     (\<lambda>_ t. restored id sample_restore sample_target t) (\<lambda>_ t. recoverable sample_restore sample_target t) sample_target"
  by (rule restore_apply_safe) (simp add: sample_restore_def)

end
