(* ===== verification/RestorePrepare.thy ===== *)
theory RestorePrepare
  imports RestoreFiles ManagerSettings
begin

text \<open>
  Preparing a restore (\<open>LocalRestoreService\<close> of \<open>app/restores/service.py\<close>): the archive is copied, checked and
  extracted, its configuration is merged with the current one, and what is to be applied is returned. What
  \<open>tarfile\<close>, SHA-256, \<open>json\<close>, UTF-8 and SQLite answer is in the record \<open>archive_tools\<close>. The working directory, which is
  removed when preparing fails, is not part of the state.
\<close>

section \<open>The archive and its payload\<close>

record archive_tools =
  at_members :: "string \<Rightarrow> tar_member list option"
  at_sha256 :: "string \<Rightarrow> string"
  at_loads :: "string \<Rightarrow> json option"
  at_is_datetime :: "string \<Rightarrow> bool"
  at_decode :: "string \<Rightarrow> string option"
  at_integrity :: "string \<Rightarrow> string option"
  at_staging_free :: nat
  at_target_free :: nat

text \<open>The columns of the record, and the file it names.\<close>

record backup_source =
  bs_filename :: string
  bs_sha256 :: string
  bs_size_bytes :: int
  bs_content :: string
  bs_is_regular :: bool

definition PALWORLD_SETTINGS_PAYLOAD_PATH :: string where
  "PALWORLD_SETTINGS_PAYLOAD_PATH = ''config/PalWorldSettings.ini''"

definition GAME_USER_SETTINGS_PAYLOAD_PATH :: string where
  "GAME_USER_SETTINGS_PAYLOAD_PATH = ''config/GameUserSettings.ini''"

definition MANAGER_PAYLOAD_PATHS :: "string list" where
  "MANAGER_PAYLOAD_PATHS = [''manager/manager.db'', ''manager/settings.json'']"

definition ARCHIVE_SIZE_MISMATCH :: "string \<Rightarrow> exn" where
  "ARCHIVE_SIZE_MISMATCH message = RestoreError ''ARCHIVE_SIZE_MISMATCH'' (msg_text message)"

definition copy_managed_archive :: "os_env \<Rightarrow> backup_source \<Rightarrow> (target, unit) prog" where
  "copy_managed_archive env source =
     (let unavailable = RestoreError ''BACKUP_UNAVAILABLE'' (msg_text ''O backup local n~ao p^ode ser lido com seguran_ca.'');
          mismatch = ARCHIVE_SIZE_MISMATCH ''O tamanho do backup n~ao corresponde ao registro.'' in
      andthen (tree_call env (\<lambda>_. unavailable))
       (andthen (require (bs_is_regular source \<and> int (length (bs_content source)) = bs_size_bytes source) mismatch)
         (andthen (tree_call env (\<lambda>_. unavailable)) (tree_step env))))"

definition ensure_staging_space :: "os_env \<Rightarrow> nat \<Rightarrow> int \<Rightarrow> (target, unit) prog" where
  "ensure_staging_space env free required_bytes =
     andthen (tree_call env (\<lambda>_. RestoreError ''DISK_SPACE_UNAVAILABLE''
        (msg_text ''O espa_co da /area tempor/aria n~ao p^ode ser verificado.'')))
      (require (required_bytes \<le> int free) (RestoreError ''DISK_SPACE_INSUFFICIENT''
        (msg_text ''N~ao h/a espa_co livre suficiente para preparar o Restore.'')))"

text \<open>\<open>BackupValidationError\<close> becomes an error of the restore; every other exception passes.\<close>

definition checked_archive :: "exn + 'a \<Rightarrow> (target, 'a) prog" where
  "checked_archive r = (case r of
     Inr x \<Rightarrow> ret x
   | Inl e \<Rightarrow> raise (if e = BackupValidationError then RestoreError ''ARCHIVE_INTEGRITY_INVALID''
       (msg_text ''O backup falhou na valida_c~ao de integridade.'') else e))"

definition manifest_identity :: "json \<Rightarrow> string \<Rightarrow> bool" where
  "manifest_identity manifest filename = (case manifest of
     JObj d \<Rightarrow> (case json_str (dict_get d ''backup_id'') of
       None \<Rightarrow> False | Some backup_id \<Rightarrow> ends_with filename (''-'' @ backup_id @ ''.tar.gz''))
   | _ \<Rightarrow> False)"

text \<open>\<open>PurePosixPath(path).parent\<close> and \<open>.name\<close> of a path that is one already.\<close>

definition path_parent :: "string \<Rightarrow> string" where
  "path_parent path = join_slashes (butlast (split_on (CHR ''/'') path))"

definition path_name :: "string \<Rightarrow> string" where
  "path_name path = last (split_on (CHR ''/'') path)"

definition complete_world :: "string list \<Rightarrow> bool" where
  "complete_world world_paths \<longleftrightarrow>
     list_ex (\<lambda>path. path_name path = ''Level.sav''
       \<and> path_parent path @ ''/LevelMeta.sav'' \<in> set world_paths
       \<and> list_ex (\<lambda>item. starts_with item (path_parent path @ ''/Players/'')) world_paths) world_paths"

definition world_paths_of :: "string list \<Rightarrow> string list" where
  "world_paths_of paths = List.map (\<lambda>p. remove_prefix p ''world/'') (filter (\<lambda>p. starts_with p ''world/'') paths)"

definition validate_payload :: "string list \<Rightarrow> (target, unit) prog" where
  "validate_payload paths =
     andthen (require (paths \<noteq> [] \<and> list_all (\<lambda>p. starts_with p ''world/'' \<or> starts_with p ''config/'' \<or> starts_with p ''manager/'') paths)
        (RestoreError ''PAYLOAD_SCOPE_INVALID'' (msg_text ''O escopo do payload /e inv/alido.'')))
      (andthen (require (list_all (\<lambda>p. starts_with p ''config/'' \<longrightarrow>
            p \<in> {PALWORLD_SETTINGS_PAYLOAD_PATH, GAME_USER_SETTINGS_PAYLOAD_PATH}) paths)
          (RestoreError ''PAYLOAD_SCOPE_INVALID'' (msg_text ''O escopo das configura_c~oes /e inv/alido.'')))
        (andthen (require (list_all (\<lambda>p. starts_with p ''manager/'' \<longrightarrow> p \<in> set MANAGER_PAYLOAD_PATHS) paths)
            (RestoreError ''PAYLOAD_SCOPE_INVALID'' (msg_text ''O escopo de disaster recovery /e inv/alido.'')))
          (andthen (require (set MANAGER_PAYLOAD_PATHS \<subseteq> set paths \<and> PALWORLD_SETTINGS_PAYLOAD_PATH \<in> set paths)
              (RestoreError ''PAYLOAD_INCOMPLETE'' (msg_text ''O backup n~ao cont/em todos os arquivos obrigat/orios.'')))
            (require (complete_world (world_paths_of paths))
              (RestoreError ''WORLD_INCOMPLETE'' (msg_text ''O backup n~ao cont/em um mundo completo.''))))))"

text \<open>\<open>type(raw[key]) is type(default)\<close> of two JSON values.\<close>

fun same_type :: "json \<Rightarrow> json \<Rightarrow> bool" where
  "same_type JNull JNull = True"
| "same_type (JBool _) (JBool _) = True"
| "same_type (JInt _) (JInt _) = True"
| "same_type (JStr _) (JStr _) = True"
| "same_type (JArr _) (JArr _) = True"
| "same_type (JObj _) (JObj _) = True"
| "same_type _ _ = False"

definition manager_settings_copy :: "archive_tools \<Rightarrow> string \<Rightarrow> bool" where
  "manager_settings_copy tools content = (case Option.bind (at_decode tools content) (at_loads tools) of
     Some (JObj raw) \<Rightarrow> set (List.map fst raw) = set OPERATIONAL_SETTING_KEYS
       \<and> list_all (\<lambda>(key, default). case dict_get raw key of None \<Rightarrow> False | Some v \<Rightarrow> same_type v default) DEFAULT_MANAGER_SETTINGS
   | _ \<Rightarrow> False)"

definition validate_manager_payload :: "archive_tools \<Rightarrow> (string \<times> string) list \<Rightarrow> (target, unit) prog" where
  "validate_manager_payload tools payload =
     andthen (require (Option.bind (map_of payload ''manager/manager.db'') (at_integrity tools) = Some ''ok'')
        (RestoreError ''MANAGER_DATABASE_INVALID'' (msg_text ''A c/opia de disaster recovery do Manager /e inv/alida.'')))
      (require (case map_of payload ''manager/settings.json'' of None \<Rightarrow> False | Some c \<Rightarrow> manager_settings_copy tools c)
        (RestoreError ''MANAGER_SETTINGS_INVALID'' (msg_text ''A c/opia de disaster recovery das configura_c~oes /e inv/alida.'')))"

definition read_payload_text :: "os_env \<Rightarrow> archive_tools \<Rightarrow> (string \<times> string) list \<Rightarrow> string \<Rightarrow> nat \<Rightarrow> (target, string) prog" where
  "read_payload_text env tools payload path maximum =
     andthen (tree_call env (\<lambda>_. RestoreError ''PAYLOAD_CONFIG_INVALID'' (msg_text ''Uma configura_c~ao do backup /e ileg/ivel.'')))
      (case map_of payload path of
         None \<Rightarrow> raise (RestoreError ''PAYLOAD_CONFIG_INVALID'' (msg_text ''Uma configura_c~ao do backup /e ileg/ivel.''))
       | Some encoded \<Rightarrow>
           andthen (require (length encoded \<le> maximum)
              (RestoreError ''PAYLOAD_CONFIG_INVALID'' (msg_text ''Uma configura_c~ao do backup excede o limite.'')))
            (case at_decode tools encoded of
               None \<Rightarrow> raise (RestoreError ''PAYLOAD_CONFIG_INVALID'' (msg_text ''Uma configura_c~ao do backup /e inv/alida.''))
             | Some content \<Rightarrow> ret content))"

section \<open>Preparing\<close>

definition read_current_settings :: "os_env \<Rightarrow> (site, string \<times> string) prog \<Rightarrow> (target, string \<times> string) prog" where
  "read_current_settings env read_settings = handle (target_read_settings env read_settings) (\<lambda>e. case e of
     PalworldSettingsStorageError _ \<Rightarrow> raise (RestoreError ''CURRENT_SETTINGS_INVALID''
       (msg_text ''O PalWorldSettings.ini atual n~ao pode ser combinado com seguran_ca.''))
   | _ \<Rightarrow> raise e)"

definition prepare_game_user_settings :: "os_env \<Rightarrow> archive_tools \<Rightarrow> (string \<times> string) list \<Rightarrow> (target, string option) prog" where
  "prepare_game_user_settings env tools payload =
     (if map_of payload GAME_USER_SETTINGS_PAYLOAD_PATH = None then ret None
      else bnd (read_payload_text env tools payload GAME_USER_SETTINGS_PAYLOAD_PATH MAX_GENERIC_CONFIG_BYTES) (\<lambda>backup.
        bnd (handle (read_related env) (\<lambda>e. if e = OSError then raise (RestoreError ''CURRENT_RELATED_SETTINGS_INVALID''
            (msg_text ''A configura_c~ao relacionada atual n~ao pode ser combinada com seguran_ca.'')) else raise e)) (\<lambda>current.
          case current of
            None \<Rightarrow> raise (RestoreError ''CURRENT_RELATED_SETTINGS_MISSING''
              (msg_text ''A configura_c~ao relacionada atual n~ao foi encontrada.''))
          | Some content \<Rightarrow> (case merge_generic_ini backup content of
              Inl e \<Rightarrow> raise e | Inr merged \<Rightarrow> ret (Some merged)))))"

text \<open>
  The directory \<open>payload/world\<close> as \<open>rglob\<close> lists it: the directories on the way to the extracted files, and
  the files, in the order of their paths.
\<close>

definition parent_paths :: "string \<Rightarrow> string list" where
  "parent_paths path = (let parts = split_on (CHR ''/'') path in List.map (\<lambda>i. join_slashes (take i parts)) [1..<length parts])"

definition world_files_of :: "(string \<times> string) list \<Rightarrow> (string \<times> string) list" where
  "world_files_of payload =
     List.map (\<lambda>(p, c). (remove_prefix p ''world/'', c)) (filter (\<lambda>(p, _). starts_with p ''world/'') payload)"

definition world_tree :: "(string \<times> string) list \<Rightarrow> tree" where
  "world_tree payload = (let world = world_files_of payload in
     order_by fst (List.map (\<lambda>p. (p, Directory)) (remdups (concat (List.map (\<lambda>(p, _). parent_paths p) world)))
       @ List.map (\<lambda>(p, c). (p, RegularFile c)) world))"

definition payload_total :: "(string \<times> string) list \<Rightarrow> nat" where
  "payload_total payload = sum_list (List.map (\<lambda>(_, c). length c) payload)"

text \<open>From the extracted payload on: the checks, the settings, the sizes.\<close>

definition finish_preparing ::
  "os_env \<Rightarrow> archive_tools \<Rightarrow> (string \<times> string) list \<Rightarrow> int \<Rightarrow> string \<Rightarrow> string \<Rightarrow> (target, prepared_restore) prog" where
  "finish_preparing env tools payload expected_size version merged_settings =
     bnd (prepare_game_user_settings env tools payload) (\<lambda>game_user_settings.
       let payload_size = payload_total payload in
       andthen (require (int payload_size = expected_size)
         (ARCHIVE_SIZE_MISMATCH ''O tamanho extra/ido do backup n~ao corresponde ao manifest.''))
        (andthen (ensure_available_space env (at_target_free tools) payload_size)
          (ret \<lparr>pr_world_directory = world_tree payload, pr_palworld_settings = merged_settings,
             pr_palworld_settings_version = version, pr_game_user_settings = game_user_settings,
             pr_payload_size_bytes = payload_size\<rparr>)))"

definition merge_payload_settings ::
  "os_env \<Rightarrow> archive_tools \<Rightarrow> (string \<times> string) list \<Rightarrow> int \<Rightarrow> string \<times> string \<Rightarrow> (target, prepared_restore) prog" where
  "merge_payload_settings env tools payload expected_size stored =
     bnd (read_payload_text env tools payload PALWORLD_SETTINGS_PAYLOAD_PATH MAX_INI_BYTES) (\<lambda>backup_settings.
       case merge_palworld_settings backup_settings (fst stored) of
         Inl e \<Rightarrow> raise e
       | Inr merged_settings \<Rightarrow> finish_preparing env tools payload expected_size (snd stored) merged_settings)"

definition prepare_payload ::
  "os_env \<Rightarrow> archive_tools \<Rightarrow> (site, string \<times> string) prog \<Rightarrow> (string \<times> string) list \<Rightarrow> int \<Rightarrow> (target, prepared_restore) prog" where
  "prepare_payload env tools read_settings payload expected_size =
     andthen (validate_payload (List.map fst payload))
      (andthen (validate_manager_payload tools payload)
        (bnd (read_current_settings env read_settings) (merge_payload_settings env tools payload expected_size)))"

definition prepare_archive ::
  "os_env \<Rightarrow> archive_tools \<Rightarrow> (site, string \<times> string) prog \<Rightarrow> backup_source \<Rightarrow> (target, prepared_restore) prog" where
  "prepare_archive env tools read_settings source =
     (let members = at_members tools (bs_content source) in
      andthen (tree_step env)
       (andthen (tree_call env (\<lambda>_. RestoreError ''RESTORE_TEMP_INVALID'' (msg_text ''A /area tempor/aria de Restore /e inv/alida.'')))
         (andthen (tree_step env)
           (andthen (tree_step env)
             (andthen (copy_managed_archive env source)
               (andthen (require (at_sha256 tools (bs_content source) = bs_sha256 source)
                   (RestoreError ''ARCHIVE_SHA256_MISMATCH'' (msg_text ''O SHA-256 externo do backup n~ao corresponde ao registro.'')))
                 (bnd (checked_archive (summarize_archive (at_loads tools) (at_is_datetime tools) members)) (\<lambda>payload_size.
                   andthen (ensure_staging_space env (at_staging_free tools) payload_size)
                    (andthen (ensure_available_space env (at_target_free tools) (nat payload_size))
                      (bnd (checked_archive (validate_archive (at_sha256 tools) (at_loads tools) (at_is_datetime tools) members)) (\<lambda>manifest.
                        andthen (require (manifest_identity manifest (bs_filename source))
                          (RestoreError ''MANIFEST_ID_MISMATCH'' (msg_text ''O identificador do manifest n~ao corresponde ao backup.'')))
                         (case extract_members [] (the members) of
                            Inl e \<Rightarrow> raise e
                          | Inr payload \<Rightarrow> prepare_payload env tools read_settings payload payload_size))))))))))))"

section \<open>What is prepared\<close>

lemma wp_checked_archive: "wp (checked_archive r) Q E s = (case r of Inr x \<Rightarrow> Q x s
    | Inl e \<Rightarrow> E (if e = BackupValidationError then RestoreError ''ARCHIVE_INTEGRITY_INVALID''
       (msg_text ''O backup falhou na valida_c~ao de integridade.'') else e) s)"
  by (simp add: checked_archive_def wp_ret wp_raise split: sum.split)

text \<open>Everything that prepares a restore leaves the files as they are.\<close>

definition only_read :: "target \<Rightarrow> target \<Rightarrow> bool" where
  "only_read s t \<longleftrightarrow> rt_world t = rt_world s \<and> rt_new t = rt_new s \<and> rt_previous t = rt_previous s
     \<and> rt_related t = rt_related s \<and> same_content (rt_site s) (rt_site t)"

lemma only_read_simps [simp]: "only_read s s" "only_read s (t\<lparr>rt_calls := n\<rparr>) = only_read s t"
  by (simp_all add: only_read_def)

lemma only_read_trans: "only_read s t \<Longrightarrow> only_read t u \<Longrightarrow> only_read s u"
  by (auto simp: only_read_def intro: same_content_trans)

text \<open>Programs that only read: the rules of the combinators.\<close>

definition reader :: "(target, 'a) prog \<Rightarrow> bool" where
  "reader p \<longleftrightarrow> (\<forall>s. wp p (\<lambda>_. only_read s) (\<lambda>_. only_read s) s)"

named_theorems readers

lemma readerD: "reader p \<Longrightarrow> wp p (\<lambda>_. only_read s) (\<lambda>_. only_read s) s"
  by (simp add: reader_def)

lemma reader_ret [readers]: "reader (ret x)"
  by (simp add: reader_def wp_ret)

lemma reader_raise [readers]: "reader (raise e)"
  by (simp add: reader_def wp_raise)

lemma reader_reads [readers]: "reader (reads f)"
  by (simp add: reader_def wp_reads)

lemma reader_require [readers]: "reader (require b e)"
  by (simp add: require_def reader_ret reader_raise)

lemma reader_call [readers]: "reader (tree_call env err)"
  by (auto simp: reader_def intro!: wp_tree_call)

lemma reader_from: "reader m \<Longrightarrow> only_read s t \<Longrightarrow> wp m (\<lambda>_. only_read s) (\<lambda>_. only_read s) t"
  by (rule wp_mono [OF readerD]) (blast intro: only_read_trans)+

lemma reader_bnd [readers]: "reader m \<Longrightarrow> (\<And>x. reader (f x)) \<Longrightarrow> reader (bnd m f)"
  unfolding reader_def [of "bnd m f"] wp_bnd by (intro allI, rule wp_mono [OF readerD]) (simp_all add: reader_from)

lemma reader_andthen [readers]: "reader m \<Longrightarrow> reader n \<Longrightarrow> reader (andthen m n)"
  unfolding andthen_def by (rule reader_bnd)

lemma reader_handle [readers]: "reader m \<Longrightarrow> (\<And>e. reader (h e)) \<Longrightarrow> reader (handle m h)"
  unfolding reader_def [of "handle m h"] wp_handle by (intro allI, rule wp_mono [OF readerD]) (simp_all add: reader_from)

lemma reader_checked [readers]: "reader (checked_archive r)"
  by (simp add: checked_archive_def reader_ret reader_raise split: sum.split)

lemma reader_option [readers]: "reader m \<Longrightarrow> (\<And>y. reader (f y)) \<Longrightarrow> reader (case x of None \<Rightarrow> m | Some y \<Rightarrow> f y)"
  by (simp split: option.split)

lemma reader_sum [readers]: "(\<And>e. reader (g e)) \<Longrightarrow> (\<And>y. reader (f y)) \<Longrightarrow> reader (case r of Inl e \<Rightarrow> g e | Inr y \<Rightarrow> f y)"
  by (simp split: sum.split)

lemma reader_if [readers]: "reader m \<Longrightarrow> reader n \<Longrightarrow> reader (if b then m else n)"
  by simp

lemma reader_prod [readers]: "(\<And>x y. reader (f x y)) \<Longrightarrow> reader (case p of (x, y) \<Rightarrow> f x y)"
  by (simp split: prod.split)

lemma reader_validate_world [readers]: "reader (validate_world env)"
  unfolding validate_world_def by (intro readers)

lemma reader_space [readers]: "reader (ensure_available_space env free n)"
  unfolding ensure_available_space_def by (intro readers)

lemma reader_related [readers]: "reader (read_related env)"
  unfolding read_related_def by (intro readers)

lemma reader_text [readers]: "reader (read_payload_text env tools payload path maximum)"
  unfolding read_payload_text_def by (intro readers)

lemma reader_user_settings [readers]: "reader (prepare_game_user_settings env tools payload)"
  unfolding prepare_game_user_settings_def by (intro readers)

lemma reader_validate [readers]: "reader (validate_payload paths)" "reader (validate_manager_payload tools payload)"
  unfolding validate_payload_def validate_manager_payload_def by (intro readers)+

lemma reader_copy [readers]: "reader (copy_managed_archive env source)" "reader (ensure_staging_space env free n)"
  unfolding copy_managed_archive_def ensure_staging_space_def Let_def by (intro readers)+

lemma wp_reader_then:
  assumes "reader m" "only_read s t" "\<And>x u. only_read s u \<Longrightarrow> wp (f x) Q (\<lambda>_. only_read s) u"
  shows "wp (bnd m f) Q (\<lambda>_. only_read s) t"
  unfolding wp_bnd by (rule wp_mono [OF reader_from [OF assms(1,2)]]) (use assms(3) in auto)

lemma wp_reader_andthen:
  assumes "reader m" "only_read s t" "\<And>u. only_read s u \<Longrightarrow> wp n Q (\<lambda>_. only_read s) u"
  shows "wp (andthen m n) Q (\<lambda>_. only_read s) t"
  unfolding andthen_def by (rule wp_reader_then [OF assms(1,2)]) (rule assms(3))

lemma wp_require_andthen:
  assumes "only_read s t" "b \<Longrightarrow> wp n Q (\<lambda>_. only_read s) t"
  shows "wp (andthen (require b e) n) Q (\<lambda>_. only_read s) t"
  using assms by (simp add: wp_andthen wp_require)

text \<open>
  What a prepared restore is made of: the world of the payload, the settings file of the payload merged into the current
  one, and the related settings of the payload, where it has them, merged into the current ones.
\<close>

definition payload_text :: "archive_tools \<Rightarrow> (string \<times> string) list \<Rightarrow> string \<Rightarrow> string \<Rightarrow> bool" where
  "payload_text tools payload path content \<longleftrightarrow> Option.bind (map_of payload path) (at_decode tools) = Some content"

definition related_from :: "archive_tools \<Rightarrow> (string \<times> string) list \<Rightarrow> string option \<Rightarrow> string option \<Rightarrow> bool" where
  "related_from tools payload related result \<longleftrightarrow> (case result of
     None \<Rightarrow> map_of payload GAME_USER_SETTINGS_PAYLOAD_PATH = None
   | Some merged \<Rightarrow> \<exists>backup current. payload_text tools payload GAME_USER_SETTINGS_PAYLOAD_PATH backup
       \<and> related = Some current \<and> merge_generic_ini backup current = Inr merged)"

definition prepared_from ::
  "archive_tools \<Rightarrow> (string \<Rightarrow> string) \<Rightarrow> (string \<times> string) list \<Rightarrow> target \<Rightarrow> prepared_restore \<Rightarrow> bool" where
  "prepared_from tools version payload s p \<longleftrightarrow> pr_world_directory p = world_tree payload
     \<and> (\<exists>backup current. payload_text tools payload PALWORLD_SETTINGS_PAYLOAD_PATH backup
          \<and> ss_current (rt_site s) = Some current \<and> pr_palworld_settings_version p = version current
          \<and> merge_palworld_settings backup current = Inr (pr_palworld_settings p))
     \<and> related_from tools payload (rt_related s) (pr_game_user_settings p)"

lemma wp_payload_text:
  assumes "only_read s t"
  shows "wp (read_payload_text env tools payload path maximum)
     (\<lambda>content u. only_read s u \<and> payload_text tools payload path content) (\<lambda>_. only_read s) t"
  unfolding read_payload_text_def
  by (rule wp_reader_andthen [OF reader_call assms])
    (auto simp: wp_andthen wp_require wp_raise wp_ret payload_text_def split: option.split)

lemma wp_read_related:
  assumes "only_read s t"
  shows "wp (read_related env) (\<lambda>r u. only_read s u \<and> r = rt_related s) (\<lambda>_. only_read s) t"
proof (cases "rt_related t")
  case None
  with assms show ?thesis by (simp add: read_related_def wp_bnd wp_reads wp_ret only_read_def)
next
  case (Some content)
  have "wp (andthen (tree_step env) (andthen (tree_step env) (andthen (tree_step env)
      (andthen (require (utf8_length content \<le> MAX_GENERIC_CONFIG_BYTES) OSError) (ret (Some content))))))
      (\<lambda>r u. only_read s u \<and> r = rt_related s) (\<lambda>_. only_read s) t"
    by (intro wp_reader_andthen [OF reader_call] wp_require_andthen)
      (use assms Some in \<open>auto simp: wp_ret only_read_def\<close>)
  then show ?thesis using Some by (simp add: read_related_def wp_bnd wp_reads)
qed

lemma wp_user_settings:
  assumes "only_read s t"
  shows "wp (prepare_game_user_settings env tools payload)
     (\<lambda>r u. only_read s u \<and> related_from tools payload (rt_related s) r) (\<lambda>_. only_read s) t"
proof (cases "map_of payload GAME_USER_SETTINGS_PAYLOAD_PATH")
  case None
  with assms show ?thesis by (simp add: prepare_game_user_settings_def wp_ret related_from_def)
next
  case (Some encoded)
  have rest: "wp (bnd (handle (read_related env) (\<lambda>e. if e = OSError then raise err else raise e)) (\<lambda>current. case current of
        None \<Rightarrow> raise missing
      | Some content \<Rightarrow> (case merge_generic_ini backup content of Inl e \<Rightarrow> raise e | Inr merged \<Rightarrow> ret (Some merged))))
      (\<lambda>r u. only_read s u \<and> related_from tools payload (rt_related s) r) (\<lambda>_. only_read s) u"
    if "only_read s u" "payload_text tools payload GAME_USER_SETTINGS_PAYLOAD_PATH backup" for u backup err missing
    unfolding wp_bnd wp_handle
    by (rule wp_mono [OF wp_read_related [OF that(1)]])
      (use that(2) in \<open>auto simp: wp_raise wp_ret related_from_def split: option.split sum.split\<close>)
  have ne: "map_of payload GAME_USER_SETTINGS_PAYLOAD_PATH \<noteq> None" using Some by simp
  show ?thesis
    unfolding prepare_game_user_settings_def if_not_P [OF ne] wp_bnd [of "read_payload_text _ _ _ _ _"]
    by (rule wp_mono [OF wp_payload_text [OF assms]]) (auto intro: rest)
qed

lemma wp_finish_preparing:
  assumes "only_read s t" "ss_current (rt_site s) = Some current" "merge_palworld_settings backup current = Inr merged"
    and "payload_text tools payload PALWORLD_SETTINGS_PAYLOAD_PATH backup"
  shows "wp (finish_preparing env tools payload expected_size (version current) merged)
     (\<lambda>p u. only_read s u \<and> prepared_from tools version payload s p) (\<lambda>_. only_read s) t"
  unfolding finish_preparing_def Let_def wp_bnd [of "prepare_game_user_settings _ _ _"]
proof (rule wp_mono [OF wp_user_settings [OF assms(1)]])
  fix related u
  assume h: "only_read s u \<and> related_from tools payload (rt_related s) related"
  then have "prepared_from tools version payload s \<lparr>pr_world_directory = world_tree payload, pr_palworld_settings = merged,
      pr_palworld_settings_version = version current, pr_game_user_settings = related,
      pr_payload_size_bytes = payload_total payload\<rparr>"
    using assms(2-4) by (auto simp: prepared_from_def)
  with h show "wp (andthen (require (int (payload_total payload) = expected_size)
        (ARCHIVE_SIZE_MISMATCH ''O tamanho extra/ido do backup n~ao corresponde ao manifest.''))
      (andthen (ensure_available_space env (at_target_free tools) (payload_total payload))
        (ret \<lparr>pr_world_directory = world_tree payload, pr_palworld_settings = merged,
           pr_palworld_settings_version = version current, pr_game_user_settings = related,
           pr_payload_size_bytes = payload_total payload\<rparr>)))
      (\<lambda>p u. only_read s u \<and> prepared_from tools version payload s p) (\<lambda>_. only_read s) u"
    by (intro wp_require_andthen wp_reader_andthen [OF reader_space]) (auto simp: wp_ret)
qed simp

lemma wp_merge_payload:
  assumes "only_read s t" "ss_current (rt_site s) = Some current"
  shows "wp (merge_payload_settings env tools payload expected_size (current, version current))
     (\<lambda>p u. only_read s u \<and> prepared_from tools version payload s p) (\<lambda>_. only_read s) t"
  unfolding merge_payload_settings_def fst_conv snd_conv wp_bnd [of "read_payload_text _ _ _ _ _"]
proof (rule wp_mono [OF wp_payload_text [OF assms(1)]])
  fix backup u
  assume "only_read s u \<and> payload_text tools payload PALWORLD_SETTINGS_PAYLOAD_PATH backup"
  then show "wp (case merge_palworld_settings backup current of Inl e \<Rightarrow> raise e
      | Inr merged \<Rightarrow> finish_preparing env tools payload expected_size (version current) merged)
      (\<lambda>p u. only_read s u \<and> prepared_from tools version payload s p) (\<lambda>_. only_read s) u"
    by (auto simp: wp_raise wp_finish_preparing [OF _ assms(2)] split: sum.split)
qed simp

text \<open>The archive was checked from its digest to every file, and its payload is what is prepared.\<close>

definition trusted_payload :: "archive_tools \<Rightarrow> backup_source \<Rightarrow> (string \<times> string) list \<Rightarrow> bool" where
  "trusted_payload tools source payload \<longleftrightarrow> at_sha256 tools (bs_content source) = bs_sha256 source
     \<and> (\<exists>ms manifest. at_members tools (bs_content source) = Some ms \<and> manifest_identity manifest (bs_filename source)
          \<and> validate_archive (at_sha256 tools) (at_loads tools) (at_is_datetime tools) (Some ms) = Inr manifest
          \<and> extract_members [] ms = Inr payload)"

context settings_storage
begin

lemma wp_current_settings:
  assumes "only_read s t"
  shows "wp (read_current_settings env read_settings)
     (\<lambda>(current, v) u. only_read s u \<and> ss_current (rt_site s) = Some current \<and> v = version current) (\<lambda>_. only_read s) t"
proof -
  have site: "wp (on_site read_settings)
      (\<lambda>(current, v) u. only_read s u \<and> ss_current (rt_site s) = Some current \<and> v = version current) (\<lambda>_. only_read s) u"
    if "only_read s u" for u
    unfolding wp_on_site
    by (rule wp_mono [OF reading]) (use that in \<open>auto simp: only_read_def intro: same_content_trans\<close>, simp add: same_content_def)
  have "wp (target_read_settings env read_settings)
      (\<lambda>(current, v) u. only_read s u \<and> ss_current (rt_site s) = Some current \<and> v = version current) (\<lambda>_. only_read s) t"
    unfolding target_read_settings_def by (rule wp_reader_andthen [OF reader_call assms site])
  then show ?thesis
    unfolding read_current_settings_def wp_handle
    by (rule wp_mono) (auto simp: wp_raise split: exn.split)
qed

lemma wp_prepare_payload:
  assumes "only_read s t"
  shows "wp (prepare_payload env tools read_settings payload expected_size)
     (\<lambda>p u. only_read s u \<and> prepared_from tools version payload s p) (\<lambda>_. only_read s) t"
  unfolding prepare_payload_def
  by (intro wp_reader_andthen [OF reader_validate(1) assms] wp_reader_andthen [OF reader_validate(2)])
    (auto simp: wp_bnd [of "read_current_settings _ _"] intro!: wp_mono [OF wp_current_settings] wp_merge_payload)

lemma wp_prepare_archive:
  "wp (prepare_archive env tools read_settings source)
     (\<lambda>p u. only_read s u \<and> (\<exists>payload. trusted_payload tools source payload \<and> prepared_from tools version payload s p))
     (\<lambda>_. only_read s) s"
proof -
  let ?ms = "at_members tools (bs_content source)"
  let ?Q = "\<lambda>p u. only_read s u \<and> (\<exists>payload. trusted_payload tools source payload \<and> prepared_from tools version payload s p)"
  have extracted: "wp (case extract_members [] (the ?ms) of Inl e \<Rightarrow> raise e
      | Inr payload \<Rightarrow> prepare_payload env tools read_settings payload n) ?Q (\<lambda>_. only_read s) t"
    if "only_read s t" "validate_archive (at_sha256 tools) (at_loads tools) (at_is_datetime tools) ?ms = Inr manifest"
      "manifest_identity manifest (bs_filename source)" "at_sha256 tools (bs_content source) = bs_sha256 source" for t n manifest
  proof (cases "extract_members [] (the ?ms)")
    case (Inl e)
    with that(1) show ?thesis by (simp add: wp_raise)
  next
    case (Inr payload)
    from that(2) obtain ms where "?ms = Some ms" by (cases ?ms) (simp_all add: validate_archive_def)
    with that Inr have "trusted_payload tools source payload" by (auto simp: trusted_payload_def)
    with Inr show ?thesis
      by (auto intro!: wp_mono [OF wp_prepare_payload [OF that(1), of env tools payload n]])
  qed
  have checked: "wp (bnd (checked_archive (validate_archive (at_sha256 tools) (at_loads tools) (at_is_datetime tools) ?ms)) (\<lambda>manifest.
        andthen (require (manifest_identity manifest (bs_filename source))
          (RestoreError ''MANIFEST_ID_MISMATCH'' (msg_text ''O identificador do manifest n~ao corresponde ao backup.'')))
         (case extract_members [] (the ?ms) of Inl e \<Rightarrow> raise e
          | Inr payload \<Rightarrow> prepare_payload env tools read_settings payload n))) ?Q (\<lambda>_. only_read s) t"
    if "only_read s t" "at_sha256 tools (bs_content source) = bs_sha256 source" for t n
    unfolding wp_bnd wp_checked_archive
    using that extracted by (auto simp: wp_andthen wp_require split: sum.split)
  show ?thesis
    unfolding prepare_archive_def Let_def
    by (intro wp_reader_andthen [OF reader_call] wp_reader_andthen [OF reader_copy(1)] wp_require_andthen
        wp_reader_then [OF reader_checked] wp_reader_andthen [OF reader_copy(2)] wp_reader_andthen [OF reader_space] checked)
      simp_all
qed

end

section \<open>The directory of the world\<close>

lemma in_the_way_sym: "in_the_way p q = in_the_way q p"
  by (auto simp: in_the_way_def)

lemma extracted_no_conflict:
  "extract_members extracted ms = Inr payload \<Longrightarrow> sorted_wrt (\<lambda>x y. \<not> in_the_way (fst x) (fst y)) extracted
    \<Longrightarrow> sorted_wrt (\<lambda>x y. \<not> in_the_way (fst x) (fst y)) payload"
proof (induction ms arbitrary: extracted)
  case (Cons m ms)
  show ?case
  proof (cases "tm_name m = MANIFEST_FILENAME")
    case True
    with Cons show ?thesis by simp
  next
    case False
    with Cons.prems(1) obtain content where m: "\<not> list_ex (\<lambda>(path, _). in_the_way (tm_name m) path) extracted"
      "extract_members (extracted @ [(tm_name m, content)]) ms = Inr payload"
      by (simp split: if_split_asm option.split_asm)
    have "sorted_wrt (\<lambda>x y. \<not> in_the_way (fst x) (fst y)) (extracted @ [(tm_name m, content)])"
      using m(1) Cons.prems(2) in_the_way_sym by (auto simp: sorted_wrt_append list_ex_iff)
    from Cons.IH [OF m(2) this] show ?thesis .
  qed
qed simp

lemma apart_distinct: "sorted_wrt (\<lambda>x y. \<not> in_the_way (fst x) (fst y)) xs \<Longrightarrow> distinct (List.map fst xs)"
  by (induction xs) (auto simp: in_the_way_def)

lemma extracted_apart:
  assumes "extract_members [] ms = Inr payload"
  shows "distinct (List.map fst payload)"
    and "x \<in> set payload \<Longrightarrow> y \<in> set payload \<Longrightarrow> \<not> starts_with (fst x) (fst y @ ''/'')"
proof -
  have apart: "sorted_wrt (\<lambda>x y. \<not> in_the_way (fst x) (fst y)) payload"
    using extracted_no_conflict [OF assms] by simp
  then show "distinct (List.map fst payload)" by (rule apart_distinct)
  assume xy: "x \<in> set payload" "y \<in> set payload"
  show "\<not> starts_with (fst x) (fst y @ ''/'')"
  proof (cases "fst x = fst y")
    case False
    from xy obtain i j where ij: "i < length payload" "j < length payload" "x = payload ! i" "y = payload ! j"
      by (metis in_set_conv_nth)
    with False consider "i < j" | "j < i" by (metis linorder_neqE_nat)
    then have "\<not> in_the_way (fst x) (fst y)"
    proof cases
      case 1 with apart ij show ?thesis by (simp add: sorted_wrt_iff_nth_less)
    next
      case 2 with apart ij have "\<not> in_the_way (fst y) (fst x)" by (simp add: sorted_wrt_iff_nth_less)
      then show ?thesis by (simp add: in_the_way_sym)
    qed
    then show ?thesis by (simp add: in_the_way_def)
  qed (auto simp: starts_with_iff)
qed

lemma split_on_nonempty [simp]: "split_on c s \<noteq> []"
  by (induction s) (auto split: list.split)

lemma join_split [simp]: "join_slashes (split_on (CHR ''/'') s) = s"
proof (induction s)
  case (Cons x s)
  show ?case
  proof (cases "split_on (CHR ''/'') s")
    case (Cons p ps)
    with Cons.IH show ?thesis by (cases ps) auto
  qed simp
qed simp

lemma join_append: "xs \<noteq> [] \<Longrightarrow> ys \<noteq> [] \<Longrightarrow> join_slashes (xs @ ys) = join_slashes xs @ CHR ''/'' # join_slashes ys"
proof (induction xs rule: join_slashes.induct)
  case (2 s)
  then show ?case by (cases ys) simp_all
qed simp_all

lemma parent_starts: "p \<in> set (parent_paths path) \<Longrightarrow> starts_with path (p @ ''/'')"
proof -
  assume "p \<in> set (parent_paths path)"
  then obtain i where i: "Suc 0 \<le> i" "i < length (split_on (CHR ''/'') path)" "p = join_slashes (take i (split_on (CHR ''/'') path))"
    by (auto simp: parent_paths_def Let_def)
  let ?parts = "split_on (CHR ''/'') path"
  have "path = join_slashes (take i ?parts @ drop i ?parts)" by simp
  also have "\<dots> = p @ CHR ''/'' # join_slashes (drop i ?parts)"
    using i by (simp del: append_take_drop_id add: join_append)
  finally show ?thesis by (auto simp: starts_with_iff)
qed

lemma remove_prefix_back: "starts_with p w \<Longrightarrow> w @ remove_prefix p w = p"
  by (auto simp: starts_with_iff)

lemma world_file_path: "x \<in> set (world_files_of payload) \<Longrightarrow> \<exists>y\<in>set payload. fst y = ''world/'' @ fst x"
proof -
  assume "x \<in> set (world_files_of payload)"
  then obtain p c where "(p, c) \<in> set payload" "starts_with p ''world/''" "fst x = remove_prefix p ''world/''"
    by (auto simp: world_files_of_def)
  with remove_prefix_back [of p "''world/''"] show ?thesis by (intro bexI [of _ "(p, c)"]) simp_all
qed

lemma distinct_map_remove:
  assumes "distinct (List.map fst xs)"
  shows "distinct (List.map (\<lambda>x. remove_prefix (fst x) w) (filter (\<lambda>x. starts_with (fst x) w) xs))"
proof -
  have "inj_on (\<lambda>x. remove_prefix (fst x) w) (set (filter (\<lambda>x. starts_with (fst x) w) xs))"
  proof (rule inj_onI)
    fix x y
    assume "x \<in> set (filter (\<lambda>x. starts_with (fst x) w) xs)" "y \<in> set (filter (\<lambda>x. starts_with (fst x) w) xs)"
      and same: "remove_prefix (fst x) w = remove_prefix (fst y) w"
    then have xy: "x \<in> set xs" "y \<in> set xs" "starts_with (fst x) w" "starts_with (fst y) w" by auto
    with same have "fst x = fst y" by (metis remove_prefix_back)
    with assms xy(1,2) show "x = y" by (auto simp: distinct_map inj_on_def)
  qed
  moreover have "distinct xs" using assms by (simp add: distinct_map)
  ultimately show ?thesis by (simp add: distinct_map)
qed

lemma world_tree_distinct:
  assumes "extract_members [] ms = Inr payload"
  shows "distinct (List.map fst (world_tree payload))"
proof -
  let ?world = "world_files_of payload"
  let ?dirs = "remdups (concat (List.map (\<lambda>(p, _). parent_paths p) ?world))"
  note apart = extracted_apart [OF assms]
  have "distinct (List.map (\<lambda>x. remove_prefix (fst x) ''world/'') (filter (\<lambda>x. starts_with (fst x) ''world/'') payload))"
    proof (rule distinct_map_remove)
    show "distinct (List.map fst payload)" by (rule apart(1))
  qed
  then have files: "distinct (List.map fst ?world)" by (simp add: world_files_of_def comp_def case_prod_unfold)
  have "p \<notin> fst ` set ?world" if "p \<in> set ?dirs" for p
  proof
    assume "p \<in> fst ` set ?world"
    then obtain w where w: "w \<in> set ?world" "p = fst w" by blast
    from world_file_path [OF w(1)] w(2) obtain y where y: "y \<in> set payload" "fst y = ''world/'' @ p" by blast
    from that obtain x where x: "x \<in> set ?world" "p \<in> set (parent_paths (fst x))" by auto
    from world_file_path [OF x(1)] obtain z where z: "z \<in> set payload" "fst z = ''world/'' @ fst x" by blast
    from parent_starts [OF x(2)] have "starts_with (fst z) (fst y @ ''/'')" by (auto simp: starts_with_iff y(2) z(2))
    with apart(2) [OF z(1) y(1)] show False by contradiction
  qed
  with files show ?thesis
    by (auto simp: world_tree_def Let_def comp_def case_prod_unfold)
qed

section \<open>A whole restore\<close>

lemma trusted_exact:
  "trusted_payload tools source payload \<Longrightarrow> \<exists>manifest files. parse_manifest (at_is_datetime tools) manifest = Inr files
    \<and> manifest_identity manifest (bs_filename source) \<and> exact_payload (at_sha256 tools) files payload
    \<and> distinct (List.map fst (world_tree payload))"
  using valid_archive_payload world_tree_distinct unfolding trusted_payload_def by blast

lemma restored_settings:
  assumes "prepared_from tools version payload s p" "restored version p s2 t"
    and "ss_current (rt_site s) = Some c" "ss_current (rt_site s2) = Some c'" "version c' = version c \<longrightarrow> c' = c"
  shows "rt_world t = Some (world_tree payload) \<and> (\<exists>backup merged. payload_text tools payload PALWORLD_SETTINGS_PAYLOAD_PATH backup
      \<and> merge_palworld_settings backup c' = Inr merged
      \<and> ss_current (rt_site t) = Some merged \<and> (\<exists>name. (name, c') \<in> set (ss_backups (rt_site t))))
    \<and> (\<exists>related. related_from tools payload (rt_related s) related
      \<and> (related \<noteq> None \<longrightarrow> rt_related t = related) \<and> (related = None \<longrightarrow> rt_related t = rt_related s2))"
proof -
  from assms(1,3) obtain backup where p: "pr_world_directory p = world_tree payload"
    "payload_text tools payload PALWORLD_SETTINGS_PAYLOAD_PATH backup"
    "pr_palworld_settings_version p = version c" "merge_palworld_settings backup c = Inr (pr_palworld_settings p)"
    "related_from tools payload (rt_related s) (pr_game_user_settings p)"
    by (auto simp: prepared_from_def)
  from assms(2,4) p(3) have "version c' = version c" by (auto simp: restored_def)
  with assms(5) have "c' = c" by simp
  with assms(2,4) p show ?thesis by (auto simp: restored_def in_place_def replaced_content_def)
qed

text \<open>
  C4: a restore that was prepared and applied installs a checked backup and keeps the secrets of the server. The
  archive has the SHA-256 of its record and the world is exactly what its manifest lists, file by file
  with the listed SHA-256. The settings file is the decoded \<open>config/PalWorldSettings.ini\<close> of that payload merged into the
  one that was there when it was replaced: an edit since the restore was prepared is refused, and that file is in a
  backup. The related settings are those of the payload, where it has them, merged into the ones that
  were there when the restore was prepared, and are left alone where it has none. Of the version that guards
  the settings file, only that it tells these two contents apart is used.
\<close>

theorem restore_end_to_end:
  assumes "prepare_archive env tools (file_read site_env version) source s = (Inr p, s1)"
    and "target_apply env2 (file_write site_env2 version) p s2 = (Inr (), t)"
    and "ss_current (rt_site s) = Some c" "ss_current (rt_site s2) = Some c'" "version c' = version c \<Longrightarrow> c' = c"
  shows "\<exists>payload manifest files backup merged name related.
    trusted_payload tools source payload \<and> parse_manifest (at_is_datetime tools) manifest = Inr files
    \<and> manifest_identity manifest (bs_filename source) \<and> exact_payload (at_sha256 tools) files payload
    \<and> rt_world t = Some (world_tree payload)
    \<and> payload_text tools payload PALWORLD_SETTINGS_PAYLOAD_PATH backup \<and> merge_palworld_settings backup c' = Inr merged
    \<and> ss_current (rt_site t) = Some merged \<and> (name, c') \<in> set (ss_backups (rt_site t))
    \<and> related_from tools payload (rt_related s) related
    \<and> (related \<noteq> None \<longrightarrow> rt_related t = related) \<and> (related = None \<longrightarrow> rt_related t = rt_related s2)"
proof -
  from wp_InrD [OF file_storage.wp_prepare_archive assms(1)] obtain payload where
    P: "trusted_payload tools source payload" "prepared_from tools version payload s p" by blast
  from trusted_exact [OF P(1)] obtain manifest files where M: "parse_manifest (at_is_datetime tools) manifest = Inr files"
    "manifest_identity manifest (bs_filename source)" "exact_payload (at_sha256 tools) files payload"
    "distinct (List.map fst (world_tree payload))" by blast
  with P(2) have "distinct (List.map fst (pr_world_directory p))" by (simp add: prepared_from_def)
  from wp_InrD [OF file_storage.wp_apply [OF this] assms(2)] have "restored version p s2 t" .
  moreover have "version c' = version c \<longrightarrow> c' = c" using assms(5) by blast
  ultimately have "rt_world t = Some (world_tree payload)
      \<and> (\<exists>backup merged. payload_text tools payload PALWORLD_SETTINGS_PAYLOAD_PATH backup \<and> merge_palworld_settings backup c' = Inr merged
          \<and> ss_current (rt_site t) = Some merged \<and> (\<exists>name. (name, c') \<in> set (ss_backups (rt_site t))))
      \<and> (\<exists>related. related_from tools payload (rt_related s) related
          \<and> (related \<noteq> None \<longrightarrow> rt_related t = related) \<and> (related = None \<longrightarrow> rt_related t = rt_related s2))"
    by (rule restored_settings [OF P(2) _ assms(3,4)])
  then obtain backup merged name related where
    "rt_world t = Some (world_tree payload)" "payload_text tools payload PALWORLD_SETTINGS_PAYLOAD_PATH backup"
    "merge_palworld_settings backup c' = Inr merged" "ss_current (rt_site t) = Some merged"
    "(name, c') \<in> set (ss_backups (rt_site t))" "related_from tools payload (rt_related s) related"
    "related \<noteq> None \<longrightarrow> rt_related t = related" "related = None \<longrightarrow> rt_related t = rt_related s2"
    by (elim conjE exE) (rule that)
  with P(1) M(1-3) show ?thesis by (intro exI conjI)
qed

section \<open>A restore that succeeds\<close>

lemma calm_calls [simp]:
  "tree_call calm_os err s = (Inr (), s\<lparr>rt_calls := Suc (rt_calls s)\<rparr>)"
  "tree_write calm_os put s = (Inr (), put None (s\<lparr>rt_calls := Suc (rt_calls s)\<rparr>))"
  "os_call calm_os err2 t = (Inr (), t\<lparr>ss_calls := Suc (ss_calls t)\<rparr>)"
  "os_write calm_os put2 content t = (Inr (), put2 content (t\<lparr>ss_calls := Suc (ss_calls t)\<rparr>))"
  "os_clock calm_os = int"
  by (simp_all add: calm_os_def tree_call_def tree_write_def os_call_def os_write_def)

lemmas run_simps = bnd_def andthen_def ret_def raise_def reads_def require_def modify_def

lemma calm_world:
  assumes "rt_world s \<noteq> None"
  shows "validate_world calm_os s = (Inr (), s\<lparr>rt_calls := rt_calls s + 2\<rparr>)"
    and "n \<le> free \<Longrightarrow> ensure_available_space calm_os free n s = (Inr (), s\<lparr>rt_calls := rt_calls s + 3\<rparr>)"
  using assms by (simp_all add: validate_world_def ensure_available_space_def run_simps numeral_eq_Suc)

lemma calm_read:
  assumes "ss_current (rt_site s) = Some c" "utf8_length c \<le> MAX_INI_BYTES"
  shows "read_current_settings calm_os (file_read calm_os version) s
    = (Inr (c, version c), s\<lparr>rt_calls := Suc (rt_calls s), rt_site := (rt_site s)\<lparr>ss_calls := ss_calls (rt_site s) + 4\<rparr>\<rparr>)"
  using assms by (simp add: read_current_settings_def handle_def target_read_settings_def on_site_def file_read_def
      read_current_def run_simps numeral_eq_Suc)

lemma calm_text:
  assumes "map_of payload path = Some c" "length c \<le> maximum" "at_decode tools c = Some t"
  shows "read_payload_text calm_os tools payload path maximum s = (Inr t, s\<lparr>rt_calls := Suc (rt_calls s)\<rparr>)"
  using assms by (simp add: read_payload_text_def run_simps)

definition whole_payload :: "(string \<times> string) list" where
  "whole_payload =
     [(''config/PalWorldSettings.ini'', sample_text ''AdminPassword=theirs,RespawnPenaltyTimeScale=2''),
      (''manager/manager.db'', ''d''), (''manager/settings.json'', ''s''),
      (''world/0/Level.sav'', ''abc''), (''world/0/LevelMeta.sav'', ''m''), (''world/0/Players/1.sav'', ''p'')]"

definition whole_tree :: tree where
  "whole_tree = List.map (\<lambda>(p, c). (p, RegularFile c)) whole_payload"

definition whole_manifest :: json where
  "whole_manifest = build_manifest (replicate 32 (CHR ''a'')) ''2026-01-01T00:00:00Z'' ''MANUAL''
     (List.map (listed packed_digest) whole_payload)"

definition whole_tools :: "tar_member list \<Rightarrow> archive_tools" where
  "whole_tools ms = \<lparr>at_members = \<lambda>_. Some ms, at_sha256 = packed_digest,
     at_loads = \<lambda>t. Some (if t = ''s'' then JObj DEFAULT_MANAGER_SETTINGS else whole_manifest),
     at_is_datetime = \<lambda>_. True, at_decode = Some, at_integrity = \<lambda>_. Some ''ok'',
     at_staging_free = 1000, at_target_free = 1000\<rparr>"

definition whole_source :: backup_source where
  "whole_source = \<lparr>bs_filename = ''palworld-'' @ replicate 32 (CHR ''a'') @ ''.tar.gz'', bs_sha256 = packed_digest [],
     bs_size_bytes = 1, bs_content = ''z'', bs_is_regular = True\<rparr>"

definition restoring_target :: target where
  "restoring_target = sample_target\<lparr>rt_site := (rt_site sample_target)\<lparr>ss_current :=
     Some (sample_text ''RespawnPenaltyTimeScale=1.5,AdminPassword=mine'')\<rparr>\<rparr>"

lemma whole_files:
  "order_by fst whole_tree = whole_tree" "regular_files whole_tree = whole_payload"
  "payload_manifest_files packed_digest whole_tree = Inr (List.map (listed packed_digest) whole_payload)"
proof -
  show o: "order_by fst whole_tree = whole_tree"
    by (simp add: order_by_def whole_tree_def whole_payload_def)
  show "regular_files whole_tree = whole_payload"
    by (simp add: whole_tree_def whole_payload_def)
  have "\<forall>x\<in>set whole_payload. validate_archive_path (fst x)"
    by (simp add: whole_payload_def validate_archive_path_def path_parts_def utf8_length_def MAX_ARCHIVE_PATH_BYTES_def code_def is_alpha_def)
  with o show "payload_manifest_files packed_digest whole_tree = Inr (List.map (listed packed_digest) whole_payload)"
    by (simp add: payload_manifest_files_def listed_def whole_tree_def whole_payload_def)
qed

lemma whole_fits: "fits whole_tree"
  by (simp add: fits_def whole_files(2), simp add: whole_tree_def whole_payload_def no_file_in_the_way_def in_the_way_def MANIFEST_FILENAME_def
        MAX_ARCHIVE_MEMBERS_def MAX_ARCHIVE_UNCOMPRESSED_BYTES_def sample_text_def SECTION_NAME_def)

lemma whole_archive:
  "\<exists>ms. validate_archive packed_digest (at_loads (whole_tools ms)) (\<lambda>_. True) (Some ms) = Inr whole_manifest
    \<and> summarize_archive (at_loads (whole_tools ms)) (\<lambda>_. True) (Some ms) = Inr (payload_bytes whole_payload)
    \<and> extract_members [] ms = Inr whole_payload"
proof -
  let ?loads = "at_loads (whole_tools [])"
  have "\<exists>ms. write_archive whole_tree (List.map (listed packed_digest) whole_payload) ''{}'' = Inr ms
    \<and> validate_archive packed_digest ?loads (\<lambda>_. True) (Some ms) = Inr whole_manifest
    \<and> summarize_archive ?loads (\<lambda>_. True) (Some ms) = Inr (payload_bytes (regular_files whole_tree))
    \<and> extract_members [] ms = Inr (regular_files (order_by fst whole_tree))"
    by (rule written_archive [where content = "''{}''", OF whole_fits packed_facts(2) whole_files(3) packed_facts(3)])
      (simp_all add: whole_manifest_def whole_tools_def MAX_MANIFEST_BYTES_def)
  moreover have "at_loads (whole_tools ms) = ?loads" for ms by (simp add: whole_tools_def)
  ultimately show ?thesis unfolding whole_files by metis
qed


lemma whole_checks:
  "validate_payload (List.map fst whole_payload) s = (Inr (), s)"
  "validate_manager_payload (whole_tools ms) whole_payload s = (Inr (), s)"
  "payload_bytes whole_payload = int (payload_total whole_payload)" "payload_total whole_payload < 1000"
  "manifest_identity whole_manifest (bs_filename whole_source)"
proof -
  have "complete_world (world_paths_of (List.map fst whole_payload))" by code_simp
  then show "validate_payload (List.map fst whole_payload) s = (Inr (), s)"
    by (simp add: validate_payload_def run_simps, simp add: whole_payload_def MANAGER_PAYLOAD_PATHS_def
        PALWORLD_SETTINGS_PAYLOAD_PATH_def)
  have "same_type v v" for v by (cases v) simp_all
  then have "manager_settings_copy (whole_tools ms) ''s''"
    by (simp add: manager_settings_copy_def whole_tools_def OPERATIONAL_SETTING_KEYS_def DEFAULT_MANAGER_SETTINGS_def dict_get_def)
  then show "validate_manager_payload (whole_tools ms) whole_payload s = (Inr (), s)"
    by (simp add: validate_manager_payload_def run_simps whole_payload_def whole_tools_def)
  show "payload_bytes whole_payload = int (payload_total whole_payload)"
    by (simp add: whole_payload_def payload_total_def)
  show "payload_total whole_payload < 1000"
    by (simp add: whole_payload_def payload_total_def sample_text_def SECTION_NAME_def)
  show "manifest_identity whole_manifest (bs_filename whole_source)"
    by (simp add: manifest_identity_def whole_manifest_def build_manifest_def dict_get_def json_str_def ends_with_def whole_source_def starts_with_iff)
qed

lemma whole_settings:
  "read_payload_text calm_os (whole_tools ms) whole_payload PALWORLD_SETTINGS_PAYLOAD_PATH MAX_INI_BYTES s
     = (Inr (sample_text ''AdminPassword=theirs,RespawnPenaltyTimeScale=2''), s\<lparr>rt_calls := Suc (rt_calls s)\<rparr>)"
  "map_of whole_payload GAME_USER_SETTINGS_PAYLOAD_PATH = None"
  "utf8_length (sample_text ''RespawnPenaltyTimeScale=1.5,AdminPassword=mine'') \<le> MAX_INI_BYTES"
  "utf8_length (sample_text ''RespawnPenaltyTimeScale=2,AdminPassword=mine'') \<le> MAX_INI_BYTES"
proof -
  show "read_payload_text calm_os (whole_tools ms) whole_payload PALWORLD_SETTINGS_PAYLOAD_PATH MAX_INI_BYTES s
     = (Inr (sample_text ''AdminPassword=theirs,RespawnPenaltyTimeScale=2''), s\<lparr>rt_calls := Suc (rt_calls s)\<rparr>)"
    by (rule calm_text) (simp_all add: whole_payload_def PALWORLD_SETTINGS_PAYLOAD_PATH_def whole_tools_def MAX_INI_BYTES_def
        sample_text_def SECTION_NAME_def)
  show "map_of whole_payload GAME_USER_SETTINGS_PAYLOAD_PATH = None"
    by (simp add: whole_payload_def GAME_USER_SETTINGS_PAYLOAD_PATH_def)
qed (simp_all add: utf8_length_def sample_text_def SECTION_NAME_def MAX_INI_BYTES_def code_def)

definition whole_restore :: prepared_restore where
  "whole_restore = \<lparr>pr_world_directory = world_tree whole_payload,
     pr_palworld_settings = sample_text ''RespawnPenaltyTimeScale=2,AdminPassword=mine'',
     pr_palworld_settings_version = sample_text ''RespawnPenaltyTimeScale=1.5,AdminPassword=mine'',
     pr_game_user_settings = None, pr_payload_size_bytes = payload_total whole_payload\<rparr>"

lemma whole_payload_prepared:
  assumes "rt_world s \<noteq> None" "ss_current (rt_site s) = Some (sample_text ''RespawnPenaltyTimeScale=1.5,AdminPassword=mine'')"
  shows "prepare_payload calm_os (whole_tools ms) (file_read calm_os id) whole_payload (payload_bytes whole_payload) s
     = (Inr whole_restore, s\<lparr>rt_calls := rt_calls s + 5, rt_site := (rt_site s)\<lparr>ss_calls := ss_calls (rt_site s) + 4\<rparr>\<rparr>)"
proof -
  have "at_target_free (whole_tools ms) = 1000" by (simp add: whole_tools_def)
  with assms show ?thesis
    by (simp add: prepare_payload_def andthen_def bnd_def whole_checks(1,2,3) calm_read whole_settings merge_payload_settings_def merge_sample
        finish_preparing_def prepare_game_user_settings_def ret_def require_def Let_def calm_world(2) less_imp_le [OF whole_checks(4)]
        whole_restore_def)
qed

lemma whole_prepared:
  assumes "rt_world s \<noteq> None" "ss_current (rt_site s) = Some (sample_text ''RespawnPenaltyTimeScale=1.5,AdminPassword=mine'')"
    and "validate_archive packed_digest (at_loads (whole_tools ms)) (\<lambda>_. True) (Some ms) = Inr whole_manifest"
    and "summarize_archive (at_loads (whole_tools ms)) (\<lambda>_. True) (Some ms) = Inr (payload_bytes whole_payload)"
    and "extract_members [] ms = Inr whole_payload"
  shows "\<exists>n k. prepare_archive calm_os (whole_tools ms) (file_read calm_os id) whole_source s
     = (Inr whole_restore, s\<lparr>rt_calls := n, rt_site := (rt_site s)\<lparr>ss_calls := k\<rparr>\<rparr>)"
proof -
  have t: "at_members (whole_tools ms) c = Some ms" "at_sha256 (whole_tools ms) = packed_digest"
    "at_is_datetime (whole_tools ms) = (\<lambda>_. True)" "at_target_free (whole_tools ms) = 1000" "at_staging_free (whole_tools ms) = 1000" for c
    by (simp_all add: whole_tools_def)
  have copied: "copy_managed_archive calm_os whole_source u = (Inr (), u\<lparr>rt_calls := rt_calls u + 3\<rparr>)" for u
    by (simp add: copy_managed_archive_def whole_source_def run_simps numeral_eq_Suc)
  have digest: "packed_digest (bs_content whole_source) = bs_sha256 whole_source"
    by (simp add: whole_source_def packed_digest_def)
  have staged: "ensure_staging_space calm_os 1000 (int (payload_total whole_payload)) u = (Inr (), u\<lparr>rt_calls := Suc (rt_calls u)\<rparr>)" for u
    using whole_checks(4) by (simp add: ensure_staging_space_def run_simps)
  note prepared = whole_payload_prepared [unfolded whole_checks(3)]
  show ?thesis
    using assms unfolding prepare_archive_def t Let_def whole_checks(3)
    by (simp add: andthen_def bnd_def checked_archive_def ret_def require_def copied digest staged calm_world(2)
        less_imp_le [OF whole_checks(4)] whole_checks(5) prepared) (intro exI, rule refl)
qed

text \<open>A tree of directories and files is copied whole.\<close>

lemma calm_copy:
  "\<forall>e\<in>set t. snd e = Directory \<or> (\<exists>c. snd e = RegularFile c)
    \<Longrightarrow> \<exists>new n. for_each t (copy_node calm_os) s = (Inr (), s\<lparr>rt_new := new, rt_calls := n\<rparr>)"
proof (induction t arbitrary: s)
  case Nil
  then show ?case by (auto simp: ret_def intro!: exI [of _ "rt_new s"] exI [of _ "rt_calls s"])
next
  case (Cons e t)
  have "\<exists>new n. copy_node calm_os e s = (Inr (), s\<lparr>rt_new := new, rt_calls := n\<rparr>)"
    using Cons.prems by (cases e) (auto simp: copy_node_def run_simps add_node_def, (intro exI, rule refl)+)
  then obtain new n where e: "copy_node calm_os e s = (Inr (), s\<lparr>rt_new := new, rt_calls := n\<rparr>)" by blast
  with Cons.IH [of "s\<lparr>rt_new := new, rt_calls := n\<rparr>"] Cons.prems show ?case
    by (simp add: andthen_def bnd_def)
qed

lemma world_tree_nodes: "\<forall>e\<in>set (world_tree payload). snd e = Directory \<or> (\<exists>c. snd e = RegularFile c)"
  by (auto simp: world_tree_def Let_def)

lemma whole_written:
  assumes "ss_current s = Some (sample_text ''RespawnPenaltyTimeScale=1.5,AdminPassword=mine'')" "ss_backups s = []"
  shows "\<exists>name t. file_write calm_os id (sample_text ''RespawnPenaltyTimeScale=1.5,AdminPassword=mine'')
      (sample_text ''RespawnPenaltyTimeScale=2,AdminPassword=mine'') s = (Inr name, t)"
proof -
  have read: "read_current calm_os u = (Inr c, u\<lparr>ss_calls := ss_calls u + 4\<rparr>)"
    if "ss_current u = Some c" "utf8_length c \<le> MAX_INI_BYTES" for u c
    using that by (simp add: read_current_def run_simps numeral_eq_Suc)
  show ?thesis
    using assms by (simp add: file_write_def bnd_def andthen_def read whole_settings require_def ret_def reads_def Let_def
        write_exclusive_def atomic_replace_def always_def remove_temporary_def modify_def put_backup_def put_temp_def)
qed

lemma whole_applied:
  assumes "rt_world s \<noteq> None" "rt_new s = None" "rt_previous s = None" "ss_backups (rt_site s) = []"
    and "ss_current (rt_site s) = Some (sample_text ''RespawnPenaltyTimeScale=1.5,AdminPassword=mine'')"
  shows "\<exists>t. target_apply calm_os (file_write calm_os id) whole_restore s = (Inr (), t)"
proof -
  have copied: "\<exists>new n. copy_world_tree calm_os (world_tree whole_payload) u = (Inr (), u\<lparr>rt_new := new, rt_calls := n\<rparr>)" for u
    using calm_copy [OF world_tree_nodes, of whole_payload "u\<lparr>rt_new := Some [], rt_calls := Suc (Suc (rt_calls u))\<rparr>"]
    by (auto simp: copy_world_tree_def andthen_def bnd_def modify_def)
  let ?u = "s\<lparr>rt_calls := rt_calls s + 3\<rparr>"
  obtain new n where c: "copy_world_tree calm_os (world_tree whole_payload) ?u = (Inr (), ?u\<lparr>rt_new := new, rt_calls := n\<rparr>)"
    using copied by blast
  obtain name t where w: "file_write calm_os id (sample_text ''RespawnPenaltyTimeScale=1.5,AdminPassword=mine'')
      (sample_text ''RespawnPenaltyTimeScale=2,AdminPassword=mine'') (rt_site s) = (Inr name, t)"
    using whole_written assms(4,5) by blast
  have "\<exists>t. replace_files calm_os (file_write calm_os id) whole_restore ?u = (Inr (), t)"
    using c w by (simp add: replace_files_def whole_restore_def andthen_def bnd_def modify_def on_site_def ret_def remove_previous_def)
  then show ?thesis
    using assms(1-3) by (auto simp: target_apply_def calm_world andthen_def bnd_def reads_def require_def ret_def handle_def numeral_eq_Suc)
qed

text \<open>
  The witness: a backup of one world is prepared and applied, and every call succeeds.
\<close>

theorem restore_end_to_end_witness:
  "\<exists>tools p s t payload backup merged name. prepare_archive calm_os tools (file_read calm_os id) whole_source restoring_target = (Inr p, s)
    \<and> target_apply calm_os (file_write calm_os id) p s = (Inr (), t)
    \<and> trusted_payload tools whole_source payload \<and> rt_world t = Some (world_tree payload)
    \<and> payload_text tools payload PALWORLD_SETTINGS_PAYLOAD_PATH backup
    \<and> merge_palworld_settings backup (sample_text ''RespawnPenaltyTimeScale=1.5,AdminPassword=mine'') = Inr merged
    \<and> ss_current (rt_site t) = Some merged
    \<and> (name, sample_text ''RespawnPenaltyTimeScale=1.5,AdminPassword=mine'') \<in> set (ss_backups (rt_site t))"
proof -
  let ?old = "sample_text ''RespawnPenaltyTimeScale=1.5,AdminPassword=mine''"
  have start: "rt_world restoring_target \<noteq> None" "ss_current (rt_site restoring_target) = Some ?old"
    "rt_new restoring_target = None" "rt_previous restoring_target = None" "ss_backups (rt_site restoring_target) = []"
    by (simp_all add: restoring_target_def sample_target_def)
  obtain ms where "validate_archive packed_digest (at_loads (whole_tools ms)) (\<lambda>_. True) (Some ms) = Inr whole_manifest"
    "summarize_archive (at_loads (whole_tools ms)) (\<lambda>_. True) (Some ms) = Inr (payload_bytes whole_payload)"
    "extract_members [] ms = Inr whole_payload" using whole_archive by blast
  from whole_prepared [OF start(1,2) this] obtain n k where p: "prepare_archive calm_os (whole_tools ms) (file_read calm_os id) whole_source
      restoring_target = (Inr whole_restore, restoring_target\<lparr>rt_calls := n, rt_site := (rt_site restoring_target)\<lparr>ss_calls := k\<rparr>\<rparr>)"
    by blast
  let ?s = "restoring_target\<lparr>rt_calls := n, rt_site := (rt_site restoring_target)\<lparr>ss_calls := k\<rparr>\<rparr>"
  obtain t where t: "target_apply calm_os (file_write calm_os id) whole_restore ?s = (Inr (), t)"
    using whole_applied [of ?s] start by auto
  have "ss_current (rt_site ?s) = Some ?old" using start(2) by simp
  from restore_end_to_end [OF p t start(2) this] p t show ?thesis by blast
qed

end
