(* ===== verification/AccountSafe.thy ===== *)
theory AccountSafe
  imports Accounts
begin

text \<open>
  What accounts and sessions keep, whatever the requests are: identities stay unique, the last active
  administrator stays, and a session that has ended or expired never comes back. \<open>account_step\<close> is any committed
  operation of \<open>Accounts\<close>, or anything else that leaves the users and the sessions alone.
\<close>

section \<open>What is kept\<close>

definition accounts_wf :: "db \<Rightarrow> bool" where
  "accounts_wf d \<longleftrightarrow> distinct (List.map u_id (users d)) \<and> distinct (List.map u_username_key (users d))
     \<and> distinct (List.map r_id (sessions d)) \<and> distinct (List.map r_token_hash (sessions d))"

definition administered :: "db \<Rightarrow> bool" where
  "administered d \<longleftrightarrow> (\<exists>u\<in>set (users d). u_role u = ADMIN \<and> u_is_active u)"

definition same_session :: "session_record \<Rightarrow> session_record \<Rightarrow> bool" where
  "same_session r r' \<longleftrightarrow> r_id r' = r_id r \<and> r_user_id r' = r_user_id r \<and> r_token_hash r' = r_token_hash r
     \<and> r_csrf_token_hash r' = r_csrf_token_hash r \<and> r_expires_at r' = r_expires_at r
     \<and> (r_revoked_at r \<noteq> None \<longrightarrow> r_revoked_at r' = r_revoked_at r)"

definition sessions_kept :: "db \<Rightarrow> db \<Rightarrow> bool" where
  "sessions_kept d d' \<longleftrightarrow> (\<forall>r\<in>set (sessions d). \<exists>r'\<in>set (sessions d'). same_session r r')"

definition users_kept :: "db \<Rightarrow> db \<Rightarrow> bool" where
  "users_kept d d' \<longleftrightarrow> (\<forall>u\<in>set (users d). \<exists>u'\<in>set (users d'). u_id u' = u_id u \<and> u_username_key u' = u_username_key u)"

definition advance :: "db \<Rightarrow> db \<Rightarrow> bool" where
  "advance d d' \<longleftrightarrow> accounts_wf d'
     \<and> (administered d \<longrightarrow> administered d') \<and> sessions_kept d d' \<and> users_kept d d'"

lemma same_session_refl [simp]: "same_session r r"
  by (simp add: same_session_def)

lemma same_session_trans: "same_session r s \<Longrightarrow> same_session s t \<Longrightarrow> same_session r t"
  by (auto simp: same_session_def)

lemma sessions_kept_trans: "sessions_kept d e \<Longrightarrow> sessions_kept e f \<Longrightarrow> sessions_kept d f"
  unfolding sessions_kept_def using same_session_trans by blast

lemma users_kept_trans: "users_kept d e \<Longrightarrow> users_kept e f \<Longrightarrow> users_kept d f"
  unfolding users_kept_def by fastforce

lemma advance_refl: "accounts_wf d \<Longrightarrow> advance d d"
  by (auto simp: advance_def sessions_kept_def users_kept_def intro: same_session_refl)

lemma advance_trans: "advance d e \<Longrightarrow> advance e f \<Longrightarrow> advance d f"
  unfolding advance_def using sessions_kept_trans users_kept_trans by blast

text \<open>Only the users and the sessions count.\<close>

lemma advance_cong: "users e' = users e \<Longrightarrow> sessions e' = sessions e \<Longrightarrow> advance d e' = advance d e"
  by (simp add: advance_def accounts_wf_def administered_def sessions_kept_def users_kept_def)

lemma accounts_wf_cong: "users e' = users e \<Longrightarrow> sessions e' = sessions e \<Longrightarrow> accounts_wf e' = accounts_wf e"
  by (simp add: accounts_wf_def)

lemma advance_audited [simp]: "advance d (audited t f e) = advance d e"
  by (rule advance_cong) simp_all

section \<open>Changes of one table\<close>

lemma find_user_mem: "find_user k d = Some u \<Longrightarrow> u \<in> set (users d) \<and> u_id u = k"
  using row_get_Some [of u_id k "users d" u] by (simp add: find_user_def)

lemma mapped_put:
  assumes "distinct (List.map key rs)" "r \<in> set rs" "key r' = key r" "f r' = f r"
  shows "List.map f (row_put key r' rs) = List.map f rs"
proof -
  have "x = r" if "x \<in> set rs" "key x = key r" for x
    using assms(1,2) that by (meson distinct_map inj_onD)
  then show ?thesis using assms(3,4) by (auto simp: row_put_def)
qed

text \<open>One session is written: nothing of it changes but when it was seen and, once, when it ended.\<close>

lemma session_written:
  assumes "accounts_wf d" "r \<in> set (sessions d)" "same_session r r'" "users d' = users d"
    and "sessions d' = row_put r_id r' (sessions d)"
  shows "advance d d'"
proof -
  have ids: "distinct (List.map r_id (sessions d))" using assms(1) by (simp add: accounts_wf_def)
  have put: "List.map f (sessions d') = List.map f (sessions d)" if "f r' = f r" for f :: "session_record \<Rightarrow> 'z"
    using mapped_put [OF ids assms(2) _ that] assms(3,5) by (simp add: same_session_def)
  have "accounts_wf d'"
    using assms(1,3,4) put [of r_id] put [of r_token_hash] by (simp add: accounts_wf_def same_session_def)
  moreover have "\<exists>y\<in>set (sessions d'). same_session x y" if x: "x \<in> set (sessions d)" for x
  proof (cases "r_id x = r_id r'")
    case True
    with assms(3) have "r_id x = r_id r" by (simp add: same_session_def)
    with x assms(2) ids have "x = r" by (meson distinct_map inj_onD)
    then have "r' \<in> set (sessions d')" using True x by (auto simp: assms(5) row_put_def image_iff)
    with \<open>x = r\<close> assms(3) show ?thesis by blast
  next
    case False
    with x show ?thesis using in_row_put_other [of x "sessions d" r_id r'] assms(5) by (auto intro!: bexI [of _ x])
  qed
  ultimately show ?thesis
    using assms(4) by (auto simp: advance_def sessions_kept_def administered_def users_kept_def)
qed

definition ended_for :: "int \<Rightarrow> int \<Rightarrow> session_record \<Rightarrow> session_record" where
  "ended_for user_id now r = (if r_user_id r = user_id \<and> r_revoked_at r = None then r\<lparr>r_revoked_at := Some now\<rparr> else r)"

lemma ended_for_simps [simp]:
  "r_id (ended_for k now r) = r_id r" "r_token_hash (ended_for k now r) = r_token_hash r" "same_session r (ended_for k now r)"
  "r_user_id (ended_for k now r) = k \<Longrightarrow> \<exists>y. r_revoked_at (ended_for k now r) = Some y"
  by (auto simp: ended_for_def same_session_def)

lemma wp_revoke_user_sessions [wp_simps]:
  "wp (revoke_user_sessions k now) Q E d = Q () (d\<lparr>sessions := List.map (ended_for k now) (sessions d)\<rparr>)"
  by (simp add: revoke_user_sessions_def wp_simps ended_for_def [abs_def])

text \<open>
  A user is written and the sessions of that user end. An administrator stays when the user still is one, or was
  none, or was one of two.
\<close>

definition leaves_administrator :: "db \<Rightarrow> user \<Rightarrow> user \<Rightarrow> bool" where
  "leaves_administrator d u u' \<longleftrightarrow> u_role u' = ADMIN \<and> u_is_active u' \<or> \<not> (u_role u = ADMIN \<and> u_is_active u)
     \<or> 1 < active_administrators d"

lemma two_administrators:
  assumes "1 < active_administrators d" "distinct (List.map u_id (users d))"
  shows "\<exists>v\<in>set (users d). u_id v \<noteq> k \<and> u_role v = ADMIN \<and> u_is_active v"
proof (rule ccontr)
  let ?as = "filter (\<lambda>u. u_role u = ADMIN \<and> u_is_active u) (users d)"
  assume "\<not> ?thesis"
  then have "u_id ` set ?as \<subseteq> {k}" by auto
  moreover have "distinct (List.map u_id ?as)" using assms(2) by (rule distinct_map_filter)
  then have "card (set (List.map u_id ?as)) = active_administrators d"
    using distinct_card [of "List.map u_id ?as"] by (simp add: active_administrators_def)
  then have "card (u_id ` set ?as) = active_administrators d" by simp
  ultimately show False using assms(1) card_mono [of "{k}" "u_id ` set ?as"] by simp
qed

lemma user_written:
  assumes "accounts_wf d" "u \<in> set (users d)" "u_id u' = u_id u" "u_username_key u' = u_username_key u"
    and "leaves_administrator d u u'" "users d' = row_put u_id u' (users d)"
    and "sessions d' = List.map (ended_for k now) (sessions d)"
  shows "advance d d'"
proof -
  have ids: "distinct (List.map u_id (users d))" using assms(1) by (simp add: accounts_wf_def)
  have "accounts_wf d'"
    using assms(1) mapped_put [OF ids assms(2,3), of u_id] mapped_put [OF ids assms(2,3,4)] assms(3)
    by (simp add: accounts_wf_def assms(6,7) comp_def)
  moreover have new: "u' \<in> set (users d')" using assms(2,3) by (auto simp: assms(6) row_put_def image_iff)
  have other: "v \<in> set (users d')" if "v \<in> set (users d)" "u_id v \<noteq> u_id u" for v
    using in_row_put_other [of v "users d" u_id u'] that assms(3,6) by simp
  have "administered d'" if "administered d"
  proof -
    from that obtain v where v: "v \<in> set (users d)" "u_role v = ADMIN" "u_is_active v" by (auto simp: administered_def)
    have "\<exists>w\<in>set (users d'). u_role w = ADMIN \<and> u_is_active w"
    proof (cases "u_role u' = ADMIN \<and> u_is_active u'")
      case True with new show ?thesis by blast
    next
      case False
      with assms(5) consider "\<not> (u_role u = ADMIN \<and> u_is_active u)" | "1 < active_administrators d"
        by (auto simp: leaves_administrator_def)
      then show ?thesis
      proof cases
        case 1
        have "v = u" if "u_id v = u_id u" using ids assms(2) v(1) that by (meson distinct_map inj_onD)
        with 1 v(2,3) have "u_id v \<noteq> u_id u" by blast
        with v other show ?thesis by blast
      next
        case 2
        with two_administrators [OF 2 ids, of "u_id u"] other show ?thesis by blast
      qed
    qed
    then show ?thesis by (simp add: administered_def)
  qed
  moreover have "users_kept d d'"
  proof (unfold users_kept_def, intro ballI)
    fix v assume v: "v \<in> set (users d)"
    show "\<exists>w\<in>set (users d'). u_id w = u_id v \<and> u_username_key w = u_username_key v"
    proof (cases "u_id v = u_id u")
      case True
      then have "v = u" using ids assms(2) v by (meson distinct_map inj_onD)
      with new assms(3,4) show ?thesis by blast
    next
      case False with v other show ?thesis by blast
    qed
  qed
  moreover have "sessions_kept d d'" by (auto simp: sessions_kept_def assms(7) intro: ended_for_simps(3))
  ultimately show ?thesis by (simp add: advance_def)
qed

lemma user_added:
  assumes "accounts_wf d" "users d' = users d @ [u]" "sessions d' = sessions d" "u_id u = fresh_key u_id (users d)"
    and "\<forall>v\<in>set (users d). u_username_key v \<noteq> u_username_key u"
  shows "advance d d'"
  using assms fresh_key_notin [of u_id "users d"]
  by (auto simp: advance_def accounts_wf_def administered_def sessions_kept_def users_kept_def intro: same_session_refl)

lemma session_added:
  assumes "accounts_wf d" "sessions d' = sessions d @ [r]" "users d' = users d" "r_id r = fresh_key r_id (sessions d)"
    and "\<forall>s\<in>set (sessions d). r_token_hash s \<noteq> r_token_hash r"
  shows "advance d d'"
  using assms fresh_key_notin [of r_id "sessions d"]
  by (auto simp: advance_def accounts_wf_def administered_def sessions_kept_def users_kept_def intro: same_session_refl)

section \<open>The operations\<close>

lemma wp_normalize_username: "(\<And>n. Q n d) \<Longrightarrow> (\<And>e. E e d) \<Longrightarrow> wp (normalize_username username) Q E d"
  by (simp add: normalize_username_def wp_simps Let_def)

lemma wp_hash_password: "(\<And>h. Q h d) \<Longrightarrow> (\<And>e. E e d) \<Longrightarrow> wp (hash_password hash password) Q E d"
  by (simp add: hash_password_def validate_password_def wp_simps)

lemma wp_put_user [wp_simps]: "wp (put_user u) Q E d = Q () (d\<lparr>users := row_put u_id u (users d)\<rparr>)"
  by (simp add: put_user_def wp_simps)

lemma wp_put_session [wp_simps]: "wp (put_session r) Q E d = Q () (d\<lparr>sessions := row_put r_id r (sessions d)\<rparr>)"
  by (simp add: put_session_def wp_simps)

text \<open>Which sessions an operation has to end: those of the user it changed.\<close>

definition sessions_ended :: "int \<Rightarrow> db \<Rightarrow> db \<Rightarrow> bool" where
  "sessions_ended k d d' \<longleftrightarrow> users d' = users d \<or> (\<forall>r\<in>set (sessions d'). r_user_id r = k \<longrightarrow> r_revoked_at r \<noteq> None)"

lemma written_and_ended:
  assumes "accounts_wf d" "find_user k d = Some u" "u_id u' = u_id u" "u_username_key u' = u_username_key u"
    and "leaves_administrator d u u'" "users d' = row_put u_id u' (users d)"
    and "sessions d' = List.map (ended_for (u_id u) now) (sessions d)"
  shows "advance d d' \<and> sessions_ended k d d'"
  using user_written [OF assms(1) _ assms(3,4,5,6,7)] find_user_mem [OF assms(2)]
  by (auto simp: sessions_ended_def assms(7))

lemma wp_user_audit: "valid_audit_action action \<Longrightarrow> wp (user_audit now action actor u details) Q E d
    = Q () (audited now \<lparr>f_action = action, f_result = AUDIT_RESULT_SUCCESS, f_origin = AUDIT_ORIGIN_ADMINISTRATOR,
        f_user_id = Some actor, f_job_id = None, f_target = Some (u_username u), f_reason = None, f_details = details\<rparr> d)"
  by (simp add: user_audit_def wp_simps)

lemma user_actions: "valid_audit_action ''USER_CREATED''" "valid_audit_action ''USER_ROLE_CHANGED''"
    "valid_audit_action ''USER_STATUS_CHANGED''" "valid_audit_action ''USER_PASSWORD_RESET''"
    "valid_audit_action ''ACCOUNT_PASSWORD_UPDATE''"
  by code_simp+

lemma wp_managed_user [wp_simps]:
  "wp (managed_user k actor) Q E d = (if k = actor then E SelfManagementError d
     else case find_user k d of None \<Rightarrow> E UserNotFoundError d | Some u \<Rightarrow> Q u d)"
  by (simp add: managed_user_def wp_simps split: option.split)

lemma wp_require_another [wp_simps]:
  "wp (require_another_active_administrator u) Q E d
     = (if u_is_active u \<and> active_administrators d \<le> 1 then E LastActiveAdministratorError d else Q () d)"
  by (simp add: require_another_active_administrator_def wp_simps)

lemma unchanged_advance: "accounts_wf d \<Longrightarrow> advance d d \<and> sessions_ended k d d"
  by (simp add: advance_refl sessions_ended_def)

lemma wp_change_user_role:
  assumes "accounts_wf d"
  shows "wp (change_user_role k role actor clock) (\<lambda>_ d'. advance d d' \<and> sessions_ended k d d') (\<lambda>_ _. True) d"
proof (cases "find_user k d")
  case (Some u)
  let ?d = "d\<lparr>users := row_put u_id (u\<lparr>u_role := role, u_updated_at := clock 0\<rparr>) (users d),
     sessions := List.map (ended_for (u_id u) (clock (Suc 0))) (sessions d)\<rparr>"
  show ?thesis
  proof (cases "u_role u = ADMIN \<and> role \<noteq> ADMIN \<and> u_is_active u \<and> active_administrators d \<le> 1")
    case True
    with Some unchanged_advance [OF assms, of k] show ?thesis by (simp add: change_user_role_def wp_simps)
  next
    case False
    have "advance d (audited t f ?d) \<and> sessions_ended k d (audited t f ?d)" for t f
      by (rule written_and_ended [OF assms Some]) (use False in \<open>auto simp: leaves_administrator_def\<close>)
    with False Some unchanged_advance [OF assms, of k] show ?thesis
      by (cases "u_role u = ADMIN \<and> role \<noteq> ADMIN") (simp_all add: change_user_role_def wp_simps wp_user_audit user_actions Let_def)
  qed
qed (simp add: change_user_role_def wp_simps)

lemma wp_set_user_active:
  assumes "accounts_wf d"
  shows "wp (set_user_active k active actor clock) (\<lambda>_ d'. advance d d' \<and> sessions_ended k d d') (\<lambda>_ _. True) d"
proof (cases "find_user k d")
  case (Some u)
  let ?d = "d\<lparr>users := row_put u_id (u\<lparr>u_is_active := active, u_updated_at := clock 0\<rparr>) (users d),
     sessions := List.map (ended_for (u_id u) (clock (Suc 0))) (sessions d)\<rparr>"
  show ?thesis
  proof (cases "\<not> active \<and> u_role u = ADMIN \<and> u_is_active u \<and> active_administrators d \<le> 1")
    case True
    with Some unchanged_advance [OF assms, of k] show ?thesis by (simp add: set_user_active_def wp_simps)
  next
    case False
    have "advance d (audited t f ?d) \<and> sessions_ended k d (audited t f ?d)" for t f
      by (rule written_and_ended [OF assms Some]) (use False in \<open>auto simp: leaves_administrator_def\<close>)
    with False Some unchanged_advance [OF assms, of k] show ?thesis
      by (cases active; cases "u_role u = ADMIN") (simp_all add: set_user_active_def wp_simps wp_user_audit user_actions Let_def)
  qed
qed (simp add: set_user_active_def wp_simps)

lemma wp_reset_user_password:
  assumes "accounts_wf d"
  shows "wp (reset_user_password hash k password actor clock) (\<lambda>_ d'. advance d d' \<and> sessions_ended k d d') (\<lambda>_ _. True) d"
  unfolding reset_user_password_def wp_bnd
proof (intro wp_hash_password, cases "find_user k d")
  fix h
  case (Some u)
  let ?d = "d\<lparr>users := row_put u_id (u\<lparr>u_password_hash := h, u_password_change_required := True, u_updated_at := clock 0\<rparr>) (users d),
     sessions := List.map (ended_for (u_id u) (clock (Suc 0))) (sessions d)\<rparr>"
  have "advance d (audited t f ?d) \<and> sessions_ended k d (audited t f ?d)" for t f
    by (rule written_and_ended [OF assms Some]) (auto simp: leaves_administrator_def)
  with Some show "wp (managed_user k actor) (\<lambda>user. wp (let changed = user\<lparr>u_password_hash := h, u_password_change_required := True, u_updated_at := clock 0\<rparr> in
       andthen (put_user changed)
        (andthen (revoke_user_sessions (u_id user) (clock 1))
          (andthen (user_audit (clock 2) ''USER_PASSWORD_RESET'' actor changed None) (ret changed))))
      (\<lambda>_ d'. advance d d' \<and> sessions_ended k d d') (\<lambda>_ _. True)) (\<lambda>_ _. True) d"
    by (simp add: wp_simps wp_user_audit user_actions Let_def)
qed (simp_all add: wp_simps)

lemma wp_update_own_password:
  assumes "accounts_wf d"
  shows "wp (update_own_password hash k password clock) (\<lambda>_ d'. advance d d' \<and> sessions_ended k d d') (\<lambda>_ _. True) d"
proof (cases "find_user k d")
  case (Some u)
  have "advance d (d\<lparr>users := us, sessions := ss\<rparr>) \<and> sessions_ended k d (d\<lparr>users := us, sessions := ss\<rparr>)"
    if "us = row_put u_id (u\<lparr>u_password_hash := h, u_password_change_required := False, u_updated_at := clock 0\<rparr>) (users d)"
      "ss = List.map (ended_for (u_id u) (clock (Suc 0))) (sessions d)" for h us ss
    by (rule written_and_ended [OF assms Some]) (use that in \<open>auto simp: leaves_administrator_def\<close>)
  with Some show ?thesis
    unfolding update_own_password_def by (simp add: wp_simps) (intro wp_hash_password, simp_all add: wp_simps Let_def)
qed (simp add: update_own_password_def wp_simps)

lemma wp_reset_administrator_password:
  assumes "accounts_wf d"
  shows "wp (reset_administrator_password hash username password clock) (\<lambda>_ d'. advance d d') (\<lambda>_ _. True) d"
  unfolding reset_administrator_password_def wp_bnd
proof (intro wp_normalize_username)
  fix n
  let ?P = "\<lambda>u. u_username_key u = username_key n \<and> u_role u = ADMIN"
  have written: "advance d (d\<lparr>users := row_put u_id (u\<lparr>u_password_hash := h, u_password_change_required := False, u_updated_at := clock 0\<rparr>) (users d),
      sessions := List.map (ended_for (u_id u) (clock (Suc 0))) (sessions d)\<rparr>)" if "List.find ?P (users d) = Some u" for u h
  proof (rule user_written [OF assms])
    show "u \<in> set (users d)" using that by (auto simp: find_Some_iff)
  qed (auto simp: leaves_administrator_def)
  show "wp (reads (\<lambda>d. List.find ?P (users d))) (\<lambda>administrator. wp (case administrator of
        None \<Rightarrow> raise AdministratorNotFoundError
      | Some u \<Rightarrow> bnd (hash_password hash password) (\<lambda>password_hash.
          let v = u\<lparr>u_password_hash := password_hash, u_password_change_required := False, u_updated_at := clock 0\<rparr> in
          andthen (put_user v) (andthen (revoke_user_sessions (u_id u) (clock 1)) (ret v))))
      (\<lambda>_. advance d) (\<lambda>_ _. True)) (\<lambda>_ _. True) d"
    using written by (cases "List.find ?P (users d)") (auto simp: wp_simps Let_def intro!: wp_hash_password)
qed simp

lemma wp_add_user:
  assumes "accounts_wf d"
  shows "wp (add_user e n h role c now) (\<lambda>u d'. advance d d') (\<lambda>_ _. True) d"
  unfolding add_user_def Let_def
  by (auto simp: wp_simps list_ex_iff intro!: user_added [OF assms])

lemma wp_create_administrator:
  assumes "accounts_wf d"
  shows "wp (create_administrator hash username password clock) (\<lambda>_ d'. advance d d') (\<lambda>_ _. True) d"
  unfolding create_administrator_def wp_bnd wp_reads wp_andthen wp_require
  by (auto intro!: wp_normalize_username wp_hash_password wp_add_user [OF assms])

lemma wp_create_user:
  assumes "accounts_wf d"
  shows "wp (create_user hash username password role actor clock) (\<lambda>_ d'. advance d d') (\<lambda>_ _. True) d"
proof -
  have added: "wp (add_user UsernameAlreadyExistsError n h role True (clock 0))
      (\<lambda>user. wp (andthen (user_audit t ''USER_CREATED'' actor user details) (ret user)) (\<lambda>_. advance d) (\<lambda>_ _. True)) (\<lambda>_ _. True) d"
    for n h details t
    by (rule wp_mono [OF wp_add_user [OF assms]]) (simp_all add: wp_simps wp_user_audit user_actions)
  show ?thesis
    unfolding create_user_def wp_bnd
    by (intro wp_normalize_username wp_hash_password) (simp_all add: wp_reads wp_andthen wp_require wp_bnd added)
qed

section \<open>Sessions\<close>

lemma find_session: "List.find P (sessions d) = Some r \<Longrightarrow> r \<in> set (sessions d) \<and> P r"
  by (auto simp: find_Some_iff)

lemma session_of_token_Some:
  "session_of_token hash_token token d = Some (r, u) \<Longrightarrow> r \<in> set (sessions d) \<and> r_token_hash r = hash_token token
     \<and> find_user (r_user_id r) d = Some u"
  by (auto simp: session_of_token_def split: option.split_asm dest!: find_session)

definition principal_of :: "session_record \<Rightarrow> user \<Rightarrow> principal" where
  "principal_of r u = \<lparr>sp_session_id = r_id r, sp_user_id = u_id u, sp_username = u_username u, sp_role = u_role u,
     sp_password_change_required = u_password_change_required u, sp_csrf_token_hash = r_csrf_token_hash r\<rparr>"

lemma wp_resolve_session:
  assumes "accounts_wf d"
  shows "wp (resolve_session hash_token token now) (\<lambda>x d'. advance d d' \<and> users d' = users d
      \<and> x = (case Option.bind token (\<lambda>t. session_of_token hash_token t d) of None \<Rightarrow> None
             | Some (r, u) \<Rightarrow> if session_over r u now then None else Some (principal_of r u)))
     (\<lambda>_ _. False) d"
proof (cases "Option.bind token (\<lambda>t. session_of_token hash_token t d)")
  case None
  then show ?thesis
    by (cases token) (simp_all add: resolve_session_def wp_simps advance_refl [OF assms])
next
  case (Some x)
  then obtain t r u where t: "token = Some t" "session_of_token hash_token t d = Some (r, u)" "x = (r, u)"
    by (cases token; cases x) auto
  have r: "r \<in> set (sessions d)" using session_of_token_Some [OF t(2)] by blast
  have seen: "advance d (d\<lparr>sessions := row_put r_id (r\<lparr>r_last_seen_at := now\<rparr>) (sessions d)\<rparr>)"
    by (rule session_written [OF assms r]) (simp_all add: same_session_def)
  have ended: "advance d (d\<lparr>sessions := row_put r_id (r\<lparr>r_revoked_at := Some now\<rparr>) (sessions d)\<rparr>)" if "r_revoked_at r = None"
    by (rule session_written [OF assms r]) (simp_all add: same_session_def that)
  show ?thesis
    using seen ended advance_refl [OF assms] t by (simp add: resolve_session_def wp_simps principal_of_def)
qed

lemma wp_revoke_session:
  assumes "accounts_wf d"
  shows "wp (revoke_session k now) (\<lambda>_ d'. advance d d') (\<lambda>_ _. False) d"
proof (cases "row_get r_id k (sessions d)")
  case None
  then show ?thesis by (simp add: revoke_session_def wp_simps advance_refl [OF assms])
next
  case (Some r)
  then have "r \<in> set (sessions d)" using row_get_Some [of r_id k] by blast
  then have "advance d (d\<lparr>sessions := row_put r_id (r\<lparr>r_revoked_at := Some now\<rparr>) (sessions d)\<rparr>)" if "r_revoked_at r = None"
    by (rule session_written [OF assms]) (simp_all add: same_session_def that)
  with Some show ?thesis by (simp add: revoke_session_def wp_simps advance_refl [OF assms])
qed

lemma wp_issue_session:
  assumes "accounts_wf d"
  shows "wp (issue_session hash_token token csrf u now) (\<lambda>_ d'. advance d d') (\<lambda>_ _. True) d"
  unfolding issue_session_def wp_bnd wp_reads wp_andthen wp_require
  by (auto simp: wp_simps list_ex_iff intro!: session_added [OF assms])

text \<open>An attempt to log in touches neither users nor sessions.\<close>

lemma wp_attempt_advance:
  assumes "accounts_wf d"
  shows "wp (attempt_user_login verify dummy_hash username password source_address now) (\<lambda>_ d'. advance d d') (\<lambda>_ _. True) d"
proof (rule wp_mono [OF wp_attempt])
  fix r d'
  assume "attempt_effect verify (tracked_username username) password source_address now d r d'"
  then have "users d' = users d" "sessions d' = sessions d" by (simp_all add: attempt_effect_def attempt_frame_def)
  then show "advance d d'" using advance_cong [of d' d d] advance_refl [OF assms] by simp
qed simp

lemma advance_wf: "advance d d' \<Longrightarrow> accounts_wf d'"
  by (simp add: advance_def)

lemma wp_after:
  assumes "advance d e" "\<And>e. accounts_wf e \<Longrightarrow> wp m (\<lambda>_ d'. advance e d') (\<lambda>_ _. True) e"
  shows "wp m (\<lambda>_ d'. advance d d') (\<lambda>_ _. True) e"
  by (rule wp_mono [OF assms(2) [OF advance_wf [OF assms(1)]]]) (blast intro: advance_trans [OF assms(1)], simp)

lemma wp_ret_fun: "wp (ret x) Q E = Q x"
  by (rule ext) (simp add: wp_ret)

lemma wp_login_request:
  assumes "accounts_wf d"
  shows "wp (login_request_tx verify dummy_hash hash_token token csrf username password source_address clock)
    (\<lambda>_ d'. advance d d') (\<lambda>_ _. True) d"
  unfolding login_request_tx_def wp_rollback wp_bnd
proof (rule wp_mono [OF wp_attempt_advance [OF assms]])
  fix r e
  assume "advance d e"
  then show "wp (case li_user r of None \<Rightarrow> ret (r, None)
      | Some u \<Rightarrow> bnd (issue_session hash_token token csrf u (clock 1)) (\<lambda>issued. ret (r, Some issued)))
      (\<lambda>_. advance d) (\<lambda>_ _. True) e"
    by (cases "li_user r") (auto simp: wp_bnd wp_ret_fun intro!: wp_after [OF _ wp_issue_session])
qed simp

lemma audited_password: "advance d e \<Longrightarrow> wp (password_audit t k res rsn) (\<lambda>_. advance d) (\<lambda>_ _. True) e"
  by (simp add: password_audit_def wp_simps user_actions del: msg_text.simps)

lemma wp_change_own_password:
  assumes "accounts_wf d"
  shows "wp (change_own_password_tx verify dummy_hash hash p current new source_address clock)
    (\<lambda>_ d'. advance d d') (\<lambda>_ _. True) d"
  unfolding change_own_password_tx_def wp_rollback wp_bnd
proof (rule wp_mono [OF wp_attempt_advance [OF assms]])
  fix r e
  assume e: "advance d e"
  have own: "wp (update_own_password hash k pw c) (\<lambda>_ d'. advance d d') (\<lambda>_ _. True) e" for k pw c
    by (rule wp_after [OF e]) (rule wp_mono [OF wp_update_own_password], auto)
  have "wp (update_own_password hash k pw c) (\<lambda>_. wp (password_audit t k res rsn) (\<lambda>_. advance d) (\<lambda>_ _. True)) (\<lambda>_ _. True) e"
    for k pw c t res rsn
    by (rule wp_mono [OF own]) (simp_all add: audited_password)
  with e show "wp (if li_user r = None
      then andthen (password_audit (clock 1) (sp_user_id p) AUDIT_RESULT_FAILURE (Some ''CURRENT_PASSWORD_REJECTED'')) (ret (r, False))
      else if new = current
      then andthen (password_audit (clock 1) (sp_user_id p) AUDIT_RESULT_FAILURE (Some ''NEW_PASSWORD_MATCHES_CURRENT'')) (ret (r, True))
      else andthen (andthen (update_own_password hash (sp_user_id p) new (\<lambda>i. clock (i + 1)))
          (password_audit (clock 3) (sp_user_id p) AUDIT_RESULT_SUCCESS None)) (ret (r, False)))
      (\<lambda>_. advance d) (\<lambda>_ _. True) e"
    by (simp add: wp_andthen wp_ret_fun audited_password)
qed simp

section \<open>Any sequence of operations\<close>

inductive account_step :: "db \<Rightarrow> db \<Rightarrow> bool" where
  created_administrator: "create_administrator hash username password clock d = (Inr u, d') \<Longrightarrow> account_step d d'"
| reset_administrator: "reset_administrator_password hash username password clock d = (Inr u, d') \<Longrightarrow> account_step d d'"
| created_user: "create_user hash username password role actor clock d = (Inr u, d') \<Longrightarrow> account_step d d'"
| role_changed: "change_user_role k role actor clock d = (Inr u, d') \<Longrightarrow> account_step d d'"
| status_changed: "set_user_active k active actor clock d = (Inr u, d') \<Longrightarrow> account_step d d'"
| password_reset: "reset_user_password hash k password actor clock d = (Inr u, d') \<Longrightarrow> account_step d d'"
| own_password: "change_own_password_tx verify dummy_hash hash p current new source_address clock d = (Inr x, d') \<Longrightarrow> account_step d d'"
| logged_in: "login_request_tx verify dummy_hash hash_token token csrf username password source_address clock d = (Inr y, d')
    \<Longrightarrow> account_step d d'"
| resolved: "resolve_session hash_token cookie now d = (Inr z, d') \<Longrightarrow> account_step d d'"
| logged_out: "revoke_session k now d = (Inr w, d') \<Longrightarrow> account_step d d'"
| elsewhere: "users d' = users d \<Longrightarrow> sessions d' = sessions d \<Longrightarrow> account_step d d'"

inductive_cases account_stepE: "account_step d d'"

lemma step_advance: "account_step d d' \<Longrightarrow> accounts_wf d \<Longrightarrow> advance d d'"
proof (induction rule: account_step.induct)
  case (role_changed k role actor clock d u d')
  then show ?case using wp_InrD [OF wp_change_user_role] by blast
next
  case (status_changed k active actor clock d u d')
  then show ?case using wp_InrD [OF wp_set_user_active] by blast
next
  case (password_reset hash k password actor clock d u d')
  then show ?case using wp_InrD [OF wp_reset_user_password] by blast
next
  case (resolved hash_token cookie now d z d')
  then show ?case using wp_InrD [OF wp_resolve_session] by blast
next
  case (elsewhere d' d)
  then show ?case using advance_cong [of d' d d] advance_refl by simp
qed (blast dest: wp_InrD [OF wp_create_administrator] wp_InrD [OF wp_reset_administrator_password] wp_InrD [OF wp_create_user]
    wp_InrD [OF wp_change_own_password] wp_InrD [OF wp_login_request] wp_InrD [OF wp_revoke_session])+

lemma steps_advance: "account_step\<^sup>*\<^sup>* d d' \<Longrightarrow> accounts_wf d \<Longrightarrow> advance d d'"
proof (induction rule: rtranclp_induct)
  case (step e f)
  then show ?case using step_advance advance_wf advance_trans by blast
qed (rule advance_refl)

lemma find_token: "distinct (List.map f xs) \<Longrightarrow> r \<in> set xs \<Longrightarrow> List.find (\<lambda>s. f s = f r) xs = Some r"
  by (induction xs) (auto simp: image_iff)

lemma token_session:
  assumes "accounts_wf d" "r \<in> set (sessions d)" "r_token_hash r = hash_token token"
  shows "session_of_token hash_token token d = map_option (Pair r) (find_user (r_user_id r) d)"
  using find_token [of r_token_hash "sessions d" r] assms by (simp add: session_of_token_def accounts_wf_def)

text \<open>A session that is over is refused.\<close>

lemma over_refused:
  assumes "accounts_wf d" "r \<in> set (sessions d)" "r_token_hash r = hash_token token" "r_revoked_at r \<noteq> None \<or> r_expires_at r \<le> now"
  shows "\<exists>d'. resolve_session hash_token (Some token) now d = (Inr None, d')"
proof -
  have "(case session_of_token hash_token token d of None \<Rightarrow> None
      | Some (r, u) \<Rightarrow> if session_over r u now then None else Some (principal_of r u)) = None"
    using token_session [OF assms(1,2), of hash_token token] assms(3,4) by (auto simp: session_over_def split: option.split)
  then show ?thesis
    using wp_resolve_session [OF assms(1), of hash_token "Some token" now] by (auto simp: wp_def split: prod.split_asm sum.split_asm)
qed

lemma stays_over:
  assumes "accounts_wf d" "account_step\<^sup>*\<^sup>* d d'" "r \<in> set (sessions d)" "r_token_hash r = hash_token token"
    and "r_revoked_at r \<noteq> None \<or> r_expires_at r \<le> now"
  shows "\<exists>d''. resolve_session hash_token (Some token) now d' = (Inr None, d'')"
proof -
  have adv: "advance d d'" by (rule steps_advance [OF assms(2,1)])
  then obtain r' where "r' \<in> set (sessions d')" "same_session r r'"
    using assms(3) by (auto simp: advance_def sessions_kept_def)
  then show ?thesis
    using over_refused [OF advance_wf [OF adv], of r' hash_token token now] assms(4,5) by (auto simp: same_session_def)
qed

section \<open>Operations that end sessions\<close>

locale session_ender =
  fixes run :: "'q \<Rightarrow> (db, user) prog"
    and target :: "'q \<Rightarrow> int"
  assumes ends: "accounts_wf d \<Longrightarrow> wp (run q) (\<lambda>_ d'. advance d d' \<and> sessions_ended (target q) d d') (\<lambda>_ _. True) d"
begin

lemma refused_from_then_on:
  assumes "accounts_wf d" "run q d = (Inr u, d1)" "users d1 \<noteq> users d" "account_step\<^sup>*\<^sup>* d1 d2"
    and "r \<in> set (sessions d1)" "r_user_id r = target q" "r_token_hash r = hash_token token"
  shows "\<exists>d3. resolve_session hash_token (Some token) now d2 = (Inr None, d3)"
proof -
  from wp_InrD [OF ends [OF assms(1)] assms(2)] have "advance d d1" "sessions_ended (target q) d d1" by simp_all
  then have "accounts_wf d1" "r_revoked_at r \<noteq> None" using assms(3,5,6) by (auto simp: advance_wf sessions_ended_def)
  with stays_over [where hash_token = hash_token and token = token, OF _ assms(4,5,7)] show ?thesis by blast
qed

end

interpretation role_change: session_ender "\<lambda>(k, role, actor, clock). change_user_role k role actor clock" fst
  by unfold_locales (auto intro: wp_change_user_role)

interpretation status_change: session_ender "\<lambda>(k, active, actor, clock). set_user_active k active actor clock" fst
  by unfold_locales (auto intro: wp_set_user_active)

interpretation reset_change: session_ender "\<lambda>(k, hash, password, actor, clock). reset_user_password hash k password actor clock" fst
  by unfold_locales (auto intro: wp_reset_user_password)

interpretation own_change: session_ender "\<lambda>(k, hash, password, clock). update_own_password hash k password clock" fst
  by unfold_locales (auto intro: wp_update_own_password)

section \<open>Properties\<close>

text \<open>
  C37: the last active administrator stays. Once there is an active administrator there is one after any sequence
  of operations on accounts and sessions, and names, identifiers and tokens stay unique.
\<close>

theorem active_administrator_kept:
  assumes "accounts_wf d" "administered d" "account_step\<^sup>*\<^sup>* d d'"
  shows "administered d' \<and> accounts_wf d'"
  using steps_advance [OF assms(3,1)] assms(2) by (simp add: advance_def)

text \<open>
  C38: a session that was ended, or whose eight hours are over, never comes back. After any sequence of
  operations its token is refused.
\<close>

theorem session_ends_for_good:
  assumes "accounts_wf d" "r \<in> set (sessions d)" "r_token_hash r = hash_token token"
    and "r_revoked_at r \<noteq> None \<or> r_expires_at r \<le> now" "account_step\<^sup>*\<^sup>* d d'"
  shows "\<exists>d''. resolve_session hash_token (Some token) now d' = (Inr None, d'')"
  by (rule stays_over [where hash_token = hash_token and token = token, OF assms(1,5,2,3,4)])

text \<open>
  C39: whoever loses a role, is deactivated or gets another password has to log in again. When one of these
  changes has changed the user, every session that user had is refused from then on.
\<close>

theorem user_change_ends_sessions:
  assumes "accounts_wf d"
    and "change_user_role k role actor clock d = (Inr u, d1) \<or> set_user_active k active actor clock d = (Inr u, d1)
      \<or> reset_user_password hash k password actor clock d = (Inr u, d1) \<or> update_own_password hash k password clock d = (Inr u, d1)"
    and "users d1 \<noteq> users d" "account_step\<^sup>*\<^sup>* d1 d2"
    and "r \<in> set (sessions d1)" "r_user_id r = k" "r_token_hash r = hash_token token"
  shows "\<exists>d3. resolve_session hash_token (Some token) now d2 = (Inr None, d3)"
proof -
  from assms(2) show ?thesis
  proof (elim disjE)
    assume "change_user_role k role actor clock d = (Inr u, d1)"
    then show ?thesis by (intro role_change.refused_from_then_on [where q = "(k, role, actor, clock)", OF assms(1) _ assms(3-5)]) (use assms(6,7) in simp_all)
  next
    assume "set_user_active k active actor clock d = (Inr u, d1)"
    then show ?thesis by (intro status_change.refused_from_then_on [where q = "(k, active, actor, clock)", OF assms(1) _ assms(3-5)]) (use assms(6,7) in simp_all)
  next
    assume "reset_user_password hash k password actor clock d = (Inr u, d1)"
    then show ?thesis by (intro reset_change.refused_from_then_on [where q = "(k, hash, password, actor, clock)", OF assms(1) _ assms(3-5)]) (use assms(6,7) in simp_all)
  next
    assume "update_own_password hash k password clock d = (Inr u, d1)"
    then show ?thesis by (intro own_change.refused_from_then_on [where q = "(k, hash, password, clock)", OF assms(1) _ assms(3-5)]) (use assms(6,7) in simp_all)
  qed
qed

text \<open>The parts of the application that are only for administrators.\<close>

definition ADMINISTRATOR_AREAS :: "string list" where
  "ADMINISTRATOR_AREAS = [''/users'', ''/audit'', ''/players'', ''/palworld-settings'', ''/manager-settings'', ''/updates'',
     ''/logs'', ''/host-power'', ''/diagnostics'']"

definition in_administrator_area :: "string \<Rightarrow> bool" where
  "in_administrator_area path \<longleftrightarrow> list_ex (starts_with path) ADMINISTRATOR_AREAS"

lemma job_path_prefix: "job_path prefix suffixes path \<Longrightarrow> starts_with path prefix"
  by (simp add: job_path_def)

lemma starts_with_split: "starts_with s p \<Longrightarrow> \<exists>r. s = p @ r"
  by (induction s p rule: starts_with.induct) auto

lemma starts_with_dashboard: "starts_with path (''/dashboard'' @ rest) \<Longrightarrow> \<not> in_administrator_area path"
  by (drule starts_with_split) (auto simp: in_administrator_area_def ADMINISTRATOR_AREAS_def)

lemma user_paths_outside:
  "path \<in> set (USER_GET_PATHS @ USER_POST_PATHS) \<Longrightarrow> \<not> in_administrator_area path"
  "user_get_pattern path \<or> user_post_pattern path \<Longrightarrow> \<not> in_administrator_area path"
proof -
  have "list_all (\<lambda>path. \<not> in_administrator_area path) (USER_GET_PATHS @ USER_POST_PATHS)"
    by code_simp
  then show "path \<in> set (USER_GET_PATHS @ USER_POST_PATHS) \<Longrightarrow> \<not> in_administrator_area path" by (simp add: list_all_iff)
  assume "user_get_pattern path \<or> user_post_pattern path"
  then show "\<not> in_administrator_area path"
    using starts_with_dashboard [of path "''/lifecycle/jobs/''"] starts_with_dashboard [of path "''/shutdown/jobs/''"]
    by (auto simp: user_get_pattern_def user_post_pattern_def dest: job_path_prefix)
qed

text \<open>
  C40: only a live session of an active user passes, and only where its user may go. A request that is handed on is
  for a public path or carries the token of a session that is neither revoked, nor expired, nor idle for an
  hour; a user with a temporary password gets to the password page only, and a plain user to no area of the
  administrators.
\<close>

theorem requests_guarded:
  assumes "accounts_wf d" "guard_request hash_token meth path cookie now d = (Inr (Forwarded x), d')" "\<not> is_public_path path"
  shows "\<exists>token r u. cookie = Some token \<and> x = Some (principal_of r u) \<and> r \<in> set (sessions d) \<and> r_token_hash r = hash_token token
    \<and> find_user (r_user_id r) d = Some u \<and> u_is_active u \<and> r_revoked_at r = None \<and> now < r_expires_at r
    \<and> now < r_last_seen_at r + SESSION_INACTIVITY_TIMEOUT
    \<and> (u_password_change_required u \<longrightarrow> password_change_path_is_allowed meth path)
    \<and> (u_role u = USER \<longrightarrow> request_is_authorized (principal_of r u) meth path \<and> \<not> in_administrator_area path)"
proof -
  let ?s = "Option.bind cookie (\<lambda>t. session_of_token hash_token t d)"
  have "wp (guard_request hash_token meth path cookie now) (\<lambda>a _. \<forall>x. a = Forwarded x \<longrightarrow>
      (\<exists>r u. ?s = Some (r, u) \<and> \<not> session_over r u now \<and> x = Some (principal_of r u)
        \<and> (u_password_change_required u \<longrightarrow> password_change_path_is_allowed meth path)
        \<and> request_is_authorized (principal_of r u) meth path)) (\<lambda>_ _. True) d"
    using assms(3) unfolding guard_request_def
    by (auto simp: wp_simps principal_of_def intro!: wp_mono [OF wp_resolve_session [OF assms(1)]] split: option.splits if_split_asm)
  from wp_InrD [OF this assms(2)] obtain r u where ru: "?s = Some (r, u)" "\<not> session_over r u now" "x = Some (principal_of r u)"
    "u_password_change_required u \<longrightarrow> password_change_path_is_allowed meth path" "request_is_authorized (principal_of r u) meth path"
    by blast
  from ru(1) obtain token where t: "cookie = Some token" "session_of_token hash_token token d = Some (r, u)"
    by (cases cookie) auto
  have "\<not> in_administrator_area path" if "u_role u = USER"
    using ru(5) that user_paths_outside [of path] by (auto simp: request_is_authorized_def principal_of_def split: if_split_asm)
  with ru t session_of_token_Some [OF t(2)] show ?thesis
    by (intro exI [of _ token] exI [of _ r] exI [of _ u]) (auto simp: session_over_def)
qed

text \<open>Two administrators, and a session of the second.\<close>

definition staffed_db :: db where
  "staffed_db = empty_db\<lparr>
     users := [\<lparr>u_id = 1, u_username = ''First'', u_username_key = ''first'', u_password_hash = ''x'', u_role = ADMIN, u_is_active = True,
         u_password_change_required = False, u_updated_at = 0\<rparr>,
       \<lparr>u_id = 2, u_username = ''Second'', u_username_key = ''second'', u_password_hash = ''y'', u_role = ADMIN, u_is_active = True,
         u_password_change_required = False, u_updated_at = 0\<rparr>],
     sessions := [\<lparr>r_id = 1, r_user_id = 2, r_token_hash = ''t'', r_csrf_token_hash = ''c'', r_expires_at = 100, r_last_seen_at = 0,
         r_revoked_at = None\<rparr>]\<rparr>"

lemma staffed: "accounts_wf staffed_db" "administered staffed_db" "r \<in> set (sessions staffed_db) \<Longrightarrow> r_user_id r = 2 \<and> r_token_hash r = ''t'' \<and> r_expires_at r = 100"
  by (auto simp: staffed_db_def accounts_wf_def administered_def)

lemma demotion:
  "\<exists>u d1. change_user_role 2 USER 1 (\<lambda>_. 5) staffed_db = (Inr u, d1) \<and> users d1 \<noteq> users staffed_db
    \<and> sessions d1 = List.map (ended_for 2 5) (sessions staffed_db)"
proof -
  have "wp (change_user_role 2 USER 1 (\<lambda>_. 5)) (\<lambda>u d1. users d1 \<noteq> users staffed_db
      \<and> sessions d1 = List.map (ended_for 2 5) (sessions staffed_db)) (\<lambda>_ _. False) staffed_db"
    by (simp add: change_user_role_def wp_simps wp_user_audit user_actions Let_def find_user_def row_get_def staffed_db_def
        active_administrators_def row_put_def)
  then show ?thesis by (auto simp: wp_def split: prod.split_asm sum.split_asm)
qed

theorem active_administrator_kept_witness:
  "\<exists>u d1. change_user_role 2 USER 1 (\<lambda>_. 5) staffed_db = (Inr u, d1) \<and> administered d1 \<and> accounts_wf d1"
proof -
  obtain u d1 where c: "change_user_role 2 USER 1 (\<lambda>_. 5) staffed_db = (Inr u, d1)" using demotion by blast
  then have "account_step\<^sup>*\<^sup>* staffed_db d1" by (blast intro: account_step.role_changed)
  with c active_administrator_kept [OF staffed(1,2)] show ?thesis by blast
qed

theorem session_ends_for_good_witness:
  "\<exists>u d1 d2. change_user_role 2 USER 1 (\<lambda>_. 5) staffed_db = (Inr u, d1) \<and> resolve_session id (Some ''t'') 100 d1 = (Inr None, d2)"
proof -
  obtain u d1 where c: "change_user_role 2 USER 1 (\<lambda>_. 5) staffed_db = (Inr u, d1)" using demotion by blast
  then have "account_step\<^sup>*\<^sup>* staffed_db d1" by (blast intro: account_step.role_changed)
  moreover obtain r where "r \<in> set (sessions staffed_db)" by (auto simp: staffed_db_def)
  ultimately show ?thesis
    using c session_ends_for_good [where hash_token = id and token = "''t''" and now = 100, OF staffed(1)] staffed(3) by fastforce
qed

theorem user_change_ends_sessions_witness:
  "\<exists>u d1 d2. change_user_role 2 USER 1 (\<lambda>_. 5) staffed_db = (Inr u, d1) \<and> resolve_session id (Some ''t'') 6 d1 = (Inr None, d2)"
proof -
  obtain u d1 where c: "change_user_role 2 USER 1 (\<lambda>_. 5) staffed_db = (Inr u, d1)" "users d1 \<noteq> users staffed_db"
    "sessions d1 = List.map (ended_for 2 5) (sessions staffed_db)" using demotion by blast
  obtain r where r: "r \<in> set (sessions d1)" "r_user_id r = 2" "r_token_hash r = id ''t''"
    by (auto simp: c(3) staffed_db_def ended_for_def)
  have "\<exists>d3. resolve_session id (Some ''t'') 6 d1 = (Inr None, d3)"
    by (rule user_change_ends_sessions [where hash_token = id and d = staffed_db and k = 2 and role = USER and actor = 1
          and clock = "\<lambda>_. 5" and active = True and hash = id and password = "[]" and u = u])
      (use staffed(1) c(1,2) r in \<open>simp_all add: rtranclp.rtrancl_refl\<close>)
  with c(1) show ?thesis by blast
qed

theorem requests_guarded_witness:
  "\<exists>r u d'. guard_request id ''GET'' ''/users'' (Some ''t'') 7 staffed_db = (Inr (Forwarded (Some (principal_of r u))), d')
    \<and> find_user (r_user_id r) staffed_db = Some u \<and> u_is_active u"
proof -
  have public: "\<not> is_public_path ''/users''" by (simp add: is_public_path_def)
  have "wp (guard_request id ''GET'' ''/users'' (Some ''t'') 7) (\<lambda>a _. \<exists>x. a = Forwarded x) (\<lambda>_ _. False) staffed_db"
    unfolding guard_request_def if_not_P [OF public] wp_bnd wp_rollback
    by (rule wp_mono [OF wp_resolve_session [OF staffed(1)]])
      (auto simp: session_of_token_def find_user_def row_get_def staffed_db_def session_over_def SESSION_INACTIVITY_TIMEOUT_def
        seconds_def request_is_authorized_def principal_of_def wp_ret)
  then obtain x d' where g: "guard_request id ''GET'' ''/users'' (Some ''t'') 7 staffed_db = (Inr (Forwarded x), d')"
    by (auto simp: wp_def split: prod.split_asm sum.split_asm)
  from requests_guarded [OF staffed(1) g public] g show ?thesis by blast
qed

end
