(* ===== verification/Spec2Isabelle.thy ===== *)
theory Spec2Isabelle
  imports Heartbeat WorkerSafe UpdateSafe RestoreSafe RestorePrepare AccountSafe
begin

text \<open>
  Palworld Manager is a web application and a worker process that share one SQLite database. The web
  process (FastAPI, \<open>src/app/main.py\<close> and the routers) queues jobs, asks for their cancellation and saves
  settings; the worker (\<open>src/app/worker.py\<close>) claims one job at a time and operates the Palworld server:
  start, stop, assisted and forced shutdown, reboot, backups, Google Drive, updates and restores. What
  makes it hard is the interleaving of the two processes, the many services that may fail at any call, and
  the world files that may not get lost on any of those paths. That is what this development models.

  \<^bold>\<open>How the code is modelled.\<close>
  A statement is a program \<open>('s, 'a) prog\<close> (\<open>Prelude\<close>): from a state to a value or an exception (\<open>exn\<close>)
  and a new state. \<open>bnd\<close>, \<open>andthen\<close>, \<open>handle\<close>, \<open>always\<close> and \<open>require\<close> are sequencing, try/except,
  try/finally and guarded raise; \<open>wp\<close> is the weakest precondition the lemmas are stated with. The
  database (\<open>Store\<close>, \<open>src/app/db\<close>) is a record of tables, each a list of rows with an integer key; a
  transaction is a program on it that \<open>rollback\<close> undoes when it raises. The world (\<open>World\<close>) is the
  database, the number of calls made, the files under the data directory and the trace of the calls. A
  service (systemd, REST, SteamCMD, Google Drive, the disk, the clock) is a field of the record \<open>env\<close>: a
  function of the number of calls made so far, so a theorem about every \<open>env\<close> is a theorem about every
  behaviour of the services. One field, \<open>e_interfere\<close>, changes the database at each call: it is what the other
  process does between two statements of the worker.
  Times are integers, microseconds since 1970; texts are lists of Latin-1 code points (\<open>PyText\<close>), with
  the letters of the Portuguese messages; Python's integers are \<open>int\<close>.

  \<^bold>\<open>The theories.\<close>
  \<^item> \<open>Prelude\<close>, \<open>PyText\<close>, \<open>Calendar\<close>: programs, tables, dictionaries; the parts of \<open>str\<close>, \<open>re\<close>, \<open>json\<close>, \<open>float\<close>
    and \<open>datetime\<close> the code uses.
  \<^item> \<open>Store\<close>, \<open>World\<close>, \<open>Producer\<close>, \<open>JobRun\<close>, \<open>FileFrame\<close>: the rows, the environment, and what all
    producers and all executors of jobs share, as locales their models interpret.
  \<^item> \<open>AuditTrail\<close> (\<open>src/app/audit/service.py\<close>): redaction, limits, retention, recording.
  \<^item> \<open>Jobs\<close> (\<open>src/app/jobs/service.py\<close>): claim, maintenance lock, recovery; the invariant of the queue.
  \<^item> \<open>Systemd\<close> (\<open>src/app/system\<close>, \<open>src/app/health\<close>), \<open>Heartbeat\<close> (\<open>src/app/jobs/heartbeat.py\<close>, \<open>health.py\<close>):
    what the host answers, the lease of the worker.
  \<^item> \<open>Lifecycle\<close>, \<open>Shutdown\<close>, \<open>HostPower\<close>: the operations on the server and the host, queue and executor.
  \<^item> \<open>Notifications\<close>, \<open>ManagerSettings\<close>: the delivery of notifications, the settings and their version.
  \<^item> \<open>Artifacts\<close>, \<open>BackupQueue\<close>, \<open>BackupRun\<close>, \<open>DriveQueue\<close>, \<open>DriveRun\<close> (\<open>src/app/backups\<close>): archives on disk,
    queue, retention and schedule, and the executors of local and remote operations.
  \<^item> \<open>SteamText\<close>, \<open>UpdateQueue\<close>, \<open>UpdateRun\<close>, \<open>UpdateTrace\<close>, \<open>UpdateSafe\<close> (\<open>src/app/updates\<close>).
  \<^item> \<open>PalworldIni\<close>, \<open>SettingValues\<close>, \<open>PalworldSettings\<close> (\<open>src/app/palworld_settings\<close>): reading and editing
    PalWorldSettings.ini, the values of its settings, the storages and the service.
  \<^item> \<open>RestoreRun\<close>, \<open>RestoreSafe\<close> (\<open>src/app/restores/jobs.py\<close>): the queue and the executor of restores.
  \<^item> \<open>BackupManifest\<close> (\<open>src/app/backups/manifest.py\<close>); \<open>RestoreMerge\<close>, \<open>RelatedSettings\<close>, \<open>RestoreFiles\<close>,
    \<open>RestorePrepare\<close> (\<open>src/app/restores/service.py\<close>): what is in an archive, how its settings are merged with
    those of the server, how the files of the server are replaced, and how a restore is prepared.
  \<^item> \<open>Login\<close>, \<open>Accounts\<close>, \<open>AccountSafe\<close> (\<open>src/app/auth\<close>, \<open>src/app/users\<close>, \<open>src/app/account\<close>): passwords, the protection
    of the login, sessions, users and their permissions, and what they keep in any sequence of requests.
  \<^item> \<open>WorkerLoop\<close> (\<open>src/app/lifecycle/worker.py\<close>, \<open>src/app/worker.py\<close>, \<open>src/app/jobs/logs.py\<close>), \<open>QueueSteps\<close>,
    \<open>WebRequests\<close>, \<open>QueueRun\<close>, \<open>WorkerSafe\<close>: one step of the worker as a whole, beside the requests of
    the web process.

  \<^bold>\<open>What the lemmas show.\<close>
  Every transaction of both processes is a step of \<open>queue_step\<close>, an inductive relation on databases that keeps
  the invariant of the queue; \<open>queue_step_refines\<close> maps it to an abstract queue with one lock, and
  \<open>worker_refines_queue\<close> does so for a whole step of the worker, whatever the services answer and whatever the
  web process requests in between: \<open>web_request\<close> lists its writes to this database, from the jobs it queues and
  cancels to logins, accounts, settings and events; saving the settings of the server and acting on players change only
  the audit trail of it. A job is over when its executor returns, of whatever kind it is. A job whose executor raised is
  ended by the handler, except for backups, restores and Drive jobs, whose executors do that themselves where they can.
  Each executor has a lemma on how its job ends, and the safety properties
  of updates, restores, host power and shutdown are read off the trace: the server's files change only after
  a published backup and a confirmed stop. Polling and waiting loops are programs with fuel; \<open>monotonic\<close> time
  grows by what is slept, and the termination properties give the fuel that is enough, the timeout divided
  by the interval. Loops over a finite collection are structural.

  Files have theorems of their own. The reader of PalWorldSettings.ini is shown equivalent to a grammar of
  balanced texts, its edits to change nothing but the edited values, and saving to leave the old file or the
  whole new one with a backup. Writing an archive and validating it is a round trip; what is extracted from a
  valid archive is exactly what its manifest lists. Settings that span lines are read and rendered back; what an edit
  of a file does to the entries that were not edited is stated for settings on one line. \<open>RestorePrepare\<close> joins these with the merging of the
  settings: a restore that returns has installed a checked backup and kept the secrets of the server, and one
  that fails has left the old world complete. These programs run on states of their own (\<open>site\<close>, \<open>target\<close>),
  where every call of the operating system may fail and leave a part of its work; both storages of the
  settings are interpretations of one locale.

  Accounts are a relation of their own, \<open>account_step\<close>: every committed operation on users and sessions, or anything
  that leaves both alone. The last active administrator, the end of a session and the uniqueness of names survive
  any sequence of its steps. The bound on password guesses holds for any list of requests within fifteen minutes, in the
  order in which they are served and at times that do not go back, beside any change of the other tables; that a password
  was not checked means there that the answer is the same for any outcome of its verification.

  \<^bold>\<open>Not modelled.\<close>
  The HTTP, HTML and command-line layers, the gzip and Drive transports, and the probes of the diagnostics page:
  what they answer is a field of the environment. A tar file is the list of its members. SHA-256, the reader of
  JSON, \<open>datetime.fromisoformat\<close>, \<open>ZoneInfo\<close>, SQLite's integrity check and decoding UTF-8 are parameters.
  JSON has no floating-point values here: a manifest whose version is written 1.0, which the code takes for 1,
  is not represented. Nobody else is assumed to change the files of the server during one call of the settings
  or of a restore. The wording of notifications and of log lines is kept only where a decision depends on it.
  Characters outside Latin-1 are not represented.
\<close>

text \<open>
  Downloading and deleting one remote backup exclude each other. While a job queued by either is
  active, neither accepts another one for the same record.
\<close>

theorem drive_remote_exclusive:
  assumes "enqueue_drive_download k u now d = (Inr j, d') \<or> enqueue_drive_delete k u now d = (Inr j, d')"
  shows "(\<exists>e d''. enqueue_drive_download k u2 now2 d' = (Inl e, d''))
    \<and> (\<exists>e d''. enqueue_drive_delete k u2 now2 d' = (Inl e, d''))"
proof -
  let ?run = "\<lambda>x. case x of Inl (u, now) \<Rightarrow> enqueue_drive_download k u now | Inr (u, now) \<Rightarrow> enqueue_drive_delete k u now"
  from assms obtain a where "?run a d = (Inr j, d')"
    by (metis (no_types, lifting) old.prod.case sum.case)
  from drive_remote_producer.enqueue_twice [OF this, of "Inl (u2, now2)"]
    drive_remote_producer.enqueue_twice [OF this, of "Inr (u2, now2)"]
  show ?thesis by simp
qed

theorem drive_remote_exclusive_witness:
  "(\<exists>e d''. enqueue_drive_download 1 7 5 (snd (enqueue_drive_delete 1 7 0 (w_db full_drive))) = (Inl e, d''))
    \<and> (\<exists>e d''. enqueue_drive_delete 1 7 5 (snd (enqueue_drive_delete 1 7 0 (w_db full_drive))) = (Inl e, d''))"
proof -
  have "\<not> active_with_key (drive_remote_key 1) (w_db full_drive)"
    by (simp add: full_drive_def start_world_def active_with_key_def empty_db_def)
  then have "wp (enqueue_drive_delete 1 7 0) (\<lambda>_ _. True) (\<lambda>_ _. False) (w_db full_drive)"
    by (auto simp: enqueue_drive_delete_def wp_simps full_drive_def start_world_def find_backup_def row_get_def
        valid_record_def sample_name_ok intro!: wp_mono [OF wp_drive_enqueue])
  then obtain j where "enqueue_drive_delete 1 7 0 (w_db full_drive)
      = (Inr j, snd (enqueue_drive_delete 1 7 0 (w_db full_drive)))"
    by (auto simp: wp_def split: prod.splits sum.splits)
  then show ?thesis using drive_remote_exclusive by blast
qed

end
